(* ===== verification/Prelude.thy ===== *)
theory Prelude
  imports Main "HOL-Library.Sublist"
begin

text \<open>
  Shared vocabulary of the development: the fact collections, the Rust string routines the sources
  call (\<^verbatim>\<open>str::split\<close>, \<^verbatim>\<open>split_once\<close>, \<^verbatim>\<open>strip_prefix\<close>, \<^verbatim>\<open>trim\<close>,
  \<^verbatim>\<open>parse::<u64>\<close>, integer \<^verbatim>\<open>Display\<close>), results as sums, and the relational core that the
  store's SQL statements are written with (a table is the list of its rows).

  A Rust \<^verbatim>\<open>String\<close> is the \<^typ>\<open>string\<close> of its UTF-8 bytes, so \<^const>\<open>length\<close> is
  \<^verbatim>\<open>str::len\<close> and \<^verbatim>\<open>octet_length\<close>.
\<close>

named_theorems store_defs \<open>definitions of the SQL statements and store operations\<close>
named_theorems row_simps \<open>rewrite rules for columns the statements leave alone\<close>
named_theorems keep \<open>operations keep the store invariant\<close>

section \<open>Results\<close>

text \<open>\<^verbatim>\<open>Result<T, E>\<close> is \<^typ>\<open>'e + 'a\<close>, with \<^const>\<open>Inl\<close> for \<^verbatim>\<open>Err\<close>.\<close>

fun ok :: "'e + 'a \<Rightarrow> 'a option" where
  "ok (Inr a) = Some a"
| "ok (Inl e) = None"

fun res_map :: "('a \<Rightarrow> 'b) \<Rightarrow> 'e + 'a \<Rightarrow> 'e + 'b" where
  "res_map f (Inr a) = Inr (f a)"
| "res_map f (Inl e) = Inl e"

fun res_bind :: "'e + 'a \<Rightarrow> ('a \<Rightarrow> 'e + 'b) \<Rightarrow> 'e + 'b" where
  "res_bind (Inr a) f = f a"
| "res_bind (Inl e) f = Inl e"

fun collect_results :: "('e + 'a) list \<Rightarrow> 'e + 'a list" where
  "collect_results [] = Inr []"
| "collect_results (Inl e # rs) = Inl e"
| "collect_results (Inr a # rs) = res_map ((#) a) (collect_results rs)"

lemma res_map_Inr_iff [simp]: "res_map f r = Inr b \<longleftrightarrow> (\<exists>a. r = Inr a \<and> b = f a)"
  by (cases r) auto

lemma res_bind_Inr_iff [simp]: "res_bind r f = Inr b \<longleftrightarrow> (\<exists>a. r = Inr a \<and> f a = Inr b)"
  by (cases r) auto

lemma collect_results_map_Inr [simp]: "collect_results (map (\<lambda>x. Inr (f x)) xs) = Inr (map f xs)"
  by (induction xs) auto

lemma collect_results_all_ok:
  assumes "\<And>x. x \<in> set xs \<Longrightarrow> f x = Inr (g x)"
  shows "collect_results (map f xs) = Inr (map g xs)"
  using assms by (induction xs) auto

lemma collect_results_Inr_map:
  "collect_results (map f xs) = Inr ys \<longleftrightarrow> map f xs = map Inr ys"
proof (induction xs arbitrary: ys)
  case (Cons x xs)
  show ?case by (cases "f x"; cases ys) (auto simp: Cons.IH)
qed auto

section \<open>Strings\<close>

definition starts_with :: "string \<Rightarrow> string \<Rightarrow> bool" where
  "starts_with s p \<longleftrightarrow> take (length p) s = p"

definition strip_prefix :: "string \<Rightarrow> string \<Rightarrow> string option" where
  "strip_prefix p s = (if starts_with s p then Some (drop (length p) s) else None)"

fun split_once :: "char \<Rightarrow> string \<Rightarrow> (string \<times> string) option" where
  "split_once c [] = None"
| "split_once c (x # xs) =
     (if x = c then Some ([], xs) else map_option (\<lambda>(a, b). (x # a, b)) (split_once c xs))"

fun split_on :: "char \<Rightarrow> string \<Rightarrow> string list" where
  "split_on c [] = [[]]"
| "split_on c (x # xs) =
     (if x = c then [] # split_on c xs
      else case split_on c xs of [] \<Rightarrow> [[x]] | s # ss \<Rightarrow> (x # s) # ss)"

fun join_with :: "string \<Rightarrow> string list \<Rightarrow> string" where
  "join_with sep [] = []"
| "join_with sep [s] = s"
| "join_with sep (s # t # ss) = s @ sep @ join_with sep (t # ss)"

lemma starts_with_append: "starts_with s p \<Longrightarrow> starts_with (s @ v) p"
proof -
  assume p: "starts_with s p"
  then have "length p \<le> length s" unfolding starts_with_def by (metis length_take min.cobounded1 min.commute)
  with p show ?thesis by (simp add: starts_with_def)
qed

lemma starts_with_single: "starts_with s [c] \<longleftrightarrow> s \<noteq> [] \<and> hd s = c"
  by (cases s) (auto simp: starts_with_def)

lemma strip_prefix_append [simp]: "strip_prefix p (p @ s) = Some s"
  by (simp add: strip_prefix_def starts_with_def)

lemma strip_prefix_Some: "strip_prefix p s = Some t \<longleftrightarrow> s = p @ t"
  by (auto simp: strip_prefix_def starts_with_def) (metis append_take_drop_id)

lemma split_once_None: "split_once c s = None \<longleftrightarrow> c \<notin> set s"
  by (induction s) auto

lemma split_once_Some: "split_once c s = Some (a, b) \<longleftrightarrow> s = a @ c # b \<and> c \<notin> set a"
proof (induction s arbitrary: a)
  case (Cons x xs)
  show ?case by (cases a) (auto simp: Cons.IH)
qed auto

lemma split_once_append [simp]: "c \<notin> set a \<Longrightarrow> split_once c (a @ c # b) = Some (a, b)"
  by (simp add: split_once_Some)

lemma split_on_nonempty [simp]: "split_on c s \<noteq> []"
  by (induction s) (auto split: list.splits)

lemma split_on_append [simp]:
  "c \<notin> set a \<Longrightarrow> split_on c (a @ c # b) = a # split_on c b"
  by (induction a) auto

lemma split_on_id [simp]: "c \<notin> set s \<Longrightarrow> split_on c s = [s]"
  by (induction s) auto

lemma split_on_parts: "p \<in> set (split_on c s) \<Longrightarrow> c \<notin> set p"
  by (induction s arbitrary: p) (auto split: list.splits if_splits)

lemma split_on_chars: "p \<in> set (split_on c s) \<Longrightarrow> set p \<subseteq> set s"
proof (induction s arbitrary: p)
  case (Cons a s)
  then show ?case by (fastforce split: list.splits if_splits)
qed simp

lemma join_with_chars: "set (join_with sep ps) \<subseteq> set sep \<union> \<Union> (set ` set ps)"
  by (induction ps rule: induct_list012) auto

lemma join_split_on: "join_with [c] (split_on c s) = s"
proof (induction s)
  case (Cons x xs)
  show ?case
  proof (cases "split_on c xs")
    case Nil
    then show ?thesis by simp
  next
    case (Cons s ss)
    then show ?thesis using Cons.IH by (cases ss) auto
  qed
qed simp

lemma split_on_join:
  assumes "ps \<noteq> []" and "\<And>p. p \<in> set ps \<Longrightarrow> c \<notin> set p"
  shows "split_on c (join_with [c] ps) = ps"
  using assms
proof (induction ps rule: induct_list012)
  case (3 p q ps)
  then have "split_on c (p @ c # join_with [c] (q # ps)) = p # q # ps" by simp
  then show ?case by simp
qed auto

text \<open>\<^verbatim>\<open>str::find\<close> and \<^verbatim>\<open>str::contains\<close>\<close>

fun find_sub :: "string \<Rightarrow> string \<Rightarrow> nat option" where
  "find_sub p s =
     (if starts_with s p then Some 0 else case s of [] \<Rightarrow> None | c # cs \<Rightarrow> map_option Suc (find_sub p cs))"

declare find_sub.simps [simp del]

definition str_contains :: "string \<Rightarrow> string \<Rightarrow> bool" where
  "str_contains s p \<longleftrightarrow> find_sub p s \<noteq> None"

lemma find_sub_Some:
  "find_sub p s = Some i \<Longrightarrow> starts_with (drop i s) p \<and> (\<forall>j < i. \<not> starts_with (drop j s) p)"
proof (induction s arbitrary: i)
  case (Cons c cs)
  show ?case
  proof (cases "starts_with (c # cs) p")
    case False
    with Cons.prems obtain k where k: "i = Suc k" "find_sub p cs = Some k" by (auto simp: find_sub.simps [of p "c # cs"])
    then show ?thesis using Cons.IH [OF k(2)] False by (auto simp: less_Suc_eq_0_disj)
  qed (use Cons.prems in \<open>simp add: find_sub.simps [of p "c # cs"]\<close>)
qed (auto simp: find_sub.simps [of p "[]"] split: if_splits)

lemma find_sub_bound:
  assumes "find_sub p s = Some i"
  shows "i + length p \<le> length s \<or> p = []"
proof -
  have "length (take (length p) (drop i s)) = length p"
    using find_sub_Some [OF assms] by (simp add: starts_with_def)
  then have "length p \<le> length s - i" by simp
  then show ?thesis by (cases p) auto
qed

text \<open>\<^verbatim>\<open>char::is_ascii_control\<close>: bytes below 32 and 127.\<close>

definition is_ascii_control :: "char \<Rightarrow> bool" where
  "is_ascii_control c \<longleftrightarrow> of_char c < (32 :: nat) \<or> of_char c = (127 :: nat)"

definition ascii_lower_char :: "char \<Rightarrow> char" where
  "ascii_lower_char c =
     (let n = of_char c :: nat in if 65 \<le> n \<and> n \<le> 90 then char_of (n + 32) else c)"

definition to_ascii_lowercase :: "string \<Rightarrow> string" where
  "to_ascii_lowercase = map ascii_lower_char"

subsection \<open>Trimming\<close>

text \<open>
  \<^verbatim>\<open>str::trim\<close> drops Unicode White\_Space at both ends. On UTF-8 bytes the members are the ASCII
  characters 9 to 13 and 32, and the two- and three-byte encodings listed here.
\<close>

definition wide_spaces :: "string list" where
  "wide_spaces =
     [[CHR 0xC2, CHR 0x85], [CHR 0xC2, CHR 0xA0], [CHR 0xE1, CHR 0x9A, CHR 0x80],
      [CHR 0xE2, CHR 0x80, CHR 0x80], [CHR 0xE2, CHR 0x80, CHR 0x81], [CHR 0xE2, CHR 0x80, CHR 0x82],
      [CHR 0xE2, CHR 0x80, CHR 0x83], [CHR 0xE2, CHR 0x80, CHR 0x84], [CHR 0xE2, CHR 0x80, CHR 0x85],
      [CHR 0xE2, CHR 0x80, CHR 0x86], [CHR 0xE2, CHR 0x80, CHR 0x87], [CHR 0xE2, CHR 0x80, CHR 0x88],
      [CHR 0xE2, CHR 0x80, CHR 0x89], [CHR 0xE2, CHR 0x80, CHR 0x8A], [CHR 0xE2, CHR 0x80, CHR 0xA8],
      [CHR 0xE2, CHR 0x80, CHR 0xA9], [CHR 0xE2, CHR 0x80, CHR 0xAF], [CHR 0xE2, CHR 0x81, CHR 0x9F],
      [CHR 0xE3, CHR 0x80, CHR 0x80]]"

definition ascii_space :: "char \<Rightarrow> bool" where
  "ascii_space c \<longleftrightarrow> (let n = of_char c :: nat in (9 \<le> n \<and> n \<le> 13) \<or> n = 32)"

text \<open>\<open>trim_by ws s\<close> drops leading characters while one of the encodings \<open>ws\<close> (or an ASCII
  space) is a prefix.\<close>

function trim_by :: "string list \<Rightarrow> string \<Rightarrow> string" where
  "trim_by ws s =
     (case s of [] \<Rightarrow> []
      | c # r \<Rightarrow>
          if ascii_space c then trim_by ws r
          else case find (\<lambda>w. w \<noteq> [] \<and> starts_with s w) ws of
                 None \<Rightarrow> s
               | Some w \<Rightarrow> if w = [] then s else trim_by ws (drop (length w) s))"
  by pat_completeness auto
termination
  by (relation "measure (\<lambda>(ws, s). length s)") auto

declare trim_by.simps [simp del]

definition trim_start :: "string \<Rightarrow> string" where
  "trim_start = trim_by wide_spaces"

definition trim_end :: "string \<Rightarrow> string" where
  "trim_end s = rev (trim_by (map rev wide_spaces) (rev s))"

definition trim :: "string \<Rightarrow> string" where
  "trim s = trim_end (trim_start s)"

definition blank_free :: "string \<Rightarrow> bool" where
  "blank_free s \<longleftrightarrow> (\<forall>c \<in> set s. 33 \<le> (of_char c :: nat) \<and> (of_char c :: nat) < 127)"

lemma trim_by_Nil [simp]: "trim_by ws [] = []"
  by (simp add: trim_by.simps)

lemma trim_by_id:
  assumes "\<not> ascii_space c" and "\<And>w. w \<in> set ws \<Longrightarrow> w = [] \<or> hd w \<noteq> c"
  shows "trim_by ws (c # r) = c # r"
proof -
  have "find (\<lambda>w. w \<noteq> [] \<and> starts_with (c # r) w) ws = None"
    using assms(2) by (fastforce simp: find_None_iff starts_with_def neq_Nil_conv)
  with assms(1) show ?thesis by (simp add: trim_by.simps)
qed

lemma wide_spaces_hd:
  "w \<in> set wide_spaces \<Longrightarrow> w \<noteq> [] \<and> 127 < (of_char (hd w) :: nat) \<and> 127 < (of_char (last w) :: nat)"
  by (auto simp: wide_spaces_def)

lemma trim_by_blank_free:
  assumes "blank_free s" and "\<And>w. w \<in> set ws \<Longrightarrow> w \<noteq> [] \<and> 127 < (of_char (hd w) :: nat)"
  shows "trim_by ws s = s"
proof (cases s)
  case (Cons c r)
  with assms(1) have c: "33 \<le> (of_char c :: nat)" "(of_char c :: nat) < 127"
    by (auto simp: blank_free_def)
  have "trim_by ws (c # r) = c # r"
  proof (rule trim_by_id)
    show "\<not> ascii_space c" using c by (simp add: ascii_space_def)
    show "\<And>w. w \<in> set ws \<Longrightarrow> w = [] \<or> hd w \<noteq> c" using assms(2) c by fastforce
  qed
  with Cons show ?thesis by simp
qed simp

lemma trim_blank_free: "blank_free s \<Longrightarrow> trim s = s"
proof -
  assume s: "blank_free s"
  then have r: "blank_free (rev s)" by (simp add: blank_free_def)
  have "trim_by (map rev wide_spaces) (rev s) = rev s"
    using r by (rule trim_by_blank_free) (auto dest: wide_spaces_hd simp: hd_rev)
  moreover have "trim_by wide_spaces s = s"
    using s by (rule trim_by_blank_free) (auto dest: wide_spaces_hd)
  ultimately show ?thesis by (simp add: trim_def trim_end_def trim_start_def)
qed

lemma trim_by_suffix: "suffix (trim_by ws s) s"
proof (induction ws s rule: trim_by.induct)
  case (1 ws s)
  show ?case
  proof (cases s)
    case (Cons c r)
    show ?thesis
    proof (cases "ascii_space c")
      case True
      with 1(1) Cons show ?thesis by (subst trim_by.simps) (auto simp: suffix_Cons)
    next
      case False
      have step: "w \<noteq> [] \<Longrightarrow> find (\<lambda>w. w \<noteq> [] \<and> starts_with s w) ws = Some w \<Longrightarrow>
          suffix (trim_by ws (drop (length w) s)) s" for w
        using 1(2) [OF Cons False] by (meson suffix_drop suffix_order.trans)
      show ?thesis
        using False Cons step by (subst trim_by.simps) (auto split: option.splits)
    qed
  qed simp
qed

lemma set_trim_by: "set (trim_by ws s) \<subseteq> set s"
  by (rule set_mono_suffix) (rule trim_by_suffix)

lemma trim_by_idem: "trim_by ws (trim_by ws s) = trim_by ws s"
proof (induction ws s rule: trim_by.induct)
  case (1 ws s)
  show ?case
  proof (cases s)
    case (Cons c r)
    show ?thesis
    proof (cases "ascii_space c")
      case True
      with 1(1) Cons have "trim_by ws (trim_by ws r) = trim_by ws r" by simp
      moreover have "trim_by ws s = trim_by ws r" using True Cons by (subst trim_by.simps) simp
      ultimately show ?thesis by simp
    next
      case False
      show ?thesis
      proof (cases "find (\<lambda>w. w \<noteq> [] \<and> starts_with s w) ws")
        case None
        with False Cons have "trim_by ws s = s" by (subst trim_by.simps) simp
        then show ?thesis by simp
      next
        case (Some w)
        then have w: "w \<noteq> []" by (auto simp: find_Some_iff)
        with Some False Cons have "trim_by ws s = trim_by ws (drop (length w) s)"
          by (subst trim_by.simps) simp
        moreover have "trim_by ws (trim_by ws (drop (length w) s)) = trim_by ws (drop (length w) s)"
          by (rule 1(2) [OF Cons False Some w])
        ultimately show ?thesis by simp
      qed
    qed
  qed simp
qed

lemma trim_by_fixed_iff:
  "trim_by ws (c # r) = c # r \<longleftrightarrow> \<not> ascii_space c \<and> (\<forall>w \<in> set ws. w \<noteq> [] \<longrightarrow> \<not> starts_with (c # r) w)"
proof
  assume fixed: "trim_by ws (c # r) = c # r"
  have a: "\<not> ascii_space c"
  proof
    assume "ascii_space c"
    then have "trim_by ws (c # r) = trim_by ws r" by (subst trim_by.simps) simp
    then have "suffix (c # r) r" using fixed trim_by_suffix [of ws r] by simp
    then show False by (auto simp: suffix_def)
  qed
  have "find (\<lambda>w. w \<noteq> [] \<and> starts_with (c # r) w) ws = None"
  proof (rule ccontr)
    assume "find (\<lambda>w. w \<noteq> [] \<and> starts_with (c # r) w) ws \<noteq> None"
    then obtain w where w: "find (\<lambda>w. w \<noteq> [] \<and> starts_with (c # r) w) ws = Some w" by auto
    then have "w \<noteq> []" by (auto simp: find_Some_iff)
    with w a have "trim_by ws (c # r) = trim_by ws (drop (length w) (c # r))"
      by (subst trim_by.simps) simp
    then have "suffix (c # r) (drop (length w) (c # r))"
      using fixed trim_by_suffix [of ws "drop (length w) (c # r)"] by simp
    then have "length (c # r) \<le> length (drop (length w) (c # r))" by (rule suffix_length_le)
    with \<open>w \<noteq> []\<close> show False by (cases w) auto
  qed
  with a show "\<not> ascii_space c \<and> (\<forall>w \<in> set ws. w \<noteq> [] \<longrightarrow> \<not> starts_with (c # r) w)"
    by (auto simp: find_None_iff)
next
  assume "\<not> ascii_space c \<and> (\<forall>w \<in> set ws. w \<noteq> [] \<longrightarrow> \<not> starts_with (c # r) w)"
  then show "trim_by ws (c # r) = c # r"
    by (subst trim_by.simps) (auto simp: find_None_iff split: option.splits dest!: find_Some_iff [THEN iffD1])
qed

lemma trim_by_prefix_fixed:
  assumes "prefix t u" and "trim_by ws u = u"
  shows "trim_by ws t = t"
proof (cases t)
  case (Cons c r)
  from assms(1) obtain v where u: "u = c # (r @ v)" by (auto simp: prefix_def Cons)
  from assms(2) have "\<not> ascii_space c" and "\<forall>w \<in> set ws. w \<noteq> [] \<longrightarrow> \<not> starts_with (c # r @ v) w"
    using trim_by_fixed_iff [of ws c "r @ v"] u by auto
  then have "\<not> ascii_space c \<and> (\<forall>w \<in> set ws. w \<noteq> [] \<longrightarrow> \<not> starts_with (c # r) w)"
    using starts_with_append [of "c # r" _ v] by auto
  then show ?thesis using Cons trim_by_fixed_iff by blast
qed simp

lemma trim_idem [simp]: "trim (trim s) = trim s"
proof -
  let ?u = "trim_start s"
  have u: "trim_start ?u = ?u" by (simp add: trim_start_def trim_by_idem)
  have "prefix (trim_end ?u) ?u"
    using trim_by_suffix [of "map rev wide_spaces" "rev ?u"] by (simp add: trim_end_def suffix_to_prefix)
  then have "trim_start (trim_end ?u) = trim_end ?u"
    using u unfolding trim_start_def by (rule trim_by_prefix_fixed)
  moreover have "trim_end (trim_end ?u) = trim_end ?u"
    by (simp add: trim_end_def trim_by_idem)
  ultimately show ?thesis by (simp add: trim_def)
qed

lemma set_trim: "set (trim s) \<subseteq> set s"
  using set_trim_by [of "map rev wide_spaces" "rev (trim_start s)"] set_trim_by [of wide_spaces s]
  by (auto simp: trim_def trim_end_def trim_start_def)

subsection \<open>Decimal numbers\<close>

definition digit_char :: "nat \<Rightarrow> char" where
  "digit_char d = char_of (48 + d)"

definition digit_val :: "char \<Rightarrow> nat option" where
  "digit_val c = (let n = of_char c :: nat in if 48 \<le> n \<and> n \<le> 57 then Some (n - 48) else None)"

fun show_nat :: "nat \<Rightarrow> string" where
  "show_nat n = (if n < 10 then [digit_char n] else show_nat (n div 10) @ [digit_char (n mod 10)])"

declare show_nat.simps [simp del]

definition show_int :: "int \<Rightarrow> string" where
  "show_int i = (if i < 0 then CHR ''-'' # show_nat (nat (- i)) else show_nat (nat i))"

fun read_digits :: "nat \<Rightarrow> string \<Rightarrow> nat option" where
  "read_digits acc [] = Some acc"
| "read_digits acc (c # cs) =
     (case digit_val c of None \<Rightarrow> None | Some d \<Rightarrow> read_digits (10 * acc + d) cs)"

text \<open>\<^verbatim>\<open>str::parse::<u64>\<close>: an optional plus sign, at least one digit, no overflow.\<close>

definition parse_u64 :: "string \<Rightarrow> nat option" where
  "parse_u64 s =
     (let ds = (case s of [] \<Rightarrow> [] | c # r \<Rightarrow> if c = CHR ''+'' then r else s)
      in if ds = [] then None
         else case read_digits 0 ds of
                None \<Rightarrow> None
              | Some n \<Rightarrow> if n < 2 ^ 64 then Some n else None)"

lemma digit_val_char [simp]: "d < 10 \<Longrightarrow> digit_val (digit_char d) = Some d"
  by (simp add: digit_val_def digit_char_def)

lemma digit_char_code: "d < 10 \<Longrightarrow> of_char (digit_char d) = (48 + d :: nat)"
  by (simp add: digit_char_def)

lemma read_digits_append:
  "read_digits acc (xs @ ys) = (case read_digits acc xs of None \<Rightarrow> None | Some a \<Rightarrow> read_digits a ys)"
  by (induction xs arbitrary: acc) (auto split: option.splits)

lemma read_digits_show: "read_digits 0 (show_nat n) = Some n"
proof (induction n rule: show_nat.induct)
  case (1 n)
  show ?case
  proof (cases "n < 10")
    case True
    then show ?thesis by (simp add: show_nat.simps [of n])
  next
    case False
    with 1 show ?thesis by (simp add: show_nat.simps [of n] read_digits_append)
  qed
qed

lemma show_nat_digits: "c \<in> set (show_nat n) \<Longrightarrow> 48 \<le> (of_char c :: nat) \<and> (of_char c :: nat) \<le> 57"
proof (induction n rule: show_nat.induct)
  case (1 n)
  then show ?case
    by (cases "n < 10") (auto simp: show_nat.simps [of n] digit_char_code)
qed

lemma show_nat_nonempty [simp]: "show_nat n \<noteq> []"
  by (simp add: show_nat.simps [of n])

lemma show_nat_no_sep [simp]:
  "CHR '':'' \<notin> set (show_nat n)" "CHR ''/'' \<notin> set (show_nat n)" "CHR ''+'' \<notin> set (show_nat n)"
  using show_nat_digits [of "CHR '':''" n] show_nat_digits [of "CHR ''/''" n]
    show_nat_digits [of "CHR ''+''" n] by auto

lemma parse_u64_show: "n < 2 ^ 64 \<Longrightarrow> parse_u64 (show_nat n) = Some n"
proof -
  assume n: "n < 2 ^ 64"
  obtain c r where s: "show_nat n = c # r" by (cases "show_nat n") auto
  then have "c \<noteq> CHR ''+''" using show_nat_no_sep(3) [of n] by auto
  then show ?thesis using n s read_digits_show [of n] by (simp add: parse_u64_def)
qed

lemma parse_u64_bound: "parse_u64 s = Some n \<Longrightarrow> n < 2 ^ 64"
  by (auto simp: parse_u64_def Let_def split: if_splits option.splits)

end
