(* ===== verification/Relational.thy ===== *)
theory Relational
  imports Prelude "HOL-Library.List_Lexorder" "HOL-Library.Char_ord"
begin

text \<open>
  The relational core the store is written in. A table is the list of its rows; an
  \<^verbatim>\<open>UPDATE .. SET f WHERE p RETURNING ..\<close> rewrites the matching rows and reports them, and
  \<^verbatim>\<open>ORDER BY\<close> is a stable sort on a key (text compares bytewise, PostgreSQL's C collation).
  The locale \<open>keyed_update\<close> is the contract of an update that leaves the primary key alone; the
  statements of the store interpret it (through the table-specific locales that extend it).
  The locale \<open>wire_enum\<close> is the contract of an enum stored as text.
\<close>

section \<open>Statements\<close>

definition sql_update :: "('r \<Rightarrow> bool) \<Rightarrow> ('r \<Rightarrow> 'r) \<Rightarrow> 'r list \<Rightarrow> 'r list \<times> 'r list" where
  "sql_update p f t = (map (\<lambda>r. if p r then f r else r) t, map f (filter p t))"

definition order_by :: "('r \<Rightarrow> 'k :: linorder) \<Rightarrow> 'r list \<Rightarrow> 'r list" where
  "order_by k t = sort_key k t"

definition first_row :: "'r list \<Rightarrow> 'r option" where
  "first_row t = (case t of [] \<Rightarrow> None | r # _ \<Rightarrow> Some r)"

definition row_by :: "('r \<Rightarrow> 'k) \<Rightarrow> 'k \<Rightarrow> 'r list \<Rightarrow> 'r option" where
  "row_by key k t = find (\<lambda>r. key r = k) t"

text \<open>\<^verbatim>\<open>coalesce(a, b)\<close>\<close>

definition coalesce :: "'a option \<Rightarrow> 'a option \<Rightarrow> 'a option" where
  "coalesce a b = (case a of None \<Rightarrow> b | Some x \<Rightarrow> Some x)"

text \<open>A unique index over a partial key: rows with key \<^const>\<open>None\<close> are not indexed.\<close>

definition unique_index :: "('r \<Rightarrow> 'k option) \<Rightarrow> 'r list \<Rightarrow> bool" where
  "unique_index key t \<longleftrightarrow> distinct (List.map_filter key t)"

lemma coalesce_simps [simp]: "coalesce None b = b" "coalesce (Some x) b = Some x"
  by (simp_all add: coalesce_def)

lemma set_order_by [simp]: "set (order_by k t) = set t"
  by (simp add: order_by_def)

lemma length_order_by [simp]: "length (order_by k t) = length t"
  by (simp add: order_by_def)

lemma sorted_order_by [simp]: "sorted (map k (order_by k t))"
  by (simp add: order_by_def)

lemma order_by_Nil [simp]: "order_by k [] = []"
  by (simp add: order_by_def)

lemma order_by_filter: "filter p (order_by k t) = order_by k (filter p t)"
  by (simp add: order_by_def filter_sort)

lemma first_row_simps [simp]: "first_row [] = None" "first_row (r # t) = Some r"
  by (simp_all add: first_row_def)

lemma first_row_None [simp]: "first_row t = None \<longleftrightarrow> t = []"
  by (cases t) auto

lemma first_row_in: "first_row t = Some r \<Longrightarrow> r \<in> set t"
  by (cases t) auto

lemma first_row_least:
  assumes "first_row (order_by k t) = Some r" and "r' \<in> set t"
  shows "k r \<le> k r'"
proof (cases "order_by k t")
  case (Cons x xs)
  with assms(1) have "x = r" by simp
  moreover have "r' \<in> set (x # xs)" using assms(2) Cons set_order_by [of k t] by auto
  moreover have "sorted (map k (x # xs))" using Cons sorted_order_by [of k t] by simp
  ultimately show ?thesis by auto
qed (use assms in simp)

lemma row_by_Some: "row_by key k t = Some r \<Longrightarrow> r \<in> set t \<and> key r = k"
  by (auto simp: row_by_def find_Some_iff)

lemma row_by_None: "row_by key k t = None \<longleftrightarrow> k \<notin> key ` set t"
  by (auto simp: row_by_def find_None_iff)

lemma row_by_unique:
  "distinct (map key t) \<Longrightarrow> row_by key k t = Some r \<longleftrightarrow> r \<in> set t \<and> key r = k"
  by (induction t) (auto simp: row_by_def)

lemma filter_key_row_by:
  "distinct (map key t) \<Longrightarrow>
   filter (\<lambda>r. key r = k \<and> q r) t =
     (case row_by key k t of None \<Rightarrow> [] | Some r \<Rightarrow> if q r then [r] else [])"
proof (induction t)
  case (Cons a t)
  show ?case
  proof (cases "key a = k")
    case True
    with Cons.prems have "filter (\<lambda>r. key r = k \<and> q r) t = []"
      by (simp add: filter_empty_conv) (metis imageI)
    with True show ?thesis by (simp add: row_by_def)
  next
    case False
    with Cons show ?thesis by (simp add: row_by_def)
  qed
qed (simp add: row_by_def)

lemma filter_all: "(\<And>x. x \<in> set t \<Longrightarrow> p x) \<Longrightarrow> filter p t = t"
  by (induction t) auto

lemma set_map_filter_iff: "y \<in> set (List.map_filter f xs) \<longleftrightarrow> (\<exists>x \<in> set xs. f x = Some y)"
  by (induction xs) (auto split: option.splits)

lemma map_filter_append [simp]:
  "List.map_filter f (xs @ ys) = List.map_filter f xs @ List.map_filter f ys"
  by (induction xs) (auto split: option.splits)

lemma unique_index_append:
  "unique_index key (t @ [r]) \<longleftrightarrow>
     unique_index key t \<and> (case key r of None \<Rightarrow> True | Some k \<Rightarrow> \<forall>x \<in> set t. key x \<noteq> Some k)"
  by (auto simp: unique_index_def set_map_filter_iff split: option.splits)

lemma unique_indexD:
  assumes "unique_index key t" and "r \<in> set t" and "r' \<in> set t" and "key r = Some k" and "key r' = Some k"
  shows "r = r'"
  using assms
proof (induction t)
  case (Cons a t)
  then show ?case by (auto simp: unique_index_def set_map_filter_iff split: option.splits)
qed simp

lemma unique_index_mono:
  assumes "unique_index key t" and "\<And>r. r \<in> set t \<Longrightarrow> key' (g r) = None \<or> key' (g r) = key r"
  shows "unique_index key' (map g t)"
  using assms
proof (induction t)
  case (Cons a t)
  then have IH: "unique_index key' (map g t)" by (auto simp: unique_index_def split: option.splits)
  show ?case
  proof (cases "key' (g a)")
    case None
    with IH show ?thesis by (simp add: unique_index_def)
  next
    case (Some k)
    with Cons.prems have "key a = Some k" by (metis list.set_intros(1) option.distinct(1))
    with Cons.prems(1) have "\<forall>x \<in> set t. key x \<noteq> Some k"
      by (auto simp: unique_index_def set_map_filter_iff)
    with Cons.prems(2) have "\<forall>x \<in> set t. key' (g x) \<noteq> Some k"
      by (metis list.set_intros(2) option.distinct(1))
    with IH Some show ?thesis by (auto simp: unique_index_def set_map_filter_iff)
  qed
qed (simp add: unique_index_def)

lemma unique_index_filter: "unique_index key t \<Longrightarrow> unique_index key (filter p t)"
  by (induction t) (auto simp: unique_index_def set_map_filter_iff split: option.splits)

section \<open>Updates that keep the primary key\<close>

locale keyed_update =
  fixes key :: "'r \<Rightarrow> 'k" and p :: "'r \<Rightarrow> bool" and f :: "'r \<Rightarrow> 'r"
  assumes key_stable: "p r \<Longrightarrow> key (f r) = key r"
begin

lemma keys_kept [simp]: "map key (fst (sql_update p f t)) = map key t"
  by (auto simp: sql_update_def key_stable)

lemma key_set_kept [simp]: "key ` set (fst (sql_update p f t)) = key ` set t"
  using keys_kept [of t] by (metis set_map)

lemma row_after:
  "row_by key k (fst (sql_update p f t)) = map_option (\<lambda>r. if p r then f r else r) (row_by key k t)"
  by (induction t) (auto simp: row_by_def sql_update_def key_stable)

lemma frame: "row_by key k t = Some r \<Longrightarrow> \<not> p r \<Longrightarrow> row_by key k (fst (sql_update p f t)) = Some r"
  by (simp add: row_after)

lemma in_updated:
  "r' \<in> set (fst (sql_update p f t)) \<longleftrightarrow> (\<exists>r \<in> set t. r' = (if p r then f r else r))"
  by (auto simp: sql_update_def)

lemma no_match: "(\<And>r. r \<in> set t \<Longrightarrow> \<not> p r) \<Longrightarrow> sql_update p f t = (t, [])"
  by (auto simp: sql_update_def map_idI filter_empty_conv)

lemma returned_keyed:
  "distinct (map key t) \<Longrightarrow> (\<And>r. p r \<Longrightarrow> key r = k) \<Longrightarrow>
   snd (sql_update p f t) =
     (case row_by key k t of None \<Rightarrow> [] | Some r \<Rightarrow> if p r then [f r] else [])"
proof -
  assume d: "distinct (map key t)" and k: "\<And>r. p r \<Longrightarrow> key r = k"
  have "filter p t = filter (\<lambda>r. key r = k \<and> p r) t" by (rule filter_cong) (auto simp: k)
  then show ?thesis
    using filter_key_row_by [OF d, of k p] by (auto simp: sql_update_def split: option.splits)
qed

end

section \<open>Enums stored as text\<close>

locale wire_enum =
  fixes as_text :: "'e \<Rightarrow> string" and of_text :: "string \<Rightarrow> 'e option"
  assumes of_as: "of_text (as_text v) = Some v"
begin

lemma as_text_inject [simp]: "as_text v = as_text w \<longleftrightarrow> v = w"
  by (metis of_as option.inject)

lemma parsed_text: "of_text s = Some v \<Longrightarrow> of_text (as_text v) = of_text s"
  by (simp add: of_as)

end

end
