(* ===== verification/Session_Core.thy ===== *)
theory Session_Core
  imports Relational
begin

text \<open>
  \<^verbatim>\<open>crates/centaur-session-core/src/lib.rs\<close>: the durable session types. Thread keys and their
  validation, the chat destination a key addresses, the enums with their stored spelling
  (\<^verbatim>\<open>strum\<close>'s \<^verbatim>\<open>AsRefStr\<close> and \<^verbatim>\<open>EnumString\<close>), and the sandbox capabilities.
\<close>

section \<open>Thread keys\<close>

definition MAX_THREAD_KEY_BYTES :: nat where
  "MAX_THREAD_KEY_BYTES = 512"

datatype ThreadKeyError = Empty | TooLong | MissingNamespace | ControlCharacter | RawJson

fun thread_key_error_message :: "ThreadKeyError \<Rightarrow> string" where
  "thread_key_error_message Empty = ''thread_key is required''"
| "thread_key_error_message TooLong =
     ''thread_key must be at most '' @ show_nat MAX_THREAD_KEY_BYTES @ '' bytes''"
| "thread_key_error_message MissingNamespace =
     ''thread_key must be namespaced as '' @ [CHR 0x27] @ ''<source>:<id>'' @ [CHR 0x27]"
| "thread_key_error_message ControlCharacter = ''thread_key must not contain ASCII control characters''"
| "thread_key_error_message RawJson = ''thread_key must not be raw JSON''"

definition validate_thread_key :: "string \<Rightarrow> ThreadKeyError + unit" where
  "validate_thread_key value =
     (if value = [] then Inl Empty
      else if length value > MAX_THREAD_KEY_BYTES then Inl TooLong
      else if starts_with value ''{'' \<or> starts_with value ''['' then Inl RawJson
      else if \<exists>ch \<in> set value. is_ascii_control ch then Inl ControlCharacter
      else case split_once (CHR '':'') value of
             None \<Rightarrow> Inl MissingNamespace
           | Some (namespace, rest) \<Rightarrow>
               if namespace = [] \<or> rest = [] then Inl MissingNamespace else Inr ())"

definition thread_key_parse :: "string \<Rightarrow> ThreadKeyError + string" where
  "thread_key_parse value =
     (case validate_thread_key value of Inl e \<Rightarrow> Inl e | Inr _ \<Rightarrow> Inr value)"

section \<open>Chat destinations\<close>

datatype GithubThreadKind = Issue | Pr

fun github_thread_kind_as_str :: "GithubThreadKind \<Rightarrow> string" where
  "github_thread_kind_as_str Issue = ''issue''"
| "github_thread_kind_as_str Pr = ''pr''"

datatype ChatDestination =
    Slack (channel_id: string) (thread_ts: string)
  | Discord (guild_id: string) (discord_channel_id: string) (thread_id: "string option")
  | Linear (issue_id: string) (comment_id: "string option") (agent_session_id: "string option")
  | Github (owner: string) (repo: string) (number: nat) (kind: GithubThreadKind)
      (review_comment_id: "nat option")
  | GoogleChat (space_name: string) (thread_name: string)

fun platform :: "ChatDestination \<Rightarrow> string" where
  "platform (Slack _ _) = ''slack''"
| "platform (Discord _ _ _) = ''discord''"
| "platform (Linear _ _ _) = ''linear''"
| "platform (Github _ _ _ _ _) = ''github''"
| "platform (GoogleChat _ _) = ''google_chat''"

text \<open>The middle dot, the em dash and the backquote of the context lines (in UTF-8), and the fixed
  sentences of each surface.\<close>

definition middot :: string where "middot = [CHR '' '', CHR 0xC2, CHR 0xB7, CHR '' '']"
definition emdash :: string where "emdash = [CHR '' '', CHR 0xE2, CHR 0x80, CHR 0x94, CHR '' '']"

definition slack_dm_policy :: string where
  "slack_dm_policy =
     ''. Slack tool policy: use direct ('' @ [CHR 0x60] @ ''*-direct'' @ [CHR 0x60]
     @ '') methods. Centaur delivers your reply automatically.]''"

definition slack_channel_policy :: string where
  "slack_channel_policy =
     ''. Slack tool policy: use proxied methods (without '' @ [CHR 0x60] @ ''-direct'' @ [CHR 0x60]
     @ ''). Centaur delivers your reply automatically.]''"

definition discord_delivery :: string where
  "discord_delivery =
     ''). Centaur delivers your reply to this thread automatically'' @ emdash
     @ ''do not repost it with the discord tool. Send files here with '' @ [CHR 0x60] @ ''discord upload''
     @ [CHR 0x60] @ ''.]''"

definition linear_delivery :: string where
  "linear_delivery =
     ''. Centaur posts your reply as a comment on this Linear thread automatically'' @ emdash
     @ ''do not repost it with the linear tool. Linear replies are markdown comments with no file-upload surface; share artifacts inline or as a link.]''"

definition github_delivery :: string where
  "github_delivery =
     ''. Centaur posts your reply as a comment on this GitHub thread automatically'' @ emdash
     @ ''do not repost it with '' @ [CHR 0x60] @ ''gh'' @ [CHR 0x60]
     @ ''. GitHub replies are markdown comments with no file-upload surface; share artifacts inline or as a link.]''"

definition google_chat_delivery :: string where
  "google_chat_delivery =
     ''. Centaur delivers your reply to this thread automatically'' @ emdash
     @ ''do not repost it with the google-chat tool. Send files here with '' @ [CHR 0x60]
     @ ''google-chat upload'' @ [CHR 0x60] @ ''.]''"

definition context_line :: "ChatDestination \<Rightarrow> string" where
  "context_line d = (case d of
     Slack channel ts \<Rightarrow>
       if starts_with channel ''D''
       then ''[chat surface: Slack DM'' @ middot @ ''conversation '' @ channel @ middot @ ''thread '' @ ts
         @ slack_dm_policy
       else ''[chat surface: Slack channel'' @ middot @ ''channel '' @ channel @ middot @ ''thread '' @ ts
         @ slack_channel_policy
   | Discord guild channel thr \<Rightarrow>
       ''[chat surface: Discord'' @ middot @ ''channel '' @ channel
       @ (case thr of None \<Rightarrow> [] | Some i \<Rightarrow> middot @ ''thread '' @ i)
       @ '' (guild '' @ guild @ discord_delivery
   | Linear issue comment sess \<Rightarrow>
       ''[chat surface: Linear'' @ middot @ ''issue '' @ issue
       @ (case comment of None \<Rightarrow> [] | Some i \<Rightarrow> middot @ ''comment '' @ i)
       @ linear_delivery
   | Github own rep num knd review \<Rightarrow>
       ''[chat surface: GitHub'' @ middot
       @ (case knd of Issue \<Rightarrow> ''issue'' | Pr \<Rightarrow> ''pull request'')
       @ '' '' @ own @ ''/'' @ rep @ ''#'' @ show_nat num
       @ (case review of None \<Rightarrow> [] | Some i \<Rightarrow> middot @ ''review comment '' @ show_nat i)
       @ github_delivery
   | GoogleChat space thr \<Rightarrow>
       ''[chat surface: Google Chat'' @ middot @ ''space '' @ space @ middot @ ''thread '' @ thr
       @ google_chat_delivery)"

text \<open>Slack conversation ids start with C, D or G.\<close>

definition is_slack_conversation_id :: "string \<Rightarrow> bool" where
  "is_slack_conversation_id value =
     (case value of [] \<Rightarrow> False | c # _ \<Rightarrow> c = CHR ''C'' \<or> c = CHR ''D'' \<or> c = CHR ''G'')"

definition nonempty :: "string \<Rightarrow> string option" where
  "nonempty s = (if s = [] then None else Some s)"

text \<open>The five arms of \<^verbatim>\<open>ThreadKey::chat_destination\<close>, each on what follows its prefix.\<close>

fun github_segments :: "string list \<Rightarrow> (GithubThreadKind \<times> string \<times> string option) option" where
  "github_segments [a] = Some (Pr, a, None)"
| "github_segments [a, b] = (if a = ''issue'' then Some (Issue, b, None) else None)"
| "github_segments [a, b, c] = (if b = ''rc'' then Some (Pr, a, Some c) else None)"
| "github_segments _ = None"

definition github_destination :: "string \<Rightarrow> ChatDestination option" where
  "github_destination rest =
     (case split_once (CHR '':'') rest of None \<Rightarrow> None | Some (repo_path, thr) \<Rightarrow>
      case split_once (CHR ''/'') repo_path of None \<Rightarrow> None | Some (own, rep) \<Rightarrow>
      if own = [] \<or> rep = [] \<or> CHR ''/'' \<in> set rep then None
      else
        case github_segments (split_on (CHR '':'') thr) of None \<Rightarrow> None | Some (knd, num, review) \<Rightarrow>
        case parse_u64 num of None \<Rightarrow> None | Some n \<Rightarrow>
        case review of
          None \<Rightarrow> Some (Github own rep n knd None)
        | Some comment \<Rightarrow>
           (case parse_u64 comment of None \<Rightarrow> None
            | Some m \<Rightarrow> Some (Github own rep n knd (Some m))))"

definition discord_destination :: "string \<Rightarrow> ChatDestination option" where
  "discord_destination rest =
     (case map trim (split_on (CHR '':'') rest) of
        guild # channel # more \<Rightarrow>
          if guild = [] \<or> channel = [] then None
          else Some (Discord guild channel (case more of [] \<Rightarrow> None | t # _ \<Rightarrow> nonempty t))
      | _ \<Rightarrow> None)"

fun linear_segments :: "string list \<Rightarrow> (string \<times> string option \<times> string option) option" where
  "linear_segments [issue, a, comment, b, sess] =
     (if a = ''c'' \<and> b = ''s'' then Some (issue, Some comment, Some sess) else None)"
| "linear_segments [issue, a, x] =
     (if a = ''s'' then Some (issue, None, Some x)
      else if a = ''c'' then Some (issue, Some x, None) else None)"
| "linear_segments [issue] = Some (issue, None, None)"
| "linear_segments _ = None"

definition linear_destination :: "string \<Rightarrow> ChatDestination option" where
  "linear_destination rest =
     (case linear_segments (split_on (CHR '':'') rest) of
        None \<Rightarrow> None
      | Some (issue, comment, sess) \<Rightarrow>
          if issue = [] then None
          else Some (Linear issue (Option.bind comment nonempty) (Option.bind sess nonempty)))"

definition google_chat_destination :: "string \<Rightarrow> ChatDestination option" where
  "google_chat_destination rest =
     (case split_on (CHR '':'') rest of
        [] \<Rightarrow> None
      | space_id # more \<Rightarrow>
          if space_id = [] then None
          else let thr = join_with ''/'' more in
               if thr = [] then None else Some (GoogleChat (''spaces/'' @ space_id) thr))"

fun slack_segments :: "string list \<Rightarrow> (string \<times> string) option" where
  "slack_segments [a, c, t] = (if a = ''slack'' then Some (c, t) else None)"
| "slack_segments [a, team, c, t] = (if a = ''slack'' then Some (c, t) else None)"
| "slack_segments [c, t] = (if is_slack_conversation_id c then Some (c, t) else None)"
| "slack_segments _ = None"

definition slack_destination :: "string \<Rightarrow> ChatDestination option" where
  "slack_destination key =
     (case slack_segments (split_on (CHR '':'') key) of
        None \<Rightarrow> None
      | Some (c, t) \<Rightarrow> if c = [] \<or> t = [] then None else Some (Slack c t))"

definition chat_destination :: "string \<Rightarrow> ChatDestination option" where
  "chat_destination key =
     (case strip_prefix ''github:'' key of Some rest \<Rightarrow> github_destination rest | None \<Rightarrow>
      case strip_prefix ''discord:'' key of Some rest \<Rightarrow> discord_destination rest | None \<Rightarrow>
      case strip_prefix ''linear:'' key of Some rest \<Rightarrow> linear_destination rest | None \<Rightarrow>
      case strip_prefix ''chat:spaces:'' key of Some rest \<Rightarrow> google_chat_destination rest | None \<Rightarrow>
      slack_destination key)"

section \<open>Enums and their stored text\<close>

datatype HarnessType = Codex | Amp | ClaudeCode | Nanocodex | Hermes | Pi | Omp

fun harness_type_as_ref :: "HarnessType \<Rightarrow> string" where
  "harness_type_as_ref Codex = ''codex''"
| "harness_type_as_ref Amp = ''amp''"
| "harness_type_as_ref ClaudeCode = ''claudecode''"
| "harness_type_as_ref Nanocodex = ''nanocodex''"
| "harness_type_as_ref Hermes = ''hermes''"
| "harness_type_as_ref Pi = ''pi''"
| "harness_type_as_ref Omp = ''omp''"

definition harness_types :: "HarnessType list" where
  "harness_types = [Codex, Amp, ClaudeCode, Nanocodex, Hermes, Pi, Omp]"

definition harness_type_from_str :: "string \<Rightarrow> HarnessType option" where
  "harness_type_from_str s = find (\<lambda>h. harness_type_as_ref h = s) harness_types"

datatype SessionStatus = Active | Idle | Executing | SessionFailed | Archived

fun session_status_as_ref :: "SessionStatus \<Rightarrow> string" where
  "session_status_as_ref Active = ''active''"
| "session_status_as_ref Idle = ''idle''"
| "session_status_as_ref Executing = ''executing''"
| "session_status_as_ref SessionFailed = ''failed''"
| "session_status_as_ref Archived = ''archived''"

definition session_status_from_str :: "string \<Rightarrow> SessionStatus option" where
  "session_status_from_str s =
     find (\<lambda>h. session_status_as_ref h = s) [Active, Idle, Executing, SessionFailed, Archived]"

datatype MessageRole = User | Assistant | System | Tool

fun message_role_as_ref :: "MessageRole \<Rightarrow> string" where
  "message_role_as_ref User = ''user''"
| "message_role_as_ref Assistant = ''assistant''"
| "message_role_as_ref System = ''system''"
| "message_role_as_ref Tool = ''tool''"

definition message_role_from_str :: "string \<Rightarrow> MessageRole option" where
  "message_role_from_str s = find (\<lambda>h. message_role_as_ref h = s) [User, Assistant, System, Tool]"

datatype ExecutionStatus = Queued | Running | Completed | Failed | Cancelled

fun execution_status_as_ref :: "ExecutionStatus \<Rightarrow> string" where
  "execution_status_as_ref Queued = ''queued''"
| "execution_status_as_ref Running = ''running''"
| "execution_status_as_ref Completed = ''completed''"
| "execution_status_as_ref Failed = ''failed''"
| "execution_status_as_ref Cancelled = ''cancelled''"

definition execution_status_from_str :: "string \<Rightarrow> ExecutionStatus option" where
  "execution_status_from_str s =
     find (\<lambda>h. execution_status_as_ref h = s) [Queued, Running, Completed, Failed, Cancelled]"

datatype SandboxRepoCacheAccess = CacheNone | CachePublic | CacheAll

definition repo_cache_enabled :: "SandboxRepoCacheAccess \<Rightarrow> bool" where
  "repo_cache_enabled a \<longleftrightarrow> a \<noteq> CacheNone"

fun repo_cache_as_str :: "SandboxRepoCacheAccess \<Rightarrow> string" where
  "repo_cache_as_str CacheNone = ''none''"
| "repo_cache_as_str CachePublic = ''public''"
| "repo_cache_as_str CacheAll = ''all''"

definition repo_cache_parse :: "string \<Rightarrow> SandboxRepoCacheAccess option" where
  "repo_cache_parse value =
     (let v = to_ascii_lowercase (trim value) in
      if v = ''none'' then Some CacheNone
      else if v = ''public'' then Some CachePublic
      else if v = ''all'' then Some CacheAll else None)"

definition repo_cache_from_legacy_enabled :: "bool \<Rightarrow> SandboxRepoCacheAccess" where
  "repo_cache_from_legacy_enabled enabled = (if enabled then CacheAll else CacheNone)"

record SandboxCapabilities =
  repo_cache :: SandboxRepoCacheAccess
  observability_enabled :: bool

definition default_enabled :: SandboxCapabilities where
  "default_enabled = \<lparr>repo_cache = CacheAll, observability_enabled = True\<rparr>"

definition is_default_enabled :: "SandboxCapabilities \<Rightarrow> bool" where
  "is_default_enabled c \<longleftrightarrow> repo_cache c = CacheAll \<and> observability_enabled c"

section \<open>The stored spellings round-trip\<close>

interpretation harness: wire_enum harness_type_as_ref harness_type_from_str
proof
  show "harness_type_from_str (harness_type_as_ref v) = Some v" for v
    by (cases v) (simp_all add: harness_type_from_str_def harness_types_def)
qed

interpretation session_status: wire_enum session_status_as_ref session_status_from_str
proof
  show "session_status_from_str (session_status_as_ref v) = Some v" for v
    by (cases v) (simp_all add: session_status_from_str_def)
qed

interpretation role: wire_enum message_role_as_ref message_role_from_str
proof
  show "message_role_from_str (message_role_as_ref v) = Some v" for v
    by (cases v) (simp_all add: message_role_from_str_def)
qed

interpretation execution_status: wire_enum execution_status_as_ref execution_status_from_str
proof
  show "execution_status_from_str (execution_status_as_ref v) = Some v" for v
    by (cases v) (simp_all add: execution_status_from_str_def)
qed

lemma repo_cache_text_plain: "blank_free (repo_cache_as_str v)"
  by (cases v) (auto simp: blank_free_def)

interpretation repo_cache: wire_enum repo_cache_as_str repo_cache_parse
proof
  show "repo_cache_parse (repo_cache_as_str v) = Some v" for v
    using trim_blank_free [OF repo_cache_text_plain [of v]]
    by (cases v) (simp_all add: repo_cache_parse_def to_ascii_lowercase_def ascii_lower_char_def)
qed

lemmas wire_round_trips =
  harness.of_as session_status.of_as role.of_as execution_status.of_as repo_cache.of_as

section \<open>Accepted thread keys\<close>

lemma thread_key_parse_cases:
  "thread_key_parse s = Inr k \<longleftrightarrow>
     k = s \<and> s \<noteq> [] \<and> length s \<le> 512 \<and> \<not> starts_with s ''{'' \<and> \<not> starts_with s ''['' \<and>
     (\<forall>c \<in> set s. \<not> is_ascii_control c) \<and>
     (\<exists>ns rest. split_once (CHR '':'') s = Some (ns, rest) \<and> ns \<noteq> [] \<and> rest \<noteq> [])"
  by (auto simp: thread_key_parse_def validate_thread_key_def MAX_THREAD_KEY_BYTES_def
      split: option.splits)

lemma thread_key_parse_id: "thread_key_parse s = Inr k \<Longrightarrow> k = s"
  by (simp add: thread_key_parse_cases)

text \<open>
  \<^verbatim>\<open>ThreadKey::parse\<close> accepts exactly the namespaced keys: a non-empty namespace without a
  colon, a colon, and a non-empty rest, at most 512 bytes long, with no ASCII control byte and not
  starting like a JSON object or array; and it returns the key unchanged.
\<close>

theorem thread_key_parse_accepts:
  "thread_key_parse s = Inr k \<longleftrightarrow>
     k = s \<and> length s \<le> 512 \<and> hd s \<noteq> CHR ''{'' \<and> hd s \<noteq> CHR ''['' \<and>
     list_all (\<lambda>c. \<not> is_ascii_control c) s \<and>
     (\<exists>ns rest. s = ns @ CHR '':'' # rest \<and> ns \<noteq> [] \<and> rest \<noteq> [] \<and> CHR '':'' \<notin> set ns)"
  by (auto simp: thread_key_parse_cases split_once_Some list_all_iff starts_with_single)

section \<open>Destinations and keys\<close>

text \<open>The key shapes the chat surfaces use, one per destination.\<close>

fun thread_key_of :: "ChatDestination \<Rightarrow> string" where
  "thread_key_of (Slack c t) = ''slack:'' @ join_with '':'' [c, t]"
| "thread_key_of (Discord g c t) =
     ''discord:'' @ join_with '':'' ([g, c] @ (case t of None \<Rightarrow> [] | Some x \<Rightarrow> [x]))"
| "thread_key_of (Linear i c s) =
     ''linear:'' @ join_with '':'' ([i] @ (case c of None \<Rightarrow> [] | Some x \<Rightarrow> [''c'', x])
       @ (case s of None \<Rightarrow> [] | Some x \<Rightarrow> [''s'', x]))"
| "thread_key_of (Github own rep n knd review) =
     ''github:'' @ (own @ CHR ''/'' # rep) @ CHR '':'' # join_with '':''
       (case knd of Issue \<Rightarrow> [''issue'', show_nat n]
        | Pr \<Rightarrow> [show_nat n] @ (case review of None \<Rightarrow> [] | Some m \<Rightarrow> [''rc'', show_nat m]))"
| "thread_key_of (GoogleChat sp thr) =
     ''chat:spaces:'' @ drop 7 sp @ CHR '':'' # map (\<lambda>c. if c = CHR ''/'' then CHR '':'' else c) thr"

definition id_ok :: "string \<Rightarrow> bool" where
  "id_ok s \<longleftrightarrow> s \<noteq> [] \<and> CHR '':'' \<notin> set s"

fun well_addressed :: "ChatDestination \<Rightarrow> bool" where
  "well_addressed (Slack c t) \<longleftrightarrow> id_ok c \<and> id_ok t"
| "well_addressed (Discord g c t) \<longleftrightarrow>
     id_ok g \<and> trim g = g \<and> id_ok c \<and> trim c = c \<and>
     (case t of None \<Rightarrow> True | Some x \<Rightarrow> id_ok x \<and> trim x = x)"
| "well_addressed (Linear i c s) \<longleftrightarrow>
     id_ok i \<and> pred_option id_ok c \<and> pred_option id_ok s"
| "well_addressed (Github own rep n knd review) \<longleftrightarrow>
     id_ok own \<and> CHR ''/'' \<notin> set own \<and> id_ok rep \<and> CHR ''/'' \<notin> set rep \<and> n < 2 ^ 64 \<and>
     (knd = Issue \<longrightarrow> review = None) \<and> pred_option (\<lambda>m. m < 2 ^ 64) review"
| "well_addressed (GoogleChat sp thr) \<longleftrightarrow>
     (\<exists>i. sp = ''spaces/'' @ i \<and> id_ok i) \<and> id_ok thr"

lemma nonempty_Some [simp]:
  "nonempty s = Some t \<longleftrightarrow> s = t \<and> t \<noteq> []" "Some t = nonempty s \<longleftrightarrow> s = t \<and> t \<noteq> []"
  by (auto simp: nonempty_def)

lemma bind_nonempty_Some [simp]:
  "Option.bind a nonempty = Some t \<longleftrightarrow> a = Some t \<and> t \<noteq> []"
  "Some t = Option.bind a nonempty \<longleftrightarrow> a = Some t \<and> t \<noteq> []"
  by (cases a; auto)+

lemma github_segments_kind:
  "github_segments ps = Some (Issue, num, review) \<Longrightarrow> review = None"
  by (induction ps rule: github_segments.induct) (auto split: if_splits)

lemma linear_segments_parts:
  "linear_segments ps = Some (i, c, s) \<Longrightarrow>
   i \<in> set ps \<and> pred_option (\<lambda>x. x \<in> set ps) c \<and> pred_option (\<lambda>x. x \<in> set ps) s"
  by (induction ps rule: linear_segments.induct) (auto simp del: pred_option_def split: if_splits)

lemma slack_segments_parts:
  "slack_segments ps = Some (c, t) \<Longrightarrow> c \<in> set ps \<and> t \<in> set ps"
  by (induction ps rule: slack_segments.induct) (auto split: if_splits)

lemma split_id_ok: "p \<in> set (split_on (CHR '':'') k) \<Longrightarrow> p \<noteq> [] \<Longrightarrow> id_ok p"
  using split_on_parts by (simp add: id_ok_def)

lemma github_well_addressed:
  assumes "github_destination rest = Some d"
  shows "well_addressed d"
proof -
  obtain path thr own rep knd num review n where
    path: "split_once (CHR '':'') rest = Some (path, thr)"
    and own: "split_once (CHR ''/'') path = Some (own, rep)"
    and ne: "own \<noteq> []" "rep \<noteq> []" "CHR ''/'' \<notin> set rep"
    and seg: "github_segments (split_on (CHR '':'') thr) = Some (knd, num, review)"
    and n: "parse_u64 num = Some n"
    and d: "d = Github own rep n knd (Option.bind review parse_u64)"
    using assms by (auto simp: github_destination_def split: option.splits if_splits)
  have "CHR '':'' \<notin> set path" and "path = own @ CHR ''/'' # rep" and "CHR ''/'' \<notin> set own"
    using path own by (auto simp: split_once_Some)
  then have "id_ok own" "id_ok rep" "CHR ''/'' \<notin> set own" using ne by (auto simp: id_ok_def)
  moreover have "knd = Issue \<longrightarrow> review = None" using seg github_segments_kind by blast
  ultimately show ?thesis
    using d n ne by (auto simp: pred_option_def bind_eq_Some_conv dest!: parse_u64_bound)
qed

lemma discord_well_addressed: "discord_destination rest = Some d \<Longrightarrow> well_addressed d"
proof -
  assume d: "discord_destination rest = Some d"
  then obtain g c more where ps: "map trim (split_on (CHR '':'') rest) = g # c # more"
    and nz: "g \<noteq> []" "c \<noteq> []" and dd: "d = Discord g c (case more of [] \<Rightarrow> None | t # _ \<Rightarrow> nonempty t)"
    unfolding discord_destination_def by (auto split: list.splits if_splits simp del: map_map)
  have part: "id_ok x \<and> trim x = x" if "x \<in> set (g # c # more)" "x \<noteq> []" for x
  proof -
    have "x \<in> trim ` set (split_on (CHR '':'') rest)"
      using that(1) arg_cong [OF ps, of set] by simp
    then obtain y where "y \<in> set (split_on (CHR '':'') rest)" and x: "x = trim y" by blast
    then have "CHR '':'' \<notin> set x" using split_on_parts set_trim [of y] by fastforce
    with that x show ?thesis by (simp add: id_ok_def)
  qed
  show ?thesis using dd nz part [of g] part [of c] part [of "hd more"]
    by (cases more) (auto split: option.splits)
qed

lemma linear_well_addressed:
  assumes "linear_destination rest = Some d"
  shows "well_addressed d"
proof -
  obtain i c t where seg: "linear_segments (split_on (CHR '':'') rest) = Some (i, c, t)" and "i \<noteq> []"
    and "d = Linear i (Option.bind c nonempty) (Option.bind t nonempty)"
    using assms by (auto simp: linear_destination_def split: option.splits if_splits)
  then show ?thesis using linear_segments_parts [OF seg]
    by (auto simp: pred_option_def bind_eq_Some_conv intro: split_id_ok [of _ rest])
qed

lemma slack_well_addressed:
  assumes "slack_destination key = Some d"
  shows "well_addressed d"
proof -
  obtain c t where seg: "slack_segments (split_on (CHR '':'') key) = Some (c, t)"
    and "c \<noteq> []" "t \<noteq> []" "d = Slack c t"
    using assms by (auto simp: slack_destination_def split: option.splits if_splits)
  then show ?thesis using slack_segments_parts [OF seg] by (auto intro: split_id_ok [of _ key])
qed

lemma join_no_colon:
  "(\<And>p. p \<in> set ps \<Longrightarrow> CHR '':'' \<notin> set p) \<Longrightarrow> CHR '':'' \<notin> set (join_with ''/'' ps)"
  by (induction ps rule: induct_list012) auto

lemma google_well_addressed: "google_chat_destination rest = Some d \<Longrightarrow> well_addressed d"
proof -
  assume d: "google_chat_destination rest = Some d"
  then obtain i more where ps: "split_on (CHR '':'') rest = i # more" and "i \<noteq> []"
    and "join_with ''/'' more \<noteq> []" and "d = GoogleChat (''spaces/'' @ i) (join_with ''/'' more)"
    by (auto simp: google_chat_destination_def Let_def split: list.splits if_splits)
  moreover have "CHR '':'' \<notin> set p" if "p \<in> set (i # more)" for p
    using split_on_parts [of p "CHR '':''" rest] ps that by simp
  then have "CHR '':'' \<notin> set i" "CHR '':'' \<notin> set (join_with ''/'' more)"
    by (auto intro!: join_no_colon)
  ultimately show ?thesis by (simp add: id_ok_def)
qed

lemmas destination_well_addressed =
  github_well_addressed discord_well_addressed linear_well_addressed google_well_addressed
  slack_well_addressed

lemma chat_destination_cases:
  assumes "chat_destination key = Some d"
  obtains rest where "github_destination rest = Some d" "key = ''github:'' @ rest"
    | rest where "discord_destination rest = Some d" "key = ''discord:'' @ rest"
    | rest where "linear_destination rest = Some d" "key = ''linear:'' @ rest"
    | rest where "google_chat_destination rest = Some d" "key = ''chat:spaces:'' @ rest"
    | "slack_destination key = Some d"
  using assms by (auto simp: chat_destination_def strip_prefix_Some split: option.splits)

text \<open>
  Every destination that \<^verbatim>\<open>chat_destination\<close> resolves is postable: its identifiers are
  non-empty and hold no colon, a GitHub owner and repository hold no slash and its numbers fit
  \<^verbatim>\<open>u64\<close>, Discord identifiers are trimmed, and a Google Chat space is a \<^verbatim>\<open>spaces/\<close> resource.
\<close>

theorem chat_destination_well_addressed:
  assumes "chat_destination key = Some d"
  shows "well_addressed d"
  using assms by (rule chat_destination_cases) (blast intro: destination_well_addressed)+

lemma split_join:
  "ps \<noteq> [] \<Longrightarrow> (\<And>p. p \<in> set ps \<Longrightarrow> CHR '':'' \<notin> set p) \<Longrightarrow>
   split_on (CHR '':'') (join_with '':'' ps) = ps"
  by (rule split_on_join)

lemma split_replace:
  "CHR '':'' \<notin> set s \<Longrightarrow>
   split_on (CHR '':'') (map (\<lambda>c. if c = CHR ''/'' then CHR '':'' else c) s) = split_on (CHR ''/'') s"
  by (induction s) auto

text \<open>
  Round trip: a well-addressed destination is recovered from its thread key, on each of the
  five surfaces (Slack, Discord, Linear, GitHub issues, pull requests and review comments,
  Google Chat).
\<close>

lemma chat_destination_round_trip:
  assumes "well_addressed d"
  shows "chat_destination (thread_key_of d) = Some d"
proof (cases d)
  case (Slack c t)
  with assms have "split_on (CHR '':'') (''slack:'' @ join_with '':'' [c, t]) = [''slack'', c, t]"
    using split_join [of "[''slack'', c, t]"] by (simp add: id_ok_def)
  moreover have "chat_destination (''slack:'' @ x) = slack_destination (''slack:'' @ x)" for x
    by (simp add: chat_destination_def strip_prefix_def starts_with_def)
  ultimately show ?thesis
    using assms Slack by (simp add: slack_destination_def id_ok_def)
next
  case (Discord g c t)
  have "chat_destination (''discord:'' @ x) = discord_destination x" for x
    using strip_prefix_append [of "''discord:''" x]
    by (simp add: chat_destination_def strip_prefix_def starts_with_def)
  moreover have "discord_destination (join_with '':'' ([g, c] @ (case t of None \<Rightarrow> [] | Some x \<Rightarrow> [x]))) = Some d"
    using assms Discord split_join [of "[g, c] @ (case t of None \<Rightarrow> [] | Some x \<Rightarrow> [x])"]
    by (cases t) (simp_all add: discord_destination_def id_ok_def)
  ultimately show ?thesis using Discord by simp
next
  case (Linear i c s)
  have "chat_destination (''linear:'' @ x) = linear_destination x" for x
    by (simp add: chat_destination_def strip_prefix_def starts_with_def)
  moreover have "linear_destination (join_with '':'' ([i] @ (case c of None \<Rightarrow> [] | Some x \<Rightarrow> [''c'', x])
       @ (case s of None \<Rightarrow> [] | Some x \<Rightarrow> [''s'', x]))) = Some d"
    using assms Linear split_join [of "[i] @ (case c of None \<Rightarrow> [] | Some x \<Rightarrow> [''c'', x])
       @ (case s of None \<Rightarrow> [] | Some x \<Rightarrow> [''s'', x])"]
    by (cases c; cases s) (simp_all add: linear_destination_def id_ok_def)
  ultimately show ?thesis using Linear by simp
next
  case (Github own rep n knd review)
  let ?segs = "case knd of Issue \<Rightarrow> [''issue'', show_nat n]
        | Pr \<Rightarrow> [show_nat n] @ (case review of None \<Rightarrow> [] | Some m \<Rightarrow> [''rc'', show_nat m])"
  have "chat_destination (''github:'' @ x) = github_destination x" for x
    by (simp add: chat_destination_def strip_prefix_def starts_with_def)
  moreover have "split_once (CHR '':'') ((own @ CHR ''/'' # rep) @ CHR '':'' # join_with '':'' ?segs)
      = Some (own @ CHR ''/'' # rep, join_with '':'' ?segs)"
    using assms Github by (intro split_once_append) (auto simp: id_ok_def)
  moreover have "split_on (CHR '':'') (join_with '':'' ?segs) = ?segs"
    by (rule split_join) (auto split: GithubThreadKind.splits option.splits)
  ultimately show ?thesis
    using assms Github
    by (cases knd; cases review) (simp_all add: github_destination_def id_ok_def parse_u64_show)
next
  case (GoogleChat sp thr)
  with assms obtain i where i: "sp = ''spaces/'' @ i" "id_ok i" and thr: "id_ok thr" by auto
  let ?k = "i @ CHR '':'' # map (\<lambda>c. if c = CHR ''/'' then CHR '':'' else c) thr"
  have "chat_destination (''chat:spaces:'' @ x) = google_chat_destination x" for x
    by (simp add: chat_destination_def strip_prefix_def starts_with_def)
  moreover have "split_on (CHR '':'') ?k = i # split_on (CHR ''/'') thr"
    using i thr by (simp add: id_ok_def split_replace)
  ultimately show ?thesis
    using i thr GoogleChat join_split_on [of "CHR ''/''" thr]
    by (simp add: google_chat_destination_def id_ok_def)
qed

section \<open>The context line\<close>

text \<open>The identifiers a destination was parsed into.\<close>

fun dest_fields :: "ChatDestination \<Rightarrow> string list" where
  "dest_fields (Slack c t) = [c, t]"
| "dest_fields (Discord g c t) = [g, c] @ (case t of None \<Rightarrow> [] | Some x \<Rightarrow> [x])"
| "dest_fields (Linear i c s) =
     [i] @ (case c of None \<Rightarrow> [] | Some x \<Rightarrow> [x]) @ (case s of None \<Rightarrow> [] | Some x \<Rightarrow> [x])"
| "dest_fields (Github own rep n knd review) = [own, rep]"
| "dest_fields (GoogleChat sp thr) = [sp, thr]"

definition printable :: "string \<Rightarrow> bool" where
  "printable s \<longleftrightarrow> list_all (\<lambda>c. \<not> is_ascii_control c) s"

lemma printable_append [simp]: "printable (a @ b) \<longleftrightarrow> printable a \<and> printable b"
  by (simp add: printable_def)

lemma printable_subset: "set a \<subseteq> set b \<Longrightarrow> printable b \<Longrightarrow> printable a"
  by (auto simp: printable_def list_all_iff)

lemma printable_digits [simp]: "printable (show_nat n)"
  using show_nat_digits [of _ n] by (fastforce simp: printable_def list_all_iff is_ascii_control_def)

lemma split_on_printable: "p \<in> set (split_on c s) \<Longrightarrow> printable s \<Longrightarrow> printable p"
  using split_on_chars printable_subset by blast

lemma join_printable:
  "printable sep \<Longrightarrow> (\<And>p. p \<in> set ps \<Longrightarrow> printable p) \<Longrightarrow> printable (join_with sep ps)"
  by (induction ps rule: induct_list012) (auto simp: printable_def)

lemma github_fields:
  "github_destination rest = Some d \<Longrightarrow> printable rest \<Longrightarrow> x \<in> set (dest_fields d) \<Longrightarrow> printable x"
  by (auto simp: github_destination_def split_once_Some printable_def split: option.splits if_splits)

lemma slack_fields:
  assumes "slack_destination key = Some d" and "printable key" and "x \<in> set (dest_fields d)"
  shows "printable x"
proof -
  have "x \<in> set (split_on (CHR '':'') key)"
    using assms(1,3) by (auto simp: slack_destination_def dest!: slack_segments_parts
        split: option.splits if_splits)
  then show ?thesis using assms(2) by (rule split_on_printable)
qed

lemma linear_fields:
  assumes "linear_destination rest = Some d" and "printable rest" and "x \<in> set (dest_fields d)"
  shows "printable x"
proof -
  have "x \<in> set (split_on (CHR '':'') rest)"
    using assms(1,3) by (auto simp: linear_destination_def pred_option_def
        dest!: linear_segments_parts split: option.splits if_splits)
  then show ?thesis using assms(2) by (rule split_on_printable)
qed

lemma discord_fields:
  assumes "discord_destination rest = Some d" and "printable rest" and "x \<in> set (dest_fields d)"
  shows "printable x"
proof -
  obtain g c more where ps: "map trim (split_on (CHR '':'') rest) = g # c # more"
    and "d = Discord g c (case more of [] \<Rightarrow> None | t # _ \<Rightarrow> nonempty t)"
    using assms(1) unfolding discord_destination_def by (auto split: list.splits if_splits)
  with assms(3) have "x \<in> set (g # c # more)" by (auto split: option.splits list.splits)
  then have "x \<in> trim ` set (split_on (CHR '':'') rest)" using arg_cong [OF ps, of set] by simp
  then obtain y where "y \<in> set (split_on (CHR '':'') rest)" and "x = trim y" by blast
  then show ?thesis using assms(2) printable_subset [OF set_trim [of y]] split_on_printable by simp
qed

lemma google_fields:
  assumes "google_chat_destination rest = Some d" and "printable rest" and "x \<in> set (dest_fields d)"
  shows "printable x"
proof -
  obtain i more where ps: "split_on (CHR '':'') rest = i # more"
    and d: "d = GoogleChat (''spaces/'' @ i) (join_with ''/'' more)"
    using assms(1) by (auto simp: google_chat_destination_def Let_def split: list.splits if_splits)
  have "printable p" if "p \<in> set (i # more)" for p
    using split_on_printable [of p "CHR '':''" rest] ps that assms(2) by simp
  moreover have "printable ''spaces/''" "printable ''/''"
    by (simp_all add: printable_def is_ascii_control_def)
  ultimately have "printable (''spaces/'' @ i)" "printable (join_with ''/'' more)"
    by (auto intro!: join_printable simp only: printable_append list.set)
  with assms(3) d show ?thesis by auto
qed

lemma dest_fields_printable:
  assumes "chat_destination key = Some d" and "printable key" and "x \<in> set (dest_fields d)"
  shows "printable x"
  using assms(1)
proof (rule chat_destination_cases)
  assume "slack_destination key = Some d"
  then show ?thesis using assms(2,3) by (rule slack_fields)
qed (use assms(2,3) github_fields linear_fields discord_fields google_fields in
    \<open>metis printable_append\<close>)+

lemma printable_Cons: "printable (c # s) \<longleftrightarrow> \<not> is_ascii_control c \<and> printable s"
  by (simp add: printable_def)

lemma printable_Nil [simp]: "printable []"
  by (simp add: printable_def)

lemma printable_texts [simp]:
  "printable middot" "printable slack_dm_policy" "printable slack_channel_policy"
  "printable discord_delivery" "printable linear_delivery" "printable github_delivery"
  "printable google_chat_delivery"
  by (simp_all add: printable_def is_ascii_control_def middot_def emdash_def slack_dm_policy_def
      slack_channel_policy_def discord_delivery_def linear_delivery_def github_delivery_def
      google_chat_delivery_def)

lemma context_line_printable:
  assumes "\<And>x. x \<in> set (dest_fields d) \<Longrightarrow> printable x"
  shows "printable (context_line d)"
  using assms
  by (cases d) (auto simp: context_line_def printable_Cons is_ascii_control_def
      split: option.splits GithubThreadKind.splits)

text \<open>
  The note prepended to a user turn stays on one line: for an accepted thread key the context
  line of its destination holds no ASCII control character, whatever the key's identifiers are.
\<close>

theorem context_line_single_line:
  assumes "thread_key_parse key = Inr key'" and "chat_destination key' = Some d"
  shows "list_all (\<lambda>c. \<not> is_ascii_control c) (context_line d)"
proof -
  have "printable key'" using assms(1) by (auto simp: thread_key_parse_cases printable_def list_all_iff)
  then have "printable (context_line d)"
    using assms(2) by (blast intro: context_line_printable dest_fields_printable)
  then show ?thesis by (simp add: printable_def)
qed

end
