(* ===== verification/Json_Value.thy ===== *)
theory Json_Value
  imports Prelude
begin

text \<open>
  JSON documents as the store keeps them (\<^verbatim>\<open>serde_json::Value\<close> in Rust, \<^verbatim>\<open>jsonb\<close> in PostgreSQL)
  and the operators the statements use: \<^verbatim>\<open>||\<close>, \<^verbatim>\<open>@>\<close>, \<^verbatim>\<open>->>\<close>, \<^verbatim>\<open>Value::get\<close> and
  \<^verbatim>\<open>Value::as_u64\<close>. An object is the association list of its (distinct) keys. A number is the
  decimal \<open>m / 10 ^ s\<close> with its scale \<open>s\<close>, since \<^verbatim>\<open>1\<close> and \<^verbatim>\<open>1.0\<close> are equal to
  \<^verbatim>\<open>jsonb\<close> but only the first one is a \<^verbatim>\<open>u64\<close> to serde.
\<close>

datatype json =
    JNull
  | JBool bool
  | JNum int nat
  | JStr string
  | JArr "json list"
  | JObj "(string \<times> json) list"

abbreviation empty_object :: json where
  "empty_object \<equiv> JObj []"

fun get_key :: "string \<Rightarrow> json \<Rightarrow> json option" where
  "get_key k (JObj kvs) = map_of kvs k"
| "get_key k _ = None"

fun as_u64 :: "json \<Rightarrow> nat option" where
  "as_u64 (JNum m s) = (if s = 0 \<and> 0 \<le> m \<and> m < 2 ^ 64 then Some (nat m) else None)"
| "as_u64 _ = None"

text \<open>\<^verbatim>\<open>||\<close>: two objects merge (the right one wins), anything else is concatenated as arrays.\<close>

fun as_elements :: "json \<Rightarrow> json list" where
  "as_elements (JArr xs) = xs"
| "as_elements j = [j]"

fun json_concat :: "json \<Rightarrow> json \<Rightarrow> json" where
  "json_concat (JObj xs) (JObj ys) = JObj (filter (\<lambda>(k, v). k \<notin> fst ` set ys) xs @ ys)"
| "json_concat a b = JArr (as_elements a @ as_elements b)"

text \<open>\<^verbatim>\<open>@>\<close>: containment; at the top level an array also contains the scalars among its elements.\<close>

fun scalar_eq :: "json \<Rightarrow> json \<Rightarrow> bool" where
  "scalar_eq JNull JNull = True"
| "scalar_eq (JBool a) (JBool b) = (a = b)"
| "scalar_eq (JNum m s) (JNum n t) = (m * 10 ^ t = n * 10 ^ s)"
| "scalar_eq (JStr a) (JStr b) = (a = b)"
| "scalar_eq _ _ = False"

function deep_contains :: "json \<Rightarrow> json \<Rightarrow> bool" where
  "deep_contains a b =
     (case b of
        JObj ys \<Rightarrow>
          (case a of
             JObj xs \<Rightarrow>
               list_all (\<lambda>(k, v). case map_of xs k of None \<Rightarrow> False | Some u \<Rightarrow> deep_contains u v) ys
           | _ \<Rightarrow> False)
      | JArr ys \<Rightarrow>
          (case a of JArr xs \<Rightarrow> list_all (\<lambda>y. list_ex (\<lambda>x. deep_contains x y) xs) ys | _ \<Rightarrow> False)
      | _ \<Rightarrow> scalar_eq a b)"
  by pat_completeness auto

lemma size_obj_member: "(k, v) \<in> set ys \<Longrightarrow> size v < size (JObj ys)"
  by (induction ys) auto

lemma size_arr_member: "v \<in> set ys \<Longrightarrow> size v < size (JArr ys)"
  by (induction ys) auto

termination deep_contains
  by (relation "measure (\<lambda>(a, b). size b)")
    (auto dest!: size_obj_member intro: size_arr_member simp del: json.size)

declare deep_contains.simps [simp del]

fun is_scalar :: "json \<Rightarrow> bool" where
  "is_scalar (JArr _) = False"
| "is_scalar (JObj _) = False"
| "is_scalar _ = True"

definition json_contains :: "json \<Rightarrow> json \<Rightarrow> bool" where
  "json_contains a b =
     (if is_scalar b then list_ex (\<lambda>x. scalar_eq x b) (as_elements a) else deep_contains a b)"

text \<open>\<^verbatim>\<open>->>\<close>: a field as text, SQL null for a missing field and for JSON null.\<close>

definition hex_digit :: "nat \<Rightarrow> char" where
  "hex_digit d = (if d < 10 then char_of (48 + d) else char_of (87 + d))"

definition escape_char :: "char \<Rightarrow> string" where
  "escape_char c =
     (let n = of_char c :: nat in
      if n = 8 then [CHR 0x5C, CHR ''b''] else if n = 12 then [CHR 0x5C, CHR ''f'']
      else if n = 10 then [CHR 0x5C, CHR ''n''] else if n = 13 then [CHR 0x5C, CHR ''r'']
      else if n = 9 then [CHR 0x5C, CHR ''t''] else if n = 34 then [CHR 0x5C, CHR 0x22]
      else if n = 92 then [CHR 0x5C, CHR 0x5C]
      else if n < 32 then [CHR 0x5C, CHR ''u'', CHR ''0'', CHR ''0'', hex_digit (n div 16), hex_digit (n mod 16)]
      else [c])"

definition quote :: "string \<Rightarrow> string" where
  "quote s = CHR 0x22 # concat (map escape_char s) @ [CHR 0x22]"

fun pad_zeros :: "nat \<Rightarrow> string \<Rightarrow> string" where
  "pad_zeros n s = replicate (n - length s) (CHR ''0'') @ s"

definition num_out :: "int \<Rightarrow> nat \<Rightarrow> string" where
  "num_out m s =
     (let d = nat \<bar>m\<bar> in
      (if m < 0 then ''-'' else [])
      @ show_nat (d div 10 ^ s) @ (if s = 0 then [] else CHR ''.'' # pad_zeros s (show_nat (d mod 10 ^ s))))"

fun jsonb_out :: "json \<Rightarrow> string" where
  "jsonb_out JNull = ''null''"
| "jsonb_out (JBool b) = (if b then ''true'' else ''false'')"
| "jsonb_out (JNum m s) = num_out m s"
| "jsonb_out (JStr s) = quote s"
| "jsonb_out (JArr xs) = ''['' @ join_with '', '' (map jsonb_out xs) @ '']''"
| "jsonb_out (JObj kvs) =
     ''{'' @ join_with '', '' (map (\<lambda>(k, v). quote k @ '': '' @ jsonb_out v) kvs) @ ''}''"

definition get_text :: "string \<Rightarrow> json \<Rightarrow> string option" where
  "get_text k j =
     (case get_key k j of
        None \<Rightarrow> None
      | Some JNull \<Rightarrow> None
      | Some (JStr s) \<Rightarrow> Some s
      | Some v \<Rightarrow> Some (jsonb_out v))"

lemma get_key_concat:
  "get_key k (json_concat (JObj xs) (JObj ys)) =
     (case map_of ys k of None \<Rightarrow> map_of xs k | Some v \<Rightarrow> Some v)"
proof -
  have kept: "map_of (filter (\<lambda>(k, v). k \<notin> fst ` set ys) xs) k = (if k \<in> fst ` set ys then None else map_of xs k)"
    by (induction xs) force+
  show ?thesis
  proof (cases "map_of ys k")
    case None
    then have "k \<notin> fst ` set ys" by (simp add: map_of_eq_None_iff)
    with kept None show ?thesis by (simp add: map_add_def split: option.split)
  next
    case (Some v)
    then have "k \<in> fst ` set ys" by (metis map_of_eq_None_iff option.distinct(1))
    with kept Some show ?thesis by (simp add: map_add_def)
  qed
qed

lemma get_key_set:
  "get_key k (json_concat (JObj xs) (JObj [(k', v)])) = (if k = k' then Some v else map_of xs k)"
  unfolding get_key_concat by simp

section \<open>Reading and building values\<close>

fun as_str :: "json \<Rightarrow> string option" where
  "as_str (JStr s) = Some s"
| "as_str _ = None"

fun as_bool :: "json \<Rightarrow> bool option" where
  "as_bool (JBool b) = Some b"
| "as_bool _ = None"

fun is_object :: "json \<Rightarrow> bool" where
  "is_object (JObj _) = True"
| "is_object _ = False"

text \<open>\<^verbatim>\<open>value.get(k).and_then(Value::as_str)\<close>; a pointer of names is a chain of gets.\<close>

definition get_str :: "string \<Rightarrow> json \<Rightarrow> string option" where
  "get_str k v = Option.bind (get_key k v) as_str"

fun get_path :: "string list \<Rightarrow> json \<Rightarrow> json option" where
  "get_path [] v = Some v"
| "get_path (k # ks) v = Option.bind (get_key k v) (get_path ks)"

definition or_else :: "'a option \<Rightarrow> 'a option \<Rightarrow> 'a option" where
  "or_else a b = (case a of None \<Rightarrow> b | Some x \<Rightarrow> Some x)"

definition nonempty_text :: "string \<Rightarrow> string option" where
  "nonempty_text s = (if s = [] then None else Some s)"

text \<open>\<^verbatim>\<open>serde_json::Map::insert\<close> keeps one entry per key.\<close>

fun json_insert :: "string \<Rightarrow> json \<Rightarrow> (string \<times> json) list \<Rightarrow> (string \<times> json) list" where
  "json_insert k v [] = [(k, v)]"
| "json_insert k v ((k', v') # kvs) = (if k = k' then (k, v) # kvs else (k', v') # json_insert k v kvs)"

definition insert_opt :: "string \<Rightarrow> json option \<Rightarrow> (string \<times> json) list \<Rightarrow> (string \<times> json) list" where
  "insert_opt k v kvs = (case v of None \<Rightarrow> kvs | Some j \<Rightarrow> json_insert k j kvs)"

definition JNat :: "nat \<Rightarrow> json" where
  "JNat n = JNum (int n) 0"

end
