(* ===== verification/Store_Schema.thy ===== *)
theory Store_Schema
  imports Session_Core Json_Value "HOL-Library.Product_Lexorder"
begin

text \<open>
  \<^verbatim>\<open>crates/centaur-session-sqlx/src/lib.rs\<close>, the schema: rows as PostgreSQL keeps them (enums and
  thread keys are text), the errors of the store, the decoding of rows into the domain types, and
  the database as the record of its tables.

  Timestamps are nanoseconds since the epoch (\<^typ>\<open>int\<close>), durations nanoseconds (\<^typ>\<open>nat\<close>).
  An operation takes the database clock \<open>now\<close> and, where the Rust code reads its own clock,
  that reading too: the two need not agree.
\<close>

type_synonym time = int
type_synonym duration = nat
type_synonym labels = "(string \<times> string) list"

section \<open>Errors\<close>

datatype SqlxError =
    RowNotFound
  | UniqueViolation string
  | ForeignKeyViolation string
  | CheckViolation string

text \<open>\<open>Panic\<close> stands for a panicking Rust call (date arithmetic out of range).\<close>

datatype SessionStoreError =
    NotFound string
  | HarnessConflict string string string
  | PrincipalConflict string string string
  | InvalidPersistedValue string
  | ExecutionNotFound string
  | ExecutionActive string string
  | WorkflowOwnedSandbox string
  | Sqlx SqlxError
  | Panic string

type_synonym 'a store_result = "SessionStoreError + 'a"

section \<open>Rows\<close>

record session_row =
  s_thread_key :: string
  s_title :: "string option"
  s_sandbox_id :: "string option"
  s_sandbox_repo_cache_enabled :: "bool option"
  s_sandbox_repo_cache_access :: "string option"
  s_sandbox_observability_enabled :: "bool option"
  s_sandbox_api_server_enabled :: "bool option"
  s_harness_type :: string
  s_harness_thread_id :: "string option"
  s_persona_id :: "string option"
  s_status :: string
  s_iron_control_principal :: "string option"
  s_proxy_labels :: labels
  s_metadata :: json
  s_sandbox_last_active_at :: "time option"
  s_created_at :: time
  s_updated_at :: time

record message_row =
  m_message_id :: string
  m_client_message_id :: "string option"
  m_thread_key :: string
  m_role :: string
  m_parts :: json
  m_metadata :: json
  m_created_at :: time

record execution_row =
  x_execution_id :: string
  x_idempotency_key :: "string option"
  x_thread_key :: string
  x_status :: string
  x_metadata :: json
  x_request :: json
  x_error :: "string option"
  x_created_at :: time
  x_updated_at :: time
  x_started_at :: "time option"
  x_completed_at :: "time option"
  x_stdout_owner_id :: "string option"
  x_stdout_owner_lease_expires_at :: "time option"

record event_row =
  e_event_id :: int
  e_thread_key :: string
  e_execution_id :: "string option"
  e_event_type :: string
  e_payload :: json
  e_created_at :: time

record warm_row =
  w_sandbox_id :: string
  w_workload_key :: string
  w_status :: string
  w_claimed_thread_key :: "string option"
  w_created_at :: time
  w_updated_at :: time
  w_claimed_at :: "time option"
  w_last_error :: "string option"

record db =
  sessions :: "session_row list"
  session_messages :: "message_row list"
  session_executions :: "execution_row list"
  session_events :: "event_row list"
  session_warm_sandboxes :: "warm_row list"
  slack_external_team_allowlist :: "string list option"
  next_event_id :: int

definition empty_db :: db where
  "empty_db = \<lparr>sessions = [], session_messages = [], session_executions = [], session_events = [],
     session_warm_sandboxes = [], slack_external_team_allowlist = None, next_event_id = 1\<rparr>"

section \<open>Domain values\<close>

record Session =
  ses_thread_key :: string
  ses_title :: "string option"
  ses_sandbox_id :: "string option"
  ses_sandbox_capabilities :: "SandboxCapabilities option"
  ses_harness_type :: HarnessType
  ses_harness_thread_id :: "string option"
  ses_persona_id :: "string option"
  ses_status :: SessionStatus
  ses_iron_control_principal :: "string option"
  ses_proxy_labels :: labels
  ses_sandbox_last_active_at :: "time option"
  ses_created_at :: time
  ses_updated_at :: time

record SessionMessageInput =
  in_client_message_id :: "string option"
  in_role :: MessageRole
  in_parts :: "json list"
  in_metadata :: json

record SessionMessage =
  msg_message_id :: string
  msg_client_message_id :: "string option"
  msg_thread_key :: string
  msg_role :: MessageRole
  msg_parts :: "json list"
  msg_metadata :: json
  msg_created_at :: time

record SessionExecution =
  exe_execution_id :: string
  exe_idempotency_key :: "string option"
  exe_thread_key :: string
  exe_status :: ExecutionStatus
  exe_metadata :: json
  exe_error :: "string option"
  exe_created_at :: time
  exe_updated_at :: time
  exe_started_at :: "time option"
  exe_completed_at :: "time option"

record SessionEvent =
  ev_event_id :: int
  ev_thread_key :: string
  ev_execution_id :: "string option"
  ev_event_type :: string
  ev_payload :: json
  ev_created_at :: time

section \<open>Decoding rows\<close>

text \<open>\<^verbatim>\<open>parse_persisted\<close>: a parse failure becomes \<^const>\<open>InvalidPersistedValue\<close> with the message.\<close>

definition parse_persisted_key :: "string \<Rightarrow> string store_result" where
  "parse_persisted_key value =
     (case thread_key_parse value of
        Inl e \<Rightarrow> Inl (InvalidPersistedValue (thread_key_error_message e))
      | Inr k \<Rightarrow> Inr k)"

definition parse_persisted :: "(string \<Rightarrow> 'e option) \<Rightarrow> string \<Rightarrow> 'e store_result" where
  "parse_persisted of_text value =
     (case of_text value of
        None \<Rightarrow> Inl (InvalidPersistedValue ''Matching variant not found'')
      | Some v \<Rightarrow> Inr v)"

definition row_capabilities :: "session_row \<Rightarrow> SandboxCapabilities option" where
  "row_capabilities row =
     (case (s_sandbox_repo_cache_enabled row, s_sandbox_observability_enabled row) of
        (Some enabled, Some observability) \<Rightarrow>
          Some \<lparr>repo_cache =
                  (case Option.bind (s_sandbox_repo_cache_access row) repo_cache_parse of
                     Some a \<Rightarrow> a | None \<Rightarrow> repo_cache_from_legacy_enabled enabled),
                observability_enabled = observability\<rparr>
      | _ \<Rightarrow> None)"

definition session_of_row :: "session_row \<Rightarrow> Session store_result" where
  "session_of_row row =
     res_bind (parse_persisted_key (s_thread_key row)) (\<lambda>key.
     res_bind (parse_persisted harness_type_from_str (s_harness_type row)) (\<lambda>harness.
     res_bind (parse_persisted session_status_from_str (s_status row)) (\<lambda>status.
       Inr \<lparr>ses_thread_key = key, ses_title = s_title row, ses_sandbox_id = s_sandbox_id row,
            ses_sandbox_capabilities = row_capabilities row, ses_harness_type = harness,
            ses_harness_thread_id = s_harness_thread_id row, ses_persona_id = s_persona_id row,
            ses_status = status, ses_iron_control_principal = s_iron_control_principal row,
            ses_proxy_labels = s_proxy_labels row,
            ses_sandbox_last_active_at = s_sandbox_last_active_at row,
            ses_created_at = s_created_at row, ses_updated_at = s_updated_at row\<rparr>)))"

definition message_of_row :: "message_row \<Rightarrow> SessionMessage store_result" where
  "message_of_row row =
     res_bind (parse_persisted_key (m_thread_key row)) (\<lambda>key.
     res_bind (parse_persisted message_role_from_str (m_role row)) (\<lambda>role.
       Inr \<lparr>msg_message_id = m_message_id row, msg_client_message_id = m_client_message_id row,
            msg_thread_key = key, msg_role = role, msg_parts = as_elements (m_parts row),
            msg_metadata = m_metadata row, msg_created_at = m_created_at row\<rparr>))"

definition execution_of_row :: "execution_row \<Rightarrow> SessionExecution store_result" where
  "execution_of_row row =
     res_bind (parse_persisted_key (x_thread_key row)) (\<lambda>key.
     res_bind (parse_persisted execution_status_from_str (x_status row)) (\<lambda>status.
       Inr \<lparr>exe_execution_id = x_execution_id row, exe_idempotency_key = x_idempotency_key row,
            exe_thread_key = key, exe_status = status, exe_metadata = x_metadata row,
            exe_error = x_error row, exe_created_at = x_created_at row,
            exe_updated_at = x_updated_at row, exe_started_at = x_started_at row,
            exe_completed_at = x_completed_at row\<rparr>))"

definition event_of_row :: "event_row \<Rightarrow> SessionEvent store_result" where
  "event_of_row row =
     res_bind (parse_persisted_key (e_thread_key row)) (\<lambda>key.
       Inr \<lparr>ev_event_id = e_event_id row, ev_thread_key = key, ev_execution_id = e_execution_id row,
            ev_event_type = e_event_type row, ev_payload = e_payload row,
            ev_created_at = e_created_at row\<rparr>)"

section \<open>Updating one table\<close>

definition upd_sessions ::
  "(session_row \<Rightarrow> bool) \<Rightarrow> (session_row \<Rightarrow> session_row) \<Rightarrow> db \<Rightarrow> db \<times> session_row list" where
  "upd_sessions p f db =
     (let u = sql_update p f (sessions db) in (db\<lparr>sessions := fst u\<rparr>, snd u))"

definition upd_executions ::
  "(execution_row \<Rightarrow> bool) \<Rightarrow> (execution_row \<Rightarrow> execution_row) \<Rightarrow> db \<Rightarrow> db \<times> execution_row list" where
  "upd_executions p f db =
     (let u = sql_update p f (session_executions db) in (db\<lparr>session_executions := fst u\<rparr>, snd u))"

definition upd_warm ::
  "(warm_row \<Rightarrow> bool) \<Rightarrow> (warm_row \<Rightarrow> warm_row) \<Rightarrow> db \<Rightarrow> db \<times> warm_row list" where
  "upd_warm p f db =
     (let u = sql_update p f (session_warm_sandboxes db) in (db\<lparr>session_warm_sandboxes := fst u\<rparr>, snd u))"

text \<open>\<^verbatim>\<open>fetch_one\<close> and the decoding that follows it.\<close>

definition fetch_one :: "'r list \<Rightarrow> ('r \<Rightarrow> 'a store_result) \<Rightarrow> 'a store_result" where
  "fetch_one rs decode = (case rs of [] \<Rightarrow> Inl (Sqlx RowNotFound) | r # _ \<Rightarrow> decode r)"

text \<open>\<^verbatim>\<open>status in ('queued', 'running')\<close>\<close>

definition active :: "execution_row \<Rightarrow> bool" where
  "active r \<longleftrightarrow> x_status r = execution_status_as_ref Queued \<or> x_status r = execution_status_as_ref Running"

section \<open>The schema's constraints\<close>

text \<open>The partial unique indexes, as the (optional) key each row is indexed under.\<close>

definition one_active_key :: "execution_row \<Rightarrow> string option" where
  "one_active_key r = (if active r then Some (x_thread_key r) else None)"

definition idempotency_key :: "execution_row \<Rightarrow> (string \<times> string) option" where
  "idempotency_key r = map_option (Pair (x_thread_key r)) (x_idempotency_key r)"

definition client_message_key :: "message_row \<Rightarrow> (string \<times> string) option" where
  "client_message_key r = map_option (Pair (m_thread_key r)) (m_client_message_id r)"

text \<open>The check constraints of \<^verbatim>\<open>sessions\<close>, in the alphabetical order PostgreSQL tries them in
  (the colon's position is one-based in SQL).\<close>

definition position :: "char \<Rightarrow> string \<Rightarrow> nat" where
  "position c s = (case split_once c s of None \<Rightarrow> 0 | Some (a, b) \<Rightarrow> Suc (length a))"

definition session_check :: "session_row \<Rightarrow> SqlxError option" where
  "session_check r =
     (if \<not> (1 \<le> length (s_harness_type r) \<and> length (s_harness_type r) \<le> 64)
      then Some (CheckViolation ''sessions_harness_type_len'')
      else if \<not> (case s_persona_id r of None \<Rightarrow> True | Some p \<Rightarrow> 1 \<le> length p \<and> length p \<le> 128)
      then Some (CheckViolation ''sessions_persona_id_len'')
      else if \<not> length (s_thread_key r) \<le> 512
      then Some (CheckViolation ''sessions_thread_key_len'')
      else if \<not> 1 < position (CHR '':'') (s_thread_key r)
      then Some (CheckViolation ''sessions_thread_key_namespaced'')
      else None)"

definition warm_statuses :: "string list" where
  "warm_statuses = [''ready'', ''claimed'', ''evicting'', ''failed'']"

definition has_session :: "db \<Rightarrow> string \<Rightarrow> bool" where
  "has_session db k \<longleftrightarrow> k \<in> s_thread_key ` set (sessions db)"

definition has_execution :: "db \<Rightarrow> string \<Rightarrow> bool" where
  "has_execution db k \<longleftrightarrow> k \<in> x_execution_id ` set (session_executions db)"

section \<open>The store invariant\<close>

text \<open>Keys are unique, references resolve, and every text column decodes.\<close>

definition session_ok :: "session_row \<Rightarrow> bool" where
  "session_ok r \<longleftrightarrow>
     thread_key_parse (s_thread_key r) = Inr (s_thread_key r) \<and>
     harness_type_from_str (s_harness_type r) \<noteq> None \<and>
     session_status_from_str (s_status r) \<noteq> None"

definition sessions_inv :: "session_row list \<Rightarrow> bool" where
  "sessions_inv t \<longleftrightarrow> distinct (map s_thread_key t) \<and> (\<forall>r \<in> set t. session_ok r)"

definition messages_inv :: "string set \<Rightarrow> message_row list \<Rightarrow> bool" where
  "messages_inv ks t \<longleftrightarrow>
     distinct (map m_message_id t) \<and> unique_index client_message_key t \<and>
     (\<forall>r \<in> set t. m_thread_key r \<in> ks \<and> message_role_from_str (m_role r) \<noteq> None)"

text \<open>An owner and its lease are set and cleared together.\<close>

definition owner_leased :: "execution_row \<Rightarrow> bool" where
  "owner_leased r \<longleftrightarrow> (x_stdout_owner_id r = None \<longleftrightarrow> x_stdout_owner_lease_expires_at r = None)"

definition executions_inv :: "string set \<Rightarrow> execution_row list \<Rightarrow> bool" where
  "executions_inv ks t \<longleftrightarrow>
     distinct (map x_execution_id t) \<and> unique_index one_active_key t \<and> unique_index idempotency_key t \<and>
     (\<forall>r \<in> set t. x_thread_key r \<in> ks \<and> execution_status_from_str (x_status r) \<noteq> None \<and> owner_leased r)"

definition events_inv :: "string set \<Rightarrow> string set \<Rightarrow> int \<Rightarrow> event_row list \<Rightarrow> bool" where
  "events_inv ks xs n t \<longleftrightarrow>
     sorted_wrt (\<lambda>a b. e_event_id a < e_event_id b) t \<and>
     (\<forall>r \<in> set t. e_event_id r < n \<and> e_thread_key r \<in> ks \<and>
        (case e_execution_id r of None \<Rightarrow> True | Some x \<Rightarrow> x \<in> xs))"

definition warm_ok :: "string set \<Rightarrow> warm_row \<Rightarrow> bool" where
  "warm_ok ks r \<longleftrightarrow>
     w_status r \<in> set warm_statuses \<and>
     (case w_claimed_thread_key r of None \<Rightarrow> True | Some k \<Rightarrow> k \<in> ks) \<and>
     (w_status r = ''claimed'' \<longrightarrow> w_claimed_thread_key r \<noteq> None \<and> w_claimed_at r \<noteq> None)"

definition warm_inv :: "string set \<Rightarrow> warm_row list \<Rightarrow> bool" where
  "warm_inv ks t \<longleftrightarrow> distinct (map w_sandbox_id t) \<and> (\<forall>r \<in> set t. warm_ok ks r)"

definition store_inv :: "db \<Rightarrow> bool" where
  "store_inv db \<longleftrightarrow>
     (let ks = s_thread_key ` set (sessions db); xs = x_execution_id ` set (session_executions db) in
      sessions_inv (sessions db) \<and>
      messages_inv ks (session_messages db) \<and>
      executions_inv ks (session_executions db) \<and>
      events_inv ks xs (next_event_id db) (session_events db) \<and>
      warm_inv ks (session_warm_sandboxes db))"

lemma store_inv_empty: "store_inv empty_db"
  by (simp add: store_inv_def empty_db_def sessions_inv_def messages_inv_def executions_inv_def
      events_inv_def warm_inv_def unique_index_def)

lemma accepted_key_passes_checks:
  assumes "thread_key_parse k = Inr k'"
  shows "length k \<le> 512" and "1 < position (CHR '':'') k"
proof -
  show "length k \<le> 512" using assms by (simp add: thread_key_parse_cases)
  from assms obtain a b where "split_once (CHR '':'') k = Some (a, b)" and "a \<noteq> []"
    by (auto simp: thread_key_parse_cases)
  then show "1 < position (CHR '':'') k" by (simp add: position_def)
qed

lemma harness_text_length [simp]: "harness_type_as_ref h \<noteq> []" "length (harness_type_as_ref h) \<le> 64"
  by (cases h; simp)+

lemma execution_status_texts [simp]:
  "execution_status_as_ref a = execution_status_as_ref b \<longleftrightarrow> a = b"
  by (rule execution_status.as_text_inject)

lemmas status_refs [simp del] = execution_status_as_ref.simps session_status_as_ref.simps
  message_role_as_ref.simps harness_type_as_ref.simps

end
