(* ===== verification/Store_Sessions.thy ===== *)
theory Store_Sessions
  imports Store_Schema
begin

text \<open>
  \<^verbatim>\<open>crates/centaur-session-sqlx/src/lib.rs\<close>, the \<^verbatim>\<open>sessions\<close>, \<^verbatim>\<open>session_messages\<close> and
  \<^verbatim>\<open>slack_external_team_allowlist\<close> tables: every statement as an update of its table, every
  operation as the statements it runs, in their order, with its error paths. The locale
  \<open>session_update\<close> is the contract the session statements share.
\<close>

section \<open>Slack Connect allowlist\<close>

definition slack_external_team_ids :: "db \<Rightarrow> string list" where
  "slack_external_team_ids db =
     (case slack_external_team_allowlist db of None \<Rightarrow> [] | Some ids \<Rightarrow> ids)"

definition replace_slack_external_team_ids :: "string list \<Rightarrow> db \<Rightarrow> db" where
  "replace_slack_external_team_ids team_ids db = db\<lparr>slack_external_team_allowlist := Some team_ids\<rparr>"

definition seed_slack_external_team_ids :: "string list \<Rightarrow> db \<Rightarrow> db \<times> bool" where
  "seed_slack_external_team_ids team_ids db =
     (case slack_external_team_allowlist db of
        None \<Rightarrow> (db\<lparr>slack_external_team_allowlist := Some team_ids\<rparr>, True)
      | Some _ \<Rightarrow> (db, False))"

section \<open>Sessions\<close>

definition get_session :: "db \<Rightarrow> string \<Rightarrow> Session store_result" where
  "get_session db thread_key =
     (case row_by s_thread_key thread_key (sessions db) of
        None \<Rightarrow> Inl (NotFound thread_key)
      | Some row \<Rightarrow> session_of_row row)"

definition get_session_title :: "db \<Rightarrow> string \<Rightarrow> string option" where
  "get_session_title db thread_key =
     Option.bind (row_by s_thread_key thread_key (sessions db)) s_title"

definition new_session_row ::
  "time \<Rightarrow> string \<Rightarrow> HarnessType \<Rightarrow> string option \<Rightarrow> json \<Rightarrow> labels \<Rightarrow> session_row" where
  "new_session_row now thread_key harness_type persona_id metadata proxy_labels =
     \<lparr>s_thread_key = thread_key, s_title = None, s_sandbox_id = None,
      s_sandbox_repo_cache_enabled = None, s_sandbox_repo_cache_access = None,
      s_sandbox_observability_enabled = None, s_sandbox_api_server_enabled = None,
      s_harness_type = harness_type_as_ref harness_type, s_harness_thread_id = None,
      s_persona_id = persona_id, s_status = session_status_as_ref Idle,
      s_iron_control_principal = None, s_proxy_labels = proxy_labels, s_metadata = metadata,
      s_sandbox_last_active_at = None, s_created_at = now, s_updated_at = now\<rparr>"

text \<open>The conflict branch of the merging insert.\<close>

definition merge_metadata_p :: "session_row \<Rightarrow> session_row \<Rightarrow> bool" where
  "merge_metadata_p new r \<longleftrightarrow>
     s_thread_key r = s_thread_key new \<and> s_harness_type r = s_harness_type new \<and>
     \<not> json_contains (s_metadata r) (s_metadata new)"

definition merge_metadata_f :: "time \<Rightarrow> session_row \<Rightarrow> session_row \<Rightarrow> session_row" where
  "merge_metadata_f now new r =
     r\<lparr>s_metadata := json_concat (s_metadata r) (s_metadata new), s_updated_at := now\<rparr>"

definition insert_session :: "time \<Rightarrow> session_row \<Rightarrow> bool \<Rightarrow> db \<Rightarrow> db store_result" where
  "insert_session now new merge_metadata db =
     (case session_check new of
        Some e \<Rightarrow> Inl (Sqlx e)
      | None \<Rightarrow>
          if has_session db (s_thread_key new)
          then Inr (if merge_metadata
                    then fst (upd_sessions (merge_metadata_p new) (merge_metadata_f now new) db) else db)
          else Inr (db\<lparr>sessions := sessions db @ [new]\<rparr>))"

definition fill_labels_p :: "string \<Rightarrow> session_row \<Rightarrow> bool" where
  "fill_labels_p thread_key r \<longleftrightarrow> s_thread_key r = thread_key \<and> s_proxy_labels r = []"

definition fill_labels_f :: "time \<Rightarrow> labels \<Rightarrow> session_row \<Rightarrow> session_row" where
  "fill_labels_f now proxy_labels r = r\<lparr>s_proxy_labels := proxy_labels, s_updated_at := now\<rparr>"

definition create_or_get_session_inner ::
  "time \<Rightarrow> string \<Rightarrow> HarnessType \<Rightarrow> string option \<Rightarrow> json \<Rightarrow> labels \<Rightarrow> bool \<Rightarrow> db \<Rightarrow> db \<times> Session store_result" where
  "create_or_get_session_inner now thread_key harness_type persona_id metadata proxy_labels merge db =
     (case insert_session now
             (new_session_row now thread_key harness_type persona_id metadata proxy_labels) merge db of
        Inl e \<Rightarrow> (db, Inl e)
      | Inr db1 \<Rightarrow>
          let db2 = (if proxy_labels \<noteq> []
                     then fst (upd_sessions (fill_labels_p thread_key) (fill_labels_f now proxy_labels) db1)
                     else db1)
          in (db2,
              res_bind (get_session db2 thread_key) (\<lambda>session.
                if ses_harness_type session \<noteq> harness_type
                then Inl (HarnessConflict thread_key (harness_type_as_ref (ses_harness_type session))
                            (harness_type_as_ref harness_type))
                else Inr session)))"

definition create_or_get_session ::
  "time \<Rightarrow> string \<Rightarrow> HarnessType \<Rightarrow> string option \<Rightarrow> json \<Rightarrow> labels \<Rightarrow> db \<Rightarrow> db \<times> Session store_result" where
  "create_or_get_session now k h p m l db = create_or_get_session_inner now k h p m l False db"

definition create_or_get_session_merging_metadata ::
  "time \<Rightarrow> string \<Rightarrow> HarnessType \<Rightarrow> string option \<Rightarrow> json \<Rightarrow> labels \<Rightarrow> db \<Rightarrow> db \<times> Session store_result" where
  "create_or_get_session_merging_metadata now k h p m l db = create_or_get_session_inner now k h p m l True db"

definition set_title_p :: "string \<Rightarrow> session_row \<Rightarrow> bool" where
  "set_title_p thread_key r \<longleftrightarrow> s_thread_key r = thread_key \<and> s_title r = None"

definition set_title_f :: "time \<Rightarrow> string \<Rightarrow> session_row \<Rightarrow> session_row" where
  "set_title_f now title r = r\<lparr>s_title := Some title, s_updated_at := now\<rparr>"

definition set_session_title_if_empty :: "time \<Rightarrow> string \<Rightarrow> string \<Rightarrow> db \<Rightarrow> db \<times> bool" where
  "set_session_title_if_empty now thread_key title db =
     (let (db', rows) = upd_sessions (set_title_p thread_key) (set_title_f now title) db
      in (db', rows \<noteq> []))"

abbreviation on_thread :: "string \<Rightarrow> session_row \<Rightarrow> bool" where
  "on_thread thread_key r \<equiv> s_thread_key r = thread_key"

definition sandbox_id_f :: "time \<Rightarrow> string option \<Rightarrow> session_row \<Rightarrow> session_row" where
  "sandbox_id_f now sandbox_id r =
     r\<lparr>s_sandbox_id := sandbox_id, s_sandbox_repo_cache_enabled := None,
       s_sandbox_repo_cache_access := None, s_sandbox_observability_enabled := None,
       s_sandbox_last_active_at := (case sandbox_id of None \<Rightarrow> None | Some _ \<Rightarrow> Some now),
       s_updated_at := now\<rparr>"

definition update_sandbox_id :: "time \<Rightarrow> string \<Rightarrow> string option \<Rightarrow> db \<Rightarrow> db \<times> Session store_result" where
  "update_sandbox_id now thread_key sandbox_id db =
     (let (db', rows) = upd_sessions (on_thread thread_key) (sandbox_id_f now sandbox_id) db
      in (db', fetch_one rows session_of_row))"

definition assignment_f :: "time \<Rightarrow> string \<Rightarrow> SandboxCapabilities \<Rightarrow> session_row \<Rightarrow> session_row" where
  "assignment_f now sandbox_id capabilities r =
     r\<lparr>s_sandbox_id := Some sandbox_id,
       s_sandbox_repo_cache_enabled := Some (repo_cache_enabled (repo_cache capabilities)),
       s_sandbox_repo_cache_access := Some (repo_cache_as_str (repo_cache capabilities)),
       s_sandbox_observability_enabled := Some (observability_enabled capabilities),
       s_sandbox_api_server_enabled := Some True,
       s_sandbox_last_active_at := Some now, s_updated_at := now\<rparr>"

definition update_sandbox_assignment ::
  "time \<Rightarrow> string \<Rightarrow> string \<Rightarrow> SandboxCapabilities \<Rightarrow> db \<Rightarrow> db \<times> Session store_result" where
  "update_sandbox_assignment now thread_key sandbox_id capabilities db =
     (let (db', rows) = upd_sessions (on_thread thread_key) (assignment_f now sandbox_id capabilities) db
      in (db', fetch_one rows session_of_row))"

definition clear_sandbox_f :: "time \<Rightarrow> session_row \<Rightarrow> session_row" where
  "clear_sandbox_f now r =
     r\<lparr>s_sandbox_id := None, s_sandbox_repo_cache_enabled := None, s_sandbox_repo_cache_access := None,
       s_sandbox_observability_enabled := None, s_sandbox_last_active_at := None, s_updated_at := now\<rparr>"

definition on_sandbox :: "string \<Rightarrow> string \<Rightarrow> session_row \<Rightarrow> bool" where
  "on_sandbox thread_key sandbox_id r \<longleftrightarrow> s_thread_key r = thread_key \<and> s_sandbox_id r = Some sandbox_id"

definition clear_sandbox_id_if_matches :: "time \<Rightarrow> string \<Rightarrow> string \<Rightarrow> db \<Rightarrow> db \<times> bool" where
  "clear_sandbox_id_if_matches now thread_key sandbox_id db =
     (let (db', rows) = upd_sessions (on_sandbox thread_key sandbox_id) (clear_sandbox_f now) db
      in (db', rows \<noteq> []))"

definition switch_harness_f :: "time \<Rightarrow> HarnessType \<Rightarrow> session_row \<Rightarrow> session_row" where
  "switch_harness_f now harness_type r =
     r\<lparr>s_harness_type := harness_type_as_ref harness_type, s_harness_thread_id := None,
       s_sandbox_id := None, s_sandbox_repo_cache_enabled := None, s_sandbox_repo_cache_access := None,
       s_sandbox_observability_enabled := None, s_sandbox_last_active_at := None,
       s_status := session_status_as_ref Idle, s_updated_at := now\<rparr>"

definition switch_session_harness :: "time \<Rightarrow> string \<Rightarrow> HarnessType \<Rightarrow> db \<Rightarrow> db \<times> Session store_result" where
  "switch_session_harness now thread_key harness_type db =
     (let (db', rows) = upd_sessions (on_thread thread_key) (switch_harness_f now harness_type) db
      in (db', case first_row rows of None \<Rightarrow> Inl (NotFound thread_key) | Some row \<Rightarrow> session_of_row row))"

definition principal_f :: "time \<Rightarrow> string option \<Rightarrow> session_row \<Rightarrow> session_row" where
  "principal_f now prn r = r\<lparr>s_iron_control_principal := prn, s_updated_at := now\<rparr>"

definition set_iron_control_principal ::
  "time \<Rightarrow> string \<Rightarrow> string option \<Rightarrow> db \<Rightarrow> db \<times> Session store_result" where
  "set_iron_control_principal now thread_key prn db =
     (let (db', rows) = upd_sessions (on_thread thread_key) (principal_f now prn) db
      in (db', fetch_one rows session_of_row))"

definition bind_principal_p :: "string \<Rightarrow> string \<Rightarrow> session_row \<Rightarrow> bool" where
  "bind_principal_p thread_key prn r \<longleftrightarrow>
     s_thread_key r = thread_key \<and>
     (s_iron_control_principal r = None \<or> s_iron_control_principal r = Some prn)"

definition bind_iron_control_principal ::
  "time \<Rightarrow> string \<Rightarrow> string \<Rightarrow> db \<Rightarrow> db \<times> Session store_result" where
  "bind_iron_control_principal now thread_key prn db =
     (let (db', rows) = upd_sessions (bind_principal_p thread_key prn) (principal_f now (Some prn)) db
      in (db',
          case first_row rows of
            Some row \<Rightarrow> session_of_row row
          | None \<Rightarrow>
              res_bind (get_session db' thread_key) (\<lambda>session.
                case ses_iron_control_principal session of
                  Some existing \<Rightarrow> Inl (PrincipalConflict thread_key existing prn)
                | None \<Rightarrow> Inl (InvalidPersistedValue
                    (''session '' @ thread_key @ '' remained unbound after principal binding'')))))"

definition harness_thread_f :: "time \<Rightarrow> string option \<Rightarrow> session_row \<Rightarrow> session_row" where
  "harness_thread_f now harness_thread_id r =
     r\<lparr>s_harness_thread_id := harness_thread_id, s_updated_at := now\<rparr>"

definition update_harness_thread_id ::
  "time \<Rightarrow> string \<Rightarrow> string option \<Rightarrow> db \<Rightarrow> db \<times> Session store_result" where
  "update_harness_thread_id now thread_key harness_thread_id db =
     (let (db', rows) = upd_sessions (on_thread thread_key) (harness_thread_f now harness_thread_id) db
      in (db', fetch_one rows session_of_row))"

definition touch_f :: "time \<Rightarrow> session_row \<Rightarrow> session_row" where
  "touch_f now r = r\<lparr>s_sandbox_last_active_at := Some now\<rparr>"

definition has_sandbox_p :: "string \<Rightarrow> session_row \<Rightarrow> bool" where
  "has_sandbox_p thread_key r \<longleftrightarrow> s_thread_key r = thread_key \<and> s_sandbox_id r \<noteq> None"

definition touch_session_sandbox_activity :: "time \<Rightarrow> string \<Rightarrow> db \<Rightarrow> db \<times> bool" where
  "touch_session_sandbox_activity now thread_key db =
     (let (db', rows) = upd_sessions (has_sandbox_p thread_key) (touch_f now) db in (db', rows \<noteq> []))"

definition touch_sandbox_activity :: "time \<Rightarrow> string \<Rightarrow> string \<Rightarrow> db \<Rightarrow> db \<times> bool" where
  "touch_sandbox_activity now thread_key sandbox_id db =
     (let (db', rows) = upd_sessions (on_sandbox thread_key sandbox_id) (touch_f now) db in (db', rows \<noteq> []))"

definition status_f :: "time \<Rightarrow> SessionStatus \<Rightarrow> session_row \<Rightarrow> session_row" where
  "status_f now status r = r\<lparr>s_status := session_status_as_ref status, s_updated_at := now\<rparr>"

definition set_session_status :: "time \<Rightarrow> string \<Rightarrow> SessionStatus \<Rightarrow> db \<Rightarrow> db" where
  "set_session_status now thread_key status db =
     fst (upd_sessions (on_thread thread_key) (status_f now status) db)"

section \<open>Messages\<close>

definition new_message_row :: "time \<Rightarrow> string \<Rightarrow> string \<Rightarrow> SessionMessageInput \<Rightarrow> message_row" where
  "new_message_row now message_id thread_key message =
     \<lparr>m_message_id = message_id, m_client_message_id = in_client_message_id message,
      m_thread_key = thread_key, m_role = message_role_as_ref (in_role message),
      m_parts = JArr (in_parts message), m_metadata = in_metadata message, m_created_at = now\<rparr>"

text \<open>One insert: the row already stored under the client's id wins, and its message id is returned.\<close>

definition insert_message :: "message_row \<Rightarrow> db \<Rightarrow> (db \<times> string) store_result" where
  "insert_message new db =
     (case (case client_message_key new of None \<Rightarrow> None
            | Some k \<Rightarrow> find (\<lambda>r. client_message_key r = Some k) (session_messages db)) of
        Some existing \<Rightarrow> Inr (db, m_message_id existing)
      | None \<Rightarrow>
          if m_message_id new \<in> m_message_id ` set (session_messages db)
          then Inl (Sqlx (UniqueViolation ''session_messages_pkey''))
          else if \<not> has_session db (m_thread_key new)
          then Inl (Sqlx (ForeignKeyViolation ''session_messages_thread_key_fkey''))
          else Inr (db\<lparr>session_messages := session_messages db @ [new]\<rparr>, m_message_id new))"

text \<open>
  \<open>gen\<close> is the generator of fresh message ids (\<^verbatim>\<open>prefixed_id\<close>), read once per message. All
  inserts run in one transaction, so they share its \<^verbatim>\<open>now()\<close>.
\<close>

fun insert_messages ::
  "time \<Rightarrow> (nat \<Rightarrow> string) \<Rightarrow> nat \<Rightarrow> string \<Rightarrow> SessionMessageInput list \<Rightarrow> db \<Rightarrow> (db \<times> string list) store_result" where
  "insert_messages now gen i thread_key [] db = Inr (db, [])"
| "insert_messages now gen i thread_key (m # ms) db =
     res_bind (insert_message (new_message_row now (gen i) thread_key m) db) (\<lambda>(db1, message_id).
     res_map (\<lambda>(db2, ids). (db2, message_id # ids)) (insert_messages now gen (Suc i) thread_key ms db1))"

definition append_messages ::
  "time \<Rightarrow> (nat \<Rightarrow> string) \<Rightarrow> string \<Rightarrow> SessionMessageInput list \<Rightarrow> db \<Rightarrow> db \<times> string list store_result" where
  "append_messages now gen thread_key messages db =
     (case insert_messages now gen 0 thread_key messages db of
        Inl e \<Rightarrow> (db, Inl e)
      | Inr (db', ids) \<Rightarrow> (db', Inr ids))"

definition thread_messages :: "db \<Rightarrow> string \<Rightarrow> message_row list" where
  "thread_messages db thread_key =
     order_by (\<lambda>r. (m_created_at r, m_message_id r))
       (filter (\<lambda>r. m_thread_key r = thread_key) (session_messages db))"

definition title_generation_candidate :: "db \<Rightarrow> string \<Rightarrow> json list option" where
  "title_generation_candidate db thread_key =
     (case row_by s_thread_key thread_key (sessions db) of
        None \<Rightarrow> None
      | Some s \<Rightarrow>
          if s_title s \<noteq> None then None
          else let rows = filter (\<lambda>r. m_role r = message_role_as_ref User) (thread_messages db thread_key)
               in if rows = [] then None
                  else Some (concat (map (\<lambda>r. as_elements (m_parts r)) rows)))"

definition list_messages :: "db \<Rightarrow> string \<Rightarrow> SessionMessage list store_result" where
  "list_messages db thread_key = collect_results (map message_of_row (thread_messages db thread_key))"

lemmas session_statement_defs [store_defs] =
  merge_metadata_p_def merge_metadata_f_def fill_labels_p_def fill_labels_f_def set_title_p_def
  set_title_f_def sandbox_id_f_def assignment_f_def clear_sandbox_f_def on_sandbox_def
  switch_harness_f_def principal_f_def bind_principal_p_def harness_thread_f_def touch_f_def
  has_sandbox_p_def status_f_def

section \<open>Updates that keep a session row decodable\<close>

lemma upd_sessions_simps [simp]:
  "sessions (fst (upd_sessions p f db)) = fst (sql_update p f (sessions db))"
  "snd (upd_sessions p f db) = snd (sql_update p f (sessions db))"
  "session_messages (fst (upd_sessions p f db)) = session_messages db"
  "session_executions (fst (upd_sessions p f db)) = session_executions db"
  "session_events (fst (upd_sessions p f db)) = session_events db"
  "session_warm_sandboxes (fst (upd_sessions p f db)) = session_warm_sandboxes db"
  "slack_external_team_allowlist (fst (upd_sessions p f db)) = slack_external_team_allowlist db"
  "next_event_id (fst (upd_sessions p f db)) = next_event_id db"
  by (simp_all add: upd_sessions_def Let_def)

locale session_update = keyed_update s_thread_key p f for p f +
  assumes ok_kept: "p r \<Longrightarrow> session_ok r \<Longrightarrow> session_ok (f r)"
begin

lemma sessions_inv_kept: "sessions_inv t \<Longrightarrow> sessions_inv (fst (sql_update p f t))"
  by (auto simp: sessions_inv_def in_updated ok_kept)

lemma inv_kept: "store_inv db \<Longrightarrow> store_inv (fst (upd_sessions p f db))"
  by (simp add: store_inv_def Let_def sessions_inv_kept)

lemma sessions_kept [simp]: "has_session (fst (upd_sessions p f db)) k = has_session db k"
  by (simp add: has_session_def)

end

lemma session_ok_columns:
  assumes "session_ok r" and "s_thread_key r' = s_thread_key r"
    and "s_harness_type r' = s_harness_type r \<or> (\<exists>h. s_harness_type r' = harness_type_as_ref h)"
    and "s_status r' = s_status r \<or> (\<exists>st. s_status r' = session_status_as_ref st)"
  shows "session_ok r'"
  using assms by (auto simp: session_ok_def harness.of_as session_status.of_as)

interpretation merge_metadata: session_update "merge_metadata_p new" "merge_metadata_f now new" for new now
  by unfold_locales (auto simp: store_defs elim!: session_ok_columns)

interpretation fill_labels: session_update "fill_labels_p k" "fill_labels_f now l" for k now l
  by unfold_locales (auto simp: store_defs elim!: session_ok_columns)

interpretation set_title: session_update "set_title_p k" "set_title_f now t" for k now t
  by unfold_locales (auto simp: store_defs elim!: session_ok_columns)

interpretation sandbox_id: session_update "on_thread k" "sandbox_id_f now s" for k now s
  by unfold_locales (auto simp: store_defs elim!: session_ok_columns)

interpretation assignment: session_update "on_thread k" "assignment_f now s c" for k now s c
  by unfold_locales (auto simp: store_defs elim!: session_ok_columns)

interpretation clear_sandbox: session_update "on_sandbox k s" "clear_sandbox_f now" for k s now
  by unfold_locales (auto simp: store_defs elim!: session_ok_columns)

interpretation detach_sandbox: session_update "on_thread k" "clear_sandbox_f now" for k now
  by unfold_locales (auto simp: store_defs elim!: session_ok_columns)

interpretation switch_harness: session_update "on_thread k" "switch_harness_f now h" for k now h
  by unfold_locales (auto simp: store_defs elim!: session_ok_columns)

interpretation set_principal: session_update "on_thread k" "principal_f now prn" for k now prn
  by unfold_locales (auto simp: store_defs elim!: session_ok_columns)

interpretation bind_principal: session_update "bind_principal_p k prn" "principal_f now (Some prn)" for k prn now
  by unfold_locales (auto simp: store_defs elim!: session_ok_columns)

interpretation harness_thread: session_update "on_thread k" "harness_thread_f now t" for k now t
  by unfold_locales (auto simp: store_defs elim!: session_ok_columns)

interpretation touch_session: session_update "has_sandbox_p k" "touch_f now" for k now
  by unfold_locales (auto simp: store_defs elim!: session_ok_columns)

interpretation touch_sandbox: session_update "on_sandbox k s" "touch_f now" for k s now
  by unfold_locales (auto simp: store_defs elim!: session_ok_columns)

interpretation session_status_upd: session_update "on_thread k" "status_f now st" for k now st
  by unfold_locales (auto simp: store_defs elim!: session_ok_columns)

section \<open>Every session operation keeps the invariant\<close>

lemma fst_case_update [simp]:
  "fst (case upd_sessions p f db of (db', rows) \<Rightarrow> (db', g db' rows)) = fst (upd_sessions p f db)"
  by (simp add: case_prod_beta)

lemma inv_append_session:
  assumes "store_inv db" and "session_ok new" and "\<not> has_session db (s_thread_key new)"
  shows "store_inv (db\<lparr>sessions := sessions db @ [new]\<rparr>)"
  using assms
  by (auto simp: store_inv_def Let_def has_session_def sessions_inv_def messages_inv_def
      executions_inv_def events_inv_def warm_inv_def warm_ok_def split: option.splits)

lemma new_session_ok: "thread_key_parse k = Inr k \<Longrightarrow> session_ok (new_session_row now k h p m l)"
  by (simp add: session_ok_def new_session_row_def harness.of_as session_status.of_as)

lemma insert_session_inv:
  assumes "store_inv db" and "session_ok new" and "insert_session now new merge db = Inr db'"
  shows "store_inv db'"
  using assms merge_metadata.inv_kept inv_append_session
  by (auto simp: insert_session_def split: option.splits if_splits)

lemma create_or_get_session_inner_inv:
  assumes "store_inv db" and "thread_key_parse k = Inr k"
  shows "store_inv (fst (create_or_get_session_inner now k h p m l merge db))"
  using assms fill_labels.inv_kept insert_session_inv [OF assms(1) new_session_ok [OF assms(2)]]
  by (auto simp: create_or_get_session_inner_def Let_def split: sum.splits)

lemma session_ops_inv [keep]:
  assumes "store_inv db"
  shows "store_inv (replace_slack_external_team_ids ids db)"
    and "store_inv (fst (seed_slack_external_team_ids ids db))"
    and "store_inv (fst (set_session_title_if_empty now k title db))"
    and "store_inv (fst (update_sandbox_id now k sid db))"
    and "store_inv (fst (update_sandbox_assignment now k sb c db))"
    and "store_inv (fst (clear_sandbox_id_if_matches now k sb db))"
    and "store_inv (fst (switch_session_harness now k h db))"
    and "store_inv (fst (set_iron_control_principal now k prn db))"
    and "store_inv (fst (bind_iron_control_principal now k pr db))"
    and "store_inv (fst (update_harness_thread_id now k t db))"
    and "store_inv (fst (touch_session_sandbox_activity now k db))"
    and "store_inv (fst (touch_sandbox_activity now k sb db))"
    and "store_inv (set_session_status now k st db)"
  using assms set_title.inv_kept sandbox_id.inv_kept assignment.inv_kept clear_sandbox.inv_kept
    switch_harness.inv_kept set_principal.inv_kept bind_principal.inv_kept harness_thread.inv_kept
    touch_session.inv_kept touch_sandbox.inv_kept session_status_upd.inv_kept
  by (simp_all add: set_session_title_if_empty_def update_sandbox_id_def update_sandbox_assignment_def
      clear_sandbox_id_if_matches_def switch_session_harness_def set_iron_control_principal_def
      bind_iron_control_principal_def update_harness_thread_id_def touch_session_sandbox_activity_def
      touch_sandbox_activity_def set_session_status_def)
    (simp_all add: store_inv_def replace_slack_external_team_ids_def seed_slack_external_team_ids_def
      split: option.splits)

lemma create_session_ops_inv [keep]:
  assumes "store_inv db" and "thread_key_parse k = Inr k"
  shows "store_inv (fst (create_or_get_session now k h p m l db))"
    and "store_inv (fst (create_or_get_session_merging_metadata now k h p m l db))"
  using create_or_get_session_inner_inv [OF assms]
  by (simp_all add: create_or_get_session_def create_or_get_session_merging_metadata_def)

lemma insert_message_inv:
  assumes "store_inv db" and "message_role_from_str (m_role new) \<noteq> None"
    and "insert_message new db = Inr (db', i)"
  shows "store_inv db'"
proof (cases "db' = db")
  case False
  with assms(3) have db': "db' = db\<lparr>session_messages := session_messages db @ [new]\<rparr>"
    and id: "m_message_id new \<notin> m_message_id ` set (session_messages db)"
    and k: "has_session db (m_thread_key new)"
    and c: "\<forall>y. client_message_key new = Some y \<longrightarrow> (\<forall>r \<in> set (session_messages db). client_message_key r \<noteq> Some y)"
    by (auto simp: insert_message_def find_None_iff split: option.splits if_splits)
  have "messages_inv (s_thread_key ` set (sessions db)) (session_messages db @ [new])"
    using assms(1,2) id k c
    by (auto simp: store_inv_def Let_def messages_inv_def unique_index_append has_session_def
        split: option.splits)
  then show ?thesis using assms(1) by (simp add: db' store_inv_def Let_def)
qed (use assms in simp)

lemma insert_messages_inv:
  "store_inv db \<Longrightarrow> insert_messages now gen i k ms db = Inr (db', ids) \<Longrightarrow> store_inv db'"
proof (induction ms arbitrary: i db ids)
  case (Cons m ms)
  from Cons.prems(2) obtain db1 mid ids' where
    "insert_message (new_message_row now (gen i) k m) db = Inr (db1, mid)"
    and "insert_messages now gen (Suc i) k ms db1 = Inr (db', ids')"
    by (auto split: prod.splits)
  moreover have "message_role_from_str (m_role (new_message_row now (gen i) k m)) \<noteq> None"
    by (simp add: new_message_row_def role.of_as)
  ultimately show ?case using Cons.IH Cons.prems(1) insert_message_inv by blast
qed simp

lemma append_messages_inv [keep]:
  "store_inv db \<Longrightarrow> store_inv (fst (append_messages now gen k ms db))"
  using insert_messages_inv by (auto simp: append_messages_def split: sum.splits)

section \<open>Reading sessions back\<close>

lemma session_of_row_ok:
  assumes "session_ok r"
  obtains s where "session_of_row r = Inr s"
  using assms
  by (auto simp: session_ok_def session_of_row_def parse_persisted_key_def parse_persisted_def)

lemma session_of_row_columns:
  assumes "session_of_row r = Inr s"
  shows "ses_thread_key s = s_thread_key r" and "ses_sandbox_id s = s_sandbox_id r"
    and "ses_sandbox_capabilities s = row_capabilities r"
    and "harness_type_from_str (s_harness_type r) = Some (ses_harness_type s)"
    and "session_status_from_str (s_status r) = Some (ses_status s)"
    and "ses_iron_control_principal s = s_iron_control_principal r"
    and "ses_proxy_labels s = s_proxy_labels r" and "ses_persona_id s = s_persona_id r"
    and "ses_harness_thread_id s = s_harness_thread_id r" and "ses_title s = s_title r"
    and "ses_sandbox_last_active_at s = s_sandbox_last_active_at r"
  using assms
  by (auto simp: session_of_row_def parse_persisted_key_def parse_persisted_def
      dest!: thread_key_parse_id split: sum.splits option.splits)

lemma session_row_at:
  assumes "store_inv db" and "has_session db k"
  obtains r where "row_by s_thread_key k (sessions db) = Some r" and "session_ok r"
    and "s_thread_key r = k"
proof -
  obtain r where r: "row_by s_thread_key k (sessions db) = Some r"
    using assms(2) row_by_None [of s_thread_key k "sessions db"]
    by (cases "row_by s_thread_key k (sessions db)") (auto simp: has_session_def)
  moreover have "r \<in> set (sessions db)" "s_thread_key r = k" using row_by_Some [OF r] by auto
  moreover from this have "session_ok r" using assms(1) by (auto simp: store_inv_def Let_def sessions_inv_def)
  ultimately show thesis using that by blast
qed

lemma get_session_ok:
  assumes "store_inv db" and "has_session db k"
  obtains r s where "row_by s_thread_key k (sessions db) = Some r" and "session_of_row r = Inr s"
    and "get_session db k = Inr s"
proof -
  from assms obtain r where r: "row_by s_thread_key k (sessions db) = Some r" "session_ok r"
    by (rule session_row_at)
  from r(2) obtain s where "session_of_row r = Inr s" by (rule session_of_row_ok)
  with r(1) show thesis using that by (simp add: get_session_def)
qed

lemma get_session_has: "get_session db k = Inr s \<Longrightarrow> has_session db k"
  by (auto simp: get_session_def has_session_def dest!: row_by_Some split: option.splits)

lemma row_capabilities_fill [simp]: "row_capabilities (fill_labels_f now l r) = row_capabilities r"
  by (auto simp: row_capabilities_def fill_labels_f_def split: option.split)

lemma session_of_row_fill:
  "session_of_row (fill_labels_f now l r) =
     res_map (\<lambda>s. s\<lparr>ses_proxy_labels := l, ses_updated_at := now\<rparr>) (session_of_row r)"
proof -
  have "s_thread_key (fill_labels_f now l r) = s_thread_key r"
    "s_harness_type (fill_labels_f now l r) = s_harness_type r"
    "s_status (fill_labels_f now l r) = s_status r" by (simp_all add: fill_labels_f_def)
  then show ?thesis
    by (cases "parse_persisted_key (s_thread_key r)";
        cases "parse_persisted harness_type_from_str (s_harness_type r)";
        cases "parse_persisted session_status_from_str (s_status r)")
      (simp_all add: session_of_row_def, simp add: fill_labels_f_def)
qed

lemma new_session_decodes:
  assumes "thread_key_parse k = Inr k"
  shows "session_of_row (new_session_row now k h p m l) =
    Inr \<lparr>ses_thread_key = k, ses_title = None, ses_sandbox_id = None, ses_sandbox_capabilities = None,
      ses_harness_type = h, ses_harness_thread_id = None, ses_persona_id = p, ses_status = Idle,
      ses_iron_control_principal = None, ses_proxy_labels = l, ses_sandbox_last_active_at = None,
      ses_created_at = now, ses_updated_at = now\<rparr>"
  using assms
  by (simp add: session_of_row_def new_session_row_def parse_persisted_key_def parse_persisted_def
      harness.of_as session_status.of_as row_capabilities_def)

lemma new_session_check:
  assumes "thread_key_parse k = Inr k" and "pred_option (\<lambda>p. 1 \<le> length p \<and> length p \<le> 128) persona"
  shows "session_check (new_session_row now k h persona m l) = None"
  using accepted_key_passes_checks [OF assms(1)] assms(2)
  by (cases persona) (auto simp: session_check_def new_session_row_def Suc_le_eq)

lemma row_by_append_new:
  "row_by key k t = None \<Longrightarrow> key r = k \<Longrightarrow> row_by key k (t @ [r]) = Some r"
  by (induction t) (auto simp: row_by_def)

text \<open>The labels an existing session ends up with: empty ones are filled in, others stay.\<close>

definition filled_session :: "time \<Rightarrow> labels \<Rightarrow> Session \<Rightarrow> Session" where
  "filled_session now l s =
     (if l \<noteq> [] \<and> ses_proxy_labels s = [] then s\<lparr>ses_proxy_labels := l, ses_updated_at := now\<rparr> else s)"

lemma get_session_after_fill:
  assumes "row_by s_thread_key k (sessions db) = Some r" and "session_of_row r = Inr s" and "l \<noteq> []"
  shows "get_session (fst (upd_sessions (fill_labels_p k) (fill_labels_f now l) db)) k =
    Inr (filled_session now l s)"
  using assms row_by_Some [OF assms(1)] session_of_row_columns(7) [OF assms(2)]
  by (auto simp: get_session_def fill_labels.row_after fill_labels_p_def session_of_row_fill
      filled_session_def)

text \<open>
  \<^verbatim>\<open>create_or_get_session\<close> on every branch, for an accepted key and a persona of 1 to 128 bytes:
  it never hits a check constraint and leaves a readable session. A new key yields an idle session
  with the requested harness, persona and labels. An existing session is returned as it was, with
  only empty proxy labels filled in, when the harness matches, and is reported as a harness conflict
  otherwise.
\<close>

lemma create_or_get_session_result:
  assumes inv: "store_inv db" and key: "thread_key_parse k = Inr k"
    and persona: "pred_option (\<lambda>p. 1 \<le> length p \<and> length p \<le> 128) persona"
  shows "\<exists>s. get_session (fst (create_or_get_session now k h persona m l db)) k = Inr s \<and>
    snd (create_or_get_session now k h persona m l db) =
      (if ses_harness_type s = h then Inr s
       else Inl (HarnessConflict k (harness_type_as_ref (ses_harness_type s)) (harness_type_as_ref h))) \<and>
    (\<not> has_session db k \<longrightarrow>
      ses_harness_type s = h \<and> ses_status s = Idle \<and> ses_persona_id s = persona \<and>
      ses_proxy_labels s = l \<and> ses_sandbox_id s = None) \<and>
    (\<forall>s0. get_session db k = Inr s0 \<longrightarrow> s = filled_session now l s0)"
proof -
  let ?new = "new_session_row now k h persona m l"
  have chk: "session_check ?new = None" using key persona by (rule new_session_check)
  have nk: "s_thread_key ?new = k" by (simp add: new_session_row_def)
  show ?thesis
  proof (cases "has_session db k")
    case True
    then obtain r s0 where r: "row_by s_thread_key k (sessions db) = Some r" "session_of_row r = Inr s0"
      "get_session db k = Inr s0" using get_session_ok [OF inv] by blast
    let ?db = "fst (create_or_get_session now k h persona m l db)"
    have "get_session ?db k = Inr (filled_session now l s0)"
      using True chk nk r get_session_after_fill [OF r(1,2)]
      by (auto simp: create_or_get_session_def create_or_get_session_inner_def insert_session_def
          filled_session_def)
    then show ?thesis using True chk nk r
      by (auto simp: create_or_get_session_def create_or_get_session_inner_def insert_session_def Let_def)
  next
    case False
    let ?db1 = "db\<lparr>sessions := sessions db @ [?new]\<rparr>"
    have "row_by s_thread_key k (sessions db) = None"
      using False by (simp add: row_by_None has_session_def)
    then have r: "row_by s_thread_key k (sessions ?db1) = Some ?new"
      using nk by (simp add: row_by_append_new)
    have fill: "l \<noteq> [] \<Longrightarrow> fst (upd_sessions (fill_labels_p k) (fill_labels_f now l) ?db1) = ?db1"
    proof -
      assume l: "l \<noteq> []"
      have "s_proxy_labels ?new = l" by (simp add: new_session_row_def)
      then have "\<not> fill_labels_p k x" if "x \<in> set (sessions ?db1)" for x
        using that False l by (auto simp: fill_labels_p_def has_session_def)
      then show ?thesis using fill_labels.no_match [of "sessions ?db1"] by (simp add: upd_sessions_def)
    qed
    obtain s where s: "session_of_row ?new = Inr s" "ses_harness_type s = h" "ses_status s = Idle"
      "ses_persona_id s = persona" "ses_proxy_labels s = l" "ses_sandbox_id s = None"
      using new_session_decodes [OF key, of now h persona m l] by simp
    have g: "get_session ?db1 k = Inr s" using r s(1) by (simp add: get_session_def)
    have c: "create_or_get_session now k h persona m l db = (?db1, Inr s)"
      using False chk nk g fill s(2)
      by (cases "l = []")
        (simp_all add: create_or_get_session_def create_or_get_session_inner_def insert_session_def Let_def)
    have n: "\<And>s0. get_session db k \<noteq> Inr s0" using False get_session_has [of db k] by blast
    show ?thesis unfolding c by (rule exI [of _ s]) (use g s n in simp)
  qed
qed

section \<open>Sandbox assignment and principal binding\<close>

lemma row_capabilities_assigned: "row_capabilities (assignment_f now sb c r) = Some c"
  by (cases c) (simp add: row_capabilities_def assignment_f_def repo_cache.of_as)

lemma returned_on_thread:
  assumes "sessions_inv (sessions db)" and "row_by s_thread_key k (sessions db) = Some r"
  shows "snd (upd_sessions (on_thread k) f db) = [f r]"
proof -
  have "filter (\<lambda>r. s_thread_key r = k \<and> True) (sessions db) = [r]"
    using assms filter_key_row_by [of s_thread_key "sessions db" k "\<lambda>_. True"]
    by (simp add: sessions_inv_def)
  then show ?thesis by (simp add: sql_update_def)
qed

text \<open>
  Round trip of the sandbox assignment: after \<^verbatim>\<open>update_sandbox_assignment\<close> the session decodes to
  exactly the sandbox id and the capabilities that were stored, for every repository-cache access
  level, and the operation returns that session.
\<close>

theorem sandbox_assignment_round_trip:
  assumes "store_inv db" and "has_session db k"
  shows "\<exists>s. update_sandbox_assignment now k sb caps db =
      (fst (update_sandbox_assignment now k sb caps db), Inr s) \<and>
    get_session (fst (update_sandbox_assignment now k sb caps db)) k = Inr s \<and>
    ses_sandbox_id s = Some sb \<and> ses_sandbox_capabilities s = Some caps \<and>
    ses_sandbox_last_active_at s = Some now"
proof -
  from assms obtain r where r: "row_by s_thread_key k (sessions db) = Some r" "session_ok r" "s_thread_key r = k"
    by (rule session_row_at)
  have "session_ok (assignment_f now sb caps r)" using assignment.ok_kept r by simp
  then obtain s where s: "session_of_row (assignment_f now sb caps r) = Inr s" by (rule session_of_row_ok)
  have "sessions_inv (sessions db)" using assms(1) by (simp add: store_inv_def Let_def)
  then have ret: "snd (upd_sessions (on_thread k) (assignment_f now sb caps) db) = [assignment_f now sb caps r]"
    using r(1) by (rule returned_on_thread)
  have "get_session (fst (upd_sessions (on_thread k) (assignment_f now sb caps) db)) k = Inr s"
    using r s by (simp add: get_session_def assignment.row_after)
  moreover have "ses_sandbox_id s = Some sb" "ses_sandbox_last_active_at s = Some now"
    using session_of_row_columns [OF s] by (simp_all add: assignment_f_def)
  ultimately show ?thesis
    using ret s session_of_row_columns(3) [OF s]
    by (auto simp: update_sandbox_assignment_def fetch_one_def row_capabilities_assigned case_prod_beta)
qed

definition example_db :: db where
  "example_db = fst (create_or_get_session 5 ''api:1'' Codex None empty_object [] empty_db)"

lemma example_key: "thread_key_parse ''api:1'' = Inr ''api:1''"
  by (simp add: thread_key_parse_def validate_thread_key_def MAX_THREAD_KEY_BYTES_def starts_with_def
      is_ascii_control_def)

lemma example_db_sessions:
  "example_db = empty_db\<lparr>sessions := [new_session_row 5 ''api:1'' Codex None empty_object []]\<rparr>"
  using new_session_check [OF example_key, of None 5 Codex empty_object "[]"]
  by (simp add: example_db_def create_or_get_session_def create_or_get_session_inner_def
      insert_session_def has_session_def empty_db_def Let_def)

lemma example_db_inv: "store_inv example_db"
  unfolding example_db_def by (intro create_session_ops_inv store_inv_empty example_key)

lemma example_db_has: "has_session example_db ''api:1''"
  by (simp add: has_session_def example_db_sessions new_session_row_def)

lemma returned_bind:
  assumes "sessions_inv (sessions db)" and "row_by s_thread_key k (sessions db) = Some r"
  shows "snd (upd_sessions (bind_principal_p k prn) f db) = (if bind_principal_p k prn r then [f r] else [])"
proof -
  have "filter (\<lambda>x. s_thread_key x = k \<and> bind_principal_p k prn x) (sessions db)
      = (if bind_principal_p k prn r then [r] else [])"
    using assms filter_key_row_by [of s_thread_key "sessions db" k "bind_principal_p k prn"]
    by (simp add: sessions_inv_def)
  moreover have "filter (\<lambda>x. s_thread_key x = k \<and> bind_principal_p k prn x) (sessions db)
      = filter (bind_principal_p k prn) (sessions db)"
    by (rule filter_cong) (auto simp: bind_principal_p_def)
  ultimately show ?thesis by (simp add: sql_update_def)
qed

text \<open>
  The first principal bound to a session wins: binding succeeds exactly when the session is unbound
  or already bound to the same principal; otherwise it fails with a conflict that names the existing
  principal, and the database is left as it was. After a successful binding every later binding to
  another principal fails.
\<close>

theorem bind_principal_first_wins:
  assumes "store_inv db" and "get_session db k = Inr s"
  shows "(case ses_iron_control_principal s of
      Some q \<Rightarrow> q \<noteq> prn \<longrightarrow> bind_iron_control_principal now k prn db = (db, Inl (PrincipalConflict k q prn))
    | None \<Rightarrow> True) \<and>
    (ses_iron_control_principal s \<in> {None, Some prn} \<longrightarrow>
      (\<exists>s'. bind_iron_control_principal now k prn db = (fst (bind_iron_control_principal now k prn db), Inr s') \<and>
        ses_iron_control_principal s' = Some prn \<and>
        get_session (fst (bind_iron_control_principal now k prn db)) k = Inr s'))"
proof -
  have has: "has_session db k" using assms(2) by (rule get_session_has)
  from assms(1) has obtain r s0 where r: "row_by s_thread_key k (sessions db) = Some r" "session_of_row r = Inr s0"
    "get_session db k = Inr s0" by (rule get_session_ok)
  with assms(2) have s: "session_of_row r = Inr s" by simp
  have rk: "s_thread_key r = k" using row_by_Some [OF r(1)] by simp
  have ok: "session_ok r" and t: "sessions_inv (sessions db)"
    using assms(1) row_by_Some [OF r(1)] by (auto simp: store_inv_def Let_def sessions_inv_def)
  have ret: "snd (upd_sessions (bind_principal_p k prn) (principal_f now (Some prn)) db) =
      (if bind_principal_p k prn r then [principal_f now (Some prn) r] else [])"
    using t r(1) by (rule returned_bind)
  note col = session_of_row_columns(6) [OF s]
  have conflict: "bind_iron_control_principal now k prn db = (db, Inl (PrincipalConflict k q prn))"
    if q: "ses_iron_control_principal s = Some q" "q \<noteq> prn" for q
  proof -
    have np: "\<not> bind_principal_p k prn r" using q col by (simp add: bind_principal_p_def)
    have "x = r" if "x \<in> set (sessions db)" "s_thread_key x = k" for x
      using that r(1) t row_by_unique [of s_thread_key "sessions db" k x] by (simp add: sessions_inv_def)
    then have "\<And>x. x \<in> set (sessions db) \<Longrightarrow> \<not> bind_principal_p k prn x"
      using np by (auto simp: bind_principal_p_def)
    then have "fst (upd_sessions (bind_principal_p k prn) (principal_f now (Some prn)) db) = db"
      using bind_principal.no_match [of "sessions db"] by (simp add: upd_sessions_def)
    then show ?thesis using ret np assms(2) q
      by (simp add: bind_iron_control_principal_def case_prod_beta)
  qed
  have bound: "\<exists>s'. bind_iron_control_principal now k prn db =
        (fst (bind_iron_control_principal now k prn db), Inr s') \<and>
        ses_iron_control_principal s' = Some prn \<and>
        get_session (fst (bind_iron_control_principal now k prn db)) k = Inr s'"
    if "ses_iron_control_principal s \<in> {None, Some prn}"
  proof -
    have p: "bind_principal_p k prn r" using that col rk by (auto simp: bind_principal_p_def)
    then obtain s' where s': "session_of_row (principal_f now (Some prn) r) = Inr s'"
      using bind_principal.ok_kept ok session_of_row_ok by blast
    have "ses_iron_control_principal s' = Some prn"
      using session_of_row_columns(6) [OF s'] by (simp add: principal_f_def)
    then show ?thesis using p ret s' r(1)
      by (simp add: bind_iron_control_principal_def get_session_def bind_principal.row_after case_prod_beta)
  qed
  have "case ses_iron_control_principal s of
      Some q \<Rightarrow> q \<noteq> prn \<longrightarrow> bind_iron_control_principal now k prn db = (db, Inl (PrincipalConflict k q prn))
    | None \<Rightarrow> True"
    using conflict by (simp split: option.split)
  then show ?thesis using bound by blast
qed

end
