(* ===== verification/Store_Executions.thy ===== *)
theory Store_Executions
  imports Store_Sessions
begin

text \<open>
  \<^verbatim>\<open>crates/centaur-session-sqlx/src/lib.rs\<close>, the \<^verbatim>\<open>session_executions\<close> table: creating executions under
  an idempotency key, claiming a queued one, the leased stdout ownership, and the transitions to a
  terminal status. An operation that runs several statements is the composition of their updates; the
  statements themselves are named, so that interleavings can be stated over them.

  \<open>now\<close> is the database clock, \<open>clock\<close> the clock of the process that computes a lease.
\<close>

section \<open>Results\<close>

record CreateExecutionResult =
  cre_created :: bool
  cre_execution :: SessionExecution

record ClaimExecutionResult =
  cla_execution :: SessionExecution
  cla_claimed :: bool

record ActiveExecutionOwnership =
  own_execution :: SessionExecution
  own_stdout_owner_id :: "string option"
  own_stdout_owner_lease_active :: bool

record ReleasedExecution =
  rel_execution_id :: string
  rel_thread_key :: string

definition transpose_option :: "'a store_result option \<Rightarrow> 'a option store_result" where
  "transpose_option r = (case r of None \<Rightarrow> Inr None | Some (Inl e) \<Rightarrow> Inl e | Some (Inr x) \<Rightarrow> Inr (Some x))"

section \<open>Creating and reading executions\<close>

definition new_execution_row ::
  "time \<Rightarrow> string \<Rightarrow> string \<Rightarrow> string option \<Rightarrow> json \<Rightarrow> json \<Rightarrow> execution_row" where
  "new_execution_row now execution_id thread_key idempotency metadata request =
     \<lparr>x_execution_id = execution_id, x_idempotency_key = idempotency, x_thread_key = thread_key,
      x_status = execution_status_as_ref Queued, x_metadata = metadata, x_request = request,
      x_error = None, x_created_at = now, x_updated_at = now, x_started_at = None,
      x_completed_at = None, x_stdout_owner_id = None, x_stdout_owner_lease_expires_at = None\<rparr>"

text \<open>The conflict branch of the insert: the stored request is filled in only while it is empty.\<close>

definition conflict_p :: "execution_row \<Rightarrow> execution_row \<Rightarrow> bool" where
  "conflict_p new r \<longleftrightarrow> idempotency_key new \<noteq> None \<and> idempotency_key r = idempotency_key new"

definition conflict_f :: "execution_row \<Rightarrow> execution_row \<Rightarrow> execution_row" where
  "conflict_f new r =
     r\<lparr>x_idempotency_key := x_idempotency_key new,
       x_request := (if x_request r = empty_object then x_request new else x_request r)\<rparr>"

definition create_result :: "string \<Rightarrow> execution_row \<Rightarrow> CreateExecutionResult store_result" where
  "create_result execution_id row =
     res_map (\<lambda>e. \<lparr>cre_created = (x_execution_id row = execution_id), cre_execution = e\<rparr>)
       (execution_of_row row)"

definition insert_execution ::
  "execution_row \<Rightarrow> db \<Rightarrow> (db \<times> execution_row list) store_result" where
  "insert_execution new db =
     (if \<exists>r \<in> set (session_executions db). conflict_p new r
      then Inr (upd_executions (conflict_p new) (conflict_f new) db)
      else if x_execution_id new \<in> x_execution_id ` set (session_executions db)
      then Inl (Sqlx (UniqueViolation ''session_executions_pkey''))
      else if \<exists>r \<in> set (session_executions db). active r \<and> x_thread_key r = x_thread_key new
      then Inl (Sqlx (UniqueViolation ''session_executions_one_active_idx''))
      else if \<not> has_session db (x_thread_key new)
      then Inl (Sqlx (ForeignKeyViolation ''session_executions_thread_key_fkey''))
      else Inr (db\<lparr>session_executions := session_executions db @ [new]\<rparr>, [new]))"

definition create_execution_with_request ::
  "time \<Rightarrow> string \<Rightarrow> string \<Rightarrow> string option \<Rightarrow> json \<Rightarrow> json \<Rightarrow> db \<Rightarrow> db \<times> CreateExecutionResult store_result" where
  "create_execution_with_request now execution_id thread_key idempotency metadata request db =
     (case insert_execution (new_execution_row now execution_id thread_key idempotency metadata request) db of
        Inl e \<Rightarrow> (db, Inl e)
      | Inr (db', rows) \<Rightarrow> (db', fetch_one rows (create_result execution_id)))"

definition create_execution ::
  "time \<Rightarrow> string \<Rightarrow> string \<Rightarrow> string option \<Rightarrow> json \<Rightarrow> db \<Rightarrow> db \<times> CreateExecutionResult store_result" where
  "create_execution now execution_id thread_key idempotency metadata db =
     create_execution_with_request now execution_id thread_key idempotency metadata empty_object db"

definition execution_request :: "db \<Rightarrow> string \<Rightarrow> json store_result" where
  "execution_request db execution_id =
     (case row_by x_execution_id execution_id (session_executions db) of
        None \<Rightarrow> Inl (ExecutionNotFound execution_id)
      | Some row \<Rightarrow> Inr (x_request row))"

definition on_execution :: "string \<Rightarrow> execution_row \<Rightarrow> bool" where
  "on_execution execution_id r \<longleftrightarrow> x_execution_id r = execution_id"

definition traceparent_f :: "time \<Rightarrow> string \<Rightarrow> execution_row \<Rightarrow> execution_row" where
  "traceparent_f now traceparent r =
     r\<lparr>x_metadata := json_concat (x_metadata r) (JObj [(''centaur.traceparent'', JStr traceparent)]),
       x_updated_at := now\<rparr>"

definition set_execution_traceparent :: "time \<Rightarrow> string \<Rightarrow> string \<Rightarrow> db \<Rightarrow> db \<times> unit store_result" where
  "set_execution_traceparent now execution_id traceparent db =
     (let (db', rows) = upd_executions (on_execution execution_id) (traceparent_f now traceparent) db
      in (db', if rows = [] then Inl (ExecutionNotFound execution_id) else Inr ()))"

text \<open>\<^verbatim>\<open>order by created_at, execution_id\<close>; the descending order with \<^verbatim>\<open>limit 1\<close> is its last row.\<close>

definition by_creation :: "execution_row list \<Rightarrow> execution_row list" where
  "by_creation t = order_by (\<lambda>r. (x_created_at r, x_execution_id r)) t"

definition newest :: "execution_row list \<Rightarrow> execution_row option" where
  "newest t = first_row (rev (by_creation t))"

definition active_execution_for_thread :: "db \<Rightarrow> string \<Rightarrow> SessionExecution option store_result" where
  "active_execution_for_thread db thread_key =
     transpose_option (map_option execution_of_row
       (newest (filter (\<lambda>r. x_thread_key r = thread_key \<and> active r) (session_executions db))))"

definition list_active_executions :: "db \<Rightarrow> SessionExecution list store_result" where
  "list_active_executions db =
     collect_results (map execution_of_row (by_creation (filter active (session_executions db))))"

definition ownership_of_row :: "time \<Rightarrow> execution_row \<Rightarrow> ActiveExecutionOwnership store_result" where
  "ownership_of_row now row =
     res_map (\<lambda>e. \<lparr>own_execution = e, own_stdout_owner_id = x_stdout_owner_id row,
         own_stdout_owner_lease_active =
           (case x_stdout_owner_lease_expires_at row of None \<Rightarrow> False | Some t \<Rightarrow> now < t)\<rparr>)
       (execution_of_row row)"

definition list_active_executions_with_ownership ::
  "time \<Rightarrow> db \<Rightarrow> ActiveExecutionOwnership list store_result" where
  "list_active_executions_with_ownership now db =
     collect_results (map (ownership_of_row now) (by_creation (filter active (session_executions db))))"

definition latest_execution_for_thread :: "db \<Rightarrow> string \<Rightarrow> SessionExecution option store_result" where
  "latest_execution_for_thread db thread_key =
     transpose_option (map_option execution_of_row
       (newest (filter (\<lambda>r. x_thread_key r = thread_key) (session_executions db))))"

section \<open>Claiming and requeueing\<close>

definition mark_running_p :: "string \<Rightarrow> execution_row \<Rightarrow> bool" where
  "mark_running_p execution_id r \<longleftrightarrow>
     x_execution_id r = execution_id \<and> x_status r = execution_status_as_ref Queued"

definition running_f :: "time \<Rightarrow> execution_row \<Rightarrow> execution_row" where
  "running_f now r =
     r\<lparr>x_status := execution_status_as_ref Running, x_started_at := coalesce (x_started_at r) (Some now),
       x_updated_at := now\<rparr>"

definition mark_execution_running :: "time \<Rightarrow> string \<Rightarrow> db \<Rightarrow> db \<times> ClaimExecutionResult store_result" where
  "mark_execution_running now execution_id db =
     (let (db1, rows) = upd_executions (mark_running_p execution_id) (running_f now) db in
      case first_row rows of
        None \<Rightarrow>
          (db1, fetch_one (filter (on_execution execution_id) (session_executions db1)) (\<lambda>row.
             res_map (\<lambda>e. \<lparr>cla_execution = e, cla_claimed = False\<rparr>) (execution_of_row row)))
      | Some row \<Rightarrow>
          (set_session_status now (x_thread_key row) Executing db1,
           res_map (\<lambda>e. \<lparr>cla_execution = e, cla_claimed = True\<rparr>) (execution_of_row row)))"

text \<open>
  What follows a status change that returned \<open>rows\<close>: nothing when no row matched; otherwise the
  session's status is set by a second statement and the row is decoded.
\<close>

definition settle ::
  "time \<Rightarrow> SessionStatus \<Rightarrow> db \<times> execution_row list \<Rightarrow> db \<times> SessionExecution option store_result" where
  "settle now status u =
     (case first_row (snd u) of
        None \<Rightarrow> (fst u, Inr None)
      | Some row \<Rightarrow>
          (set_session_status now (x_thread_key row) status (fst u), res_map Some (execution_of_row row)))"

text \<open>The same for the unguarded variants, which use \<^verbatim>\<open>fetch_one\<close>.\<close>

definition settle_one ::
  "time \<Rightarrow> SessionStatus \<Rightarrow> db \<times> execution_row list \<Rightarrow> db \<times> SessionExecution store_result" where
  "settle_one now status u =
     (case first_row (snd u) of
        None \<Rightarrow> (fst u, Inl (Sqlx RowNotFound))
      | Some row \<Rightarrow> (set_session_status now (x_thread_key row) status (fst u), execution_of_row row))"

definition requeue_p :: "string \<Rightarrow> execution_row \<Rightarrow> bool" where
  "requeue_p execution_id r \<longleftrightarrow>
     x_execution_id r = execution_id \<and> x_status r = execution_status_as_ref Running \<and> x_stdout_owner_id r = None"

definition requeue_f :: "time \<Rightarrow> execution_row \<Rightarrow> execution_row" where
  "requeue_f now r =
     r\<lparr>x_status := execution_status_as_ref Queued, x_started_at := None, x_updated_at := now\<rparr>"

definition requeue_execution_if_running_without_stdout_owner ::
  "time \<Rightarrow> string \<Rightarrow> db \<Rightarrow> db \<times> SessionExecution option store_result" where
  "requeue_execution_if_running_without_stdout_owner now execution_id db =
     settle now Idle (upd_executions (requeue_p execution_id) (requeue_f now) db)"

section \<open>Leased stdout ownership\<close>

text \<open>
  \<^verbatim>\<open>stdout_lease_expires_at\<close>: seconds saturate at \<^verbatim>\<open>i64::MAX\<close>; a date past the year 9999 panics.
  PostgreSQL keeps microseconds, counted from the year 2000 and truncated towards it.
\<close>

definition MAX_OFFSET_DATE_TIME :: time where
  "MAX_OFFSET_DATE_TIME = 253402300799999999999"

definition PG_EPOCH :: time where
  "PG_EPOCH = 946684800000000000"

definition stdout_lease_expires_at :: "time \<Rightarrow> duration \<Rightarrow> time store_result" where
  "stdout_lease_expires_at clock lease =
     (let seconds = min (lease div 10 ^ 9) (2 ^ 63 - 1);
          t = clock + int seconds * 10 ^ 9 + int (lease mod 10 ^ 9)
      in if MAX_OFFSET_DATE_TIME < t then Inl (Panic ''resulting value is out of range'') else Inr t)"

definition pg_timestamp :: "time \<Rightarrow> time" where
  "pg_timestamp t =
     (if PG_EPOCH \<le> t then t - (t - PG_EPOCH) mod 1000 else t + (PG_EPOCH - t) mod 1000)"

definition lease_expired :: "time \<Rightarrow> execution_row \<Rightarrow> bool" where
  "lease_expired now r \<longleftrightarrow> (case x_stdout_owner_lease_expires_at r of None \<Rightarrow> False | Some t \<Rightarrow> t < now)"

definition claim_owner_p :: "time \<Rightarrow> string \<Rightarrow> string \<Rightarrow> execution_row \<Rightarrow> bool" where
  "claim_owner_p now execution_id owner_id r \<longleftrightarrow>
     x_execution_id r = execution_id \<and> active r \<and>
     (x_stdout_owner_id r = None \<or> x_stdout_owner_id r = Some owner_id \<or> lease_expired now r)"

definition claim_expired_p :: "time \<Rightarrow> string \<Rightarrow> execution_row \<Rightarrow> bool" where
  "claim_expired_p now execution_id r \<longleftrightarrow>
     x_execution_id r = execution_id \<and> active r \<and> (x_stdout_owner_id r = None \<or> lease_expired now r)"

definition claim_owner_f :: "time \<Rightarrow> string \<Rightarrow> time \<Rightarrow> execution_row \<Rightarrow> execution_row" where
  "claim_owner_f now owner_id expires_at r =
     r\<lparr>x_stdout_owner_id := Some owner_id, x_stdout_owner_lease_expires_at := Some (pg_timestamp expires_at),
       x_updated_at := now\<rparr>"

definition owned_p :: "string \<Rightarrow> string \<Rightarrow> execution_row \<Rightarrow> bool" where
  "owned_p execution_id owner_id r \<longleftrightarrow> x_execution_id r = execution_id \<and> x_stdout_owner_id r = Some owner_id"

definition active_owned_p :: "string \<Rightarrow> string \<Rightarrow> execution_row \<Rightarrow> bool" where
  "active_owned_p execution_id owner_id r \<longleftrightarrow> owned_p execution_id owner_id r \<and> active r"

definition renew_f :: "time \<Rightarrow> time \<Rightarrow> execution_row \<Rightarrow> execution_row" where
  "renew_f now expires_at r =
     r\<lparr>x_stdout_owner_lease_expires_at := Some (pg_timestamp expires_at), x_updated_at := now\<rparr>"

definition clear_owner :: "execution_row \<Rightarrow> execution_row" where
  "clear_owner r = r\<lparr>x_stdout_owner_id := None, x_stdout_owner_lease_expires_at := None\<rparr>"

definition release_f :: "time \<Rightarrow> execution_row \<Rightarrow> execution_row" where
  "release_f now r = (clear_owner r)\<lparr>x_updated_at := now\<rparr>"

text \<open>\<^verbatim>\<open>rows_affected() > 0\<close> of an update of executions.\<close>

definition touched_rows ::
  "(execution_row \<Rightarrow> bool) \<Rightarrow> (execution_row \<Rightarrow> execution_row) \<Rightarrow> db \<Rightarrow> db \<times> bool" where
  "touched_rows p f db = (let (db', rows) = upd_executions p f db in (db', rows \<noteq> []))"

definition claim_stdout_owner ::
  "time \<Rightarrow> time \<Rightarrow> string \<Rightarrow> string \<Rightarrow> duration \<Rightarrow> db \<Rightarrow> db \<times> bool store_result" where
  "claim_stdout_owner clock now execution_id owner_id lease db =
     (case stdout_lease_expires_at clock lease of
        Inl e \<Rightarrow> (db, Inl e)
      | Inr t \<Rightarrow> map_prod id Inr
          (touched_rows (claim_owner_p now execution_id owner_id) (claim_owner_f now owner_id t) db))"

definition claim_expired_stdout_owner ::
  "time \<Rightarrow> time \<Rightarrow> string \<Rightarrow> string \<Rightarrow> duration \<Rightarrow> db \<Rightarrow> db \<times> bool store_result" where
  "claim_expired_stdout_owner clock now execution_id owner_id lease db =
     (case stdout_lease_expires_at clock lease of
        Inl e \<Rightarrow> (db, Inl e)
      | Inr t \<Rightarrow> map_prod id Inr
          (touched_rows (claim_expired_p now execution_id) (claim_owner_f now owner_id t) db))"

definition renew_stdout_owner ::
  "time \<Rightarrow> time \<Rightarrow> string \<Rightarrow> string \<Rightarrow> duration \<Rightarrow> db \<Rightarrow> db \<times> bool store_result" where
  "renew_stdout_owner clock now execution_id owner_id lease db =
     (case stdout_lease_expires_at clock lease of
        Inl e \<Rightarrow> (db, Inl e)
      | Inr t \<Rightarrow> map_prod id Inr
          (touched_rows (active_owned_p execution_id owner_id) (renew_f now t) db))"

definition release_stdout_owner :: "time \<Rightarrow> string \<Rightarrow> string \<Rightarrow> db \<Rightarrow> db \<times> bool" where
  "release_stdout_owner now execution_id owner_id db =
     touched_rows (owned_p execution_id owner_id) (release_f now) db"

definition held_p :: "string \<Rightarrow> execution_row \<Rightarrow> bool" where
  "held_p owner_id r \<longleftrightarrow> x_stdout_owner_id r = Some owner_id \<and> active r"

definition count_executions_with_stdout_owner :: "db \<Rightarrow> string \<Rightarrow> nat" where
  "count_executions_with_stdout_owner db owner_id = length (filter (held_p owner_id) (session_executions db))"

definition released_of_row :: "execution_row \<Rightarrow> ReleasedExecution store_result" where
  "released_of_row row =
     res_map (\<lambda>k. \<lparr>rel_execution_id = x_execution_id row, rel_thread_key = k\<rparr>)
       (parse_persisted_key (x_thread_key row))"

definition release_stdout_owned_executions ::
  "time \<Rightarrow> string \<Rightarrow> db \<Rightarrow> db \<times> ReleasedExecution list store_result" where
  "release_stdout_owned_executions now owner_id db =
     (let (db', rows) = upd_executions (held_p owner_id) (release_f now) db
      in (db', collect_results (map released_of_row rows)))"

section \<open>Terminal transitions\<close>

definition active_p :: "string \<Rightarrow> execution_row \<Rightarrow> bool" where
  "active_p execution_id r \<longleftrightarrow> x_execution_id r = execution_id \<and> active r"

definition complete_f :: "time \<Rightarrow> execution_row \<Rightarrow> execution_row" where
  "complete_f now r =
     r\<lparr>x_status := execution_status_as_ref Completed,
       x_completed_at := coalesce (x_completed_at r) (Some now), x_updated_at := now\<rparr>"

definition fail_f :: "time \<Rightarrow> string \<Rightarrow> execution_row \<Rightarrow> execution_row" where
  "fail_f now error r =
     r\<lparr>x_status := execution_status_as_ref Failed, x_error := Some error,
       x_completed_at := coalesce (x_completed_at r) (Some now), x_updated_at := now\<rparr>"

definition cancel_f :: "time \<Rightarrow> string \<Rightarrow> execution_row \<Rightarrow> execution_row" where
  "cancel_f now reason r =
     r\<lparr>x_status := execution_status_as_ref Cancelled, x_error := Some reason,
       x_completed_at := coalesce (x_completed_at r) (Some now), x_updated_at := now\<rparr>"

definition complete_execution :: "time \<Rightarrow> string \<Rightarrow> db \<Rightarrow> db \<times> SessionExecution store_result" where
  "complete_execution now execution_id db =
     settle_one now Idle (upd_executions (on_execution execution_id) (complete_f now) db)"

definition complete_execution_if_active ::
  "time \<Rightarrow> string \<Rightarrow> db \<Rightarrow> db \<times> SessionExecution option store_result" where
  "complete_execution_if_active now execution_id db =
     settle now Idle (upd_executions (active_p execution_id) (complete_f now) db)"

definition complete_execution_if_active_and_stdout_owner ::
  "time \<Rightarrow> string \<Rightarrow> string \<Rightarrow> db \<Rightarrow> db \<times> SessionExecution option store_result" where
  "complete_execution_if_active_and_stdout_owner now execution_id owner_id db =
     settle now Idle
       (upd_executions (active_owned_p execution_id owner_id) (\<lambda>r. clear_owner (complete_f now r)) db)"

definition fail_execution :: "time \<Rightarrow> string \<Rightarrow> string \<Rightarrow> db \<Rightarrow> db \<times> SessionExecution store_result" where
  "fail_execution now execution_id error db =
     settle_one now SessionFailed (upd_executions (on_execution execution_id) (fail_f now error) db)"

definition fail_execution_if_active ::
  "time \<Rightarrow> string \<Rightarrow> string \<Rightarrow> db \<Rightarrow> db \<times> SessionExecution option store_result" where
  "fail_execution_if_active now execution_id error db =
     settle now SessionFailed (upd_executions (active_p execution_id) (fail_f now error) db)"

definition fail_execution_if_active_and_stdout_owner ::
  "time \<Rightarrow> string \<Rightarrow> string \<Rightarrow> string \<Rightarrow> db \<Rightarrow> db \<times> SessionExecution option store_result" where
  "fail_execution_if_active_and_stdout_owner now execution_id owner_id error db =
     settle now SessionFailed
       (upd_executions (active_owned_p execution_id owner_id) (\<lambda>r. clear_owner (fail_f now error r)) db)"

definition cancel_execution_if_active_and_stdout_owner ::
  "time \<Rightarrow> string \<Rightarrow> string \<Rightarrow> string \<Rightarrow> db \<Rightarrow> db \<times> SessionExecution option store_result" where
  "cancel_execution_if_active_and_stdout_owner now execution_id owner_id reason db =
     settle now Idle
       (upd_executions (active_owned_p execution_id owner_id) (\<lambda>r. clear_owner (cancel_f now reason r)) db)"

lemmas execution_statement_defs [store_defs] =
  conflict_p_def conflict_f_def on_execution_def traceparent_f_def mark_running_p_def running_f_def
  requeue_p_def requeue_f_def claim_owner_p_def claim_expired_p_def claim_owner_f_def owned_p_def
  active_owned_p_def renew_f_def clear_owner_def release_f_def held_p_def active_p_def complete_f_def
  fail_f_def cancel_f_def

section \<open>Updates of executions\<close>

lemma upd_executions_simps [simp]:
  "session_executions (fst (upd_executions p f db)) = fst (sql_update p f (session_executions db))"
  "snd (upd_executions p f db) = snd (sql_update p f (session_executions db))"
  "sessions (fst (upd_executions p f db)) = sessions db"
  "session_messages (fst (upd_executions p f db)) = session_messages db"
  "session_events (fst (upd_executions p f db)) = session_events db"
  "session_warm_sandboxes (fst (upd_executions p f db)) = session_warm_sandboxes db"
  "next_event_id (fst (upd_executions p f db)) = next_event_id db"
  by (simp_all add: upd_executions_def Let_def)

lemma set_session_status_simps [simp]:
  "session_executions (set_session_status now k st db) = session_executions db"
  "session_events (set_session_status now k st db) = session_events db"
  "session_messages (set_session_status now k st db) = session_messages db"
  "session_warm_sandboxes (set_session_status now k st db) = session_warm_sandboxes db"
  "next_event_id (set_session_status now k st db) = next_event_id db"
  by (simp_all add: set_session_status_def)

lemma has_session_set_status [simp]: "has_session (set_session_status now k st db) = has_session db"
  by (rule ext) (simp add: set_session_status_def session_status_upd.sessions_kept)

text \<open>
  The contract of an execution statement: identity, thread and idempotency key stay, no terminal row
  becomes active, and the status stays decodable.
\<close>

locale exec_update = keyed_update x_execution_id p f for p f +
  assumes thread_kept: "p r \<Longrightarrow> x_thread_key (f r) = x_thread_key r"
    and idem_kept: "p r \<Longrightarrow> x_idempotency_key (f r) = x_idempotency_key r"
    and active_back: "p r \<Longrightarrow> active (f r) \<Longrightarrow> active r"
    and status_kept: "p r \<Longrightarrow> execution_status_from_str (x_status r) \<noteq> None \<Longrightarrow>
      execution_status_from_str (x_status (f r)) \<noteq> None"
    and leased_kept: "p r \<Longrightarrow> owner_leased r \<Longrightarrow> owner_leased (f r)"
begin

lemma executions_inv_kept:
  assumes "executions_inv ks t"
  shows "executions_inv ks (fst (sql_update p f t))"
proof -
  have "unique_index one_active_key (fst (sql_update p f t))"
    using assms thread_kept active_back
    by (auto simp: executions_inv_def sql_update_def one_active_key_def intro!: unique_index_mono)
  moreover have "unique_index idempotency_key (fst (sql_update p f t))"
  proof -
    have "idempotency_key (if p r then f r else r) = idempotency_key r" for r
      using thread_kept idem_kept by (simp add: idempotency_key_def)
    then show ?thesis
      using assms by (auto simp: executions_inv_def sql_update_def intro!: unique_index_mono)
  qed
  ultimately show ?thesis
    using assms thread_kept status_kept leased_kept by (auto simp: executions_inv_def in_updated)
qed

lemma inv_kept: "store_inv db \<Longrightarrow> store_inv (fst (upd_executions p f db))"
  by (simp add: store_inv_def Let_def executions_inv_kept)

lemma touched_inv: "store_inv db \<Longrightarrow> store_inv (fst (touched_rows p f db))"
  by (simp add: touched_rows_def case_prod_beta inv_kept)

lemma settle_inv: "store_inv db \<Longrightarrow> store_inv (fst (settle now st (upd_executions p f db)))"
  by (auto simp: settle_def inv_kept session_ops_inv split: option.splits)

lemma settle_one_inv: "store_inv db \<Longrightarrow> store_inv (fst (settle_one now st (upd_executions p f db)))"
  by (auto simp: settle_one_def inv_kept session_ops_inv split: option.splits)

text \<open>A statement that names one execution, on the row with that id.\<close>

lemma returned_row:
  assumes "store_inv db" and "\<And>r. p r \<Longrightarrow> x_execution_id r = i"
  shows "snd (sql_update p f (session_executions db)) =
    (case row_by x_execution_id i (session_executions db) of None \<Rightarrow> [] | Some r \<Rightarrow> if p r then [f r] else [])"
  using assms by (intro returned_keyed) (auto simp: store_inv_def Let_def executions_inv_def)

lemma unmatched:
  assumes "store_inv db" and "\<And>r. p r \<Longrightarrow> x_execution_id r = i"
    and "case row_by x_execution_id i (session_executions db) of None \<Rightarrow> True | Some r \<Rightarrow> \<not> p r"
  shows "upd_executions p f db = (db, [])"
proof -
  have d: "distinct (map x_execution_id (session_executions db))"
    using assms(1) by (simp add: store_inv_def Let_def executions_inv_def)
  have "\<not> p r" if "r \<in> set (session_executions db)" for r
    using that assms(2,3) row_by_unique [OF d, of i r] by (cases "p r") auto
  then show ?thesis using no_match [of "session_executions db"] by (simp add: upd_executions_def)
qed

lemma touched_unmatched:
  assumes "store_inv db" and "row_by x_execution_id i (session_executions db) = Some r"
    and "\<And>r. p r \<Longrightarrow> x_execution_id r = i" and "\<not> p r"
  shows "touched_rows p f db = (db, False)"
  using unmatched [OF assms(1,3)] assms(2,4) by (simp add: touched_rows_def)

lemma touched_row:
  assumes "store_inv db" and "row_by x_execution_id i (session_executions db) = Some r"
    and "\<And>r. p r \<Longrightarrow> x_execution_id r = i"
  shows "snd (touched_rows p f db) = p r"
    and "row_by x_execution_id i (session_executions (fst (touched_rows p f db))) = Some (if p r then f r else r)"
  using returned_row [OF assms(1,3)] assms(2)
  by (simp_all add: touched_rows_def case_prod_beta row_after)

lemma settle_unmatched:
  assumes "store_inv db" and "\<And>r. p r \<Longrightarrow> x_execution_id r = i"
    and "case row_by x_execution_id i (session_executions db) of None \<Rightarrow> True | Some r \<Rightarrow> \<not> p r"
  shows "settle now st (upd_executions p f db) = (db, Inr None)"
  using unmatched [OF assms] by (simp add: settle_def)

end

lemma status_decodes [simp]: "execution_status_from_str (execution_status_as_ref st) = Some st"
  by (rule execution_status.of_as)

lemma active_status [simp]:
  "x_status r = execution_status_as_ref st \<Longrightarrow> active r \<longleftrightarrow> st = Queued \<or> st = Running"
  by (simp add: active_def)

interpretation conflict: exec_update "conflict_p new" "conflict_f new" for new
  by unfold_locales (auto simp: store_defs active_def idempotency_key_def owner_leased_def)

interpretation traceparent: exec_update "on_execution i" "traceparent_f now tp" for i now tp
  by unfold_locales (auto simp: store_defs active_def owner_leased_def)

interpretation mark_running: exec_update "mark_running_p i" "running_f now" for i now
  by unfold_locales (auto simp: store_defs active_def owner_leased_def)

interpretation requeue: exec_update "requeue_p i" "requeue_f now" for i now
  by unfold_locales (auto simp: store_defs active_def owner_leased_def)

interpretation claim_owner: exec_update "claim_owner_p now i ow" "claim_owner_f now ow t" for now i ow t
  by unfold_locales (auto simp: store_defs active_def owner_leased_def)

interpretation claim_expired: exec_update "claim_expired_p now i" "claim_owner_f now ow t" for now i ow t
  by unfold_locales (auto simp: store_defs active_def owner_leased_def)

interpretation renew: exec_update "active_owned_p i ow" "renew_f now t" for now i ow t
  by unfold_locales (auto simp: store_defs active_def owner_leased_def)

interpretation release: exec_update "owned_p i ow" "release_f now" for now i ow
  by unfold_locales (auto simp: store_defs active_def owner_leased_def)

interpretation release_held: exec_update "held_p ow" "release_f now" for now ow
  by unfold_locales (auto simp: store_defs active_def owner_leased_def)

interpretation complete: exec_update "on_execution i" "complete_f now" for now i
  by unfold_locales (auto simp: store_defs active_def owner_leased_def)

interpretation complete_active: exec_update "active_p i" "complete_f now" for now i
  by unfold_locales (auto simp: store_defs active_def owner_leased_def)

interpretation complete_owned:
  exec_update "active_owned_p i ow" "\<lambda>r. clear_owner (complete_f now r)" for now i ow
  by unfold_locales (auto simp: store_defs active_def owner_leased_def)

interpretation fail: exec_update "on_execution i" "fail_f now e" for now i e
  by unfold_locales (auto simp: store_defs active_def owner_leased_def)

interpretation fail_active: exec_update "active_p i" "fail_f now e" for now i e
  by unfold_locales (auto simp: store_defs active_def owner_leased_def)

interpretation fail_owned:
  exec_update "active_owned_p i ow" "\<lambda>r. clear_owner (fail_f now e r)" for now i ow e
  by unfold_locales (auto simp: store_defs active_def owner_leased_def)

interpretation cancel_owned:
  exec_update "active_owned_p i ow" "\<lambda>r. clear_owner (cancel_f now e r)" for now i ow e
  by unfold_locales (auto simp: store_defs active_def owner_leased_def)

section \<open>Every execution operation keeps the invariant\<close>

lemma new_execution_columns [simp]:
  "x_execution_id (new_execution_row now i k idem m rq) = i"
  "x_thread_key (new_execution_row now i k idem m rq) = k"
  "x_idempotency_key (new_execution_row now i k idem m rq) = idem"
  "x_status (new_execution_row now i k idem m rq) = execution_status_as_ref Queued"
  "x_request (new_execution_row now i k idem m rq) = rq"
  "owner_leased (new_execution_row now i k idem m rq)"
  by (simp_all add: new_execution_row_def owner_leased_def)

lemma events_inv_more_executions: "events_inv ks xs n t \<Longrightarrow> xs \<subseteq> ys \<Longrightarrow> events_inv ks ys n t"
  by (auto simp: events_inv_def split: option.splits)

lemma insert_execution_inv:
  assumes "store_inv db" and "x_status new = execution_status_as_ref Queued" and "owner_leased new"
    and "insert_execution new db = Inr (db', rows)"
  shows "store_inv db'"
proof (cases "\<exists>r \<in> set (session_executions db). conflict_p new r")
  case True
  with assms(4) have "db' = fst (upd_executions (conflict_p new) (conflict_f new) db)"
    by (auto simp: insert_execution_def)
  then show ?thesis using conflict.inv_kept assms(1) by simp
next
  case False
  with assms(4) have db': "db' = db\<lparr>session_executions := session_executions db @ [new]\<rparr>"
    and n: "x_execution_id new \<notin> x_execution_id ` set (session_executions db)"
    and a: "\<forall>r \<in> set (session_executions db). active r \<longrightarrow> x_thread_key r \<noteq> x_thread_key new"
    and s: "has_session db (x_thread_key new)"
    by (auto simp: insert_execution_def split: if_splits)
  have i: "\<forall>r \<in> set (session_executions db). \<forall>y. idempotency_key new = Some y \<longrightarrow> idempotency_key r \<noteq> Some y"
    using False by (auto simp: conflict_p_def)
  have "executions_inv (s_thread_key ` set (sessions db)) (session_executions db @ [new])"
    using assms(1,2,3) n a s i
    by (auto simp: store_inv_def Let_def executions_inv_def unique_index_append has_session_def
        one_active_key_def split: option.splits)
  moreover have "events_inv (s_thread_key ` set (sessions db))
      (x_execution_id ` set (session_executions db @ [new])) (next_event_id db) (session_events db)"
    using assms(1) by (auto simp: store_inv_def Let_def elim!: events_inv_more_executions)
  ultimately show ?thesis using assms(1) by (simp add: db' store_inv_def Let_def)
qed

lemma create_execution_ops_inv [keep]:
  assumes "store_inv db"
  shows "store_inv (fst (create_execution_with_request now i k idem m rq db))"
    and "store_inv (fst (create_execution now i k idem m db))"
proof -
  show "store_inv (fst (create_execution_with_request now i k idem m rq db))" for rq
    using insert_execution_inv [OF assms, of "new_execution_row now i k idem m rq"] assms
    by (auto simp: create_execution_with_request_def split: sum.splits)
  then show "store_inv (fst (create_execution now i k idem m db))" by (simp add: create_execution_def)
qed

lemma mark_execution_running_inv [keep]:
  "store_inv db \<Longrightarrow> store_inv (fst (mark_execution_running now i db))"
  by (auto simp: mark_execution_running_def case_prod_beta mark_running.inv_kept session_ops_inv
      split: option.splits)

lemma execution_ops_inv [keep]:
  assumes "store_inv db"
  shows "store_inv (fst (set_execution_traceparent now i tp db))"
    and "store_inv (fst (requeue_execution_if_running_without_stdout_owner now i db))"
    and "store_inv (fst (claim_stdout_owner clock now i ow lease db))"
    and "store_inv (fst (claim_expired_stdout_owner clock now i ow lease db))"
    and "store_inv (fst (renew_stdout_owner clock now i ow lease db))"
    and "store_inv (fst (release_stdout_owner now i ow db))"
    and "store_inv (fst (release_stdout_owned_executions now ow db))"
    and "store_inv (fst (complete_execution now i db))"
    and "store_inv (fst (complete_execution_if_active now i db))"
    and "store_inv (fst (complete_execution_if_active_and_stdout_owner now i ow db))"
    and "store_inv (fst (fail_execution now i e db))"
    and "store_inv (fst (fail_execution_if_active now i e db))"
    and "store_inv (fst (fail_execution_if_active_and_stdout_owner now i ow e db))"
    and "store_inv (fst (cancel_execution_if_active_and_stdout_owner now i ow e db))"
  using assms
  by (simp_all add: set_execution_traceparent_def requeue_execution_if_running_without_stdout_owner_def
      claim_stdout_owner_def claim_expired_stdout_owner_def renew_stdout_owner_def release_stdout_owner_def
      release_stdout_owned_executions_def complete_execution_def complete_execution_if_active_def
      complete_execution_if_active_and_stdout_owner_def fail_execution_def fail_execution_if_active_def
      fail_execution_if_active_and_stdout_owner_def cancel_execution_if_active_and_stdout_owner_def
      case_prod_beta traceparent.inv_kept requeue.settle_inv claim_owner.touched_inv
      claim_expired.touched_inv renew.touched_inv release.touched_inv release_held.inv_kept
      complete.settle_one_inv complete_active.settle_inv complete_owned.settle_inv fail.settle_one_inv
      fail_active.settle_inv fail_owned.settle_inv cancel_owned.settle_inv split: sum.split)

section \<open>Reading executions back\<close>

lemma execution_row_decodes:
  assumes "store_inv db" and "r \<in> set (session_executions db)"
  obtains e where "execution_of_row r = Inr e"
proof -
  obtain s where s: "s \<in> set (sessions db)" "s_thread_key s = x_thread_key r" and
    d: "execution_status_from_str (x_status r) \<noteq> None"
    using assms by (auto simp: store_inv_def Let_def executions_inv_def)
  then have "thread_key_parse (x_thread_key r) = Inr (x_thread_key r)"
    using assms(1) by (auto simp: store_inv_def Let_def sessions_inv_def session_ok_def)
  with d show thesis
    using that by (auto simp: execution_of_row_def parse_persisted_key_def parse_persisted_def)
qed

lemma execution_of_row_columns:
  assumes "execution_of_row r = Inr e"
  shows "exe_execution_id e = x_execution_id r" and "exe_thread_key e = x_thread_key r"
    and "execution_status_from_str (x_status r) = Some (exe_status e)"
    and "exe_idempotency_key e = x_idempotency_key r" and "exe_error e = x_error r"
    and "exe_started_at e = x_started_at r" and "exe_completed_at e = x_completed_at r"
    and "exe_metadata e = x_metadata r"
  using assms
  by (auto simp: execution_of_row_def parse_persisted_key_def parse_persisted_def
      dest!: thread_key_parse_id split: sum.splits option.splits)

lemma execution_of_row_cong:
  assumes "execution_of_row r = Inr e" and "x_execution_id r' = x_execution_id r"
    and "x_thread_key r' = x_thread_key r" and "execution_status_from_str (x_status r') = Some st"
  obtains e' where "execution_of_row r' = Inr e'" and "exe_status e' = st"
  using assms
  by (auto simp: execution_of_row_def parse_persisted_def split: sum.splits option.splits)

lemma executions_distinct:
  "store_inv db \<Longrightarrow> distinct (map x_execution_id (session_executions db))"
  by (simp add: store_inv_def Let_def executions_inv_def)

lemma execution_row_in:
  assumes "store_inv db"
  shows "row_by x_execution_id i (session_executions db) = Some r \<longleftrightarrow>
    r \<in> set (session_executions db) \<and> x_execution_id r = i"
  using executions_distinct [OF assms] by (rule row_by_unique)

lemma only_active:
  assumes "store_inv db" and "r \<in> set (session_executions db)" and "r' \<in> set (session_executions db)"
    and "active r" and "active r'" and "x_thread_key r' = x_thread_key r"
  shows "r' = r"
  using assms
  by (intro unique_indexD [of one_active_key "session_executions db" r' r "x_thread_key r"])
    (auto simp: store_inv_def Let_def executions_inv_def one_active_key_def)

lemma active_filter:
  assumes "store_inv db" and "r \<in> set (session_executions db)" and "active r"
  shows "filter (\<lambda>r'. x_thread_key r' = x_thread_key r \<and> active r') (session_executions db) = [r]"
proof -
  have "r' = r" if "r' \<in> set (session_executions db)" "x_thread_key r' = x_thread_key r" "active r'" for r'
    using only_active [OF assms(1,2) that(1) assms(3)] that(2,3) by blast
  then have "filter (\<lambda>r'. x_thread_key r' = x_thread_key r \<and> active r') (session_executions db) =
      filter (\<lambda>r'. x_execution_id r' = x_execution_id r \<and> r' = r) (session_executions db)"
    using assms by (intro filter_cong) auto
  then show ?thesis
    using filter_key_row_by [OF executions_distinct [OF assms(1)], of "x_execution_id r" "\<lambda>r'. r' = r"]
      execution_row_in [OF assms(1), of "x_execution_id r" r] assms(2) by simp
qed

lemma newest_single [simp]: "newest [r] = Some r"
  by (simp add: newest_def by_creation_def order_by_def)

lemma active_execution_is:
  assumes "store_inv db" and "r \<in> set (session_executions db)" and "active r" and "execution_of_row r = Inr e"
  shows "active_execution_for_thread db (x_thread_key r) = Inr (Some e)"
  using active_filter [OF assms(1-3)] assms(4)
  by (simp add: active_execution_for_thread_def transpose_option_def)

lemma conflict_row:
  assumes "store_inv db" and "r \<in> set (session_executions db)" and "conflict_p new r"
  shows "snd (sql_update (conflict_p new) (conflict_f new) (session_executions db)) = [conflict_f new r]"
proof -
  have "conflict_p new r' \<longleftrightarrow> x_execution_id r' = x_execution_id r \<and> conflict_p new r'"
    if "r' \<in> set (session_executions db)" for r'
    using assms that unique_indexD [of idempotency_key "session_executions db" r' r]
    by (auto simp: store_inv_def Let_def executions_inv_def conflict_p_def)
  then have "filter (conflict_p new) (session_executions db) =
      filter (\<lambda>r'. x_execution_id r' = x_execution_id r \<and> conflict_p new r') (session_executions db)"
    by (intro filter_cong) auto
  then show ?thesis
    using filter_key_row_by [OF executions_distinct [OF assms(1)], of "x_execution_id r" "conflict_p new"]
      execution_row_in [OF assms(1), of "x_execution_id r" r] assms(2,3) by (simp add: sql_update_def)
qed

lemma execution_of_conflict_f [simp]:
  "conflict_p new r \<Longrightarrow> execution_of_row (conflict_f new r) = execution_of_row r"
  by (auto simp: execution_of_row_def conflict_f_def conflict_p_def idempotency_key_def)

lemma new_execution_decodes:
  assumes "store_inv db" and "has_session db k"
  obtains e where "execution_of_row (new_execution_row now i k idem m rq) = Inr e"
    and "exe_status e = Queued" and "exe_execution_id e = i"
proof -
  have "thread_key_parse k = Inr k"
    using assms by (auto simp: store_inv_def Let_def sessions_inv_def session_ok_def has_session_def)
  then show thesis using that
    by (auto simp: execution_of_row_def parse_persisted_key_def parse_persisted_def new_execution_row_def)
qed

text \<open>
  \<^verbatim>\<open>create_execution_with_request\<close> on every branch, for a fresh id: a retry under a used
  idempotency key returns the stored execution, marked as not created, and adds no row; a thread with
  an active execution refuses a second one and nothing changes; an unknown thread is refused; otherwise
  a queued execution is created and is the thread's active execution.
\<close>

lemma create_execution_result:
  assumes inv: "store_inv db" and fresh: "i \<notin> x_execution_id ` set (session_executions db)"
  shows "(case create_execution_with_request now i k idem m rq db of (db', res) \<Rightarrow>
    (if \<exists>r \<in> set (session_executions db). idem \<noteq> None \<and> x_thread_key r = k \<and> x_idempotency_key r = idem
     then \<exists>r \<in> set (session_executions db). \<exists>e. x_thread_key r = k \<and> x_idempotency_key r = idem \<and>
       execution_of_row r = Inr e \<and> res = Inr \<lparr>cre_created = False, cre_execution = e\<rparr> \<and>
       map x_execution_id (session_executions db') = map x_execution_id (session_executions db)
     else if \<exists>r \<in> set (session_executions db). active r \<and> x_thread_key r = k
     then db' = db \<and> res = Inl (Sqlx (UniqueViolation ''session_executions_one_active_idx''))
     else if \<not> has_session db k
     then db' = db \<and> res = Inl (Sqlx (ForeignKeyViolation ''session_executions_thread_key_fkey''))
     else \<exists>e. res = Inr \<lparr>cre_created = True, cre_execution = e\<rparr> \<and> exe_execution_id e = i \<and>
       exe_status e = Queued \<and> active_execution_for_thread db' k = Inr (Some e)))"
proof -
  let ?new = "new_execution_row now i k idem m rq"
  have conf: "conflict_p ?new r \<longleftrightarrow> idem \<noteq> None \<and> x_thread_key r = k \<and> x_idempotency_key r = idem" for r
    by (auto simp: conflict_p_def idempotency_key_def)
  consider (retry) r where "r \<in> set (session_executions db)" "conflict_p ?new r"
    | (refused) "\<not> (\<exists>r \<in> set (session_executions db). conflict_p ?new r)"
        "(\<exists>r \<in> set (session_executions db). active r \<and> x_thread_key r = k) \<or> \<not> has_session db k"
    | (new) "\<not> (\<exists>r \<in> set (session_executions db). conflict_p ?new r)"
        "\<not> (\<exists>r \<in> set (session_executions db). active r \<and> x_thread_key r = k)" "has_session db k"
    by blast
  then show ?thesis
  proof cases
    case retry
    then obtain e where e: "execution_of_row r = Inr e" using execution_row_decodes inv by blast
    have "snd (sql_update (conflict_p ?new) (conflict_f ?new) (session_executions db)) = [conflict_f ?new r]"
      using inv retry by (rule conflict_row)
    moreover have "x_execution_id (conflict_f ?new r) \<noteq> i"
      using fresh retry(1) by (auto simp: conflict_f_def)
    ultimately have "create_execution_with_request now i k idem m rq db =
        (fst (upd_executions (conflict_p ?new) (conflict_f ?new) db),
         Inr \<lparr>cre_created = False, cre_execution = e\<rparr>)"
      using retry e
      by (auto simp: create_execution_with_request_def insert_execution_def fetch_one_def create_result_def
          upd_executions_def Let_def)
    then show ?thesis using retry conf e by (auto simp: conflict.keys_kept)
  next
    case refused
    then have "\<not> (\<exists>r \<in> set (session_executions db). idem \<noteq> None \<and> x_thread_key r = k \<and> x_idempotency_key r = idem)"
      using conf by blast
    with refused fresh show ?thesis
      by (auto simp: create_execution_with_request_def insert_execution_def)
  next
    case new
    then obtain e where e: "execution_of_row ?new = Inr e" "exe_status e = Queued" "exe_execution_id e = i"
      using new_execution_decodes inv by blast
    let ?db = "db\<lparr>session_executions := session_executions db @ [?new]\<rparr>"
    have ins: "insert_execution ?new db = Inr (?db, [?new])"
      using new fresh by (auto simp: insert_execution_def)
    have inv': "store_inv ?db" using insert_execution_inv [OF inv _ _ ins] by simp
    have "active_execution_for_thread ?db (x_thread_key ?new) = Inr (Some e)"
      using inv' e(1) by (intro active_execution_is) auto
    moreover have "create_execution_with_request now i k idem m rq db =
        (?db, Inr \<lparr>cre_created = True, cre_execution = e\<rparr>)"
      using ins e by (simp add: create_execution_with_request_def fetch_one_def create_result_def)
    ultimately show ?thesis using new conf e by auto
  qed
qed


section \<open>Racing claims of a queued execution\<close>

text \<open>Calls of \<^verbatim>\<open>mark_execution_running\<close> by several workers, in the order the database runs them.\<close>

fun racing_claims :: "string \<Rightarrow> time list \<Rightarrow> db \<Rightarrow> db \<times> ClaimExecutionResult store_result list" where
  "racing_claims i [] db = (db, [])"
| "racing_claims i (now # later) db =
     (let (db1, res) = mark_execution_running now i db; (db2, rest) = racing_claims i later db1
      in (db2, res # rest))"

lemma mark_queued:
  assumes "store_inv db" and "row_by x_execution_id i (session_executions db) = Some r"
    and "x_status r = execution_status_as_ref Queued"
  obtains e where "mark_execution_running now i db =
      (set_session_status now (x_thread_key r) Executing
         (fst (upd_executions (mark_running_p i) (running_f now) db)),
       Inr \<lparr>cla_execution = e, cla_claimed = True\<rparr>)"
    and "exe_status e = Running" and "exe_execution_id e = i" and "execution_of_row (running_f now r) = Inr e"
proof -
  have r: "r \<in> set (session_executions db)" "x_execution_id r = i" using row_by_Some [OF assms(2)] by auto
  then obtain e0 where "execution_of_row r = Inr e0" using execution_row_decodes assms(1) by blast
  then obtain e where e: "execution_of_row (running_f now r) = Inr e" "exe_status e = Running"
    by (rule execution_of_row_cong [of r e0 "running_f now r" Running]) (simp_all add: running_f_def)
  have "snd (sql_update (mark_running_p i) (running_f now) (session_executions db)) = [running_f now r]"
    using assms r mark_running.returned_row [of db i i now] by (simp add: mark_running_p_def)
  then have "mark_execution_running now i db =
      (set_session_status now (x_thread_key r) Executing
         (fst (upd_executions (mark_running_p i) (running_f now) db)),
       Inr \<lparr>cla_execution = e, cla_claimed = True\<rparr>)"
    using e(1) by (simp add: mark_execution_running_def case_prod_beta) (simp add: running_f_def)
  moreover have "exe_execution_id e = i"
    using execution_of_row_columns(1) [OF e(1)] r(2) by (simp add: running_f_def)
  ultimately show thesis using that e by blast
qed

lemma mark_not_queued:
  assumes "store_inv db" and "row_by x_execution_id i (session_executions db) = Some r"
    and "x_status r \<noteq> execution_status_as_ref Queued" and "execution_of_row r = Inr e"
  shows "mark_execution_running now i db = (db, Inr \<lparr>cla_execution = e, cla_claimed = False\<rparr>)"
proof -
  have "upd_executions (mark_running_p i) (running_f now) db = (db, [])"
    using assms(1-3) by (intro mark_running.unmatched) (auto simp: mark_running_p_def)
  moreover have "filter (on_execution i) (session_executions db) = [r]"
    using filter_key_row_by [OF executions_distinct [OF assms(1)], of i "\<lambda>_. True"] assms(2)
    by (simp add: on_execution_def [abs_def])
  ultimately show ?thesis using assms(4) by (simp add: mark_execution_running_def fetch_one_def)
qed

lemma row_after_mark:
  "row_by x_execution_id i (session_executions (fst (upd_executions (mark_running_p j) (running_f now) db))) =
   map_option (\<lambda>r. if mark_running_p j r then running_f now r else r)
     (row_by x_execution_id i (session_executions db))"
  by (simp add: mark_running.row_after)

lemma racing_claims_lost:
  assumes "store_inv db" and "row_by x_execution_id i (session_executions db) = Some r"
    and "x_status r \<noteq> execution_status_as_ref Queued" and "execution_of_row r = Inr e"
  shows "racing_claims i later db = (db, replicate (length later) (Inr \<lparr>cla_execution = e, cla_claimed = False\<rparr>))"
  by (induction later) (simp_all add: mark_not_queued [OF assms])

text \<open>
  C1. A queued execution is claimed exactly once: however many workers race to mark it running, the
  first call the database runs claims it and moves it to running, and every later call reports the same
  running execution without claiming it.
\<close>

theorem claimed_exactly_once:
  assumes "store_inv db" and "row_by x_execution_id i (session_executions db) = Some r"
    and "x_status r = execution_status_as_ref Queued"
  shows "\<exists>e. exe_execution_id e = i \<and> exe_status e = Running \<and>
    snd (racing_claims i (now # later) db) =
      Inr \<lparr>cla_execution = e, cla_claimed = True\<rparr> #
      replicate (length later) (Inr \<lparr>cla_execution = e, cla_claimed = False\<rparr>)"
proof -
  obtain e where m: "mark_execution_running now i db =
      (set_session_status now (x_thread_key r) Executing
         (fst (upd_executions (mark_running_p i) (running_f now) db)),
       Inr \<lparr>cla_execution = e, cla_claimed = True\<rparr>)" (is "_ = (?db1, _)")
    and e: "exe_status e = Running" "exe_execution_id e = i"
    using mark_queued [OF assms] by metis
  have "mark_running_p i r" using assms(3) row_by_Some [OF assms(2)] by (simp add: mark_running_p_def)
  then have r1: "row_by x_execution_id i (session_executions ?db1) = Some (running_f now r)"
    using assms(2) by (simp add: mark_running.row_after)
  have inv1: "store_inv ?db1" using mark_execution_running_inv [OF assms(1), of now i] m by simp
  obtain e1 where e1: "execution_of_row (running_f now r) = Inr e1"
    using execution_row_decodes [OF inv1] row_by_Some [OF r1] by blast
  have "e1 = e"
    using m e1 mark_running.returned_row [of db i i now] assms row_by_Some [OF assms(2)]
    by (simp add: mark_execution_running_def case_prod_beta mark_running_p_def)
  then have "snd (racing_claims i later ?db1) =
      replicate (length later) (Inr \<lparr>cla_execution = e, cla_claimed = False\<rparr>)"
    using racing_claims_lost [OF inv1 r1 _ e1] by (simp add: running_f_def)
  then show ?thesis using m e by (auto simp: case_prod_beta)
qed


definition example_exec_db :: db where
  "example_exec_db = fst (create_execution_with_request 7 ''exe_1'' ''api:1'' (Some ''k'') empty_object
     empty_object example_db)"

abbreviation example_row :: execution_row where
  "example_row \<equiv> new_execution_row 7 ''exe_1'' ''api:1'' (Some ''k'') empty_object empty_object"

lemma example_exec_db_rows: "session_executions example_exec_db = [example_row]"
proof -
  have "insert_execution example_row example_db = Inr (example_db\<lparr>session_executions := [example_row]\<rparr>, [example_row])"
    using example_db_has by (simp add: insert_execution_def example_db_sessions empty_db_def)
  then show ?thesis by (simp add: example_exec_db_def create_execution_with_request_def)
qed

lemma example_exec_db_inv: "store_inv example_exec_db"
  unfolding example_exec_db_def by (rule create_execution_ops_inv(1)) (rule example_db_inv)

lemma example_exec_row: "row_by x_execution_id ''exe_1'' (session_executions example_exec_db) = Some example_row"
  by (simp add: example_exec_db_rows row_by_def)

theorem claimed_exactly_once_witness:
  "store_inv example_exec_db \<and>
   (\<exists>e. snd (racing_claims ''exe_1'' [8, 9] example_exec_db) =
      [Inr \<lparr>cla_execution = e, cla_claimed = True\<rparr>, Inr \<lparr>cla_execution = e, cla_claimed = False\<rparr>])"
proof -
  have "x_status example_row = execution_status_as_ref Queued" by simp
  from claimed_exactly_once [OF example_exec_db_inv example_exec_row this, of 8 "[9]"]
  show ?thesis using example_exec_db_inv by auto
qed

section \<open>The stdout lease as a lock\<close>

text \<open>
  The specification: a lock that is free or held by an owner until a date. The owner columns of an
  execution refine it, operation by operation.
\<close>

type_synonym lease_lock = "(string \<times> time) option"

datatype lease_op =
    Claim time time string duration
  | ClaimExpired time time string duration
  | Renew time time string duration
  | Release time string

fun lock_step :: "lease_op \<Rightarrow> lease_lock \<Rightarrow> lease_lock \<times> bool store_result" where
  "lock_step (Claim clock now ow lease) l =
     (case stdout_lease_expires_at clock lease of Inl e \<Rightarrow> (l, Inl e)
      | Inr t \<Rightarrow> if (case l of None \<Rightarrow> True | Some (h, e) \<Rightarrow> h = ow \<or> e < now)
                 then (Some (ow, pg_timestamp t), Inr True) else (l, Inr False))"
| "lock_step (ClaimExpired clock now ow lease) l =
     (case stdout_lease_expires_at clock lease of Inl e \<Rightarrow> (l, Inl e)
      | Inr t \<Rightarrow> if (case l of None \<Rightarrow> True | Some (h, e) \<Rightarrow> e < now)
                 then (Some (ow, pg_timestamp t), Inr True) else (l, Inr False))"
| "lock_step (Renew clock now ow lease) l =
     (case stdout_lease_expires_at clock lease of Inl e \<Rightarrow> (l, Inl e)
      | Inr t \<Rightarrow> if (case l of None \<Rightarrow> False | Some (h, e) \<Rightarrow> h = ow)
                 then (Some (ow, pg_timestamp t), Inr True) else (l, Inr False))"
| "lock_step (Release now ow) l =
     (if (case l of None \<Rightarrow> False | Some (h, e) \<Rightarrow> h = ow) then (None, Inr True) else (l, Inr False))"

fun run_lease_op :: "string \<Rightarrow> lease_op \<Rightarrow> db \<Rightarrow> db \<times> bool store_result" where
  "run_lease_op i (Claim clock now ow lease) db = claim_stdout_owner clock now i ow lease db"
| "run_lease_op i (ClaimExpired clock now ow lease) db = claim_expired_stdout_owner clock now i ow lease db"
| "run_lease_op i (Renew clock now ow lease) db = renew_stdout_owner clock now i ow lease db"
| "run_lease_op i (Release now ow) db = map_prod id Inr (release_stdout_owner now i ow db)"

definition row_lock :: "execution_row \<Rightarrow> lease_lock" where
  "row_lock r =
     Option.bind (x_stdout_owner_id r) (\<lambda>ow. map_option (Pair ow) (x_stdout_owner_lease_expires_at r))"

definition lock_of :: "db \<Rightarrow> string \<Rightarrow> lease_lock" where
  "lock_of db i = Option.bind (row_by x_execution_id i (session_executions db)) row_lock"

lemma lease_row:
  assumes "owner_leased r"
  obtains (free) "x_stdout_owner_id r = None" "x_stdout_owner_lease_expires_at r = None" "row_lock r = None"
  | (held) h e where "x_stdout_owner_id r = Some h" "x_stdout_owner_lease_expires_at r = Some e" "row_lock r = Some (h, e)"
  using assms
  by (cases "x_stdout_owner_id r"; cases "x_stdout_owner_lease_expires_at r")
    (auto simp: owner_leased_def row_lock_def)

lemmas lease_op_defs = claim_stdout_owner_def claim_expired_stdout_owner_def renew_stdout_owner_def
  release_stdout_owner_def

lemma lease_op_row:
  assumes "store_inv db" and "row_by x_execution_id i (session_executions db) = Some r" and "active r"
  shows "\<exists>r'. row_by x_execution_id i (session_executions (fst (run_lease_op i op db))) = Some r' \<and> active r' \<and>
    lock_step op (row_lock r) = (row_lock r', snd (run_lease_op i op db))"
proof -
  have i: "x_execution_id r = i" using row_by_Some [OF assms(2)] by simp
  have ol: "owner_leased r"
    using assms(1) row_by_Some [OF assms(2)] by (auto simp: store_inv_def Let_def executions_inv_def)
  have a: "active (claim_owner_f n ow t r)" "active (renew_f n t r)" "active (release_f n r)" for n ow t
    using assms(3) by (simp_all add: active_def claim_owner_f_def renew_f_def release_f_def clear_owner_def)
  have l: "row_lock (claim_owner_f n ow t r) = Some (ow, pg_timestamp t)" "row_lock (release_f n r) = None" for n ow t
    by (simp_all add: row_lock_def claim_owner_f_def release_f_def clear_owner_def)
  have q: "claim_owner_p n i ow r \<longleftrightarrow> (case row_lock r of None \<Rightarrow> True | Some (h, e) \<Rightarrow> h = ow \<or> e < n)"
    "claim_expired_p n i r \<longleftrightarrow> (case row_lock r of None \<Rightarrow> True | Some (h, e) \<Rightarrow> e < n)"
    "active_owned_p i ow r \<longleftrightarrow> (case row_lock r of None \<Rightarrow> False | Some (h, e) \<Rightarrow> h = ow)"
    "owned_p i ow r \<longleftrightarrow> (case row_lock r of None \<Rightarrow> False | Some (h, e) \<Rightarrow> h = ow)" for n ow
    using ol i assms(3) by (cases rule: lease_row; auto simp: store_defs lease_expired_def)+
  have rl: "row_lock (renew_f n t r) = Some (ow, pg_timestamp t)"
    if "case row_lock r of None \<Rightarrow> False | Some (h, e) \<Rightarrow> h = ow" for n ow t
    using ol that by (cases rule: lease_row) (auto simp: row_lock_def renew_f_def)
  have p: "claim_owner_p n i ow x \<Longrightarrow> x_execution_id x = i" "claim_expired_p n i x \<Longrightarrow> x_execution_id x = i"
    "active_owned_p i ow x \<Longrightarrow> x_execution_id x = i" "owned_p i ow x \<Longrightarrow> x_execution_id x = i" for n ow x
    by (simp_all add: store_defs)
  note t = claim_owner.touched_row [OF assms(1,2) p(1)] claim_expired.touched_row [OF assms(1,2) p(2)]
    renew.touched_row [OF assms(1,2) p(3)] release.touched_row [OF assms(1,2) p(4)]
  show ?thesis using assms(2,3) a l rl
    by (cases op) (simp_all add: lease_op_defs t q split: sum.split)
qed

fun run_lease_ops :: "string \<Rightarrow> lease_op list \<Rightarrow> db \<Rightarrow> db \<times> bool store_result list" where
  "run_lease_ops i [] db = (db, [])"
| "run_lease_ops i (op # ops) db =
     (let (db1, res) = run_lease_op i op db; (db2, rest) = run_lease_ops i ops db1 in (db2, res # rest))"

fun lock_steps :: "lease_op list \<Rightarrow> lease_lock \<Rightarrow> lease_lock \<times> bool store_result list" where
  "lock_steps [] l = (l, [])"
| "lock_steps (op # ops) l =
     (let (l1, res) = lock_step op l; (l2, rest) = lock_steps ops l1 in (l2, res # rest))"

lemma run_lease_op_inv: "store_inv db \<Longrightarrow> store_inv (fst (run_lease_op i op db))"
  by (cases op) (auto simp: execution_ops_inv)

text \<open>
  C6. The owner columns implement a lease lock: any sequence of claims, claims of expired leases,
  renewals and releases of an active execution's stdout leaves the columns in the state of the abstract
  lock and returns the lock's answers.
\<close>

theorem lease_refines_lock:
  assumes "store_inv db" and "row_by x_execution_id i (session_executions db) = Some r" and "active r"
  shows "lock_steps ops (lock_of db i) =
    (lock_of (fst (run_lease_ops i ops db)) i, snd (run_lease_ops i ops db))"
  using assms
proof (induction ops arbitrary: db r)
  case (Cons op ops)
  let ?db1 = "fst (run_lease_op i op db)"
  obtain r' where r': "row_by x_execution_id i (session_executions ?db1) = Some r'" "active r'"
    "lock_step op (row_lock r) = (row_lock r', snd (run_lease_op i op db))"
    using lease_op_row [OF Cons.prems] by blast
  have "lock_steps ops (lock_of ?db1 i) =
      (lock_of (fst (run_lease_ops i ops ?db1)) i, snd (run_lease_ops i ops ?db1))"
    using run_lease_op_inv [OF Cons.prems(1)] r'(1,2) by (rule Cons.IH)
  moreover have "lock_of db i = row_lock r" "lock_of ?db1 i = row_lock r'"
    using Cons.prems(2) r'(1) by (simp_all add: lock_of_def)
  ultimately show ?case using r'(3) by (simp add: case_prod_beta)
qed simp

theorem lease_refines_lock_witness:
  "store_inv example_exec_db \<and> active example_row \<and>
   lock_of example_exec_db ''exe_1'' = None \<and>
   snd (run_lease_ops ''exe_1'' [Release 9 ''a''] example_exec_db) = [Inr False]"
proof -
  have a: "active example_row" by simp
  have l: "lock_of example_exec_db ''exe_1'' = None"
    by (simp add: lock_of_def example_exec_row row_lock_def new_execution_row_def)
  then show ?thesis
    using a example_exec_db_inv
      lease_refines_lock [OF example_exec_db_inv example_exec_row a, of "[Release 9 ''a'']"] by simp
qed

fun op_owner :: "lease_op \<Rightarrow> string" where
  "op_owner (Claim _ _ ow _) = ow" | "op_owner (ClaimExpired _ _ ow _) = ow"
| "op_owner (Renew _ _ ow _) = ow" | "op_owner (Release _ ow) = ow"

fun op_now :: "lease_op \<Rightarrow> time" where
  "op_now (Claim _ now _ _) = now" | "op_now (ClaimExpired _ now _ _) = now"
| "op_now (Renew _ now _ _) = now" | "op_now (Release now _) = now"

lemma lock_row:
  assumes "lock_of db i = Some (h, e)"
  obtains r where "row_by x_execution_id i (session_executions db) = Some r" and "x_execution_id r = i"
    and "x_stdout_owner_id r = Some h" and "x_stdout_owner_lease_expires_at r = Some e"
  using assms row_by_Some [of x_execution_id i "session_executions db"]
  by (auto simp: lock_of_def row_lock_def bind_eq_Some_conv)

lemma foreign_op_refused:
  assumes "store_inv db" and "lock_of db i = Some (h, e)" and "op_owner op \<noteq> h" and "op_now op \<le> e"
  shows "fst (run_lease_op i op db) = db \<and> snd (run_lease_op i op db) \<noteq> Inr True"
proof -
  obtain r where r: "row_by x_execution_id i (session_executions db) = Some r" "x_execution_id r = i"
    "x_stdout_owner_id r = Some h" "x_stdout_owner_lease_expires_at r = Some e"
    using lock_row [OF assms(2)] .
  have "touched_rows (claim_owner_p n i ow) (claim_owner_f n ow t) db = (db, False)"
    "touched_rows (claim_expired_p n i) (claim_owner_f n ow t) db = (db, False)"
    "touched_rows (active_owned_p i ow) (renew_f n t) db = (db, False)"
    "touched_rows (owned_p i ow) (release_f n) db = (db, False)" if "ow \<noteq> h" "n \<le> e" for n ow t
    using that r(2-)
    by (auto simp: store_defs lease_expired_def intro!: claim_owner.touched_unmatched [OF assms(1) r(1)]
        claim_expired.touched_unmatched [OF assms(1) r(1)] renew.touched_unmatched [OF assms(1) r(1)]
        release.touched_unmatched [OF assms(1) r(1)])
  then show ?thesis using assms(3,4)
    by (cases op) (simp_all add: lease_op_defs split: sum.split)
qed


text \<open>
  C4. A live lease cannot be taken or ended by others: while the holder's lease has not passed, by the
  database clock, any sequence of claims, renewals and releases by other owners changes nothing in the
  database and none of them succeeds.
\<close>

theorem live_lease_excludes_others:
  assumes "store_inv db" and "lock_of db i = Some (holder, expires)"
    and "list_all (\<lambda>op. op_owner op \<noteq> holder \<and> op_now op \<le> expires) ops"
  shows "fst (run_lease_ops i ops db) = db \<and> Inr True \<notin> set (snd (run_lease_ops i ops db))"
  using assms(3)
proof (induction ops)
  case (Cons op ops)
  then show ?case
    using foreign_op_refused [OF assms(1,2), of op] by (auto simp: case_prod_beta)
qed simp

definition example_claimed_db :: db where
  "example_claimed_db = fst (claim_stdout_owner 10 10 ''exe_1'' ''a'' 5000 example_exec_db)"

lemma example_lease: "lock_of example_claimed_db ''exe_1'' = Some (''a'', 6000)"
proof -
  have "stdout_lease_expires_at 10 5000 = Inr 5010"
    by (simp add: stdout_lease_expires_at_def MAX_OFFSET_DATE_TIME_def)
  moreover have "pg_timestamp 5010 = 6000" by (simp add: pg_timestamp_def PG_EPOCH_def)
  moreover have "claim_owner_p 10 ''exe_1'' ''a'' example_row"
    by (simp add: claim_owner_p_def new_execution_row_def active_def)
  moreover have "row_by x_execution_id ''exe_1'' (session_executions (fst (touched_rows
      (claim_owner_p 10 ''exe_1'' ''a'') (claim_owner_f 10 ''a'' 5010) example_exec_db))) =
      Some (if claim_owner_p 10 ''exe_1'' ''a'' example_row then claim_owner_f 10 ''a'' 5010 example_row else example_row)"
    by (rule claim_owner.touched_row(2) [OF example_exec_db_inv example_exec_row]) (simp add: claim_owner_p_def)
  ultimately show ?thesis
    by (simp add: example_claimed_db_def claim_stdout_owner_def lock_of_def row_lock_def claim_owner_f_def)
qed

lemma example_claimed_inv: "store_inv example_claimed_db"
  unfolding example_claimed_db_def by (intro execution_ops_inv example_exec_db_inv)

theorem live_lease_excludes_others_witness:
  "store_inv example_claimed_db \<and> lock_of example_claimed_db ''exe_1'' = Some (''a'', 6000) \<and>
   fst (run_lease_ops ''exe_1'' [Claim 20 20 ''b'' 9000, Release 21 ''b''] example_claimed_db) = example_claimed_db"
  using example_claimed_inv example_lease
    live_lease_excludes_others [OF example_claimed_inv example_lease, of "[Claim 20 20 ''b'' 9000, Release 21 ''b'']"]
  by simp

section \<open>Terminal transitions\<close>

lemma settled_row:
  assumes "exec_update p f" and "store_inv db" and "row_by x_execution_id i (session_executions db) = Some r"
    and "\<And>r. p r \<Longrightarrow> x_execution_id r = i" and "p r" and "x_status (f r) = execution_status_as_ref st"
  obtains e where "settle now sst (upd_executions p f db) =
      (set_session_status now (x_thread_key r) sst (fst (upd_executions p f db)), Inr (Some e))"
    and "execution_of_row (f r) = Inr e" and "exe_status e = st" and "exe_execution_id e = i"
proof -
  obtain e0 where "execution_of_row r = Inr e0"
    using execution_row_decodes [OF assms(2)] row_by_Some [OF assms(3)] by blast
  moreover have k: "x_execution_id (f r) = x_execution_id r" "x_thread_key (f r) = x_thread_key r"
    using assms(1,5) by (simp_all add: exec_update_def exec_update_axioms_def keyed_update_def)
  ultimately obtain e where e: "execution_of_row (f r) = Inr e" "exe_status e = st"
    using execution_of_row_cong [of r e0 "f r" st] assms(6) by auto
  have "snd (sql_update p f (session_executions db)) = [f r]"
    using exec_update.returned_row [OF assms(1,2,4)] assms(3,5) by simp
  then have "settle now sst (upd_executions p f db) =
      (set_session_status now (x_thread_key r) sst (fst (upd_executions p f db)), Inr (Some e))"
    using e k by (simp add: settle_def)
  then show thesis
    using that e execution_of_row_columns(1) [OF e(1)] k(1) row_by_Some [OF assms(3)] by simp
qed

text \<open>
  Only the stdout owner finishes an execution, and only once: for the owner of an active execution
  the call completes it, stores the result under its id, releases the lease and leaves the thread without
  an active execution; for anyone else, for an unknown execution and after it has ended, the call returns
  nothing and changes nothing.
\<close>

theorem owner_completes_once:
  assumes inv: "store_inv db"
  shows "(case row_by x_execution_id i (session_executions db) of
      Some r \<Rightarrow> if active r \<and> x_stdout_owner_id r = Some ow
        then \<exists>e db'. complete_execution_if_active_and_stdout_owner now i ow db = (db', Inr (Some e)) \<and>
          exe_execution_id e = i \<and> exe_status e = Completed \<and> exe_completed_at e \<noteq> None \<and>
          lock_of db' i = None \<and> active_execution_for_thread db' (x_thread_key r) = Inr None \<and>
          complete_execution_if_active_and_stdout_owner now' i ow' db' = (db', Inr None)
        else complete_execution_if_active_and_stdout_owner now i ow db = (db, Inr None)
    | None \<Rightarrow> complete_execution_if_active_and_stdout_owner now i ow db = (db, Inr None))"
proof (cases "row_by x_execution_id i (session_executions db)")
  case None
  have "complete_execution_if_active_and_stdout_owner now i ow db = (db, Inr None)"
    unfolding complete_execution_if_active_and_stdout_owner_def
    by (rule complete_owned.settle_unmatched [OF inv, of _ _ i])
      (simp_all add: None active_owned_p_def owned_p_def)
  with None show ?thesis by simp
next
  case (Some r)
  note r = row_by_Some [OF Some]
  show ?thesis
  proof (cases "active_owned_p i ow r")
    case False
    have "complete_execution_if_active_and_stdout_owner now i ow db = (db, Inr None)"
      unfolding complete_execution_if_active_and_stdout_owner_def
      using Some False by (intro complete_owned.settle_unmatched [OF inv, of _ _ i]) (simp_all add: store_defs)
    then show ?thesis using Some False r by (auto simp: store_defs)
  next
    case True
    let ?f = "\<lambda>r. clear_owner (complete_f now r)"
    let ?db = "set_session_status now (x_thread_key r) Idle (fst (upd_executions (active_owned_p i ow) ?f db))"
    have k: "\<And>x. active_owned_p i ow x \<Longrightarrow> x_execution_id x = i" by (simp add: store_defs)
    have st: "x_status (?f r) = execution_status_as_ref Completed" by (simp add: clear_owner_def complete_f_def)
    obtain e where e: "complete_execution_if_active_and_stdout_owner now i ow db = (?db, Inr (Some e))"
      "execution_of_row (?f r) = Inr e" "exe_status e = Completed" "exe_execution_id e = i"
      unfolding complete_execution_if_active_and_stdout_owner_def
      by (rule settled_row [OF complete_owned.exec_update_axioms inv Some k True st])
    have inv': "store_inv ?db"
      using execution_ops_inv(10) [OF inv, of now i ow] e(1) by simp
    have row: "row_by x_execution_id i (session_executions ?db) = Some (?f r)"
      using Some True by (simp add: complete_owned.row_after)
    have na: "\<not> active (?f x)" for x by (simp add: active_def clear_owner_def complete_f_def)
    have "\<not> (x_thread_key x = x_thread_key r \<and> active x)" if "x \<in> set (session_executions ?db)" for x
    proof -
      from that obtain y where y: "y \<in> set (session_executions db)" "x = (if active_owned_p i ow y then ?f y else y)"
        using complete_owned.in_updated [of x i ow now "session_executions db"] by auto
      have "y = r" if "active y" "x_thread_key y = x_thread_key r"
        using only_active [OF inv _ y(1) _ that] r True by (simp add: active_owned_p_def)
      with y(2) na True show ?thesis by auto
    qed
    then have "active_execution_for_thread ?db (x_thread_key r) = Inr None"
      by (simp add: active_execution_for_thread_def filter_empty_conv newest_def by_creation_def transpose_option_def)
    moreover have "complete_execution_if_active_and_stdout_owner now' i ow' ?db = (?db, Inr None)"
      unfolding complete_execution_if_active_and_stdout_owner_def
      using row na by (intro complete_owned.settle_unmatched [OF inv', of _ _ i]) (simp_all add: store_defs)
    moreover have "lock_of ?db i = None" "exe_completed_at e \<noteq> None"
      using row execution_of_row_columns(7) [OF e(2)]
      by (simp_all add: lock_of_def row_lock_def clear_owner_def complete_f_def coalesce_def split: option.split)
    ultimately show ?thesis using e Some True by (simp add: store_defs)
  qed
qed


lemma example_claimed_row:
  obtains r where "row_by x_execution_id ''exe_1'' (session_executions example_claimed_db) = Some r"
    and "active r" and "x_stdout_owner_id r = Some ''a''" and "x_thread_key r = ''api:1''"
proof -
  obtain r where r: "row_by x_execution_id ''exe_1'' (session_executions example_claimed_db) = Some r"
    "x_stdout_owner_id r = Some ''a''" using lock_row [OF example_lease] by blast
  have "row_by x_execution_id ''exe_1'' (session_executions (fst (touched_rows
      (claim_owner_p 10 ''exe_1'' ''a'') (claim_owner_f 10 ''a'' t) example_exec_db))) =
      Some (if claim_owner_p 10 ''exe_1'' ''a'' example_row then claim_owner_f 10 ''a'' t example_row else example_row)" for t
    by (rule claim_owner.touched_row(2) [OF example_exec_db_inv example_exec_row]) (simp add: claim_owner_p_def)
  then have "r = example_row \<or> (\<exists>t. r = claim_owner_f 10 ''a'' t example_row)"
    using r(1) example_exec_row
    by (auto simp: example_claimed_db_def claim_stdout_owner_def split: sum.splits if_splits)
  then have "active r \<and> x_thread_key r = ''api:1''"
    by (auto simp: active_def claim_owner_f_def)
  then show thesis using that r by blast
qed

section \<open>Retries of a creation\<close>

lemma created_row:
  assumes "store_inv db" and "create_execution_with_request now i k (Some key) m rq db = (db1, Inr res)"
  obtains r where "r \<in> set (session_executions db1)" and "x_thread_key r = k"
    and "x_idempotency_key r = Some key" and "execution_of_row r = Inr (cre_execution res)"
proof -
  let ?n = "new_execution_row now i k (Some key) m rq"
  obtain rows where ins: "insert_execution ?n db = Inr (db1, rows)"
    and f: "fetch_one rows (create_result i) = Inr res"
    using assms(2) by (auto simp: create_execution_with_request_def split: sum.splits)
  show thesis
  proof (cases "\<exists>r \<in> set (session_executions db). conflict_p ?n r")
    case True
    then obtain r where r: "r \<in> set (session_executions db)" "conflict_p ?n r" by blast
    have "upd_executions (conflict_p ?n) (conflict_f ?n) db = (db1, rows)"
      using ins True by (simp add: insert_execution_def)
    then have "rows = [conflict_f ?n r]" and db1: "session_executions db1 = fst (sql_update (conflict_p ?n) (conflict_f ?n) (session_executions db))"
      using conflict_row [OF assms(1) r] by (auto simp: upd_executions_def Let_def)
    then have "execution_of_row (conflict_f ?n r) = Inr (cre_execution res)"
      using f by (auto simp: fetch_one_def create_result_def)
    moreover have "conflict_f ?n r \<in> set (session_executions db1)"
      using r by (auto simp: db1 conflict.in_updated)
    ultimately show thesis using that r by (auto simp: conflict_f_def conflict_p_def idempotency_key_def)
  next
    case False
    then have "rows = [?n]" "session_executions db1 = session_executions db @ [?n]"
      using ins by (auto simp: insert_execution_def split: if_splits)
    then show thesis using that [of ?n] f by (auto simp: fetch_one_def create_result_def)
  qed
qed

text \<open>
  Retrying a creation is safe: once an execution exists under an idempotency key, every later
  creation on the thread with that key, whatever its metadata and request, returns that execution as
  not created, and the request stored first stays unless it was empty.
\<close>

theorem create_execution_retry:
  assumes inv: "store_inv db"
    and first: "create_execution_with_request now i k (Some key) m rq db = (db1, Inr res)"
    and fresh: "j \<notin> x_execution_id ` set (session_executions db1)"
  shows "\<exists>db2 q. create_execution_with_request now' j k (Some key) m' rq' db1 =
      (db2, Inr (res\<lparr>cre_created := False\<rparr>)) \<and>
    length (session_executions db2) = length (session_executions db1) \<and>
    execution_request db1 (exe_execution_id (cre_execution res)) = Inr q \<and>
    execution_request db2 (exe_execution_id (cre_execution res)) = Inr (if q = empty_object then rq' else q)"
proof -
  let ?n = "new_execution_row now' j k (Some key) m' rq'"
  let ?u = "upd_executions (conflict_p ?n) (conflict_f ?n) db1"
  have inv1: "store_inv db1" using create_execution_ops_inv(1) [OF inv, of now i k "Some key" m rq] first by simp
  obtain r where r: "r \<in> set (session_executions db1)" "x_thread_key r = k" "x_idempotency_key r = Some key"
    "execution_of_row r = Inr (cre_execution res)" using created_row [OF inv first] .
  have c: "conflict_p ?n r" using r by (simp add: conflict_p_def idempotency_key_def)
  have i: "x_execution_id r = exe_execution_id (cre_execution res)"
    using execution_of_row_columns(1) [OF r(4)] by simp
  have "x_execution_id r \<noteq> j" using fresh r(1) by auto
  then have res: "create_result j (conflict_f ?n r) = Inr (res\<lparr>cre_created := False\<rparr>)"
    using r(4) c by (simp add: create_result_def) (simp add: conflict_f_def)
  have "insert_execution ?n db1 = Inr ?u" using r(1) c by (auto simp: insert_execution_def)
  then have cr: "create_execution_with_request now' j k (Some key) m' rq' db1 =
      (fst ?u, Inr (res\<lparr>cre_created := False\<rparr>))"
    using conflict_row [OF inv1 r(1) c] res
    by (simp add: create_execution_with_request_def case_prod_beta fetch_one_def)
  have row: "row_by x_execution_id (x_execution_id r) (session_executions db1) = Some r"
    using execution_row_in [OF inv1] r(1) by simp
  then have "row_by x_execution_id (x_execution_id r) (session_executions (fst ?u)) = Some (conflict_f ?n r)"
    using c by (simp add: conflict.row_after)
  moreover have "length (session_executions (fst ?u)) = length (session_executions db1)"
    by (simp add: sql_update_def)
  ultimately show ?thesis
    using cr row i by (auto simp: execution_request_def) (simp_all add: conflict_f_def)
qed


end
