(* ===== verification/Store_Events.thy ===== *)
theory Store_Events
  imports Store_Executions
begin

text \<open>
  \<^verbatim>\<open>crates/centaur-session-sqlx/src/lib.rs\<close>, the \<^verbatim>\<open>session_events\<close> table: appending
  events (guarded by stdout ownership or by recency), paging through them with a cursor, and deleting
  old output; and \<^verbatim>\<open>crates/centaur-session-runtime/src/retention.rs\<close>, the sweep that does so in batches.

  An identity value that a failed insert has drawn stays used. \<open>secs\<close> stands for the interval
  PostgreSQL makes of a duration passed as a floating-point number of seconds.
\<close>

section \<open>Appending\<close>

definition use_event_id :: "db \<Rightarrow> db" where
  "use_event_id db = db\<lparr>next_event_id := next_event_id db + 1\<rparr>"

definition new_event_row :: "time \<Rightarrow> int \<Rightarrow> string \<Rightarrow> string option \<Rightarrow> string \<Rightarrow> json \<Rightarrow> event_row" where
  "new_event_row now event_id thread_key execution_id event_type payload =
     \<lparr>e_event_id = event_id, e_thread_key = thread_key, e_execution_id = execution_id,
      e_event_type = event_type, e_payload = payload, e_created_at = now\<rparr>"

definition insert_session_event ::
  "time \<Rightarrow> string \<Rightarrow> string option \<Rightarrow> string \<Rightarrow> json \<Rightarrow> db \<Rightarrow> db \<times> event_row store_result" where
  "insert_session_event now thread_key execution_id event_type payload db =
     (let row = new_event_row now (next_event_id db) thread_key execution_id event_type payload;
          db' = use_event_id db
      in if \<not> has_session db thread_key
         then (db', Inl (Sqlx (ForeignKeyViolation ''session_events_thread_key_fkey'')))
         else if \<not> (case execution_id of None \<Rightarrow> True | Some x \<Rightarrow> has_execution db x)
         then (db', Inl (Sqlx (ForeignKeyViolation ''session_events_execution_id_fkey'')))
         else (db'\<lparr>session_events := session_events db @ [row]\<rparr>, Inr row))"

definition append_event ::
  "time \<Rightarrow> string \<Rightarrow> string option \<Rightarrow> string \<Rightarrow> json \<Rightarrow> db \<Rightarrow> db \<times> SessionEvent store_result" where
  "append_event now thread_key execution_id event_type payload db =
     (let (db', r) = insert_session_event now thread_key execution_id event_type payload db
      in (db', res_bind r event_of_row))"

definition recent_event :: "time \<Rightarrow> int \<Rightarrow> string \<Rightarrow> string \<Rightarrow> event_row \<Rightarrow> bool" where
  "recent_event clock interval execution_id event_type r \<longleftrightarrow>
     e_execution_id r = Some execution_id \<and> e_event_type r = event_type \<and> clock - interval < e_created_at r"

text \<open>\<open>now\<close> is the start of the transaction, \<open>clock\<close> the \<^verbatim>\<open>clock_timestamp()\<close> of the check.\<close>

definition append_active_execution_event_unless_recent ::
  "(duration \<Rightarrow> int) \<Rightarrow> time \<Rightarrow> time \<Rightarrow> string \<Rightarrow> string \<Rightarrow> string \<Rightarrow> json \<Rightarrow> duration \<Rightarrow> db \<Rightarrow>
     db \<times> SessionEvent option store_result" where
  "append_active_execution_event_unless_recent secs now clock thread_key execution_id event_type payload within db =
     (if (\<exists>x \<in> set (session_executions db).
            x_execution_id x = execution_id \<and> x_thread_key x = thread_key \<and> active x) \<and>
         \<not> (\<exists>r \<in> set (session_events db). recent_event clock (secs within) execution_id event_type r)
      then let (db', r) = insert_session_event now thread_key (Some execution_id) event_type payload db
           in (db', res_bind r (\<lambda>row. res_map Some (event_of_row row)))
      else (db, Inr None))"

definition append_owner_p :: "string \<Rightarrow> string \<Rightarrow> string \<Rightarrow> execution_row \<Rightarrow> bool" where
  "append_owner_p execution_id owner_id thread_key r \<longleftrightarrow>
     active_owned_p execution_id owner_id r \<and> x_thread_key r = thread_key"

text \<open>One transaction: a failed insert rolls the lease back (the drawn event id stays used).\<close>

definition append_event_if_stdout_owner ::
  "time \<Rightarrow> time \<Rightarrow> string \<Rightarrow> string \<Rightarrow> string \<Rightarrow> duration \<Rightarrow> string \<Rightarrow> json \<Rightarrow> db \<Rightarrow>
     db \<times> SessionEvent option store_result" where
  "append_event_if_stdout_owner clock now thread_key execution_id owner_id lease event_type payload db =
     (case stdout_lease_expires_at clock lease of
        Inl e \<Rightarrow> (db, Inl e)
      | Inr t \<Rightarrow>
          let (db1, rows) = upd_executions (append_owner_p execution_id owner_id thread_key) (renew_f now t) db in
          if rows = [] then (db1, Inr None)
          else case insert_session_event now thread_key (Some execution_id) event_type payload db1 of
                 (db2, Inl e) \<Rightarrow> (use_event_id db, Inl e)
               | (db2, Inr row) \<Rightarrow> (db2, res_map Some (event_of_row row)))"

section \<open>Reading\<close>

definition events_after :: "db \<Rightarrow> string \<Rightarrow> int \<Rightarrow> string option \<Rightarrow> event_row list" where
  "events_after db thread_key after_event_id execution_id =
     order_by e_event_id
       (filter (\<lambda>r. e_thread_key r = thread_key \<and> after_event_id < e_event_id r \<and>
                    (execution_id = None \<or> e_execution_id r = execution_id)) (session_events db))"

definition list_events_after ::
  "db \<Rightarrow> string \<Rightarrow> int \<Rightarrow> string option \<Rightarrow> nat \<Rightarrow> SessionEvent list store_result" where
  "list_events_after db thread_key after_event_id execution_id limit =
     collect_results (map event_of_row (take limit (events_after db thread_key after_event_id execution_id)))"

definition execution_event_exists :: "db \<Rightarrow> string \<Rightarrow> string \<Rightarrow> bool" where
  "execution_event_exists db execution_id event_type \<longleftrightarrow>
     (\<exists>r \<in> set (session_events db). e_execution_id r = Some execution_id \<and> e_event_type r = event_type)"

section \<open>Retention\<close>

definition output_line :: string where "output_line = ''session.output.line''"

definition execution_completed_before :: "db \<Rightarrow> time \<Rightarrow> string \<Rightarrow> bool" where
  "execution_completed_before db cutoff x =
     (case Option.bind (row_by x_execution_id x (session_executions db)) x_completed_at of
        None \<Rightarrow> False | Some t \<Rightarrow> t < cutoff)"

definition retention_eligible :: "db \<Rightarrow> time \<Rightarrow> event_row \<Rightarrow> bool" where
  "retention_eligible db cutoff r \<longleftrightarrow>
     e_created_at r < cutoff \<and> e_event_type r = output_line \<and>
     (case e_execution_id r of None \<Rightarrow> True | Some x \<Rightarrow> execution_completed_before db cutoff x)"

text \<open>\<open>locked\<close>: the events other transactions have locked, which \<^verbatim>\<open>skip locked\<close> passes over.\<close>

definition doomed_events :: "(int \<Rightarrow> bool) \<Rightarrow> time \<Rightarrow> nat \<Rightarrow> db \<Rightarrow> event_row list" where
  "doomed_events locked cutoff batch_limit db =
     take batch_limit (order_by e_created_at
       (filter (\<lambda>r. retention_eligible db cutoff r \<and> \<not> locked (e_event_id r)) (session_events db)))"

text \<open>A cutoff outside the years -9999 to 9999 panics in the conversion to a date.\<close>

definition MIN_OFFSET_DATE_TIME :: time where
  "MIN_OFFSET_DATE_TIME = -377705116800000000000"

definition delete_stdout_events_older_than ::
  "(int \<Rightarrow> bool) \<Rightarrow> time \<Rightarrow> nat \<Rightarrow> db \<Rightarrow> db \<times> nat store_result" where
  "delete_stdout_events_older_than locked cutoff batch_limit db =
     (if cutoff < MIN_OFFSET_DATE_TIME \<or> MAX_OFFSET_DATE_TIME < cutoff
      then (db, Inl (Panic ''resulting value is out of range''))
      else let doomed = e_event_id ` set (doomed_events locked (pg_timestamp cutoff) batch_limit db)
           in (db\<lparr>session_events := filter (\<lambda>r. e_event_id r \<notin> doomed) (session_events db)\<rparr>,
               Inr (length (filter (\<lambda>r. e_event_id r \<in> doomed) (session_events db)))))"

text \<open>
  \<^verbatim>\<open>SessionEventRetentionWorker::sweep_once\<close>: up to twenty batches of 5000 rows, ended by the first short
  one. \<open>locked n\<close> is the set of locked events while batch \<open>n\<close> runs.
\<close>

definition EVENT_RETENTION_BATCH_ROWS :: nat where "EVENT_RETENTION_BATCH_ROWS = 5000"
definition EVENT_RETENTION_MAX_BATCHES :: nat where "EVENT_RETENTION_MAX_BATCHES = 20"

fun sweep_batches ::
  "(nat \<Rightarrow> int \<Rightarrow> bool) \<Rightarrow> time \<Rightarrow> nat \<Rightarrow> nat \<Rightarrow> nat \<Rightarrow> db \<Rightarrow> db \<times> nat store_result" where
  "sweep_batches locked cutoff rows 0 deleted_events db = (db, Inr deleted_events)"
| "sweep_batches locked cutoff rows (Suc n) deleted_events db =
     (case delete_stdout_events_older_than (locked n) cutoff rows db of
        (db1, Inl e) \<Rightarrow> (db1, Inl e)
      | (db1, Inr deleted) \<Rightarrow>
          if deleted < rows then (db1, Inr (deleted_events + deleted))
          else sweep_batches locked cutoff rows n (deleted_events + deleted) db1)"

text \<open>\<^verbatim>\<open>SystemTime::checked_sub\<close>: the seconds are an \<^verbatim>\<open>i64\<close>.\<close>

definition checked_sub :: "time \<Rightarrow> duration \<Rightarrow> time option" where
  "checked_sub t d = (if t - int d < - (2 ^ 63) * 10 ^ 9 then None else Some (t - int d))"

definition sweep_once ::
  "bool \<Rightarrow> (nat \<Rightarrow> int \<Rightarrow> bool) \<Rightarrow> time \<Rightarrow> duration \<Rightarrow> db \<Rightarrow> db \<times> nat store_result" where
  "sweep_once index_is_valid locked clock retention db =
     (if \<not> index_is_valid then (db, Inr 0)
      else case checked_sub clock retention of
             None \<Rightarrow> (db, Inr 0)
           | Some cutoff \<Rightarrow>
               sweep_batches locked cutoff EVENT_RETENTION_BATCH_ROWS EVENT_RETENTION_MAX_BATCHES 0 db)"

lemmas event_defs [store_defs] = append_owner_p_def

section \<open>The event log\<close>

lemma use_event_id_simps [simp]:
  "sessions (use_event_id db) = sessions db" "session_messages (use_event_id db) = session_messages db"
  "session_executions (use_event_id db) = session_executions db"
  "session_events (use_event_id db) = session_events db"
  "session_warm_sandboxes (use_event_id db) = session_warm_sandboxes db"
  "next_event_id (use_event_id db) = next_event_id db + 1"
  by (simp_all add: use_event_id_def)

lemma use_event_id_inv: "store_inv db \<Longrightarrow> store_inv (use_event_id db)"
  by (auto simp: store_inv_def Let_def events_inv_def)

lemma new_event_columns [simp]:
  "e_event_id (new_event_row now i k x ty pl) = i" "e_thread_key (new_event_row now i k x ty pl) = k"
  "e_execution_id (new_event_row now i k x ty pl) = x" "e_event_type (new_event_row now i k x ty pl) = ty"
  "e_created_at (new_event_row now i k x ty pl) = now" "e_payload (new_event_row now i k x ty pl) = pl"
  by (simp_all add: new_event_row_def)

lemma inv_append_event:
  assumes "store_inv db" and "has_session db k" and "case x of None \<Rightarrow> True | Some y \<Rightarrow> has_execution db y"
  shows "store_inv ((use_event_id db)\<lparr>session_events := session_events db @ [new_event_row now (next_event_id db) k x ty pl]\<rparr>)"
proof -
  have "events_inv (s_thread_key ` set (sessions db)) (x_execution_id ` set (session_executions db)) (next_event_id db + 1)
      (session_events db @ [new_event_row now (next_event_id db) k x ty pl])"
    using assms
    by (auto simp: store_inv_def Let_def events_inv_def sorted_wrt_append has_session_def has_execution_def
        split: option.splits)
  then show ?thesis using assms(1) by (simp add: store_inv_def Let_def)
qed

lemma insert_session_event_inv:
  "store_inv db \<Longrightarrow> store_inv (fst (insert_session_event now k x ty pl db))"
  by (auto simp: insert_session_event_def Let_def use_event_id_inv intro: inv_append_event)

lemma insert_event_ok:
  assumes "has_session db k" and "case x of None \<Rightarrow> True | Some y \<Rightarrow> has_execution db y"
  shows "insert_session_event now k x ty pl db =
    ((use_event_id db)\<lparr>session_events := session_events db @ [new_event_row now (next_event_id db) k x ty pl]\<rparr>,
     Inr (new_event_row now (next_event_id db) k x ty pl))"
  using assms by (auto simp: insert_session_event_def Let_def split: option.splits)

interpretation append_owner: exec_update "append_owner_p i ow k" "renew_f now t" for i ow k now t
  by unfold_locales (auto simp: store_defs active_def owner_leased_def)

lemma event_append_ops_inv [keep]:
  assumes "store_inv db"
  shows "store_inv (fst (append_event now k x ty pl db))"
    and "store_inv (fst (append_active_execution_event_unless_recent secs now clock k i ty pl within db))"
    and "store_inv (fst (append_event_if_stdout_owner clock now k i ow lease ty pl db))"
proof -
  show "store_inv (fst (append_event now k x ty pl db))"
    using insert_session_event_inv [OF assms] by (simp add: append_event_def case_prod_beta)
  show "store_inv (fst (append_active_execution_event_unless_recent secs now clock k i ty pl within db))"
    using insert_session_event_inv [OF assms] assms
    by (simp add: append_active_execution_event_unless_recent_def case_prod_beta)
  have "store_inv (fst (insert_session_event now k (Some i) ty pl
      (fst (upd_executions (append_owner_p i ow k) (renew_f now t) db))))" for t
    by (rule insert_session_event_inv) (rule append_owner.inv_kept [OF assms])
  then show "store_inv (fst (append_event_if_stdout_owner clock now k i ow lease ty pl db))"
    using append_owner.inv_kept [OF assms] use_event_id_inv [OF assms] assms
    by (auto simp: append_event_if_stdout_owner_def case_prod_beta split: sum.splits)
qed

lemma event_decodes:
  assumes "store_inv db" and "r \<in> set (session_events db)"
  obtains e where "event_of_row r = Inr e" and "ev_event_id e = e_event_id r"
    and "ev_execution_id e = e_execution_id r" and "ev_event_type e = e_event_type r"
proof -
  obtain s where "s \<in> set (sessions db)" "s_thread_key s = e_thread_key r"
    using assms by (auto simp: store_inv_def Let_def events_inv_def)
  then have "thread_key_parse (e_thread_key r) = Inr (e_thread_key r)"
    using assms(1) by (auto simp: store_inv_def Let_def sessions_inv_def session_ok_def)
  then show thesis using that by (auto simp: event_of_row_def parse_persisted_key_def)
qed


text \<open>
  Output is fenced by ownership: \<^verbatim>\<open>append_event_if_stdout_owner\<close> appends the event, under the next
  event id and with the lease renewed, exactly when the execution is active, on that thread and owned by
  the caller; otherwise it appends nothing and leaves the database as it was.
\<close>

lemma fenced_append:
  assumes inv: "store_inv db" and lease: "stdout_lease_expires_at clock lease = Inr t"
  shows "(case row_by x_execution_id i (session_executions db) of
      Some r \<Rightarrow> if active r \<and> x_stdout_owner_id r = Some ow \<and> x_thread_key r = k
        then \<exists>e db'. append_event_if_stdout_owner clock now k i ow lease ty pl db = (db', Inr (Some e)) \<and>
          ev_event_id e = next_event_id db \<and> ev_execution_id e = Some i \<and> ev_event_type e = ty \<and>
          session_events db' = session_events db @ [new_event_row now (next_event_id db) k (Some i) ty pl] \<and>
          lock_of db' i = Some (ow, pg_timestamp t)
        else append_event_if_stdout_owner clock now k i ow lease ty pl db = (db, Inr None)
    | None \<Rightarrow> append_event_if_stdout_owner clock now k i ow lease ty pl db = (db, Inr None))"
proof -
  let ?p = "append_owner_p i ow k" and ?f = "renew_f now t"
  have key: "\<And>r. ?p r \<Longrightarrow> x_execution_id r = i" by (simp add: store_defs)
  have none: "append_event_if_stdout_owner clock now k i ow lease ty pl db = (db, Inr None)"
    if "case row_by x_execution_id i (session_executions db) of None \<Rightarrow> True | Some r \<Rightarrow> \<not> ?p r"
    using append_owner.unmatched [OF inv key that] lease by (simp add: append_event_if_stdout_owner_def)
  show ?thesis
  proof (cases "row_by x_execution_id i (session_executions db)")
    case None
    then show ?thesis using none by simp
  next
    case (Some r)
    note r = row_by_Some [OF Some]
    show ?thesis
    proof (cases "?p r")
      case False
      then show ?thesis using Some none r by (auto simp: store_defs)
    next
      case True
      let ?db1 = "fst (upd_executions ?p ?f db)"
      let ?row = "new_event_row now (next_event_id db) k (Some i) ty pl"
      let ?db2 = "(use_event_id ?db1)\<lparr>session_events := session_events db @ [?row]\<rparr>"
      have rows: "snd (sql_update ?p ?f (session_executions db)) = [?f r]"
        using append_owner.returned_row [OF inv key] Some True by simp
      have "has_session ?db1 k" "has_execution ?db1 i"
        using inv r True
        by (auto simp: has_session_def has_execution_def store_inv_def Let_def executions_inv_def
            append_owner_p_def append_owner.key_set_kept)
      then have ins: "insert_session_event now k (Some i) ty pl ?db1 = (?db2, Inr ?row)"
        using insert_event_ok [of ?db1 k "Some i"] by simp
      have inv2: "store_inv ?db2"
        using insert_session_event_inv [OF append_owner.inv_kept [OF inv, of i ow k now t], of now k "Some i" ty pl] ins
        by simp
      obtain e where e: "event_of_row ?row = Inr e" "ev_event_id e = next_event_id db"
        "ev_execution_id e = Some i" "ev_event_type e = ty"
        using event_decodes [OF inv2, of ?row] by auto
      have "append_event_if_stdout_owner clock now k i ow lease ty pl db = (?db2, Inr (Some e))"
        using lease rows ins e(1) by (simp add: append_event_if_stdout_owner_def case_prod_beta)
      moreover have "lock_of ?db2 i = Some (ow, pg_timestamp t)"
        using Some True by (simp add: lock_of_def append_owner.row_after row_lock_def renew_f_def store_defs)
      ultimately show ?thesis using Some True e(2-) by (simp add: store_defs)
    qed
  qed
qed

lemma sorted_events: "store_inv db \<Longrightarrow> events_after db k a x =
    filter (\<lambda>r. e_thread_key r = k \<and> a < e_event_id r \<and> (x = None \<or> e_execution_id r = x)) (session_events db)"
proof -
  assume "store_inv db"
  then have "sorted (map e_event_id (session_events db))"
    by (auto simp: store_inv_def Let_def events_inv_def sorted_wrt_map elim: sorted_wrt_mono_rel [rotated])
  then have "sorted (map e_event_id (filter P (session_events db)))" for P
    by (rule sorted_filter)
  then show ?thesis unfolding events_after_def order_by_def by (rule sort_key_id_if_sorted)
qed

lemma events_after_split:
  assumes "store_inv db" and "events_after db k a x = xs @ r # ys"
  shows "events_after db k (e_event_id r) x = ys"
proof -
  let ?P = "\<lambda>r. e_thread_key r = k \<and> (x = None \<or> e_execution_id r = x)"
  have s: "sorted_wrt (\<lambda>a b. e_event_id a < e_event_id b) (events_after db k a x)"
    using assms(1) by (simp add: sorted_events [OF assms(1)] sorted_wrt_filter store_inv_def Let_def events_inv_def)
  have "r \<in> set (events_after db k a x)" by (simp add: assms(2))
  then have a: "a < e_event_id r" by (simp add: sorted_events [OF assms(1)])
  have "events_after db k (e_event_id r) x = filter (\<lambda>r'. e_event_id r < e_event_id r') (events_after db k a x)"
    using a by (simp add: sorted_events [OF assms(1)]) (rule filter_cong, auto)
  also have "\<dots> = ys" using s unfolding assms(2) by (auto simp: sorted_wrt_append filter_empty_conv intro: filter_all)
  finally show ?thesis .
qed


lemma list_events_decoded:
  assumes "store_inv db"
  shows "list_events_after db k a x n = Inr (map (\<lambda>r. projr (event_of_row r)) (take n (events_after db k a x)))"
proof -
  have "\<exists>e. event_of_row r = Inr e" if "r \<in> set (take n (events_after db k a x))" for r
  proof -
    have "r \<in> set (session_events db)"
      using that in_set_takeD by (fastforce simp: events_after_def)
    then show ?thesis using event_decodes [OF assms] by blast
  qed
  then show ?thesis unfolding list_events_after_def by (intro collect_results_all_ok) (metis sum.sel(2))
qed

lemma event_id_decoded:
  assumes "store_inv db" and "r \<in> set (events_after db k a x)"
  shows "ev_event_id (projr (event_of_row r)) = e_event_id r"
proof -
  have "r \<in> set (session_events db)" using assms(2) by (simp add: events_after_def)
  then obtain e where "event_of_row r = Inr e" "ev_event_id e = e_event_id r" by (rule event_decodes [OF assms(1)])
  then show ?thesis by simp
qed

text \<open>
  Cursor paging loses and repeats nothing: a page holds the first events after the cursor, in
  increasing order of event id, and reading on from the last id of a page continues exactly where it
  ended. A short page is the end.
\<close>

lemma paging_complete:
  assumes inv: "store_inv db"
  shows "\<exists>es. list_events_after db k a x n = Inr es \<and> length es \<le> n \<and>
    sorted_wrt (<) (map ev_event_id es) \<and> (\<forall>e \<in> set es. a < ev_event_id e) \<and>
    (\<forall>m. es \<noteq> [] \<longrightarrow> (\<exists>rest. list_events_after db k (ev_event_id (last es)) x m = Inr rest \<and>
      list_events_after db k a x (length es + m) = Inr (es @ rest))) \<and>
    (\<forall>m. length es < n \<longrightarrow> list_events_after db k a x m = Inr (take m es))"
proof -
  let ?L = "events_after db k a x" and ?d = "\<lambda>r. projr (event_of_row r)"
  let ?es = "map ?d (take n ?L)"
  have ids: "ev_event_id (?d r) = e_event_id r" if "r \<in> set ?L" for r using inv that by (rule event_id_decoded)
  have eq: "map ev_event_id ?es = map e_event_id (take n ?L)" using ids by (auto dest: in_set_takeD)
  have "sorted_wrt (\<lambda>a b. e_event_id a < e_event_id b) ?L"
    using inv by (simp add: sorted_events sorted_wrt_filter store_inv_def Let_def events_inv_def)
  then have "sorted_wrt (<) (map e_event_id (take n ?L))" by (simp add: sorted_wrt_map sorted_wrt_take)
  then have sorted: "sorted_wrt (<) (map ev_event_id ?es)" unfolding eq .
  have after: "\<forall>e \<in> set ?es. a < ev_event_id e"
    using ids by (auto dest!: in_set_takeD) (simp add: events_after_def)
  have cont: "\<exists>rest. list_events_after db k (ev_event_id (last ?es)) x m = Inr rest \<and>
      list_events_after db k a x (length ?es + m) = Inr (?es @ rest)" if "?es \<noteq> []" for m
  proof -
    define xs where "xs = butlast (take n ?L)"
    define r where "r = last (take n ?L)"
    have tn: "take n ?L = xs @ [r]" using that by (simp add: xs_def r_def)
    then have L: "?L = xs @ r # drop n ?L" using append_take_drop_id [of n ?L] by simp
    have r: "r \<in> set ?L" by (subst L) simp
    have "last ?es = ?d r" by (simp add: tn)
    then have "list_events_after db k (ev_event_id (last ?es)) x m = Inr (map ?d (take m (drop n ?L)))"
      using ids [OF r] events_after_split [OF inv L] by (simp add: list_events_decoded [OF inv])
    moreover have "take (length ?es + m) ?L = take n ?L @ take m (drop n ?L)"
      by (cases "length ?L \<le> n") (simp_all add: take_add min_def)
    then have "list_events_after db k a x (length ?es + m) = Inr (?es @ map ?d (take m (drop n ?L)))"
      by (simp add: list_events_decoded [OF inv])
    ultimately show ?thesis by blast
  qed
  have "length ?es < n \<Longrightarrow> list_events_after db k a x m = Inr (take m ?es)" for m
    by (simp add: list_events_decoded [OF inv] take_map min_def split: if_splits)
  then show ?thesis using sorted after cont list_events_decoded [OF inv, of k a x n] by (intro exI [of _ ?es]) auto
qed


definition example_event_db :: db where
  "example_event_db = fst (append_event 30 ''api:1'' None ''session.output.line'' JNull example_db)"

lemma example_event_inv: "store_inv example_event_db"
  unfolding example_event_db_def by (intro event_append_ops_inv example_db_inv)

text \<open>
  A progress event is published at most once per window: once it is appended for an execution, every
  further attempt, by whichever replica, returns nothing and changes nothing as long as the window that
  started with the first one's transaction lasts, and so does any attempt on an execution that is not
  active on the thread.
\<close>

theorem published_once_per_window:
  assumes "append_active_execution_event_unless_recent secs now clock k i ty pl w db = (db', Inr (Some e))"
    and "clock' - secs w' < now"
  shows "append_active_execution_event_unless_recent secs now' clock' k' i ty pl' w' db' = (db', Inr None) \<and>
    (\<exists>r \<in> set (session_executions db). x_execution_id r = i \<and> x_thread_key r = k \<and> active r) \<and>
    length (session_events db') = Suc (length (session_events db))"
proof -
  obtain r where ex: "\<exists>r \<in> set (session_executions db). x_execution_id r = i \<and> x_thread_key r = k \<and> active r"
    and ins: "insert_session_event now k (Some i) ty pl db = (db', Inr r)"
    using assms(1)
    by (auto simp: append_active_execution_event_unless_recent_def case_prod_beta split: if_splits)
      (metis prod.collapse)
  have ev: "session_events db' = session_events db @ [new_event_row now (next_event_id db) k (Some i) ty pl]"
    using ins by (auto simp: insert_session_event_def Let_def split: if_splits)
  then have "\<exists>r \<in> set (session_events db'). recent_event clock' (secs w') i ty r"
    using assms(2) by (auto simp: recent_event_def)
  then show ?thesis using ex ev by (simp add: append_active_execution_event_unless_recent_def)
qed

section \<open>Retention sweeps\<close>

lemma events_distinct: "store_inv db \<Longrightarrow> distinct (map e_event_id (session_events db))"
proof -
  assume "store_inv db"
  then have "sorted_wrt (<) (map e_event_id (session_events db))"
    by (simp add: store_inv_def Let_def events_inv_def sorted_wrt_map)
  then show ?thesis by (simp add: strict_sorted_iff)
qed

lemma eligible_frame [simp]: "retention_eligible (db\<lparr>session_events := t\<rparr>) = retention_eligible db"
  by (intro ext) (simp add: retention_eligible_def execution_completed_before_def split: option.split)

lemma doomed_subset:
  "set (doomed_events locked c n db) \<subseteq> set (filter (retention_eligible db c) (session_events db))"
  by (auto simp: doomed_events_def dest!: in_set_takeD)

lemma doomed_length:
  "length (doomed_events locked c n db) =
     min n (length (filter (\<lambda>r. retention_eligible db c r \<and> \<not> locked (e_event_id r)) (session_events db)))"
  by (simp add: doomed_events_def min.commute)

lemma inv_filter_events: "store_inv db \<Longrightarrow> store_inv (db\<lparr>session_events := filter P (session_events db)\<rparr>)"
  by (auto simp: store_inv_def Let_def events_inv_def intro: sorted_wrt_filter)

definition datable :: "time \<Rightarrow> bool" where
  "datable t \<longleftrightarrow> MIN_OFFSET_DATE_TIME \<le> t \<and> t \<le> MAX_OFFSET_DATE_TIME"

lemma delete_batch:
  fixes locked c n db
  defines "D \<equiv> set (doomed_events locked (pg_timestamp c) n db)"
  assumes inv: "store_inv db" and c: "datable c"
  shows "delete_stdout_events_older_than locked c n db =
    (db\<lparr>session_events := filter (\<lambda>r. r \<notin> D) (session_events db)\<rparr>, Inr (length (filter (\<lambda>r. r \<in> D) (session_events db))))"
    and "length (filter (\<lambda>r. r \<in> D) (session_events db)) = length (doomed_events locked (pg_timestamp c) n db)"
proof -
  have sub: "D \<subseteq> set (session_events db)" using doomed_subset D_def by fastforce
  have inj: "inj_on e_event_id (set (session_events db))" using events_distinct [OF inv] by (simp add: distinct_map)
  have mem: "e_event_id r \<in> e_event_id ` D \<longleftrightarrow> r \<in> D" if "r \<in> set (session_events db)" for r
    using that sub inj by (auto simp: inj_on_def)
  then have "filter (\<lambda>r. e_event_id r \<notin> e_event_id ` D) (session_events db) = filter (\<lambda>r. r \<notin> D) (session_events db)"
    "filter (\<lambda>r. e_event_id r \<in> e_event_id ` D) (session_events db) = filter (\<lambda>r. r \<in> D) (session_events db)"
    by (auto intro: filter_cong)
  then show "delete_stdout_events_older_than locked c n db =
    (db\<lparr>session_events := filter (\<lambda>r. r \<notin> D) (session_events db)\<rparr>, Inr (length (filter (\<lambda>r. r \<in> D) (session_events db))))"
    using c unfolding D_def by (simp add: delete_stdout_events_older_than_def datable_def Let_def)
  have d: "distinct (session_events db)" using events_distinct [OF inv] by (simp add: distinct_map)
  then have "distinct (doomed_events locked (pg_timestamp c) n db)"
    by (simp add: doomed_events_def order_by_def)
  then have "length (doomed_events locked (pg_timestamp c) n db) = card D" by (simp add: D_def distinct_card)
  moreover have "set (filter (\<lambda>r. r \<in> D) (session_events db)) = D" using sub by auto
  then have "length (filter (\<lambda>r. r \<in> D) (session_events db)) = card D"
    using d by (metis distinct_card distinct_filter)
  ultimately show "length (filter (\<lambda>r. r \<in> D) (session_events db)) = length (doomed_events locked (pg_timestamp c) n db)"
    by simp
qed

lemma sweep_batches_safe:
  assumes "store_inv db" and "datable c" and "sweep_batches locked c rows n k db = (db', res)"
  shows "\<exists>P deleted. db' = db\<lparr>session_events := filter P (session_events db)\<rparr> \<and>
    (\<forall>r. \<not> P r \<longrightarrow> retention_eligible db (pg_timestamp c) r) \<and> res = Inr (k + deleted) \<and>
    deleted \<le> n * rows \<and> deleted = length (filter (\<lambda>r. \<not> P r) (session_events db))"
  using assms
proof (induction n arbitrary: k db)
  case 0
  then show ?case by (intro exI [of _ "\<lambda>_. True"] exI [of _ 0]) simp
next
  case (Suc n)
  define D where "D = set (doomed_events (locked n) (pg_timestamp c) rows db)"
  let ?db1 = "db\<lparr>session_events := filter (\<lambda>r. r \<notin> D) (session_events db)\<rparr>"
  let ?m = "length (filter (\<lambda>r. r \<in> D) (session_events db))"
  have del: "delete_stdout_events_older_than (locked n) c rows db = (?db1, Inr ?m)" and m: "?m \<le> rows"
    using delete_batch [OF Suc.prems(1,2), of "locked n" rows] unfolding D_def by (simp_all add: doomed_length)
  have D: "\<forall>r. r \<in> D \<longrightarrow> retention_eligible db (pg_timestamp c) r" using doomed_subset D_def by fastforce
  show ?case
  proof (cases "?m < rows")
    case True
    then show ?thesis using Suc.prems(3) del m D
      by (intro exI [of _ "\<lambda>r. r \<notin> D"] exI [of _ ?m]) (auto simp: trans_le_add1)
  next
    case False
    then have "sweep_batches locked c rows n (k + ?m) ?db1 = (db', res)" using Suc.prems(3) del by simp
    from Suc.IH [OF inv_filter_events [OF Suc.prems(1)] Suc.prems(2) this]
    obtain P deleted where P: "db' = ?db1\<lparr>session_events := filter P (session_events ?db1)\<rparr>"
      "\<forall>r. \<not> P r \<longrightarrow> retention_eligible db (pg_timestamp c) r" "res = Inr (k + ?m + deleted)" "deleted \<le> n * rows"
      "deleted = length (filter (\<lambda>r. \<not> P r) (session_events ?db1))" by auto
    have "length (filter (\<lambda>r. \<not> (r \<notin> D \<and> P r)) t) =
        length (filter (\<lambda>r. r \<in> D) t) + length (filter (\<lambda>r. \<not> P r) (filter (\<lambda>r. r \<notin> D) t))" for t
      by (induction t) auto
    then show ?thesis using P D m
      by (intro exI [of _ "\<lambda>r. r \<notin> D \<and> P r"] exI [of _ "?m + deleted"]) (auto simp: conj_commute)
  qed
qed

lemma sweep_batches_drains:
  assumes "store_inv db" and "datable c" and "0 < rows"
    and "length (filter (retention_eligible db (pg_timestamp c)) (session_events db)) \<le> n * rows"
  shows "sweep_batches (\<lambda>_ _. False) c rows n k db =
    (db\<lparr>session_events := filter (\<lambda>r. \<not> retention_eligible db (pg_timestamp c) r) (session_events db)\<rparr>,
     Inr (k + length (filter (retention_eligible db (pg_timestamp c)) (session_events db))))"
  using assms
proof (induction n arbitrary: k db)
  case 0
  then have "\<forall>r \<in> set (session_events db). \<not> retention_eligible db (pg_timestamp c) r"
    by (simp add: filter_empty_conv)
  then have "filter (\<lambda>r. \<not> retention_eligible db (pg_timestamp c) r) (session_events db) = session_events db"
    by (simp add: filter_all)
  with 0 show ?case by simp
next
  case (Suc n)
  let ?E = "retention_eligible db (pg_timestamp c)"
  define D where "D = set (doomed_events (\<lambda>_. False) (pg_timestamp c) rows db)"
  let ?db1 = "db\<lparr>session_events := filter (\<lambda>r. r \<notin> D) (session_events db)\<rparr>"
  let ?m = "length (filter (\<lambda>r. r \<in> D) (session_events db))"
  have del: "delete_stdout_events_older_than (\<lambda>_. False) c rows db = (?db1, Inr ?m)"
    and m: "?m = min rows (length (filter ?E (session_events db)))"
    using delete_batch [OF Suc.prems(1,2), of "\<lambda>_. False" rows] unfolding D_def by (simp_all add: doomed_length)
  have D: "r \<in> D \<Longrightarrow> ?E r" for r using doomed_subset D_def by fastforce
  have split: "length (filter ?E t) = length (filter (\<lambda>r. r \<in> D) t) + length (filter ?E (filter (\<lambda>r. r \<notin> D) t))" for t
    using D by (induction t) auto
  show ?case
  proof (cases "?m < rows")
    case True
    with m have le: "?m = length (filter ?E (session_events db))" by simp
    then have "filter ?E (filter (\<lambda>r. r \<notin> D) (session_events db)) = []"
      using split [of "session_events db"] by simp
    then have "\<forall>r \<in> set (session_events db). r \<in> D \<longleftrightarrow> ?E r" using D by (auto simp: filter_empty_conv)
    then have "filter (\<lambda>r. r \<notin> D) (session_events db) = filter (\<lambda>r. \<not> ?E r) (session_events db)"
      by (intro filter_cong) auto
    then show ?thesis using del True le by simp
  next
    case False
    have "length (filter ?E (session_events ?db1)) \<le> n * rows"
      using Suc.prems(4) split [of "session_events db"] False by simp
    from Suc.IH [OF inv_filter_events [OF Suc.prems(1)] Suc.prems(2,3), of "\<lambda>r. r \<notin> D" "k + ?m"] this
    have "sweep_batches (\<lambda>_ _. False) c rows n (k + ?m) ?db1 =
        (?db1\<lparr>session_events := filter (\<lambda>r. \<not> ?E r) (session_events ?db1)\<rparr>,
         Inr (k + ?m + length (filter ?E (session_events ?db1))))" by simp
    moreover have "filter (\<lambda>r. \<not> ?E r) (session_events ?db1) = filter (\<lambda>r. \<not> ?E r) (session_events db)"
      using D by (auto intro: filter_cong)
    ultimately show ?thesis using del False split [of "session_events db"] by simp
  qed
qed


text \<open>
  Retention is safe: whatever rows are locked meanwhile, a sweep touches only the event table and
  deletes only output lines older than the retention window whose execution, if they have one, ended
  before the window; it keeps everything else in order, reports exactly how many rows it deleted, and
  deletes at most 100000.
\<close>

lemma sweep_deletes_only_expired_output:
  assumes inv: "store_inv db" and sweep: "sweep_once valid locked clock retention db = (db', Inr n)"
  shows "\<exists>P. db' = db\<lparr>session_events := filter P (session_events db)\<rparr> \<and>
    n = length (filter (\<lambda>r. \<not> P r) (session_events db)) \<and> n \<le> 100000 \<and>
    (\<forall>r. \<not> P r \<longrightarrow> e_event_type r = output_line \<and> e_created_at r < pg_timestamp (clock - int retention) \<and>
      (\<forall>x. e_execution_id r = Some x \<longrightarrow> execution_completed_before db (pg_timestamp (clock - int retention)) x))"
proof (cases "valid \<and> checked_sub clock retention \<noteq> None")
  case False
  with sweep have "db' = db" "n = 0" by (auto simp: sweep_once_def split: if_splits)
  then show ?thesis by (intro exI [of _ "\<lambda>_. True"]) simp
next
  case True
  let ?c = "clock - int retention"
  have b: "sweep_batches locked ?c EVENT_RETENTION_BATCH_ROWS EVENT_RETENTION_MAX_BATCHES 0 db = (db', Inr n)"
    using True sweep by (auto simp: sweep_once_def checked_sub_def split: if_splits)
  then have "datable ?c"
    by (auto simp: datable_def EVENT_RETENTION_MAX_BATCHES_def numeral_eq_Suc delete_stdout_events_older_than_def
        split: if_splits)
  from sweep_batches_safe [OF inv this b] obtain P where
    "db' = db\<lparr>session_events := filter P (session_events db)\<rparr>" "\<forall>r. \<not> P r \<longrightarrow> retention_eligible db (pg_timestamp ?c) r"
    "n = length (filter (\<lambda>r. \<not> P r) (session_events db))"
    "n \<le> EVENT_RETENTION_MAX_BATCHES * EVENT_RETENTION_BATCH_ROWS" by auto
  then show ?thesis
    by (intro exI [of _ P])
      (auto simp: retention_eligible_def EVENT_RETENTION_MAX_BATCHES_def EVENT_RETENTION_BATCH_ROWS_def)
qed

text \<open>
  Retention makes progress: with no row locked, a sweep over a backlog of at most 100000 expired
  output lines deletes all of them and reports their number.
\<close>

lemma sweep_drains_backlog:
  assumes inv: "store_inv db" and date: "datable (clock - int retention)"
    and backlog: "length (filter (retention_eligible db (pg_timestamp (clock - int retention))) (session_events db)) \<le> 100000"
  shows "sweep_once True (\<lambda>_ _. False) clock retention db =
    (db\<lparr>session_events :=
        filter (\<lambda>r. \<not> retention_eligible db (pg_timestamp (clock - int retention)) r) (session_events db)\<rparr>,
     Inr (length (filter (retention_eligible db (pg_timestamp (clock - int retention))) (session_events db))))"
proof -
  have "checked_sub clock retention = Some (clock - int retention)"
    using date by (simp add: checked_sub_def datable_def MIN_OFFSET_DATE_TIME_def)
  then show ?thesis
    using sweep_batches_drains [OF inv date, of EVENT_RETENTION_BATCH_ROWS EVENT_RETENTION_MAX_BATCHES 0] backlog
    by (simp add: sweep_once_def EVENT_RETENTION_BATCH_ROWS_def EVENT_RETENTION_MAX_BATCHES_def)
qed

lemma example_event_row:
  "session_events example_event_db = [new_event_row 30 1 ''api:1'' None ''session.output.line'' JNull]"
  using insert_event_ok [OF example_db_has, of None 30 "''session.output.line''" JNull]
  by (simp add: example_event_db_def append_event_def) (simp add: example_db_sessions empty_db_def)

lemma example_cutoff: "datable (3000 - int 500)" "pg_timestamp (3000 - int 500) = 3000"
  by (simp_all add: datable_def MIN_OFFSET_DATE_TIME_def MAX_OFFSET_DATE_TIME_def pg_timestamp_def PG_EPOCH_def)

lemma example_eligible:
  "retention_eligible example_event_db 3000 (new_event_row 30 1 ''api:1'' None ''session.output.line'' JNull)"
  by (simp add: retention_eligible_def output_line_def)

end
