(* ===== verification/Store_Sandboxes.thy ===== *)
theory Store_Sandboxes
  imports Store_Events
begin

text \<open>
  \<^verbatim>\<open>crates/centaur-session-sqlx/src/lib.rs\<close>, the sandboxes of sessions and of the warm pool: finding
  idle, referenced or workflow-owned sandboxes, detaching an idle one, and the claims and evictions
  of the \<^verbatim>\<open>session_warm_sandboxes\<close> table.
\<close>

section \<open>Sandbox queries\<close>

record IdleSandboxCandidate =
  ic_thread_key :: string
  ic_sandbox_id :: string
  ic_execution_id :: string
  ic_idle_timeout :: duration

record SandboxReapState =
  rs_claimed_at :: "time option"
  rs_active_execution_since :: "time option"

record WorkflowOwnedSandbox =
  wo_thread_key :: string
  wo_sandbox_id :: string

record idle_row =
  ir_thread_key :: string
  ir_sandbox_id :: string
  ir_execution_id :: string
  ir_metadata :: json
  ir_last_active_at :: time
  ir_completed_at :: time

definition effective_idle_timeout :: "json \<Rightarrow> duration \<Rightarrow> duration" where
  "effective_idle_timeout metadata idle_backstop =
     (case Option.bind (get_key ''idle_timeout_ms'' metadata) as_u64 of
        Some ms \<Rightarrow> if 0 < ms then ms * 10 ^ 6 else max idle_backstop (10 ^ 6)
      | None \<Rightarrow> max idle_backstop (10 ^ 6))"

definition idle_deadline_elapsed :: "time \<Rightarrow> duration \<Rightarrow> time \<Rightarrow> bool" where
  "idle_deadline_elapsed completed_at idle_timeout now \<longleftrightarrow>
     \<not> now - completed_at < 0 \<and> int idle_timeout \<le> now - completed_at"

definition idle_candidate_from_row :: "duration \<Rightarrow> time \<Rightarrow> idle_row \<Rightarrow> IdleSandboxCandidate option store_result" where
  "idle_candidate_from_row idle_backstop now row =
     (let idle_timeout = effective_idle_timeout (ir_metadata row) idle_backstop in
      if \<not> idle_deadline_elapsed (ir_last_active_at row) idle_timeout now then Inr None
      else res_map (\<lambda>k. Some \<lparr>ic_thread_key = k, ic_sandbox_id = ir_sandbox_id row,
                               ic_execution_id = ir_execution_id row, ic_idle_timeout = idle_timeout\<rparr>)
             (parse_persisted_key (ir_thread_key row)))"

definition thread_executions :: "db \<Rightarrow> string \<Rightarrow> execution_row list" where
  "thread_executions db k = filter (\<lambda>r. x_thread_key r = k) (session_executions db)"

definition idle_row_of :: "db \<Rightarrow> session_row \<Rightarrow> idle_row option" where
  "idle_row_of db s =
     (case (s_sandbox_id s, newest (thread_executions db (s_thread_key s))) of
        (Some sb, Some latest) \<Rightarrow>
          if x_status latest \<in> set (map execution_status_as_ref [Completed, Failed, Cancelled]) \<and>
             \<not> (\<exists>r \<in> set (thread_executions db (s_thread_key s)). active r)
          then map_option (\<lambda>completed_at.
                 \<lparr>ir_thread_key = s_thread_key s, ir_sandbox_id = sb, ir_execution_id = x_execution_id latest,
                  ir_metadata = x_metadata latest,
                  ir_last_active_at =
                    (case s_sandbox_last_active_at s of None \<Rightarrow> completed_at | Some t \<Rightarrow> max t completed_at),
                  ir_completed_at = completed_at\<rparr>) (x_completed_at latest)
          else None
      | _ \<Rightarrow> None)"

text \<open>\<^verbatim>\<open>filter_map(.. transpose()).collect()\<close>: rows that are not due are dropped, an error ends it.\<close>

fun collect_some :: "'a option store_result list \<Rightarrow> 'a list store_result" where
  "collect_some [] = Inr []"
| "collect_some (Inl e # rs) = Inl e"
| "collect_some (Inr None # rs) = collect_some rs"
| "collect_some (Inr (Some x) # rs) = res_map (Cons x) (collect_some rs)"

definition list_idle_sandbox_candidates ::
  "time \<Rightarrow> duration \<Rightarrow> db \<Rightarrow> IdleSandboxCandidate list store_result" where
  "list_idle_sandbox_candidates now idle_backstop db =
     collect_some (map (idle_candidate_from_row idle_backstop now)
       (order_by (\<lambda>r. (ir_completed_at r, ir_thread_key r)) (List.map_filter (idle_row_of db) (sessions db))))"

definition workflow_owned :: "session_row \<Rightarrow> bool" where
  "workflow_owned s \<longleftrightarrow> get_text ''workflow_owned_thread'' (s_metadata s) = Some ''true''"

definition list_workflow_owned_sandboxes :: "db \<Rightarrow> string \<Rightarrow> WorkflowOwnedSandbox list store_result" where
  "list_workflow_owned_sandboxes db workflow_run_id =
     collect_results (map (\<lambda>s. res_map (\<lambda>k. \<lparr>wo_thread_key = k, wo_sandbox_id = the (s_sandbox_id s)\<rparr>)
         (parse_persisted_key (s_thread_key s)))
       (order_by s_thread_key
         (filter (\<lambda>s. s_sandbox_id s \<noteq> None \<and> workflow_owned s \<and>
                      get_text ''workflow_run_id'' (s_metadata s) = Some workflow_run_id) (sessions db))))"

text \<open>\<^verbatim>\<open>union\<close> removes duplicates.\<close>

definition list_referenced_sandbox_ids :: "db \<Rightarrow> string list" where
  "list_referenced_sandbox_ids db =
     remdups (List.map_filter s_sandbox_id (sessions db) @
       map w_sandbox_id (filter (\<lambda>w. w_status w \<in> {''ready'', ''claimed'', ''evicting''}) (session_warm_sandboxes db)))"

definition sandbox_is_idle_for_drain :: "db \<Rightarrow> string \<Rightarrow> bool" where
  "sandbox_is_idle_for_drain db sandbox_id \<longleftrightarrow>
     (\<exists>s \<in> set (sessions db). s_sandbox_id s = Some sandbox_id \<and>
        \<not> (\<exists>r \<in> set (thread_executions db (s_thread_key s)). active r)) \<or>
     (\<exists>w \<in> set (session_warm_sandboxes db). w_sandbox_id w = sandbox_id \<and> w_status w = ''ready'')"

definition active_since :: "db \<Rightarrow> string \<Rightarrow> time list" where
  "active_since db sandbox_id =
     concat (map (\<lambda>s. if s_sandbox_id s = Some sandbox_id
         then map (\<lambda>r. case x_started_at r of Some t \<Rightarrow> t | None \<Rightarrow> x_created_at r)
                (filter active (thread_executions db (s_thread_key s)))
         else []) (sessions db))"

definition sandbox_reap_state :: "db \<Rightarrow> string \<Rightarrow> SandboxReapState" where
  "sandbox_reap_state db sandbox_id =
     \<lparr>rs_claimed_at =
        Option.bind (find (\<lambda>w. w_sandbox_id w = sandbox_id \<and> w_status w = ''claimed'') (session_warm_sandboxes db))
          w_claimed_at,
      rs_active_execution_since = first_row (order_by id (active_since db sandbox_id))\<rparr>"

definition release_warm_f :: "time \<Rightarrow> string \<Rightarrow> warm_row \<Rightarrow> warm_row" where
  "release_warm_f now error w = w\<lparr>w_status := ''failed'', w_last_error := Some error, w_updated_at := now\<rparr>"

definition on_warm :: "string \<Rightarrow> warm_row \<Rightarrow> bool" where
  "on_warm sandbox_id w \<longleftrightarrow> w_sandbox_id w = sandbox_id"

definition detach_idle_session_sandbox :: "time \<Rightarrow> string \<Rightarrow> db \<Rightarrow> db \<times> string option store_result" where
  "detach_idle_session_sandbox now thread_key db =
     (case row_by s_thread_key thread_key (sessions db) of
        None \<Rightarrow> (db, Inl (NotFound thread_key))
      | Some s \<Rightarrow>
          if workflow_owned s then (db, Inl (WorkflowOwnedSandbox thread_key))
          else case first_row (filter active (thread_executions db thread_key)) of
            Some r \<Rightarrow> (db, Inl (ExecutionActive thread_key (x_execution_id r)))
          | None \<Rightarrow>
              (case s_sandbox_id s of
                 None \<Rightarrow> (db, Inr None)
               | Some sandbox_id \<Rightarrow>
                   let db1 = fst (upd_sessions (on_thread thread_key) (clear_sandbox_f now) db);
                       db2 = fst (upd_warm (on_warm sandbox_id)
                               (release_warm_f now ''session sandbox released'') db1)
                   in (db2, Inr (Some sandbox_id))))"

section \<open>The warm pool table\<close>

definition new_warm_row :: "time \<Rightarrow> string \<Rightarrow> string \<Rightarrow> warm_row" where
  "new_warm_row now sandbox_id workload_key =
     \<lparr>w_sandbox_id = sandbox_id, w_workload_key = workload_key, w_status = ''ready'',
      w_claimed_thread_key = None, w_created_at = now, w_updated_at = now, w_claimed_at = None,
      w_last_error = None\<rparr>"

definition insert_ready_warm_sandbox :: "time \<Rightarrow> string \<Rightarrow> string \<Rightarrow> db \<Rightarrow> db \<times> unit store_result" where
  "insert_ready_warm_sandbox now sandbox_id workload_key db =
     (if sandbox_id \<in> w_sandbox_id ` set (session_warm_sandboxes db)
      then (db, Inl (Sqlx (UniqueViolation ''session_warm_sandboxes_pkey'')))
      else (db\<lparr>session_warm_sandboxes := session_warm_sandboxes db @ [new_warm_row now sandbox_id workload_key]\<rparr>,
            Inr ()))"

definition ready_p :: "string \<Rightarrow> warm_row \<Rightarrow> bool" where
  "ready_p workload_key w \<longleftrightarrow> w_workload_key w = workload_key \<and> w_status w = ''ready''"

definition count_ready_warm_sandboxes :: "db \<Rightarrow> string \<Rightarrow> int" where
  "count_ready_warm_sandboxes db workload_key =
     int (length (filter (ready_p workload_key) (session_warm_sandboxes db)))"

definition by_age :: "warm_row list \<Rightarrow> warm_row list" where
  "by_age t = order_by (\<lambda>w. (w_created_at w, w_sandbox_id w)) t"

definition list_ready_warm_sandbox_ids :: "db \<Rightarrow> string list" where
  "list_ready_warm_sandbox_ids db =
     map w_sandbox_id (by_age (filter (\<lambda>w. w_status w = ''ready'') (session_warm_sandboxes db)))"

definition list_unclaimable_ready_warm_sandbox_ids ::
  "(duration \<Rightarrow> int) \<Rightarrow> time \<Rightarrow> string list \<Rightarrow> duration \<Rightarrow> db \<Rightarrow> string list" where
  "list_unclaimable_ready_warm_sandbox_ids secs now workload_keys min_age db =
     map w_sandbox_id (by_age (filter (\<lambda>w. w_status w = ''ready'' \<and> w_workload_key w \<notin> set workload_keys \<and>
       w_created_at w \<le> now - secs min_age) (session_warm_sandboxes db)))"

definition claim_warm_f :: "time \<Rightarrow> string \<Rightarrow> warm_row \<Rightarrow> warm_row" where
  "claim_warm_f now thread_key w =
     w\<lparr>w_status := ''claimed'', w_claimed_thread_key := Some thread_key, w_claimed_at := Some now, w_updated_at := now\<rparr>"

text \<open>\<open>locked\<close>: the rows other transactions hold, which \<^verbatim>\<open>skip locked\<close> passes over.\<close>

definition claim_candidate :: "(string \<Rightarrow> bool) \<Rightarrow> string \<Rightarrow> db \<Rightarrow> warm_row option" where
  "claim_candidate locked workload_key db =
     first_row (by_age (filter (\<lambda>w. ready_p workload_key w \<and> \<not> locked (w_sandbox_id w)) (session_warm_sandboxes db)))"

definition claim_ready_warm_sandbox ::
  "(string \<Rightarrow> bool) \<Rightarrow> time \<Rightarrow> string \<Rightarrow> string \<Rightarrow> db \<Rightarrow> db \<times> string option store_result" where
  "claim_ready_warm_sandbox locked now workload_key thread_key db =
     (case claim_candidate locked workload_key db of
        None \<Rightarrow> (db, Inr None)
      | Some w \<Rightarrow>
          if \<not> has_session db thread_key
          then (db, Inl (Sqlx (ForeignKeyViolation ''session_warm_sandboxes_claimed_thread_key_fkey'')))
          else (fst (upd_warm (on_warm (w_sandbox_id w)) (claim_warm_f now thread_key) db), Inr (Some (w_sandbox_id w))))"

definition list_stale_evicting_warm_sandbox_ids :: "(duration \<Rightarrow> int) \<Rightarrow> time \<Rightarrow> duration \<Rightarrow> db \<Rightarrow> string list" where
  "list_stale_evicting_warm_sandbox_ids secs now min_age db =
     map w_sandbox_id (order_by (\<lambda>w. (w_updated_at w, w_sandbox_id w))
       (filter (\<lambda>w. w_status w = ''evicting'' \<and> w_updated_at w \<le> now - secs min_age) (session_warm_sandboxes db)))"

definition mark_warm_sandbox_failed :: "time \<Rightarrow> string \<Rightarrow> string \<Rightarrow> db \<Rightarrow> db" where
  "mark_warm_sandbox_failed now sandbox_id error db =
     fst (upd_warm (on_warm sandbox_id) (release_warm_f now error) db)"

definition evict_p :: "string \<Rightarrow> warm_row \<Rightarrow> bool" where
  "evict_p sandbox_id w \<longleftrightarrow> w_sandbox_id w = sandbox_id \<and> (w_status w = ''ready'' \<or> w_status w = ''claimed'')"

definition evict_f :: "time \<Rightarrow> warm_row \<Rightarrow> warm_row" where
  "evict_f now w =
     w\<lparr>w_status := (if w_status w = ''ready'' then ''evicting'' else w_status w),
       w_updated_at := (if w_status w = ''ready'' then now else w_updated_at w)\<rparr>"

definition evict_unclaimed_warm_sandbox :: "time \<Rightarrow> string \<Rightarrow> db \<Rightarrow> db \<times> bool" where
  "evict_unclaimed_warm_sandbox now sandbox_id db =
     (let (db', rows) = upd_warm (evict_p sandbox_id) (evict_f now) db
      in (db', map_option w_status (first_row rows) \<noteq> Some ''claimed''))"

lemmas warm_statement_defs [store_defs] =
  release_warm_f_def on_warm_def ready_p_def claim_warm_f_def evict_p_def evict_f_def

section \<open>Updates of the warm pool table\<close>

lemma upd_warm_simps [simp]:
  "session_warm_sandboxes (fst (upd_warm p f db)) = fst (sql_update p f (session_warm_sandboxes db))"
  "snd (upd_warm p f db) = snd (sql_update p f (session_warm_sandboxes db))"
  "sessions (fst (upd_warm p f db)) = sessions db"
  "session_messages (fst (upd_warm p f db)) = session_messages db"
  "session_executions (fst (upd_warm p f db)) = session_executions db"
  "session_events (fst (upd_warm p f db)) = session_events db"
  "next_event_id (fst (upd_warm p f db)) = next_event_id db"
  by (simp_all add: upd_warm_def Let_def)

text \<open>The contract of a statement on the pool: ids stay, and a row stays well-formed over the threads \<open>ks\<close>.\<close>

locale warm_update = keyed_update w_sandbox_id p f for p f +
  fixes ks :: "string set"
  assumes ok_kept: "p r \<Longrightarrow> warm_ok ks r \<Longrightarrow> warm_ok ks (f r)"
begin

lemma warm_inv_kept: "warm_inv ks t \<Longrightarrow> warm_inv ks (fst (sql_update p f t))"
  by (auto simp: warm_inv_def in_updated ok_kept)

lemma inv_kept:
  assumes "store_inv db" and "ks = s_thread_key ` set (sessions db)"
  shows "store_inv (fst (upd_warm p f db))"
  using assms warm_inv_kept by (simp add: store_inv_def Let_def)

end

interpretation release_warm: warm_update "on_warm i" "release_warm_f now e" ks for i now e ks
  by unfold_locales (auto simp: store_defs warm_ok_def warm_statuses_def)

interpretation claim_warm: warm_update "on_warm i" "claim_warm_f now k" "insert k ks" for i now k ks
  by unfold_locales (auto simp: store_defs warm_ok_def warm_statuses_def)

interpretation evict_warm: warm_update "evict_p i" "evict_f now" ks for i now ks
  by unfold_locales (auto simp: store_defs warm_ok_def warm_statuses_def)

lemma sandbox_ops_inv [keep]:
  assumes "store_inv db"
  shows "store_inv (fst (insert_ready_warm_sandbox now i wk db))"
    and "store_inv (fst (claim_ready_warm_sandbox locked now wk k db))"
    and "store_inv (mark_warm_sandbox_failed now i e db)"
    and "store_inv (fst (evict_unclaimed_warm_sandbox now i db))"
    and "store_inv (fst (detach_idle_session_sandbox now k db))"
proof -
  have "warm_ok ks (new_warm_row now i wk)" "w_sandbox_id (new_warm_row now i wk) = i" for ks
    by (simp_all add: warm_ok_def new_warm_row_def warm_statuses_def)
  then show "store_inv (fst (insert_ready_warm_sandbox now i wk db))"
    using assms by (auto simp: insert_ready_warm_sandbox_def store_inv_def Let_def warm_inv_def)
  have "insert k (s_thread_key ` set (sessions db)) = s_thread_key ` set (sessions db)" if "has_session db k"
    using that by (auto simp: has_session_def)
  then show "store_inv (fst (claim_ready_warm_sandbox locked now wk k db))"
    using assms claim_warm.inv_kept [OF assms]
    by (auto simp: claim_ready_warm_sandbox_def split: option.split)
  show "store_inv (mark_warm_sandbox_failed now i e db)"
    using release_warm.inv_kept [OF assms] by (simp add: mark_warm_sandbox_failed_def)
  show "store_inv (fst (evict_unclaimed_warm_sandbox now i db))"
    using evict_warm.inv_kept [OF assms] by (simp add: evict_unclaimed_warm_sandbox_def case_prod_beta)
  have "store_inv (fst (upd_warm (on_warm sb) (release_warm_f now e)
      (fst (upd_sessions (on_thread k) (clear_sandbox_f now) db))))" for sb e
    by (rule release_warm.inv_kept [OF detach_sandbox.inv_kept [OF assms] refl])
  then show "store_inv (fst (detach_idle_session_sandbox now k db))"
    using assms by (auto simp: detach_idle_session_sandbox_def Let_def split: option.split)
qed

section \<open>Claims and evictions\<close>

lemma warm_distinct: "store_inv db \<Longrightarrow> distinct (map w_sandbox_id (session_warm_sandboxes db))"
  by (simp add: store_inv_def Let_def warm_inv_def)

definition warm_status :: "db \<Rightarrow> string \<Rightarrow> string option" where
  "warm_status db i = map_option w_status (row_by w_sandbox_id i (session_warm_sandboxes db))"

lemma candidate_row:
  assumes "claim_candidate locked wk db = Some w"
  shows "w \<in> set (session_warm_sandboxes db)" and "ready_p wk w" and "\<not> locked (w_sandbox_id w)"
  using first_row_in [OF assms [unfolded claim_candidate_def]] by (auto simp: by_age_def)

text \<open>
  \<^verbatim>\<open>claim_ready_warm_sandbox\<close> takes the oldest ready sandbox of the workload that no other
  transaction holds, breaking ties by id, marks exactly that row as claimed by the thread, and returns
  nothing only when there is none.
\<close>

theorem warm_claim_oldest:
  assumes inv: "store_inv db" and k: "has_session db k"
  shows "(case claim_ready_warm_sandbox locked now wk k db of (db', res) \<Rightarrow>
    if \<exists>w \<in> set (session_warm_sandboxes db). ready_p wk w \<and> \<not> locked (w_sandbox_id w)
    then \<exists>w \<in> set (session_warm_sandboxes db). ready_p wk w \<and> \<not> locked (w_sandbox_id w) \<and>
      res = Inr (Some (w_sandbox_id w)) \<and>
      (\<forall>w' \<in> set (session_warm_sandboxes db). ready_p wk w' \<and> \<not> locked (w_sandbox_id w') \<longrightarrow>
        (w_created_at w, w_sandbox_id w) \<le> (w_created_at w', w_sandbox_id w')) \<and>
      (\<forall>i. row_by w_sandbox_id i (session_warm_sandboxes db') =
        (if i = w_sandbox_id w then Some (claim_warm_f now k w) else row_by w_sandbox_id i (session_warm_sandboxes db)))
    else db' = db \<and> res = Inr None)"
proof (cases "claim_candidate locked wk db")
  case None
  then have "\<not> (\<exists>w \<in> set (session_warm_sandboxes db). ready_p wk w \<and> \<not> locked (w_sandbox_id w))"
    by (auto simp: claim_candidate_def by_age_def filter_empty_conv)
       (metis (mono_tags, lifting) filter_empty_conv length_0_conv length_order_by)
  then show ?thesis using None by (simp add: claim_ready_warm_sandbox_def)
next
  case (Some w)
  note w = candidate_row [OF Some]
  have least: "(w_created_at w, w_sandbox_id w) \<le> (w_created_at w', w_sandbox_id w')"
    if "w' \<in> set (session_warm_sandboxes db)" "ready_p wk w'" "\<not> locked (w_sandbox_id w')" for w'
    using first_row_least [OF Some [unfolded claim_candidate_def by_age_def], of w'] that by simp
  have row: "row_by w_sandbox_id (w_sandbox_id w) (session_warm_sandboxes db) = Some w"
    using row_by_unique [OF warm_distinct [OF inv]] w(1) by simp
  have "row_by w_sandbox_id i (session_warm_sandboxes (fst (upd_warm (on_warm (w_sandbox_id w)) (claim_warm_f now k) db))) =
      (if i = w_sandbox_id w then Some (claim_warm_f now k w) else row_by w_sandbox_id i (session_warm_sandboxes db))" for i
    using row by (cases "row_by w_sandbox_id i (session_warm_sandboxes db)")
      (auto simp: claim_warm.row_after on_warm_def dest: row_by_Some)
  moreover have ex: "\<exists>w \<in> set (session_warm_sandboxes db). ready_p wk w \<and> \<not> locked (w_sandbox_id w)" using w by blast
  ultimately show ?thesis using w least k Some
    by (simp add: claim_ready_warm_sandbox_def) (rule bexI [of _ w], auto)
qed

datatype warm_op = WClaim "string \<Rightarrow> bool" time string string | WEvict time string

datatype warm_out = Claimed string | NotClaimed | Evicted string | Refused

fun run_warm_op :: "warm_op \<Rightarrow> db \<Rightarrow> db \<times> warm_out" where
  "run_warm_op (WClaim locked now wk k) db =
     (case claim_ready_warm_sandbox locked now wk k db of
        (db', Inr (Some i)) \<Rightarrow> (db', Claimed i) | (db', _) \<Rightarrow> (db', NotClaimed))"
| "run_warm_op (WEvict now i) db =
     (case evict_unclaimed_warm_sandbox now i db of (db', gone) \<Rightarrow> (db', if gone then Evicted i else Refused))"

fun run_warm_ops :: "warm_op list \<Rightarrow> db \<Rightarrow> warm_out list" where
  "run_warm_ops [] db = []"
| "run_warm_ops (op # ops) db = (let (db', out) = run_warm_op op db in out # run_warm_ops ops db')"

lemma run_claim_simps [simp]:
  "fst (run_warm_op (WClaim locked now wk k) db) = fst (claim_ready_warm_sandbox locked now wk k db)"
  "snd (run_warm_op (WClaim locked now wk k) db) = Claimed j \<longleftrightarrow>
     snd (claim_ready_warm_sandbox locked now wk k db) = Inr (Some j)"
  "snd (run_warm_op (WClaim locked now wk k) db) \<noteq> Evicted j"
  by (auto split: prod.splits sum.splits option.splits)

lemma run_evict_simps [simp]:
  "fst (run_warm_op (WEvict now i) db) = fst (evict_unclaimed_warm_sandbox now i db)"
  "snd (run_warm_op (WEvict now i) db) \<noteq> Claimed j"
  "snd (run_warm_op (WEvict now i) db) = Evicted j \<longleftrightarrow> i = j \<and> snd (evict_unclaimed_warm_sandbox now i db)"
  by (auto split: prod.splits)

declare run_warm_op.simps [simp del]

lemma run_warm_op_inv: "store_inv db \<Longrightarrow> store_inv (fst (run_warm_op op db))"
  by (cases op) (simp_all add: sandbox_ops_inv)

lemma evict_result:
  assumes "store_inv db"
  shows "snd (evict_unclaimed_warm_sandbox now i db) \<longleftrightarrow> warm_status db i \<noteq> Some ''claimed''"
    and "warm_status (fst (evict_unclaimed_warm_sandbox now i db)) j =
      (if j = i \<and> warm_status db i = Some ''ready'' then Some ''evicting'' else warm_status db j)"
proof -
  have r: "snd (sql_update (evict_p i) (evict_f now) (session_warm_sandboxes db)) =
      (case row_by w_sandbox_id i (session_warm_sandboxes db) of None \<Rightarrow> [] | Some r \<Rightarrow> if evict_p i r then [evict_f now r] else [])"
    using warm_distinct [OF assms] by (intro evict_warm.returned_keyed) (auto simp: evict_p_def)
  show "snd (evict_unclaimed_warm_sandbox now i db) \<longleftrightarrow> warm_status db i \<noteq> Some ''claimed''"
    by (cases "row_by w_sandbox_id i (session_warm_sandboxes db)")
      (auto simp: evict_unclaimed_warm_sandbox_def case_prod_beta r warm_status_def store_defs dest: row_by_Some)
  show "warm_status (fst (evict_unclaimed_warm_sandbox now i db)) j =
      (if j = i \<and> warm_status db i = Some ''ready'' then Some ''evicting'' else warm_status db j)"
    by (cases "row_by w_sandbox_id j (session_warm_sandboxes db)")
      (auto simp: evict_unclaimed_warm_sandbox_def case_prod_beta evict_warm.row_after warm_status_def store_defs
        dest: row_by_Some)
qed

lemma claim_result:
  assumes "store_inv db"
  shows "snd (claim_ready_warm_sandbox locked now wk k db) = Inr (Some i) \<Longrightarrow> warm_status db i = Some ''ready''"
    and "warm_status (fst (claim_ready_warm_sandbox locked now wk k db)) j =
      (if snd (claim_ready_warm_sandbox locked now wk k db) = Inr (Some j) then Some ''claimed'' else warm_status db j)"
proof -
  show "warm_status db i = Some ''ready''" if res: "snd (claim_ready_warm_sandbox locked now wk k db) = Inr (Some i)"
  proof -
    obtain w where w: "claim_candidate locked wk db = Some w" "w_sandbox_id w = i"
      using res by (auto simp: claim_ready_warm_sandbox_def split: option.splits if_splits)
    then have "row_by w_sandbox_id i (session_warm_sandboxes db) = Some w"
      using row_by_unique [OF warm_distinct [OF assms]] candidate_row(1) by blast
    then show ?thesis using candidate_row(2) [OF w(1)] by (simp add: warm_status_def ready_p_def)
  qed
  show "warm_status (fst (claim_ready_warm_sandbox locked now wk k db)) j =
      (if snd (claim_ready_warm_sandbox locked now wk k db) = Inr (Some j) then Some ''claimed'' else warm_status db j)"
  proof (cases "claim_candidate locked wk db")
    case (Some w)
    then have "row_by w_sandbox_id (w_sandbox_id w) (session_warm_sandboxes db) = Some w"
      using row_by_unique [OF warm_distinct [OF assms]] candidate_row by blast
    then show ?thesis using Some
      by (cases "row_by w_sandbox_id j (session_warm_sandboxes db)")
        (auto simp: claim_ready_warm_sandbox_def warm_status_def claim_warm.row_after store_defs dest: row_by_Some)
  qed (simp add: claim_ready_warm_sandbox_def)
qed


lemma warm_op_status:
  assumes "store_inv db"
  shows "warm_status (fst (run_warm_op op db)) j =
      (if snd (run_warm_op op db) = Claimed j then Some ''claimed''
       else if snd (run_warm_op op db) = Evicted j \<and> warm_status db j = Some ''ready'' then Some ''evicting''
       else warm_status db j)"
    and "snd (run_warm_op op db) = Claimed j \<Longrightarrow> warm_status db j = Some ''ready''"
    and "snd (run_warm_op op db) = Evicted j \<Longrightarrow> warm_status db j \<noteq> Some ''claimed''"
  using claim_result [OF assms] evict_result [OF assms]
  by (cases op; auto)+

lemma claimed_stays:
  "store_inv db \<Longrightarrow> warm_status db j = Some ''claimed'' \<Longrightarrow>
   Claimed j \<notin> set (run_warm_ops ops db) \<and> Evicted j \<notin> set (run_warm_ops ops db)"
proof (induction ops arbitrary: db)
  case (Cons op ops)
  then have "warm_status (fst (run_warm_op op db)) j = Some ''claimed''"
    and "snd (run_warm_op op db) \<noteq> Claimed j" and "snd (run_warm_op op db) \<noteq> Evicted j"
    using warm_op_status [OF Cons.prems(1), of op j] by auto
  then show ?case
    using Cons.IH [OF run_warm_op_inv [OF Cons.prems(1)], of op] by (auto simp: case_prod_beta)
qed simp

lemma gone_stays:
  "store_inv db \<Longrightarrow> warm_status db j \<notin> {Some ''ready'', Some ''claimed''} \<Longrightarrow>
   Claimed j \<notin> set (run_warm_ops ops db)"
proof (induction ops arbitrary: db)
  case (Cons op ops)
  then have "warm_status (fst (run_warm_op op db)) j \<notin> {Some ''ready'', Some ''claimed''}"
    and "snd (run_warm_op op db) \<noteq> Claimed j"
    using warm_op_status [OF Cons.prems(1), of op j] by (auto split: if_splits)
  then show ?case
    using Cons.IH [OF run_warm_op_inv [OF Cons.prems(1)], of op] by (auto simp: case_prod_beta)
qed simp

text \<open>
  C8. A claim and an eviction never both win: in any interleaving of claims and evictions, whatever
  rows are locked, a sandbox handed to a thread is never also reported as safe to reap, and no sandbox
  is handed out twice.
\<close>

theorem claim_evict_exclusive:
  assumes "store_inv db"
  shows "\<not> (Claimed j \<in> set (run_warm_ops ops db) \<and> Evicted j \<in> set (run_warm_ops ops db)) \<and>
    length (filter (\<lambda>out. out = Claimed j) (run_warm_ops ops db)) \<le> 1"
  using assms
proof (induction ops arbitrary: db)
  case (Cons op ops)
  let ?db1 = "fst (run_warm_op op db)" and ?out = "snd (run_warm_op op db)"
  have inv1: "store_inv ?db1" using run_warm_op_inv [OF Cons.prems] .
  note st = warm_op_status [OF Cons.prems, of op j]
  note IH = Cons.IH [OF inv1]
  consider "?out = Claimed j" | "?out = Evicted j" | "?out \<noteq> Claimed j" "?out \<noteq> Evicted j" by blast
  then show ?case
  proof cases
    case 1
    then have "Claimed j \<notin> set (run_warm_ops ops ?db1) \<and> Evicted j \<notin> set (run_warm_ops ops ?db1)"
      using st(1) by (intro claimed_stays [OF inv1]) simp
    then show ?thesis using 1 by (auto simp: case_prod_beta filter_empty_conv)
  next
    case 2
    then have "Claimed j \<notin> set (run_warm_ops ops ?db1)"
      using st(1,3) by (intro gone_stays [OF inv1]) (auto split: if_splits)
    then have "filter (\<lambda>out. out = Claimed j) (run_warm_ops ops ?db1) = []" by (auto simp: filter_empty_conv)
    with 2 \<open>Claimed j \<notin> _\<close> show ?thesis by (simp add: case_prod_beta)
  next
    case 3
    then show ?thesis using IH by (auto simp: case_prod_beta)
  qed
qed simp


definition example_warm_db :: db where
  "example_warm_db = fst (insert_ready_warm_sandbox 6 ''sb-1'' ''wk'' example_db)"

lemma example_warm: "store_inv example_warm_db" "has_session example_warm_db ''api:1''"
  "session_warm_sandboxes example_warm_db = [new_warm_row 6 ''sb-1'' ''wk'']"
proof -
  show "store_inv example_warm_db" unfolding example_warm_db_def by (intro sandbox_ops_inv example_db_inv)
  have n: "session_warm_sandboxes example_db = []" by (simp add: example_db_sessions empty_db_def)
  then show "session_warm_sandboxes example_warm_db = [new_warm_row 6 ''sb-1'' ''wk'']"
    by (simp add: example_warm_db_def insert_ready_warm_sandbox_def)
  show "has_session example_warm_db ''api:1''"
    using n example_db_has by (simp add: example_warm_db_def insert_ready_warm_sandbox_def has_session_def)
qed

theorem claim_evict_exclusive_witness:
  "store_inv example_warm_db \<and>
   \<not> (Claimed ''sb-1'' \<in> set (run_warm_ops [WEvict 9 ''sb-1'', WClaim (\<lambda>_. False) 9 ''wk'' ''api:1''] example_warm_db) \<and>
      Evicted ''sb-1'' \<in> set (run_warm_ops [WEvict 9 ''sb-1'', WClaim (\<lambda>_. False) 9 ''wk'' ''api:1''] example_warm_db))"
  using claim_evict_exclusive [OF example_warm(1), of "''sb-1''" "[WEvict 9 ''sb-1'', WClaim (\<lambda>_. False) 9 ''wk'' ''api:1'']"]
    example_warm(1) by blast

section \<open>Idle sandboxes\<close>

lemma collect_some_ok:
  "(\<And>x. x \<in> set xs \<Longrightarrow> f x = Inr (g x)) \<Longrightarrow> collect_some (map f xs) = Inr (List.map_filter g xs)"
  by (induction xs) (auto split: option.split)

lemma terminal_unless_active:
  assumes "execution_status_from_str (x_status r) \<noteq> None" and "\<not> active r"
  shows "x_status r \<in> set (map execution_status_as_ref [Completed, Failed, Cancelled])"
proof -
  from assms(1) obtain st where st: "execution_status_from_str (x_status r) = Some st" by blast
  then have "x_status r = execution_status_as_ref st"
    by (auto simp: execution_status_from_str_def split: if_splits)
  then show ?thesis using assms(2) by (cases st) (auto simp: active_def)
qed

lemma newest_in: "newest t = Some r \<Longrightarrow> r \<in> set t"
  using first_row_in [of "rev (by_creation t)" r] by (simp add: newest_def by_creation_def)

text \<open>When the thread's sandbox was last in use, for its newest execution.\<close>

definition last_used :: "session_row \<Rightarrow> time \<Rightarrow> time" where
  "last_used s completed_at =
     (case s_sandbox_last_active_at s of None \<Rightarrow> completed_at | Some t \<Rightarrow> max t completed_at)"

definition idle_for :: "db \<Rightarrow> time \<Rightarrow> duration \<Rightarrow> session_row \<Rightarrow> IdleSandboxCandidate \<Rightarrow> bool" where
  "idle_for db now backstop s c \<longleftrightarrow> (\<exists>r completed_at.
     s_thread_key s = ic_thread_key c \<and> s_sandbox_id s = Some (ic_sandbox_id c) \<and>
     newest (thread_executions db (s_thread_key s)) = Some r \<and> x_execution_id r = ic_execution_id c \<and>
     x_completed_at r = Some completed_at \<and> \<not> (\<exists>r' \<in> set (thread_executions db (s_thread_key s)). active r') \<and>
     ic_idle_timeout c = effective_idle_timeout (x_metadata r) backstop \<and>
     int (ic_idle_timeout c) \<le> now - last_used s completed_at)"

definition due_candidate :: "duration \<Rightarrow> time \<Rightarrow> idle_row \<Rightarrow> IdleSandboxCandidate option" where
  "due_candidate backstop now row =
     (if idle_deadline_elapsed (ir_last_active_at row) (effective_idle_timeout (ir_metadata row) backstop) now
      then Some \<lparr>ic_thread_key = ir_thread_key row, ic_sandbox_id = ir_sandbox_id row,
        ic_execution_id = ir_execution_id row, ic_idle_timeout = effective_idle_timeout (ir_metadata row) backstop\<rparr>
      else None)"

lemma idle_row_unfold:
  assumes "store_inv db"
  shows "idle_row_of db s = Some row \<longleftrightarrow> (\<exists>sb r completed_at. s_sandbox_id s = Some sb \<and>
    newest (thread_executions db (s_thread_key s)) = Some r \<and> x_completed_at r = Some completed_at \<and>
    \<not> (\<exists>r' \<in> set (thread_executions db (s_thread_key s)). active r') \<and>
    row = \<lparr>ir_thread_key = s_thread_key s, ir_sandbox_id = sb, ir_execution_id = x_execution_id r,
      ir_metadata = x_metadata r, ir_last_active_at = last_used s completed_at, ir_completed_at = completed_at\<rparr>)"
proof -
  have "x_status r \<in> set (map execution_status_as_ref [Completed, Failed, Cancelled])"
    if n: "newest (thread_executions db (s_thread_key s)) = Some r"
      and a: "\<not> (\<exists>r' \<in> set (thread_executions db (s_thread_key s)). active r')" for r
  proof -
    have "r \<in> set (session_executions db)" "\<not> active r"
      using newest_in [OF n] a by (auto simp: thread_executions_def)
    then show ?thesis
      using assms by (intro terminal_unless_active) (auto simp: store_inv_def Let_def executions_inv_def)
  qed
  then show ?thesis
    by (auto simp: idle_row_of_def last_used_def split: option.splits if_splits)
qed

lemma idle_row_due:
  assumes "store_inv db"
  shows "(\<exists>row. idle_row_of db s = Some row \<and> due_candidate backstop now row = Some c) \<longleftrightarrow> idle_for db now backstop s c"
  by (cases c) (auto simp: idle_row_unfold [OF assms] due_candidate_def idle_for_def idle_deadline_elapsed_def)

text \<open>
  The idle candidates are exactly the sandboxes of sessions with no queued or running execution
  whose newest execution has ended and that have been unused for the timeout that execution asked for
  (the backstop when it asked for none): no busy session is ever listed and no idle one is missed.
\<close>

lemma idle_candidates_exact:
  assumes inv: "store_inv db"
  shows "\<exists>cs. list_idle_sandbox_candidates now backstop db = Inr cs \<and>
    (\<forall>c. c \<in> set cs \<longleftrightarrow> (\<exists>s \<in> set (sessions db). idle_for db now backstop s c))"
proof -
  let ?rows = "order_by (\<lambda>r. (ir_completed_at r, ir_thread_key r)) (List.map_filter (idle_row_of db) (sessions db))"
  have key: "parse_persisted_key (ir_thread_key row) = Inr (ir_thread_key row)" if row: "row \<in> set ?rows" for row
  proof -
    from row obtain s where s: "s \<in> set (sessions db)" "idle_row_of db s = Some row"
      by (auto simp: set_map_filter_iff)
    then have "ir_thread_key row = s_thread_key s" by (auto simp: idle_row_unfold [OF inv])
    then show ?thesis using inv s(1)
      by (auto simp: store_inv_def Let_def sessions_inv_def session_ok_def parse_persisted_key_def)
  qed
  have "list_idle_sandbox_candidates now backstop db = Inr (List.map_filter (due_candidate backstop now) ?rows)"
    unfolding list_idle_sandbox_candidates_def
    by (rule collect_some_ok) (simp add: idle_candidate_from_row_def Let_def due_candidate_def key)
  moreover have "c \<in> set (List.map_filter (due_candidate backstop now) ?rows) \<longleftrightarrow>
      (\<exists>s \<in> set (sessions db). \<exists>row. idle_row_of db s = Some row \<and> due_candidate backstop now row = Some c)" for c
    by (simp add: set_map_filter_iff Bex_def) blast
  ultimately show ?thesis by (simp add: idle_row_due [OF inv])
qed

section \<open>Detaching\<close>

lemma referenced_iff:
  "sb \<in> set (list_referenced_sandbox_ids db) \<longleftrightarrow> (\<exists>t \<in> set (sessions db). s_sandbox_id t = Some sb) \<or>
     (\<exists>w \<in> set (session_warm_sandboxes db). w_sandbox_id w = sb \<and> w_status w \<in> {''ready'', ''claimed'', ''evicting''})"
  by (auto simp: list_referenced_sandbox_ids_def set_map_filter_iff)

text \<open>
  \<^verbatim>\<open>detach_idle_session_sandbox\<close> on every branch: an unknown, workflow-owned or busy session is
  refused and nothing changes; otherwise the session's sandbox, if it has one, is returned, the session no
  longer has it, its pool row has failed, and it is referenced only if another session uses it.
\<close>

theorem detach_idle_result:
  assumes inv: "store_inv db"
  shows "case row_by s_thread_key k (sessions db) of
      None \<Rightarrow> detach_idle_session_sandbox now k db = (db, Inl (NotFound k))
    | Some s \<Rightarrow>
      if workflow_owned s then detach_idle_session_sandbox now k db = (db, Inl (WorkflowOwnedSandbox k))
      else case active_execution_for_thread db k of
        Inr (Some e) \<Rightarrow> detach_idle_session_sandbox now k db = (db, Inl (ExecutionActive k (exe_execution_id e)))
      | Inr None \<Rightarrow> (case s_sandbox_id s of
            None \<Rightarrow> detach_idle_session_sandbox now k db = (db, Inr None)
          | Some sb \<Rightarrow> \<exists>db' s'. detach_idle_session_sandbox now k db = (db', Inr (Some sb)) \<and>
              get_session db' k = Inr s' \<and> ses_sandbox_id s' = None \<and> warm_status db' sb \<in> {None, Some ''failed''} \<and>
              (sb \<in> set (list_referenced_sandbox_ids db') \<longleftrightarrow>
                (\<exists>t \<in> set (sessions db). s_thread_key t \<noteq> k \<and> s_sandbox_id t = Some sb)))
      | Inl e \<Rightarrow> False"
proof (cases "row_by s_thread_key k (sessions db)")
  case None
  then show ?thesis by (simp add: detach_idle_session_sandbox_def)
next
  case (Some s)
  note s = row_by_Some [OF Some]
  show ?thesis
  proof (cases "\<exists>r \<in> set (session_executions db). x_thread_key r = k \<and> active r")
    case True
    then obtain r where r: "r \<in> set (session_executions db)" "x_thread_key r = k" "active r" by blast
    obtain e where e: "execution_of_row r = Inr e" using execution_row_decodes [OF inv r(1)] .
    have "active_execution_for_thread db k = Inr (Some e)" using active_execution_is [OF inv r(1,3) e] r(2) by simp
    moreover have "filter active (thread_executions db k) = [r]"
      using active_filter [OF inv r(1,3)] r(2) by (simp add: thread_executions_def conj_commute)
    ultimately show ?thesis
      using Some execution_of_row_columns(1) [OF e] by (simp add: detach_idle_session_sandbox_def)
  next
    case False
    have "filter active (thread_executions db k) = []" using False by (auto simp: filter_empty_conv thread_executions_def)
    moreover have "active_execution_for_thread db k = Inr None"
      using False by (simp add: active_execution_for_thread_def filter_empty_conv newest_def by_creation_def transpose_option_def)
    moreover have "\<exists>db' s'. detach_idle_session_sandbox now k db = (db', Inr (Some sb)) \<and>
        get_session db' k = Inr s' \<and> ses_sandbox_id s' = None \<and> warm_status db' sb \<in> {None, Some ''failed''} \<and>
        (sb \<in> set (list_referenced_sandbox_ids db') \<longleftrightarrow>
          (\<exists>t \<in> set (sessions db). s_thread_key t \<noteq> k \<and> s_sandbox_id t = Some sb))"
      if sb: "s_sandbox_id s = Some sb" and w: "\<not> workflow_owned s" for sb
    proof -
      let ?db1 = "fst (upd_sessions (on_thread k) (clear_sandbox_f now) db)"
      let ?db2 = "fst (upd_warm (on_warm sb) (release_warm_f now ''session sandbox released'') ?db1)"
      have d: "detach_idle_session_sandbox now k db = (?db2, Inr (Some sb))"
        using Some False sb w by (simp add: detach_idle_session_sandbox_def filter_empty_conv thread_executions_def Let_def)
      have row: "row_by s_thread_key k (sessions ?db2) = Some (clear_sandbox_f now s)"
        using Some s by (simp add: detach_sandbox.row_after)
      have "session_ok s" using inv s by (auto simp: store_inv_def Let_def sessions_inv_def)
      then obtain s' where s': "session_of_row (clear_sandbox_f now s) = Inr s'"
        using detach_sandbox.ok_kept s session_of_row_ok by metis
      have "ses_sandbox_id s' = None" using session_of_row_columns(2) [OF s'] by (simp add: clear_sandbox_f_def)
      moreover have "get_session ?db2 k = Inr s'" using row s' by (simp add: get_session_def)
      moreover have "warm_status ?db2 sb \<in> {None, Some ''failed''}"
        by (cases "row_by w_sandbox_id sb (session_warm_sandboxes db)")
          (auto simp: warm_status_def release_warm.row_after store_defs dest: row_by_Some)
      moreover have "sb \<in> set (list_referenced_sandbox_ids ?db2) \<longleftrightarrow>
          (\<exists>t \<in> set (sessions db). s_thread_key t \<noteq> k \<and> s_sandbox_id t = Some sb)"
      proof -
        have "w_status w = ''failed''" if mem: "w \<in> set (session_warm_sandboxes ?db2)" and id: "w_sandbox_id w = sb" for w
        proof -
          obtain r where r: "w = (if on_warm sb r then release_warm_f now ''session sandbox released'' r else r)"
            using mem unfolding upd_warm_simps release_warm.in_updated by blast
          show ?thesis using id unfolding r by (cases "on_warm sb r") (simp_all add: on_warm_def release_warm_f_def)
        qed
        moreover have "(\<exists>t \<in> set (sessions ?db2). s_sandbox_id t = Some sb) \<longleftrightarrow>
            (\<exists>t \<in> set (sessions db). s_thread_key t \<noteq> k \<and> s_sandbox_id t = Some sb)"
        proof -
          have c: "s_sandbox_id (clear_sandbox_f now t) = None" for t by (simp add: clear_sandbox_f_def)
          show ?thesis by (auto simp: sql_update_def c)
        qed
        ultimately show ?thesis by (auto simp: referenced_iff)
      qed
      ultimately show ?thesis using d by blast
    qed
    ultimately show ?thesis
      using Some by (cases "s_sandbox_id s") (simp_all add: detach_idle_session_sandbox_def)
  qed
qed

end
