(* ===== verification/Store_Steps.thy ===== *)
theory Store_Steps
  imports Store_Sandboxes
begin

text \<open>
  The store as a state machine. A step is one call of one operation, by any process and with any
  clocks, ids and arguments; a run is any sequence of steps, so concurrent callers are the
  interleavings of their calls. \<open>guarded_step\<close> has the operations the services call;
  \<open>store_step\<close> adds the two unguarded transitions kept for tests.
\<close>

section \<open>Steps\<close>

inductive guarded_step :: "db \<Rightarrow> db \<Rightarrow> bool" where
  replace_teams: "guarded_step db (replace_slack_external_team_ids ids db)"
| seed_teams: "guarded_step db (fst (seed_slack_external_team_ids ids db))"
| create_session: "thread_key_parse k = Inr k \<Longrightarrow> guarded_step db (fst (create_or_get_session now k h p m l db))"
| create_session_merging: "thread_key_parse k = Inr k \<Longrightarrow>
    guarded_step db (fst (create_or_get_session_merging_metadata now k h p m l db))"
| set_title: "guarded_step db (fst (set_session_title_if_empty now k title db))"
| sandbox: "guarded_step db (fst (update_sandbox_id now k sid db))"
| assignment: "guarded_step db (fst (update_sandbox_assignment now k sb caps db))"
| clear_sandbox: "guarded_step db (fst (clear_sandbox_id_if_matches now k sb db))"
| switch_harness: "guarded_step db (fst (switch_session_harness now k h db))"
| set_principal: "guarded_step db (fst (set_iron_control_principal now k prn db))"
| bind_principal: "guarded_step db (fst (bind_iron_control_principal now k pr db))"
| harness_thread: "guarded_step db (fst (update_harness_thread_id now k t db))"
| touch_session: "guarded_step db (fst (touch_session_sandbox_activity now k db))"
| touch_sandbox: "guarded_step db (fst (touch_sandbox_activity now k sb db))"
| messages: "guarded_step db (fst (append_messages now gen k ms db))"
| create_execution: "guarded_step db (fst (create_execution_with_request now i k idem m rq db))"
| traceparent: "guarded_step db (fst (set_execution_traceparent now i tp db))"
| mark_running: "guarded_step db (fst (mark_execution_running now i db))"
| requeue: "guarded_step db (fst (requeue_execution_if_running_without_stdout_owner now i db))"
| claim_owner: "guarded_step db (fst (claim_stdout_owner clock now i ow lease db))"
| claim_expired: "guarded_step db (fst (claim_expired_stdout_owner clock now i ow lease db))"
| renew_owner: "guarded_step db (fst (renew_stdout_owner clock now i ow lease db))"
| release_owner: "guarded_step db (fst (release_stdout_owner now i ow db))"
| release_owned: "guarded_step db (fst (release_stdout_owned_executions now ow db))"
| complete_active: "guarded_step db (fst (complete_execution_if_active now i db))"
| complete_owned: "guarded_step db (fst (complete_execution_if_active_and_stdout_owner now i ow db))"
| fail_active: "guarded_step db (fst (fail_execution_if_active now i e db))"
| fail_owned: "guarded_step db (fst (fail_execution_if_active_and_stdout_owner now i ow e db))"
| cancel_owned: "guarded_step db (fst (cancel_execution_if_active_and_stdout_owner now i ow e db))"
| append: "guarded_step db (fst (append_event now k x ty pl db))"
| append_unless_recent:
    "guarded_step db (fst (append_active_execution_event_unless_recent secs now clock k i ty pl w db))"
| append_owned: "guarded_step db (fst (append_event_if_stdout_owner clock now k i ow lease ty pl db))"
| retention: "guarded_step db (fst (delete_stdout_events_older_than locked cutoff n db))"
| insert_warm: "guarded_step db (fst (insert_ready_warm_sandbox now i wk db))"
| claim_warm: "guarded_step db (fst (claim_ready_warm_sandbox lk now wk k db))"
| fail_warm: "guarded_step db (mark_warm_sandbox_failed now i e db)"
| evict_warm: "guarded_step db (fst (evict_unclaimed_warm_sandbox now i db))"
| detach: "guarded_step db (fst (detach_idle_session_sandbox now k db))"

inductive store_step :: "db \<Rightarrow> db \<Rightarrow> bool" where
  guarded: "guarded_step db db' \<Longrightarrow> store_step db db'"
| complete: "store_step db (fst (complete_execution now i db))"
| fail: "store_step db (fst (fail_execution now i e db))"

section \<open>The invariant of every run\<close>

lemma retention_inv: "store_inv db \<Longrightarrow> store_inv (fst (delete_stdout_events_older_than locked cutoff n db))"
  by (simp add: delete_stdout_events_older_than_def Let_def inv_filter_events)

lemma guarded_step_inv: "guarded_step db db' \<Longrightarrow> store_inv db \<Longrightarrow> store_inv db'"
  by (induction rule: guarded_step.induct) (simp_all add: keep retention_inv)

lemma store_step_inv: "store_step db db' \<Longrightarrow> store_inv db \<Longrightarrow> store_inv db'"
  by (induction rule: store_step.induct) (simp_all add: guarded_step_inv execution_ops_inv)

lemma run_inv: "store_step\<^sup>*\<^sup>* db db' \<Longrightarrow> store_inv db \<Longrightarrow> store_inv db'"
  by (induction rule: rtranclp_induct) (simp_all add: store_step_inv)

text \<open>
  C5. Whatever the services do, from an empty database, the stored state stays well-formed: keys are
  unique, references resolve, every text column decodes, leases and owners go together, and no thread
  ever has two queued or running executions: reading the active execution of a thread returns the only one.
\<close>

theorem reachable_store:
  assumes "store_step\<^sup>*\<^sup>* empty_db db"
  shows "store_inv db \<and>
    (\<forall>r \<in> set (session_executions db). \<forall>r' \<in> set (session_executions db).
      active r \<and> active r' \<and> x_thread_key r = x_thread_key r' \<longrightarrow> r = r') \<and>
    (\<forall>r \<in> set (session_executions db). active r \<longrightarrow>
      (\<exists>e. active_execution_for_thread db (x_thread_key r) = Inr (Some e) \<and> exe_execution_id e = x_execution_id r))"
proof -
  have inv: "store_inv db" using run_inv [OF assms store_inv_empty] .
  have "r = r'" if "r \<in> set (session_executions db)" "r' \<in> set (session_executions db)"
    "active r" "active r'" "x_thread_key r = x_thread_key r'" for r r'
    using only_active [OF inv that(2,1,4,3)] that(5) by simp
  moreover have "\<exists>e. active_execution_for_thread db (x_thread_key r) = Inr (Some e) \<and> exe_execution_id e = x_execution_id r"
    if r: "r \<in> set (session_executions db)" "active r" for r
  proof -
    obtain e where e: "execution_of_row r = Inr e" using execution_row_decodes [OF inv r(1)] .
    then show ?thesis using active_execution_is [OF inv r e] execution_of_row_columns(1) [OF e] by blast
  qed
  ultimately show ?thesis using inv by blast
qed

theorem reachable_store_witness:
  "store_step\<^sup>*\<^sup>* empty_db example_exec_db \<and> length (session_executions example_exec_db) = 1 \<and>
   (\<exists>e. active_execution_for_thread example_exec_db ''api:1'' = Inr (Some e) \<and> exe_execution_id e = ''exe_1'')"
proof -
  have "store_step empty_db example_db" unfolding example_db_def
    by (intro store_step.guarded guarded_step.create_session example_key)
  moreover have "store_step example_db example_exec_db" unfolding example_exec_db_def
    by (intro store_step.guarded guarded_step.create_execution)
  ultimately have run: "store_step\<^sup>*\<^sup>* empty_db example_exec_db" by simp
  have "example_row \<in> set (session_executions example_exec_db)" "active example_row" "x_thread_key example_row = ''api:1''"
    "x_execution_id example_row = ''exe_1''"
    by (simp_all add: example_exec_db_rows active_def)
  then show ?thesis using reachable_store [OF run] run by (metis example_exec_db_rows length_Cons list.size(3) One_nat_def)
qed

section \<open>Terminal executions\<close>

text \<open>What a finished execution reports.\<close>

definition outcome :: "execution_row \<Rightarrow> string \<times> string option \<times> time option \<times> time option" where
  "outcome r = (x_status r, x_error r, x_started_at r, x_completed_at r)"

text \<open>The contract of a statement that leaves finished executions alone, apart from bookkeeping.\<close>

locale final_update = exec_update p f for p f +
  assumes outcome_kept: "p r \<Longrightarrow> \<not> active r \<Longrightarrow> outcome (f r) = outcome r"
begin

lemma final_row:
  assumes "row_by x_execution_id i (session_executions db) = Some r" and "\<not> active r"
  shows "\<exists>r'. row_by x_execution_id i (session_executions (fst (upd_executions p f db))) = Some r' \<and> outcome r' = outcome r"
  using assms by (simp add: row_after outcome_kept)

end

interpretation final_conflict: final_update "conflict_p new" "conflict_f new" for new
  by unfold_locales (simp add: outcome_def store_defs)

interpretation final_traceparent: final_update "on_execution i" "traceparent_f now tp" for i now tp
  by unfold_locales (simp add: outcome_def store_defs)

interpretation final_mark: final_update "mark_running_p i" "running_f now" for i now
  by unfold_locales (auto simp: store_defs active_def)

interpretation final_requeue: final_update "requeue_p i" "requeue_f now" for i now
  by unfold_locales (auto simp: store_defs active_def)

interpretation final_claim: final_update "claim_owner_p now i ow" "claim_owner_f now ow t" for now i ow t
  by unfold_locales (auto simp: store_defs)

interpretation final_claim_expired: final_update "claim_expired_p now i" "claim_owner_f now ow t" for now i ow t
  by unfold_locales (auto simp: store_defs)

interpretation final_renew: final_update "active_owned_p i ow" "renew_f now t" for now i ow t
  by unfold_locales (auto simp: store_defs)

interpretation final_append: final_update "append_owner_p i ow k" "renew_f now t" for now i ow t k
  by unfold_locales (auto simp: store_defs)

interpretation final_release: final_update "owned_p i ow" "release_f now" for now i ow
  by unfold_locales (simp add: outcome_def store_defs)

interpretation final_release_held: final_update "held_p ow" "release_f now" for now ow
  by unfold_locales (simp add: outcome_def store_defs)

interpretation final_complete: final_update "active_p i" "complete_f now" for now i
  by unfold_locales (auto simp: store_defs)

interpretation final_complete_owned: final_update "active_owned_p i ow" "\<lambda>r. clear_owner (complete_f now r)" for now i ow
  by unfold_locales (auto simp: store_defs)

interpretation final_fail: final_update "active_p i" "fail_f now e" for now i e
  by unfold_locales (auto simp: store_defs)

interpretation final_fail_owned: final_update "active_owned_p i ow" "\<lambda>r. clear_owner (fail_f now e r)" for now i ow e
  by unfold_locales (auto simp: store_defs)

interpretation final_cancel_owned: final_update "active_owned_p i ow" "\<lambda>r. clear_owner (cancel_f now e r)" for now i ow e
  by unfold_locales (auto simp: store_defs)


text \<open>Operations that do not touch the executions.\<close>

lemma insert_messages_frame:
  "insert_messages now gen i k ms db = Inr (db', ids) \<Longrightarrow> session_executions db' = session_executions db"
  by (induction ms arbitrary: i db ids)
    (auto simp: insert_message_def split: prod.splits option.splits if_splits)

lemma create_session_frame:
  "session_executions (fst (create_or_get_session_inner now k h p m l merge db)) = session_executions db"
  by (auto simp: create_or_get_session_inner_def insert_session_def Let_def split: sum.split option.split)

lemma insert_event_frame: "session_executions (fst (insert_session_event now k x ty pl db)) = session_executions db"
  by (simp add: insert_session_event_def Let_def)

lemma execution_frames:
  "session_executions (replace_slack_external_team_ids ids db) = session_executions db"
  "session_executions (fst (seed_slack_external_team_ids ids db)) = session_executions db"
  "session_executions (fst (create_or_get_session now k h p m l db)) = session_executions db"
  "session_executions (fst (create_or_get_session_merging_metadata now k h p m l db)) = session_executions db"
  "session_executions (fst (set_session_title_if_empty now k title db)) = session_executions db"
  "session_executions (fst (update_sandbox_id now k sid db)) = session_executions db"
  "session_executions (fst (update_sandbox_assignment now k sb caps db)) = session_executions db"
  "session_executions (fst (clear_sandbox_id_if_matches now k sb db)) = session_executions db"
  "session_executions (fst (switch_session_harness now k h db)) = session_executions db"
  "session_executions (fst (set_iron_control_principal now k prn db)) = session_executions db"
  "session_executions (fst (bind_iron_control_principal now k pr db)) = session_executions db"
  "session_executions (fst (update_harness_thread_id now k t db)) = session_executions db"
  "session_executions (fst (touch_session_sandbox_activity now k db)) = session_executions db"
  "session_executions (fst (touch_sandbox_activity now k sb db)) = session_executions db"
  "session_executions (fst (append_messages now gen k ms db)) = session_executions db"
  "session_executions (fst (append_event now k x ty pl db)) = session_executions db"
  "session_executions (fst (append_active_execution_event_unless_recent secs now clock k i ty pl w db)) = session_executions db"
  "session_executions (fst (delete_stdout_events_older_than locked cutoff n db)) = session_executions db"
  "session_executions (fst (insert_ready_warm_sandbox now i wk db)) = session_executions db"
  "session_executions (fst (claim_ready_warm_sandbox lk now wk k db)) = session_executions db"
  "session_executions (mark_warm_sandbox_failed now i e db) = session_executions db"
  "session_executions (fst (evict_unclaimed_warm_sandbox now i db)) = session_executions db"
  "session_executions (fst (detach_idle_session_sandbox now k db)) = session_executions db"
  by (auto simp: replace_slack_external_team_ids_def seed_slack_external_team_ids_def create_or_get_session_def
      create_or_get_session_merging_metadata_def create_session_frame set_session_title_if_empty_def
      update_sandbox_id_def update_sandbox_assignment_def clear_sandbox_id_if_matches_def
      switch_session_harness_def set_iron_control_principal_def bind_iron_control_principal_def
      update_harness_thread_id_def touch_session_sandbox_activity_def touch_sandbox_activity_def
      append_messages_def append_event_def append_active_execution_event_unless_recent_def insert_event_frame
      delete_stdout_events_older_than_def insert_ready_warm_sandbox_def claim_ready_warm_sandbox_def
      mark_warm_sandbox_failed_def evict_unclaimed_warm_sandbox_def detach_idle_session_sandbox_def Let_def
      case_prod_beta dest!: insert_messages_frame split: option.split sum.split)

text \<open>Operations that do: the row they leave behind is that of their one statement on the table.\<close>

lemma settle_frame [simp]: "session_executions (fst (settle now st u)) = session_executions (fst u)"
  by (simp add: settle_def split: option.split)

lemma touched_frame [simp]: "session_executions (fst (touched_rows p f db)) = session_executions (fst (upd_executions p f db))"
  by (simp add: touched_rows_def case_prod_beta)

lemma mark_frame:
  "session_executions (fst (mark_execution_running now i db)) =
     session_executions (fst (upd_executions (mark_running_p i) (running_f now) db))"
  by (simp add: mark_execution_running_def case_prod_beta split: option.split)

lemma row_by_append: "row_by key i t = Some r \<Longrightarrow> row_by key i (t @ u) = Some r"
  by (induction t) (auto simp: row_by_def)

text \<open>
  Every operation the services call either leaves the executions, adds some, or runs one statement
  under the contract above.
\<close>

definition benign :: "db \<Rightarrow> db \<Rightarrow> bool" where
  "benign db db' \<longleftrightarrow> (\<exists>new. session_executions db' = session_executions db @ new) \<or>
     (\<exists>p f. final_update p f \<and> session_executions db' = session_executions (fst (upd_executions p f db)))"

lemma benign_same: "session_executions db' = session_executions db \<Longrightarrow> benign db db'"
  by (simp add: benign_def)

lemma benign_statement:
  "final_update p f \<Longrightarrow> session_executions db' = session_executions (fst (upd_executions p f db)) \<Longrightarrow> benign db db'"
  unfolding benign_def by blast

lemmas benign_statements =
  benign_statement [OF final_conflict.final_update_axioms] benign_statement [OF final_traceparent.final_update_axioms]
  benign_statement [OF final_mark.final_update_axioms] benign_statement [OF final_requeue.final_update_axioms]
  benign_statement [OF final_claim.final_update_axioms] benign_statement [OF final_claim_expired.final_update_axioms]
  benign_statement [OF final_renew.final_update_axioms] benign_statement [OF final_append.final_update_axioms]
  benign_statement [OF final_release.final_update_axioms] benign_statement [OF final_release_held.final_update_axioms]
  benign_statement [OF final_complete.final_update_axioms] benign_statement [OF final_complete_owned.final_update_axioms]
  benign_statement [OF final_fail.final_update_axioms] benign_statement [OF final_fail_owned.final_update_axioms]
  benign_statement [OF final_cancel_owned.final_update_axioms]

lemma benign_create: "benign db (fst (create_execution_with_request now i k idem m rq db))"
proof (cases "insert_execution (new_execution_row now i k idem m rq) db")
  case (Inl e)
  then show ?thesis by (simp add: create_execution_with_request_def benign_same)
next
  case (Inr u)
  let ?new = "new_execution_row now i k idem m rq"
  from Inr consider "fst u = fst (upd_executions (conflict_p ?new) (conflict_f ?new) db)"
    | "fst u = db\<lparr>session_executions := session_executions db @ [?new]\<rparr>"
    by (auto simp: insert_execution_def split: if_splits)
  moreover have "fst (create_execution_with_request now i k idem m rq db) = fst u"
    using Inr by (simp add: create_execution_with_request_def case_prod_beta)
  ultimately show ?thesis
    by cases (simp_all add: benign_statements(1), simp add: benign_def)
qed

lemma benign_append_owned: "benign db (fst (append_event_if_stdout_owner clock now k i ow lease ty pl db))"
proof (cases "stdout_lease_expires_at clock lease")
  case (Inr t)
  have "session_executions (fst (append_event_if_stdout_owner clock now k i ow lease ty pl db)) = session_executions db \<or>
      session_executions (fst (append_event_if_stdout_owner clock now k i ow lease ty pl db)) =
        session_executions (fst (upd_executions (append_owner_p i ow k) (renew_f now t) db))"
    using Inr insert_event_frame [of now k "Some i" ty pl "fst (upd_executions (append_owner_p i ow k) (renew_f now t) db)"]
    by (auto simp: append_event_if_stdout_owner_def case_prod_beta simp del: upd_executions_simps split: sum.split)
  then show ?thesis using benign_same benign_statements(8) by blast
qed (simp add: append_event_if_stdout_owner_def benign_same)

lemma guarded_benign: "guarded_step db db' \<Longrightarrow> benign db db'"
proof (induction rule: guarded_step.induct)
qed (auto simp: execution_frames benign_create benign_append_owned lease_op_defs mark_frame
    set_execution_traceparent_def requeue_execution_if_running_without_stdout_owner_def
    release_stdout_owned_executions_def complete_execution_if_active_def
    complete_execution_if_active_and_stdout_owner_def fail_execution_if_active_def
    fail_execution_if_active_and_stdout_owner_def cancel_execution_if_active_and_stdout_owner_def
    case_prod_beta benign_same simp del: upd_executions_simps split: sum.split intro: benign_statements)

lemma benign_outcome:
  assumes "benign db db'" and "row_by x_execution_id i (session_executions db) = Some r" and "\<not> active r"
  obtains r' where "row_by x_execution_id i (session_executions db') = Some r'" and "outcome r' = outcome r"
proof -
  consider new where "session_executions db' = session_executions db @ new"
    | p f where "final_update p f" "session_executions db' = session_executions (fst (upd_executions p f db))"
    using assms(1) unfolding benign_def by blast
  then show thesis
  proof cases
    case 1
    then show ?thesis using that row_by_append [OF assms(2)] by simp
  next
    case 2
    then show ?thesis using that final_update.final_row [OF 2(1) assms(2,3)] by auto
  qed
qed

lemma outcome_active: "outcome r' = outcome r \<Longrightarrow> active r' \<longleftrightarrow> active r"
  by (simp add: outcome_def active_def)

text \<open>
  C2. Terminal is final: once an execution has completed, failed or been cancelled, no sequence of calls
  the services make, by any process, ever changes its status, its error or its start and completion times,
  or removes it.
\<close>

theorem terminal_is_final:
  assumes "guarded_step\<^sup>*\<^sup>* db db'" and "row_by x_execution_id i (session_executions db) = Some r"
    and "\<not> active r"
  shows "\<exists>r'. row_by x_execution_id i (session_executions db') = Some r' \<and> outcome r' = outcome r"
  using assms(1)
proof (induction rule: rtranclp_induct)
  case base
  then show ?case using assms(2) by blast
next
  case (step db1 db2)
  then obtain r1 where r1: "row_by x_execution_id i (session_executions db1) = Some r1" "outcome r1 = outcome r" by blast
  have "\<not> active r1" using outcome_active [OF r1(2)] assms(3) by simp
  from benign_outcome [OF guarded_benign [OF step.hyps(2)] r1(1) this] r1(2) show ?case by metis
qed

lemma benign_identity:
  assumes "benign db db'" and "row_by x_execution_id i (session_executions db) = Some r"
  obtains r' where "row_by x_execution_id i (session_executions db') = Some r'"
    and "x_thread_key r' = x_thread_key r" and "x_idempotency_key r' = x_idempotency_key r"
proof -
  consider new where "session_executions db' = session_executions db @ new"
    | p f where "final_update p f" "session_executions db' = session_executions (fst (upd_executions p f db))"
    using assms(1) unfolding benign_def by blast
  then show thesis
  proof cases
    case 1
    then show ?thesis using that row_by_append [OF assms(2)] by simp
  next
    case 2
    then have "exec_update p f" by (simp add: final_update_def)
    then show ?thesis
      using that 2(2) assms(2) exec_update.thread_kept exec_update.idem_kept
        keyed_update.row_after [of x_execution_id p f i "session_executions db"]
      by (cases "p r") (auto simp: exec_update_def)
  qed
qed

lemma run_identity:
  assumes "guarded_step\<^sup>*\<^sup>* db db'" and "row_by x_execution_id i (session_executions db) = Some r"
  obtains r' where "row_by x_execution_id i (session_executions db') = Some r'"
    and "x_thread_key r' = x_thread_key r" and "x_idempotency_key r' = x_idempotency_key r"
  using assms
proof (induction arbitrary: thesis rule: rtranclp_induct)
  case (step db1 db2)
  then show ?case using benign_identity [OF guarded_benign [OF step.hyps(2)]] by metis
qed blast

lemma run_guarded_inv: "guarded_step\<^sup>*\<^sup>* db db' \<Longrightarrow> store_inv db \<Longrightarrow> store_inv db'"
  by (induction rule: rtranclp_induct) (simp_all add: guarded_step_inv)

text \<open>
  An idempotency key is good forever: after a creation under a key, whatever the services do in the
  meantime, a creation on the same thread with the same key returns the same execution id, marked as not
  created, and adds no execution.
\<close>

lemma idempotency_key_lasts:
  assumes inv: "store_inv db"
    and first: "create_execution_with_request now i k (Some key) m rq db = (db1, Inr res)"
    and run: "guarded_step\<^sup>*\<^sup>* db1 db2"
    and fresh: "j \<notin> x_execution_id ` set (session_executions db2)"
  shows "\<exists>db3 res'. create_execution_with_request now' j k (Some key) m' rq' db2 = (db3, Inr res') \<and>
    \<not> cre_created res' \<and> exe_execution_id (cre_execution res') = exe_execution_id (cre_execution res) \<and>
    map x_execution_id (session_executions db3) = map x_execution_id (session_executions db2)"
proof -
  let ?n = "new_execution_row now' j k (Some key) m' rq'"
  let ?u = "upd_executions (conflict_p ?n) (conflict_f ?n) db2"
  have inv1: "store_inv db1" using create_execution_ops_inv(1) [OF inv, of now i k "Some key" m rq] first by simp
  have inv2: "store_inv db2" using run_guarded_inv [OF run inv1] .
  obtain r where r: "r \<in> set (session_executions db1)" "x_thread_key r = k" "x_idempotency_key r = Some key"
    "execution_of_row r = Inr (cre_execution res)" using created_row [OF inv first] .
  have "row_by x_execution_id (x_execution_id r) (session_executions db1) = Some r"
    using execution_row_in [OF inv1] r(1) by simp
  then obtain r2 where row2: "row_by x_execution_id (x_execution_id r) (session_executions db2) = Some r2"
    "x_thread_key r2 = k" "x_idempotency_key r2 = Some key"
    using run_identity [OF run] r(2,3) by metis
  then have r2: "r2 \<in> set (session_executions db2)" "x_execution_id r2 = x_execution_id r"
    using row_by_Some [OF row2(1)] by auto
  obtain e where e: "execution_of_row r2 = Inr e" using execution_row_decodes [OF inv2 r2(1)] .
  have c: "conflict_p ?n r2" using row2 by (simp add: conflict_p_def idempotency_key_def)
  have "x_execution_id r2 \<noteq> j" using fresh r2(1) by auto
  then have "create_result j (conflict_f ?n r2) = Inr \<lparr>cre_created = False, cre_execution = e\<rparr>"
    using e c by (simp add: create_result_def) (simp add: conflict_f_def)
  moreover have "insert_execution ?n db2 = Inr ?u" using r2(1) c by (auto simp: insert_execution_def)
  ultimately have "create_execution_with_request now' j k (Some key) m' rq' db2 =
      (fst ?u, Inr \<lparr>cre_created = False, cre_execution = e\<rparr>)"
    using conflict_row [OF inv2 r2(1) c]
    by (simp add: create_execution_with_request_def case_prod_beta fetch_one_def)
  moreover have "exe_execution_id e = exe_execution_id (cre_execution res)"
    using execution_of_row_columns(1) [OF e] execution_of_row_columns(1) [OF r(4)] r2(2) by simp
  ultimately show ?thesis by (auto simp: conflict.keys_kept)
qed


lemma example_first:
  obtains res where "create_execution_with_request 7 ''exe_1'' ''api:1'' (Some ''k'') empty_object empty_object example_db =
    (example_exec_db, Inr res)"
proof -
  have "insert_execution example_row example_db = Inr (example_db\<lparr>session_executions := [example_row]\<rparr>, [example_row])"
    using example_db_has by (simp add: insert_execution_def example_db_sessions empty_db_def)
  moreover obtain e where "execution_of_row example_row = Inr e"
    using new_execution_decodes [OF example_db_inv example_db_has] by blast
  ultimately show thesis
    using that by (simp add: create_execution_with_request_def fetch_one_def create_result_def example_exec_db_def)
qed

lemma example_claim_run: "guarded_step\<^sup>*\<^sup>* example_exec_db example_claimed_db"
  unfolding example_claimed_db_def by (rule r_into_rtranclp) (rule guarded_step.claim_owner)

lemma example_claimed_ids: "x_execution_id ` set (session_executions example_claimed_db) = {''exe_1''}"
  by (simp add: example_claimed_db_def claim_stdout_owner_def claim_owner.key_set_kept example_exec_db_rows
      split: sum.split)

definition example_done_db :: db where
  "example_done_db = fst (complete_execution_if_active 30 ''exe_1'' example_claimed_db)"

lemma example_done_row:
  obtains r where "row_by x_execution_id ''exe_1'' (session_executions example_done_db) = Some r" and "\<not> active r"
    and "x_status r = execution_status_as_ref Completed"
proof -
  obtain r where r: "row_by x_execution_id ''exe_1'' (session_executions example_claimed_db) = Some r" "active r"
    by (rule example_claimed_row)
  then have "active_p ''exe_1'' r" using row_by_Some [OF r(1)] by (simp add: active_p_def)
  then have "row_by x_execution_id ''exe_1'' (session_executions example_done_db) = Some (complete_f 30 r)"
    using r(1) by (simp add: example_done_db_def complete_execution_if_active_def complete_active.row_after)
  then show thesis using that [of "complete_f 30 r"] by (simp add: complete_f_def active_def)
qed

theorem terminal_is_final_witness:
  "\<exists>r'. row_by x_execution_id ''exe_1'' (session_executions (fst (mark_execution_running 60 ''exe_1'' example_done_db))) =
     Some r' \<and> x_status r' = execution_status_as_ref Completed"
proof -
  obtain r where r: "row_by x_execution_id ''exe_1'' (session_executions example_done_db) = Some r" "\<not> active r"
    "x_status r = execution_status_as_ref Completed" by (rule example_done_row)
  have run: "guarded_step\<^sup>*\<^sup>* example_done_db (fst (mark_execution_running 60 ''exe_1'' example_done_db))"
    by (rule r_into_rtranclp) (rule guarded_step.mark_running)
  from terminal_is_final [OF run r(1,2)] show ?thesis using r(3) by (auto simp: outcome_def)
qed

end
