(* ===== verification/Event_Order.thy ===== *)
theory Event_Order
  imports Store_Events
begin

text \<open>
  The order in which events become visible. \<^verbatim>\<open>insert_session_event\<close> takes an advisory lock on the
  thread before it draws an event id, and PostgreSQL keeps the lock until the transaction ends; ids are
  drawn from a sequence that never goes back, while transactions commit in any order. Readers page with
  \<^verbatim>\<open>after_event_id\<close>, so an event that commits after a higher id of its thread would be lost to them.
  The model has the transactions as separate steps: waiting for the lock, drawing the id, committing
  or rolling back.
\<close>

section \<open>Transactions\<close>

record log_state =
  lock_holder :: "string \<Rightarrow> nat option"
  drawn :: "nat \<Rightarrow> (string \<times> int) option"
  committed :: "(string \<times> int) list"
  next_id :: int

definition initial_log :: log_state where
  "initial_log = \<lparr>lock_holder = (\<lambda>_. None), drawn = (\<lambda>_. None), committed = [], next_id = 1\<rparr>"

text \<open>\<^verbatim>\<open>pg_advisory_xact_lock\<close>: waits (here: is not enabled) while another transaction has the lock.\<close>

definition can_lock :: "string \<Rightarrow> nat \<Rightarrow> log_state \<Rightarrow> bool" where
  "can_lock k tx s \<longleftrightarrow> lock_holder s k = None \<or> lock_holder s k = Some tx"

definition take_lock :: "string \<Rightarrow> nat \<Rightarrow> log_state \<Rightarrow> log_state" where
  "take_lock k tx s = s\<lparr>lock_holder := (lock_holder s)(k := Some tx)\<rparr>"

text \<open>The insert itself: the rows come from the lock's query, so the lock is held when the id is drawn.\<close>

definition can_draw :: "string \<Rightarrow> nat \<Rightarrow> log_state \<Rightarrow> bool" where
  "can_draw k tx s \<longleftrightarrow> lock_holder s k = Some tx \<and> drawn s tx = None"

definition draw_id :: "string \<Rightarrow> nat \<Rightarrow> log_state \<Rightarrow> log_state" where
  "draw_id k tx s = s\<lparr>drawn := (drawn s)(tx := Some (k, next_id s)), next_id := next_id s + 1\<rparr>"

definition release_locks :: "nat \<Rightarrow> log_state \<Rightarrow> log_state" where
  "release_locks tx s =
     s\<lparr>lock_holder := (\<lambda>k. if lock_holder s k = Some tx then None else lock_holder s k),
       drawn := (drawn s)(tx := None)\<rparr>"

definition commit_tx :: "nat \<Rightarrow> log_state \<Rightarrow> log_state" where
  "commit_tx tx s =
     release_locks tx (s\<lparr>committed := committed s @ (case drawn s tx of None \<Rightarrow> [] | Some e \<Rightarrow> [e])\<rparr>)"

definition rollback_tx :: "nat \<Rightarrow> log_state \<Rightarrow> log_state" where
  "rollback_tx tx s = release_locks tx s"

inductive log_step :: "log_state \<Rightarrow> log_state \<Rightarrow> bool" where
  lock: "can_lock k tx s \<Longrightarrow> log_step s (take_lock k tx s)"
| draw: "can_draw k tx s \<Longrightarrow> log_step s (draw_id k tx s)"
| commit: "log_step s (commit_tx tx s)"
| rollback: "log_step s (rollback_tx tx s)"

definition visible :: "string \<Rightarrow> log_state \<Rightarrow> int list" where
  "visible k s = map snd (filter (\<lambda>e. fst e = k) (committed s))"

section \<open>Invariant\<close>

definition log_inv :: "log_state \<Rightarrow> bool" where
  "log_inv s \<longleftrightarrow>
     (\<forall>k. sorted_wrt (<) (visible k s) \<and> (\<forall>i \<in> set (visible k s). i < next_id s)) \<and>
     (\<forall>tx k i. drawn s tx = Some (k, i) \<longrightarrow>
        lock_holder s k = Some tx \<and> i < next_id s \<and> (\<forall>j \<in> set (visible k s). j < i))"

lemma initial_log_inv: "log_inv initial_log"
  by (simp add: log_inv_def initial_log_def visible_def)

lemma release_locks_inv: "log_inv s \<Longrightarrow> log_inv (release_locks tx s)"
  by (auto simp: log_inv_def release_locks_def visible_def)

lemma commit_inv:
  assumes "log_inv s"
  shows "log_inv (commit_tx tx s)"
proof (cases "drawn s tx")
  case None
  then show ?thesis using release_locks_inv [OF assms] by (simp add: commit_tx_def)
next
  case (Some e)
  obtain k i where e: "e = (k, i)" by force
  let ?s = "s\<lparr>committed := committed s @ [e]\<rparr>"
  have v: "visible k' (release_locks tx ?s) = visible k' s @ (if k' = k then [i] else [])" for k'
    by (simp add: visible_def release_locks_def e)
  have k: "lock_holder s k = Some tx" "i < next_id s" "\<forall>j \<in> set (visible k s). j < i"
    using assms Some e by (auto simp: log_inv_def)
  have other: "k' \<noteq> k" if "drawn s tx' = Some (k', i')" "tx' \<noteq> tx" for tx' k' i'
    using assms that k(1) by (auto simp: log_inv_def)
  have "log_inv (release_locks tx ?s)"
    unfolding log_inv_def v
    using assms k other by (auto simp: log_inv_def sorted_wrt_append release_locks_def split: if_splits)
  then show ?thesis using Some by (simp add: commit_tx_def)
qed

lemma log_step_inv: "log_step s s' \<Longrightarrow> log_inv s \<Longrightarrow> log_inv s'"
proof (induction rule: log_step.induct)
  case (lock k tx s)
  then show ?case by (auto simp: log_inv_def take_lock_def can_lock_def visible_def)
next
  case (draw k tx s)
  then show ?case by (fastforce simp: log_inv_def draw_id_def can_draw_def visible_def)
next
  case (commit s tx)
  then show ?case by (rule commit_inv)
next
  case (rollback s tx)
  then show ?case by (simp add: rollback_tx_def release_locks_inv)
qed

lemma log_run_inv: "log_step\<^sup>*\<^sup>* s s' \<Longrightarrow> log_inv s \<Longrightarrow> log_inv s'"
  by (induction rule: rtranclp_induct) (simp_all add: log_step_inv)

lemma visible_grows: "log_step s s' \<Longrightarrow> \<exists>new. visible k s' = visible k s @ new"
  by (induction rule: log_step.induct)
    (auto simp: visible_def take_lock_def draw_id_def commit_tx_def rollback_tx_def release_locks_def)

lemma run_visible_grows: "log_step\<^sup>*\<^sup>* s s' \<Longrightarrow> \<exists>new. visible k s' = visible k s @ new"
proof (induction rule: rtranclp_induct)
  case (step s1 s2)
  then show ?case using visible_grows [OF step.hyps(2), of k] by (metis append_assoc)
qed simp

text \<open>
  C3. A cursor reader misses nothing: from any reachable state, however the writing transactions
  interleave, commit and roll back, the events of a thread that become visible later all have higher ids
  than every event of the thread already visible, and a thread's events become visible in id order.
\<close>

theorem cursor_reader_misses_nothing:
  assumes "log_step\<^sup>*\<^sup>* initial_log s" and "log_step\<^sup>*\<^sup>* s s'"
  shows "\<exists>new. visible k s' = visible k s @ new \<and> sorted_wrt (<) (visible k s') \<and>
    (\<forall>i \<in> set new. \<forall>j \<in> set (visible k s). j < i)"
proof -
  obtain new where new: "visible k s' = visible k s @ new" using run_visible_grows [OF assms(2)] by blast
  have "log_inv s'" using log_run_inv [OF assms(2) log_run_inv [OF assms(1) initial_log_inv]] .
  then have "sorted_wrt (<) (visible k s')" by (simp add: log_inv_def)
  then show ?thesis using new by (auto simp: sorted_wrt_append)
qed

theorem cursor_reader_misses_nothing_witness:
  "log_step\<^sup>*\<^sup>* initial_log (take_lock ''api:1'' 1 initial_log) \<and>
   log_step\<^sup>*\<^sup>* (take_lock ''api:1'' 1 initial_log) (commit_tx 1 (draw_id ''api:1'' 1 (take_lock ''api:1'' 1 initial_log))) \<and>
   visible ''api:1'' (commit_tx 1 (draw_id ''api:1'' 1 (take_lock ''api:1'' 1 initial_log))) = [1] \<and>
   sorted_wrt (<) (visible ''api:1'' (commit_tx 1 (draw_id ''api:1'' 1 (take_lock ''api:1'' 1 initial_log))))"
proof -
  let ?s1 = "take_lock ''api:1'' 1 initial_log"
  have a: "log_step\<^sup>*\<^sup>* initial_log ?s1"
    by (intro r_into_rtranclp log_step.lock) (simp add: can_lock_def initial_log_def)
  have "log_step ?s1 (draw_id ''api:1'' 1 ?s1)"
    by (intro log_step.draw) (simp add: can_draw_def take_lock_def initial_log_def)
  moreover have "log_step (draw_id ''api:1'' 1 ?s1) (commit_tx 1 (draw_id ''api:1'' 1 ?s1))" by (rule log_step.commit)
  ultimately have b: "log_step\<^sup>*\<^sup>* ?s1 (commit_tx 1 (draw_id ''api:1'' 1 ?s1))" by simp
  have "visible ''api:1'' (commit_tx 1 (draw_id ''api:1'' 1 ?s1)) = [1]"
    by (simp add: visible_def commit_tx_def draw_id_def take_lock_def release_locks_def initial_log_def)
  then show ?thesis using a b cursor_reader_misses_nothing [OF a b, of "''api:1''"] by blast
qed

end
