(* ===== verification/Sandbox_Core.thy ===== *)
theory Sandbox_Core
  imports Store_Sandboxes
begin

text \<open>
  \<^verbatim>\<open>crates/centaur-sandbox-core/src\<close> (\<^verbatim>\<open>lifecycle.rs\<close>, \<^verbatim>\<open>error.rs\<close>, \<^verbatim>\<open>spec.rs\<close>, \<^verbatim>\<open>backend.rs\<close>) and
  \<^verbatim>\<open>crates/centaur-sandbox-manager/src/manager.rs\<close>: the vocabulary of sandboxes and the backend trait.
  A backend is the record of its operations over a state \<^typ>\<open>'b\<close> of its own; every theorem about its
  clients holds for all backends. The manager passes calls through to it (its telemetry is left out).
\<close>

section \<open>Lifecycle\<close>

datatype SandboxStatus = SbCreated | SbRunning | SbSuspended | SbStopped | SbGone | SbUnknown string

fun is_terminal :: "SandboxStatus \<Rightarrow> bool" where
  "is_terminal SbStopped = True"
| "is_terminal SbGone = True"
| "is_terminal _ = False"

fun can_open_io :: "SandboxStatus \<Rightarrow> bool" where
  "can_open_io SbRunning = True"
| "can_open_io _ = False"

record SandboxHandle =
  h_id :: string
  h_backend :: string

record ObservedSandbox =
  o_id :: string
  o_backend :: string
  o_status :: SandboxStatus
  o_labels :: labels
  o_reason :: "string option"
  o_instance_id :: "string option"
  o_created_at :: "time option"
  o_suspended_since :: "time option"

definition observed_new :: "string \<Rightarrow> string \<Rightarrow> SandboxStatus \<Rightarrow> ObservedSandbox" where
  "observed_new sandbox_id backend status =
     \<lparr>o_id = sandbox_id, o_backend = backend, o_status = status, o_labels = [], o_reason = None,
      o_instance_id = None, o_created_at = None, o_suspended_since = None\<rparr>"

section \<open>Errors\<close>

text \<open>The boxed cause of an I/O or backend error is not kept: its text is part of the context.\<close>

datatype SandboxError =
    SbNotFound string
  | Unsupported string string
  | NotReady string
  | ArtifactRejected string
  | SbIo string
  | SbBackend string
  | InvalidSpec string

definition sandbox_error_message :: "SandboxError \<Rightarrow> string" where
  "sandbox_error_message e =
     (case e of
        SbNotFound i \<Rightarrow> ''sandbox '' @ i @ '' was not found''
      | Unsupported backend operation \<Rightarrow>
          ''operation is unsupported by backend '' @ backend @ '': '' @ operation
      | NotReady m \<Rightarrow> ''sandbox is not ready: '' @ m
      | ArtifactRejected m \<Rightarrow> ''artifact could not be retrieved: '' @ m
      | SbIo context \<Rightarrow> ''sandbox I/O failed: '' @ context
      | SbBackend context \<Rightarrow> ''backend operation failed: '' @ context
      | InvalidSpec m \<Rightarrow> ''invalid sandbox spec: '' @ m)"

definition io_source :: "string \<Rightarrow> string \<Rightarrow> SandboxError" where
  "io_source context cause = SbIo (context @ '': '' @ cause)"

definition backend_source :: "string \<Rightarrow> string \<Rightarrow> SandboxError" where
  "backend_source context cause = SbBackend (context @ '': '' @ cause)"

type_synonym 'a sandbox_result = "SandboxError + 'a"

section \<open>Workload specs\<close>

text \<open>\<^verbatim>\<open>BTreeMap::insert\<close> on the ordered association list of a map.\<close>

fun btree_insert :: "string \<Rightarrow> 'v \<Rightarrow> (string \<times> 'v) list \<Rightarrow> (string \<times> 'v) list" where
  "btree_insert k v [] = [(k, v)]"
| "btree_insert k v ((k', v') # m) =
     (if k < k' then (k, v) # (k', v') # m else if k = k' then (k, v) # m else (k', v') # btree_insert k v m)"

datatype RepoCacheAccess = AccessNone | AccessPublic | AccessAll

definition repo_access_enabled :: "RepoCacheAccess \<Rightarrow> bool" where
  "repo_access_enabled a \<longleftrightarrow> a \<noteq> AccessNone"

fun repo_access_as_str :: "RepoCacheAccess \<Rightarrow> string" where
  "repo_access_as_str AccessNone = ''none''"
| "repo_access_as_str AccessPublic = ''public''"
| "repo_access_as_str AccessAll = ''all''"

record SpecCapabilities =
  cap_repo_cache :: RepoCacheAccess
  cap_observability_enabled :: bool

definition spec_default_enabled :: SpecCapabilities where
  "spec_default_enabled = \<lparr>cap_repo_cache = AccessAll, cap_observability_enabled = True\<rparr>"

definition spec_is_default_enabled :: "SpecCapabilities \<Rightarrow> bool" where
  "spec_is_default_enabled c \<longleftrightarrow> repo_access_enabled (cap_repo_cache c) \<and> cap_observability_enabled c"

record EnvVar =
  env_name :: string
  env_value :: string

record SandboxFile =
  file_target_path :: string
  file_contents :: string

datatype MountKind = EmptyDir | NamedVolume string | Bind string

record Mount =
  mount_kind :: MountKind
  mount_target_path :: string
  mount_read_only :: bool
  mount_sub_path :: "string option"

record ResourceClaim =
  claim_name :: string
  claim_request :: "string option"

record ResourceRequirements =
  res_claims :: "ResourceClaim list"
  res_limits :: labels
  res_requests :: labels

definition requirements_new :: ResourceRequirements where
  "requirements_new = \<lparr>res_claims = [], res_limits = [], res_requests = []\<rparr>"

definition requirements_request :: "string \<Rightarrow> string \<Rightarrow> ResourceRequirements \<Rightarrow> ResourceRequirements" where
  "requirements_request name quantity r = r\<lparr>res_requests := btree_insert name quantity (res_requests r)\<rparr>"

definition requirements_limit :: "string \<Rightarrow> string \<Rightarrow> ResourceRequirements \<Rightarrow> ResourceRequirements" where
  "requirements_limit name quantity r = r\<lparr>res_limits := btree_insert name quantity (res_limits r)\<rparr>"

definition requirements_claim :: "string \<Rightarrow> string option \<Rightarrow> ResourceRequirements \<Rightarrow> ResourceRequirements" where
  "requirements_claim name req r = r\<lparr>res_claims := res_claims r @ [\<lparr>claim_name = name, claim_request = req\<rparr>]\<rparr>"

definition requirements_is_empty :: "ResourceRequirements \<Rightarrow> bool" where
  "requirements_is_empty r \<longleftrightarrow> res_claims r = [] \<and> res_limits r = [] \<and> res_requests r = []"

record SandboxSpec =
  sp_image :: string
  sp_labels :: labels
  sp_command :: "string list option"
  sp_args :: "string list"
  sp_env :: "EnvVar list"
  sp_files :: "SandboxFile list"
  sp_working_dir :: "string option"
  sp_mounts :: "Mount list"
  sp_resources :: "ResourceRequirements option"
  sp_iron_control_principal :: "string option"
  sp_iron_control_requester_principal :: "string option"
  sp_iron_control_proxy_labels :: labels
  sp_capabilities :: SpecCapabilities

definition spec_new :: "string \<Rightarrow> SandboxSpec" where
  "spec_new img =
     \<lparr>sp_image = img, sp_labels = [], sp_command = None, sp_args = [], sp_env = [], sp_files = [], sp_working_dir = None,
      sp_mounts = [], sp_resources = None, sp_iron_control_principal = None, sp_iron_control_requester_principal = None,
      sp_iron_control_proxy_labels = [], sp_capabilities = spec_default_enabled\<rparr>"

definition spec_label :: "string \<Rightarrow> string \<Rightarrow> SandboxSpec \<Rightarrow> SandboxSpec" where
  "spec_label name v s = s\<lparr>sp_labels := btree_insert name v (sp_labels s)\<rparr>"

definition spec_env :: "string \<Rightarrow> string \<Rightarrow> SandboxSpec \<Rightarrow> SandboxSpec" where
  "spec_env name v s = s\<lparr>sp_env := sp_env s @ [\<lparr>env_name = name, env_value = v\<rparr>]\<rparr>"

definition spec_file :: "string \<Rightarrow> string \<Rightarrow> SandboxSpec \<Rightarrow> SandboxSpec" where
  "spec_file path contents s = s\<lparr>sp_files := sp_files s @ [\<lparr>file_target_path = path, file_contents = contents\<rparr>]\<rparr>"

definition spec_mount :: "Mount \<Rightarrow> SandboxSpec \<Rightarrow> SandboxSpec" where
  "spec_mount m s = s\<lparr>sp_mounts := sp_mounts s @ [m]\<rparr>"

section \<open>The backend trait and the manager\<close>

type_synonym ('b, 'a) backend_call = "'b \<Rightarrow> 'b \<times> 'a sandbox_result"

record 'b SandboxBackend =
  be_name :: string
  be_create :: "SandboxSpec \<Rightarrow> ('b, SandboxHandle) backend_call"
  be_open_io :: "string \<Rightarrow> ('b, unit) backend_call"
  be_read_output_since :: "string \<Rightarrow> time option \<Rightarrow> ('b, string list) backend_call"
  be_status :: "string \<Rightarrow> ('b, SandboxStatus) backend_call"
  be_observe :: "string \<Rightarrow> ('b, ObservedSandbox) backend_call"
  be_list_observed :: "('b, ObservedSandbox list) backend_call"
  be_stop :: "string \<Rightarrow> ('b, unit) backend_call"
  be_pause :: "string \<Rightarrow> ('b, unit) backend_call"
  be_resume :: "string \<Rightarrow> ('b, unit) backend_call"
  be_assign_principal :: "string \<Rightarrow> string \<Rightarrow> string option \<Rightarrow> labels \<Rightarrow> ('b, unit) backend_call"
  be_ensure_proxy :: "string \<Rightarrow> string \<Rightarrow> string option \<Rightarrow> labels \<Rightarrow> ('b, unit) backend_call"
  be_enable_observability :: "string \<Rightarrow> ('b, unit) backend_call"
  be_reap_orphans :: "duration \<Rightarrow> ('b, (string \<times> nat) list) backend_call"

text \<open>The trait's defaults for what a backend need not support.\<close>

definition unsupported :: "string \<Rightarrow> string \<Rightarrow> ('b, 'a) backend_call" where
  "unsupported backend operation b = (b, Inl (Unsupported backend operation))"

definition with_trait_defaults :: "'b SandboxBackend \<Rightarrow> 'b SandboxBackend" where
  "with_trait_defaults be =
     be\<lparr>be_read_output_since := \<lambda>_ _. unsupported (be_name be) ''read_output_since'',
        be_assign_principal := \<lambda>_ _ _ _. unsupported (be_name be) ''assign_iron_control_proxy_principal'',
        be_ensure_proxy := \<lambda>_ _ _ _ b. (b, Inr ()),
        be_enable_observability := \<lambda>_. unsupported (be_name be) ''enable_observability'',
        be_reap_orphans := \<lambda>_ b. (b, Inr [])\<rparr>"

definition create_running :: "'b SandboxBackend \<Rightarrow> SandboxSpec \<Rightarrow> ('b, SandboxHandle) backend_call" where
  "create_running be spec = be_create be spec"

text \<open>\<^verbatim>\<open>open_io\<close> gives streams; here it is whether they could be opened.\<close>

definition open_io :: "'b SandboxBackend \<Rightarrow> string \<Rightarrow> ('b, unit) backend_call" where
  "open_io be i = be_open_io be i"

definition read_output_since :: "'b SandboxBackend \<Rightarrow> string \<Rightarrow> time option \<Rightarrow> ('b, string list) backend_call" where
  "read_output_since be i since = be_read_output_since be i since"

definition manager_observe :: "'b SandboxBackend \<Rightarrow> string \<Rightarrow> ('b, ObservedSandbox) backend_call" where
  "manager_observe be i = be_observe be i"

definition manager_status :: "'b SandboxBackend \<Rightarrow> string \<Rightarrow> ('b, SandboxStatus) backend_call" where
  "manager_status be i = be_status be i"

definition list_observed :: "'b SandboxBackend \<Rightarrow> ('b, ObservedSandbox list) backend_call" where
  "list_observed be = be_list_observed be"

definition manager_stop :: "'b SandboxBackend \<Rightarrow> string \<Rightarrow> ('b, unit) backend_call" where
  "manager_stop be i = be_stop be i"

definition manager_pause :: "'b SandboxBackend \<Rightarrow> string \<Rightarrow> ('b, unit) backend_call" where
  "manager_pause be i b = (case be_pause be i b of (b', Inr ()) \<Rightarrow> (b', Inr ()) | (b', Inl e) \<Rightarrow> (b', Inl e))"

definition manager_resume :: "'b SandboxBackend \<Rightarrow> string \<Rightarrow> ('b, unit) backend_call" where
  "manager_resume be i b = (case be_resume be i b of (b', Inr ()) \<Rightarrow> (b', Inr ()) | (b', Inl e) \<Rightarrow> (b', Inl e))"

definition assign_iron_control_proxy_principal ::
  "'b SandboxBackend \<Rightarrow> string \<Rightarrow> string \<Rightarrow> string option \<Rightarrow> labels \<Rightarrow> ('b, unit) backend_call" where
  "assign_iron_control_proxy_principal be i prn requester l = be_assign_principal be i prn requester l"

definition ensure_iron_control_proxy_resources ::
  "'b SandboxBackend \<Rightarrow> string \<Rightarrow> string \<Rightarrow> string option \<Rightarrow> labels \<Rightarrow> ('b, unit) backend_call" where
  "ensure_iron_control_proxy_resources be i prn requester l = be_ensure_proxy be i prn requester l"

definition enable_observability :: "'b SandboxBackend \<Rightarrow> string \<Rightarrow> ('b, unit) backend_call" where
  "enable_observability be i = be_enable_observability be i"

definition reap_orphan_iron_proxy_resources ::
  "'b SandboxBackend \<Rightarrow> duration \<Rightarrow> ('b, (string \<times> nat) list) backend_call" where
  "reap_orphan_iron_proxy_resources be grace = be_reap_orphans be grace"

lemmas manager_defs = create_running_def open_io_def read_output_since_def manager_observe_def manager_status_def list_observed_def manager_stop_def
  assign_iron_control_proxy_principal_def ensure_iron_control_proxy_resources_def enable_observability_def
  reap_orphan_iron_proxy_resources_def

section \<open>Ordered maps\<close>

lemma set_keys_insert [simp]: "fst ` set (btree_insert k v m) = insert k (fst ` set m)"
  by (induction k v m rule: btree_insert.induct) auto

lemma btree_insert_sorted:
  "sorted_wrt (<) (map fst m) \<Longrightarrow> sorted_wrt (<) (map fst (btree_insert k v m))"
proof (induction k v m rule: btree_insert.induct)
  case (2 k v k' v' m)
  then show ?case
    by (auto simp: image_iff dest: set_keys_insert [THEN equalityD1, THEN subsetD, OF imageI])
qed simp

lemma btree_insert_lookup:
  "map_of (btree_insert k v m) = (map_of m)(k \<mapsto> v)"
  by (induction k v m rule: btree_insert.induct) (auto simp: fun_eq_iff)

end
