(* ===== verification/Warm_Pool.thy ===== *)
theory Warm_Pool
  imports Sandbox_Core
begin

text \<open>
  \<^verbatim>\<open>crates/centaur-sandbox-manager/src/warm_pool.rs\<close>: handing warm sandboxes to threads and keeping
  the pools filled. The state is the store's database beside the backend's state; an operation that
  stops early on an error returns the state it reached. \<open>pool_env\<close> has what a call reads from
  outside: the backend, the clock, the rows locked by others, PostgreSQL's reading of a duration and
  Rust's \<^verbatim>\<open>Debug\<close> form of a string.
\<close>

section \<open>Configuration\<close>

record WarmPool =
  workload_key :: string
  spec_factory :: "unit \<Rightarrow> SandboxSpec"
  target_size :: nat

record WarmPoolConfig =
  bootstrap_iron_control_principal :: string
  max_running_sandboxes :: "nat option"

record WarmClaim =
  wc_thread_key :: string
  wc_iron_control_principal :: "string option"
  wc_requester_principal_id :: "string option"
  wc_proxy_labels :: labels
  wc_observability_enabled :: bool

datatype WarmPoolError = StoreError SessionStoreError | SandboxFailure SandboxError

record 'b pool_env =
  pe_backend :: "'b SandboxBackend"
  pe_now :: time
  pe_locked :: "string \<Rightarrow> bool"
  pe_secs :: "duration \<Rightarrow> int"
  pe_debug :: "string \<Rightarrow> string"

definition STALE_EVICTING_WARM_SANDBOX_AGE :: duration where
  "STALE_EVICTING_WARM_SANDBOX_AGE = 300 * 10 ^ 9"

definition UNCONFIGURED_WARM_SANDBOX_GRACE :: duration where
  "UNCONFIGURED_WARM_SANDBOX_GRACE = 900 * 10 ^ 9"

definition USIZE_MAX :: nat where "USIZE_MAX = 2 ^ 64 - 1"

definition status_debug :: "(string \<Rightarrow> string) \<Rightarrow> SandboxStatus \<Rightarrow> string" where
  "status_debug dbg st =
     (case st of SbCreated \<Rightarrow> ''Created'' | SbRunning \<Rightarrow> ''Running'' | SbSuspended \<Rightarrow> ''Suspended''
      | SbStopped \<Rightarrow> ''Stopped'' | SbGone \<Rightarrow> ''Gone'' | SbUnknown m \<Rightarrow> ''Unknown('' @ dbg m @ '')'')"

section \<open>Claiming\<close>

definition bind_claimed :: "'b SandboxBackend \<Rightarrow> string \<Rightarrow> WarmClaim \<Rightarrow> ('b, unit) backend_call" where
  "bind_claimed be i c b =
     (case (if wc_observability_enabled c then enable_observability be i b else (b, Inr ())) of
        (b1, Inl e) \<Rightarrow> (b1, Inl e)
      | (b1, Inr _) \<Rightarrow>
          (case wc_iron_control_principal c of
             None \<Rightarrow> (b1, Inr ())
           | Some prn \<Rightarrow>
               assign_iron_control_proxy_principal be i prn (wc_requester_principal_id c) (wc_proxy_labels c) b1))"

text \<open>What one round of the claim loop decides about the sandbox it has just claimed.\<close>

datatype claim_round = Handed | Aborted SandboxError | Skipped string

definition check_claimed :: "'b pool_env \<Rightarrow> WarmClaim \<Rightarrow> string \<Rightarrow> 'b \<Rightarrow> 'b \<times> claim_round" where
  "check_claimed ev c i b =
     (case manager_status (pe_backend ev) i b of
        (b1, Inr SbRunning) \<Rightarrow>
          (case bind_claimed (pe_backend ev) i c b1 of
             (b2, Inl e) \<Rightarrow> (b2, Aborted e)
           | (b2, Inr _) \<Rightarrow> (b2, Handed))
      | (b1, Inr st) \<Rightarrow>
          (b1, Skipped (''claimed warm sandbox was not running: '' @ status_debug (pe_debug ev) st))
      | (b1, Inl (SbNotFound _)) \<Rightarrow> (b1, Skipped ''claimed warm sandbox was not found'')
      | (b1, Inl e) \<Rightarrow> (b1, Aborted e))"

text \<open>The number of sandboxes a claim loop can still try.\<close>

definition ready_count :: "string \<Rightarrow> db \<Rightarrow> nat" where
  "ready_count wk db = length (filter (ready_p wk) (session_warm_sandboxes db))"

lemma length_filter_map_le:
  "(\<And>w. w \<in> set t \<Longrightarrow> p (g w) \<Longrightarrow> p w) \<Longrightarrow> length (filter p (map g t)) \<le> length (filter p t)"
  by (induction t) (auto simp: le_Suc_eq)

lemma length_filter_map_less:
  assumes "\<And>w. w \<in> set t \<Longrightarrow> p (g w) \<Longrightarrow> p w" and "w \<in> set t" and "p w" and "\<not> p (g w)"
  shows "length (filter p (map g t)) < length (filter p t)"
  using assms
proof (induction t)
  case (Cons a t)
  have le: "length (filter p (map g t)) \<le> length (filter p t)" using Cons.prems(1) by (intro length_filter_map_le) auto
  show ?case
  proof (cases "w = a")
    case True
    then show ?thesis using Cons.prems le by simp
  next
    case False
    then have "length (filter p (map g t)) < length (filter p t)" using Cons by auto
    then show ?thesis using Cons.prems(1) [of a] by auto
  qed
qed simp

lemma ready_count_failed: "ready_count wk (mark_warm_sandbox_failed now i e db) \<le> ready_count wk db"
  unfolding ready_count_def mark_warm_sandbox_failed_def upd_warm_simps sql_update_def fst_conv
  by (rule length_filter_map_le) (auto simp: store_defs split: if_splits)

lemma ready_count_claimed:
  assumes "claim_ready_warm_sandbox locked now wk k db = (db1, Inr (Some i))"
  shows "ready_count wk db1 < ready_count wk db"
proof -
  obtain w where w: "claim_candidate locked wk db = Some w" "w_sandbox_id w = i"
    and db1: "db1 = fst (upd_warm (on_warm i) (claim_warm_f now k) db)"
    using assms by (auto simp: claim_ready_warm_sandbox_def split: option.splits if_splits)
  have "length (filter (ready_p wk) (map (\<lambda>r. if on_warm i r then claim_warm_f now k r else r) (session_warm_sandboxes db)))
      < length (filter (ready_p wk) (session_warm_sandboxes db))"
    using candidate_row [OF w(1)] w(2)
    by (intro length_filter_map_less [of _ _ _ w]) (auto simp: store_defs split: if_splits)
  then show ?thesis by (simp add: ready_count_def db1 sql_update_def)
qed

function pool_claim ::
  "'b pool_env \<Rightarrow> string \<Rightarrow> WarmClaim \<Rightarrow> db \<Rightarrow> 'b \<Rightarrow> db \<times> 'b \<times> (WarmPoolError + string option)" where
  "pool_claim ev wk c db b =
     (case claim_ready_warm_sandbox (pe_locked ev) (pe_now ev) wk (wc_thread_key c) db of
        (db1, Inl e) \<Rightarrow> (db1, b, Inl (StoreError e))
      | (db1, Inr None) \<Rightarrow> (db1, b, Inr None)
      | (db1, Inr (Some i)) \<Rightarrow>
          (case check_claimed ev c i b of
             (b1, Handed) \<Rightarrow> (db1, b1, Inr (Some i))
           | (b1, Aborted e) \<Rightarrow>
               (mark_warm_sandbox_failed (pe_now ev) i (sandbox_error_message e) db1, b1, Inl (SandboxFailure e))
           | (b1, Skipped failure) \<Rightarrow>
               pool_claim ev wk c (mark_warm_sandbox_failed (pe_now ev) i failure db1) b1))"
  by pat_completeness auto

termination
  by (relation "measure (\<lambda>(ev, wk, c, db, b). ready_count wk db)")
    (auto intro: le_less_trans [OF ready_count_failed ready_count_claimed [OF sym]])

declare pool_claim.simps [simp del]


section \<open>Replenishing\<close>

definition status_consumes_running_slot :: "SandboxStatus \<Rightarrow> bool" where
  "status_consumes_running_slot st \<longleftrightarrow> st = SbRunning"

fun fill ::
  "'b pool_env \<Rightarrow> WarmPoolConfig \<Rightarrow> WarmPool \<Rightarrow> nat \<Rightarrow> db \<Rightarrow> 'b \<Rightarrow> db \<times> 'b \<times> (WarmPoolError + unit)" where
  "fill ev cfg pool 0 db b = (db, b, Inr ())"
| "fill ev cfg pool (Suc n) db b =
     (let spec = (spec_factory pool ())\<lparr>sp_iron_control_principal := Some (bootstrap_iron_control_principal cfg)\<rparr> in
      case create_running (pe_backend ev) spec b of
        (b1, Inl e) \<Rightarrow> (db, b1, Inl (SandboxFailure e))
      | (b1, Inr handle) \<Rightarrow>
          (case insert_ready_warm_sandbox (pe_now ev) (h_id handle) (workload_key pool) db of
             (db1, Inl e) \<Rightarrow> (db1, fst (manager_stop (pe_backend ev) (h_id handle) b1), Inl (StoreError e))
           | (db1, Inr _) \<Rightarrow> fill ev cfg pool n db1 b1))"

text \<open>The loop over the ready sandboxes, and the one over the stale evicting ones.\<close>

fun prune_ready ::
  "'b pool_env \<Rightarrow> string list \<Rightarrow> db \<Rightarrow> 'b \<Rightarrow> db \<times> 'b \<times> (WarmPoolError + unit)" where
  "prune_ready ev [] db b = (db, b, Inr ())"
| "prune_ready ev (i # ids) db b =
     (case manager_status (pe_backend ev) i b of
        (b1, Inr SbRunning) \<Rightarrow> prune_ready ev ids db b1
      | (b1, Inr st) \<Rightarrow>
          prune_ready ev ids (mark_warm_sandbox_failed (pe_now ev) i
            (''ready warm sandbox was not running: '' @ status_debug (pe_debug ev) st) db) b1
      | (b1, Inl (SbNotFound _)) \<Rightarrow>
          prune_ready ev ids (mark_warm_sandbox_failed (pe_now ev) i ''ready warm sandbox was not found'' db) b1
      | (b1, Inl e) \<Rightarrow> (db, b1, Inl (SandboxFailure e)))"

definition prune_stale_ready_sandboxes ::
  "'b pool_env \<Rightarrow> db \<Rightarrow> 'b \<Rightarrow> db \<times> 'b \<times> (WarmPoolError + unit)" where
  "prune_stale_ready_sandboxes ev db b = prune_ready ev (list_ready_warm_sandbox_ids db) db b"

text \<open>Stopping a sandbox: one that is already gone counts as stopped.\<close>

definition stop_quietly :: "'b pool_env \<Rightarrow> string \<Rightarrow> ('b, unit) backend_call" where
  "stop_quietly ev i b =
     (case manager_stop (pe_backend ev) i b of
        (b1, Inr _) \<Rightarrow> (b1, Inr ())
      | (b1, Inl (SbNotFound _)) \<Rightarrow> (b1, Inr ())
      | (b1, Inl e) \<Rightarrow> (b1, Inl e))"

fun prune_evicting ::
  "'b pool_env \<Rightarrow> string list \<Rightarrow> db \<Rightarrow> 'b \<Rightarrow> db \<times> 'b \<times> (WarmPoolError + unit)" where
  "prune_evicting ev [] db b = (db, b, Inr ())"
| "prune_evicting ev (i # ids) db b =
     (case manager_status (pe_backend ev) i b of
        (b1, Inr st) \<Rightarrow>
          if status_consumes_running_slot st
          then (case stop_quietly ev i b1 of
                  (b2, Inl e) \<Rightarrow> (db, b2, Inl (SandboxFailure e))
                | (b2, Inr _) \<Rightarrow>
                    prune_evicting ev ids
                      (mark_warm_sandbox_failed (pe_now ev) i ''stale evicting warm sandbox stopped'' db) b2)
          else prune_evicting ev ids (mark_warm_sandbox_failed (pe_now ev) i
                 (''stale evicting warm sandbox was not running: '' @ status_debug (pe_debug ev) st) db) b1
      | (b1, Inl (SbNotFound _)) \<Rightarrow>
          prune_evicting ev ids
            (mark_warm_sandbox_failed (pe_now ev) i ''stale evicting warm sandbox was not found'' db) b1
      | (b1, Inl e) \<Rightarrow> (db, b1, Inl (SandboxFailure e)))"

definition prune_stale_evicting_sandboxes ::
  "'b pool_env \<Rightarrow> db \<Rightarrow> 'b \<Rightarrow> db \<times> 'b \<times> (WarmPoolError + unit)" where
  "prune_stale_evicting_sandboxes ev db b =
     prune_evicting ev
       (list_stale_evicting_warm_sandbox_ids (pe_secs ev) (pe_now ev) STALE_EVICTING_WARM_SANDBOX_AGE db) db b"

fun evict_all :: "'b pool_env \<Rightarrow> string list \<Rightarrow> db \<Rightarrow> 'b \<Rightarrow> db \<times> 'b" where
  "evict_all ev [] db b = (db, b)"
| "evict_all ev (i # ids) db b =
     (case evict_unclaimed_warm_sandbox (pe_now ev) i db of
        (db1, False) \<Rightarrow> evict_all ev ids db1 b
      | (db1, True) \<Rightarrow> evict_all ev ids db1 (fst (manager_stop (pe_backend ev) i b)))"

definition evict_unconfigured_sandboxes :: "'b pool_env \<Rightarrow> WarmPool list \<Rightarrow> db \<Rightarrow> 'b \<Rightarrow> db \<times> 'b" where
  "evict_unconfigured_sandboxes ev pools db b =
     evict_all ev (list_unclaimable_ready_warm_sandbox_ids (pe_secs ev) (pe_now ev) (map workload_key pools)
       UNCONFIGURED_WARM_SANDBOX_GRACE db) db b"

definition available_running_slots ::
  "'b pool_env \<Rightarrow> WarmPoolConfig \<Rightarrow> 'b \<Rightarrow> 'b \<times> (WarmPoolError + nat)" where
  "available_running_slots ev cfg b =
     (case max_running_sandboxes cfg of
        None \<Rightarrow> (b, Inr USIZE_MAX)
      | Some max_running \<Rightarrow>
          (case list_observed (pe_backend ev) b of
             (b1, Inl e) \<Rightarrow> (b1, Inl (SandboxFailure e))
           | (b1, Inr obs) \<Rightarrow>
               (b1, Inr (max_running - length (filter (\<lambda>o'. status_consumes_running_slot (o_status o')) obs)))))"

text \<open>A pool that fails to fill is logged and does not stop the others.\<close>

definition pool_needed :: "WarmPool \<Rightarrow> nat \<Rightarrow> db \<Rightarrow> nat" where
  "pool_needed pool available db =
     min (target_size pool - nat (max (count_ready_warm_sandboxes db (workload_key pool)) 0)) available"

fun fill_pools ::
  "'b pool_env \<Rightarrow> WarmPoolConfig \<Rightarrow> WarmPool list \<Rightarrow> nat \<Rightarrow> db \<Rightarrow> 'b \<Rightarrow> db \<times> 'b" where
  "fill_pools ev cfg [] available db b = (db, b)"
| "fill_pools ev cfg (pool # pools) available db b =
     (let needed = pool_needed pool available db; (db1, b1, _) = fill ev cfg pool needed db b
      in fill_pools ev cfg pools (available - needed) db1 b1)"

definition replenish_once ::
  "'b pool_env \<Rightarrow> WarmPoolConfig \<Rightarrow> WarmPool list \<Rightarrow> db \<Rightarrow> 'b \<Rightarrow> db \<times> 'b \<times> (WarmPoolError + unit)" where
  "replenish_once ev cfg pools db b =
     (case prune_stale_ready_sandboxes ev db b of
        (db1, b1, Inl e) \<Rightarrow> (db1, b1, Inl e)
      | (db1, b1, Inr _) \<Rightarrow>
          (case prune_stale_evicting_sandboxes ev db1 b1 of
             (db2, b2, Inl e) \<Rightarrow> (db2, b2, Inl e)
           | (db2, b2, Inr _) \<Rightarrow>
               let (db3, b3) = evict_unconfigured_sandboxes ev pools db2 b2 in
               (case available_running_slots ev cfg b3 of
                  (b4, Inl e) \<Rightarrow> (db3, b4, Inl e)
                | (b4, Inr available) \<Rightarrow>
                    let (db5, b5) = fill_pools ev cfg pools available db3 b4 in (db5, b5, Inr ()))))"


section \<open>What a claim hands out\<close>

lemma mark_failed_status:
  "warm_status (mark_warm_sandbox_failed now i e db) j =
     (if j = i then map_option (\<lambda>_. ''failed'') (warm_status db i) else warm_status db j)"
  by (cases "row_by w_sandbox_id j (session_warm_sandboxes db)")
    (auto simp: mark_warm_sandbox_failed_def warm_status_def release_warm.row_after store_defs dest: row_by_Some)

lemma mark_failed_has_session [simp]: "has_session (mark_warm_sandbox_failed now i e db) = has_session db"
  by (rule ext) (simp add: mark_warm_sandbox_failed_def has_session_def)

lemma claim_has_session:
  "claim_ready_warm_sandbox locked now wk k db = (db1, r) \<Longrightarrow> has_session db1 = has_session db"
  by (rule ext) (auto simp: claim_ready_warm_sandbox_def has_session_def split: option.splits if_splits)

lemma claim_row:
  assumes "store_inv db" and "claim_ready_warm_sandbox locked now wk k db = (db1, Inr (Some i))"
  obtains w where "row_by w_sandbox_id i (session_warm_sandboxes db) = Some w" and "ready_p wk w"
    and "row_by w_sandbox_id i (session_warm_sandboxes db1) = Some (claim_warm_f now k w)"
proof -
  obtain w where w: "claim_candidate locked wk db = Some w" "w_sandbox_id w = i"
    and db1: "db1 = fst (upd_warm (on_warm i) (claim_warm_f now k) db)"
    using assms(2) by (auto simp: claim_ready_warm_sandbox_def split: option.splits if_splits)
  then have row: "row_by w_sandbox_id i (session_warm_sandboxes db) = Some w"
    using row_by_unique [OF warm_distinct [OF assms(1)]] candidate_row(1) by blast
  then have "row_by w_sandbox_id i (session_warm_sandboxes db1) = Some (claim_warm_f now k w)"
    using w(2) by (simp add: db1 claim_warm.row_after on_warm_def)
  then show thesis using that row candidate_row(2) [OF w(1)] by blast
qed

lemma claim_mark_other:
  assumes "claim_ready_warm_sandbox locked now wk k db = (db1, Inr (Some i))" and "j \<noteq> i"
  shows "row_by w_sandbox_id j (session_warm_sandboxes (mark_warm_sandbox_failed now' i e db1)) =
    row_by w_sandbox_id j (session_warm_sandboxes db)"
proof -
  have db1: "db1 = fst (upd_warm (on_warm i) (claim_warm_f now k) db)"
    using assms(1) by (auto simp: claim_ready_warm_sandbox_def split: option.splits if_splits)
  show ?thesis using assms(2)
    by (cases "row_by w_sandbox_id j (session_warm_sandboxes db)")
      (auto simp: db1 mark_warm_sandbox_failed_def claim_warm.row_after release_warm.row_after on_warm_def
        dest: row_by_Some)
qed

lemma claim_none:
  assumes "claim_ready_warm_sandbox locked now wk k db = (db1, Inr None)"
  shows "db1 = db \<and> (\<forall>w \<in> set (session_warm_sandboxes db). ready_p wk w \<longrightarrow> locked (w_sandbox_id w))"
proof -
  have "claim_candidate locked wk db = None" "db1 = db"
    using assms by (auto simp: claim_ready_warm_sandbox_def split: option.splits if_splits)
  then have "filter (\<lambda>w. ready_p wk w \<and> \<not> locked (w_sandbox_id w)) (session_warm_sandboxes db) = []"
    by (simp add: claim_candidate_def by_age_def) (metis length_0_conv length_order_by)
  then show ?thesis using \<open>db1 = db\<close> by (auto simp: filter_empty_conv)
qed

lemma check_claimed_handed:
  assumes "check_claimed ev c i b = (b', Handed)"
  shows "\<exists>b1. be_status (pe_backend ev) i b = (b1, Inr SbRunning) \<and> bind_claimed (pe_backend ev) i c b1 = (b', Inr ())"
  using assms
  by (auto simp: check_claimed_def manager_status_def split: prod.splits sum.splits SandboxStatus.splits SandboxError.splits)

definition handed_out :: "'b pool_env \<Rightarrow> string \<Rightarrow> WarmClaim \<Rightarrow> db \<Rightarrow> db \<Rightarrow> 'b \<Rightarrow> string \<Rightarrow> bool" where
  "handed_out ev wk c db db' b' i \<longleftrightarrow>
     (\<exists>w. row_by w_sandbox_id i (session_warm_sandboxes db) = Some w \<and> ready_p wk w \<and>
        row_by w_sandbox_id i (session_warm_sandboxes db') = Some (claim_warm_f (pe_now ev) (wc_thread_key c) w)) \<and>
     (\<exists>b0 b1. be_status (pe_backend ev) i b0 = (b1, Inr SbRunning) \<and>
        bind_claimed (pe_backend ev) i c b1 = (b', Inr ()))"

definition none_left :: "'b pool_env \<Rightarrow> string \<Rightarrow> db \<Rightarrow> bool" where
  "none_left ev wk db \<longleftrightarrow> (\<forall>w \<in> set (session_warm_sandboxes db). ready_p wk w \<longrightarrow> pe_locked ev (w_sandbox_id w))"

lemma handed_out_earlier:
  assumes "handed_out ev wk c db1 db' b' i" and "warm_status db j \<noteq> None" and "warm_status db1 j \<noteq> Some ''ready''"
    and "\<And>i'. i' \<noteq> j \<Longrightarrow> row_by w_sandbox_id i' (session_warm_sandboxes db1) = row_by w_sandbox_id i' (session_warm_sandboxes db)"
  shows "handed_out ev wk c db db' b' i"
proof -
  from assms(1) obtain w where w: "row_by w_sandbox_id i (session_warm_sandboxes db1) = Some w" "ready_p wk w"
    by (auto simp: handed_out_def)
  then have "i \<noteq> j" using assms(3) by (auto simp: warm_status_def ready_p_def)
  then show ?thesis using assms(1,4) by (simp add: handed_out_def)
qed

text \<open>
  C38. \<^verbatim>\<open>WarmPoolManager::claim\<close> always returns, for every backend, and what it returns is right: a
  sandbox it hands out was ready in this pool, is now recorded as claimed by the thread, was seen running,
  and has been bound as the claim asks; it reports an empty pool only when no unlocked ready sandbox of the
  workload is left; it fails only with a backend error; and the stored state stays well-formed.
\<close>

theorem pool_claim_result:
  assumes "store_inv db" and "has_session db (wc_thread_key c)"
  shows "case pool_claim ev wk c db b of (db', b', res) \<Rightarrow> store_inv db' \<and>
    (case res of
       Inr (Some i) \<Rightarrow> handed_out ev wk c db db' b' i
     | Inr None \<Rightarrow> none_left ev wk db'
     | Inl e \<Rightarrow> \<exists>be. e = SandboxFailure be)"
  using assms
proof (induction ev wk c db b rule: pool_claim.induct)
  case (1 ev wk c db b)
  obtain db1 r where cl: "claim_ready_warm_sandbox (pe_locked ev) (pe_now ev) wk (wc_thread_key c) db = (db1, r)"
    by fastforce
  have inv1: "store_inv db1" using sandbox_ops_inv(2) [OF "1.prems"(1)] cl by (metis fst_conv)
  have "r \<noteq> Inl e" for e using cl "1.prems"(2) by (auto simp: claim_ready_warm_sandbox_def split: option.splits if_splits)
  then consider (none) "r = Inr None" | (some) i where "r = Inr (Some i)"
    by (metis obj_sumE option.exhaust)
  then show ?case
  proof cases
    case none
    then show ?thesis using cl inv1 claim_none [OF cl [unfolded none]]
      by (simp add: pool_claim.simps [of ev wk c db b] none_left_def)
  next
    case (some i)
    obtain w where w: "row_by w_sandbox_id i (session_warm_sandboxes db) = Some w" "ready_p wk w"
      "row_by w_sandbox_id i (session_warm_sandboxes db1) = Some (claim_warm_f (pe_now ev) (wc_thread_key c) w)"
      using claim_row [OF "1.prems"(1)] cl some by blast
    obtain b1 d where ch: "check_claimed ev c i b = (b1, d)" by fastforce
    show ?thesis
    proof (cases d)
      case Handed
      then show ?thesis
        using cl some ch inv1 w check_claimed_handed [of ev c i b b1]
        by (auto simp: pool_claim.simps [of ev wk c db b] handed_out_def)
    next
      case (Aborted e)
      then show ?thesis
        using cl some ch sandbox_ops_inv(3) [OF inv1] by (simp add: pool_claim.simps [of ev wk c db b])
    next
      case (Skipped f)
      let ?db2 = "mark_warm_sandbox_failed (pe_now ev) i f db1"
      have rec: "pool_claim ev wk c db b = pool_claim ev wk c ?db2 b1"
        using cl some ch Skipped by (simp add: pool_claim.simps [of ev wk c db b])
      have IH: "case pool_claim ev wk c ?db2 b1 of (db', b', res) \<Rightarrow> store_inv db' \<and>
          (case res of Inr (Some i) \<Rightarrow> handed_out ev wk c ?db2 db' b' i
           | Inr None \<Rightarrow> none_left ev wk db' | Inl e \<Rightarrow> \<exists>be. e = SandboxFailure be)"
        by (rule "1.IH" [OF cl [symmetric] some refl ch [symmetric] Skipped])
          (use sandbox_ops_inv(3) [OF inv1] claim_has_session [OF cl] "1.prems"(2) in simp_all)
      have other: "row_by w_sandbox_id i' (session_warm_sandboxes ?db2) = row_by w_sandbox_id i' (session_warm_sandboxes db)"
        if "i' \<noteq> i" for i'
        using claim_mark_other that cl some by blast
      have "warm_status ?db2 i \<noteq> Some ''ready''" "warm_status db i \<noteq> None"
        using w(1) mark_failed_status [of "pe_now ev" i f db1 i] by (auto simp: warm_status_def [of db])
      then have "handed_out ev wk c ?db2 db' b' j \<Longrightarrow> handed_out ev wk c db db' b' j" for db' b' j
        using handed_out_earlier other by metis
      then show ?thesis using IH unfolding rec by (auto split: prod.splits sum.splits option.splits)
    qed
  qed
qed


definition example_backend :: "nat SandboxBackend" where
  "example_backend =
     \<lparr>be_name = ''example'',
      be_create = (\<lambda>spec n. (Suc n, Inr \<lparr>h_id = ''sb-'' @ show_nat n, h_backend = ''example''\<rparr>)),
      be_open_io = (\<lambda>i n. (n, Inr ())), be_read_output_since = (\<lambda>i t n. (n, Inr [])),
      be_status = (\<lambda>i n. (n, Inr SbRunning)), be_observe = (\<lambda>i n. (n, Inr (observed_new i ''example'' SbRunning))),
      be_list_observed = (\<lambda>n. (n, Inr [])),
      be_stop = (\<lambda>i n. (n, Inr ())), be_pause = (\<lambda>i n. (n, Inr ())), be_resume = (\<lambda>i n. (n, Inr ())),
      be_assign_principal = (\<lambda>i prn q l n. (n, Inr ())), be_ensure_proxy = (\<lambda>_ _ _ _ n. (n, Inr ())),
      be_enable_observability = (\<lambda>i n. (n, Inr ())),
      be_reap_orphans = (\<lambda>d n. (n, Inr []))\<rparr>"

definition example_env :: "nat pool_env" where
  "example_env = \<lparr>pe_backend = example_backend, pe_now = 8, pe_locked = (\<lambda>_. False), pe_secs = int, pe_debug = (\<lambda>m. m)\<rparr>"

definition example_claim :: WarmClaim where
  "example_claim = \<lparr>wc_thread_key = ''api:1'', wc_iron_control_principal = None, wc_requester_principal_id = None,
     wc_proxy_labels = [], wc_observability_enabled = False\<rparr>"

theorem pool_claim_result_witness:
  "store_inv example_warm_db \<and> has_session example_warm_db (wc_thread_key example_claim) \<and>
   (case pool_claim example_env ''wk'' example_claim example_warm_db 0 of (db', b', res) \<Rightarrow> store_inv db')"
proof -
  have h: "has_session example_warm_db (wc_thread_key example_claim)"
    using example_warm(2) by (simp add: example_claim_def)
  show ?thesis
    using pool_claim_result [OF example_warm(1) h, of example_env "''wk''" 0] example_warm(1) h
    by (auto split: prod.splits)
qed

section \<open>Replenishing stays within the slots\<close>

lemma ready_count_insert:
  assumes "insert_ready_warm_sandbox now i wk db = (db1, Inr u)"
  shows "ready_count wk' db1 = ready_count wk' db + (if wk' = wk then 1 else 0)"
  using assms
  by (auto simp: insert_ready_warm_sandbox_def ready_count_def ready_p_def new_warm_row_def split: if_splits)

lemma fill_bounds:
  assumes "\<And>spec b. creates (fst (be_create (pe_backend ev) spec b)) \<le> Suc (creates b)"
    and "\<And>i b. creates (fst (be_stop (pe_backend ev) i b)) \<le> creates b"
    and "fill ev cfg pool n db b = (db', b', r)"
  shows "creates b' \<le> creates b + n \<and>
    (\<forall>wk. ready_count wk db' \<le> ready_count wk db + (if wk = workload_key pool then n else 0))"
  using assms(3)
proof (induction n arbitrary: db b)
  case (Suc n)
  let ?spec = "(spec_factory pool ())\<lparr>sp_iron_control_principal := Some (bootstrap_iron_control_principal cfg)\<rparr>"
  obtain b1 h where cr: "be_create (pe_backend ev) ?spec b = (b1, h)" by fastforce
  have b1: "creates b1 \<le> Suc (creates b)" using assms(1) [of ?spec b] cr by simp
  show ?case
  proof (cases h)
    case (Inl e)
    then show ?thesis using Suc.prems cr b1 by (simp add: manager_defs Let_def)
  next
    case (Inr hd)
    obtain db1 q where ins: "insert_ready_warm_sandbox (pe_now ev) (h_id hd) (workload_key pool) db = (db1, q)" by fastforce
    show ?thesis
    proof (cases q)
      case (Inl e)
      then have "db1 = db" using ins by (auto simp: insert_ready_warm_sandbox_def split: if_splits)
      then show ?thesis
        using Suc.prems cr b1 Inr ins Inl assms(2) [of "h_id hd" b1] by (simp add: manager_defs Let_def)
    next
      fix u
      assume q: "q = Inr u"
      then have f: "fill ev cfg pool n db1 b1 = (db', b', r)"
        using Suc.prems cr Inr ins by (simp add: manager_defs Let_def)
      note rc = ready_count_insert [OF ins [unfolded q]]
      have "ready_count wk db' \<le> ready_count wk db + (if wk = workload_key pool then Suc n else 0)" for wk
        using Suc.IH [OF f] rc [of wk] by (cases "wk = workload_key pool") (auto dest: spec [of _ wk])
      then show ?thesis using Suc.IH [OF f] b1 by simp
    qed
  qed
qed simp

lemma needed_bound:
  "pool_needed pool available db \<le> available"
  "ready_count (workload_key pool) db + pool_needed pool available db
     \<le> max (ready_count (workload_key pool) db) (target_size pool)"
  by (auto simp: pool_needed_def count_ready_warm_sandboxes_def ready_count_def)

text \<open>
  Replenishing never exceeds its budget: for every backend whose stop starts nothing and whose create
  starts at most one sandbox, filling the pools starts at most as many sandboxes as there are free slots,
  whatever fails on the way, and no pool grows past its target.
\<close>

lemma fill_pools_within_budget:
  assumes create: "\<And>spec b. creates (fst (be_create (pe_backend ev) spec b)) \<le> Suc (creates b)"
    and stop: "\<And>i b. creates (fst (be_stop (pe_backend ev) i b)) \<le> creates b"
    and keys: "distinct (map workload_key pools)"
    and run: "fill_pools ev cfg pools available db b = (db', b')"
  shows "creates b' \<le> creates b + available \<and>
    (\<forall>pool \<in> set pools. ready_count (workload_key pool) db' \<le>
      max (ready_count (workload_key pool) db) (target_size pool))"
proof -
  have "creates b' \<le> creates b + available \<and>
    (\<forall>pool \<in> set pools. ready_count (workload_key pool) db' \<le>
      max (ready_count (workload_key pool) db) (target_size pool)) \<and>
    (\<forall>wk. wk \<notin> workload_key ` set pools \<longrightarrow> ready_count wk db' \<le> ready_count wk db)"
    using keys run
  proof (induction pools arbitrary: available db b)
    case (Cons pool pools)
    let ?n = "pool_needed pool available db"
    obtain db1 b1 r where f: "fill ev cfg pool ?n db b = (db1, b1, r)" by (metis prod_cases3)
    have rest: "fill_pools ev cfg pools (available - ?n) db1 b1 = (db', b')"
      using Cons.prems(2) f by (simp add: Let_def)
    note fb = fill_bounds [OF create stop f] and nb = needed_bound [where pool = pool and available = available and db = db]
    have fr: "ready_count wk db1 \<le> ready_count wk db" if "wk \<noteq> workload_key pool" for wk
      using fb that by (metis add_0_right)
    have IH: "creates b' \<le> creates b1 + (available - ?n)"
      "\<forall>p \<in> set pools. ready_count (workload_key p) db' \<le> max (ready_count (workload_key p) db1) (target_size p)"
      "\<forall>wk. wk \<notin> workload_key ` set pools \<longrightarrow> ready_count wk db' \<le> ready_count wk db1"
      using Cons.IH [OF _ rest] Cons.prems(1) by auto
    have "creates b' \<le> creates b + available" using IH(1) fb nb(1) by linarith
    moreover have "ready_count (workload_key pool) db' \<le> max (ready_count (workload_key pool) db) (target_size pool)"
    proof -
      have "ready_count (workload_key pool) db' \<le> ready_count (workload_key pool) db1"
        using IH(3) Cons.prems(1) by auto
      also have "\<dots> \<le> ready_count (workload_key pool) db + ?n" using fb by metis
      finally show ?thesis using nb(2) by linarith
    qed
    moreover have "ready_count (workload_key p) db' \<le> max (ready_count (workload_key p) db) (target_size p)"
      if "p \<in> set pools" for p
    proof -
      have "workload_key p \<in> workload_key ` set pools" using that by simp
      then have "workload_key p \<noteq> workload_key pool" using Cons.prems(1) by auto
      then show ?thesis using IH(2) that fr [of "workload_key p"] by fastforce
    qed
    moreover have "ready_count wk db' \<le> ready_count wk db" if "wk \<notin> workload_key ` set (pool # pools)" for wk
      using IH(3) that fr [of wk] by fastforce
    ultimately show ?case by simp
  qed simp
  then show ?thesis by blast
qed

end
