(* ===== verification/Sandbox_Reaper.thy ===== *)
theory Sandbox_Reaper
  imports Sandbox_Core
begin

text \<open>
  \<^verbatim>\<open>crates/centaur-sandbox-manager/src/reaper.rs\<close>, the max-lifetime sweep, and
  \<^verbatim>\<open>crates/centaur-session-runtime/src/cleanup.rs\<close>, the sweep over unreferenced sandboxes and the
  idle backstop. \<open>load\<close> is the reading of a sandbox's durable state, which may fail, and
  \<open>evict\<close> the eviction from the pool, which may fail without effect; both are the store's
  operations in every instance.
\<close>

section \<open>The max-lifetime reaper\<close>

record SandboxReaperConfig =
  reap_interval :: duration
  orphan_sweep_grace :: duration
  max_lifetime :: "duration option"

definition reaper_is_enabled :: "SandboxReaperConfig \<Rightarrow> bool" where
  "reaper_is_enabled cfg \<longleftrightarrow> 0 < reap_interval cfg \<or> max_lifetime cfg \<noteq> None"

definition no_reap_state :: SandboxReapState where
  "no_reap_state = \<lparr>rs_claimed_at = None, rs_active_execution_since = None\<rparr>"

text \<open>\<^verbatim>\<open>now.duration_since(since).is_ok_and(|age| age >= max_lifetime)\<close>\<close>

definition expired :: "time \<Rightarrow> duration \<Rightarrow> time option \<Rightarrow> bool" where
  "expired now lifetime since =
     (case since of None \<Rightarrow> False | Some t \<Rightarrow> t \<le> now \<and> int lifetime \<le> now - t)"

definition reap_reason ::
  "ObservedSandbox \<Rightarrow> SandboxReapState \<Rightarrow> time \<Rightarrow> SandboxReaperConfig \<Rightarrow> string option" where
  "reap_reason ob state now cfg =
     (case max_lifetime cfg of
        None \<Rightarrow> None
      | Some lifetime \<Rightarrow>
          if o_status ob = SbGone \<or> \<not> expired now lifetime (coalesce (rs_claimed_at state) (o_created_at ob))
          then None
          else (case rs_active_execution_since state of
                  None \<Rightarrow> Some ''max_lifetime''
                | Some since \<Rightarrow>
                    if expired now lifetime (Some since)
                    then Some ''active_execution_exceeded_max_lifetime'' else None))"

text \<open>One observed sandbox: the database and the backend after it, and whether it was stopped.\<close>

definition reap_one ::
  "'b SandboxBackend \<Rightarrow> (string \<Rightarrow> db \<Rightarrow> SandboxReapState store_result) \<Rightarrow>
     (string \<Rightarrow> db \<Rightarrow> db \<times> bool store_result) \<Rightarrow> SandboxReaperConfig \<Rightarrow> time \<Rightarrow> ObservedSandbox \<Rightarrow>
     db \<Rightarrow> 'b \<Rightarrow> db \<times> 'b \<times> nat" where
  "reap_one be load evict cfg now ob db b =
     (if reap_reason ob no_reap_state now cfg = None then (db, b, 0)
      else case load (o_id ob) db of
        Inl _ \<Rightarrow> (db, b, 0)
      | Inr state \<Rightarrow>
          if reap_reason ob state now cfg = None then (db, b, 0)
          else case (if rs_claimed_at state = None then evict (o_id ob) db else (db, Inr True)) of
                 (db1, Inl _) \<Rightarrow> (db1, b, 0)
               | (db1, Inr False) \<Rightarrow> (db1, b, 0)
               | (db1, Inr True) \<Rightarrow>
                   (case manager_stop be (o_id ob) b of
                      (b1, Inr _) \<Rightarrow> (db1, b1, 1)
                    | (b1, Inl _) \<Rightarrow> (db1, b1, 0)))"

fun reap_all ::
  "'b SandboxBackend \<Rightarrow> (string \<Rightarrow> db \<Rightarrow> SandboxReapState store_result) \<Rightarrow>
     (string \<Rightarrow> db \<Rightarrow> db \<times> bool store_result) \<Rightarrow> SandboxReaperConfig \<Rightarrow> time \<Rightarrow> ObservedSandbox list \<Rightarrow>
     nat \<Rightarrow> db \<Rightarrow> 'b \<Rightarrow> db \<times> 'b \<times> nat" where
  "reap_all be load evict cfg now [] reaped db b = (db, b, reaped)"
| "reap_all be load evict cfg now (ob # obs) reaped db b =
     (let (db1, b1, n) = reap_one be load evict cfg now ob db b
      in reap_all be load evict cfg now obs (reaped + n) db1 b1)"

definition reap_once ::
  "'b SandboxBackend \<Rightarrow> (string \<Rightarrow> db \<Rightarrow> SandboxReapState store_result) \<Rightarrow>
     (string \<Rightarrow> db \<Rightarrow> db \<times> bool store_result) \<Rightarrow> SandboxReaperConfig \<Rightarrow> time \<Rightarrow> db \<Rightarrow> 'b \<Rightarrow>
     db \<times> 'b \<times> nat sandbox_result" where
  "reap_once be load evict cfg now db b =
     (case list_observed be b of
        (b1, Inl e) \<Rightarrow> (db, b1, Inl e)
      | (b1, Inr obs) \<Rightarrow>
          (let (db2, b2, reaped) = reap_all be load evict cfg now obs 0 db b1 in
           case reap_orphan_iron_proxy_resources be (orphan_sweep_grace cfg) b2 of
             (b3, Inl e) \<Rightarrow> (db2, b3, Inl e)
           | (b3, Inr _) \<Rightarrow> (db2, b3, Inr reaped)))"

section \<open>The cleanup worker\<close>

record SessionSandboxCleanupReport =
  stopped_orphans :: nat
  failed_orphans :: nat
  idle_pause_attempts :: nat
  failed_idle_pauses :: nat

definition empty_report :: SessionSandboxCleanupReport where
  "empty_report = \<lparr>stopped_orphans = 0, failed_orphans = 0, idle_pause_attempts = 0, failed_idle_pauses = 0\<rparr>"

definition orphan_reap_eligible :: "ObservedSandbox \<Rightarrow> string list \<Rightarrow> bool" where
  "orphan_reap_eligible sandbox referenced \<longleftrightarrow>
     o_id sandbox \<notin> set referenced \<and>
     map_of (o_labels sandbox) ''centaur.ai/component'' \<noteq> Some ''workflow-run'' \<and>
     o_status sandbox \<noteq> SbCreated \<and> o_status sandbox \<noteq> SbGone"

text \<open>A \<^verbatim>\<open>BTreeSet\<close> is the sorted list of its elements.\<close>

definition btree_set :: "string list \<Rightarrow> string list" where
  "btree_set xs = sort (remdups xs)"

definition current_orphans :: "ObservedSandbox list \<Rightarrow> string list \<Rightarrow> string list" where
  "current_orphans observed referenced =
     btree_set (map o_id (filter (\<lambda>s. orphan_reap_eligible s referenced) observed))"

definition select_orphan_reap_candidates ::
  "ObservedSandbox list \<Rightarrow> string list \<Rightarrow> string list \<Rightarrow> string list \<times> string list" where
  "select_orphan_reap_candidates observed referenced pending =
     (let current = current_orphans observed referenced
      in (filter (\<lambda>i. i \<in> set pending) current, current))"

text \<open>The worker's state is its pending orphans and the open pipes; \<open>pipes\<close> are kept by sandbox id.\<close>

fun stop_orphans ::
  "'b SandboxBackend \<Rightarrow> string list \<Rightarrow> string list \<Rightarrow> string list \<Rightarrow> SessionSandboxCleanupReport \<Rightarrow> 'b \<Rightarrow>
     string list \<times> string list \<times> SessionSandboxCleanupReport \<times> 'b" where
  "stop_orphans be [] pending pipes report b = (pending, pipes, report, b)"
| "stop_orphans be (i # ids) pending pipes report b =
     (case manager_stop be i b of
        (b1, Inl (SbNotFound _)) \<Rightarrow>
          stop_orphans be ids (removeAll i pending) (removeAll i pipes)
            (report\<lparr>stopped_orphans := stopped_orphans report + 1\<rparr>) b1
      | (b1, Inr _) \<Rightarrow>
          stop_orphans be ids (removeAll i pending) (removeAll i pipes)
            (report\<lparr>stopped_orphans := stopped_orphans report + 1\<rparr>) b1
      | (b1, Inl _) \<Rightarrow>
          stop_orphans be ids pending pipes (report\<lparr>failed_orphans := failed_orphans report + 1\<rparr>) b1)"

definition reap_unreferenced_sandboxes ::
  "'b SandboxBackend \<Rightarrow> string list \<Rightarrow> string list \<Rightarrow> SessionSandboxCleanupReport \<Rightarrow> db \<Rightarrow> 'b \<Rightarrow>
     string list \<times> string list \<times> SessionSandboxCleanupReport \<times> 'b \<times> unit sandbox_result" where
  "reap_unreferenced_sandboxes be pending pipes report db b =
     (let referenced = list_referenced_sandbox_ids db in
      case list_observed be b of
        (b1, Inl e) \<Rightarrow> (pending, pipes, report, b1, Inl e)
      | (b1, Inr observed) \<Rightarrow>
          let (candidates, pending1) = select_orphan_reap_candidates observed referenced pending;
              (pending2, pipes2, report2, b2) = stop_orphans be candidates pending1 pipes report b1
          in (pending2, pipes2, report2, b2, Inr ()))"

text \<open>\<^verbatim>\<open>pause_idle_sandboxes\<close>: \<open>pause\<close> is \<^verbatim>\<open>record_idle_pause\<close> of the session runtime.\<close>

fun pause_candidates ::
  "(IdleSandboxCandidate \<Rightarrow> 's \<Rightarrow> 's \<times> bool) \<Rightarrow> IdleSandboxCandidate list \<Rightarrow> SessionSandboxCleanupReport \<Rightarrow> 's \<Rightarrow>
     SessionSandboxCleanupReport \<times> 's" where
  "pause_candidates pause [] report s = (report, s)"
| "pause_candidates pause (c # cs) report s =
     (let (s1, paused) = pause c s;
          report1 = report\<lparr>idle_pause_attempts := idle_pause_attempts report + 1\<rparr>
      in pause_candidates pause cs
           (if paused then report1 else report1\<lparr>failed_idle_pauses := failed_idle_pauses report1 + 1\<rparr>) s1)"

definition pause_idle_sandboxes ::
  "(IdleSandboxCandidate \<Rightarrow> 's \<Rightarrow> 's \<times> bool) \<Rightarrow> time \<Rightarrow> duration option \<Rightarrow> SessionSandboxCleanupReport \<Rightarrow> db \<Rightarrow> 's \<Rightarrow>
     SessionSandboxCleanupReport \<times> 's \<times> unit store_result" where
  "pause_idle_sandboxes pause now idle_backstop report db s =
     (case idle_backstop of
        None \<Rightarrow> (report, s, Inr ())
      | Some backstop \<Rightarrow>
          (case list_idle_sandbox_candidates now backstop db of
             Inl e \<Rightarrow> (report, s, Inl e)
           | Inr cs \<Rightarrow> let (report1, s1) = pause_candidates pause cs report s in (report1, s1, Inr ())))"

record SessionSandboxCleanupConfig =
  cleanup_interval :: "duration option"
  cleanup_idle_backstop :: "duration option"

definition cleanup_is_enabled :: "SessionSandboxCleanupConfig \<Rightarrow> bool" where
  "cleanup_is_enabled cfg \<longleftrightarrow> cleanup_interval cfg \<noteq> None"

datatype CleanupError = CleanupSandbox SandboxError | CleanupStore SessionStoreError

text \<open>One sweep of the worker: orphans first, then the idle backstop.\<close>

definition cleanup_once ::
  "'b SandboxBackend \<Rightarrow> (IdleSandboxCandidate \<Rightarrow> db \<times> 'b \<Rightarrow> (db \<times> 'b) \<times> bool) \<Rightarrow> time \<Rightarrow>
     SessionSandboxCleanupConfig \<Rightarrow> string list \<Rightarrow> string list \<Rightarrow> db \<Rightarrow> 'b \<Rightarrow>
     string list \<times> string list \<times> (db \<times> 'b) \<times> (CleanupError + SessionSandboxCleanupReport)" where
  "cleanup_once be pause now cfg pending pipes db b =
     (case reap_unreferenced_sandboxes be pending pipes empty_report db b of
        (pending1, pipes1, _, b1, Inl e) \<Rightarrow> (pending1, pipes1, (db, b1), Inl (CleanupSandbox e))
      | (pending1, pipes1, report1, b1, Inr _) \<Rightarrow>
          (case pause_idle_sandboxes pause now (cleanup_idle_backstop cfg) report1 db (db, b1) of
             (_, s, Inl e) \<Rightarrow> (pending1, pipes1, s, Inl (CleanupStore e))
           | (report2, s, Inr _) \<Rightarrow> (pending1, pipes1, s, Inr report2)))"

section \<open>When the reaper stops a sandbox\<close>

text \<open>
  The store's operations, as the reaper calls them: either may find the database unreachable, for the
  sandboxes of \<open>down\<close>.
\<close>

definition load_state :: "(string \<Rightarrow> bool) \<Rightarrow> string \<Rightarrow> db \<Rightarrow> SandboxReapState store_result" where
  "load_state down i db = (if down i then Inl (Sqlx RowNotFound) else Inr (sandbox_reap_state db i))"

definition evict_warm_row :: "(string \<Rightarrow> bool) \<Rightarrow> time \<Rightarrow> string \<Rightarrow> db \<Rightarrow> db \<times> bool store_result" where
  "evict_warm_row down now i db =
     (if down i then (db, Inl (Sqlx RowNotFound)) else map_prod id Inr (evict_unclaimed_warm_sandbox now i db))"

lemma reap_reason_some:
  "reap_reason ob state now cfg \<noteq> None \<longleftrightarrow>
     (\<exists>lifetime. max_lifetime cfg = Some lifetime \<and> o_status ob \<noteq> SbGone \<and>
       expired now lifetime (coalesce (rs_claimed_at state) (o_created_at ob)) \<and>
       (case rs_active_execution_since state of None \<Rightarrow> True | Some t \<Rightarrow> expired now lifetime (Some t)))"
  by (auto simp: reap_reason_def split: option.splits if_splits)

lemma reap_state_since:
  assumes "t \<in> set (active_since db i)"
  obtains t' where "rs_active_execution_since (sandbox_reap_state db i) = Some t'" and "t' \<le> t"
    and "t' \<in> set (active_since db i)"
proof -
  obtain t' where t': "first_row (order_by id (active_since db i)) = Some t'"
    using assms by (cases "order_by id (active_since db i)") (auto simp: length_0_conv [symmetric] simp del: length_0_conv)
  then show thesis
    using that first_row_least [OF t' assms] first_row_in [OF t'] by (simp add: sandbox_reap_state_def)
qed

text \<open>
  A sandbox is spared while its session's executions are active and young, or its claim is young.
\<close>

definition spared :: "duration \<Rightarrow> time \<Rightarrow> db \<Rightarrow> string \<Rightarrow> bool" where
  "spared lifetime now db i \<longleftrightarrow>
     active_since db i \<noteq> [] \<and> (\<forall>t \<in> set (active_since db i). now - t < int lifetime) \<or>
     (case rs_claimed_at (sandbox_reap_state db i) of None \<Rightarrow> False | Some t \<Rightarrow> now - t < int lifetime)"

lemma young_execution_defers:
  assumes "max_lifetime cfg = Some lifetime" and "active_since db i \<noteq> []"
    and young: "\<forall>t \<in> set (active_since db i). now - t < int lifetime"
  shows "reap_reason ob (sandbox_reap_state db i) now cfg = None"
proof -
  obtain t where "t \<in> set (active_since db i)" using assms(2) by (cases "active_since db i") auto
  then obtain t' where "rs_active_execution_since (sandbox_reap_state db i) = Some t'"
    and "t' \<in> set (active_since db i)" using reap_state_since by metis
  then show ?thesis using young assms(1) reap_reason_some [of ob _ now cfg] by (force simp: expired_def)
qed

lemma spared_not_due:
  assumes "max_lifetime cfg = Some lifetime" and "spared lifetime now db i"
  shows "reap_reason ob (sandbox_reap_state db i) now cfg = None"
proof (cases "active_since db i \<noteq> [] \<and> (\<forall>t \<in> set (active_since db i). now - t < int lifetime)")
  case True
  then show ?thesis using young_execution_defers [OF assms(1)] by blast
next
  case False
  then show ?thesis using assms by (auto simp: spared_def reap_reason_def expired_def split: option.splits)
qed

lemma evict_keeps_active: "active_since (fst (evict_unclaimed_warm_sandbox now i db)) j = active_since db j"
proof -
  have "thread_executions (fst (upd_warm p f db)) k = thread_executions db k" for p f k
    by (simp add: thread_executions_def)
  then show ?thesis by (simp add: evict_unclaimed_warm_sandbox_def case_prod_beta active_since_def cong: if_cong)
qed

lemma evict_keeps_state: "sandbox_reap_state (fst (evict_unclaimed_warm_sandbox now i db)) j = sandbox_reap_state db j"
proof -
  have "find (\<lambda>w. w_sandbox_id w = j \<and> w_status w = ''claimed'') (fst (sql_update (evict_p i) (evict_f now) t)) =
      find (\<lambda>w. w_sandbox_id w = j \<and> w_status w = ''claimed'') t" for t
    by (induction t) (auto simp: sql_update_def evict_p_def evict_f_def)
  then show ?thesis unfolding sandbox_reap_state_def evict_keeps_active
    by (simp add: evict_unclaimed_warm_sandbox_def case_prod_beta)
qed

lemma evict_keeps_spared [simp]:
  "spared lifetime now db' j = spared lifetime now db j" if "db' = fst (evict_unclaimed_warm_sandbox t i db)"
  by (simp add: spared_def that evict_keeps_state evict_keeps_active)

text \<open>
  What the reaper needs of the store: a reading that succeeds is the sandbox's durable state, and an
  eviction is the store's, or fails without effect.
\<close>

locale reap_store =
  fixes load :: "string \<Rightarrow> db \<Rightarrow> SandboxReapState store_result"
    and evict :: "string \<Rightarrow> db \<Rightarrow> db \<times> bool store_result"
  assumes load_reads: "load i db = Inr st \<Longrightarrow> st = sandbox_reap_state db i"
    and evict_cases: "(\<exists>now. evict i db = map_prod id Inr (evict_unclaimed_warm_sandbox now i db)) \<or> (\<exists>e. evict i db = (db, Inl e))"
begin

lemma reap_one_spared:
  assumes "max_lifetime cfg = Some lifetime" and "spared lifetime now db (o_id ob)"
  shows "reap_one be load evict cfg now ob db b = (db, b, 0)"
  using spared_not_due [OF assms] load_reads [of "o_id ob" db]
  by (auto simp: reap_one_def split: sum.split)

lemma reap_one_db:
  "fst (reap_one be load evict cfg now ob db b) = db \<or>
   (\<exists>t. fst (reap_one be load evict cfg now ob db b) = fst (evict_unclaimed_warm_sandbox t (o_id ob) db))"
  using evict_cases [of "o_id ob" db]
  by (auto simp: reap_one_def map_prod_def case_prod_beta split: sum.split bool.split)

lemma reap_one_keeps_spared:
  "spared lifetime now (fst (reap_one be load evict cfg now' ob db b)) i = spared lifetime now db i"
  using reap_one_db [of be cfg now' ob db b] by auto

lemma reap_one_frame:
  assumes "\<And>b. P b \<Longrightarrow> P (fst (be_stop be (o_id ob) b))" and "P b"
  shows "P (fst (snd (reap_one be load evict cfg now ob db b)))"
  using assms by (auto simp: reap_one_def manager_stop_def case_prod_beta split: sum.split bool.split)

lemma reap_all_spares:
  assumes "max_lifetime cfg = Some lifetime" and "spared lifetime now db i"
    and "\<And>j b. j \<noteq> i \<Longrightarrow> P b \<Longrightarrow> P (fst (be_stop be j b))" and "P b"
  shows "P (fst (snd (reap_all be load evict cfg now obs n db b)))"
  using assms(2,4)
proof (induction obs arbitrary: n db b)
  case (Cons ob obs)
  have "P (fst (snd (reap_one be load evict cfg now ob db b)))"
  proof (cases "o_id ob = i")
    case True
    then show ?thesis using reap_one_spared [OF assms(1), of now db ob be b] Cons.prems by simp
  next
    case False
    then show ?thesis using reap_one_frame [of P] assms(3) Cons.prems by blast
  qed
  then show ?case
    using Cons.IH [of "fst (reap_one be load evict cfg now ob db b)"] Cons.prems
      reap_one_keeps_spared [of lifetime now be cfg now ob db b i]
    by (simp add: case_prod_beta)
qed simp

lemma reap_once_spares:
  assumes "max_lifetime cfg = Some lifetime" and "spared lifetime now db i"
    and "\<And>j b. j \<noteq> i \<Longrightarrow> P b \<Longrightarrow> P (fst (be_stop be j b))"
    and "\<And>b. P b \<Longrightarrow> P (fst (be_list_observed be b))" and "\<And>g b. P b \<Longrightarrow> P (fst (be_reap_orphans be g b))"
    and "P b"
  shows "P (fst (snd (reap_once be load evict cfg now db b)))"
proof -
  have "P (fst (snd (reap_all be load evict cfg now obs 0 db (fst (be_list_observed be b)))))" for obs
    by (rule reap_all_spares [where P = P, OF assms(1-3)]) (use assms(4,6) in simp_all)
  then show ?thesis using assms(4-6)
    by (auto simp: reap_once_def manager_defs case_prod_beta split: sum.split)
qed

end

interpretation reaper: reap_store "load_state down" "evict_warm_row down' now" for down down' now
  by unfold_locales (auto simp: load_state_def evict_warm_row_def split: if_splits)

text \<open>
  C37. The reaper leaves a sandbox alone while the executions of its session are active and none has run
  for the maximal lifetime, and while its claim from the pool is younger than that, whatever the backend
  reports about it: a whole sweep keeps every property of the backend that only stopping this sandbox
  could break. Failing reads and evictions are included.
\<close>

theorem reaper_spares_busy_sandboxes:
  assumes "max_lifetime cfg = Some lifetime" and "spared lifetime now db i"
    and "\<And>j b. j \<noteq> i \<Longrightarrow> P b \<Longrightarrow> P (fst (be_stop be j b))"
    and "\<And>b. P b \<Longrightarrow> P (fst (be_list_observed be b))" and "\<And>g b. P b \<Longrightarrow> P (fst (be_reap_orphans be g b))"
    and "P b"
  shows "P (fst (snd (reap_once be (load_state down) (evict_warm_row down' now) cfg now db b)))"
  by (rule reaper.reap_once_spares [where P = P, OF assms])

text \<open>
  The reaper loses the race for a warm sandbox: with whatever it has read before, a sandbox that
  it took for unclaimed and that is claimed when the eviction runs is neither stopped nor evicted.
\<close>

lemma reap_loses_to_claim:
  assumes inv: "store_inv db" and claimed: "warm_status db (o_id ob) = Some ''claimed''"
    and stale: "\<And>st. load (o_id ob) db = Inr st \<Longrightarrow> rs_claimed_at st = None"
  shows "\<exists>db'. reap_one be load (evict_warm_row down now) cfg now ob db b = (db', b, 0) \<and>
           warm_status db' j = warm_status db j"
proof -
  have "\<not> snd (evict_unclaimed_warm_sandbox now (o_id ob) db)"
    and "warm_status (fst (evict_unclaimed_warm_sandbox now (o_id ob) db)) j = warm_status db j"
    using evict_result [OF inv] claimed by simp_all
  then show ?thesis using stale
    by (auto simp: reap_one_def evict_warm_row_def map_prod_def case_prod_beta split: sum.split)
qed

text \<open>
  What the reaper does reap: a sandbox that is not gone, whose backend age and whose age since its
  claim reach the maximal lifetime and whose session has no younger active execution is stopped, after
  its eviction from the pool when it was never claimed, and counted when the backend agrees.
\<close>

lemma reap_one_reaps_expired:
  assumes inv: "store_inv db" and "max_lifetime cfg = Some lifetime" and "o_status ob \<noteq> SbGone"
    and "expired now lifetime (o_created_at ob)"
    and "expired now lifetime (coalesce (rs_claimed_at (sandbox_reap_state db (o_id ob))) (o_created_at ob))"
    and "active_since db (o_id ob) = [] \<or> (\<exists>t \<in> set (active_since db (o_id ob)). t \<le> now \<and> int lifetime \<le> now - t)"
    and unclaimed: "rs_claimed_at (sandbox_reap_state db (o_id ob)) = None \<Longrightarrow> warm_status db (o_id ob) \<noteq> Some ''claimed''"
  shows "reap_one be (load_state (\<lambda>_. False)) (evict_warm_row (\<lambda>_. False) now) cfg now ob db b =
     (if rs_claimed_at (sandbox_reap_state db (o_id ob)) = None
      then fst (evict_unclaimed_warm_sandbox now (o_id ob) db) else db,
      fst (be_stop be (o_id ob) b), case snd (be_stop be (o_id ob) b) of Inr _ \<Rightarrow> 1 | Inl _ \<Rightarrow> 0)"
proof -
  have due: "reap_reason ob no_reap_state now cfg \<noteq> None"
    using assms(2-4) by (simp add: reap_reason_def no_reap_state_def)
  have "case rs_active_execution_since (sandbox_reap_state db (o_id ob)) of None \<Rightarrow> True
      | Some t \<Rightarrow> expired now lifetime (Some t)"
  proof (cases "active_since db (o_id ob) = []")
    case True
    then show ?thesis by (simp add: sandbox_reap_state_def)
  next
    case False
    then obtain t where t: "t \<in> set (active_since db (o_id ob))" "t \<le> now" "int lifetime \<le> now - t"
      using assms(6) by blast
    from reap_state_since [OF t(1)] t(2,3) show ?thesis by (force simp: expired_def)
  qed
  then have "reap_reason ob (sandbox_reap_state db (o_id ob)) now cfg \<noteq> None"
    using assms(2,3,5) by (simp only: reap_reason_some) blast
  then show ?thesis using due unclaimed evict_result(1) [OF inv, of now "o_id ob"]
    by (auto simp: reap_one_def load_state_def evict_warm_row_def map_prod_def case_prod_beta manager_stop_def
        split: sum.split bool.split)
qed

section \<open>When the cleanup worker stops a sandbox\<close>

lemma btree_set [simp]: "set (btree_set xs) = set xs" "sorted (btree_set xs)" "distinct (btree_set xs)"
  by (simp_all add: btree_set_def)

lemma in_current_orphans:
  "i \<in> set (current_orphans observed referenced) \<longleftrightarrow>
     (\<exists>ob \<in> set observed. o_id ob = i \<and> orphan_reap_eligible ob referenced)"
  by (auto simp: current_orphans_def)

lemma stop_orphans_frame:
  assumes "\<And>j b. j \<in> set ids \<Longrightarrow> P b \<Longrightarrow> P (fst (be_stop be j b))" and "P b"
  shows "P (snd (snd (snd (stop_orphans be ids pending pipes report b))))"
  using assms
proof (induction ids arbitrary: pending pipes report b)
  case (Cons i ids)
  then have "P (fst (be_stop be i b))" by simp
  then show ?case using Cons.IH Cons.prems(1)
    by (auto simp: manager_stop_def split: prod.split sum.split SandboxError.split)
qed simp

lemma stop_orphans_pending:
  "set (fst (stop_orphans be ids pending pipes report b)) \<subseteq> set pending \<and>
   set pending - set ids \<subseteq> set (fst (stop_orphans be ids pending pipes report b))"
proof (induction ids arbitrary: pending pipes report b)
  case (Cons i ids)
  have s: "A \<subseteq> set pending \<and> set pending - insert i S \<subseteq> A"
    if "A \<subseteq> set (removeAll i pending) \<and> set (removeAll i pending) - S \<subseteq> A \<or>
        A \<subseteq> set pending \<and> set pending - S \<subseteq> A" for A S
    using that by auto
  show ?case using Cons.IH Cons.IH [of "removeAll i pending"] unfolding stop_orphans.simps list.set
    by (intro s) (simp split: prod.split sum.split SandboxError.split)
qed simp

lemma stop_orphans_counts:
  "stopped_orphans (fst (snd (snd (stop_orphans be ids pending pipes report b)))) +
     failed_orphans (fst (snd (snd (stop_orphans be ids pending pipes report b)))) =
   stopped_orphans report + failed_orphans report + length ids"
  by (induction be ids pending pipes report b rule: stop_orphans.induct)
     (auto split: prod.split sum.split SandboxError.split)

text \<open>
  A sandbox is stopped by the cleanup worker only when two sweeps in a row found it orphaned: one
  that a session or a live pool row refers to, that the last sweep did not see as an orphan, or that the
  backend does not report as an eligible one (not a workflow's, not being created, not gone) is left
  alone, whatever the backend does on the others.
\<close>

lemma cleanup_spares_referenced:
  assumes "be_list_observed be b = (b1, Inr observed)"
    and "i \<in> set (list_referenced_sandbox_ids db) \<or> i \<notin> set pending \<or>
      (\<forall>ob \<in> set observed. o_id ob = i \<longrightarrow> o_status ob = SbCreated \<or> o_status ob = SbGone \<or>
         map_of (o_labels ob) ''centaur.ai/component'' = Some ''workflow-run'')"
    and "\<And>j b. j \<noteq> i \<Longrightarrow> P b \<Longrightarrow> P (fst (be_stop be j b))" and "P b1"
  shows "P (fst (snd (snd (snd (reap_unreferenced_sandboxes be pending pipes report db b)))))"
proof -
  have "i \<notin> set (filter (\<lambda>j. j \<in> set pending) (current_orphans observed (list_referenced_sandbox_ids db)))"
    using assms(2) by (auto simp: in_current_orphans orphan_reap_eligible_def)
  then have "P (snd (snd (snd (stop_orphans be
      (filter (\<lambda>j. j \<in> set pending) (current_orphans observed (list_referenced_sandbox_ids db)))
      (current_orphans observed (list_referenced_sandbox_ids db)) pipes report b1))))"
    using assms(4) by (intro stop_orphans_frame [where P = P]) (metis assms(3), simp)
  then show ?thesis using assms(1)
    by (simp add: reap_unreferenced_sandboxes_def list_observed_def select_orphan_reap_candidates_def Let_def case_prod_beta)
qed

text \<open>
  After a sweep the pending orphans are the eligible ones it saw, less some of those it stopped,
  and each sandbox that was an orphan in both sweeps is counted once, as stopped or as failed.
\<close>

theorem cleanup_sweep_result:
  assumes "be_list_observed be b = (b1, Inr observed)"
    and "reap_unreferenced_sandboxes be pending pipes report db b = (pending', pipes', report', b', res)"
  shows "res = Inr () \<and>
    set pending' \<subseteq> {i. \<exists>ob \<in> set observed. o_id ob = i \<and> orphan_reap_eligible ob (list_referenced_sandbox_ids db)} \<and>
    {i. i \<notin> set pending \<and> (\<exists>ob \<in> set observed. o_id ob = i \<and> orphan_reap_eligible ob (list_referenced_sandbox_ids db))}
      \<subseteq> set pending' \<and>
    stopped_orphans report' + failed_orphans report' = stopped_orphans report + failed_orphans report +
      card {i \<in> set pending. \<exists>ob \<in> set observed. o_id ob = i \<and> orphan_reap_eligible ob (list_referenced_sandbox_ids db)}"
proof -
  define current where "current = current_orphans observed (list_referenced_sandbox_ids db)"
  define ids where "ids = filter (\<lambda>j. j \<in> set pending) current"
  have cur: "set current = {i. \<exists>ob \<in> set observed. o_id ob = i \<and> orphan_reap_eligible ob (list_referenced_sandbox_ids db)}"
    by (auto simp: current_def in_current_orphans)
  have run: "(pending', pipes', report', b') = stop_orphans be ids current pipes report b1" and res: "res = Inr ()"
    using assms by (auto simp: reap_unreferenced_sandboxes_def list_observed_def
        select_orphan_reap_candidates_def Let_def case_prod_beta ids_def current_def)
  note pending = stop_orphans_pending [of be ids current pipes report b1, folded run, unfolded fst_conv]
  have "distinct ids" "set ids = {i \<in> set pending. i \<in> set current}"
    by (auto simp: ids_def current_def current_orphans_def)
  then have "length ids = card {i \<in> set pending. i \<in> set current}" by (metis distinct_card)
  then have "stopped_orphans report' + failed_orphans report' =
      stopped_orphans report + failed_orphans report + card {i \<in> set pending. i \<in> set current}"
    using stop_orphans_counts [of be ids current pipes report b1] unfolding run [symmetric] by simp
  moreover have "{i. i \<notin> set pending \<and> i \<in> set current} \<subseteq> set pending'" using pending by (auto simp: ids_def)
  ultimately show ?thesis using pending res unfolding cur by simp
qed

section \<open>Witnesses\<close>

text \<open>A backend whose state is the list of the running sandboxes' ids.\<close>

definition listed_backend :: "string list SandboxBackend" where
  "listed_backend =
     \<lparr>be_name = ''listed'', be_create = (\<lambda>spec b. (b, Inl (NotReady ''full''))), be_open_io = (\<lambda>i b. (b, Inr ())),
      be_read_output_since = (\<lambda>i t b. (b, Inr [])), be_status = (\<lambda>i b. (b, Inr SbRunning)),
      be_observe = (\<lambda>i b. (b, Inr (observed_new i ''listed'' SbRunning))),
      be_list_observed =
        (\<lambda>b. (b, Inr (map (\<lambda>i. (observed_new i ''listed'' SbRunning)\<lparr>o_created_at := Some 0\<rparr>) b))),
      be_stop = (\<lambda>i b. (removeAll i b, Inr ())), be_pause = (\<lambda>i b. (b, Inr ())), be_resume = (\<lambda>i b. (b, Inr ())),
      be_assign_principal = (\<lambda>_ _ _ _ b. (b, Inr ())), be_ensure_proxy = (\<lambda>_ _ _ _ b. (b, Inr ())),
      be_enable_observability = (\<lambda>_ b. (b, Inr ())),
      be_reap_orphans = (\<lambda>_ b. (b, Inr []))\<rparr>"

lemma listed_backend_simps [simp]:
  "be_stop listed_backend i b = (removeAll i b, Inr ())"
  "be_list_observed listed_backend b =
     (b, Inr (map (\<lambda>i. (observed_new i ''listed'' SbRunning)\<lparr>o_created_at := Some 0\<rparr>) b))"
  "be_reap_orphans listed_backend g b = (b, Inr [])"
  by (simp_all add: listed_backend_def)

definition example_reaper :: SandboxReaperConfig where
  "example_reaper = \<lparr>reap_interval = 60, orphan_sweep_grace = 5, max_lifetime = Some 10\<rparr>"

definition claimed_pool_db :: db where
  "claimed_pool_db = fst (claim_ready_warm_sandbox (\<lambda>_. False) 8 ''wk'' ''api:1'' example_warm_db)"

lemma example_claimed: "store_inv claimed_pool_db"
  "session_warm_sandboxes claimed_pool_db = [claim_warm_f 8 ''api:1'' (new_warm_row 6 ''sb-1'' ''wk'')]"
proof -
  show "store_inv claimed_pool_db" unfolding claimed_pool_db_def by (intro sandbox_ops_inv example_warm)
  show "session_warm_sandboxes claimed_pool_db = [claim_warm_f 8 ''api:1'' (new_warm_row 6 ''sb-1'' ''wk'')]"
    using example_warm(2,3) by (simp add: claimed_pool_db_def claim_ready_warm_sandbox_def claim_candidate_def
        by_age_def ready_p_def new_warm_row_def order_by_def sql_update_def on_warm_def)
qed

lemma example_claim_state:
  "rs_claimed_at (sandbox_reap_state claimed_pool_db ''sb-1'') = Some 8"
  "warm_status claimed_pool_db ''sb-1'' = Some ''claimed''"
  by (simp_all add: sandbox_reap_state_def warm_status_def row_by_def example_claimed claim_warm_f_def new_warm_row_def)

theorem reaper_spares_busy_sandboxes_witness:
  "spared 10 12 claimed_pool_db ''sb-1'' \<and> max_lifetime example_reaper = Some 10 \<and>
   ''sb-1'' \<in> set (fst (snd (reap_once listed_backend (load_state (\<lambda>_. False)) (evict_warm_row (\<lambda>_. False) 12)
     example_reaper 12 claimed_pool_db [''sb-1'', ''sb-2''])))"
proof -
  have m: "max_lifetime example_reaper = Some 10" by (simp add: example_reaper_def)
  have s: "spared 10 12 claimed_pool_db ''sb-1''" by (simp add: spared_def example_claim_state)
  show ?thesis
    using reaper_spares_busy_sandboxes [OF m s, where P = "\<lambda>b. ''sb-1'' \<in> set b" and be = listed_backend
        and b = "[''sb-1'', ''sb-2'']" and down = "\<lambda>_. False" and down' = "\<lambda>_. False"] m s by simp
qed

end
