(* ===== verification/Runtime_Output.thy ===== *)
theory Runtime_Output
  imports Json_Value
begin

text \<open>
  How the session runtime reads the output lines of a harness
  (\<^verbatim>\<open>crates/centaur-session-runtime/src/lib.rs\<close>): the terminal event of a turn, the final answer
  folded from the messages, and the attribution of lines to executions. \<open>parse\<close> stands for
  \<^verbatim>\<open>serde_json::from_str\<close>, of which nothing is assumed. A panicking slice or subtraction is
  \<^const>\<open>None\<close>, and shown not to happen; the offsets are ends of appended pieces, so they are on
  character boundaries.
\<close>

section \<open>Reading JSON\<close>

definition string_at_path :: "json \<Rightarrow> string list \<Rightarrow> string option" where
  "string_at_path v ks = Option.bind (Option.bind (get_path ks v) as_str) (\<lambda>s. nonempty_text (trim s))"

definition turn_ids :: "json \<Rightarrow> string list" where
  "turn_ids v = List.map_filter (string_at_path v)
     [[''turn_id''], [''turnId''], [''turn'', ''id''], [''params'', ''turnId''], [''params'', ''turn'', ''id'']]"

definition item_ids :: "json \<Rightarrow> string list" where
  "item_ids v = List.map_filter (string_at_path v)
     [[''item_id''], [''itemId''], [''item'', ''id''], [''params'', ''itemId''], [''params'', ''item'', ''id'']]"

definition first_present :: "('a \<Rightarrow> 'b option) \<Rightarrow> 'a list \<Rightarrow> 'b option" where
  "first_present f xs = (case List.map_filter f xs of [] \<Rightarrow> None | y # _ \<Rightarrow> Some y)"

definition turn_completion_status :: "json \<Rightarrow> string option" where
  "turn_completion_status v = first_present (string_at_path v)
     [[''turn'', ''status''], [''params'', ''turn'', ''status''], [''status''], [''params'', ''status'']]"

definition PAYLOAD_KEYS :: "string list" where
  "PAYLOAD_KEYS = [''result'', ''result_text'', ''text'', ''final_text'', ''message'', ''delta'', ''content'', ''params'', ''payload'']"

function terminal_payload_text :: "json \<Rightarrow> string" where
  "terminal_payload_text v =
     (case v of
        JStr s \<Rightarrow> s
      | JArr xs \<Rightarrow>
          (case find (\<lambda>t. trim t \<noteq> []) (map terminal_payload_text xs) of None \<Rightarrow> [] | Some t \<Rightarrow> t)
      | JObj kvs \<Rightarrow>
          (case find (\<lambda>t. trim t \<noteq> [])
                  (concat (map (\<lambda>k. case map_of kvs k of None \<Rightarrow> [] | Some u \<Rightarrow> [terminal_payload_text u]) PAYLOAD_KEYS)) of
             None \<Rightarrow> [] | Some t \<Rightarrow> t)
      | _ \<Rightarrow> [])"
  by pat_completeness auto
termination
  by (relation "measure size") (auto dest!: map_of_SomeD size_obj_member intro: size_arr_member simp del: json.size)

declare terminal_payload_text.simps [simp del]

section \<open>Terminal output\<close>

datatype TerminalOutput =
    TCompleted string "string option"
  | TCancelled string
  | TFailed string

definition result_is_failure :: "json \<Rightarrow> bool" where
  "result_is_failure v \<longleftrightarrow> get_str ''subtype'' v \<in> {Some ''error'', Some ''failure'', Some ''failed''}"

definition error_notification_will_retry :: "json \<Rightarrow> bool" where
  "error_notification_will_retry v \<longleftrightarrow>
     Option.bind (or_else (get_path [''params'', ''willRetry''] v) (get_key ''willRetry'' v)) as_bool = Some True"

definition nested_codex_error_text :: "json \<Rightarrow> string option" where
  "nested_codex_error_text v =
     (case or_else (get_path [''params'', ''error''] v) (get_key ''error'' v) of
        None \<Rightarrow> None
      | Some error \<Rightarrow>
          if \<not> is_object error then None
          else let message = (case get_str ''message'' error of None \<Rightarrow> [] | Some m \<Rightarrow> m);
                   details = (case get_str ''additionalDetails'' error of None \<Rightarrow> [] | Some d \<Rightarrow> d)
               in if message \<noteq> [] \<and> details \<noteq> [] \<and> \<not> str_contains message details then Some (message @ '': '' @ details)
                  else if message \<noteq> [] then Some message
                  else if details \<noteq> [] then Some details
                  else None)"

definition terminal_error_text :: "json \<Rightarrow> string" where
  "terminal_error_text v =
     (case first_present (\<lambda>k. Option.bind (get_str k v) (\<lambda>t. if trim t \<noteq> [] then Some (trim t) else None))
             [''error'', ''message'', ''result'', ''text''] of
        Some t \<Rightarrow> t
      | None \<Rightarrow>
          (case nested_codex_error_text v of
             Some t \<Rightarrow> t
           | None \<Rightarrow> let t = trim (terminal_payload_text v) in
               if t = [] then ''terminal harness output reported failure'' else t))"

definition completed_terminal_output_with_fallback :: "json \<Rightarrow> string \<Rightarrow> string \<Rightarrow> TerminalOutput" where
  "completed_terminal_output_with_fallback v reason fallback_text =
     (let result_text = trim (terminal_payload_text v);
          result_text1 = (if result_text = [] then trim fallback_text else result_text)
      in TCompleted reason (nonempty_text result_text1))"

definition completed_terminal_output :: "json \<Rightarrow> string \<Rightarrow> TerminalOutput" where
  "completed_terminal_output v reason = completed_terminal_output_with_fallback v reason []"

definition completed_turn_terminal_output :: "json \<Rightarrow> string \<Rightarrow> TerminalOutput" where
  "completed_turn_terminal_output v prior =
     (let status = turn_completion_status v in
      if status \<in> {None, Some ''completed'', Some ''succeeded'', Some ''success''}
      then completed_terminal_output_with_fallback v ''turn_completed'' prior
      else if status = Some ''interrupted'' then TCancelled ''turn_interrupted''
      else if trim prior \<noteq> [] then completed_terminal_output_with_fallback v ''turn_completed'' prior
      else TFailed (''turn completed with status '' @ the status @ '' before final answer''))"

definition terminal_output :: "json \<Rightarrow> string \<Rightarrow> TerminalOutput option" where
  "terminal_output v prior =
     (let method = get_str ''method'' v; event_type = get_str ''type'' v in
      if event_type = Some ''run.failed'' \<and>
         Option.bind (get_path [''payload'', ''status''] v) as_str \<in> {Some ''cancelled'', Some ''canceled''}
      then Some (TCancelled ''turn_interrupted'')
      else if method \<in> {Some ''error'', Some ''turn/failed''} \<or>
         event_type \<in> {Some ''error'', Some ''turn.failed'', Some ''run.failed''}
      then (if error_notification_will_retry v \<and> or_else method event_type = Some ''error'' then None
            else Some (TFailed (terminal_error_text v)))
      else if method = Some ''turn/completed'' then Some (completed_turn_terminal_output v prior)
      else if event_type = Some ''run.completed''
      then Some (completed_terminal_output_with_fallback v ''run_completed'' prior)
      else if event_type = Some ''turn.completed'' then Some (completed_turn_terminal_output v prior)
      else if event_type = Some ''turn.done'' then Some (completed_terminal_output v ''turn_done'')
      else if event_type = Some ''result''
      then (if result_is_failure v then Some (TFailed (terminal_error_text v))
            else Some (completed_terminal_output v ''result''))
      else None)"

section \<open>The final answer\<close>

datatype FinalAnswerTextUpdate = Append string | Replace string

definition nanocodex_message_phase :: "json \<Rightarrow> string option" where
  "nanocodex_message_phase v = Option.bind (get_path [''payload'', ''phase''] v) as_str"

definition completed_agent_message :: "json \<Rightarrow> json option" where
  "completed_agent_message v =
     (if get_str ''method'' v \<noteq> Some ''item/completed'' \<and> get_str ''type'' v \<noteq> Some ''item.completed'' then None
      else case or_else (get_key ''item'' v) (get_path [''params'', ''item''] v) of
             None \<Rightarrow> None
           | Some item \<Rightarrow>
               if get_str ''type'' item \<in> {Some ''agentMessage'', Some ''agent_message''} then Some item else None)"

definition payload_text :: "json \<Rightarrow> string" where
  "payload_text v =
     (case Option.bind (get_path [''payload'', ''text''] v) as_str of None \<Rightarrow> [] | Some t \<Rightarrow> t)"

definition output_line_final_answer_text :: "json \<Rightarrow> FinalAnswerTextUpdate option" where
  "output_line_final_answer_text v =
     (let method = get_str ''method'' v; event_type = get_str ''type'' v in
      if event_type = Some ''assistant.delta''
      then (if nanocodex_message_phase v = Some ''commentary'' then None
            else map_option Append (nonempty_text (payload_text v)))
      else if event_type = Some ''assistant.message''
      then (if nanocodex_message_phase v = Some ''commentary'' then None
            else map_option Replace (nonempty_text (payload_text v)))
      else if method = Some ''item/agentMessage/delta'' \<or> event_type = Some ''item.agentMessage.delta''
      then map_option Append (nonempty_text (trim (terminal_payload_text v)))
      else if event_type = Some ''assistant''
      then map_option Replace (nonempty_text (trim (terminal_payload_text v)))
      else case completed_agent_message v of
             None \<Rightarrow> None
           | Some item \<Rightarrow>
               if get_str ''phase'' item \<in> {Some ''final_answer'', Some ''answer'', None}
               then map_option Replace (nonempty_text (trim (terminal_payload_text item)))
               else None)"

record FinalAnswerText =
  fa_text :: string
  fa_runs :: "(string option \<times> nat \<times> nat) list"

definition fa_default :: FinalAnswerText where
  "fa_default = \<lparr>fa_text = [], fa_runs = []\<rparr>"

definition is_commentary :: "string list \<Rightarrow> string option \<Rightarrow> bool" where
  "is_commentary ids item_id = (case item_id of None \<Rightarrow> False | Some i \<Rightarrow> i \<in> set ids)"

text \<open>The \<^verbatim>\<open>retain_mut\<close> over the runs, with the text it drains.\<close>

fun drop_commentary ::
  "string list \<Rightarrow> nat \<Rightarrow> string \<Rightarrow> (string option \<times> nat \<times> nat) list \<Rightarrow>
     (string \<times> (string option \<times> nat \<times> nat) list) option" where
  "drop_commentary ids removed txt [] = Some (txt, [])"
| "drop_commentary ids removed txt ((item_id, start, stop) # runs) =
     (if start < removed \<or> stop < removed then None
      else let start1 = start - removed; stop1 = stop - removed in
        if is_commentary ids item_id then
          (if stop1 < start1 \<or> length txt < stop1 then None
           else drop_commentary ids (removed + (stop1 - start1)) (take start1 txt @ drop stop1 txt) runs)
        else map_option (\<lambda>(txt1, runs1). (txt1, (item_id, start1, stop1) # runs1))
               (drop_commentary ids removed txt runs))"

definition fa_append :: "string option \<Rightarrow> string \<Rightarrow> FinalAnswerText \<Rightarrow> FinalAnswerText" where
  "fa_append item_id delta fa =
     (let start = length (fa_text fa); txt = fa_text fa @ delta;
          fresh = fa_runs fa @ [(item_id, start, length txt)]
      in \<lparr>fa_text = txt,
          fa_runs = (case rev (fa_runs fa) of
                       [] \<Rightarrow> fresh
                     | (i, a, b) # rs \<Rightarrow> if i = item_id then rev rs @ [(i, a, length txt)] else fresh)\<rparr>)"

definition fa_observe :: "json \<Rightarrow> FinalAnswerText \<Rightarrow> FinalAnswerText option" where
  "fa_observe v fa =
     (case output_line_final_answer_text v of
        Some (Append delta) \<Rightarrow> Some (fa_append (case item_ids v of [] \<Rightarrow> None | i # _ \<Rightarrow> Some i) delta fa)
      | Some (Replace canonical) \<Rightarrow> Some \<lparr>fa_text = canonical, fa_runs = []\<rparr>
      | None \<Rightarrow>
          (case completed_agent_message v of
             None \<Rightarrow> Some fa
           | Some item \<Rightarrow>
               if get_str ''phase'' item = Some ''commentary''
               then map_option (\<lambda>(txt, runs). \<lparr>fa_text = txt, fa_runs = runs\<rparr>)
                      (drop_commentary (item_ids v) 0 (fa_text fa) (fa_runs fa))
               else Some fa))"

text \<open>Recovered history is folded the same way (\<^verbatim>\<open>terminal_output_from_lines\<close>).\<close>

fun fold_lines :: "(string \<Rightarrow> json option) \<Rightarrow> FinalAnswerText \<Rightarrow> string list \<Rightarrow> TerminalOutput option option" where
  "fold_lines parse fa [] = Some None"
| "fold_lines parse fa (line # lines) =
     (case parse line of
        None \<Rightarrow> fold_lines parse fa lines
      | Some v \<Rightarrow>
          Option.bind (fa_observe v fa) (\<lambda>fa1.
            case terminal_output v (fa_text fa1) of
              Some t \<Rightarrow> Some (Some t)
            | None \<Rightarrow> fold_lines parse fa1 lines))"

definition terminal_output_from_lines :: "(string \<Rightarrow> json option) \<Rightarrow> string list \<Rightarrow> TerminalOutput option option" where
  "terminal_output_from_lines parse lines = fold_lines parse fa_default lines"


section \<open>Lines and executions\<close>

text \<open>The state of a stdout pump; its tracing spans are left out.\<close>

record StdoutPumpState =
  final_answer_text_by_execution :: "string \<rightharpoonup> FinalAnswerText"
  first_token_recorded_by_execution :: "string set"
  turn_execution_by_id :: "string \<rightharpoonup> string"
  item_execution_by_id :: "string \<rightharpoonup> string"

definition pump_default :: StdoutPumpState where
  "pump_default =
     \<lparr>final_answer_text_by_execution = Map.empty, first_token_recorded_by_execution = {},
      turn_execution_by_id = Map.empty, item_execution_by_id = Map.empty\<rparr>"

definition known_execution_for_value :: "StdoutPumpState \<Rightarrow> json \<Rightarrow> string option" where
  "known_execution_for_value st v =
     or_else (first_present (turn_execution_by_id st) (turn_ids v)) (first_present (item_execution_by_id st) (item_ids v))"

definition remember_ids :: "string list \<Rightarrow> string \<Rightarrow> (string \<rightharpoonup> string) \<Rightarrow> (string \<rightharpoonup> string)" where
  "remember_ids ids execution_id m = fold (\<lambda>i m. m(i \<mapsto> execution_id)) ids m"

definition remember_value_execution :: "json \<Rightarrow> string \<Rightarrow> StdoutPumpState \<Rightarrow> StdoutPumpState" where
  "remember_value_execution v execution_id st =
     st\<lparr>turn_execution_by_id := remember_ids (turn_ids v) execution_id (turn_execution_by_id st),
        item_execution_by_id := remember_ids (item_ids v) execution_id (item_execution_by_id st)\<rparr>"

definition without_execution :: "string \<Rightarrow> (string \<rightharpoonup> string) \<Rightarrow> (string \<rightharpoonup> string)" where
  "without_execution execution_id m = (\<lambda>i. if m i = Some execution_id then None else m i)"

definition forget :: "string \<Rightarrow> StdoutPumpState \<Rightarrow> StdoutPumpState" where
  "forget execution_id st =
     \<lparr>final_answer_text_by_execution = (final_answer_text_by_execution st)(execution_id := None),
      first_token_recorded_by_execution = first_token_recorded_by_execution st - {execution_id},
      turn_execution_by_id = without_execution execution_id (turn_execution_by_id st),
      item_execution_by_id = without_execution execution_id (item_execution_by_id st)\<rparr>"

definition answer_text :: "StdoutPumpState \<Rightarrow> string \<Rightarrow> string" where
  "answer_text st execution_id =
     (case final_answer_text_by_execution st execution_id of None \<Rightarrow> [] | Some fa \<Rightarrow> fa_text fa)"

definition execution_for_line ::
  "(string \<Rightarrow> json option) \<Rightarrow> StdoutPumpState \<Rightarrow> string option \<Rightarrow> string \<Rightarrow> StdoutPumpState \<times> string option" where
  "execution_for_line parse st active_execution_id line =
     (case parse line of
        None \<Rightarrow> (st, active_execution_id)
      | Some v \<Rightarrow>
          (case known_execution_for_value st v of
             Some known \<Rightarrow>
               if active_execution_id = Some known then (remember_value_execution v known st, Some known)
               else if terminal_output v (answer_text st known) \<noteq> None then (forget known st, None)
               else (st, None)
           | None \<Rightarrow>
               (case active_execution_id of
                  None \<Rightarrow> (st, None)
                | Some active \<Rightarrow> (remember_value_execution v active st, Some active))))"

definition pump_observe ::
  "(string \<Rightarrow> json option) \<Rightarrow> string \<Rightarrow> string \<Rightarrow> StdoutPumpState \<Rightarrow> (StdoutPumpState \<times> TerminalOutput option) option" where
  "pump_observe parse execution_id line st =
     (case parse line of
        None \<Rightarrow> Some (st, None)
      | Some v \<Rightarrow>
          let answer = (case final_answer_text_by_execution st execution_id of None \<Rightarrow> fa_default | Some fa \<Rightarrow> fa) in
          map_option (\<lambda>fa.
              (st\<lparr>final_answer_text_by_execution := (final_answer_text_by_execution st)(execution_id \<mapsto> fa)\<rparr>,
               terminal_output v (fa_text fa)))
            (fa_observe v answer))"

definition should_record_first_token :: "StdoutPumpState \<Rightarrow> string \<Rightarrow> json option \<Rightarrow> bool" where
  "should_record_first_token st execution_id value =
     (if execution_id \<in> first_token_recorded_by_execution st \<or> trim (answer_text st execution_id) \<noteq> [] then False
      else case value of
             None \<Rightarrow> False
           | Some v \<Rightarrow>
               if output_line_final_answer_text v \<noteq> None then True
               else case terminal_output v [] of Some (TCompleted _ (Some _)) \<Rightarrow> True | _ \<Rightarrow> False)"

definition mark_first_token_recorded :: "string \<Rightarrow> StdoutPumpState \<Rightarrow> StdoutPumpState" where
  "mark_first_token_recorded execution_id st =
     st\<lparr>first_token_recorded_by_execution := insert execution_id (first_token_recorded_by_execution st)\<rparr>"

section \<open>The final answer as pieces\<close>

text \<open>
  Specification: the last canonical text and, after it, the pieces each message has appended, of which a
  message that turns out to be commentary is taken back.
\<close>

type_synonym pieces = "(string option \<times> string) list"

definition add_piece :: "string option \<Rightarrow> string \<Rightarrow> pieces \<Rightarrow> pieces" where
  "add_piece item_id delta ps =
     (case rev ps of
        [] \<Rightarrow> ps @ [(item_id, delta)]
      | (i, d) # qs \<Rightarrow> if i = item_id then rev qs @ [(i, d @ delta)] else ps @ [(item_id, delta)])"

definition spec_observe :: "json \<Rightarrow> string \<times> pieces \<Rightarrow> string \<times> pieces" where
  "spec_observe v a =
     (case output_line_final_answer_text v of
        Some (Append delta) \<Rightarrow> (fst a, add_piece (case item_ids v of [] \<Rightarrow> None | i # _ \<Rightarrow> Some i) delta (snd a))
      | Some (Replace canonical) \<Rightarrow> (canonical, [])
      | None \<Rightarrow>
          (case completed_agent_message v of
             None \<Rightarrow> a
           | Some item \<Rightarrow>
               if get_str ''phase'' item = Some ''commentary''
               then (fst a, filter (\<lambda>p. \<not> is_commentary (item_ids v) (fst p)) (snd a)) else a))"

fun runs_of :: "nat \<Rightarrow> pieces \<Rightarrow> (string option \<times> nat \<times> nat) list" where
  "runs_of n [] = []"
| "runs_of n ((i, d) # ps) = (i, n, n + length d) # runs_of (n + length d) ps"

definition piece_text :: "pieces \<Rightarrow> string" where
  "piece_text ps = concat (map snd ps)"

definition fa_of :: "string \<times> pieces \<Rightarrow> FinalAnswerText" where
  "fa_of a = \<lparr>fa_text = fst a @ piece_text (snd a), fa_runs = runs_of (length (fst a)) (snd a)\<rparr>"

lemma piece_text_simps [simp]: "piece_text [] = []" "piece_text (p # ps) = snd p @ piece_text ps"
  "piece_text (ps @ qs) = piece_text ps @ piece_text qs"
  by (simp_all add: piece_text_def)

lemma runs_of_append: "runs_of n (ps @ qs) = runs_of n ps @ runs_of (n + length (piece_text ps)) qs"
  by (induction n ps rule: runs_of.induct) (auto simp: add.assoc)

lemma fa_append_refines: "fa_append i d (fa_of (base, ps)) = fa_of (base, add_piece i d ps)"
proof (cases ps rule: rev_cases)
  case (snoc qs p)
  then show ?thesis
    by (cases p) (simp add: fa_append_def fa_of_def add_piece_def runs_of_append Let_def add.assoc)
qed (simp add: fa_append_def fa_of_def add_piece_def Let_def)

lemma drop_commentary_refines:
  "drop_commentary ids removed (pre @ piece_text ps) (runs_of (length pre + removed) ps) =
     (let kept = filter (\<lambda>p. \<not> is_commentary ids (fst p)) ps in Some (pre @ piece_text kept, runs_of (length pre) kept))"
proof (induction ps arbitrary: pre removed)
  case (Cons p ps)
  obtain i d where p: "p = (i, d)" by (cases p)
  show ?case
  proof (cases "is_commentary ids i")
    case True
    have "take (length pre) (pre @ d @ piece_text ps) @ drop (length pre + length d) (pre @ d @ piece_text ps) =
        pre @ piece_text ps" by simp
    then show ?thesis using Cons.IH [of "removed + length d" pre] True
      by (simp add: p Let_def add.commute add.left_commute)
  next
    case False
    then show ?thesis using Cons.IH [of removed "pre @ d"]
      by (simp add: p Let_def add.commute add.left_commute)
  qed
qed simp

lemma fa_observe_refines: "fa_observe v (fa_of a) = Some (fa_of (spec_observe v a))"
proof (cases a)
  case (Pair base ps)
  have "drop_commentary ids 0 (base @ piece_text ps) (runs_of (length base) ps) =
      Some (base @ piece_text (filter (\<lambda>p. \<not> is_commentary ids (fst p)) ps),
        runs_of (length base) (filter (\<lambda>p. \<not> is_commentary ids (fst p)) ps))" for ids
    using drop_commentary_refines [of ids 0 base ps] by (simp add: Let_def)
  then show ?thesis
    unfolding Pair fa_observe_def spec_observe_def
    by (auto simp: fa_append_refines split: option.split FinalAnswerTextUpdate.split) (auto simp: fa_of_def)
qed


fun fa_run :: "json list \<Rightarrow> FinalAnswerText \<Rightarrow> FinalAnswerText option" where
  "fa_run [] fa = Some fa"
| "fa_run (v # vs) fa = Option.bind (fa_observe v fa) (fa_run vs)"

lemma fa_run_refines: "fa_run vs (fa_of a) = Some (fa_of (fold spec_observe vs a))"
  by (induction vs arbitrary: a) (simp_all add: fa_observe_refines)

lemma fa_default_of: "fa_default = fa_of ([], [])"
  by (simp add: fa_default_def fa_of_def)

text \<open>
  C39. The final answer implements its specification for every sequence of output lines: the fold never
  panics, and its text is the last canonical text followed by the pieces that later messages appended
  and that no commentary took back, with the runs marking exactly those pieces.
\<close>

theorem final_answer_refines:
  "fa_run vs fa_default = Some (fa_of (fold spec_observe vs ([], [])))"
  unfolding fa_default_of by (rule fa_run_refines)

section \<open>Live and recovered output agree\<close>

fun pump_until ::
  "(string \<Rightarrow> json option) \<Rightarrow> string \<Rightarrow> StdoutPumpState \<Rightarrow> string list \<Rightarrow> TerminalOutput option option" where
  "pump_until parse execution_id st [] = Some None"
| "pump_until parse execution_id st (line # lines) =
     Option.bind (pump_observe parse execution_id line st) (\<lambda>(st1, t).
       case t of Some t \<Rightarrow> Some (Some t) | None \<Rightarrow> pump_until parse execution_id st1 lines)"

definition answer_of :: "StdoutPumpState \<Rightarrow> string \<Rightarrow> FinalAnswerText" where
  "answer_of st execution_id =
     (case final_answer_text_by_execution st execution_id of None \<Rightarrow> fa_default | Some fa \<Rightarrow> fa)"

lemma pump_observe_answer:
  "pump_observe parse e line st =
     (case parse line of
        None \<Rightarrow> Some (st, None)
      | Some v \<Rightarrow> map_option (\<lambda>fa.
          (st\<lparr>final_answer_text_by_execution := (final_answer_text_by_execution st)(e \<mapsto> fa)\<rparr>,
           terminal_output v (fa_text fa))) (fa_observe v (answer_of st e)))"
  by (cases "parse line") (simp_all add: pump_observe_def answer_of_def Let_def)

lemma pump_until_fold: "pump_until parse e st lines = fold_lines parse (answer_of st e) lines"
proof (induction lines arbitrary: st)
  case (Cons line lines)
  have "answer_of (st\<lparr>final_answer_text_by_execution := (final_answer_text_by_execution st)(e \<mapsto> fa)\<rparr>) e = fa" for fa
    by (simp add: answer_of_def)
  then show ?case
    by (cases "parse line"; cases "fa_observe (the (parse line)) (answer_of st e)")
       (auto simp: pump_observe_answer Cons.IH split: option.split)
qed simp

lemma fold_lines_total: "\<exists>t. fold_lines parse (fa_of a) lines = Some t"
  by (induction lines arbitrary: a) (auto simp: fa_observe_refines split: option.split)

text \<open>
  Recovering a turn from the recorded lines gives what the live pump would have reported: for every
  history of an execution the pump knows nothing of yet, the first terminal outcome the pump observes,
  with its answer, is the one \<^verbatim>\<open>terminal_output_from_lines\<close> finds, and neither panics.
\<close>

lemma recovery_matches_pump:
  assumes "final_answer_text_by_execution st e = None"
  shows "pump_until parse e st lines = terminal_output_from_lines parse lines \<and>
    (\<exists>t. terminal_output_from_lines parse lines = Some t)"
  using assms fold_lines_total [of parse "([], [])" lines]
  by (simp add: pump_until_fold terminal_output_from_lines_def answer_of_def fa_default_of)

definition example_parse :: "string \<Rightarrow> json option" where
  "example_parse line =
     (if line = ''d'' then Some (JObj [(''type'', JStr ''assistant.delta''), (''payload'', JObj [(''text'', JStr ''hi'')])])
      else if line = ''e'' then Some (JObj [(''type'', JStr ''turn.completed'')]) else None)"

section \<open>Late output\<close>

fun attribute :: "(string \<Rightarrow> json option) \<Rightarrow> StdoutPumpState \<Rightarrow> (string option \<times> string) list \<Rightarrow> string option list" where
  "attribute parse st [] = []"
| "attribute parse st ((active, line) # ls) =
     (let (st1, e) = execution_for_line parse st active line in e # attribute parse st1 ls)"

lemma remember_ids_apply: "remember_ids ids e m i = (if i \<in> set ids then Some e else m i)"
proof -
  have "fold (\<lambda>i m. m(i \<mapsto> e)) ids m i = (if i \<in> set ids then Some e else m i)" for m
    by (induction ids arbitrary: m) auto
  then show ?thesis by (simp add: remember_ids_def)
qed

lemma execution_for_line_known:
  assumes "turn_execution_by_id st t = Some e" and "parse line = Some v" and "turn_ids v \<noteq> []" and "set (turn_ids v) \<subseteq> {t}"
  shows "snd (execution_for_line parse st active line) = (if active = Some e then Some e else None)"
proof -
  obtain ts where "turn_ids v = t # ts" using assms(3,4) by (cases "turn_ids v") auto
  then have "known_execution_for_value st v = Some e"
    using assms(1) by (simp add: known_execution_for_value_def first_present_def or_else_def List.map_filter_def)
  then show ?thesis using assms(2) by (simp add: execution_for_line_def)
qed


text \<open>A line that keeps what the pump knows of turn \<open>t\<close> of execution \<open>e\<close>.\<close>

definition keeps_turn :: "(string \<Rightarrow> json option) \<Rightarrow> string \<Rightarrow> string \<Rightarrow> string option \<times> string \<Rightarrow> bool" where
  "keeps_turn parse t e l \<longleftrightarrow>
     (case parse (snd l) of
        None \<Rightarrow> True
      | Some v \<Rightarrow> (t \<in> set (turn_ids v) \<longrightarrow> set (turn_ids v) = {t}) \<and>
          (fst l = Some e \<or> (\<forall>prior. terminal_output v prior = None)))"

lemma remembered_turn [simp]:
  "turn_execution_by_id (remember_value_execution v e st) t =
     (if t \<in> set (turn_ids v) then Some e else turn_execution_by_id st t)"
  by (simp add: remember_value_execution_def remember_ids_apply)

lemma execution_for_line_keeps:
  assumes "turn_execution_by_id st t = Some e" and "keeps_turn parse t e (active, line)"
  shows "turn_execution_by_id (fst (execution_for_line parse st active line)) t = Some e"
proof (cases "parse line")
  case None
  then show ?thesis using assms(1) by (simp add: execution_for_line_def)
next
  case (Some v)
  show ?thesis
  proof (cases "t \<in> set (turn_ids v)")
    case True
    then have "known_execution_for_value st v = Some e"
      using assms Some by (cases "turn_ids v")
        (auto simp: keeps_turn_def known_execution_for_value_def first_present_def or_else_def List.map_filter_def)
    then show ?thesis using assms Some by (auto simp: execution_for_line_def keeps_turn_def)
  next
    case False
    have "turn_execution_by_id (forget k st) t = Some e" if "k \<noteq> e" for k
      using assms(1) that by (simp add: forget_def without_execution_def)
    then show ?thesis using assms Some False
      by (auto simp: execution_for_line_def keeps_turn_def split: option.split)
  qed
qed

lemma attributed_line:
  assumes "parse line = Some v" and "snd (execution_for_line parse st active line) = Some e"
  shows "fst (execution_for_line parse st active line) = remember_value_execution v e st"
  using assms by (cases "known_execution_for_value st v"; cases active) (auto simp: execution_for_line_def split: if_splits)

text \<open>
  Late output stays with its turn: once a line of a turn was attributed to an execution, every later
  line of that turn is attributed to the same execution while it is active and dropped otherwise, never
  counted to a newer execution, as long as no terminal line arrives after the execution ended.
\<close>

lemma late_output_dropped:
  assumes "parse l0 = Some v0" and "set (turn_ids v0) = {t}"
    and "execution_for_line parse st active l0 = (st1, Some e)"
    and "\<forall>l \<in> set ls. keeps_turn parse t e l"
    and "i < length ls" and "parse (snd (ls ! i)) = Some v" and "t \<in> set (turn_ids v)"
  shows "attribute parse st1 ls ! i = (if fst (ls ! i) = Some e then Some e else None)"
proof -
  have "turn_execution_by_id st1 t = Some e"
    using attributed_line [of parse l0 v0 st active e] assms(1-3) by simp
  then show ?thesis using assms(4-7)
  proof (induction ls arbitrary: st1 i)
    case (Cons l ls)
    obtain active line where l: "l = (active, line)" by (cases l)
    have keep: "turn_execution_by_id (fst (execution_for_line parse st1 active line)) t = Some e"
      using execution_for_line_keeps Cons.prems(1,2) l by simp
    show ?case
    proof (cases i)
      case 0
      then have "set (turn_ids v) \<subseteq> {t}" "turn_ids v \<noteq> []"
        using Cons.prems l by (auto simp: keeps_turn_def)
      then show ?thesis using execution_for_line_known [OF Cons.prems(1)] Cons.prems(4) 0 l
        by (simp add: case_prod_beta)
    next
      case (Suc j)
      then show ?thesis using Cons.IH [OF keep] Cons.prems l by (simp add: case_prod_beta)
    qed
  qed simp
qed

definition turn_parse :: "string \<Rightarrow> json option" where
  "turn_parse line = Some (JObj [(''turn_id'', JStr line)])"

end
