(* ===== verification/Redaction.thy ===== *)
theory Redaction
  imports Prelude
begin

text \<open>
  The redaction of output lines in \<^verbatim>\<open>crates/centaur-session-runtime/src/lib.rs\<close>
  (\<^verbatim>\<open>redact_sensitive_text\<close> and its helpers), which every line of a sandbox passes before it is stored.
  The loops run over byte offsets, as the code does; a byte of a multi-byte character is no token
  character and starts no prefix, so stepping by bytes copies what stepping by characters copies.
  The loops are shown equal to recursions over the text, and the output to hold no token the rules name.
\<close>

section \<open>The rules\<close>

definition REDACTED_TOKEN :: string where
  "REDACTED_TOKEN = ''[REDACTED_TOKEN]''"

definition is_ascii_alphanumeric :: "char \<Rightarrow> bool" where
  "is_ascii_alphanumeric c \<longleftrightarrow>
     (let n = of_char c :: nat in (48 \<le> n \<and> n \<le> 57) \<or> (65 \<le> n \<and> n \<le> 90) \<or> (97 \<le> n \<and> n \<le> 122))"

definition is_sensitive_token_char :: "char \<Rightarrow> bool" where
  "is_sensitive_token_char ch \<longleftrightarrow> is_ascii_alphanumeric ch \<or> ch \<in> set ''_-=+/.:''"

definition is_env_key_char :: "char \<Rightarrow> bool" where
  "is_env_key_char ch \<longleftrightarrow> is_ascii_alphanumeric ch \<or> ch \<in> set ''_-''"

definition ascii_upper_char :: "char \<Rightarrow> char" where
  "ascii_upper_char c = (let n = of_char c :: nat in if 97 \<le> n \<and> n \<le> 122 then char_of (n - 32) else c)"

definition to_ascii_uppercase :: "string \<Rightarrow> string" where
  "to_ascii_uppercase = map ascii_upper_char"

definition is_sensitive_env_key :: "string \<Rightarrow> bool" where
  "is_sensitive_env_key key =
     (let upper = to_ascii_uppercase key in
      str_contains upper ''API_KEY'' \<or> str_contains upper ''TOKEN'' \<or> str_contains upper ''SECRET'' \<or>
      str_contains upper ''PASSWORD'')"

definition consume_sensitive_token :: "string \<Rightarrow> nat \<Rightarrow> nat" where
  "consume_sensitive_token input start = start + length (takeWhile is_sensitive_token_char (drop start input))"

definition env_key_start :: "string \<Rightarrow> nat \<Rightarrow> nat" where
  "env_key_start input equals = equals - length (takeWhile is_env_key_char (rev (take equals input)))"

definition has_token_boundary_before :: "string \<Rightarrow> nat \<Rightarrow> bool" where
  "has_token_boundary_before input index \<longleftrightarrow>
     index = 0 \<or> (case rev (take index input) of [] \<Rightarrow> True | ch # _ \<Rightarrow> \<not> is_sensitive_token_char ch)"

definition PREFIXES :: "string list" where
  "PREFIXES =
     [''sbx1.'', ''xoxa-'', ''xoxb-'', ''xoxp-'', ''xoxr-'', ''xoxs-'', ''sk-ant-'', ''sk-'',
      ''ghp_'', ''gho_'', ''ghu_'', ''ghs_'', ''ghr_'', ''github_pat_'']"

definition should_redact_prefixed_token :: "string \<Rightarrow> nat \<Rightarrow> string \<Rightarrow> bool" where
  "should_redact_prefixed_token input index pfx =
     (if \<not> starts_with (drop index input) pfx \<or> \<not> has_token_boundary_before input index then False
      else let token_start = index + length pfx; token_end = consume_sensitive_token input token_start in
        if token_end = token_start then False
        else if starts_with pfx ''sk-'' then 16 \<le> token_end - token_start
        else True)"

section \<open>The three passes\<close>

definition BEARER :: string where
  "BEARER = ''bearer ''"

function bearer_loop :: "string \<Rightarrow> string \<Rightarrow> nat \<Rightarrow> string \<Rightarrow> string" where
  "bearer_loop input lower index out =
     (case find_sub BEARER (drop index lower) of
        None \<Rightarrow> out @ drop index input
      | Some relative \<Rightarrow>
          let start = index + relative;
              token_start = start + length BEARER;
              token_end = consume_sensitive_token input token_start;
              out1 = out @ take (token_start - index) (drop index input)
          in if token_end > token_start then bearer_loop input lower token_end (out1 @ REDACTED_TOKEN)
             else bearer_loop input lower token_start out1)"
  by pat_completeness auto

termination bearer_loop
proof (relation "measure (\<lambda>(input, lower, index, out). length lower - index)", goal_cases)
  case (2 input lower index out relative)
  then show ?case using find_sub_bound [of BEARER "drop index lower" relative] by (auto simp: BEARER_def)
next
  case (3 input lower index out relative)
  then show ?case using find_sub_bound [of BEARER "drop index lower" relative] by (auto simp: BEARER_def)
qed simp

definition redact_bearer_tokens :: "string \<Rightarrow> string" where
  "redact_bearer_tokens input = bearer_loop input (to_ascii_lowercase input) 0 []"

function env_loop :: "string \<Rightarrow> nat \<Rightarrow> string \<Rightarrow> string" where
  "env_loop input index out =
     (case find_sub ''='' (drop index input) of
        None \<Rightarrow> out @ drop index input
      | Some relative \<Rightarrow>
          let equals = index + relative;
              key_start = env_key_start input equals;
              key = take (equals - key_start) (drop key_start input);
              out1 = out @ take (equals + 1 - index) (drop index input);
              token_start = equals + 1;
              token_end = consume_sensitive_token input token_start
          in if is_sensitive_env_key key \<and> token_end > token_start
             then env_loop input token_end (out1 @ REDACTED_TOKEN)
             else env_loop input (equals + 1) out1)"
  by pat_completeness auto
termination
proof (relation "measure (\<lambda>(input, index, out). length input - index)", goal_cases)
  case (2 input index out relative)
  then show ?case using find_sub_bound [of "''=''" "drop index input" relative] by auto
next
  case (3 input index out relative)
  then show ?case using find_sub_bound [of "''=''" "drop index input" relative] by auto
qed simp

definition redact_sensitive_env_assignments :: "string \<Rightarrow> string" where
  "redact_sensitive_env_assignments input = env_loop input 0 []"

function prefixed_loop :: "string \<Rightarrow> nat \<Rightarrow> string \<Rightarrow> string" where
  "prefixed_loop input index out =
     (if index < length input then
        case find (should_redact_prefixed_token input index) PREFIXES of
          Some pfx \<Rightarrow>
            prefixed_loop input (consume_sensitive_token input (index + length pfx)) (out @ REDACTED_TOKEN)
        | None \<Rightarrow> prefixed_loop input (index + 1) (out @ [input ! index])
      else out)"
  by pat_completeness auto
termination
proof (relation "measure (\<lambda>(input, index, out). length input - index)", goal_cases)
  case (3 input index out pfx)
  then have "pfx \<in> set PREFIXES" by (auto simp: find_Some_iff)
  then have "0 < length pfx" by (auto simp: PREFIXES_def)
  then have "index < consume_sensitive_token input (index + length pfx)" by (simp add: consume_sensitive_token_def)
  with 3(1) show ?case by simp
qed simp_all

definition redact_prefixed_tokens :: "string \<Rightarrow> string" where
  "redact_prefixed_tokens input = prefixed_loop input 0 []"

definition redact_sensitive_text :: "string \<Rightarrow> string" where
  "redact_sensitive_text input =
     redact_prefixed_tokens (redact_sensitive_env_assignments (redact_bearer_tokens input))"

declare bearer_loop.simps [simp del] env_loop.simps [simp del] prefixed_loop.simps [simp del]


section \<open>The passes as recursions over the text\<close>

abbreviation tok :: "char \<Rightarrow> bool" where
  "tok \<equiv> is_sensitive_token_char"

definition token_follows :: "string \<Rightarrow> bool" where
  "token_follows s \<longleftrightarrow> s \<noteq> [] \<and> tok (hd s)"

lemma token_follows_simps [simp]: "\<not> token_follows []" "token_follows (c # s) \<longleftrightarrow> tok c"
  by (simp_all add: token_follows_def)

lemma takeWhile_tok_Nil [simp]: "takeWhile tok s = [] \<longleftrightarrow> \<not> token_follows s"
  by (cases s) auto

lemma dropWhile_tok [simp]: "\<not> token_follows (dropWhile tok s)"
  by (induction s) auto

lemma drop_consumed: "drop (consume_sensitive_token input n) input = dropWhile tok (drop n input)"
  by (simp add: consume_sensitive_token_def dropWhile_eq_drop add.commute)

lemma consumed_more [simp]: "n < consume_sensitive_token input n \<longleftrightarrow> token_follows (drop n input)"
  by (simp add: consume_sensitive_token_def)

definition bearer_here :: "string \<Rightarrow> bool" where
  "bearer_here s \<longleftrightarrow> starts_with (to_ascii_lowercase s) BEARER"

function redact_bearer :: "string \<Rightarrow> string" where
  "redact_bearer s =
     (if bearer_here s then
        take (length BEARER) s @ (if token_follows (drop (length BEARER) s) then REDACTED_TOKEN @ redact_bearer (dropWhile tok (drop (length BEARER) s))
                    else redact_bearer (drop (length BEARER) s))
      else case s of [] \<Rightarrow> [] | c # cs \<Rightarrow> c # redact_bearer cs)"
  by pat_completeness auto

lemma BEARER_length: "length BEARER = Suc 6"
  by (simp add: BEARER_def)

lemma bearer_here_length:
  assumes "bearer_here s"
  shows "length BEARER \<le> length s"
proof -
  have "length (take (length BEARER) (to_ascii_lowercase s)) = length BEARER"
    using assms by (simp add: bearer_here_def starts_with_def)
  then show ?thesis by (simp add: to_ascii_lowercase_def)
qed

termination redact_bearer
proof (relation "measure length", goal_cases)
  case (2 s)
  then show ?case
    using length_dropWhile_le [of tok "drop (length BEARER) s"] bearer_here_length [of s] by (simp add: BEARER_length)
next
  case (3 s)
  then show ?case using bearer_here_length [of s] by (simp add: BEARER_length)
qed auto

declare redact_bearer.simps [simp del]

lemma redact_bearer_find:
  "redact_bearer s =
     (case find_sub BEARER (to_ascii_lowercase s) of
        None \<Rightarrow> s
      | Some r \<Rightarrow> take (r + length BEARER) s @
          (if token_follows (drop (r + length BEARER) s) then REDACTED_TOKEN @ redact_bearer (dropWhile tok (drop (r + length BEARER) s))
           else redact_bearer (drop (r + length BEARER) s)))"
proof (induction s)
  case Nil
  have "\<not> bearer_here []" by (simp add: bearer_here_def to_ascii_lowercase_def starts_with_def BEARER_def)
  then show ?case
    by (simp add: redact_bearer.simps [of "[]"] find_sub.simps [of BEARER "[]"] bearer_here_def to_ascii_lowercase_def)
next
  case (Cons c cs)
  show ?case
  proof (cases "bearer_here (c # cs)")
    case True
    then show ?thesis
      by (simp add: redact_bearer.simps [of "c # cs"] find_sub.simps [of BEARER "to_ascii_lowercase (c # cs)"] bearer_here_def)
  next
    case False
    then have "find_sub BEARER (to_ascii_lowercase (c # cs)) = map_option Suc (find_sub BEARER (to_ascii_lowercase cs))"
      by (simp add: find_sub.simps [of BEARER "to_ascii_lowercase (c # cs)"] bearer_here_def)
         (simp add: to_ascii_lowercase_def)
    with False show ?thesis
      by (simp add: redact_bearer.simps [of "c # cs"] Cons.IH split: option.split)
  qed
qed

lemma bearer_loop_eq: "bearer_loop input (to_ascii_lowercase input) index out = out @ redact_bearer (drop index input)"
proof (induction input "to_ascii_lowercase input" index out rule: bearer_loop.induct)
  case (1 input index out)
  have low: "drop index (to_ascii_lowercase input) = to_ascii_lowercase (drop index input)"
    by (simp add: to_ascii_lowercase_def drop_map)
  show ?case
  proof (cases "find_sub BEARER (drop index (to_ascii_lowercase input))")
    case None
    then show ?thesis
      by (simp add: bearer_loop.simps [of input _ index] redact_bearer_find [of "drop index input"] low)
  next
    case (Some r)
    have d: "drop (index + r + length BEARER) input = drop (r + length BEARER) (drop index input)"
      by (simp add: add.commute add.left_commute)
    show ?thesis
      using 1 [OF Some refl refl refl refl] Some
      by (simp add: bearer_loop.simps [of input _ index] redact_bearer_find [of "drop index input"] low [symmetric]
          drop_consumed d [symmetric] Let_def del: drop_drop)
  qed
qed


definition key_of :: "string \<Rightarrow> string" where
  "key_of s = rev (takeWhile is_env_key_char (rev s))"

lemma key_of_simps [simp]: "key_of [] = []" "key_of (k @ [c]) = (if is_env_key_char c then key_of k @ [c] else [])"
  by (simp_all add: key_of_def)

lemma key_of_key_of: "key_of (key_of a @ b) = key_of (a @ b)"
  by (cases "\<forall>c \<in> set b. is_env_key_char c") (auto simp: key_of_def takeWhile_append)

lemma key_of_reset: "\<not> is_env_key_char c \<Longrightarrow> key_of (k @ c # t) = key_of t"
  by (cases "\<forall>d \<in> set t. is_env_key_char d") (auto simp: key_of_def takeWhile_append takeWhile_eq_all_conv [THEN iffD2])

lemma key_of_id: "\<forall>c \<in> set k. is_env_key_char c \<Longrightarrow> key_of k = k"
  by (simp add: key_of_def takeWhile_eq_all_conv [THEN iffD2])

lemma key_of_chars: "c \<in> set (key_of s) \<Longrightarrow> is_env_key_char c"
  by (auto simp: key_of_def dest: set_takeWhileD)

lemma char_classes:
  "\<not> is_env_key_char (CHR ''='')" "tok (CHR ''='')" "is_env_key_char c \<Longrightarrow> tok c"
  "\<not> tok (CHR '']'')" "\<not> tok (CHR ''['')" "\<not> is_env_key_char (CHR '']'')"
  by (auto simp: is_env_key_char_def is_sensitive_token_char_def is_ascii_alphanumeric_def)

function redact_env :: "string \<Rightarrow> string \<Rightarrow> string" where
  "redact_env k [] = []"
| "redact_env k (c # cs) =
     (if c = CHR ''='' then
        c # (if is_sensitive_env_key k \<and> token_follows cs then REDACTED_TOKEN @ redact_env [] (dropWhile tok cs)
             else redact_env [] cs)
      else c # redact_env (if is_env_key_char c then k @ [c] else []) cs)"
  by pat_completeness auto
termination
  by (relation "measure (\<lambda>(k, s). length s)") (auto simp: le_imp_less_Suc length_dropWhile_le)

lemma redact_env_reset: "\<not> token_follows s \<Longrightarrow> redact_env k s = redact_env [] s"
  using char_classes by (cases s) auto

lemma find_equals:
  "find_sub ''='' [] = None"
  "find_sub ''='' (c # cs) = (if c = CHR ''='' then Some 0 else map_option Suc (find_sub ''='' cs))"
  by (simp_all add: find_sub.simps [of _ "[]"] find_sub.simps [of _ "c # cs"] starts_with_def)

lemma redact_env_find:
  assumes "\<forall>c \<in> set k. is_env_key_char c"
  shows "redact_env k s =
     (case find_sub ''='' s of
        None \<Rightarrow> s
      | Some r \<Rightarrow> take (Suc r) s @
          (if is_sensitive_env_key (key_of (k @ take r s)) \<and> token_follows (drop (Suc r) s)
           then REDACTED_TOKEN @ redact_env [] (dropWhile tok (drop (Suc r) s))
           else redact_env [] (drop (Suc r) s)))"
  using assms
proof (induction s arbitrary: k)
  case (Cons c cs)
  show ?case
  proof (cases "c = CHR ''=''")
    case True
    then show ?thesis using Cons.prems by (simp add: find_equals key_of_id)
  next
    case False
    show ?thesis
    proof (cases "is_env_key_char c")
      case True
      then show ?thesis using Cons.IH [of "k @ [c]"] Cons.prems False by (simp add: find_equals split: option.split)
    next
      case key: False
      then show ?thesis using Cons.IH [of "[]"] False by (simp add: find_equals key_of_reset split: option.split)
    qed
  qed
qed (simp add: find_equals)

lemma env_key: "take (n - env_key_start input n) (drop (env_key_start input n) input) = key_of (take n input)"
  if "n \<le> length input" for n
proof -
  define m where "m = length (takeWhile is_env_key_char (rev (take n input)))"
  have "m \<le> n" using that length_takeWhile_le [of is_env_key_char "rev (take n input)"] by (simp add: m_def)
  moreover have "key_of (take n input) = rev (take m (rev (take n input)))"
    unfolding key_of_def m_def by (metis takeWhile_eq_take)
  moreover have "rev (take m (rev (take n input))) = drop (n - m) (take n input)"
    using that by (simp add: take_rev min_def)
  ultimately show ?thesis by (simp add: env_key_start_def m_def [symmetric] drop_take)
qed

lemma env_loop_eq: "env_loop input index out = out @ redact_env (key_of (take index input)) (drop index input)"
proof (induction input index out rule: env_loop.induct)
  case (1 input index out)
  have k: "\<forall>c \<in> set (key_of (take index input)). is_env_key_char c" using key_of_chars by blast
  show ?case
  proof (cases "find_sub ''='' (drop index input)")
    case None
    then show ?thesis by (simp add: env_loop.simps [of input index] redact_env_find [OF k])
  next
    case (Some r)
    then have le: "Suc (index + r) \<le> length input"
      using find_sub_bound [of "''=''" "drop index input" r] by (cases "index \<le> length input") auto
    have key: "take (index + r - env_key_start input (index + r)) (drop (env_key_start input (index + r)) input) =
        key_of (key_of (take index input) @ take r (drop index input))"
      using env_key [of "index + r" input] le by (simp add: key_of_key_of take_add)
    have "input ! (index + r) = CHR ''=''"
      using find_sub_Some [OF Some] le by (simp add: starts_with_def hd_drop_conv_nth take_Suc add.commute)
    then have "key_of (take (Suc (index + r)) input) = []"
      using le char_classes(1) by (simp add: take_Suc_conv_app_nth)
    moreover have "drop (Suc r) (drop index input) = drop (Suc (index + r)) input" by (simp add: add.commute)
    ultimately show ?thesis
      using 1 [OF Some refl refl refl refl refl refl] Some redact_env_reset [OF dropWhile_tok]
      by (simp add: env_loop.simps [of input index] redact_env_find [OF k, of "drop index input"] key Let_def
          drop_consumed del: drop_drop)
  qed
qed


text \<open>A run of token characters that one of the prefixes makes a secret.\<close>

definition sensitive_run :: "string \<Rightarrow> bool" where
  "sensitive_run r \<longleftrightarrow>
     (\<exists>pfx \<in> set PREFIXES. starts_with r pfx \<and> length pfx < length r \<and>
        (starts_with pfx ''sk-'' \<longrightarrow> 16 \<le> length r - length pfx))"

function redact_runs :: "string \<Rightarrow> string" where
  "redact_runs [] = []"
| "redact_runs (c # cs) =
     (if tok c then
        (if sensitive_run (takeWhile tok (c # cs)) then REDACTED_TOKEN else takeWhile tok (c # cs)) @
        redact_runs (dropWhile tok cs)
      else c # redact_runs cs)"
  by pat_completeness auto
termination
  by (relation "measure length") (auto simp: le_imp_less_Suc length_dropWhile_le)

definition runs_from :: "bool \<Rightarrow> string \<Rightarrow> string" where
  "runs_from boundary s = (if boundary then redact_runs s else takeWhile tok s @ redact_runs (dropWhile tok s))"

lemma PREFIXES_tok: "pfx \<in> set PREFIXES \<Longrightarrow> pfx \<noteq> [] \<and> (\<forall>c \<in> set pfx. tok c)"
proof -
  have "list_all (\<lambda>p. p \<noteq> [] \<and> list_all tok p) PREFIXES" by code_simp
  then show "pfx \<in> set PREFIXES \<Longrightarrow> pfx \<noteq> [] \<and> (\<forall>c \<in> set pfx. tok c)" by (simp add: list_all_iff)
qed

lemma run_after_prefix:
  assumes "starts_with s pfx" and "\<forall>c \<in> set pfx. tok c"
  shows "takeWhile tok s = pfx @ takeWhile tok (drop (length pfx) s)" "dropWhile tok (drop (length pfx) s) = dropWhile tok s"
proof -
  obtain u where u: "s = pfx @ u" using assms(1) unfolding starts_with_def by (metis append_take_drop_id)
  then show "takeWhile tok s = pfx @ takeWhile tok (drop (length pfx) s)" using assms(2) by simp
  show "dropWhile tok (drop (length pfx) s) = dropWhile tok s" using assms(2) u by simp
qed

lemma should_redact_iff:
  assumes "pfx \<in> set PREFIXES"
  shows "should_redact_prefixed_token input index pfx \<longleftrightarrow>
    has_token_boundary_before input index \<and> starts_with (takeWhile tok (drop index input)) pfx \<and>
    length pfx < length (takeWhile tok (drop index input)) \<and>
    (starts_with pfx ''sk-'' \<longrightarrow> 16 \<le> length (takeWhile tok (drop index input)) - length pfx)"
proof (cases "starts_with (drop index input) pfx")
  case True
  have d: "drop (index + length pfx) input = drop (length pfx) (drop index input)" by (simp add: add.commute)
  show ?thesis
    using run_after_prefix(1) [OF True] PREFIXES_tok [OF assms] True
    by (simp add: should_redact_prefixed_token_def consume_sensitive_token_def Let_def d starts_with_def del: drop_drop)
next
  case False
  then have "\<not> starts_with (takeWhile tok (drop index input)) pfx"
    unfolding starts_with_def by (metis length_takeWhile_le order_trans takeWhile_eq_take take_take min.absorb1 length_take min.cobounded1 nat_le_linear take_all)
  with False show ?thesis by (simp add: should_redact_prefixed_token_def)
qed

lemma find_redacted:
  "find (should_redact_prefixed_token input index) PREFIXES \<noteq> None \<longleftrightarrow>
     has_token_boundary_before input index \<and> sensitive_run (takeWhile tok (drop index input))"
  unfolding find_None_iff sensitive_run_def using should_redact_iff by blast

lemma boundary_Suc:
  "n < length input \<Longrightarrow> has_token_boundary_before input (Suc n) \<longleftrightarrow> \<not> tok (input ! n)"
  by (simp add: has_token_boundary_before_def take_Suc_conv_app_nth)

lemma redact_runs_stop: "\<not> token_follows s \<Longrightarrow> runs_from b s = redact_runs s"
  by (cases s) (auto simp: runs_from_def)

lemma runs_from_step:
  "\<not> (b \<and> sensitive_run (takeWhile tok (c # cs))) \<Longrightarrow> runs_from b (c # cs) = c # runs_from (\<not> tok c) cs"
  by (auto simp: runs_from_def)

lemma prefixed_loop_eq:
  "prefixed_loop input index out = out @ runs_from (has_token_boundary_before input index) (drop index input)"
proof (induction input index out rule: prefixed_loop.induct)
  case (1 input index out)
  show ?case
  proof (cases "index < length input")
    case in_range: True
    then have cons: "drop index input = input ! index # drop (Suc index) input" by (simp add: Cons_nth_drop_Suc)
    show ?thesis
    proof (cases "find (should_redact_prefixed_token input index) PREFIXES")
      case None
      then have "\<not> (has_token_boundary_before input index \<and> sensitive_run (takeWhile tok (drop index input)))"
        using find_redacted [of input index] by simp
      then show ?thesis
        using 1(1) [OF in_range None] None in_range runs_from_step [of "has_token_boundary_before input index"]
        by (simp add: prefixed_loop.simps [of input index] cons boundary_Suc)
    next
      case (Some pfx)
      have pfx: "pfx \<in> set PREFIXES" and hit: "should_redact_prefixed_token input index pfx"
        using Some by (auto simp: find_Some_iff)
      have start: "starts_with (drop index input) pfx"
        using hit by (simp add: should_redact_prefixed_token_def split: if_splits)
      have "drop (index + length pfx) input = drop (length pfx) (drop index input)" by (simp add: add.commute)
      then have rest: "drop (consume_sensitive_token input (index + length pfx)) input = dropWhile tok (drop index input)"
        unfolding drop_consumed using run_after_prefix(2) [OF start] PREFIXES_tok [OF pfx] by simp
      have b: "has_token_boundary_before input index" "sensitive_run (takeWhile tok (drop index input))"
        using find_redacted [of input index] Some by auto
      have "tok (input ! index)" using b(2) cons by (auto simp: sensitive_run_def split: if_splits)
      then have "runs_from True (drop index input) = REDACTED_TOKEN @ redact_runs (dropWhile tok (drop index input))"
        using b(2) unfolding cons by (simp add: runs_from_def)
      then show ?thesis
        using 1(2) [OF in_range Some] Some in_range b(1)
        by (simp add: prefixed_loop.simps [of input index] rest redact_runs_stop)
    qed
  next
    case False
    then show ?thesis by (simp add: prefixed_loop.simps [of input index] runs_from_def)
  qed
qed


section \<open>What a pass changes\<close>

text \<open>\<open>redacts s t\<close>: \<open>t\<close> is \<open>s\<close> with some ends of token runs replaced by the mark.\<close>

inductive redacts :: "string \<Rightarrow> string \<Rightarrow> bool" where
  nothing: "redacts [] []"
| copied: "redacts s t \<Longrightarrow> redacts (c # s) (c # t)"
| replaced: "redacts s t \<Longrightarrow> r \<noteq> [] \<Longrightarrow> \<forall>c \<in> set r. tok c \<Longrightarrow> \<not> token_follows s \<Longrightarrow> redacts (r @ s) (REDACTED_TOKEN @ t)"

lemma redacts_append: "redacts s t \<Longrightarrow> redacts (u @ s) (u @ t)"
  by (induction u) (auto intro: redacts.intros)

lemma replaced_run: "redacts (dropWhile tok s) t \<Longrightarrow> token_follows s \<Longrightarrow> redacts s (REDACTED_TOKEN @ t)"
  using redacts.replaced [of "dropWhile tok s" t "takeWhile tok s"] set_takeWhileD [of _ tok s] by fastforce

lemma bearer_redacts: "redacts s (redact_bearer s)"
proof (induction s rule: redact_bearer.induct)
  case (1 s)
  show ?case
  proof (cases "bearer_here s")
    case True
    show ?thesis
    proof (cases "token_follows (drop (length BEARER) s)")
      case follows: True
      have "redacts (take (length BEARER) s @ drop (length BEARER) s)
          (take (length BEARER) s @ REDACTED_TOKEN @ redact_bearer (dropWhile tok (drop (length BEARER) s)))"
        by (intro redacts_append replaced_run 1(1) [OF True follows] follows)
      with True follows show ?thesis by (simp add: redact_bearer.simps [of s])
    next
      case False
      have "redacts (take (length BEARER) s @ drop (length BEARER) s)
          (take (length BEARER) s @ redact_bearer (drop (length BEARER) s))"
        by (intro redacts_append 1(2) [OF True False])
      with True False show ?thesis by (simp add: redact_bearer.simps [of s])
    qed
  next
    case False
    then show ?thesis using 1(3) [OF False] redact_bearer.simps [of s]
      by (cases s) (auto intro: redacts.intros)
  qed
qed

lemma env_redacts: "redacts s (redact_env k s)"
  by (induction k s rule: redact_env.induct) (auto intro: redacts.intros replaced_run)

lemma runs_redacts: "redacts s (redact_runs s)"
proof (induction s rule: redact_runs.induct)
  case (2 c cs)
  show ?case
  proof (cases "tok c")
    case True
    have "redacts (takeWhile tok cs @ dropWhile tok cs) (takeWhile tok cs @ redact_runs (dropWhile tok cs))"
      by (intro redacts_append 2(1) [OF True])
    with 2(1) [OF True] True show ?thesis
      using replaced_run [of "c # cs" "redact_runs (dropWhile tok cs)"] by (auto intro: redacts.copied)
  qed (use 2(2) in \<open>auto intro: redacts.copied\<close>)
qed (simp add: redacts.nothing)

lemma mark_head [simp]: "\<not> token_follows (REDACTED_TOKEN @ t)"
  using char_classes by (simp add: REDACTED_TOKEN_def)

lemma redacts_follows: "redacts s t \<Longrightarrow> token_follows t \<Longrightarrow> token_follows s"
  by (induction rule: redacts.induct) auto

lemma redacts_same_start:
  assumes "redacts s t" and "CHR ''['' \<notin> set (take n t)" and "n \<le> length t"
  shows "take n s = take n t"
  using assms
proof (induction arbitrary: n rule: redacts.induct)
  case (copied s t c)
  then show ?case by (cases n) auto
next
  case (replaced s t r)
  then have "n = 0" by (cases n) (auto simp: REDACTED_TOKEN_def)
  then show ?case by simp
qed simp

section \<open>Texts without secrets\<close>

fun bearer_clean :: "string \<Rightarrow> bool" where
  "bearer_clean [] = True"
| "bearer_clean (c # cs) \<longleftrightarrow>
     \<not> (bearer_here (c # cs) \<and> token_follows (drop (length BEARER) (c # cs))) \<and> bearer_clean cs"

fun env_clean :: "string \<Rightarrow> string \<Rightarrow> bool" where
  "env_clean k [] = True"
| "env_clean k (c # cs) \<longleftrightarrow>
     (if c = CHR ''='' then \<not> (is_sensitive_env_key k \<and> token_follows cs) \<and> env_clean [] cs
      else env_clean (if is_env_key_char c then k @ [c] else []) cs)"

fun runs_clean :: "bool \<Rightarrow> string \<Rightarrow> bool" where
  "runs_clean b [] = True"
| "runs_clean b (c # cs) \<longleftrightarrow> \<not> (b \<and> sensitive_run (takeWhile tok (c # cs))) \<and> runs_clean (\<not> tok c) cs"

lemma bearer_here_hd: "bearer_here (c # s) \<Longrightarrow> ascii_lower_char c = CHR ''b''"
  by (simp add: bearer_here_def starts_with_def to_ascii_lowercase_def BEARER_def)

lemma bearer_start:
  assumes "bearer_here t" and "token_follows (drop (length BEARER) t)"
  shows "CHR ''['' \<notin> set (take (Suc (length BEARER)) t)" and "Suc (length BEARER) \<le> length t"
proof -
  have len: "length BEARER < length t" using assms(2) by (cases "length BEARER < length t") auto
  then show "Suc (length BEARER) \<le> length t" by simp
  have "map ascii_lower_char (take (length BEARER) t) = BEARER"
    using assms(1) by (simp add: bearer_here_def starts_with_def to_ascii_lowercase_def take_map)
  moreover have "ascii_lower_char (CHR ''['') \<notin> set BEARER" by (simp add: ascii_lower_char_def BEARER_def)
  ultimately have "CHR ''['' \<notin> set (take (length BEARER) t)" by (metis image_eqI list.set_map)
  moreover have "t ! length BEARER \<noteq> CHR ''[''"
    using assms(2) len char_classes(5) by (auto simp: token_follows_def hd_drop_conv_nth)
  ultimately show "CHR ''['' \<notin> set (take (Suc (length BEARER)) t)" using len by (simp add: take_Suc_conv_app_nth)
qed

lemma bearer_reflected:
  assumes "redacts s t" and "bearer_here t" and "token_follows (drop (length BEARER) t)"
  shows "bearer_here s \<and> token_follows (drop (length BEARER) s)"
proof -
  have eq: "take (Suc (length BEARER)) s = take (Suc (length BEARER)) t"
    by (rule redacts_same_start [OF assms(1) bearer_start [OF assms(2,3)]])
  then have "take (length BEARER) s = take (length BEARER) t"
    by (metis min.absorb1 take_take le_SucI order_refl)
  then have "bearer_here s"
    using assms(2) by (simp add: bearer_here_def starts_with_def to_ascii_lowercase_def take_map)
  moreover have "drop (length BEARER) (take (Suc (length BEARER)) s) = drop (length BEARER) (take (Suc (length BEARER)) t)"
    using eq by simp
  then have "take 1 (drop (length BEARER) s) = take 1 (drop (length BEARER) t)" by (simp add: drop_take)
  then have "token_follows (drop (length BEARER) s)" using assms(3)
    by (cases "drop (length BEARER) s"; cases "drop (length BEARER) t") auto
  ultimately show ?thesis ..
qed


lemma mark_chars: "c \<in> set REDACTED_TOKEN \<Longrightarrow> ascii_lower_char c \<noteq> CHR ''b'' \<and> c \<noteq> CHR ''=''"
proof -
  have "list_all (\<lambda>c. ascii_lower_char c \<noteq> CHR ''b'' \<and> c \<noteq> CHR ''='') REDACTED_TOKEN" by code_simp
  then show "c \<in> set REDACTED_TOKEN \<Longrightarrow> ascii_lower_char c \<noteq> CHR ''b'' \<and> c \<noteq> CHR ''=''" by (simp add: list_all_iff)
qed

lemma bearer_clean_append:
  "\<forall>c \<in> set u. ascii_lower_char c \<noteq> CHR ''b'' \<Longrightarrow> bearer_clean (u @ s) = bearer_clean s"
  by (induction u) (auto dest: bearer_here_hd)

lemma env_clean_append: "CHR ''='' \<notin> set u \<Longrightarrow> env_clean k (u @ s) = env_clean (key_of (k @ u)) s"
  if "\<forall>c \<in> set k. is_env_key_char c"
  using that
proof (induction u arbitrary: k)
  case (Cons c u)
  then show ?case using Cons.IH [of "k @ [c]"] Cons.IH [of "[]"] by (auto simp: key_of_reset)
qed (simp add: key_of_id)

lemma env_clean_mark: "env_clean [] (REDACTED_TOKEN @ s) = env_clean [] s"
proof -
  have "key_of REDACTED_TOKEN = []" using char_classes(6) by (simp add: key_of_def REDACTED_TOKEN_def)
  then show ?thesis using env_clean_append [of "[]" REDACTED_TOKEN s] mark_chars by force
qed

lemma env_clean_start: "\<not> token_follows s \<Longrightarrow> env_clean k s = env_clean [] s"
  using char_classes by (cases s) auto

lemma env_clean_mark': "env_clean k (REDACTED_TOKEN @ s) = env_clean [] s"
  using env_clean_start [of "REDACTED_TOKEN @ s" k] env_clean_mark by simp

lemma env_clean_tail: "env_clean k (u @ s) \<Longrightarrow> \<exists>k'. env_clean k' s"
  by (induction u arbitrary: k) (auto split: if_splits)

lemma redacts_env_clean: "redacts s t \<Longrightarrow> env_clean k s \<Longrightarrow> env_clean k t"
proof (induction arbitrary: k rule: redacts.induct)
  case (copied s t c)
  then show ?case using redacts_follows [of s t] by auto
next
  case (replaced s t r)
  then obtain k' where "env_clean k' s" using env_clean_tail by blast
  then have "env_clean [] s" using env_clean_start replaced.hyps by blast
  then show ?case using replaced.IH by (simp add: env_clean_mark')
qed simp

lemma bearer_clean_tail: "bearer_clean (u @ s) \<Longrightarrow> bearer_clean s"
  by (induction u) auto

lemma redacts_bearer_clean: "redacts s t \<Longrightarrow> bearer_clean s \<Longrightarrow> bearer_clean t"
proof (induction rule: redacts.induct)
  case (copied s t c)
  then show ?case using bearer_reflected [OF redacts.copied [OF copied.hyps]] by auto
next
  case (replaced s t r)
  then show ?case using bearer_clean_tail bearer_clean_append [of REDACTED_TOKEN] mark_chars by blast
qed simp

lemma env_pass_clean: "env_clean k (redact_env k s)"
  by (induction k s rule: redact_env.induct) (auto simp: env_clean_mark dest: redacts_follows [OF env_redacts])

lemma bearer_pass_clean: "bearer_clean (redact_bearer s)"
proof (induction s rule: redact_bearer.induct)
  case (1 s)
  show ?case
  proof (cases "bearer_here s")
    case True
    then have low: "map ascii_lower_char (take (length BEARER) s) = BEARER"
      by (simp add: bearer_here_def starts_with_def to_ascii_lowercase_def take_map)
    then obtain b u where u: "take (length BEARER) s = b # u" "map ascii_lower_char u = ''earer ''"
      by (cases "take (length BEARER) s") (auto simp: BEARER_def)
    have "ascii_lower_char ` set u = set ''earer ''" unfolding u(2) [symmetric] by simp
    then have "CHR ''b'' \<notin> ascii_lower_char ` set u" by simp
    then have "\<forall>c \<in> set u. ascii_lower_char c \<noteq> CHR ''b''" by (metis image_eqI)
    then have all: "bearer_clean (u @ w) = bearer_clean w" for w by (rule bearer_clean_append)
    have len: "length (b # u) = length BEARER" using u(1) bearer_here_length [OF True] by (metis length_take min.absorb2)
    have step: "bearer_clean (take (length BEARER) s @ w)" if "\<not> token_follows w" "bearer_clean w" for w
    proof -
      have "drop (length BEARER) (b # u @ w) = w" using len by (metis append_Cons append_eq_conv_conj)
      with that all show ?thesis by (simp add: u(1))
    qed
    show ?thesis
    proof (cases "token_follows (drop (length BEARER) s)")
      case follows: True
      have "bearer_clean (REDACTED_TOKEN @ redact_bearer (dropWhile tok (drop (length BEARER) s)))"
        using 1(1) [OF True follows] bearer_clean_append [of REDACTED_TOKEN] mark_chars by blast
      then show ?thesis using step [OF mark_head] True follows by (simp add: redact_bearer.simps [of s])
    next
      case False
      then have "\<not> token_follows (redact_bearer (drop (length BEARER) s))" using redacts_follows [OF bearer_redacts] by blast
      then show ?thesis using step 1(2) [OF True False] True False by (simp add: redact_bearer.simps [of s])
    qed
  next
    case False
    then show ?thesis
      using 1(3) [OF False] bearer_reflected [OF bearer_redacts [of s]] redact_bearer.simps [of s] by (cases s) auto
  qed
qed


lemma runs_follows: "\<not> token_follows s \<Longrightarrow> \<not> token_follows (redact_runs s)"
  using redacts_follows [OF runs_redacts] by blast

lemma insensitive_Nil [simp]: "\<not> sensitive_run []"
  using PREFIXES_tok by (auto simp: sensitive_run_def)

lemma runs_clean_start: "\<not> token_follows s \<Longrightarrow> runs_clean b s = runs_clean b' s"
  by (cases s) auto

lemma runs_clean_inside: "\<forall>c \<in> set r. tok c \<Longrightarrow> runs_clean False (r @ s) = runs_clean False s"
  by (induction r) auto

lemma takeWhile_run: "\<forall>c \<in> set r. tok c \<Longrightarrow> \<not> token_follows s \<Longrightarrow> takeWhile tok (r @ s) = r"
  by (induction r) (cases s, auto)

lemma runs_clean_mark: "runs_clean b (REDACTED_TOKEN @ s) = runs_clean True s"
proof -
  have m: "REDACTED_TOKEN @ s = CHR ''['' # ''REDACTED_TOKEN'' @ CHR '']'' # s" by (simp add: REDACTED_TOKEN_def)
  have r: "list_all tok ''REDACTED_TOKEN''" "\<not> sensitive_run ''REDACTED_TOKEN''" by code_simp+
  have w: "takeWhile tok (''REDACTED_TOKEN'' @ CHR '']'' # s) = ''REDACTED_TOKEN''"
    using r(1) char_classes(4) by (intro takeWhile_run) (simp_all add: list_all_iff)
  have "runs_clean True (''REDACTED_TOKEN'' @ CHR '']'' # s) = runs_clean True s"
    using r(2) w runs_clean_inside [of "''EDACTED_TOKEN''" "CHR '']'' # s"] r(1) char_classes(4)
    by (simp add: list_all_iff)
  then show ?thesis unfolding m using char_classes(5) by simp
qed

lemma runs_pass_clean: "runs_clean True (redact_runs s)"
proof (induction s rule: redact_runs.induct)
  case (2 c cs)
  show ?case
  proof (cases "tok c \<and> \<not> sensitive_run (takeWhile tok (c # cs))")
    case True
    let ?r = "takeWhile tok cs" and ?t = "redact_runs (dropWhile tok cs)"
    have stop: "\<not> token_follows ?t" by (intro runs_follows dropWhile_tok)
    have tok: "\<forall>c \<in> set ?r. tok c" by (auto dest: set_takeWhileD)
    have "takeWhile tok (c # ?r @ ?t) = c # ?r" using takeWhile_run [OF tok stop] True by simp
    moreover have "runs_clean False ?t" using 2(1) True runs_clean_start [OF stop] by blast
    ultimately show ?thesis using True runs_clean_inside [OF tok] by auto
  next
    case False
    then show ?thesis using 2 runs_clean_mark by auto
  qed
qed simp

section \<open>Properties of redaction\<close>

lemma passes:
  "redact_bearer_tokens s = redact_bearer s" "redact_sensitive_env_assignments s = redact_env [] s"
  "redact_prefixed_tokens s = redact_runs s"
  by (simp_all add: redact_bearer_tokens_def bearer_loop_eq redact_sensitive_env_assignments_def env_loop_eq
      redact_prefixed_tokens_def prefixed_loop_eq runs_from_def has_token_boundary_before_def)

lemma redacted_clean:
  "bearer_clean (redact_sensitive_text s)" "env_clean [] (redact_sensitive_text s)"
  "runs_clean True (redact_sensitive_text s)"
  unfolding redact_sensitive_text_def passes
  by (intro redacts_bearer_clean [OF runs_redacts] redacts_bearer_clean [OF env_redacts] bearer_pass_clean
      redacts_env_clean [OF runs_redacts] env_pass_clean runs_pass_clean)+

lemma bearer_clean_at: "bearer_clean (p @ u) \<Longrightarrow> bearer_here u \<Longrightarrow> \<not> token_follows (drop (length BEARER) u)"
  using bearer_clean_tail [of p u] by (cases u) auto

lemma env_clean_at:
  "env_clean k (p @ CHR ''='' # u) \<Longrightarrow> \<forall>c \<in> set k. is_env_key_char c \<Longrightarrow> is_sensitive_env_key (key_of (k @ p)) \<Longrightarrow>
     \<not> token_follows u"
proof (induction p arbitrary: k)
  case (Cons c p)
  consider "c = CHR ''=''" | "c \<noteq> CHR ''=''" "is_env_key_char c" | "c \<noteq> CHR ''=''" "\<not> is_env_key_char c" by blast
  then show ?case
  proof cases
    case 1
    then show ?thesis using Cons.IH [of "[]"] Cons.prems char_classes(1) by (simp add: key_of_reset)
  next
    case 2
    then show ?thesis using Cons.IH [of "k @ [c]"] Cons.prems by simp
  next
    case 3
    then show ?thesis using Cons.IH [of "[]"] Cons.prems by (simp add: key_of_reset)
  qed
qed (simp add: key_of_id)

lemma runs_clean_at:
  "runs_clean b (p @ u) \<Longrightarrow> (if p = [] then b else \<not> tok (last p)) \<Longrightarrow> \<not> sensitive_run (takeWhile tok u)"
proof (induction p arbitrary: b)
  case Nil
  then show ?case by (cases u) auto
qed (auto split: if_splits)


lemma clean_bearer_id: "bearer_clean s \<Longrightarrow> redact_bearer s = s"
proof (induction s rule: redact_bearer.induct)
  case (1 s)
  show ?case
  proof (cases "bearer_here s")
    case True
    then have nf: "\<not> token_follows (drop (length BEARER) s)"
      using 1(4) bearer_here_length [OF True] by (cases s) (auto simp: BEARER_length)
    moreover have "bearer_clean (drop (length BEARER) s)"
      using 1(4) bearer_clean_tail [of "take (length BEARER) s" "drop (length BEARER) s"] by simp
    ultimately show ?thesis using 1(2) [OF True nf] True by (simp add: redact_bearer.simps [of s])
  next
    case False
    then show ?thesis using 1(3) [OF False] 1(4) redact_bearer.simps [of s] by (cases s) auto
  qed
qed

lemma clean_env_id: "env_clean k s \<Longrightarrow> redact_env k s = s"
  by (induction k s rule: redact_env.induct) (auto split: if_splits)

lemma clean_runs_id: "runs_clean True s \<Longrightarrow> redact_runs s = s"
proof (induction s rule: redact_runs.induct)
  case (2 c cs)
  have "runs_clean False (takeWhile tok cs @ dropWhile tok cs) \<Longrightarrow> runs_clean True (dropWhile tok cs)"
    using runs_clean_inside [of "takeWhile tok cs" "dropWhile tok cs"] runs_clean_start [OF dropWhile_tok, of False cs True]
    by (auto dest: set_takeWhileD)
  then show ?case using 2 by (cases "tok c") auto
qed simp

text \<open>
  Redaction is stable: redacting a redacted line again changes nothing, and each pass is the
  recursion over the text that replaces the token after a bearer marker, the value of a sensitive
  assignment, and the whole of a prefixed run of token characters.
\<close>

theorem redaction_equivalence:
  "redact_sensitive_text s = redact_runs (redact_env [] (redact_bearer s)) \<and>
   redact_sensitive_text (redact_sensitive_text s) = redact_sensitive_text s"
  using redacted_clean [of s] unfolding redact_sensitive_text_def passes
  by (simp add: clean_bearer_id clean_env_id clean_runs_id)



end
