(* ===== verification/Runtime_Turns.thy ===== *)
theory Runtime_Turns
  imports Store_Steps Sandbox_Core Runtime_Output Redaction
begin

text \<open>
  The end of a turn in \<^verbatim>\<open>crates/centaur-session-runtime/src/lib.rs\<close>: the stdout pump, the recording
  of terminal output and of exceeded durations, and the pausing of idle sandboxes, composed of the
  store's operations. The statements of one call share the transaction time \<open>now\<close>; \<open>owner_id\<close>
  is \<^verbatim>\<open>ctx.stdout_owner_id\<close>. A spawned task is the value it is spawned with; telemetry is left out.
\<close>

section \<open>Errors and options\<close>

datatype SessionRuntimeError =
    BadRequest string
  | ShuttingDown
  | Store SessionStoreError
  | Sandbox SandboxError
  | IronControl string
  | CapacityExceeded nat nat string

type_synonym 'a runtime_result = "SessionRuntimeError + 'a"

definition runtime_error_failure_class :: "SessionRuntimeError \<Rightarrow> string" where
  "runtime_error_failure_class e =
     (case e of
        BadRequest _ \<Rightarrow> ''bad_request''
      | ShuttingDown \<Rightarrow> ''shutting_down''
      | Store _ \<Rightarrow> ''store''
      | Sandbox (SbNotFound _) \<Rightarrow> ''sandbox_not_found''
      | Sandbox (Unsupported _ _) \<Rightarrow> ''sandbox_unsupported''
      | Sandbox (NotReady _) \<Rightarrow> ''sandbox_not_ready''
      | Sandbox (ArtifactRejected _) \<Rightarrow> ''artifact_rejected''
      | Sandbox (SbIo _) \<Rightarrow> ''sandbox_io''
      | Sandbox (SbBackend _) \<Rightarrow> ''sandbox_backend''
      | Sandbox (InvalidSpec _) \<Rightarrow> ''sandbox_invalid_spec''
      | IronControl _ \<Rightarrow> ''iron_control''
      | CapacityExceeded _ _ _ \<Rightarrow> ''capacity'')"

definition terminal_failure_class :: "string \<Rightarrow> string" where
  "terminal_failure_class error =
     (let e = to_ascii_lowercase error in
      if str_contains e ''oomkilled'' then ''oom''
      else if str_contains e ''evicted'' then ''evicted''
      else if str_contains e ''max_duration'' \<or> str_contains e ''timeout'' \<or> str_contains e ''timed out'' then ''timeout''
      else if str_contains e ''execution orphaned'' then ''orphaned''
      else if str_contains e ''sandbox stdout'' \<or> str_contains e ''stdout closed'' then ''sandbox_io''
      else ''harness'')"

text \<open>Milliseconds of a duration, in nanoseconds here; \<^verbatim>\<open>duration_millis_u64\<close> saturates.\<close>

definition duration_millis_u64 :: "duration \<Rightarrow> nat" where
  "duration_millis_u64 d = min (d div 10 ^ 6) (2 ^ 64 - 1)"

definition nonzero_duration_millis :: "nat \<Rightarrow> duration runtime_result" where
  "nonzero_duration_millis value =
     (if value = 0 then Inl (BadRequest ''duration values must be greater than zero'') else Inr (value * 10 ^ 6))"

definition transpose_result :: "nat option \<Rightarrow> duration option runtime_result" where
  "transpose_result v = (case v of None \<Rightarrow> Inr None | Some ms \<Rightarrow> res_map Some (nonzero_duration_millis ms))"

definition duration_options :: "nat option \<Rightarrow> nat option \<Rightarrow> (duration option \<times> duration option) runtime_result" where
  "duration_options idle_timeout_ms max_duration_ms =
     res_bind (transpose_result idle_timeout_ms) (\<lambda>idle.
     res_bind (transpose_result max_duration_ms) (\<lambda>mx.
       case (idle, mx) of
         (Some i, Some m) \<Rightarrow>
           if m < i then Inl (BadRequest ''idle_timeout_ms must be less than or equal to max_duration_ms'')
           else Inr (idle, mx)
       | _ \<Rightarrow> Inr (idle, mx)))"

definition execution_metadata :: "json option \<Rightarrow> nat option \<Rightarrow> nat option \<Rightarrow> string option \<Rightarrow> json" where
  "execution_metadata metadata idle_timeout_ms max_duration_ms persona_model =
     (case (case metadata of None \<Rightarrow> empty_object | Some m \<Rightarrow> m) of
        JObj kvs \<Rightarrow>
          JObj (insert_opt ''max_duration_ms'' (map_option JNat max_duration_ms)
            (insert_opt ''idle_timeout_ms'' (map_option JNat idle_timeout_ms)
              (insert_opt ''model'' (map_option JStr persona_model) kvs)))
      | m \<Rightarrow> m)"

definition metadata_millis :: "string \<Rightarrow> SessionExecution \<Rightarrow> duration option" where
  "metadata_millis k execution =
     Option.bind (Option.bind (get_key k (exe_metadata execution)) as_u64) (\<lambda>ms. ok (nonzero_duration_millis ms))"

definition idle_timeout_from_execution :: "SessionExecution \<Rightarrow> duration option" where
  "idle_timeout_from_execution execution = metadata_millis ''idle_timeout_ms'' execution"

definition max_duration_from_execution :: "SessionExecution \<Rightarrow> duration option" where
  "max_duration_from_execution execution = metadata_millis ''max_duration_ms'' execution"

fun validate_input_lines_from :: "nat \<Rightarrow> string list \<Rightarrow> unit runtime_result" where
  "validate_input_lines_from index [] = Inr ()"
| "validate_input_lines_from index (line # lines) =
     (if CHR 0x0A \<in> set line \<or> CHR 0x0D \<in> set line
      then Inl (BadRequest (''input_lines['' @ show_nat index @ ''] must be one line''))
      else validate_input_lines_from (Suc index) lines)"

definition validate_input_lines :: "string list \<Rightarrow> unit runtime_result" where
  "validate_input_lines lines = validate_input_lines_from 0 lines"

definition harness_thread_id_from_output_line :: "(string \<Rightarrow> json option) \<Rightarrow> string \<Rightarrow> string option" where
  "harness_thread_id_from_output_line parse line =
     (case parse line of
        None \<Rightarrow> None
      | Some v \<Rightarrow>
          if get_str ''type'' v = Some ''run.started''
          then Option.bind (get_str ''request_id'' v) (\<lambda>s. nonempty_text (trim s))
          else if get_str ''type'' v \<noteq> Some ''thread.started'' then None
          else Option.bind (Option.bind (or_else (get_key ''thread_id'' v) (get_key ''threadId'' v)) as_str)
                 (\<lambda>s. nonempty_text (trim s)))"

datatype ExistingSandboxAction = Reuse | ResumeOrReplace | ReplaceSandbox

fun existing_sandbox_action :: "SandboxStatus \<Rightarrow> ExistingSandboxAction" where
  "existing_sandbox_action SbRunning = Reuse"
| "existing_sandbox_action SbCreated = ResumeOrReplace"
| "existing_sandbox_action SbSuspended = ResumeOrReplace"
| "existing_sandbox_action _ = ReplaceSandbox"

section \<open>Recording the end of an execution\<close>

text \<open>A spawned \<^verbatim>\<open>spawn_idle_pause\<close>: the execution, its sandbox and the timeout it sleeps.\<close>

type_synonym idle_pause = "string \<times> string \<times> duration"

text \<open>
  The common tail of the three branches of \<^verbatim>\<open>record_terminal_output\<close>: nothing when no active execution
  of this owner_id matched; otherwise the terminal event, the activity of the sandbox (whose failure is
  only logged) and the idle pause.
\<close>

definition after_settlement ::
  "time \<Rightarrow> string \<Rightarrow> string \<Rightarrow> string \<Rightarrow> string \<Rightarrow> json \<Rightarrow> db \<times> SessionExecution option store_result \<Rightarrow>
     db \<times> idle_pause option runtime_result" where
  "after_settlement now thread_key sandbox_id execution_id event_type payload u =
     (case snd u of
        Inl e \<Rightarrow> (fst u, Inl (Store e))
      | Inr None \<Rightarrow> (fst u, Inr None)
      | Inr (Some execution) \<Rightarrow>
          (case append_event now thread_key (Some execution_id) event_type payload (fst u) of
             (db2, Inl e) \<Rightarrow> (db2, Inl (Store e))
           | (db2, Inr _) \<Rightarrow>
               (fst (touch_sandbox_activity now thread_key sandbox_id db2),
                Inr (map_option (\<lambda>d. (exe_execution_id execution, sandbox_id, d)) (idle_timeout_from_execution execution)))))"

definition record_terminal_output ::
  "time \<Rightarrow> string \<Rightarrow> string \<Rightarrow> string \<Rightarrow> string \<Rightarrow> TerminalOutput \<Rightarrow> db \<Rightarrow> db \<times> idle_pause option runtime_result" where
  "record_terminal_output now owner_id thread_key sandbox_id execution_id terminal db =
     (case terminal of
        TCompleted reason result_text \<Rightarrow>
          after_settlement now thread_key sandbox_id execution_id ''session.execution_completed''
            (JObj (insert_opt ''result_text'' (map_option JStr result_text)
              [(''execution_id'', JStr execution_id), (''thread_key'', JStr thread_key), (''completion_reason'', JStr reason)]))
            (complete_execution_if_active_and_stdout_owner now execution_id owner_id db)
      | TCancelled reason \<Rightarrow>
          after_settlement now thread_key sandbox_id execution_id ''session.execution_cancelled''
            (JObj [(''execution_id'', JStr execution_id), (''thread_key'', JStr thread_key), (''reason'', JStr reason)])
            (cancel_execution_if_active_and_stdout_owner now execution_id owner_id reason db)
      | TFailed error \<Rightarrow>
          after_settlement now thread_key sandbox_id execution_id ''session.execution_failed''
            (JObj [(''execution_id'', JStr execution_id), (''thread_key'', JStr thread_key), (''error'', JStr error)])
            (fail_execution_if_active_and_stdout_owner now execution_id owner_id error db))"

definition record_max_duration_failure ::
  "time \<Rightarrow> string \<Rightarrow> string \<Rightarrow> string \<Rightarrow> duration \<Rightarrow> duration option \<Rightarrow> db \<Rightarrow> db \<times> idle_pause option runtime_result" where
  "record_max_duration_failure now owner_id thread_key execution_id max_duration idle_timeout db =
     (let ms = duration_millis_u64 max_duration;
          error = ''execution exceeded max_duration_ms='' @ show_nat ms;
          u = fail_execution_if_active_and_stdout_owner now execution_id owner_id error db
      in case snd u of
           Inl e \<Rightarrow> (fst u, Inl (Store e))
         | Inr None \<Rightarrow> (fst u, Inr None)
         | Inr (Some execution) \<Rightarrow>
             (case append_event now thread_key (Some execution_id) ''session.execution_failed''
                     (JObj [(''execution_id'', JStr execution_id), (''thread_key'', JStr thread_key), (''error'', JStr error),
                        (''reason'', JStr ''max_duration_exceeded''), (''max_duration_ms'', JNat ms)])
                     (fst (touch_session_sandbox_activity now thread_key (fst u))) of
                (db2, Inl e) \<Rightarrow> (db2, Inl (Store e))
              | (db2, Inr _) \<Rightarrow>
                  (case or_else idle_timeout (idle_timeout_from_execution execution) of
                     None \<Rightarrow> (db2, Inr None)
                   | Some d \<Rightarrow>
                       (case get_session db2 thread_key of
                          Inl e \<Rightarrow> (db2, Inl (Store e))
                        | Inr s \<Rightarrow> (db2, Inr (map_option (\<lambda>sb. (execution_id, sb, d)) (ses_sandbox_id s)))))))"

section \<open>Idle pauses\<close>

definition pause_event_payload :: "string \<Rightarrow> string \<Rightarrow> string \<Rightarrow> duration option \<Rightarrow> (string \<times> json) list" where
  "pause_event_payload thread_key execution_id sandbox_id idle_timeout =
     insert_opt ''idle_timeout_ms'' (map_option (\<lambda>d. JNat (duration_millis_u64 d)) idle_timeout)
       [(''execution_id'', JStr execution_id), (''thread_key'', JStr thread_key), (''sandbox_id'', JStr sandbox_id),
        (''reason'', JStr (if idle_timeout \<noteq> None then ''idle_timeout'' else ''requested''))]"

definition should_pause_idle_sandbox :: "Session \<Rightarrow> SessionExecution option \<Rightarrow> string \<Rightarrow> string \<Rightarrow> bool" where
  "should_pause_idle_sandbox session latest_execution execution_id sandbox_id =
     (if ses_sandbox_id session \<noteq> Some sandbox_id then False
      else case latest_execution of
             None \<Rightarrow> False
           | Some execution \<Rightarrow>
               if exe_execution_id execution \<noteq> execution_id then False
               else exe_status execution \<in> {Completed, Failed, Cancelled})"

definition record_idle_pause_failure ::
  "time \<Rightarrow> string \<Rightarrow> string \<Rightarrow> string \<Rightarrow> duration option \<Rightarrow> SandboxError \<Rightarrow> db \<Rightarrow> db \<times> bool runtime_result" where
  "record_idle_pause_failure now thread_key execution_id sandbox_id idle_timeout error db =
     (case append_event now thread_key (Some execution_id) ''session.sandbox_pause_failed''
             (JObj (json_insert ''error'' (JStr (sandbox_error_message error))
               (pause_event_payload thread_key execution_id sandbox_id idle_timeout))) db of
        (db1, Inl e) \<Rightarrow> (db1, Inl (Store e))
      | (db1, Inr _) \<Rightarrow> (db1, Inl (Sandbox error)))"

text \<open>The database, the backend and the open pipes after the call, and whether it paused.\<close>

definition pause_now ::
  "'b SandboxBackend \<Rightarrow> time \<Rightarrow> string \<Rightarrow> string \<Rightarrow> string \<Rightarrow> duration option \<Rightarrow> db \<Rightarrow> 'b \<Rightarrow> string list \<Rightarrow>
     db \<times> 'b \<times> string list \<times> bool runtime_result" where
  "pause_now be now thread_key execution_id sandbox_id idle_timeout db b pipes =
     (let pipes1 = removeAll sandbox_id pipes in
      case manager_pause be sandbox_id b of
        (b1, Inr _) \<Rightarrow>
          (case append_event now thread_key (Some execution_id) ''session.sandbox_paused''
                  (JObj (pause_event_payload thread_key execution_id sandbox_id idle_timeout)) db of
             (db1, Inl e) \<Rightarrow> (db1, b1, pipes1, Inl (Store e))
           | (db1, Inr _) \<Rightarrow> (db1, b1, pipes1, Inr True))
      | (b1, Inl e) \<Rightarrow>
          let (db1, r) = record_idle_pause_failure now thread_key execution_id sandbox_id idle_timeout e db
          in (db1, b1, pipes1, r))"

definition record_idle_pause ::
  "'b SandboxBackend \<Rightarrow> time \<Rightarrow> string \<Rightarrow> string \<Rightarrow> string \<Rightarrow> duration option \<Rightarrow> db \<Rightarrow> 'b \<Rightarrow> string list \<Rightarrow>
     db \<times> 'b \<times> string list \<times> bool runtime_result" where
  "record_idle_pause be now thread_key execution_id sandbox_id idle_timeout db b pipes =
     (case latest_execution_for_thread db thread_key of
        Inl e \<Rightarrow> (db, b, pipes, Inl (Store e))
      | Inr latest \<Rightarrow>
        (case get_session db thread_key of
           Inl e \<Rightarrow> (db, b, pipes, Inl (Store e))
         | Inr session \<Rightarrow>
           if \<not> should_pause_idle_sandbox session latest execution_id sandbox_id then (db, b, pipes, Inr False)
           else (case manager_status be sandbox_id b of
               (b1, Inr SbRunning) \<Rightarrow> pause_now be now thread_key execution_id sandbox_id idle_timeout db b1 pipes
             | (b1, Inr SbCreated) \<Rightarrow> pause_now be now thread_key execution_id sandbox_id idle_timeout db b1 pipes
             | (b1, Inr _) \<Rightarrow> (db, b1, pipes, Inr False)
             | (b1, Inl (SbNotFound _)) \<Rightarrow> (db, b1, pipes, Inr False)
             | (b1, Inl e) \<Rightarrow>
                 let (db1, r) = record_idle_pause_failure now thread_key execution_id sandbox_id idle_timeout e db
                 in (db1, b1, pipes, r))))"


section \<open>The stdout pump\<close>

definition STDOUT_OWNER_LEASE :: duration where
  "STDOUT_OWNER_LEASE = 45 * 10 ^ 9"

definition SESSION_FIRST_TOKEN_EVENT :: string where
  "SESSION_FIRST_TOKEN_EVENT = ''session.first_token''"

definition append_output_line ::
  "time \<Rightarrow> time \<Rightarrow> string \<Rightarrow> string \<Rightarrow> string \<Rightarrow> string \<Rightarrow> db \<Rightarrow> db \<times> SessionEvent option store_result" where
  "append_output_line clock now owner_id thread_key execution_id line db =
     append_event_if_stdout_owner clock now thread_key execution_id owner_id STDOUT_OWNER_LEASE output_line
       (JStr (redact_sensitive_text line)) db"

definition first_token_latency :: "SessionExecution \<Rightarrow> SessionEvent \<Rightarrow> duration option" where
  "first_token_latency execution output_event =
     (let started_at = (case exe_started_at execution of Some t \<Rightarrow> t | None \<Rightarrow> exe_created_at execution);
          age = ev_created_at output_event - started_at
      in if 0 \<le> age then Some (nat age) else None)"

definition record_first_token_observation ::
  "time \<Rightarrow> string \<Rightarrow> SessionExecution \<Rightarrow> SessionEvent \<Rightarrow> StdoutPumpState \<Rightarrow> db \<Rightarrow> StdoutPumpState \<times> db" where
  "record_first_token_observation now thread_key execution output_event st db =
     (let x = exe_execution_id execution; marked = mark_first_token_recorded x st in
      if execution_event_exists db x SESSION_FIRST_TOKEN_EVENT then (marked, db)
      else case first_token_latency execution output_event of
             None \<Rightarrow> (marked, db)
           | Some latency \<Rightarrow>
               let harness_label = (case get_session db thread_key of Inr s \<Rightarrow> harness_type_as_ref (ses_harness_type s)
                                    | Inl _ \<Rightarrow> ''unknown'')
               in (marked, fst (append_event now thread_key (Some x) SESSION_FIRST_TOKEN_EVENT
                    (JObj [(''execution_id'', JStr x), (''thread_key'', JStr thread_key), (''harness_type'', JStr harness_label),
                       (''latency_ms'', JNat (duration_millis_u64 latency)), (''output_event_id'', JNum (ev_event_id output_event) 0)])
                    db)))"

text \<open>
  One line of the loop of \<^verbatim>\<open>run_stdout_pump\<close>: the pump's state, the database and a spawned idle
  pause, or \<open>None\<close> when the loop panics (an index out of the answer's text). \<open>pump_stored\<close> is what
  follows a stored line of the active execution.
\<close>

definition pump_stored ::
  "(string \<Rightarrow> json option) \<Rightarrow> string \<Rightarrow> string \<Rightarrow> string \<Rightarrow> time \<Rightarrow> string \<Rightarrow> SessionExecution \<Rightarrow> SessionEvent \<Rightarrow>
     StdoutPumpState \<Rightarrow> db \<Rightarrow> StdoutPumpState \<times> db \<times> idle_pause option runtime_result option" where
  "pump_stored parse owner_id thread_key sandbox_id now line execution output_event st db =
     (let x = exe_execution_id execution;
          u = (if should_record_first_token st x (parse line)
               then record_first_token_observation now thread_key execution output_event st db else (st, db))
      in case pump_observe parse x line (fst u) of
           None \<Rightarrow> (fst u, snd u, None)
         | Some (st1, None) \<Rightarrow> (st1, snd u, Some (Inr None))
         | Some (st1, Some terminal) \<Rightarrow>
             (case record_terminal_output now owner_id thread_key sandbox_id x terminal (snd u) of
                (db1, Inl e) \<Rightarrow> (st1, db1, Some (Inl e))
              | (db1, Inr pause) \<Rightarrow> (forget x st1, db1, Some (Inr pause))))"

definition pump_line ::
  "(string \<Rightarrow> json option) \<Rightarrow> string \<Rightarrow> string \<Rightarrow> string \<Rightarrow> time \<Rightarrow> time \<Rightarrow> string \<Rightarrow> StdoutPumpState \<Rightarrow> db \<Rightarrow>
     StdoutPumpState \<times> db \<times> idle_pause option runtime_result option" where
  "pump_line parse owner_id thread_key sandbox_id clock now line st db =
     (let db1 = (case harness_thread_id_from_output_line parse line of
                   None \<Rightarrow> db | Some h \<Rightarrow> fst (update_harness_thread_id now thread_key (Some h) db))
      in case active_execution_for_thread db1 thread_key of
           Inl e \<Rightarrow> (st, db1, Some (Inl (Store e)))
         | Inr active_execution \<Rightarrow>
             (case execution_for_line parse st (map_option exe_execution_id active_execution) line of
                (st1, None) \<Rightarrow> (st1, db1, Some (Inr None))
              | (st1, Some x) \<Rightarrow>
                  (case append_output_line clock now owner_id thread_key x line db1 of
                     (db2, Inl e) \<Rightarrow> (st1, db2, Some (Inl (Store e)))
                   | (db2, Inr None) \<Rightarrow> (forget x st1, db2, Some (Inr None))
                   | (db2, Inr (Some output_event)) \<Rightarrow>
                       (case active_execution of
                          None \<Rightarrow> (st1, db2, Some (Inr None))
                        | Some execution \<Rightarrow>
                            if exe_execution_id execution = x
                            then pump_stored parse owner_id thread_key sandbox_id now line execution output_event st1 db2
                            else (st1, db2, Some (Inr None))))))"

text \<open>What the sandbox's stdout yields, with the clocks at which it does.\<close>

datatype pump_input = Line time time string | CodecError time string

definition record_stdout_pump_failure ::
  "time \<Rightarrow> string \<Rightarrow> string \<Rightarrow> string \<Rightarrow> string \<Rightarrow> db \<Rightarrow> db \<times> idle_pause option runtime_result" where
  "record_stdout_pump_failure now owner_id thread_key sandbox_id error db =
     (case active_execution_for_thread db thread_key of
        Inl e \<Rightarrow> (db, Inl (Store e))
      | Inr active_execution \<Rightarrow>
          (case append_event now thread_key (map_option exe_execution_id active_execution) ''session.stdout_pump_failed''
                  (JObj [(''sandbox_id'', JStr sandbox_id), (''error'', JStr error),
                     (''terminalized_execution'', JBool (active_execution \<noteq> None))]) db of
             (db1, Inl e) \<Rightarrow> (db1, Inl (Store e))
           | (db1, Inr _) \<Rightarrow>
               (case active_execution of
                  None \<Rightarrow> (db1, Inr None)
                | Some execution \<Rightarrow>
                    record_terminal_output now owner_id thread_key sandbox_id (exe_execution_id execution) (TFailed error) db1)))"

datatype StdoutPumpEnd = PumpIdle | EofActiveExecution SessionExecution nat

fun run_stdout_pump ::
  "(string \<Rightarrow> json option) \<Rightarrow> string \<Rightarrow> string \<Rightarrow> string \<Rightarrow> time \<Rightarrow> pump_input list \<Rightarrow> nat \<Rightarrow> idle_pause list \<Rightarrow>
     StdoutPumpState \<Rightarrow> db \<Rightarrow> db \<times> idle_pause list \<times> StdoutPumpEnd runtime_result option" where
  "run_stdout_pump parse owner_id thread_key sandbox_id eof_at [] line_count pauses st db =
     (case active_execution_for_thread db thread_key of
        Inl e \<Rightarrow> (db, pauses, Some (Inl (Store e)))
      | Inr active_execution \<Rightarrow>
          (case append_event eof_at thread_key None ''session.stdout_eof'' (JObj [(''sandbox_id'', JStr sandbox_id)]) db of
             (db1, Inl e) \<Rightarrow> (db1, pauses, Some (Inl (Store e)))
           | (db1, Inr _) \<Rightarrow>
               (db1, pauses, Some (Inr (case active_execution of None \<Rightarrow> PumpIdle
                  | Some execution \<Rightarrow> EofActiveExecution execution line_count)))))"
| "run_stdout_pump parse owner_id thread_key sandbox_id eof_at (CodecError now error # _) line_count pauses st db =
     (case record_stdout_pump_failure now owner_id thread_key sandbox_id error db of
        (db1, Inl e) \<Rightarrow> (db1, pauses, Some (Inl e))
      | (db1, Inr pause) \<Rightarrow> (db1, pauses @ (case pause of None \<Rightarrow> [] | Some p \<Rightarrow> [p]), Some (Inr PumpIdle)))"
| "run_stdout_pump parse owner_id thread_key sandbox_id eof_at (Line clock now line # inputs) line_count pauses st db =
     (case pump_line parse owner_id thread_key sandbox_id clock now line st db of
        (st1, db1, None) \<Rightarrow> (db1, pauses, None)
      | (st1, db1, Some (Inl e)) \<Rightarrow> (db1, pauses, Some (Inl e))
      | (st1, db1, Some (Inr pause)) \<Rightarrow>
          run_stdout_pump parse owner_id thread_key sandbox_id eof_at inputs (line_count + 1)
            (pauses @ (case pause of None \<Rightarrow> [] | Some p \<Rightarrow> [p])) st1 db1)"


section \<open>What a pump does to the store\<close>

text \<open>
  A reflexive and transitive relation that holds across each call a pump of thread \<open>k\<close> makes, with
  output lines from \<open>L\<close>, holds across the whole pump.
\<close>

locale turn_relation =
  fixes R :: "db \<Rightarrow> db \<Rightarrow> bool" and k :: string and L :: "string set"
  assumes refl: "R db db"
    and trans: "R db db' \<Longrightarrow> R db' db'' \<Longrightarrow> R db db''"
    and harness: "R db (fst (update_harness_thread_id now k h db))"
    and stored: "line \<in> L \<Longrightarrow> R db (fst (append_output_line clock now ow k x line db))"
    and event: "ty \<noteq> output_line \<Longrightarrow> R db (fst (append_event now k xo ty pl db))"
    and complete: "R db (fst (complete_execution_if_active_and_stdout_owner now x ow db))"
    and cancel: "R db (fst (cancel_execution_if_active_and_stdout_owner now x ow e db))"
    and fail: "R db (fst (fail_execution_if_active_and_stdout_owner now x ow e db))"
    and touch: "R db (fst (touch_sandbox_activity now k sb db))"
    and touch_session: "R db (fst (touch_session_sandbox_activity now k db))"
begin

lemma after_settlement_related:
  assumes "R db (fst u)" and "ty \<noteq> output_line"
  shows "R db (fst (after_settlement now k sb x ty pl u))"
proof -
  note e = trans [OF assms(1) event [OF assms(2)]]
  note t = trans [OF e touch]
  show ?thesis using assms(1) e t by (auto simp: after_settlement_def case_prod_beta split: sum.split option.split)
qed

lemma record_terminal_related: "R db (fst (record_terminal_output now ow k sb x t db))"
  by (auto simp: record_terminal_output_def output_line_def intro!: after_settlement_related complete cancel fail
      split: TerminalOutput.split)

lemma record_max_duration_related: "R db (fst (record_max_duration_failure now ow k x d i db))"
proof -
  have ty: "''session.execution_failed'' \<noteq> output_line" by (simp add: output_line_def)
  note t = trans [OF fail touch_session]
  note e = trans [OF t event [OF ty]]
  show ?thesis using fail t e
    by (auto simp: record_max_duration_failure_def case_prod_beta Let_def split: sum.split option.split)
qed

lemma first_token_related: "R db (snd (record_first_token_observation now k ex ev st db))"
  by (auto simp: record_first_token_observation_def Let_def SESSION_FIRST_TOKEN_EVENT_def output_line_def refl
      intro!: event split: option.split)

lemma pump_stored_related: "R db (fst (snd (pump_stored parse ow k sb now line ex ev st db)))"
proof -
  define u where "u = (if should_record_first_token st (exe_execution_id ex) (parse line)
    then record_first_token_observation now k ex ev st db else (st, db))"
  have u: "R db (snd u)" by (simp add: u_def first_token_related refl)
  then show ?thesis using trans [OF u record_terminal_related] unfolding pump_stored_def Let_def u_def [symmetric]
    by (auto simp: case_prod_beta split: sum.split option.split)
qed

lemma pump_line_related:
  assumes "line \<in> L"
  shows "R db (fst (snd (pump_line parse ow k sb clock now line st db)))"
proof -
  define db1 where "db1 = (case harness_thread_id_from_output_line parse line of
    None \<Rightarrow> db | Some h \<Rightarrow> fst (update_harness_thread_id now k (Some h) db))"
  have 1: "R db db1" by (auto simp: db1_def refl harness split: option.split)
  note 2 = trans [OF 1 stored [OF assms]]
  note 3 = trans [OF 2 pump_stored_related]
  show ?thesis using 1 2 3 unfolding pump_line_def Let_def db1_def [symmetric]
    by (auto simp: case_prod_beta split: sum.split option.split)
qed

lemma pump_failure_related: "R db (fst (record_stdout_pump_failure now ow k sb e db))"
proof -
  have ty: "''session.stdout_pump_failed'' \<noteq> output_line" by (simp add: output_line_def)
  note 1 = event [OF ty]
  note 2 = trans [OF 1 record_terminal_related]
  show ?thesis using 1 2
    by (auto simp: record_stdout_pump_failure_def refl case_prod_beta split: sum.split option.split)
qed

lemma pump_related:
  assumes "\<forall>clock now line. Line clock now line \<in> set inputs \<longrightarrow> line \<in> L"
  shows "R db (fst (run_stdout_pump parse ow k sb eof inputs n ps st db))"
  using assms
proof (induction inputs arbitrary: n ps st db)
  case Nil
  have ty: "''session.stdout_eof'' \<noteq> output_line" by (simp add: output_line_def)
  then show ?case using event [OF ty] by (auto simp: refl case_prod_beta split: sum.split option.split)
next
  case (Cons i inputs)
  show ?case
  proof (cases i)
    case (Line clock now line)
    then have "R db (fst (snd (pump_line parse ow k sb clock now line st db)))" using Cons.prems pump_line_related by simp
    with Line show ?thesis using trans Cons.IH Cons.prems
      by (auto simp: case_prod_beta split: sum.split option.split)
  next
    case (CodecError now e)
    then show ?thesis using pump_failure_related by (auto simp: case_prod_beta split: sum.split)
  qed
qed

end


interpretation store_run: turn_relation "guarded_step\<^sup>*\<^sup>*" k UNIV for k
proof (unfold_locales, goal_cases)
  case (2 db db' db'')
  then show ?case by (rule rtranclp_trans)
qed (auto simp: append_output_line_def intro!: r_into_rtranclp guarded_step.intros)

definition logs :: "(event_row \<Rightarrow> bool) \<Rightarrow> db \<Rightarrow> db \<Rightarrow> bool" where
  "logs P db db' \<longleftrightarrow> (\<exists>new. session_events db' = session_events db @ new \<and> (\<forall>r \<in> set new. P r))"

definition redacted_line :: "string \<Rightarrow> string set \<Rightarrow> event_row \<Rightarrow> bool" where
  "redacted_line k L r \<longleftrightarrow> (e_event_type r = output_line \<longrightarrow>
     e_thread_key r = k \<and> (\<exists>line \<in> L. e_payload r = JStr (redact_sensitive_text line)))"

lemma logs_same: "session_events db' = session_events db \<Longrightarrow> logs P db db'"
  by (simp add: logs_def)

lemma logs_insert:
  "(\<And>i. P (new_event_row now i k x ty pl)) \<Longrightarrow> session_events db0 = session_events db \<Longrightarrow>
     logs P db (fst (insert_session_event now k x ty pl db0))"
  by (auto simp: logs_def insert_session_event_def Let_def)

lemma settle_events [simp]: "session_events (fst (settle now st u)) = session_events (fst u)"
  by (simp add: settle_def split: option.split)

lemma logs_append_owned:
  assumes "\<And>i. P (new_event_row now i k (Some x) ty pl)"
  shows "logs P db (fst (append_event_if_stdout_owner clock now k x ow lease ty pl db))"
proof -
  have "logs P db (fst (insert_session_event now k (Some x) ty pl (fst (upd_executions (append_owner_p x ow k) (renew_f now t) db))))" for t
    using assms by (intro logs_insert) simp_all
  then show ?thesis
    by (auto simp: append_event_if_stdout_owner_def case_prod_beta logs_same split: sum.split)
qed

interpretation logged: turn_relation "logs (redacted_line k L)" k L for k L
proof (unfold_locales, goal_cases)
  case (2 db db' db'')
  then show ?case unfolding logs_def by (metis append_assoc set_append Un_iff)
next
  case (4 line db clock now ow x)
  then show ?case unfolding append_output_line_def by (intro logs_append_owned) (auto simp: redacted_line_def)
next
  case (5 ty db now xo pl)
  then show ?case
    using logs_insert [of "redacted_line k L" now k xo ty pl db db] by (simp add: append_event_def case_prod_beta redacted_line_def)
qed (simp_all add: logs_same update_harness_thread_id_def complete_execution_if_active_and_stdout_owner_def
    cancel_execution_if_active_and_stdout_owner_def fail_execution_if_active_and_stdout_owner_def
    touch_sandbox_activity_def touch_session_sandbox_activity_def case_prod_beta)

section \<open>The pump does not panic\<close>

definition answers_ok :: "StdoutPumpState \<Rightarrow> bool" where
  "answers_ok st \<longleftrightarrow> (\<forall>e fa. final_answer_text_by_execution st e = Some fa \<longrightarrow> fa \<in> range fa_of)"

lemma answers_kept:
  "answers_ok st \<Longrightarrow> answers_ok (forget x st)" "answers_ok st \<Longrightarrow> answers_ok (remember_value_execution v x st)"
  "answers_ok st \<Longrightarrow> answers_ok (mark_first_token_recorded x st)"
  "answers_ok st \<Longrightarrow> answers_ok (fst (execution_for_line parse st act line))"
  by (auto simp: answers_ok_def forget_def remember_value_execution_def mark_first_token_recorded_def
      execution_for_line_def split: option.splits)

lemma pump_observe_ok:
  assumes "answers_ok st"
  obtains st1 t where "pump_observe parse x line st = Some (st1, t)" and "answers_ok st1"
proof -
  have "\<exists>a. answer_of st x = fa_of a"
    using assms by (fastforce simp: answers_ok_def answer_of_def fa_default_of split: option.split)
  then obtain a where "answer_of st x = fa_of a" ..
  then have "case pump_observe parse x line st of None \<Rightarrow> False | Some (st1, _) \<Rightarrow> answers_ok st1"
    using assms by (cases "parse line") (auto simp: pump_observe_answer fa_observe_refines answers_ok_def)
  then show thesis using that by (auto split: option.splits)
qed

lemma first_token_answers: "answers_ok st \<Longrightarrow> answers_ok (fst (record_first_token_observation now k ex ev st db))"
  using answers_kept(3) by (auto simp: record_first_token_observation_def Let_def split: option.split)

lemma first_token_marks:
  "answers_ok st \<Longrightarrow> answers_ok (fst (if c then record_first_token_observation now k ex ev st db else (st, db)))"
  using first_token_answers by auto

lemma pump_stored_ok:
  assumes "answers_ok st"
  shows "answers_ok (fst (pump_stored parse ow k sb now line ex ev st db)) \<and>
    snd (snd (pump_stored parse ow k sb now line ex ev st db)) \<noteq> None"
proof -
  define u where "u = (if should_record_first_token st (exe_execution_id ex) (parse line)
    then record_first_token_observation now k ex ev st db else (st, db))"
  have u: "answers_ok (fst u)" unfolding u_def using assms by (rule first_token_marks)
  obtain st1 t where "pump_observe parse (exe_execution_id ex) line (fst u) = Some (st1, t)" and "answers_ok st1"
    using pump_observe_ok [OF u] by metis
  then show ?thesis unfolding pump_stored_def Let_def u_def [symmetric]
    by (auto simp: case_prod_beta answers_kept(1) split: sum.split option.split)
qed

lemma pump_line_ok:
  assumes "answers_ok st"
  shows "answers_ok (fst (pump_line parse ow k sb clock now line st db)) \<and>
    snd (snd (pump_line parse ow k sb clock now line st db)) \<noteq> None"
proof -
  note kept = answers_kept(4) [OF assms]
  note kept' = answers_kept(1) [OF kept]
  note stored = pump_stored_ok [OF kept]
  show ?thesis using kept kept' stored assms unfolding pump_line_def Let_def
    by (auto simp: case_prod_beta split: sum.split option.split)
qed

lemma pump_ok:
  "answers_ok st \<Longrightarrow> snd (snd (run_stdout_pump parse ow k sb eof inputs n ps st db)) \<noteq> None"
proof (induction inputs arbitrary: n ps st db)
  case (Cons i inputs)
  show ?case
  proof (cases i)
    case (Line clock now line)
    with Cons show ?thesis using pump_line_ok [OF Cons.prems, of parse ow k sb clock now line db]
      by (auto simp: case_prod_beta split: sum.split option.split)
  qed (auto simp: case_prod_beta split: sum.split)
qed (auto simp: case_prod_beta split: sum.split)


text \<open>
  Whatever a sandbox writes, a stdout pump is a run of guarded store operations (so it keeps every
  property of those runs), and it never stops by a panic: it ends idle, with an execution cut off by the
  end of the output, or with a store error.
\<close>

lemma pump_runs_the_store:
  "guarded_step\<^sup>*\<^sup>* db (fst (run_stdout_pump parse ow k sb eof inputs n ps pump_default db)) \<and>
   snd (snd (run_stdout_pump parse ow k sb eof inputs n ps pump_default db)) \<noteq> None"
proof
  show "guarded_step\<^sup>*\<^sup>* db (fst (run_stdout_pump parse ow k sb eof inputs n ps pump_default db))"
    by (rule store_run.pump_related) simp
  have "answers_ok pump_default" by (simp add: answers_ok_def pump_default_def)
  then show "snd (snd (run_stdout_pump parse ow k sb eof inputs n ps pump_default db)) \<noteq> None" by (rule pump_ok)
qed

text \<open>
  C10. Every output line a pump adds to the event log belongs to its thread and is the redaction of a line
  the sandbox wrote; nothing already in the log changes.
\<close>

theorem pump_logs_redacted_lines:
  "\<exists>new. session_events (fst (run_stdout_pump parse ow k sb eof inputs n ps st db)) = session_events db @ new \<and>
     filter (\<lambda>r. e_event_type r = output_line \<and>
       \<not> (e_thread_key r = k \<and>
          e_payload r \<in> (\<lambda>line. JStr (redact_sensitive_text line)) ` {line. \<exists>clock now. Line clock now line \<in> set inputs})) new = []"
proof -
  have "logs (redacted_line k {line. \<exists>clock now. Line clock now line \<in> set inputs}) db
      (fst (run_stdout_pump parse ow k sb eof inputs n ps st db))"
    by (rule logged.pump_related) auto
  then show ?thesis by (auto simp: logs_def redacted_line_def filter_empty_conv image_iff)
qed

section \<open>One terminal event per execution\<close>

datatype ending = Terminal time string string TerminalOutput | Exceeded time string duration "duration option"

fun run_ending :: "string \<Rightarrow> string \<Rightarrow> ending \<Rightarrow> db \<Rightarrow> db" where
  "run_ending k x (Terminal now ow sb t) db = fst (record_terminal_output now ow k sb x t db)"
| "run_ending k x (Exceeded now ow d idle) db = fst (record_max_duration_failure now ow k x d idle db)"

definition ends_of :: "db \<Rightarrow> string \<Rightarrow> string list" where
  "ends_of db x = map e_event_type (filter (\<lambda>r. e_execution_id r = Some x \<and> e_event_type r \<in>
     {''session.execution_completed'', ''session.execution_cancelled'', ''session.execution_failed''}) (session_events db))"

text \<open>The row of execution \<open>x\<close> and its terminal events before and after.\<close>

definition ends_with :: "string \<Rightarrow> string \<Rightarrow> execution_row \<Rightarrow> db \<Rightarrow> db \<Rightarrow> bool" where
  "ends_with k x r db db' \<longleftrightarrow> store_inv db' \<and>
     (\<exists>r'. row_by x_execution_id x (session_executions db') = Some r' \<and> x_thread_key r' = k \<and>
       (r' = r \<and> ends_of db' x = ends_of db x \<or>
        active r \<and> \<not> active r' \<and> ends_of db' x = ends_of db x @ [''session.execution_'' @ x_status r']))"

lemma append_event_ok:
  assumes "store_inv db" and "row_by x_execution_id x (session_executions db) = Some r" and "x_thread_key r = k"
  obtains e where "snd (append_event now k (Some x) ty pl db) = Inr e"
    and "session_events (fst (append_event now k (Some x) ty pl db)) =
      session_events db @ [new_event_row now (next_event_id db) k (Some x) ty pl]"
proof -
  have "has_session db k" "has_execution db x"
    using assms(1) row_by_Some [OF assms(2)] assms(3)
    by (force simp: has_session_def has_execution_def store_inv_def Let_def executions_inv_def)+
  then have i: "insert_session_event now k (Some x) ty pl db =
    ((use_event_id db)\<lparr>session_events := session_events db @ [new_event_row now (next_event_id db) k (Some x) ty pl]\<rparr>,
     Inr (new_event_row now (next_event_id db) k (Some x) ty pl))" by (simp add: insert_event_ok)
  have "store_inv (fst (insert_session_event now k (Some x) ty pl db))" using assms(1) by (rule insert_session_event_inv)
  then obtain e where "event_of_row (new_event_row now (next_event_id db) k (Some x) ty pl) = Inr e"
    using event_decodes [of "fst (insert_session_event now k (Some x) ty pl db)"
        "new_event_row now (next_event_id db) k (Some x) ty pl"] i by auto
  then show thesis using that i by (simp add: append_event_def)
qed

lemma settled_once:
  assumes "exec_update (active_owned_p x ow) f" and "store_inv db"
    and "row_by x_execution_id x (session_executions db) = Some r"
    and "x_status (f r) = execution_status_as_ref st"
  obtains (skipped) "settle now sst (upd_executions (active_owned_p x ow) f db) = (db, Inr None)"
  | (settled) e where "active r" "snd (settle now sst (upd_executions (active_owned_p x ow) f db)) = Inr (Some e)"
      "row_by x_execution_id x (session_executions (fst (settle now sst (upd_executions (active_owned_p x ow) f db)))) = Some (f r)"
      "session_events (fst (settle now sst (upd_executions (active_owned_p x ow) f db))) = session_events db"
      "store_inv (fst (settle now sst (upd_executions (active_owned_p x ow) f db)))" "x_thread_key (f r) = x_thread_key r"
proof -
  have key: "\<And>r. active_owned_p x ow r \<Longrightarrow> x_execution_id r = x" by (simp add: store_defs)
  show thesis
  proof (cases "active_owned_p x ow r")
    case False
    then show thesis using skipped exec_update.settle_unmatched [OF assms(1,2) key] assms(3) by simp
  next
    case True
    obtain e where "snd (settle now sst (upd_executions (active_owned_p x ow) f db)) = Inr (Some e)"
      by (rule settled_row [OF assms(1,2,3) key True assms(4), where now = now and sst = sst]) simp_all
    moreover have "keyed_update x_execution_id (active_owned_p x ow) f" using assms(1) by (simp add: exec_update_def)
    then have "row_by x_execution_id x (session_executions (fst (upd_executions (active_owned_p x ow) f db))) = Some (f r)"
      using keyed_update.row_after assms(3) True by fastforce
    moreover have "x_thread_key (f r) = x_thread_key r"
      using assms(1) True by (simp add: exec_update_def exec_update_axioms_def)
    ultimately show thesis
      using settled True exec_update.settle_inv [OF assms(1,2)] by (simp add: active_owned_p_def)
  qed
qed

lemma ends_snoc:
  "session_events db' = session_events db @ [new_event_row now i k (Some x) ty pl] \<Longrightarrow>
   ty \<in> {''session.execution_completed'', ''session.execution_cancelled'', ''session.execution_failed''} \<Longrightarrow>
     ends_of db' x = ends_of db x @ [ty]"
  by (simp add: ends_of_def)

lemma touch_events [simp]:
  "session_events (fst (touch_sandbox_activity now k sb db)) = session_events db"
  "session_events (fst (touch_session_sandbox_activity now k db)) = session_events db"
  by (simp_all add: touch_sandbox_activity_def touch_session_sandbox_activity_def case_prod_beta)

lemma ends_of_cong: "session_events db' = session_events db \<Longrightarrow> ends_of db' x = ends_of db x"
  by (simp add: ends_of_def)

lemma unchanged_ends:
  "store_inv db \<Longrightarrow> row_by x_execution_id x (session_executions db) = Some r \<Longrightarrow> x_thread_key r = k \<Longrightarrow> ends_with k x r db db"
  by (simp add: ends_with_def)

lemma terminal_event_type:
  "st \<in> {Completed, Failed, Cancelled} \<Longrightarrow> ''session.execution_'' @ execution_status_as_ref st \<in>
     {''session.execution_completed'', ''session.execution_cancelled'', ''session.execution_failed''}"
  by (auto simp: execution_status_as_ref.simps)

lemma after_settlement_ends:
  assumes U: "exec_update (active_owned_p x ow) f" and inv: "store_inv db"
    and row: "row_by x_execution_id x (session_executions db) = Some r" and k: "x_thread_key r = k"
    and st: "x_status (f r) = execution_status_as_ref st" "st \<in> {Completed, Failed, Cancelled}"
    and ty: "ty = ''session.execution_'' @ execution_status_as_ref st"
  shows "ends_with k x r db (fst (after_settlement now k sb x ty pl (settle now sst (upd_executions (active_owned_p x ow) f db))))"
  using U inv row st(1)
proof (cases rule: settled_once [where now = now and sst = sst])
  case skipped
  then show ?thesis using unchanged_ends [OF inv row k] by (simp add: after_settlement_def)
next
  case (settled e)
  let ?db = "fst (settle now sst (upd_executions (active_owned_p x ow) f db))"
  have k': "x_thread_key (f r) = k" using settled(6) k by simp
  obtain e' where e': "snd (append_event now k (Some x) ty pl ?db) = Inr e'"
    "session_events (fst (append_event now k (Some x) ty pl ?db)) =
       session_events ?db @ [new_event_row now (next_event_id ?db) k (Some x) ty pl]"
    by (rule append_event_ok [OF settled(5,3) k'])
  let ?db' = "fst (touch_sandbox_activity now k sb (fst (append_event now k (Some x) ty pl ?db)))"
  have "fst (after_settlement now k sb x ty pl (settle now sst (upd_executions (active_owned_p x ow) f db))) = ?db'"
    using settled(2) e'(1) by (simp add: after_settlement_def case_prod_beta)
  moreover have "store_inv ?db'" using settled(5) by (intro session_ops_inv event_append_ops_inv)
  moreover have "ends_of ?db' x = ends_of db x @ [ty]"
    using e'(2) settled(4) terminal_event_type [OF st(2)] ty by (intro ends_snoc) simp_all
  ultimately show ?thesis
    using settled(1,3) k' st ty by (auto simp: ends_with_def execution_frames active_def)
qed

lemma record_terminal_ends:
  assumes "store_inv db" and "row_by x_execution_id x (session_executions db) = Some r" and "x_thread_key r = k"
  shows "ends_with k x r db (fst (record_terminal_output now ow k sb x t db))"
proof (cases t)
  case (TCompleted reason answer)
  then show ?thesis
    using after_settlement_ends [OF complete_owned.exec_update_axioms assms, of now Completed]
    by (simp add: record_terminal_output_def complete_execution_if_active_and_stdout_owner_def clear_owner_def complete_f_def
        execution_status_as_ref.simps)
next
  case (TCancelled reason)
  then show ?thesis
    using after_settlement_ends [OF cancel_owned.exec_update_axioms assms, of now reason Cancelled]
    by (simp add: record_terminal_output_def cancel_execution_if_active_and_stdout_owner_def clear_owner_def cancel_f_def
        execution_status_as_ref.simps)
next
  case (TFailed e)
  then show ?thesis
    using after_settlement_ends [OF fail_owned.exec_update_axioms assms, of now e Failed]
    by (simp add: record_terminal_output_def fail_execution_if_active_and_stdout_owner_def clear_owner_def fail_f_def
        execution_status_as_ref.simps)
qed

lemma record_max_duration_ends:
  assumes inv: "store_inv db" and row: "row_by x_execution_id x (session_executions db) = Some r" and k: "x_thread_key r = k"
  shows "ends_with k x r db (fst (record_max_duration_failure now ow k x d idle db))"
proof -
  define err where "err = ''execution exceeded max_duration_ms='' @ show_nat (duration_millis_u64 d)"
  let ?f = "\<lambda>r. clear_owner (fail_f now err r)"
  define u where "u = fail_execution_if_active_and_stdout_owner now x ow err db"
  have u: "u = settle now SessionFailed (upd_executions (active_owned_p x ow) ?f db)"
    by (simp add: u_def fail_execution_if_active_and_stdout_owner_def)
  have st: "x_status (?f r) = execution_status_as_ref Failed" by (simp add: clear_owner_def fail_f_def)
  from fail_owned.exec_update_axioms [of x ow now err] inv row st show ?thesis
  proof (cases rule: settled_once [where now = now and sst = SessionFailed])
    case skipped
    then show ?thesis using unchanged_ends [OF inv row k] u
      unfolding record_max_duration_failure_def Let_def err_def [symmetric] u_def [symmetric] by simp
  next
    case (settled e)
    let ?db = "fst (touch_session_sandbox_activity now k (fst u))"
    let ?pl = "JObj [(''execution_id'', JStr x), (''thread_key'', JStr k), (''error'', JStr err),
      (''reason'', JStr ''max_duration_exceeded''), (''max_duration_ms'', JNat (duration_millis_u64 d))]"
    have inv': "store_inv ?db" using settled(5) u by (simp add: session_ops_inv)
    have row': "row_by x_execution_id x (session_executions ?db) = Some (?f r)"
      using settled(3) u by (simp add: execution_frames)
    have k': "x_thread_key (?f r) = k" using settled(6) k by simp
    obtain e' where e': "snd (append_event now k (Some x) ''session.execution_failed'' ?pl ?db) = Inr e'"
      "session_events (fst (append_event now k (Some x) ''session.execution_failed'' ?pl ?db)) =
         session_events ?db @ [new_event_row now (next_event_id ?db) k (Some x) ''session.execution_failed'' ?pl]"
      by (rule append_event_ok [OF inv' row' k'])
    let ?db' = "fst (append_event now k (Some x) ''session.execution_failed'' ?pl ?db)"
    have "fst (record_max_duration_failure now ow k x d idle db) = ?db'"
      using settled(2) e'(1) u
      unfolding record_max_duration_failure_def Let_def err_def [symmetric] u_def [symmetric]
      by (simp add: case_prod_beta split: option.split sum.split)
    moreover have "ends_of ?db' x = ends_of db x @ [''session.execution_failed'']"
      using e'(2) settled(4) u by (intro ends_snoc) simp_all
    moreover have "store_inv ?db'" using inv' by (rule event_append_ops_inv)
    ultimately show ?thesis
      using settled(1) row' k' st by (auto simp: ends_with_def execution_frames active_def execution_status_as_ref.simps)
  qed
qed

lemma run_ending_ends:
  "store_inv db \<Longrightarrow> row_by x_execution_id x (session_executions db) = Some r \<Longrightarrow> x_thread_key r = k \<Longrightarrow>
     ends_with k x r db (run_ending k x e db)"
  by (cases e) (simp_all add: record_terminal_ends record_max_duration_ends)

lemma ends_with_trans:
  assumes "ends_with k x r db db1"
    and "\<And>r1. store_inv db1 \<Longrightarrow> row_by x_execution_id x (session_executions db1) = Some r1 \<Longrightarrow> x_thread_key r1 = k \<Longrightarrow>
      ends_with k x r1 db1 db2"
  shows "ends_with k x r db db2"
  using assms unfolding ends_with_def by fastforce

text \<open>
  C7. However many pumps, watchdogs and recoveries report the end of one execution, in any order and as
  any owner, its terminal events agree with its row: either nothing was recorded and the row is as it
  was, or the active execution ended and exactly one terminal event was added, the one of its final
  status.
\<close>

theorem one_terminal_event:
  assumes "store_inv db" and "row_by x_execution_id x (session_executions db) = Some r" and "x_thread_key r = k"
  shows "\<exists>r'. row_by x_execution_id x (session_executions (fold (run_ending k x) es db)) = Some r' \<and>
    (r' = r \<and> ends_of (fold (run_ending k x) es db) x = ends_of db x \<or>
     active r \<and> \<not> active r' \<and>
       ends_of (fold (run_ending k x) es db) x = ends_of db x @ [''session.execution_'' @ x_status r'])"
proof -
  have "ends_with k x r db (fold (run_ending k x) es db)"
    using assms
  proof (induction es arbitrary: db r)
    case Nil
    then show ?case by (simp add: unchanged_ends)
  next
    case (Cons e es)
    show ?case
      using ends_with_trans [OF run_ending_ends [OF Cons.prems, of e], of "fold (run_ending k x) (e # es) db"] Cons.IH by simp
  qed
  then show ?thesis by (auto simp: ends_with_def)
qed

theorem one_terminal_event_witness:
  "store_inv example_claimed_db \<and>
   (\<exists>r r'. row_by x_execution_id ''exe_1'' (session_executions example_claimed_db) = Some r \<and> active r \<and>
     row_by x_execution_id ''exe_1'' (session_executions (fold (run_ending ''api:1'' ''exe_1'')
       [Exceeded 20 ''a'' 5 None, Terminal 21 ''a'' ''sb-1'' (TFailed ''stdout closed'')] example_claimed_db)) = Some r' \<and>
     length (ends_of (fold (run_ending ''api:1'' ''exe_1'')
       [Exceeded 20 ''a'' 5 None, Terminal 21 ''a'' ''sb-1'' (TFailed ''stdout closed'')] example_claimed_db) ''exe_1'') \<le>
       length (ends_of example_claimed_db ''exe_1'') + 1)"
proof -
  obtain r where r: "row_by x_execution_id ''exe_1'' (session_executions example_claimed_db) = Some r"
    "active r" "x_thread_key r = ''api:1''" by (rule example_claimed_row)
  show ?thesis
    using one_terminal_event [OF example_claimed_inv r(1,3), of "[Exceeded 20 ''a'' 5 None, Terminal 21 ''a'' ''sb-1'' (TFailed ''stdout closed'')]"]
      example_claimed_inv r by auto
qed

end
