(* ===== verification/Sandbox_Setup.thy ===== *)
theory Sandbox_Setup
  imports Runtime_Turns
begin

text \<open>
  What a session's sandbox is made of (\<^verbatim>\<open>crates/centaur-session-runtime/src/lib.rs\<close>): the persona
  registry and the choice of a persona, the workload's spec, the capabilities of the session's principal
  applied to a spec, the boot mode of a tool host, and the metadata and labels of a session. A \<^verbatim>\<open>BTreeMap\<close>
  is an ordered association list; \<open>dbg\<close> is Rust's \<^verbatim>\<open>Debug\<close> form of a string.
\<close>

section \<open>Personas\<close>

record PersonaDefinition =
  pd_id :: string
  pd_source_root :: string
  pd_source_path :: string
  pd_source_ref :: "string option"
  pd_prompt_hash :: string
  pd_prompt :: string
  pd_models :: labels
  pd_harness :: "HarnessType option"

record PersonaContext =
  pc_persona_id :: string
  pc_source_root :: string
  pc_source_path :: string
  pc_source_ref :: "string option"
  pc_prompt_hash :: string
  pc_prompt :: string
  pc_defaulted :: bool
  pc_overlay_chain :: "string list"

record PersonaRegistry =
  personas :: "(string \<times> PersonaDefinition) list"
  reg_default_persona_id :: "string option"
  overlay_chain :: "string list"
  public_source_roots :: "string set"

definition pins_without_model :: "PersonaDefinition \<Rightarrow> bool" where
  "pins_without_model persona =
     (case pd_harness persona of None \<Rightarrow> False
      | Some harness \<Rightarrow> map_of (pd_models persona) (harness_type_as_ref harness) = None)"

definition registry_new ::
  "(string \<Rightarrow> string) \<Rightarrow> PersonaDefinition list \<Rightarrow> string option \<Rightarrow> string list \<Rightarrow> string + PersonaRegistry" where
  "registry_new dbg ps default_id chain =
     (let m = fold (\<lambda>p. btree_insert (pd_id p) p) ps [] in
      case find pins_without_model (map snd m) of
        Some p \<Rightarrow> Inl (''persona '' @ dbg (pd_id p) @ '' pins a harness without pinning a model for it'')
      | None \<Rightarrow>
          (case default_id of
             Some d \<Rightarrow>
               if map_of m d = None
               then Inl (''CENTAUR_DEFAULT_PERSONA '' @ dbg d @ '' is not in the deployed persona registry'')
               else Inr \<lparr>personas = m, reg_default_persona_id = default_id, overlay_chain = chain, public_source_roots = {}\<rparr>
           | None \<Rightarrow>
               Inr \<lparr>personas = m, reg_default_persona_id = default_id, overlay_chain = chain, public_source_roots = {}\<rparr>))"

definition with_public_source_roots :: "string list \<Rightarrow> PersonaRegistry \<Rightarrow> PersonaRegistry" where
  "with_public_source_roots roots reg = reg\<lparr>public_source_roots := set roots\<rparr>"

definition registry_get :: "PersonaRegistry \<Rightarrow> string \<Rightarrow> PersonaDefinition option" where
  "registry_get reg persona_id = map_of (personas reg) persona_id"

definition persona_allowed_for_access :: "PersonaRegistry \<Rightarrow> PersonaDefinition \<Rightarrow> SandboxRepoCacheAccess \<Rightarrow> bool" where
  "persona_allowed_for_access reg persona access \<longleftrightarrow>
     access \<noteq> CachePublic \<or> pd_source_root persona \<in> public_source_roots reg"

definition default_persona_id_for_access :: "PersonaRegistry \<Rightarrow> SandboxRepoCacheAccess \<Rightarrow> string option" where
  "default_persona_id_for_access reg access =
     Option.bind (reg_default_persona_id reg) (\<lambda>d.
     Option.bind (registry_get reg d) (\<lambda>persona.
       if persona_allowed_for_access reg persona access then Some d else None))"

definition model_for :: "PersonaRegistry \<Rightarrow> string \<Rightarrow> HarnessType \<Rightarrow> string option" where
  "model_for reg persona_id harness =
     Option.bind (registry_get reg persona_id) (\<lambda>p. map_of (pd_models p) (harness_type_as_ref harness))"

definition harness_for :: "PersonaRegistry \<Rightarrow> string \<Rightarrow> HarnessType option" where
  "harness_for reg persona_id = Option.bind (registry_get reg persona_id) pd_harness"

definition context_for_access ::
  "(string \<Rightarrow> string) \<Rightarrow> PersonaRegistry \<Rightarrow> string \<Rightarrow> bool \<Rightarrow> SandboxRepoCacheAccess \<Rightarrow> string + PersonaContext" where
  "context_for_access dbg reg persona_id defaulted access =
     (case registry_get reg persona_id of
        None \<Rightarrow> Inl (''persona '' @ dbg persona_id @ '' is not available in this deployment'')
      | Some persona \<Rightarrow>
          if \<not> persona_allowed_for_access reg persona access
          then Inl (''persona '' @ dbg persona_id @ '' is not available for public sandbox repo-cache access'')
          else Inr \<lparr>pc_persona_id = pd_id persona, pc_source_root = pd_source_root persona,
            pc_source_path = pd_source_path persona, pc_source_ref = pd_source_ref persona,
            pc_prompt_hash = pd_prompt_hash persona, pc_prompt = pd_prompt persona, pc_defaulted = defaulted,
            pc_overlay_chain = overlay_chain reg\<rparr>)"

definition clean_persona_id :: "string \<Rightarrow> string option" where
  "clean_persona_id value = (let v = trim value in if v = [] then None else Some v)"

record PersonaResolution =
  resolved_persona_id :: "string option"
  resolved_context :: "PersonaContext option"
  unavailable_requested_persona_id :: "string option"

definition resolve_persona_context ::
  "(string \<Rightarrow> string) \<Rightarrow> PersonaRegistry option \<Rightarrow> string option \<Rightarrow> bool \<Rightarrow> SandboxCapabilities \<Rightarrow>
   PersonaContext option runtime_result" where
  "resolve_persona_context dbg registry persona_id defaulted capabilities =
     (case persona_id of
        None \<Rightarrow> Inr None
      | Some i \<Rightarrow>
          (case registry of
             None \<Rightarrow> Inl (BadRequest (''persona '' @ dbg i @ '' was requested but no persona registry is configured''))
           | Some reg \<Rightarrow>
               (case context_for_access dbg reg i defaulted (repo_cache capabilities) of
                  Inl e \<Rightarrow> Inl (BadRequest e) | Inr ctx \<Rightarrow> Inr (Some ctx))))"

definition resolve_persona_selection ::
  "(string \<Rightarrow> string) \<Rightarrow> PersonaRegistry option \<Rightarrow> string option \<Rightarrow> SandboxCapabilities \<Rightarrow> PersonaResolution runtime_result" where
  "resolve_persona_selection dbg registry requested_persona_id capabilities =
     (let requested = Option.bind requested_persona_id clean_persona_id in
      case registry of
        None \<Rightarrow> Inr \<lparr>resolved_persona_id = None, resolved_context = None, unavailable_requested_persona_id = requested\<rparr>
      | Some reg \<Rightarrow>
          (let (selected, unavailable) =
             (case requested of
                Some i \<Rightarrow>
                  if registry_get reg i \<noteq> None then (Some i, None)
                  else (default_persona_id_for_access reg (repo_cache capabilities), Some i)
              | None \<Rightarrow> (default_persona_id_for_access reg (repo_cache capabilities), None));
             defaulted = (selected \<noteq> None \<and> selected \<noteq> requested)
           in res_map (\<lambda>ctx. \<lparr>resolved_persona_id = selected, resolved_context = ctx,
                 unavailable_requested_persona_id = unavailable\<rparr>)
               (resolve_persona_context dbg (Some reg) selected defaulted capabilities)))"

text \<open>\<^verbatim>\<open>json!(context)\<close>: the prompt is not serialised.\<close>

definition opt_str :: "string option \<Rightarrow> json" where
  "opt_str s = (case s of None \<Rightarrow> JNull | Some t \<Rightarrow> JStr t)"

definition persona_context_json :: "PersonaContext \<Rightarrow> json" where
  "persona_context_json c =
     JObj [(''persona_id'', JStr (pc_persona_id c)), (''source_root'', JStr (pc_source_root c)),
       (''source_path'', JStr (pc_source_path c)), (''source_ref'', opt_str (pc_source_ref c)),
       (''prompt_hash'', JStr (pc_prompt_hash c)), (''defaulted'', JBool (pc_defaulted c)),
       (''overlay_chain'', JArr (map JStr (pc_overlay_chain c)))]"

definition add_persona_metadata :: "json \<Rightarrow> PersonaContext \<Rightarrow> json" where
  "add_persona_metadata metadata ctx =
     (case metadata of JObj kvs \<Rightarrow> JObj (json_insert ''persona'' (persona_context_json ctx) kvs) | m \<Rightarrow> m)"

section \<open>Capabilities\<close>

definition SANDBOX_REPOS_MOUNT_PATH :: string where "SANDBOX_REPOS_MOUNT_PATH = ''/home/agent/github''"
definition PUBLIC_REPO_CACHE_SUBPATH :: string where "PUBLIC_REPO_CACHE_SUBPATH = ''public''"
definition CENTAUR_SKILL_DIRS_ENV :: string where "CENTAUR_SKILL_DIRS_ENV = ''CENTAUR_SKILL_DIRS''"
definition CENTAUR_PUBLIC_SKILL_DIRS_ENV :: string where "CENTAUR_PUBLIC_SKILL_DIRS_ENV = ''CENTAUR_PUBLIC_SKILL_DIRS''"
definition SANDBOX_REPO_CACHE_LABEL :: string where "SANDBOX_REPO_CACHE_LABEL = ''centaur.sandbox_repo_cache''"
definition SANDBOX_AGENT_HOME :: string where "SANDBOX_AGENT_HOME = ''/home/agent''"

record Principal =
  prn_id :: string
  prn_foreign_id :: "string option"
  prn_name :: string
  prn_labels :: labels
  prn_sandbox_observability_enabled :: bool

fun env_upsert :: "string \<Rightarrow> string \<Rightarrow> EnvVar list \<Rightarrow> EnvVar list" where
  "env_upsert name value [] = [\<lparr>env_name = name, env_value = value\<rparr>]"
| "env_upsert name value (e # es) =
     (if env_name e = name then e\<lparr>env_value := value\<rparr> # es else e # env_upsert name value es)"

definition upsert_spec_env :: "string \<Rightarrow> string \<Rightarrow> SandboxSpec \<Rightarrow> SandboxSpec" where
  "upsert_spec_env name value spec = spec\<lparr>sp_env := env_upsert name value (sp_env spec)\<rparr>"

definition remove_spec_env :: "string \<Rightarrow> SandboxSpec \<Rightarrow> SandboxSpec" where
  "remove_spec_env name spec = spec\<lparr>sp_env := filter (\<lambda>e. env_name e \<noteq> name) (sp_env spec)\<rparr>"

definition find_env :: "string \<Rightarrow> SandboxSpec \<Rightarrow> string option" where
  "find_env name spec = map_option env_value (find (\<lambda>e. env_name e = name) (sp_env spec))"

definition sandbox_capabilities_match :: "SandboxCapabilities option \<Rightarrow> SandboxCapabilities \<Rightarrow> bool" where
  "sandbox_capabilities_match existing desired =
     (case existing of None \<Rightarrow> is_default_enabled desired | Some e \<Rightarrow> e = desired)"

definition sandbox_repo_cache_access_from_principal :: "Principal \<Rightarrow> SandboxRepoCacheAccess" where
  "sandbox_repo_cache_access_from_principal prn =
     (case map_option (\<lambda>v. to_ascii_lowercase (trim v)) (map_of (prn_labels prn) SANDBOX_REPO_CACHE_LABEL) of
        Some v \<Rightarrow> if v = ''all'' then CacheAll else if v = ''public'' then CachePublic else CacheNone
      | None \<Rightarrow> CacheNone)"

definition sandbox_capabilities_from_principal :: "Principal \<Rightarrow> SandboxCapabilities" where
  "sandbox_capabilities_from_principal prn =
     \<lparr>repo_cache = sandbox_repo_cache_access_from_principal prn,
      observability_enabled = prn_sandbox_observability_enabled prn\<rparr>"

fun access_for_backend :: "SandboxRepoCacheAccess \<Rightarrow> RepoCacheAccess" where
  "access_for_backend CacheNone = AccessNone"
| "access_for_backend CachePublic = AccessPublic"
| "access_for_backend CacheAll = AccessAll"

definition trim_end_slashes :: "string \<Rightarrow> string" where
  "trim_end_slashes s = rev (dropWhile (\<lambda>c. c = CHR ''/'') (rev s))"

definition scope_mount_to_public :: "Mount \<Rightarrow> Mount" where
  "scope_mount_to_public m =
     (if mount_target_path m \<noteq> SANDBOX_REPOS_MOUNT_PATH then m
      else case mount_kind m of
        Bind source_path \<Rightarrow> m\<lparr>mount_kind := Bind (trim_end_slashes source_path @ ''/'' @ PUBLIC_REPO_CACHE_SUBPATH)\<rparr>
      | NamedVolume _ \<Rightarrow> m\<lparr>mount_sub_path := Some PUBLIC_REPO_CACHE_SUBPATH\<rparr>
      | EmptyDir \<Rightarrow> m)"

definition scope_repo_cache_mounts_to_public :: "SandboxSpec \<Rightarrow> SandboxSpec" where
  "scope_repo_cache_mounts_to_public spec = spec\<lparr>sp_mounts := map scope_mount_to_public (sp_mounts spec)\<rparr>"

definition scope_skill_dirs_to_public :: "SandboxSpec \<Rightarrow> SandboxSpec" where
  "scope_skill_dirs_to_public spec =
     (case Option.bind (map_option trim (find_env CENTAUR_PUBLIC_SKILL_DIRS_ENV spec)) nonempty_text of
        Some public_skill_dirs \<Rightarrow> upsert_spec_env CENTAUR_SKILL_DIRS_ENV public_skill_dirs spec
      | None \<Rightarrow> remove_spec_env CENTAUR_SKILL_DIRS_ENV spec)"

definition bool_text :: "bool \<Rightarrow> string" where
  "bool_text b = (if b then ''true'' else ''false'')"

definition apply_sandbox_capabilities :: "SandboxCapabilities \<Rightarrow> SandboxSpec \<Rightarrow> SandboxSpec" where
  "apply_sandbox_capabilities capabilities spec =
     (let spec1 = spec\<lparr>sp_capabilities :=
            \<lparr>cap_repo_cache = access_for_backend (repo_cache capabilities),
             cap_observability_enabled = observability_enabled capabilities\<rparr>\<rparr>;
          spec2 = upsert_spec_env ''CENTAUR_SANDBOX_REPO_CACHE_ENABLED''
            (bool_text (repo_cache_enabled (repo_cache capabilities))) spec1;
          spec3 = upsert_spec_env ''CENTAUR_SANDBOX_REPO_CACHE_ACCESS'' (repo_cache_as_str (repo_cache capabilities)) spec2;
          spec4 =
            (case repo_cache capabilities of
               CacheNone \<Rightarrow> remove_spec_env CENTAUR_SKILL_DIRS_ENV
                 (spec3\<lparr>sp_mounts := filter (\<lambda>m. mount_target_path m \<noteq> SANDBOX_REPOS_MOUNT_PATH) (sp_mounts spec3)\<rparr>)
             | CachePublic \<Rightarrow> scope_skill_dirs_to_public (scope_repo_cache_mounts_to_public spec3)
             | CacheAll \<Rightarrow> remove_spec_env CENTAUR_PUBLIC_SKILL_DIRS_ENV spec3)
      in remove_spec_env CENTAUR_PUBLIC_SKILL_DIRS_ENV spec4)"

record ToolHostToolFilter =
  allowlist :: "string option"
  blocklist :: "string option"

definition tool_host_tool_filter_from_spec :: "SandboxSpec \<Rightarrow> SandboxCapabilities \<Rightarrow> ToolHostToolFilter" where
  "tool_host_tool_filter_from_spec spec capabilities =
     (let s = apply_sandbox_capabilities capabilities spec in
      \<lparr>allowlist = find_env ''TOOL_ALLOWLIST'' s, blocklist = find_env ''TOOL_BLOCKLIST'' s\<rparr>)"

section \<open>Specs\<close>

definition PERSONA_ENV_NAMES :: "string list" where
  "PERSONA_ENV_NAMES = [''AGENT_PERSONA'', ''CENTAUR_PERSONA_ID'', ''CENTAUR_PERSONA_PROMPT_HASH'',
     ''CENTAUR_PERSONA_SOURCE_PATH'', ''CENTAUR_PERSONA_SOURCE_REF'']"

definition apply_persona_spec :: "SandboxSpec \<Rightarrow> PersonaContext option \<Rightarrow> SandboxSpec" where
  "apply_persona_spec spec persona =
     (let path = SANDBOX_AGENT_HOME @ ''/AGENTS_PERSONA.md'';
          spec1 = fold remove_spec_env PERSONA_ENV_NAMES spec;
          spec2 = spec1\<lparr>sp_files := filter (\<lambda>f. file_target_path f \<noteq> path) (sp_files spec1)\<rparr>
      in case persona of
        None \<Rightarrow> spec2
      | Some p \<Rightarrow>
          (let spec3 = upsert_spec_env ''CENTAUR_PERSONA_ID'' (pc_persona_id p)
                 (upsert_spec_env ''AGENT_PERSONA'' (pc_persona_id p) spec2);
               spec4 = spec_file path (pc_prompt p) spec3;
               spec5 = upsert_spec_env ''CENTAUR_PERSONA_SOURCE_PATH'' (pc_source_path p)
                 (upsert_spec_env ''CENTAUR_PERSONA_PROMPT_HASH'' (pc_prompt_hash p) spec4)
           in case pc_source_ref p of
             Some r \<Rightarrow> upsert_spec_env ''CENTAUR_PERSONA_SOURCE_REF'' r spec5
           | None \<Rightarrow> spec5))"

record SandboxWorkloadMode =
  wm_image :: string
  wm_env :: "(string \<times> string) list"
  wm_mounts :: "Mount list"
  wm_resources :: "ResourceRequirements option"
  wm_harness :: HarnessType

fun harness_server_subcommand :: "HarnessType \<Rightarrow> string" where
  "harness_server_subcommand Codex = ''codex''"
| "harness_server_subcommand ClaudeCode = ''claude-code''"
| "harness_server_subcommand Amp = ''amp''"
| "harness_server_subcommand Nanocodex = ''nanocodex''"
| "harness_server_subcommand Hermes = ''hermes''"
| "harness_server_subcommand Pi = ''pi''"
| "harness_server_subcommand Omp = ''omp''"

definition spec_for ::
  "SandboxWorkloadMode \<Rightarrow> string option \<Rightarrow> HarnessType \<Rightarrow> PersonaContext option \<Rightarrow> SandboxSpec" where
  "spec_for mode thread_key harness persona =
     (let spec0 = (spec_label ''centaur.ai/harness'' (harness_type_as_ref harness)
            (spec_label ''centaur.ai/component'' ''session-sandbox'' (spec_new (wm_image mode))))
            \<lparr>sp_args := [''harness-server'', harness_server_subcommand harness]\<rparr>;
          spec1 = (case thread_key of None \<Rightarrow> spec0 | Some k \<Rightarrow> spec_env ''CENTAUR_THREAD_KEY'' k spec0);
          spec2 = (case wm_resources mode of None \<Rightarrow> spec1 | Some r \<Rightarrow> spec1\<lparr>sp_resources := Some r\<rparr>);
          spec3 = fold spec_mount (wm_mounts mode) spec2;
          spec4 = fold (\<lambda>(name, value). spec_env name value) (wm_env mode) spec3
      in apply_persona_spec spec4 persona)"

definition workload_spec :: "SandboxWorkloadMode \<Rightarrow> string \<Rightarrow> HarnessType \<Rightarrow> PersonaContext option \<Rightarrow> SandboxSpec" where
  "workload_spec mode thread_key harness persona = spec_for mode (Some thread_key) harness persona"

definition warm_spec :: "SandboxWorkloadMode \<Rightarrow> HarnessType \<Rightarrow> SandboxSpec" where
  "warm_spec mode harness = spec_for mode None harness None"

record WarmPoolTarget =
  wt_harness :: HarnessType
  wt_repo_cache :: SandboxRepoCacheAccess
  wt_size :: nat

definition warm_pool_spec :: "(HarnessType \<Rightarrow> SandboxSpec) \<Rightarrow> WarmPoolTarget \<Rightarrow> SandboxSpec" where
  "warm_pool_spec factory target =
     apply_sandbox_capabilities \<lparr>repo_cache = wt_repo_cache target, observability_enabled = False\<rparr> (factory (wt_harness target))"

section \<open>Tool hosts\<close>

datatype SandboxBootMode = Harness | ToolHost string

fun boot_mode_as_str :: "SandboxBootMode \<Rightarrow> string" where
  "boot_mode_as_str Harness = ''harness''"
| "boot_mode_as_str (ToolHost _) = ''tool_host''"

definition uses_warm_pool :: "SandboxBootMode \<Rightarrow> bool" where
  "uses_warm_pool m \<longleftrightarrow> m = Harness"

definition sandbox_boot_mode_for_thread :: "string \<Rightarrow> string option \<Rightarrow> SandboxBootMode" where
  "sandbox_boot_mode_for_thread thread_key iron_control_principal =
     (case strip_prefix ''mcp:'' thread_key of
        None \<Rightarrow> Harness
      | Some thread_principal_id \<Rightarrow>
          ToolHost (case iron_control_principal of None \<Rightarrow> thread_principal_id | Some p \<Rightarrow> p))"

definition should_preserve_entrypoint_for_tool_host :: "SandboxSpec \<Rightarrow> bool" where
  "should_preserve_entrypoint_for_tool_host spec \<longleftrightarrow>
     (case sp_command spec of Some (program # _) \<Rightarrow> program = ''/entrypoint.sh'' | _ \<Rightarrow> False) \<or>
     (case sp_args spec of arg # _ \<Rightarrow> arg = ''harness-server'' | [] \<Rightarrow> False)"

definition configure_tool_host_command :: "SandboxSpec \<Rightarrow> SandboxSpec" where
  "configure_tool_host_command spec =
     (if should_preserve_entrypoint_for_tool_host spec
      then spec\<lparr>sp_command := Some [''/entrypoint.sh''], sp_args := [''centaur-tool-host'']\<rparr>
      else spec\<lparr>sp_command := Some [''centaur-tool-host''], sp_args := []\<rparr>)"

definition apply_sandbox_boot_mode :: "SandboxBootMode \<Rightarrow> SandboxSpec \<Rightarrow> SandboxSpec" where
  "apply_sandbox_boot_mode boot_mode spec =
     (case boot_mode of
        Harness \<Rightarrow> spec
      | ToolHost principal_id \<Rightarrow>
          (let spec1 = spec_label ''centaur.ai/workload'' ''mcp-tool-host''
                 (spec_label ''centaur.ai/component'' ''tool-host'' spec);
               spec2 = (if trim principal_id = [] then spec1
                 else upsert_spec_env ''CENTAUR_MCP_PRINCIPAL_ID'' principal_id
                   (spec1\<lparr>sp_iron_control_principal := Some principal_id\<rparr>))
           in configure_tool_host_command spec2))"

definition tool_host_thread_key :: "string \<Rightarrow> string runtime_result" where
  "tool_host_thread_key principal_id =
     (case thread_key_parse (''mcp:'' @ trim principal_id) of
        Inl e \<Rightarrow> Inl (BadRequest (thread_key_error_message e)) | Inr k \<Rightarrow> Inr k)"

definition EXECUTION_TRACEPARENT_METADATA_KEY :: string where
  "EXECUTION_TRACEPARENT_METADATA_KEY = ''centaur.traceparent''"

definition insert_non_empty_metadata_string ::
  "string \<Rightarrow> string option \<Rightarrow> (string \<times> json) list \<Rightarrow> (string \<times> json) list" where
  "insert_non_empty_metadata_string key value metadata =
     (case Option.bind (map_option trim value) nonempty_text of
        None \<Rightarrow> metadata | Some v \<Rightarrow> json_insert key (JStr v) metadata)"

definition tool_host_execution_metadata ::
  "string \<Rightarrow> string \<Rightarrow> string \<Rightarrow> duration \<Rightarrow> string option \<Rightarrow> json" where
  "tool_host_execution_metadata request_id tool_name method timeout traceparent =
     JObj (insert_non_empty_metadata_string EXECUTION_TRACEPARENT_METADATA_KEY traceparent
       [(''mcp_tool_host_call'', JBool True), (''request_id'', JStr request_id), (''tool'', JStr tool_name),
        (''method'', JStr method), (''timeout_ms'', JNat (duration_millis_u64 timeout))])"

definition tool_host_session_metadata :: "string \<Rightarrow> string option \<Rightarrow> string option \<Rightarrow> json" where
  "tool_host_session_metadata principal_id console_user_email console_user_name =
     JObj (insert_non_empty_metadata_string ''console_user_name'' console_user_name
       (insert_non_empty_metadata_string ''console_user_email'' console_user_email
         [(''mcp_tool_host'', JBool True), (''mcp_principal_id'', JStr principal_id)]))"

definition insert_metadata_string_label :: "string \<Rightarrow> json option \<Rightarrow> labels \<Rightarrow> labels" where
  "insert_metadata_string_label label value l =
     (case map_option trim (Option.bind value as_str) of
        None \<Rightarrow> l | Some v \<Rightarrow> if v = [] then l else btree_insert label v l)"

definition slack_conversation_id :: "string \<Rightarrow> string option" where
  "slack_conversation_id thread_key =
     (case chat_destination thread_key of Some (Slack c _) \<Rightarrow> Some c | _ \<Rightarrow> None)"

definition proxy_labels_from_session_metadata :: "string \<Rightarrow> json \<Rightarrow> labels" where
  "proxy_labels_from_session_metadata thread_key metadata =
     (let l = insert_metadata_string_label ''centaur.slack_channel_id'' (get_key ''slack_channel_id'' metadata)
            (insert_metadata_string_label ''centaur.slack_team_id'' (get_key ''slack_team_id'' metadata)
              (insert_metadata_string_label ''centaur.slack_user_id'' (get_key ''slack_user_id'' metadata) []))
      in if map_of l ''centaur.slack_channel_id'' = None
         then (case slack_conversation_id thread_key of
                 Some c \<Rightarrow> btree_insert ''centaur.slack_channel_id'' c l | None \<Rightarrow> l)
         else l)"

section \<open>The environment of a spec\<close>

text \<open>All values a spec gives a variable: a container is started with every entry.\<close>

definition env_values :: "string \<Rightarrow> SandboxSpec \<Rightarrow> string list" where
  "env_values name spec = map env_value (filter (\<lambda>e. env_name e = name) (sp_env spec))"

definition distinct_env :: "SandboxSpec \<Rightarrow> bool" where
  "distinct_env spec \<longleftrightarrow> distinct (map env_name (sp_env spec))"

lemma env_upsert_names:
  "map env_name (env_upsert n v es) = (if n \<in> env_name ` set es then map env_name es else map env_name es @ [n])"
  by (induction n v es rule: env_upsert.induct) auto

lemma env_upsert_values:
  "map env_value (filter (\<lambda>e. env_name e = m) (env_upsert n v es)) =
     (if m = n then v # tl (map env_value (filter (\<lambda>e. env_name e = m) es))
      else map env_value (filter (\<lambda>e. env_name e = m) es))"
  by (induction n v es rule: env_upsert.induct) auto

lemma upsert_values [simp]:
  "env_values m (upsert_spec_env n v s) = (if m = n then v # tl (env_values m s) else env_values m s)"
  by (simp add: env_values_def upsert_spec_env_def env_upsert_values)

lemma remove_values [simp]: "env_values m (remove_spec_env n s) = (if m = n then [] else env_values m s)"
proof -
  have "filter (\<lambda>e. env_name e \<noteq> n \<and> env_name e = m) es = (if m = n then [] else filter (\<lambda>e. env_name e = m) es)"
    for es :: "EnvVar list" by (induction es) auto
  then show ?thesis by (simp add: env_values_def remove_spec_env_def)
qed

lemma env_values_cong: "sp_env s' = sp_env s \<Longrightarrow> env_values m s' = env_values m s"
  by (simp add: env_values_def)

lemma find_env_hd: "find_env n s = (case env_values n s of [] \<Rightarrow> None | v # _ \<Rightarrow> Some v)"
proof -
  have "map_option env_value (find (\<lambda>e. env_name e = n) es) =
    (case map env_value (filter (\<lambda>e. env_name e = n) es) of [] \<Rightarrow> None | v # _ \<Rightarrow> Some v)" for es :: "EnvVar list"
    by (induction es) auto
  then show ?thesis by (simp add: find_env_def env_values_def)
qed

lemma distinct_env_tl: "distinct_env s \<Longrightarrow> tl (env_values n s) = []"
proof -
  have "distinct (map env_name es) \<Longrightarrow> tl (map env_value (filter (\<lambda>e. env_name e = n) es)) = []" for es :: "EnvVar list"
  proof (induction es)
    case (Cons e es)
    moreover have "env_name e \<notin> env_name ` set es \<Longrightarrow> filter (\<lambda>x. env_name x = env_name e) es = []"
      by (metis (mono_tags, lifting) filter_False image_eqI)
    ultimately show ?case by auto
  qed simp
  then show "distinct_env s \<Longrightarrow> tl (env_values n s) = []" by (simp add: distinct_env_def env_values_def)
qed

lemma spec_frames [simp]:
  "sp_mounts (upsert_spec_env n v s) = sp_mounts s" "sp_mounts (remove_spec_env n s) = sp_mounts s"
  "sp_capabilities (upsert_spec_env n v s) = sp_capabilities s" "sp_capabilities (remove_spec_env n s) = sp_capabilities s"
  "env_values m (s\<lparr>sp_capabilities := c\<rparr>) = env_values m s" "env_values m (s\<lparr>sp_mounts := ms\<rparr>) = env_values m s"
  by (simp_all add: upsert_spec_env_def remove_spec_env_def env_values_def)

lemma env_constants [simp]:
  "CENTAUR_SKILL_DIRS_ENV \<noteq> CENTAUR_PUBLIC_SKILL_DIRS_ENV" "CENTAUR_PUBLIC_SKILL_DIRS_ENV \<noteq> CENTAUR_SKILL_DIRS_ENV"
  by (simp_all add: CENTAUR_SKILL_DIRS_ENV_def CENTAUR_PUBLIC_SKILL_DIRS_ENV_def)

section \<open>Scoping by capabilities\<close>

text \<open>A mount that shows the public repositories only, and a spec whose repository mounts fit an access.\<close>

definition public_mount :: "Mount \<Rightarrow> bool" where
  "public_mount m =
     (case mount_kind m of
        EmptyDir \<Rightarrow> True
      | NamedVolume _ \<Rightarrow> mount_sub_path m = Some PUBLIC_REPO_CACHE_SUBPATH
      | Bind source_path \<Rightarrow> suffix (''/'' @ PUBLIC_REPO_CACHE_SUBPATH) source_path)"

definition repos_scoped :: "SandboxRepoCacheAccess \<Rightarrow> SandboxSpec \<Rightarrow> bool" where
  "repos_scoped access spec \<longleftrightarrow>
     list_all (\<lambda>m. mount_target_path m = SANDBOX_REPOS_MOUNT_PATH \<longrightarrow>
       (case access of CacheNone \<Rightarrow> False | CachePublic \<Rightarrow> public_mount m | CacheAll \<Rightarrow> True)) (sp_mounts spec)"

definition public_skill_dirs :: "SandboxSpec \<Rightarrow> string list" where
  "public_skill_dirs spec =
     (case env_values CENTAUR_PUBLIC_SKILL_DIRS_ENV spec of [] \<Rightarrow> [] | v # _ \<Rightarrow> if trim v = [] then [] else [trim v])"

definition other_mounts :: "SandboxSpec \<Rightarrow> Mount list" where
  "other_mounts spec = filter (\<lambda>m. mount_target_path m \<noteq> SANDBOX_REPOS_MOUNT_PATH) (sp_mounts spec)"

lemma scope_mount_target [simp]: "mount_target_path (scope_mount_to_public m) = mount_target_path m"
  by (simp add: scope_mount_to_public_def split: MountKind.split)

lemma scope_mount_other: "mount_target_path m \<noteq> SANDBOX_REPOS_MOUNT_PATH \<Longrightarrow> scope_mount_to_public m = m"
  by (simp add: scope_mount_to_public_def)

lemma scope_mount_public: "mount_target_path m = SANDBOX_REPOS_MOUNT_PATH \<Longrightarrow> public_mount (scope_mount_to_public m)"
  by (auto simp: scope_mount_to_public_def public_mount_def suffix_def split: MountKind.split)

lemma other_mounts_scoped:
  "filter (\<lambda>m. mount_target_path m \<noteq> SANDBOX_REPOS_MOUNT_PATH) (map scope_mount_to_public ms) =
   filter (\<lambda>m. mount_target_path m \<noteq> SANDBOX_REPOS_MOUNT_PATH) ms"
  by (induction ms) (simp_all add: scope_mount_other)

lemma scope_skill_frames [simp]: "sp_mounts (scope_skill_dirs_to_public s) = sp_mounts s"
  "sp_capabilities (scope_skill_dirs_to_public s) = sp_capabilities s"
  by (simp_all add: scope_skill_dirs_to_public_def split: option.split)

lemma scope_skill_values:
  "env_values m (scope_skill_dirs_to_public s) =
     (if m \<noteq> CENTAUR_SKILL_DIRS_ENV then env_values m s
      else if public_skill_dirs s = [] then [] else public_skill_dirs s @ tl (env_values m s))"
  by (auto simp: scope_skill_dirs_to_public_def public_skill_dirs_def find_env_hd nonempty_text_def split: list.split)

lemma scope_mounts_frames [simp]:
  "sp_mounts (scope_repo_cache_mounts_to_public s) = map scope_mount_to_public (sp_mounts s)"
  "sp_capabilities (scope_repo_cache_mounts_to_public s) = sp_capabilities s"
  "env_values m (scope_repo_cache_mounts_to_public s) = env_values m s"
  by (simp_all add: scope_repo_cache_mounts_to_public_def)

lemma apply_mounts:
  "sp_mounts (apply_sandbox_capabilities c s) =
     (case repo_cache c of CacheNone \<Rightarrow> other_mounts s | CachePublic \<Rightarrow> map scope_mount_to_public (sp_mounts s)
      | CacheAll \<Rightarrow> sp_mounts s)"
  by (simp add: apply_sandbox_capabilities_def Let_def other_mounts_def split: SandboxRepoCacheAccess.split)

lemma apply_scoped: "repos_scoped (repo_cache c) (apply_sandbox_capabilities c s)"
  by (auto simp: repos_scoped_def apply_mounts other_mounts_def list_all_iff scope_mount_public
      split: SandboxRepoCacheAccess.split)

lemma apply_backend_capabilities:
  "sp_capabilities (apply_sandbox_capabilities c s) =
     \<lparr>cap_repo_cache = access_for_backend (repo_cache c), cap_observability_enabled = observability_enabled c\<rparr>"
  by (simp add: apply_sandbox_capabilities_def Let_def split: SandboxRepoCacheAccess.split)

lemma public_skill_dirs_cong:
  "env_values CENTAUR_PUBLIC_SKILL_DIRS_ENV s' = env_values CENTAUR_PUBLIC_SKILL_DIRS_ENV s \<Longrightarrow>
   public_skill_dirs s' = public_skill_dirs s"
  by (simp add: public_skill_dirs_def)

lemma apply_env_values:
  assumes "distinct_env s"
  shows "env_values n (apply_sandbox_capabilities c s) =
     (if n = CENTAUR_PUBLIC_SKILL_DIRS_ENV then []
      else if n = CENTAUR_SKILL_DIRS_ENV
      then (case repo_cache c of CacheNone \<Rightarrow> [] | CachePublic \<Rightarrow> public_skill_dirs s | CacheAll \<Rightarrow> env_values n s)
      else if n = ''CENTAUR_SANDBOX_REPO_CACHE_ACCESS'' then [repo_cache_as_str (repo_cache c)]
      else if n = ''CENTAUR_SANDBOX_REPO_CACHE_ENABLED'' then [bool_text (repo_cache_enabled (repo_cache c))]
      else env_values n s)"
proof -
  have names: "CENTAUR_SKILL_DIRS_ENV \<noteq> ''CENTAUR_SANDBOX_REPO_CACHE_ACCESS''" "CENTAUR_SKILL_DIRS_ENV \<noteq> ''CENTAUR_SANDBOX_REPO_CACHE_ENABLED''"
    "CENTAUR_PUBLIC_SKILL_DIRS_ENV \<noteq> ''CENTAUR_SANDBOX_REPO_CACHE_ACCESS''"
    "CENTAUR_PUBLIC_SKILL_DIRS_ENV \<noteq> ''CENTAUR_SANDBOX_REPO_CACHE_ENABLED''"
    by (simp_all add: CENTAUR_SKILL_DIRS_ENV_def CENTAUR_PUBLIC_SKILL_DIRS_ENV_def)
  show ?thesis
    using names names [symmetric]
    by (auto simp: apply_sandbox_capabilities_def Let_def scope_skill_values distinct_env_tl [OF assms]
        public_skill_dirs_def split: SandboxRepoCacheAccess.split)
qed

text \<open>A spec with one entry per variable, once a principal's capabilities are applied: without repository
  access it mounts no repositories and names no skill directories; with public access its repository mounts
  show the public subtree only and its skill directories are the configured public ones; with full access both
  stay. Mounts elsewhere stay, the list of public directories is never passed on, and the access the sandbox is
  told, in its environment and by its backend capabilities, is the principal's.\<close>

lemma capabilities_scope_spec:
  assumes "distinct_env spec"
  shows "let s = apply_sandbox_capabilities c spec in
    repos_scoped (repo_cache c) s \<and> other_mounts s = other_mounts spec \<and>
    env_values CENTAUR_SKILL_DIRS_ENV s =
      (case repo_cache c of CacheNone \<Rightarrow> [] | CachePublic \<Rightarrow> public_skill_dirs spec
       | CacheAll \<Rightarrow> env_values CENTAUR_SKILL_DIRS_ENV spec) \<and>
    env_values CENTAUR_PUBLIC_SKILL_DIRS_ENV s = [] \<and>
    env_values ''CENTAUR_SANDBOX_REPO_CACHE_ACCESS'' s = [repo_cache_as_str (repo_cache c)] \<and>
    cap_repo_cache (sp_capabilities s) = access_for_backend (repo_cache c)"
proof -
  have "other_mounts (apply_sandbox_capabilities c spec) = other_mounts spec"
    by (simp add: other_mounts_def apply_mounts other_mounts_scoped split: SandboxRepoCacheAccess.split)
  moreover have "''CENTAUR_SANDBOX_REPO_CACHE_ACCESS'' \<noteq> CENTAUR_SKILL_DIRS_ENV"
    "''CENTAUR_SANDBOX_REPO_CACHE_ACCESS'' \<noteq> CENTAUR_PUBLIC_SKILL_DIRS_ENV"
    by (simp_all add: CENTAUR_SKILL_DIRS_ENV_def CENTAUR_PUBLIC_SKILL_DIRS_ENV_def)
  ultimately show ?thesis
    by (simp add: Let_def apply_scoped apply_backend_capabilities apply_env_values [OF assms])
qed

section \<open>Choosing a persona\<close>

lemma find_None_all: "find P xs = None \<Longrightarrow> x \<in> set xs \<Longrightarrow> \<not> P x"
  by (simp add: find_None_iff)

text \<open>A persona registry that is accepted has its default persona, and a model for every harness one of its
  personas pins: a session moved to a pinned harness always has a model to run there.\<close>

theorem registry_pins_model:
  assumes "registry_new dbg ps default_id chain = Inr reg"
  shows "(\<forall>d. reg_default_persona_id reg = Some d \<longrightarrow> registry_get reg d \<noteq> None) \<and>
    (\<forall>i h. harness_for reg i = Some h \<longrightarrow> model_for reg i h \<noteq> None)"
proof -
  let ?m = "fold (\<lambda>p. btree_insert (pd_id p) p) ps []"
  have reg: "personas reg = ?m" "reg_default_persona_id reg = default_id" "find pins_without_model (map snd ?m) = None"
    and d: "\<forall>d. default_id = Some d \<longrightarrow> map_of ?m d \<noteq> None"
    using assms by (auto simp: registry_new_def Let_def split: option.splits if_splits)
  have "model_for reg i h \<noteq> None" if pin: "harness_for reg i = Some h" for i h
  proof -
    obtain p where p: "map_of ?m i = Some p" "pd_harness p = Some h"
      using pin reg(1) by (auto simp: harness_for_def registry_get_def bind_eq_Some_conv)
    then have "p \<in> set (map snd ?m)" using map_of_SomeD [OF p(1)] by force
    then have "\<not> pins_without_model p" by (rule find_None_all [OF reg(3)])
    then show ?thesis using p reg(1) by (simp add: model_for_def registry_get_def pins_without_model_def)
  qed
  then show ?thesis using d reg by (simp add: registry_get_def)
qed

definition persona_context :: "PersonaRegistry \<Rightarrow> PersonaDefinition \<Rightarrow> bool \<Rightarrow> PersonaContext" where
  "persona_context reg p defaulted =
     \<lparr>pc_persona_id = pd_id p, pc_source_root = pd_source_root p, pc_source_path = pd_source_path p,
      pc_source_ref = pd_source_ref p, pc_prompt_hash = pd_prompt_hash p, pc_prompt = pd_prompt p,
      pc_defaulted = defaulted, pc_overlay_chain = overlay_chain reg\<rparr>"

lemma resolve_registered:
  "registry_get reg i = Some p \<Longrightarrow>
   resolve_persona_context dbg (Some reg) (Some i) defaulted c =
     (if persona_allowed_for_access reg p (repo_cache c) then Inr (Some (persona_context reg p defaulted))
      else Inl (BadRequest (''persona '' @ dbg i @ '' is not available for public sandbox repo-cache access'')))"
  by (simp add: resolve_persona_context_def context_for_access_def persona_context_def)

lemma resolve_allowed:
  "resolve_persona_context dbg (Some reg) (Some i) defaulted c = Inr (Some ctx) \<Longrightarrow>
   \<exists>p. registry_get reg i = Some p \<and> persona_allowed_for_access reg p (repo_cache c) \<and> ctx = persona_context reg p defaulted"
proof (cases "registry_get reg i")
  case None
  then show "resolve_persona_context dbg (Some reg) (Some i) defaulted c = Inr (Some ctx) \<Longrightarrow> ?thesis"
    by (simp add: resolve_persona_context_def context_for_access_def)
qed (simp add: resolve_registered split: if_splits)

lemma default_allowed:
  "default_persona_id_for_access reg a = Some d \<Longrightarrow>
   \<exists>p. registry_get reg d = Some p \<and> persona_allowed_for_access reg p a"
  by (auto simp: default_persona_id_for_access_def bind_eq_Some_conv split: if_splits)

lemma fallback_selection:
  assumes "case Option.bind request clean_persona_id of None \<Rightarrow> True | Some i \<Rightarrow> registry_get reg i = None"
  shows "\<exists>r. resolve_persona_selection dbg (Some reg) request c = Inr r \<and>
    unavailable_requested_persona_id r = Option.bind request clean_persona_id \<and>
    resolved_persona_id r = default_persona_id_for_access reg (repo_cache c) \<and>
    (case resolved_persona_id r of
       None \<Rightarrow> resolved_context r = None
     | Some i \<Rightarrow> \<exists>p. registry_get reg i = Some p \<and> persona_allowed_for_access reg p (repo_cache c) \<and>
         resolved_context r = Some (persona_context reg p (Some i \<noteq> Option.bind request clean_persona_id)))"
proof (cases "default_persona_id_for_access reg (repo_cache c)")
  case None
  then show ?thesis
    using assms
    by (cases "Option.bind request clean_persona_id")
      (simp_all add: resolve_persona_selection_def Let_def resolve_persona_context_def)
next
  case (Some d)
  then obtain p where "registry_get reg d = Some p" "persona_allowed_for_access reg p (repo_cache c)"
    using default_allowed by blast
  then show ?thesis
    using assms Some
    by (cases "Option.bind request clean_persona_id")
      (auto simp: resolve_persona_selection_def Let_def resolve_registered)
qed

text \<open>Choosing the persona of a new session fails exactly when the requested persona is registered but comes
  from a source that is not public while the session's repository access is. Otherwise a registered persona that
  is requested is the one chosen; an unknown one is reported and the default takes its place if the access allows
  it; and a chosen persona is always registered, allowed for the access, and the one whose prompt is used.\<close>

lemma persona_selection_spec:
  "case resolve_persona_selection dbg (Some reg) request c of
     Inl e \<Rightarrow> \<exists>i p. Option.bind request clean_persona_id = Some i \<and> registry_get reg i = Some p \<and>
       repo_cache c = CachePublic \<and> pd_source_root p \<notin> public_source_roots reg
   | Inr r \<Rightarrow>
       (case Option.bind request clean_persona_id of
          None \<Rightarrow> unavailable_requested_persona_id r = None \<and>
            resolved_persona_id r = default_persona_id_for_access reg (repo_cache c)
        | Some i \<Rightarrow>
            if registry_get reg i = None
            then unavailable_requested_persona_id r = Some i \<and>
              resolved_persona_id r = default_persona_id_for_access reg (repo_cache c)
            else unavailable_requested_persona_id r = None \<and> resolved_persona_id r = Some i) \<and>
       (case resolved_persona_id r of
          None \<Rightarrow> resolved_context r = None
        | Some i \<Rightarrow> \<exists>p ctx. registry_get reg i = Some p \<and> resolved_context r = Some ctx \<and> pc_prompt ctx = pd_prompt p \<and>
            pc_source_root ctx = pd_source_root p \<and> persona_allowed_for_access reg p (repo_cache c) \<and>
            (pc_defaulted ctx \<longleftrightarrow> Some i \<noteq> Option.bind request clean_persona_id))"
proof (cases "case Option.bind request clean_persona_id of None \<Rightarrow> True | Some i \<Rightarrow> registry_get reg i = None")
  case True
  obtain r where "resolve_persona_selection dbg (Some reg) request c = Inr r"
    "unavailable_requested_persona_id r = Option.bind request clean_persona_id"
    "resolved_persona_id r = default_persona_id_for_access reg (repo_cache c)"
    "case resolved_persona_id r of
       None \<Rightarrow> resolved_context r = None
     | Some i \<Rightarrow> \<exists>p. registry_get reg i = Some p \<and> persona_allowed_for_access reg p (repo_cache c) \<and>
         resolved_context r = Some (persona_context reg p (Some i \<noteq> Option.bind request clean_persona_id))"
    using fallback_selection [OF True, of dbg c] by blast
  then show ?thesis
    using True by (cases "default_persona_id_for_access reg (repo_cache c)"; cases "Option.bind request clean_persona_id") (auto simp: persona_context_def)
next
  case False
  then obtain i p where "Option.bind request clean_persona_id = Some i" "registry_get reg i = Some p"
    by (auto split: option.splits)
  then show ?thesis
    by (simp add: resolve_persona_selection_def Let_def resolve_registered persona_context_def persona_allowed_for_access_def)
qed

section \<open>Examples\<close>

definition example_workload :: SandboxWorkloadMode where
  "example_workload =
     \<lparr>wm_image = ''agent:1'', wm_env = [(CENTAUR_SKILL_DIRS_ENV, ''/skills/all''), (CENTAUR_PUBLIC_SKILL_DIRS_ENV, ''/skills/public '')],
      wm_mounts = [\<lparr>mount_kind = Bind ''/var/repos/'', mount_target_path = SANDBOX_REPOS_MOUNT_PATH, mount_read_only = True,
        mount_sub_path = None\<rparr>],
      wm_resources = None, wm_harness = Codex\<rparr>"

definition example_persona :: PersonaDefinition where
  "example_persona = \<lparr>pd_id = ''eng'', pd_source_root = ''org'', pd_source_path = ''p/eng.md'', pd_source_ref = None,
     pd_prompt_hash = ''h'', pd_prompt = ''be brief'', pd_models = [(harness_type_as_ref ClaudeCode, ''opus'')], pd_harness = Some ClaudeCode\<rparr>"

lemma example_workload_distinct: "distinct_env (workload_spec example_workload ''slack:C1:1.5'' Codex None)"
  by code_simp

end
