(* ===== verification/Session_Start.thy ===== *)
theory Session_Start
  imports Sandbox_Setup Warm_Pool
begin

text \<open>
  Opening a session and getting its sandbox in \<^verbatim>\<open>crates/centaur-session-runtime/src/lib.rs\<close>:
  \<^verbatim>\<open>create_or_get_session\<close> with its harness switch, \<^verbatim>\<open>ensure_session_sandbox\<close> with the capacity
  gate. The state is the store's database, the backend's state and the open pipes with the lines written to
  them; a call returns the state it reached beside its result. The runtime's own fields, the clock and the answers
  of iron-control are in \<open>runtime_env\<close>; spans, logs and metrics are left out.
\<close>

section \<open>State and calls\<close>

datatype SessionPrincipalAdmission = Automatic | Preapproved

definition create_if_missing :: "SessionPrincipalAdmission \<Rightarrow> bool" where
  "create_if_missing a \<longleftrightarrow> a = Automatic"

record 'b runtime_env =
  rt_pool :: "'b pool_env"
  rt_spec_factory :: "string \<Rightarrow> string \<Rightarrow> HarnessType \<Rightarrow> PersonaContext option \<Rightarrow> SandboxSpec"
  rt_personas :: "PersonaRegistry option"
  rt_warm_keys :: "(HarnessType \<times> SandboxRepoCacheAccess \<times> string) list option"
  rt_max_running :: "nat option"
  rt_register_session :: "string \<Rightarrow> json \<Rightarrow> bool \<Rightarrow> string + Principal"
  rt_get_principal :: "string \<Rightarrow> string + Principal"
  rt_admission :: SessionPrincipalAdmission
  rt_ready_duration :: duration
  rt_startup_duration :: duration

abbreviation rt_backend :: "'b runtime_env \<Rightarrow> 'b SandboxBackend" where
  "rt_backend ev \<equiv> pe_backend (rt_pool ev)"

abbreviation rt_now :: "'b runtime_env \<Rightarrow> time" where
  "rt_now ev \<equiv> pe_now (rt_pool ev)"

abbreviation rt_debug :: "'b runtime_env \<Rightarrow> string \<Rightarrow> string" where
  "rt_debug ev \<equiv> pe_debug (rt_pool ev)"

record 'b runtime_state =
  st_db :: db
  st_backend :: 'b
  st_pipes :: "string \<rightharpoonup> string list"

type_synonym ('b, 'a) rt = "'b runtime_state \<Rightarrow> 'b runtime_state \<times> 'a runtime_result"

definition rt_return :: "'a \<Rightarrow> ('b, 'a) rt" where
  "rt_return a st = (st, Inr a)"

definition rt_fail :: "SessionRuntimeError \<Rightarrow> ('b, 'a) rt" where
  "rt_fail e st = (st, Inl e)"

definition rt_result :: "'a runtime_result \<Rightarrow> ('b, 'a) rt" where
  "rt_result r st = (st, r)"

definition rt_bind :: "('b, 'a) rt \<Rightarrow> ('a \<Rightarrow> ('b, 'c) rt) \<Rightarrow> ('b, 'c) rt" where
  "rt_bind m f st = (case m st of (st', Inl e) \<Rightarrow> (st', Inl e) | (st', Inr a) \<Rightarrow> f a st')"

definition store_op :: "(db \<Rightarrow> db \<times> 'a store_result) \<Rightarrow> ('b, 'a) rt" where
  "store_op f st =
     (case f (st_db st) of (db', r) \<Rightarrow> (st\<lparr>st_db := db'\<rparr>, case r of Inl e \<Rightarrow> Inl (Store e) | Inr a \<Rightarrow> Inr a))"

definition store_read :: "(db \<Rightarrow> 'a store_result) \<Rightarrow> ('b, 'a) rt" where
  "store_read f = store_op (\<lambda>db. (db, f db))"

text \<open>A store call whose error is logged and dropped.\<close>

definition store_quiet :: "(db \<Rightarrow> db \<times> 'a) \<Rightarrow> ('b, unit) rt" where
  "store_quiet f st = (st\<lparr>st_db := fst (f (st_db st))\<rparr>, Inr ())"

text \<open>A backend call, its result kept as a value or turned into the runtime's error.\<close>

definition backend_try :: "('b, 'a) backend_call \<Rightarrow> ('b, 'a sandbox_result) rt" where
  "backend_try c st = (case c (st_backend st) of (b', r) \<Rightarrow> (st\<lparr>st_backend := b'\<rparr>, Inr r))"

definition backend_op :: "('b, 'a) backend_call \<Rightarrow> ('b, 'a) rt" where
  "backend_op c = rt_bind (backend_try c) (\<lambda>r. case r of Inl e \<Rightarrow> rt_fail (Sandbox e) | Inr a \<Rightarrow> rt_return a)"

definition rt_try :: "('b, 'a) rt \<Rightarrow> ('b, 'a runtime_result) rt" where
  "rt_try m st = (case m st of (st', r) \<Rightarrow> (st', Inr r))"

definition remove_pipe :: "string \<Rightarrow> ('b, unit) rt" where
  "remove_pipe sandbox_id st = (st\<lparr>st_pipes := (st_pipes st)(sandbox_id := None)\<rparr>, Inr ())"

section \<open>Capacity\<close>

definition running_slot_count :: "'b runtime_env \<Rightarrow> ('b, nat) rt" where
  "running_slot_count ev =
     rt_bind (backend_op (list_observed (rt_backend ev))) (\<lambda>observed.
     rt_bind (store_read (\<lambda>db. Inr (list_ready_warm_sandbox_ids db))) (\<lambda>ready_warm.
       rt_return (length (filter (\<lambda>ob. status_consumes_running_slot (o_status ob) \<and> o_id ob \<notin> set ready_warm) observed))))"

definition run_with_running_capacity :: "'b runtime_env \<Rightarrow> string \<Rightarrow> ('b, 'a) rt \<Rightarrow> ('b, 'a) rt" where
  "run_with_running_capacity ev operation action =
     (case rt_max_running ev of
        None \<Rightarrow> action
      | Some max_running \<Rightarrow>
          rt_bind (running_slot_count ev) (\<lambda>running.
            if max_running \<le> running then rt_fail (CapacityExceeded max_running running operation) else action))"

section \<open>The sandbox of a session\<close>

record EnsureSessionSandboxRequest =
  eq_thread_key :: string
  eq_harness_type :: HarnessType
  eq_persona_id :: "string option"
  eq_existing_sandbox_id :: "string option"
  eq_existing_sandbox_capabilities :: "SandboxCapabilities option"
  eq_iron_control_principal :: "string option"
  eq_requester_principal :: "string option"
  eq_proxy_labels :: labels
  eq_desired_capabilities :: SandboxCapabilities
  eq_execution_id :: string

definition capabilities_json :: "SandboxCapabilities \<Rightarrow> json" where
  "capabilities_json c =
     JObj [(''repo_cache'', JStr (repo_cache_as_str (repo_cache c))), (''observability_enabled'', JBool (observability_enabled c))]"

definition opt_capabilities_json :: "SandboxCapabilities option \<Rightarrow> json" where
  "opt_capabilities_json c = (case c of None \<Rightarrow> JNull | Some c \<Rightarrow> capabilities_json c)"

definition resolve_stored_persona ::
  "'b runtime_env \<Rightarrow> string option \<Rightarrow> SandboxCapabilities \<Rightarrow> PersonaContext option runtime_result" where
  "resolve_stored_persona ev persona_id capabilities =
     resolve_persona_context (rt_debug ev) (rt_personas ev) (Option.bind persona_id clean_persona_id) False capabilities"

definition record_sandbox_ready ::
  "'b runtime_env \<Rightarrow> EnsureSessionSandboxRequest \<Rightarrow> string \<Rightarrow> string \<Rightarrow> duration option \<Rightarrow> ('b, unit) rt" where
  "record_sandbox_ready ev rq sandbox_id source startup_duration =
     rt_bind (store_quiet (touch_sandbox_activity (rt_now ev) (eq_thread_key rq) sandbox_id)) (\<lambda>_.
     store_quiet (append_event (rt_now ev) (eq_thread_key rq) (Some (eq_execution_id rq)) ''session.sandbox_ready''
       (JObj [(''execution_id'', JStr (eq_execution_id rq)), (''thread_key'', JStr (eq_thread_key rq)),
         (''sandbox_id'', JStr sandbox_id), (''harness_type'', JStr (harness_type_as_ref (eq_harness_type rq))),
         (''sandbox_ready_source'', JStr source),
         (''sandbox_ready_duration_ms'', JNat (duration_millis_u64 (rt_ready_duration ev))),
         (''sandbox_startup_duration_ms'', JNat (case startup_duration of None \<Rightarrow> 0 | Some d \<Rightarrow> duration_millis_u64 d)),
         (''sandbox_started_for_request'', JBool (startup_duration \<noteq> None))])))"

text \<open>\<^verbatim>\<open>manager.stop\<close> where a sandbox that is gone already is fine.\<close>

definition stop_or_missing :: "'b runtime_env \<Rightarrow> string \<Rightarrow> ('b, unit) rt" where
  "stop_or_missing ev sandbox_id =
     rt_bind (backend_try (manager_stop (rt_backend ev) sandbox_id)) (\<lambda>r.
       case r of Inr _ \<Rightarrow> rt_return () | Inl (SbNotFound _) \<Rightarrow> rt_return () | Inl e \<Rightarrow> rt_fail (Sandbox e))"

definition ensure_proxy :: "'b runtime_env \<Rightarrow> EnsureSessionSandboxRequest \<Rightarrow> string \<Rightarrow> ('b, unit) rt" where
  "ensure_proxy ev rq sandbox_id =
     (case eq_iron_control_principal rq of
        None \<Rightarrow> rt_return ()
      | Some principal_id \<Rightarrow>
          backend_op (ensure_iron_control_proxy_resources (rt_backend ev) sandbox_id principal_id
            (eq_requester_principal rq) (eq_proxy_labels rq)))"

definition replace_capabilities :: "'b runtime_env \<Rightarrow> EnsureSessionSandboxRequest \<Rightarrow> string \<Rightarrow> ('b, unit) rt" where
  "replace_capabilities ev rq sandbox_id =
     rt_bind (remove_pipe sandbox_id) (\<lambda>_.
     rt_bind (stop_or_missing ev sandbox_id) (\<lambda>_.
     rt_bind (store_op (update_sandbox_id (rt_now ev) (eq_thread_key rq) None)) (\<lambda>_.
     rt_bind (store_op (append_event (rt_now ev) (eq_thread_key rq) (Some (eq_execution_id rq))
         ''session.sandbox_capabilities_replaced''
         (JObj [(''execution_id'', JStr (eq_execution_id rq)), (''thread_key'', JStr (eq_thread_key rq)),
           (''sandbox_id'', JStr sandbox_id),
           (''previous_capabilities'', opt_capabilities_json (eq_existing_sandbox_capabilities rq)),
           (''desired_capabilities'', capabilities_json (eq_desired_capabilities rq))]))) (\<lambda>_.
     rt_return ()))))"

definition resume_event :: "EnsureSessionSandboxRequest \<Rightarrow> string \<Rightarrow> (string \<times> json) list" where
  "resume_event rq sandbox_id =
     [(''execution_id'', JStr (eq_execution_id rq)), (''thread_key'', JStr (eq_thread_key rq)), (''sandbox_id'', JStr sandbox_id)]"

text \<open>The existing sandbox, if it can serve the turn: \<open>Some\<close> its id, or \<open>None\<close> to get another one.\<close>

definition resume_existing :: "'b runtime_env \<Rightarrow> EnsureSessionSandboxRequest \<Rightarrow> string \<Rightarrow> ('b, string option) rt" where
  "resume_existing ev rq sandbox_id =
     rt_bind (remove_pipe sandbox_id) (\<lambda>_.
     rt_bind (rt_try (run_with_running_capacity ev ''resume'' (backend_op (manager_resume (rt_backend ev) sandbox_id)))) (\<lambda>r.
       case r of
         Inr _ \<Rightarrow>
           rt_bind (ensure_proxy ev rq sandbox_id) (\<lambda>_.
           rt_bind (store_op (append_event (rt_now ev) (eq_thread_key rq) (Some (eq_execution_id rq)) ''session.sandbox_resumed''
             (JObj (resume_event rq sandbox_id)))) (\<lambda>_.
           rt_bind (record_sandbox_ready ev rq sandbox_id ''resumed'' None) (\<lambda>_.
           rt_return (Some sandbox_id))))
       | Inl (Sandbox e) \<Rightarrow>
           rt_bind (store_op (append_event (rt_now ev) (eq_thread_key rq) (Some (eq_execution_id rq)) ''session.sandbox_resume_failed''
             (JObj (resume_event rq sandbox_id @ [(''error'', JStr (sandbox_error_message e))])))) (\<lambda>_.
           rt_return None)
       | Inl e \<Rightarrow> rt_fail e))"

definition use_existing :: "'b runtime_env \<Rightarrow> EnsureSessionSandboxRequest \<Rightarrow> string \<Rightarrow> ('b, string option) rt" where
  "use_existing ev rq sandbox_id =
     rt_bind (backend_try (manager_status (rt_backend ev) sandbox_id)) (\<lambda>r.
       case r of
         Inr status \<Rightarrow>
           (case existing_sandbox_action status of
              Reuse \<Rightarrow>
                rt_bind (ensure_proxy ev rq sandbox_id) (\<lambda>_.
                rt_bind (record_sandbox_ready ev rq sandbox_id ''reused'' None) (\<lambda>_.
                rt_return (Some sandbox_id)))
            | ResumeOrReplace \<Rightarrow> resume_existing ev rq sandbox_id
            | ReplaceSandbox \<Rightarrow> rt_return None)
       | Inl (SbNotFound _) \<Rightarrow> rt_return None
       | Inl e \<Rightarrow> rt_fail (Sandbox e))"

definition existing_sandbox :: "'b runtime_env \<Rightarrow> EnsureSessionSandboxRequest \<Rightarrow> ('b, string option) rt" where
  "existing_sandbox ev rq =
     (case eq_existing_sandbox_id rq of
        None \<Rightarrow> rt_return None
      | Some sandbox_id \<Rightarrow>
          if \<not> sandbox_capabilities_match (eq_existing_sandbox_capabilities rq) (eq_desired_capabilities rq)
          then rt_bind (replace_capabilities ev rq sandbox_id) (\<lambda>_. rt_return None)
          else use_existing ev rq sandbox_id)"

definition pool_workload_key ::
  "(HarnessType \<times> SandboxRepoCacheAccess \<times> string) list \<Rightarrow> HarnessType \<Rightarrow> SandboxRepoCacheAccess \<Rightarrow> string option" where
  "pool_workload_key ks harness access =
     map_option (\<lambda>(h, a, wk). wk) (find (\<lambda>(h, a, wk). h = harness \<and> a = access) ks)"

definition matching_pool ::
  "'b runtime_env \<Rightarrow> EnsureSessionSandboxRequest \<Rightarrow> SandboxBootMode \<Rightarrow> PersonaContext option \<Rightarrow> string option" where
  "matching_pool ev rq boot_mode persona =
     (case rt_warm_keys ev of
        None \<Rightarrow> None
      | Some ks \<Rightarrow>
          if uses_warm_pool boot_mode \<and> ks \<noteq> []
          then (if persona \<noteq> None then None
                else pool_workload_key ks (eq_harness_type rq) (repo_cache (eq_desired_capabilities rq)))
          else None)"

definition warm_claim_of :: "EnsureSessionSandboxRequest \<Rightarrow> WarmClaim" where
  "warm_claim_of rq =
     \<lparr>wc_thread_key = eq_thread_key rq, wc_iron_control_principal = eq_iron_control_principal rq,
      wc_requester_principal_id = eq_requester_principal rq, wc_proxy_labels = eq_proxy_labels rq,
      wc_observability_enabled = observability_enabled (eq_desired_capabilities rq)\<rparr>"

definition pool_try :: "'b runtime_env \<Rightarrow> string \<Rightarrow> WarmClaim \<Rightarrow> ('b, WarmPoolError + string option) rt" where
  "pool_try ev wk c st =
     (case pool_claim (rt_pool ev) wk c (st_db st) (st_backend st) of
        (db', b', r) \<Rightarrow> (st\<lparr>st_db := db', st_backend := b'\<rparr>, Inr r))"

definition claim_warm ::
  "'b runtime_env \<Rightarrow> EnsureSessionSandboxRequest \<Rightarrow> string option \<Rightarrow> ('b, string option) rt" where
  "claim_warm ev rq pool =
     (case pool of
        None \<Rightarrow> rt_return None
      | Some wk \<Rightarrow>
          rt_bind (pool_try ev wk (warm_claim_of rq)) (\<lambda>r.
            case r of
              Inr (Some sandbox_id) \<Rightarrow>
                rt_bind (store_op (update_sandbox_assignment (rt_now ev) (eq_thread_key rq) sandbox_id (eq_desired_capabilities rq))) (\<lambda>_.
                rt_bind (store_op (append_event (rt_now ev) (eq_thread_key rq) None ''session.warm_sandbox_claimed''
                  (JObj [(''sandbox_id'', JStr sandbox_id), (''workload_key'', JStr wk),
                    (''iron_control_principal'', opt_str (eq_iron_control_principal rq)),
                    (''requester_principal'', opt_str (eq_requester_principal rq)),
                    (''sandbox_capabilities'', capabilities_json (eq_desired_capabilities rq))]))) (\<lambda>_.
                rt_bind (record_sandbox_ready ev rq sandbox_id ''warm_pool'' None) (\<lambda>_.
                rt_return (Some sandbox_id))))
            | _ \<Rightarrow> rt_return None))"

definition cold_spec ::
  "'b runtime_env \<Rightarrow> EnsureSessionSandboxRequest \<Rightarrow> SandboxBootMode \<Rightarrow> PersonaContext option \<Rightarrow> SandboxSpec" where
  "cold_spec ev rq boot_mode persona =
     (let spec = rt_spec_factory ev (eq_thread_key rq) (eq_execution_id rq) (eq_harness_type rq) persona;
          spec1 =
            (case eq_iron_control_principal rq of
               None \<Rightarrow> spec
             | Some prn \<Rightarrow>
                 spec\<lparr>sp_iron_control_principal := Some prn, sp_iron_control_requester_principal := eq_requester_principal rq,
                      sp_iron_control_proxy_labels := eq_proxy_labels rq\<rparr>)
      in apply_sandbox_capabilities (eq_desired_capabilities rq) (apply_sandbox_boot_mode boot_mode spec1))"

definition create_cold :: "'b runtime_env \<Rightarrow> EnsureSessionSandboxRequest \<Rightarrow> SandboxSpec \<Rightarrow> ('b, string) rt" where
  "create_cold ev rq spec =
     rt_bind (run_with_running_capacity ev ''cold_create'' (backend_op (create_running (rt_backend ev) spec))) (\<lambda>handle.
     rt_bind (store_op (update_sandbox_assignment (rt_now ev) (eq_thread_key rq) (h_id handle) (eq_desired_capabilities rq))) (\<lambda>_.
     rt_bind (record_sandbox_ready ev rq (h_id handle) ''cold_create'' (Some (rt_startup_duration ev))) (\<lambda>_.
     rt_return (h_id handle))))"

definition ensure_session_sandbox :: "'b runtime_env \<Rightarrow> EnsureSessionSandboxRequest \<Rightarrow> ('b, string) rt" where
  "ensure_session_sandbox ev rq =
     (let boot_mode = sandbox_boot_mode_for_thread (eq_thread_key rq) (eq_iron_control_principal rq) in
      rt_bind (rt_result (resolve_stored_persona ev (eq_persona_id rq) (eq_desired_capabilities rq))) (\<lambda>persona.
      rt_bind (existing_sandbox ev rq) (\<lambda>existing.
        case existing of
          Some sandbox_id \<Rightarrow> rt_return sandbox_id
        | None \<Rightarrow>
            rt_bind (claim_warm ev rq (matching_pool ev rq boot_mode persona)) (\<lambda>warm.
              case warm of
                Some sandbox_id \<Rightarrow> rt_return sandbox_id
              | None \<Rightarrow> create_cold ev rq (cold_spec ev rq boot_mode persona)))))"

section \<open>Creating or loading a session\<close>

datatype HarnessConflictPolicy = Reject | Restart
record CreateOrGetSessionOutcome =
  out_session :: Session
  out_harness_switched :: bool
  out_unavailable_requested_persona_id :: "string option"

definition restart_session_on_harness ::
  "'b runtime_env \<Rightarrow> string \<Rightarrow> HarnessType \<Rightarrow> string \<Rightarrow> ('b, Session) rt" where
  "restart_session_on_harness ev thread_key harness_type previous_harness =
     rt_bind (store_read (\<lambda>db. get_session db thread_key)) (\<lambda>previous.
     rt_bind (case ses_sandbox_id previous of
         None \<Rightarrow> rt_return ()
       | Some sandbox_id \<Rightarrow> rt_bind (remove_pipe sandbox_id) (\<lambda>_. stop_or_missing ev sandbox_id)) (\<lambda>_.
     rt_bind (store_op (switch_session_harness (rt_now ev) thread_key harness_type)) (\<lambda>session.
     rt_bind (store_op (append_event (rt_now ev) thread_key None ''session.harness_switched''
       (JObj [(''thread_key'', JStr thread_key), (''from_harness'', JStr previous_harness),
         (''to_harness'', JStr (harness_type_as_ref harness_type)), (''stopped_sandbox_id'', opt_str (ses_sandbox_id previous))]))) (\<lambda>_.
     rt_return session))))"

definition register_principal ::
  "'b runtime_env \<Rightarrow> string \<Rightarrow> json \<Rightarrow> string option \<Rightarrow> SessionPrincipalAdmission \<Rightarrow> Principal runtime_result" where
  "register_principal ev thread_key metadata foreign_id admission =
     (case (case foreign_id of
              Some f \<Rightarrow> rt_get_principal ev f
            | None \<Rightarrow> rt_register_session ev thread_key metadata (create_if_missing admission)) of
        Inl e \<Rightarrow> Inl (IronControl e) | Inr prn \<Rightarrow> Inr prn)"

definition clean_foreign_id :: "string option \<Rightarrow> string option runtime_result" where
  "clean_foreign_id foreign_id =
     (case foreign_id of
        Some f \<Rightarrow> if trim f = [] then Inl (BadRequest ''principal must be a non-empty foreign ID'') else Inr (Some (trim f))
      | None \<Rightarrow> Inr None)"

text \<open>The session as it is stored, if it is: its persona and harness.\<close>

definition stored_choice :: "string \<Rightarrow> ('b, (string option \<times> HarnessType) option) rt" where
  "stored_choice thread_key st =
     (case get_session (st_db st) thread_key of
        Inr session \<Rightarrow> (st, Inr (Some (ses_persona_id session, ses_harness_type session)))
      | Inl (NotFound _) \<Rightarrow> (st, Inr None)
      | Inl e \<Rightarrow> (st, Inl (Store e)))"

definition choose_persona ::
  "'b runtime_env \<Rightarrow> (string option \<times> HarnessType) option \<Rightarrow> string option \<Rightarrow> SandboxCapabilities \<Rightarrow> PersonaResolution runtime_result" where
  "choose_persona ev existing persona_id capabilities =
     (case existing of
        Some (p, _) \<Rightarrow> Inr \<lparr>resolved_persona_id = p, resolved_context = None, unavailable_requested_persona_id = None\<rparr>
      | None \<Rightarrow> resolve_persona_selection (rt_debug ev) (rt_personas ev) persona_id capabilities)"

definition choose_harness ::
  "'b runtime_env \<Rightarrow> (string option \<times> HarnessType) option \<Rightarrow> string option \<Rightarrow> HarnessType \<Rightarrow> HarnessType" where
  "choose_harness ev existing persona_id requested =
     (case (case (persona_id, rt_personas ev) of (Some p, Some reg) \<Rightarrow> harness_for reg p | _ \<Rightarrow> None) of
        Some pinned \<Rightarrow> if map_option snd existing = Some requested then requested else pinned
      | None \<Rightarrow> requested)"

definition create_or_restart ::
  "'b runtime_env \<Rightarrow> string \<Rightarrow> HarnessType \<Rightarrow> string option \<Rightarrow> json \<Rightarrow> labels \<Rightarrow> HarnessConflictPolicy \<Rightarrow> ('b, bool) rt" where
  "create_or_restart ev thread_key harness_type persona_id metadata proxy_labels on_conflict =
     rt_bind (rt_try (store_op (create_or_get_session (rt_now ev) thread_key harness_type persona_id metadata proxy_labels))) (\<lambda>r.
       case r of
         Inr _ \<Rightarrow> rt_return False
       | Inl (Store (HarnessConflict k existing requested)) \<Rightarrow>
           if on_conflict = Restart
           then rt_bind (restart_session_on_harness ev thread_key harness_type existing) (\<lambda>_. rt_return True)
           else rt_fail (Store (HarnessConflict k existing requested))
       | Inl e \<Rightarrow> rt_fail e)"

definition record_persona ::
  "'b runtime_env \<Rightarrow> string \<Rightarrow> string option \<Rightarrow> PersonaContext option \<Rightarrow> ('b, unit) rt" where
  "record_persona ev thread_key requested context =
     (case context of
        None \<Rightarrow> rt_return ()
      | Some ctx \<Rightarrow>
          rt_bind (store_op (append_event (rt_now ev) thread_key None ''session.persona_resolved''
            (JObj [(''persona'', persona_context_json ctx), (''requested_persona_id'', opt_str requested),
              (''deployment_default_persona_id'', opt_str (Option.bind (rt_personas ev) reg_default_persona_id))]))) (\<lambda>_.
          rt_return ()))"

definition create_or_get_session_with_principal_admission ::
  "'b runtime_env \<Rightarrow> string \<Rightarrow> HarnessType \<Rightarrow> string option \<Rightarrow> json option \<Rightarrow> HarnessConflictPolicy \<Rightarrow> string option \<Rightarrow>
   SessionPrincipalAdmission \<Rightarrow> ('b, CreateOrGetSessionOutcome) rt" where
  "create_or_get_session_with_principal_admission ev thread_key requested_harness persona_id metadata on_conflict foreign_id admission =
     (let metadata0 = (case metadata of None \<Rightarrow> empty_object | Some m \<Rightarrow> m);
          proxy_labels = proxy_labels_from_session_metadata thread_key metadata0
      in
      rt_bind (rt_result (clean_foreign_id foreign_id)) (\<lambda>foreign.
      rt_bind (rt_result (register_principal ev thread_key metadata0 foreign admission)) (\<lambda>prn.
      rt_bind (stored_choice thread_key) (\<lambda>existing.
      rt_bind (rt_result (choose_persona ev existing persona_id (sandbox_capabilities_from_principal prn))) (\<lambda>resolution.
      rt_bind (create_or_restart ev thread_key
          (choose_harness ev existing (resolved_persona_id resolution) requested_harness) (resolved_persona_id resolution)
          (case resolved_context resolution of None \<Rightarrow> metadata0 | Some ctx \<Rightarrow> add_persona_metadata metadata0 ctx)
          proxy_labels on_conflict) (\<lambda>switched.
      rt_bind (store_op (bind_iron_control_principal (rt_now ev) thread_key (prn_id prn))) (\<lambda>session.
      rt_bind (rt_result (resolve_stored_persona ev (ses_persona_id session) (sandbox_capabilities_from_principal prn))) (\<lambda>ctx.
      rt_bind (record_persona ev thread_key persona_id ctx) (\<lambda>_.
      rt_return
        \<lparr>out_session = session, out_harness_switched = switched,
         out_unavailable_requested_persona_id =
           (if resolved_persona_id resolution = ses_persona_id session
            then unavailable_requested_persona_id resolution else None)\<rparr>)))))))))"

definition create_or_get_internal_session ::
  "'b runtime_env \<Rightarrow> string \<Rightarrow> HarnessType \<Rightarrow> string option \<Rightarrow> json option \<Rightarrow> HarnessConflictPolicy \<Rightarrow>
   ('b, CreateOrGetSessionOutcome) rt" where
  "create_or_get_internal_session ev thread_key h persona_id metadata on_conflict =
     create_or_get_session_with_principal_admission ev thread_key h persona_id metadata on_conflict None Automatic"

definition create_or_get_admitted_session ::
  "'b runtime_env \<Rightarrow> string \<Rightarrow> HarnessType \<Rightarrow> string option \<Rightarrow> json option \<Rightarrow> HarnessConflictPolicy \<Rightarrow>
   ('b, CreateOrGetSessionOutcome) rt" where
  "create_or_get_admitted_session ev thread_key h persona_id metadata on_conflict =
     create_or_get_session_with_principal_admission ev thread_key h persona_id metadata on_conflict None (rt_admission ev)"

definition create_or_get_session_with_principal ::
  "'b runtime_env \<Rightarrow> string \<Rightarrow> HarnessType \<Rightarrow> string option \<Rightarrow> json option \<Rightarrow> HarnessConflictPolicy \<Rightarrow> string option \<Rightarrow>
   ('b, CreateOrGetSessionOutcome) rt" where
  "create_or_get_session_with_principal ev thread_key h persona_id metadata on_conflict foreign_id =
     create_or_get_session_with_principal_admission ev thread_key h persona_id metadata on_conflict foreign_id Automatic"

section \<open>Relations a call keeps\<close>

lemma rt_bind_ok:
  "rt_bind m f st = (st', Inr c) \<longleftrightarrow> (\<exists>st1 a. m st = (st1, Inr a) \<and> f a st1 = (st', Inr c))"
  by (auto simp: rt_bind_def split: prod.split sum.split)

lemma rt_basic_ok [simp]:
  "rt_return a st = (st', Inr c) \<longleftrightarrow> st' = st \<and> c = a"
  "rt_result r st = (st', Inr c) \<longleftrightarrow> st' = st \<and> r = Inr c"
  "rt_fail e st \<noteq> (st', Inr c)"
  by (auto simp: rt_return_def rt_result_def rt_fail_def)

text \<open>Whatever a call returns, the database it leaves is related to the one it found.\<close>

definition call_keeps :: "(db \<Rightarrow> db \<Rightarrow> bool) \<Rightarrow> ('b, 'a) rt \<Rightarrow> bool" where
  "call_keeps R m \<longleftrightarrow> (\<forall>st. R (st_db st) (st_db (fst (m st))))"

lemma call_keepsD: "call_keeps R m \<Longrightarrow> m st = (st', r) \<Longrightarrow> R (st_db st) (st_db st')"
  by (metis call_keeps_def fst_conv)

text \<open>A reflexive and transitive relation is kept by calls that do not write and by compositions of calls that keep it.\<close>

locale call_relation =
  fixes R :: "db \<Rightarrow> db \<Rightarrow> bool"
  assumes refl: "R db db"
    and trans: "R db db' \<Longrightarrow> R db' db'' \<Longrightarrow> R db db''"
begin

lemma keeps_return [intro!]: "call_keeps R (rt_return a)" "call_keeps R (rt_fail e)" "call_keeps R (rt_result r)"
  "call_keeps R (backend_try c)" "call_keeps R (remove_pipe i)" "call_keeps R (store_read f)" "call_keeps R (stored_choice i)"
  by (auto simp: call_keeps_def rt_return_def rt_fail_def rt_result_def backend_try_def remove_pipe_def store_read_def store_op_def
      stored_choice_def refl split: prod.split sum.split SessionStoreError.split)

lemma keeps_bind:
  assumes "call_keeps R m" and "\<And>a. call_keeps R (f a)"
  shows "call_keeps R (rt_bind m f)"
  unfolding call_keeps_def
proof
  fix st
  obtain st1 r where m: "m st = (st1, r)" by fastforce
  have "R (st_db st) (st_db st1)" using assms(1) m by (rule call_keepsD)
  moreover have "R (st_db st1) (st_db (fst (f a st1)))" for a using assms(2) by (simp add: call_keeps_def)
  ultimately show "R (st_db st) (st_db (fst (rt_bind m f st)))"
    using m trans by (auto simp: rt_bind_def split: sum.split)
qed

lemma keeps_try: "call_keeps R m \<Longrightarrow> call_keeps R (rt_try m)"
  by (auto simp: call_keeps_def rt_try_def split: prod.split) (metis fst_conv)

lemma keeps_store: "(\<And>db. R db (fst (f db))) \<Longrightarrow> call_keeps R (store_op f)"
  by (auto simp: call_keeps_def store_op_def split: prod.split) (metis fst_conv)

lemma keeps_quiet: "(\<And>db. R db (fst (f db))) \<Longrightarrow> call_keeps R (store_quiet f)"
  by (simp add: call_keeps_def store_quiet_def)

lemma keeps_backend: "call_keeps R (backend_op c)"
  unfolding backend_op_def by (rule keeps_bind) (auto split: sum.split)

lemma keeps_capacity: "call_keeps R m \<Longrightarrow> call_keeps R (run_with_running_capacity ev op m)"
  unfolding run_with_running_capacity_def running_slot_count_def
  by (auto intro!: keeps_bind keeps_backend split: option.split)

end

text \<open>
  The contract of the store calls that serve a thread \<open>k\<close> (events, activity, warm sandboxes), and of those
  that open or reassign it.
\<close>

locale serve_relation = call_relation R for R +
  fixes k :: string
  assumes event: "R db (fst (append_event now k x ty pl db))"
    and touch: "R db (fst (touch_sandbox_activity now k sb db))"
    and claim: "R db (fst (claim_ready_warm_sandbox lk now wk k db))"
    and failed: "R db (mark_warm_sandbox_failed now sb e db)"
begin

lemma keeps_event: "call_keeps R (store_op (append_event now k x ty pl))" "call_keeps R (store_quiet (append_event now k x ty pl))"
  by (intro keeps_store keeps_quiet event)+

lemma keeps_ready:
  assumes "eq_thread_key rq = k"
  shows "call_keeps R (record_sandbox_ready ev rq i source d)"
  unfolding record_sandbox_ready_def assms by (auto intro!: keeps_bind keeps_event(2) keeps_quiet touch)

lemma keeps_proxy: "call_keeps R (ensure_proxy ev rq i)"
  unfolding ensure_proxy_def by (auto intro: keeps_backend split: option.split)

lemma keeps_stop: "call_keeps R (stop_or_missing ev i)"
  unfolding stop_or_missing_def by (rule keeps_bind) (auto split: sum.split SandboxError.split)

lemma keeps_pool_claim: "wc_thread_key c = k \<Longrightarrow> R db (fst (pool_claim ev wk c db b))"
proof (induction ev wk c db b rule: pool_claim.induct)
  case (1 ev wk c db b)
  obtain db1 r where cl: "claim_ready_warm_sandbox (pe_locked ev) (pe_now ev) wk (wc_thread_key c) db = (db1, r)" by fastforce
  have c1: "R db db1" using claim [of db "pe_locked ev" "pe_now ev" wk] cl 1(2) by simp
  have step: "R db (mark_warm_sandbox_failed (pe_now ev) i e db1)" for i e using c1 failed by (rule trans)
  show ?case
  proof (cases "\<exists>i b1 f. r = Inr (Some i) \<and> check_claimed ev c i b = (b1, Skipped f)")
    case True
    then obtain i b1 f where r: "r = Inr (Some i)" "check_claimed ev c i b = (b1, Skipped f)" by blast
    then have "R (mark_warm_sandbox_failed (pe_now ev) i f db1) (fst (pool_claim ev wk c (mark_warm_sandbox_failed (pe_now ev) i f db1) b1))"
      using 1(1) cl 1(2) by metis
    then show ?thesis
      using r cl trans [OF step] by (simp add: pool_claim.simps [of ev wk c db b])
  next
    case False
    then show ?thesis
      using cl c1 step by (auto simp: pool_claim.simps [of ev wk c db b] split: sum.split option.split prod.split claim_round.split)
  qed
qed

lemma keeps_pool:
  assumes "wc_thread_key c = k"
  shows "call_keeps R (pool_try ev wk c)"
  by (simp add: call_keeps_def pool_try_def case_prod_beta keeps_pool_claim [OF assms])

lemma keeps_use_existing:
  assumes "eq_thread_key rq = k"
  shows "call_keeps R (use_existing ev rq i)"
  unfolding use_existing_def resume_existing_def assms
  by (auto intro!: keeps_bind keeps_proxy keeps_ready [OF assms] keeps_try keeps_capacity keeps_backend keeps_event
      split: sum.split SandboxError.split ExistingSandboxAction.split SessionRuntimeError.split)

end

locale start_relation = serve_relation +
  assumes assign: "R db (fst (update_sandbox_assignment now k sb c db))"
    and clear: "R db (fst (update_sandbox_id now k None db))"
    and switch: "R db (fst (switch_session_harness now k h db))"
    and create: "R db (fst (create_or_get_session now k h p m l db))"
    and bind: "R db (fst (bind_iron_control_principal now k prn db))"
begin

lemma keeps_ensure:
  assumes "eq_thread_key rq = k"
  shows "call_keeps R (ensure_session_sandbox ev rq)"
  unfolding ensure_session_sandbox_def Let_def existing_sandbox_def replace_capabilities_def claim_warm_def create_cold_def assms
  by (auto intro!: keeps_bind keeps_use_existing [OF assms] keeps_stop keeps_store clear assign event keeps_event keeps_ready [OF assms] keeps_pool
      keeps_capacity keeps_backend simp: warm_claim_of_def assms split: option.split sum.split)

lemma keeps_restart: "call_keeps R (restart_session_on_harness ev k h old)"
  unfolding restart_session_on_harness_def
  by (auto intro!: keeps_bind keeps_stop keeps_store switch event split: option.split)

lemma keeps_create: "call_keeps R (create_or_restart ev k h p m l policy)"
  unfolding create_or_restart_def
  by (auto intro!: keeps_bind keeps_try keeps_store create keeps_restart
      split: sum.split SessionRuntimeError.split SessionStoreError.split)

lemma keeps_open: "call_keeps R (create_or_get_session_with_principal_admission ev k h p m policy f a)"
  unfolding create_or_get_session_with_principal_admission_def Let_def record_persona_def
  by (auto intro!: keeps_bind keeps_create keeps_store bind event split: option.split)

end

section \<open>Runs of the store, assignments and identities\<close>

interpretation started: start_relation "\<lambda>db db'. thread_key_parse k = Inr k \<longrightarrow> guarded_step\<^sup>*\<^sup>* db db'" k for k
proof (unfold_locales, goal_cases)
  case (2 db db' db'')
  then show ?case by (metis rtranclp_trans)
qed (auto intro!: r_into_rtranclp guarded_step.intros)

text \<open>The sandbox columns of a thread stay, and what a thread is bound to for good.\<close>

abbreviation session_row_of :: "db \<Rightarrow> string \<Rightarrow> session_row option" where
  "session_row_of db k \<equiv> row_by s_thread_key k (sessions db)"

definition sandbox_columns :: "session_row \<Rightarrow> string option \<times> SandboxCapabilities option" where
  "sandbox_columns r = (s_sandbox_id r, row_capabilities r)"

definition same_sandbox :: "string \<Rightarrow> db \<Rightarrow> db \<Rightarrow> bool" where
  "same_sandbox k db db' \<longleftrightarrow> map_option sandbox_columns (session_row_of db' k) = map_option sandbox_columns (session_row_of db k)"

definition identity_kept :: "session_row \<Rightarrow> session_row \<Rightarrow> bool" where
  "identity_kept r r' \<longleftrightarrow> s_persona_id r' = s_persona_id r \<and>
     (s_iron_control_principal r = None \<or> s_iron_control_principal r' = s_iron_control_principal r)"

definition same_identity :: "string \<Rightarrow> db \<Rightarrow> db \<Rightarrow> bool" where
  "same_identity k db db' \<longleftrightarrow>
     (case session_row_of db k of None \<Rightarrow> True
      | Some r \<Rightarrow> (case session_row_of db' k of None \<Rightarrow> False | Some r' \<Rightarrow> identity_kept r r'))"

lemma sessions_frames [simp]:
  "sessions (fst (append_event now k x ty pl db)) = sessions db"
  "sessions (fst (claim_ready_warm_sandbox lk now wk k db)) = sessions db"
  "sessions (mark_warm_sandbox_failed now sb e db) = sessions db"
  by (auto simp: append_event_def insert_session_event_def use_event_id_def claim_ready_warm_sandbox_def mark_warm_sandbox_failed_def
      upd_warm_def Let_def case_prod_beta split: option.split)

lemma sandbox_columns_touch [simp]: "sandbox_columns (touch_f now r) = sandbox_columns r"
  by (simp add: sandbox_columns_def touch_f_def row_capabilities_def split: option.split)

interpretation serving: serve_relation "same_sandbox k" k for k
  by unfold_locales
    (auto simp: same_sandbox_def touch_sandbox_activity_def touch_sandbox.row_after case_prod_beta option.map_comp comp_def
      if_distrib [of sandbox_columns] cong: if_cong)

lemma same_identity_update:
  assumes "session_update p f" and "\<And>r. p r \<Longrightarrow> identity_kept r (f r)"
  shows "same_identity k db (fst (upd_sessions p f db))"
  using assms(2) keyed_update.row_after [OF session_update.axioms(1) [OF assms(1)], of k "sessions db"]
  by (auto simp: same_identity_def identity_kept_def split: option.split)

lemma same_identity_refl: "same_identity k db db"
  by (simp add: same_identity_def identity_kept_def split: option.split)

lemma same_identity_trans: "same_identity k db db' \<Longrightarrow> same_identity k db' db'' \<Longrightarrow> same_identity k db db''"
  by (auto simp: same_identity_def identity_kept_def split: option.splits)

lemma same_identity_sessions: "sessions db' = sessions db \<Longrightarrow> same_identity k db db'"
  by (simp add: same_identity_def identity_kept_def split: option.split)

lemma same_identity_create: "same_identity k db (fst (create_or_get_session now k h p m l db))"
proof -
  have ins: "same_identity k db db1" if i: "insert_session now (new_session_row now k h p m l) False db = Inr db1" for db1
    using i by (auto simp: insert_session_def same_identity_def identity_kept_def has_session_def row_by_append
        split: option.splits if_splits)
  have fill: "same_identity k db1 (fst (upd_sessions (fill_labels_p k) (fill_labels_f now l) db1))" for db1
    by (rule same_identity_update [OF fill_labels.session_update_axioms]) (simp add: identity_kept_def fill_labels_f_def)
  show ?thesis
    using ins same_identity_trans [OF ins fill]
    by (auto simp: create_or_get_session_def create_or_get_session_inner_def Let_def same_identity_refl split: sum.split)
qed

interpretation identity: start_relation "same_identity k" k for k
proof (unfold_locales, goal_cases)
  case (2 db db' db'') then show ?case by (rule same_identity_trans)
next
  case 4 show ?case
    unfolding touch_sandbox_activity_def Let_def fst_case_update
    by (rule same_identity_update [OF touch_sandbox.session_update_axioms]) (simp add: identity_kept_def touch_f_def)
next
  case 7 show ?case
    unfolding update_sandbox_assignment_def Let_def fst_case_update
    by (rule same_identity_update [OF assignment.session_update_axioms]) (simp add: identity_kept_def assignment_f_def)
next
  case 8 show ?case
    unfolding update_sandbox_id_def Let_def fst_case_update
    by (rule same_identity_update [OF sandbox_id.session_update_axioms]) (simp add: identity_kept_def sandbox_id_f_def)
next
  case 9 show ?case
    unfolding switch_session_harness_def Let_def fst_case_update
    by (rule same_identity_update [OF switch_harness.session_update_axioms]) (simp add: identity_kept_def switch_harness_f_def)
next
  case 10 show ?case by (rule same_identity_create)
next
  case 11 show ?case
    unfolding bind_iron_control_principal_def Let_def fst_case_update
    by (rule same_identity_update [OF bind_principal.session_update_axioms])
      (auto simp: identity_kept_def principal_f_def bind_principal_p_def)
qed (auto intro: same_identity_refl same_identity_sessions)

section \<open>The sandbox a turn gets\<close>

definition assigned :: "string \<Rightarrow> string \<Rightarrow> SandboxCapabilities \<Rightarrow> db \<Rightarrow> bool" where
  "assigned k i c db =
     (case session_row_of db k of None \<Rightarrow> False
      | Some r \<Rightarrow> s_sandbox_id r = Some i \<and> sandbox_capabilities_match (row_capabilities r) c)"

definition request_current :: "EnsureSessionSandboxRequest \<Rightarrow> db \<Rightarrow> bool" where
  "request_current rq db =
     (case session_row_of db (eq_thread_key rq) of None \<Rightarrow> False
      | Some r \<Rightarrow> sandbox_columns r = (eq_existing_sandbox_id rq, eq_existing_sandbox_capabilities rq))"

lemma assigned_same: "same_sandbox k db db' \<Longrightarrow> assigned k i c db \<Longrightarrow> assigned k i c db'"
  by (auto simp: same_sandbox_def assigned_def sandbox_columns_def split: option.splits)

lemma assigned_stored:
  assumes "store_op (update_sandbox_assignment now k i c) st = (st', Inr s)"
  shows "assigned k i c (st_db st')"
proof -
  let ?u = "upd_sessions (on_thread k) (assignment_f now i c) (st_db st)"
  have db: "st_db st' = fst ?u" and "snd ?u \<noteq> []"
    using assms by (auto simp: store_op_def update_sandbox_assignment_def fetch_one_def case_prod_beta split: sum.splits)
  then obtain r0 where "r0 \<in> set (sessions (st_db st))" "s_thread_key r0 = k"
    by (auto simp: sql_update_def filter_empty_conv)
  then obtain r where r: "session_row_of (st_db st) k = Some r"
    using row_by_None [of s_thread_key k "sessions (st_db st)"] by auto
  moreover have "on_thread k r" using row_by_Some [OF r] by simp
  ultimately show ?thesis
    using db row_capabilities_assigned [of now i c r]
    by (simp add: assigned_def assignment.row_after sandbox_capabilities_match_def)
      (simp add: assignment_f_def)
qed

lemma assigned_kept: "call_keeps (same_sandbox k) m \<Longrightarrow> m st = (st', r) \<Longrightarrow> assigned k i c (st_db st) \<Longrightarrow> assigned k i c (st_db st')"
  by (rule assigned_same [OF call_keepsD])

lemma rt_bindE:
  assumes "rt_bind m f st = (st', Inr c)"
  obtains st1 a where "m st = (st1, Inr a)" "f a st1 = (st', Inr c)"
  using assms by (auto simp: rt_bind_ok)

lemma resume_existing_id:
  assumes "resume_existing ev rq i st = (st', Inr (Some j))"
  shows "j = i"
proof -
  from assms show ?thesis
    unfolding resume_existing_def
  proof (elim rt_bindE, goal_cases)
    case (1 st1 u st2 r)
    then show ?case
    proof (cases r)
      case (Inl e)
      then show ?thesis using 1 by (cases e) (auto simp: rt_bind_ok)
    qed (auto simp: rt_bind_ok)
  qed
qed

lemma use_existing_id:
  assumes "use_existing ev rq i st = (st', Inr (Some j))"
  shows "j = i"
proof -
  from assms show ?thesis
    unfolding use_existing_def
  proof (elim rt_bindE, goal_cases)
    case (1 st1 r)
    then show ?case
    proof (cases r)
      case (Inl e)
      then show ?thesis using 1 by (cases e) auto
    next
      case (Inr status)
      then show ?thesis
        using 1 resume_existing_id by (cases "existing_sandbox_action status") (auto simp: rt_bind_ok)
    qed
  qed
qed

lemma existing_assigned:
  assumes "request_current rq (st_db st)" and "existing_sandbox ev rq st = (st', Inr (Some i))"
  shows "assigned (eq_thread_key rq) i (eq_desired_capabilities rq) (st_db st')"
proof -
  obtain j where j: "eq_existing_sandbox_id rq = Some j" "use_existing ev rq j st = (st', Inr (Some i))"
    "sandbox_capabilities_match (eq_existing_sandbox_capabilities rq) (eq_desired_capabilities rq)"
    using assms(2) by (auto simp: existing_sandbox_def rt_bind_ok split: option.splits if_splits)
  then have "assigned (eq_thread_key rq) i (eq_desired_capabilities rq) (st_db st)"
    using assms(1) use_existing_id [OF j(2)]
    by (auto simp: request_current_def assigned_def sandbox_columns_def split: option.splits)
  then show ?thesis by (rule assigned_kept [OF serving.keeps_use_existing [OF HOL.refl] j(2)])
qed

lemma warm_assigned:
  assumes "claim_warm ev rq pool st = (st', Inr (Some i))"
  shows "assigned (eq_thread_key rq) i (eq_desired_capabilities rq) (st_db st')"
proof (cases pool)
  case (Some wk)
  from assms show ?thesis
    unfolding claim_warm_def Some option.case
  proof (elim rt_bindE, goal_cases)
    case (1 st1 r)
    then show ?case
    proof (cases "\<exists>j. r = Inr (Some j)")
      case True
      then obtain st2 s pl st3 e where c:
        "store_op (update_sandbox_assignment (rt_now ev) (eq_thread_key rq) i (eq_desired_capabilities rq)) st1 = (st2, Inr s)"
        "store_op (append_event (rt_now ev) (eq_thread_key rq) None ''session.warm_sandbox_claimed'' pl) st2 = (st3, Inr e)"
        "record_sandbox_ready ev rq i ''warm_pool'' None st3 = (st', Inr ())"
        using 1 by (auto simp: rt_bind_ok)
      have "assigned (eq_thread_key rq) i (eq_desired_capabilities rq) (st_db st3)"
        by (rule assigned_kept [OF serving.keeps_event(1) c(2) assigned_stored [OF c(1)]])
      then show ?thesis by (rule assigned_kept [OF serving.keeps_ready [OF HOL.refl] c(3)])
    qed (cases r; auto split: option.splits)
  qed
qed (use assms in \<open>simp add: claim_warm_def\<close>)

lemma cold_assigned:
  assumes "create_cold ev rq spec st = (st', Inr i)"
  shows "assigned (eq_thread_key rq) i (eq_desired_capabilities rq) (st_db st')"
proof -
  obtain st1 st2 s d where c:
    "store_op (update_sandbox_assignment (rt_now ev) (eq_thread_key rq) i (eq_desired_capabilities rq)) st1 = (st2, Inr s)"
    "record_sandbox_ready ev rq i ''cold_create'' d st2 = (st', Inr ())"
    using assms by (auto simp: create_cold_def rt_bind_ok)
  show ?thesis by (rule assigned_kept [OF serving.keeps_ready [OF HOL.refl] c(2) assigned_stored [OF c(1)]])
qed

text \<open>When a turn gets a sandbox, whether kept, resumed, taken from the warm pool or created, its session is
  stored with exactly that sandbox, and the capabilities recorded for it are those its principal has now: a
  sandbox made for other capabilities is never handed out.\<close>

lemma ensure_assigns:
  assumes "request_current rq (st_db st)" and "ensure_session_sandbox ev rq st = (st', Inr i)"
  shows "assigned (eq_thread_key rq) i (eq_desired_capabilities rq) (st_db st')"
proof -
  obtain persona st1 existing where "existing_sandbox ev rq st = (st1, Inr existing)"
    and rest: "(case existing of Some sandbox_id \<Rightarrow> rt_return sandbox_id
      | None \<Rightarrow> rt_bind (claim_warm ev rq (matching_pool ev rq
            (sandbox_boot_mode_for_thread (eq_thread_key rq) (eq_iron_control_principal rq)) persona)) (\<lambda>warm.
          case warm of Some sandbox_id \<Rightarrow> rt_return sandbox_id
          | None \<Rightarrow> create_cold ev rq (cold_spec ev rq
              (sandbox_boot_mode_for_thread (eq_thread_key rq) (eq_iron_control_principal rq)) persona))) st1 = (st', Inr i)"
    using assms(2) by (auto simp: ensure_session_sandbox_def Let_def rt_bind_ok)
  then show ?thesis
    using existing_assigned [OF assms(1)] warm_assigned cold_assigned
    by (auto simp: rt_bind_ok split: option.splits)
qed

section \<open>What is created\<close>

definition with_create :: "(SandboxSpec \<Rightarrow> ('b, SandboxHandle) backend_call) \<Rightarrow> 'b runtime_env \<Rightarrow> 'b runtime_env" where
  "with_create c ev = ev\<lparr>rt_pool := (rt_pool ev)\<lparr>pe_backend := (pe_backend (rt_pool ev))\<lparr>be_create := c\<rparr>\<rparr>\<rparr>"

definition created_for :: "EnsureSessionSandboxRequest \<Rightarrow> SandboxSpec \<Rightarrow> bool" where
  "created_for rq spec \<longleftrightarrow>
     repos_scoped (repo_cache (eq_desired_capabilities rq)) spec \<and>
     cap_repo_cache (sp_capabilities spec) = access_for_backend (repo_cache (eq_desired_capabilities rq)) \<and>
     cap_observability_enabled (sp_capabilities spec) = observability_enabled (eq_desired_capabilities rq) \<and>
     (case eq_iron_control_principal rq of None \<Rightarrow> True
      | Some prn \<Rightarrow> sp_iron_control_principal spec = Some prn \<and>
          sp_iron_control_requester_principal spec = eq_requester_principal rq \<and>
          sp_iron_control_proxy_labels spec = eq_proxy_labels rq)"

lemma with_create_simps [simp]:
  "rt_spec_factory (with_create c ev) = rt_spec_factory ev" "rt_personas (with_create c ev) = rt_personas ev"
  "rt_warm_keys (with_create c ev) = rt_warm_keys ev" "rt_max_running (with_create c ev) = rt_max_running ev"
  "rt_ready_duration (with_create c ev) = rt_ready_duration ev" "rt_startup_duration (with_create c ev) = rt_startup_duration ev"
  "pe_now (rt_pool (with_create c ev)) = pe_now (rt_pool ev)" "pe_debug (rt_pool (with_create c ev)) = pe_debug (rt_pool ev)"
  "pe_locked (rt_pool (with_create c ev)) = pe_locked (rt_pool ev)"
  "pe_backend (rt_pool (with_create c ev)) = (pe_backend (rt_pool ev))\<lparr>be_create := c\<rparr>"
  by (simp_all add: with_create_def)

lemma backend_create_simps [simp]:
  "manager_status (be\<lparr>be_create := c\<rparr>) = manager_status be" "list_observed (be\<lparr>be_create := c\<rparr>) = list_observed be"
  "manager_stop (be\<lparr>be_create := c\<rparr>) = manager_stop be" "manager_resume (be\<lparr>be_create := c\<rparr>) = manager_resume be"
  "ensure_iron_control_proxy_resources (be\<lparr>be_create := c\<rparr>) = ensure_iron_control_proxy_resources be"
  "create_running (be\<lparr>be_create := c\<rparr>) = c"
  "enable_observability (be\<lparr>be_create := c\<rparr>) = enable_observability be"
  "assign_iron_control_proxy_principal (be\<lparr>be_create := c\<rparr>) = assign_iron_control_proxy_principal be"
  by (simp_all add: fun_eq_iff manager_defs manager_resume_def)

lemma check_claimed_create [simp]: "check_claimed (rt_pool (with_create c ev)) = check_claimed (rt_pool ev)"
  unfolding fun_eq_iff check_claimed_def bind_claimed_def with_create_simps backend_create_simps by simp

lemma pool_claim_create: "ev0 = rt_pool ev \<Longrightarrow> pool_claim (rt_pool (with_create c ev)) wk wc db b = pool_claim ev0 wk wc db b"
proof (induction ev0 wk wc db b rule: pool_claim.induct)
  case (1 ev0 wk wc db b)
  then show ?case
    by (auto simp: pool_claim.simps [of _ wk wc db b] split: prod.split sum.split option.split claim_round.split)
qed

lemma create_frames [simp]:
  "pool_try (with_create c ev) = pool_try ev" "running_slot_count (with_create c ev) = running_slot_count ev"
  "run_with_running_capacity (with_create c ev) op m = run_with_running_capacity ev op m"
  "stop_or_missing (with_create c ev) = stop_or_missing ev" "ensure_proxy (with_create c ev) = ensure_proxy ev"
  "record_sandbox_ready (with_create c ev) = record_sandbox_ready ev"
  "resolve_stored_persona (with_create c ev) = resolve_stored_persona ev"
  "matching_pool (with_create c ev) = matching_pool ev" "cold_spec (with_create c ev) = cold_spec ev"
  unfolding fun_eq_iff pool_try_def pool_claim_create [OF HOL.refl] running_slot_count_def run_with_running_capacity_def
    stop_or_missing_def ensure_proxy_def record_sandbox_ready_def resolve_stored_persona_def matching_pool_def cold_spec_def
    with_create_simps backend_create_simps
  by simp_all

lemma existing_create [simp]: "existing_sandbox (with_create c ev) rq = existing_sandbox ev rq"
  unfolding existing_sandbox_def replace_capabilities_def use_existing_def resume_existing_def create_frames with_create_simps
    backend_create_simps by simp

lemma claim_create [simp]: "claim_warm (with_create c ev) rq pool = claim_warm ev rq pool"
  unfolding claim_warm_def create_frames with_create_simps by simp

lemma boot_mode_principal:
  assumes "sp_iron_control_principal spec = Some prn"
  shows "sp_iron_control_principal (apply_sandbox_boot_mode (sandbox_boot_mode_for_thread k (Some prn)) spec) = Some prn"
  using assms
  by (simp add: apply_sandbox_boot_mode_def sandbox_boot_mode_for_thread_def Let_def configure_tool_host_command_def spec_label_def
      upsert_spec_env_def split: option.split)

lemma boot_mode_frames [simp]:
  "sp_iron_control_requester_principal (apply_sandbox_boot_mode m spec) = sp_iron_control_requester_principal spec"
  "sp_iron_control_proxy_labels (apply_sandbox_boot_mode m spec) = sp_iron_control_proxy_labels spec"
  by (simp_all add: apply_sandbox_boot_mode_def Let_def configure_tool_host_command_def spec_label_def upsert_spec_env_def
      split: SandboxBootMode.split)

lemma capabilities_frames [simp]:
  "sp_iron_control_principal (apply_sandbox_capabilities c spec) = sp_iron_control_principal spec"
  "sp_iron_control_requester_principal (apply_sandbox_capabilities c spec) = sp_iron_control_requester_principal spec"
  "sp_iron_control_proxy_labels (apply_sandbox_capabilities c spec) = sp_iron_control_proxy_labels spec"
  by (simp_all add: apply_sandbox_capabilities_def Let_def upsert_spec_env_def remove_spec_env_def scope_skill_dirs_to_public_def
      scope_repo_cache_mounts_to_public_def split: SandboxRepoCacheAccess.split option.split)

lemma cold_spec_fits:
  "created_for rq (cold_spec ev rq (sandbox_boot_mode_for_thread (eq_thread_key rq) (eq_iron_control_principal rq)) persona)"
  by (cases "eq_iron_control_principal rq")
    (simp_all add: created_for_def cold_spec_def Let_def apply_scoped apply_backend_capabilities boot_mode_principal)

text \<open>C13. Whatever workload is configured, the only sandboxes a turn ever asks the backend to create fit its request:
  their repository mounts and backend capabilities are those of the session's principal, and their egress proxy is
  bound to that principal, its requester and its labels. A backend that answers anything at all for other
  specs cannot be told apart.\<close>

theorem ensure_creates_within_capabilities:
  "ensure_session_sandbox
     (with_create (\<lambda>spec. if created_for rq spec then create_running (rt_backend ev) spec else other spec) ev) rq =
   ensure_session_sandbox ev rq"
proof -
  let ?ev = "with_create (\<lambda>spec. if created_for rq spec then create_running (rt_backend ev) spec else other spec) ev"
  have "create_cold ?ev rq spec = create_cold ev rq spec" if "created_for rq spec" for spec
    using that unfolding create_cold_def create_frames with_create_simps backend_create_simps by simp
  then show ?thesis
    unfolding ensure_session_sandbox_def Let_def create_frames existing_create claim_create by (simp add: cold_spec_fits)
qed

section \<open>The session that is opened\<close>

lemma bound_session:
  assumes "store_inv db" and "bind_iron_control_principal now k prn db = (db', Inr s)"
  shows "get_session db' k = Inr s \<and> ses_iron_control_principal s = Some prn"
proof -
  have "has_session db k"
  proof (rule ccontr)
    assume n: "\<not> has_session db k"
    then have "\<And>r. r \<in> set (sessions db) \<Longrightarrow> \<not> bind_principal_p k prn r"
      by (auto simp: has_session_def bind_principal_p_def)
    then have "sql_update (bind_principal_p k prn) (principal_f now (Some prn)) (sessions db) = (sessions db, [])"
      by (rule bind_principal.no_match)
    then show False
      using assms(2) n get_session_has [of db k] by (auto simp: bind_iron_control_principal_def upd_sessions_def)
  qed
  then obtain r where r: "session_row_of db k = Some r" using assms(1) by (metis session_row_at)
  have "sessions_inv (sessions db)" using assms(1) by (simp add: store_inv_def Let_def)
  note ret = returned_bind [OF this r, of prn "principal_f now (Some prn)"]
  show ?thesis
  proof (cases "bind_principal_p k prn r")
    case True
    then have s: "session_of_row (principal_f now (Some prn) r) = Inr s"
      and db': "db' = fst (upd_sessions (bind_principal_p k prn) (principal_f now (Some prn)) db)"
      using ret assms(2) by (auto simp: bind_iron_control_principal_def case_prod_beta)
    then show ?thesis
      using True r session_of_row_columns(6) [OF s]
      by (simp add: get_session_def bind_principal.row_after) (simp add: principal_f_def)
  next
    case False
    then show ?thesis
      using ret assms(2) by (auto simp: bind_iron_control_principal_def case_prod_beta split: option.splits)
  qed
qed

lemma store_op_ok: "store_op f st = (st', Inr a) \<longleftrightarrow> f (st_db st) = (st_db st', Inr a) \<and> st' = st\<lparr>st_db := st_db st'\<rparr>"
  by (auto simp: store_op_def split: prod.split sum.split)

lemma record_persona_sessions:
  "record_persona ev k rq ctx st = (st', r) \<Longrightarrow> sessions (st_db st') = sessions (st_db st)"
proof -
  have "sessions (st_db (fst (record_persona ev k rq ctx st))) = sessions (st_db st)"
    by (auto simp: record_persona_def rt_bind_def rt_return_def store_op_def case_prod_beta split: option.split sum.split)
  then show "record_persona ev k rq ctx st = (st', r) \<Longrightarrow> ?thesis" by simp
qed

lemma identity_session:
  assumes "same_identity k db db'" and "get_session db k = Inr s" and "get_session db' k = Inr s'"
  shows "ses_persona_id s' = ses_persona_id s \<and>
    (ses_iron_control_principal s = None \<or> ses_iron_control_principal s' = ses_iron_control_principal s)"
proof -
  obtain r r' where r: "session_row_of db k = Some r" "session_of_row r = Inr s"
    "session_row_of db' k = Some r'" "session_of_row r' = Inr s'"
    using assms(2,3) by (auto simp: get_session_def split: option.splits)
  then show ?thesis
    using assms(1) session_of_row_columns [OF r(2)] session_of_row_columns [OF r(4)]
    by (simp add: same_identity_def identity_kept_def)
qed

lemma stored_persona_allowed:
  assumes "resolve_stored_persona ev persona_id c = Inr ctx"
  shows "case Option.bind persona_id clean_persona_id of None \<Rightarrow> True
    | Some i \<Rightarrow> \<exists>reg p. rt_personas ev = Some reg \<and> registry_get reg i = Some p \<and> persona_allowed_for_access reg p (repo_cache c)"
proof (cases "Option.bind persona_id clean_persona_id")
  case (Some i)
  moreover from this obtain reg where reg: "rt_personas ev = Some reg"
    using assms by (auto simp: resolve_stored_persona_def resolve_persona_context_def split: option.splits)
  moreover have "\<exists>ctx'. ctx = Some ctx'"
    using assms Some reg by (auto simp: resolve_stored_persona_def resolve_persona_context_def split: sum.splits)
  ultimately show ?thesis
    using assms resolve_allowed [of "rt_debug ev" reg i False c] by (auto simp: resolve_stored_persona_def)
qed simp

text \<open>A request that opens a session returns the session as it is stored then, bound to the principal it was
  registered for and with a persona that principal's repository access allows, if any. A thread that had a session
  keeps its persona, and its principal if it was bound: no later request, not even one that restarts it on another
  harness, changes whose credentials it runs with.\<close>

lemma opened_session:
  assumes "store_inv (st_db st)" and "thread_key_parse k = Inr k"
    and "create_or_get_session_with_principal_admission ev k h persona_id metadata policy foreign admission st = (st', Inr out)"
  shows "get_session (st_db st') k = Inr (out_session out) \<and>
    (\<exists>prn. ses_iron_control_principal (out_session out) = Some (prn_id prn) \<and>
      register_principal ev k (case metadata of None \<Rightarrow> empty_object | Some m \<Rightarrow> m) (map_option trim foreign) admission = Inr prn \<and>
      (case Option.bind (ses_persona_id (out_session out)) clean_persona_id of None \<Rightarrow> True
       | Some i \<Rightarrow> \<exists>reg p. rt_personas ev = Some reg \<and> registry_get reg i = Some p \<and>
           persona_allowed_for_access reg p (sandbox_repo_cache_access_from_principal prn))) \<and>
    (case get_session (st_db st) k of Inl _ \<Rightarrow> True
     | Inr s \<Rightarrow> ses_persona_id (out_session out) = ses_persona_id s \<and>
         (ses_iron_control_principal s = None \<or> ses_iron_control_principal (out_session out) = ses_iron_control_principal s))"
proof -
  have foreign: "clean_foreign_id foreign = Inr f \<Longrightarrow> f = map_option trim foreign" for f
    by (auto simp: clean_foreign_id_def split: option.splits if_splits)
  obtain prn h' p' m' l' st1 switched st2 session ctx where reg: "register_principal ev k
      (case metadata of None \<Rightarrow> empty_object | Some m \<Rightarrow> m) (map_option trim foreign) admission = Inr prn"
    and c: "create_or_restart ev k h' p' m' l' policy st = (st1, Inr switched)"
    and b: "store_op (bind_iron_control_principal (rt_now ev) k (prn_id prn)) st1 = (st2, Inr session)"
    and p: "resolve_stored_persona ev (ses_persona_id session) (sandbox_capabilities_from_principal prn) = Inr ctx"
    and rec: "record_persona ev k persona_id ctx st2 = (st', Inr ())" and out: "out_session out = session"
    using assms(3)
    by (auto simp: create_or_get_session_with_principal_admission_def Let_def rt_bind_ok stored_choice_def
        dest!: foreign split: sum.splits SessionStoreError.splits)
  have "guarded_step\<^sup>*\<^sup>* (st_db st) (st_db st1)" using call_keepsD [OF started.keeps_create c] assms(2) by simp
  then have "store_inv (st_db st1)" using assms(1) by (rule run_guarded_inv)
  then have s: "get_session (st_db st2) k = Inr session" "ses_iron_control_principal session = Some (prn_id prn)"
    using bound_session b by (auto simp: store_op_ok)
  then have g: "get_session (st_db st') k = Inr session"
    using record_persona_sessions [OF rec] by (simp add: get_session_def)
  have "same_identity k (st_db st) (st_db st')" using call_keepsD [OF identity.keeps_open assms(3)] .
  then have "case get_session (st_db st) k of Inl _ \<Rightarrow> True
     | Inr s \<Rightarrow> ses_persona_id session = ses_persona_id s \<and>
         (ses_iron_control_principal s = None \<or> ses_iron_control_principal session = ses_iron_control_principal s)"
    using identity_session [OF _ _ g] by (simp split: sum.split)
  moreover have cap: "repo_cache (sandbox_capabilities_from_principal prn) = sandbox_repo_cache_access_from_principal prn"
    by (simp add: sandbox_capabilities_from_principal_def)
  moreover note stored_persona_allowed [OF p, unfolded cap]
  ultimately show ?thesis unfolding out using g s reg by (intro conjI exI [of _ prn]) simp_all
qed

section \<open>Examples\<close>

definition example_principal :: Principal where
  "example_principal = \<lparr>prn_id = ''prn_1'', prn_foreign_id = None, prn_name = ''p'',
     prn_labels = [(SANDBOX_REPO_CACHE_LABEL, '' Public'')], prn_sandbox_observability_enabled = False\<rparr>"

definition example_runtime :: "nat runtime_env" where
  "example_runtime =
     \<lparr>rt_pool = example_env, rt_spec_factory = (\<lambda>k x h persona. workload_spec example_workload k h persona),
      rt_personas = None, rt_warm_keys = None, rt_max_running = Some 2, rt_register_session = (\<lambda>_ _ _. Inr example_principal),
      rt_get_principal = (\<lambda>_. Inr example_principal), rt_admission = Automatic,
      rt_ready_duration = 5 * 10 ^ 9, rt_startup_duration = 4 * 10 ^ 9\<rparr>"

definition example_start :: "nat runtime_state" where
  "example_start = \<lparr>st_db = example_db, st_backend = 0, st_pipes = Map.empty\<rparr>"

abbreviation example_session_row :: session_row where
  "example_session_row \<equiv> new_session_row 5 ''api:1'' Codex None empty_object []"

lemma example_session:
  obtains s where "session_of_row example_session_row = Inr s" "get_session example_db ''api:1'' = Inr s"
    "ses_harness_type s = Codex" "ses_persona_id s = None"
  using new_session_decodes [OF example_key, of 5 Codex None empty_object "[]"]
  by (auto simp: get_session_def example_db_sessions row_by_def new_session_row_def)

lemma example_create:
  "\<exists>s. create_or_get_session 8 ''api:1'' Codex None empty_object [] example_db = (example_db, Inr s)"
proof -
  obtain s where "get_session example_db ''api:1'' = Inr s" "ses_harness_type s = Codex" by (rule example_session)
  then show ?thesis
    using new_session_check [OF example_key, of None 8 Codex empty_object "[]"] example_db_has
    by (simp add: create_or_get_session_def create_or_get_session_inner_def insert_session_def Let_def new_session_row_def)
qed

lemma example_bind: "\<exists>db s. bind_iron_control_principal 8 ''api:1'' ''prn_1'' example_db = (db, Inr s) \<and> ses_persona_id s = None"
proof -
  have p: "bind_principal_p ''api:1'' ''prn_1'' example_session_row" by (simp add: bind_principal_p_def new_session_row_def)
  then obtain s where s: "session_of_row (principal_f 8 (Some ''prn_1'') example_session_row) = Inr s"
    using bind_principal.ok_kept new_session_ok [OF example_key] session_of_row_ok by blast
  moreover have "ses_persona_id s = None" using session_of_row_columns(8) [OF s] by (simp add: principal_f_def new_session_row_def)
  ultimately show ?thesis
    using p by (simp add: bind_iron_control_principal_def upd_sessions_def example_db_sessions sql_update_def Let_def)
qed

lemma example_labels: "proxy_labels_from_session_metadata ''api:1'' empty_object = []" by code_simp

lemma example_opened:
  "\<exists>st' out. create_or_get_session_with_principal_admission example_runtime ''api:1'' Codex None None Reject None Automatic
     example_start = (st', Inr out)"
proof -
  obtain s where s: "get_session example_db ''api:1'' = Inr s" "ses_harness_type s = Codex" "ses_persona_id s = None"
    by (rule example_session)
  obtain s1 where c: "create_or_get_session 8 ''api:1'' Codex None empty_object [] example_db = (example_db, Inr s1)"
    using example_create by blast
  obtain db s2 where b: "bind_iron_control_principal 8 ''api:1'' ''prn_1'' example_db = (db, Inr s2)" "ses_persona_id s2 = None"
    using example_bind by blast
  show ?thesis
    using s c b
    by (simp add: create_or_get_session_with_principal_admission_def Let_def rt_bind_def rt_result_def rt_return_def clean_foreign_id_def
        register_principal_def example_runtime_def example_labels stored_choice_def example_start_def choose_persona_def
        choose_harness_def create_or_restart_def rt_try_def store_op_def example_env_def example_principal_def
        resolve_stored_persona_def resolve_persona_context_def record_persona_def)
qed

end
