(* ===== verification/Execution_Input.thy ===== *)
theory Execution_Input
  imports Session_Start
begin

text \<open>
  The input of an execution in \<^verbatim>\<open>crates/centaur-session-runtime/src/lib.rs\<close>: the request that is
  persisted with it, and the lines a sandbox is sent, with the persona's model, the trace, the notes and the
  session's context. \<open>parse\<close> and \<open>print\<close> stand for \<^verbatim>\<open>serde_json::from_str\<close> and \<^verbatim>\<open>to_string\<close>.
\<close>

section \<open>The persisted request\<close>

record ExecuteSessionInput =
  in_idempotency_key :: "string option"
  in_metadata :: "json option"
  in_input_lines :: "string list"
  in_idle_timeout_ms :: "nat option"
  in_max_duration_ms :: "nat option"

definition opt_nat :: "nat option \<Rightarrow> json" where
  "opt_nat v = (case v of None \<Rightarrow> JNull | Some n \<Rightarrow> JNat n)"

definition persisted_execute_request :: "ExecuteSessionInput \<Rightarrow> json" where
  "persisted_execute_request input =
     JObj [(''idempotency_key'', opt_str (in_idempotency_key input)),
       (''metadata'', case in_metadata input of None \<Rightarrow> JNull | Some m \<Rightarrow> m),
       (''input_lines'', JArr (map JStr (in_input_lines input))),
       (''idle_timeout_ms'', opt_nat (in_idle_timeout_ms input)), (''max_duration_ms'', opt_nat (in_max_duration_ms input))]"

text \<open>The derived reader: a field of type \<^verbatim>\<open>Option\<close> may be missing or null; \<open>None\<close> is its error.\<close>

definition read_option :: "(json \<Rightarrow> 'a option) \<Rightarrow> json option \<Rightarrow> 'a option option" where
  "read_option rd v = (case v of None \<Rightarrow> Some None | Some JNull \<Rightarrow> Some None | Some w \<Rightarrow> map_option Some (rd w))"

fun read_lines :: "json list \<Rightarrow> string list option" where
  "read_lines [] = Some []"
| "read_lines (v # vs) = Option.bind (as_str v) (\<lambda>s. map_option ((#) s) (read_lines vs))"

definition read_request :: "(string \<Rightarrow> json option) \<Rightarrow> ExecuteSessionInput option" where
  "read_request get =
     Option.bind (read_option as_str (get ''idempotency_key'')) (\<lambda>idem.
     Option.bind (read_option Some (get ''metadata'')) (\<lambda>metadata.
     Option.bind (case get ''input_lines'' of Some (JArr vs) \<Rightarrow> read_lines vs | _ \<Rightarrow> None) (\<lambda>lines.
     Option.bind (read_option as_u64 (get ''idle_timeout_ms'')) (\<lambda>idle.
     Option.bind (read_option as_u64 (get ''max_duration_ms'')) (\<lambda>mx.
       Some \<lparr>in_idempotency_key = idem, in_metadata = metadata, in_input_lines = lines, in_idle_timeout_ms = idle,
         in_max_duration_ms = mx\<rparr>)))))"

definition REQUEST_FIELDS :: "string list" where
  "REQUEST_FIELDS = [''idempotency_key'', ''metadata'', ''input_lines'', ''idle_timeout_ms'', ''max_duration_ms'']"

definition deserialize_persisted_execute_request ::
  "(json \<Rightarrow> string) \<Rightarrow> string \<Rightarrow> json \<Rightarrow> ExecuteSessionInput runtime_result" where
  "deserialize_persisted_execute_request serde_error execution_id request =
     (case (case request of
              JObj kvs \<Rightarrow> read_request (map_of kvs)
            | JArr vs \<Rightarrow> if length vs = 5 then read_request (map_of (zip REQUEST_FIELDS vs)) else None
            | _ \<Rightarrow> None) of
        Some input \<Rightarrow> Inr input
      | None \<Rightarrow> Inl (BadRequest (''execution '' @ execution_id @ '' has an invalid persisted request: '' @ serde_error request)))"

section \<open>Input lines\<close>

definition json_remove :: "string \<Rightarrow> (string \<times> json) list \<Rightarrow> (string \<times> json) list" where
  "json_remove k kvs = filter (\<lambda>(k', _). k' \<noteq> k) kvs"

definition or_insert_entry :: "string \<Rightarrow> json \<Rightarrow> (string \<times> json) list \<Rightarrow> (string \<times> json) list" where
  "or_insert_entry k v kvs = (if map_of kvs k = None then json_insert k v kvs else kvs)"

definition replaces_model :: "string \<Rightarrow> (string \<times> json) list \<Rightarrow> bool" where
  "replaces_model model kvs =
     (case map_option trim (get_str ''model'' (JObj kvs)) of
        None \<Rightarrow> False | Some requested \<Rightarrow> requested \<noteq> [] \<and> requested \<noteq> model)"

definition input_line_with_persona_model ::
  "(string \<Rightarrow> json option) \<Rightarrow> (json \<Rightarrow> string) \<Rightarrow> string \<Rightarrow> string \<Rightarrow> string" where
  "input_line_with_persona_model parse print model line =
     (case parse line of
        Some (JObj kvs) \<Rightarrow>
          if get_str ''type'' (JObj kvs) \<noteq> Some ''user'' then line
          else (let kvs1 = (if replaces_model model kvs then json_remove ''reasoning'' kvs else kvs);
                    kvs2 = json_insert ''model'' (JStr model) kvs1
                in print (JObj (json_remove ''provider'' kvs2)))
      | _ \<Rightarrow> line)"

definition input_lines_with_persona_model ::
  "(string \<Rightarrow> json option) \<Rightarrow> (json \<Rightarrow> string) \<Rightarrow> string list \<Rightarrow> string \<Rightarrow> string list" where
  "input_lines_with_persona_model parse print lines model = map (input_line_with_persona_model parse print model) lines"

record SessionTraceContext =
  trace_traceparent :: "string option"
  trace_execution_id :: "string option"

definition OBSERVABILITY_TOOLS :: string where "OBSERVABILITY_TOOLS = ''vlogs,vmetrics,grafana''"

definition sandbox_access_note :: "SandboxCapabilities \<Rightarrow> string" where
  "sandbox_access_note capabilities =
     (let tools = join_with '', '' (split_on (CHR '','') OBSERVABILITY_TOOLS) in
      if observability_enabled capabilities
      then ''[sandbox access: observability enabled ('' @ tools @ '').]''
      else ''[sandbox access: observability disabled. '' @ tools @ '' requests are blocked for this sandbox.]'')"

definition prepend_user_note :: "string \<Rightarrow> (string \<times> json) list \<Rightarrow> (string \<times> json) list" where
  "prepend_user_note note kvs =
     (if get_str ''type'' (JObj kvs) \<noteq> Some ''user'' then kvs
      else case map_of kvs ''message'' of
        Some (JObj m) \<Rightarrow>
          (case map_of m ''content'' of
             Some (JArr content) \<Rightarrow>
               json_insert ''message''
                 (JObj (json_insert ''content'' (JArr (JObj [(''type'', JStr ''text''), (''text'', JStr note)] # content)) m)) kvs
           | _ \<Rightarrow> kvs)
      | _ \<Rightarrow> kvs)"

definition session_context_block :: "ChatDestination \<Rightarrow> string \<times> (string \<times> json) list" where
  "session_context_block d =
     (case d of
        Slack c t \<Rightarrow> (''slack'', [(''channel_id'', JStr c), (''thread_ts'', JStr t)])
      | Discord g c t \<Rightarrow>
          (''discord'', insert_opt ''thread_id'' (map_option JStr t) [(''guild_id'', JStr g), (''channel_id'', JStr c)])
      | Linear i c a \<Rightarrow>
          (''linear'', insert_opt ''agent_session_id'' (map_option JStr a)
             (insert_opt ''comment_id'' (map_option JStr c) [(''issue_id'', JStr i)]))
      | Github ow r n k c \<Rightarrow>
          (''github'', insert_opt ''review_comment_id'' (map_option JNat c)
             [(''owner'', JStr ow), (''repo'', JStr r), (''number'', JNat n), (''kind'', JStr (github_thread_kind_as_str k))])
      | GoogleChat s t \<Rightarrow> (''google_chat'', [(''space_name'', JStr s), (''thread_name'', JStr t)]))"

definition session_context_for_thread :: "string \<Rightarrow> (string \<times> json) list option" where
  "session_context_for_thread thread_key =
     map_option (\<lambda>d. [(''platform'', JStr (platform d)), (fst (session_context_block d), JObj (snd (session_context_block d)))])
       (chat_destination thread_key)"

definition merge_session_context :: "(string \<times> json) list option \<Rightarrow> (string \<times> json) list \<Rightarrow> (string \<times> json) list" where
  "merge_session_context context kvs =
     (case context of
        None \<Rightarrow> kvs
      | Some ctx \<Rightarrow>
          (let kvs1 = or_insert_entry ''session_context'' (JObj []) kvs in
           case map_of kvs1 ''session_context'' of
             Some (JObj existing) \<Rightarrow>
               json_insert ''session_context'' (JObj (fold (\<lambda>(k, v). or_insert_entry k v) ctx existing)) kvs1
           | _ \<Rightarrow> kvs1))"

definition with_trace_metadata :: "string \<Rightarrow> (string \<times> json) list \<Rightarrow> (string \<times> json) list" where
  "with_trace_metadata execution_id kvs =
     (let kvs1 = or_insert_entry ''trace_metadata'' (JObj []) kvs in
      case map_of kvs1 ''trace_metadata'' of
        Some (JObj m) \<Rightarrow> json_insert ''trace_metadata'' (JObj (or_insert_entry ''execution_id'' (JStr execution_id) m)) kvs1
      | _ \<Rightarrow> kvs1)"

definition session_context_map ::
  "string \<Rightarrow> SessionTraceContext \<Rightarrow> SandboxCapabilities option \<Rightarrow> (string \<times> json) list \<Rightarrow> (string \<times> json) list" where
  "session_context_map thread_key trace capabilities kvs =
     (let kvs1 = json_remove ''trace_id'' (or_insert_entry ''thread_key'' (JStr thread_key) kvs);
          kvs2 = (case trace_traceparent trace of None \<Rightarrow> kvs1 | Some t \<Rightarrow> or_insert_entry ''traceparent'' (JStr t) kvs1);
          kvs3 = (case trace_execution_id trace of None \<Rightarrow> kvs2 | Some x \<Rightarrow> with_trace_metadata x kvs2);
          kvs4 = (case capabilities of None \<Rightarrow> kvs3 | Some c \<Rightarrow> prepend_user_note (sandbox_access_note c) kvs3);
          kvs5 = (case chat_destination thread_key of None \<Rightarrow> kvs4 | Some d \<Rightarrow> prepend_user_note (context_line d) kvs4)
      in merge_session_context (session_context_for_thread thread_key) kvs5)"

definition input_line_with_session_context ::
  "(string \<Rightarrow> json option) \<Rightarrow> (json \<Rightarrow> string) \<Rightarrow> string \<Rightarrow> SessionTraceContext \<Rightarrow> SandboxCapabilities option \<Rightarrow> string \<Rightarrow> string" where
  "input_line_with_session_context parse print thread_key trace capabilities line =
     (case parse line of
        Some (JObj kvs) \<Rightarrow> print (JObj (session_context_map thread_key trace capabilities kvs))
      | _ \<Rightarrow> line)"

definition input_lines_with_session_context ::
  "(string \<Rightarrow> json option) \<Rightarrow> (json \<Rightarrow> string) \<Rightarrow> string \<Rightarrow> SessionTraceContext \<Rightarrow> SandboxCapabilities option \<Rightarrow> string list \<Rightarrow>
   string list" where
  "input_lines_with_session_context parse print thread_key trace capabilities lines =
     map (input_line_with_session_context parse print thread_key trace capabilities) lines"

section \<open>The request comes back\<close>

lemma read_lines_strings [simp]: "read_lines (map JStr ls) = Some ls"
  by (induction ls) simp_all

lemma as_u64_JNat: "n < 2 ^ 64 \<Longrightarrow> as_u64 (JNat n) = Some n"
  by (simp add: JNat_def)

lemma read_option_str [simp]: "read_option as_str (Some (opt_str s)) = Some s"
  by (cases s) (simp_all add: read_option_def opt_str_def)

lemma read_option_nat: "(\<And>n. v = Some n \<Longrightarrow> n < 2 ^ 64) \<Longrightarrow> read_option as_u64 (Some (opt_nat v)) = Some v"
  by (cases v) (simp_all add: read_option_def opt_nat_def as_u64_JNat, simp add: JNat_def)

lemma read_option_json: "m \<noteq> Some JNull \<Longrightarrow> read_option Some (Some (case m of None \<Rightarrow> JNull | Some j \<Rightarrow> j)) = Some m"
  by (cases m) (simp_all add: read_option_def split: json.split)

text \<open>The request persisted with a queued execution is read back as it was given, so a process that takes the
  execution over delivers the same input; the one exception is metadata that is JSON null, which comes back as
  absent.\<close>

lemma request_round_trip:
  assumes "in_metadata input \<noteq> Some JNull"
    and "\<And>n. in_idle_timeout_ms input = Some n \<Longrightarrow> n < 2 ^ 64" and "\<And>n. in_max_duration_ms input = Some n \<Longrightarrow> n < 2 ^ 64"
  shows "deserialize_persisted_execute_request serde_error x (persisted_execute_request input) = Inr input"
  using read_option_json [OF assms(1)] read_option_nat [OF assms(2)] read_option_nat [OF assms(3)]
  by (simp add: deserialize_persisted_execute_request_def persisted_execute_request_def read_request_def)

section \<open>What the sandbox is told\<close>

lemma json_insert_lookup [simp]: "map_of (json_insert k v kvs) = (map_of kvs)(k \<mapsto> v)"
  by (induction k v kvs rule: json_insert.induct) (auto simp: fun_eq_iff)

lemma json_remove_lookup [simp]: "map_of (json_remove k kvs) = (map_of kvs)(k := None)"
  by (induction kvs) (auto simp: json_remove_def fun_eq_iff)

lemma or_insert_lookup [simp]:
  "map_of (or_insert_entry k v kvs) = (map_of kvs)(k \<mapsto> (case map_of kvs k of None \<Rightarrow> v | Some w \<Rightarrow> w))"
  by (auto simp: or_insert_entry_def fun_eq_iff)

lemma with_trace_metadata_other [simp]: "k \<noteq> ''trace_metadata'' \<Longrightarrow> map_of (with_trace_metadata x kvs) k = map_of kvs k"
  by (simp add: with_trace_metadata_def Let_def split: option.split json.split)

lemma merge_context_other [simp]: "k \<noteq> ''session_context'' \<Longrightarrow> map_of (merge_session_context c kvs) k = map_of kvs k"
  by (simp add: merge_session_context_def Let_def split: option.split json.split)

lemma prepend_note_other [simp]: "k \<noteq> ''message'' \<Longrightarrow> map_of (prepend_user_note note kvs) k = map_of kvs k"
  by (simp add: prepend_user_note_def split: option.split json.split)

text \<open>The content of a message, and how a note changes it.\<close>

definition message_content :: "(string \<times> json) list \<Rightarrow> json list option" where
  "message_content kvs =
     (case map_of kvs ''message'' of
        Some (JObj m) \<Rightarrow> (case map_of m ''content'' of Some (JArr c) \<Rightarrow> Some c | _ \<Rightarrow> None)
      | _ \<Rightarrow> None)"

definition text_part :: "string \<Rightarrow> json" where
  "text_part note = JObj [(''type'', JStr ''text''), (''text'', JStr note)]"

lemma message_content_cong: "map_of kvs' ''message'' = map_of kvs ''message'' \<Longrightarrow> message_content kvs' = message_content kvs"
  by (simp add: message_content_def)

lemma prepend_note_content:
  "message_content (prepend_user_note note kvs) =
     map_option (\<lambda>c. if get_str ''type'' (JObj kvs) = Some ''user'' then text_part note # c else c) (message_content kvs)"
  by (simp add: message_content_def prepend_user_note_def text_part_def split: option.split json.split)

definition session_notes :: "string \<Rightarrow> SandboxCapabilities option \<Rightarrow> json list" where
  "session_notes thread_key capabilities =
     (case chat_destination thread_key of None \<Rightarrow> [] | Some d \<Rightarrow> [text_part (context_line d)]) @
     (case capabilities of None \<Rightarrow> [] | Some c \<Rightarrow> [text_part (sandbox_access_note c)])"

lemma get_str_cong: "map_of kvs' k = map_of kvs k \<Longrightarrow> get_str k (JObj kvs') = get_str k (JObj kvs)"
  by (simp add: get_str_def)

text \<open>The map before the notes and the context are added.\<close>

definition traced_map :: "string \<Rightarrow> SessionTraceContext \<Rightarrow> (string \<times> json) list \<Rightarrow> (string \<times> json) list" where
  "traced_map thread_key trace kvs =
     (let kvs1 = json_remove ''trace_id'' (or_insert_entry ''thread_key'' (JStr thread_key) kvs);
          kvs2 = (case trace_traceparent trace of None \<Rightarrow> kvs1 | Some t \<Rightarrow> or_insert_entry ''traceparent'' (JStr t) kvs1)
      in case trace_execution_id trace of None \<Rightarrow> kvs2 | Some x \<Rightarrow> with_trace_metadata x kvs2)"

lemma session_context_map_traced:
  "session_context_map k trace caps kvs =
     merge_session_context (session_context_for_thread k)
       (let kvs4 = (case caps of None \<Rightarrow> traced_map k trace kvs | Some c \<Rightarrow> prepend_user_note (sandbox_access_note c) (traced_map k trace kvs))
        in case chat_destination k of None \<Rightarrow> kvs4 | Some d \<Rightarrow> prepend_user_note (context_line d) kvs4)"
  unfolding session_context_map_def traced_map_def Let_def by (rule refl)

lemma traced_map_lookup:
  "map_of (traced_map k trace kvs) ''thread_key'' = Some (case map_of kvs ''thread_key'' of None \<Rightarrow> JStr k | Some v \<Rightarrow> v)"
  "map_of (traced_map k trace kvs) ''trace_id'' = None"
  "map_of (traced_map k trace kvs) ''traceparent'' =
     (case map_of kvs ''traceparent'' of None \<Rightarrow> map_option JStr (trace_traceparent trace) | Some v \<Rightarrow> Some v)"
  "key \<notin> {''thread_key'', ''trace_id'', ''traceparent'', ''trace_metadata''} \<Longrightarrow> map_of (traced_map k trace kvs) key = map_of kvs key"
  by (simp_all add: traced_map_def Let_def split: option.split)

lemma context_map_other:
  "key \<notin> {''message'', ''session_context''} \<Longrightarrow> map_of (session_context_map k trace caps kvs) key = map_of (traced_map k trace kvs) key"
  by (simp add: session_context_map_traced Let_def split: option.split)

lemma context_map_content:
  "message_content (session_context_map k trace caps kvs) =
     map_option (\<lambda>c. if get_str ''type'' (JObj kvs) = Some ''user'' then session_notes k caps @ c else c) (message_content kvs)"
proof -
  have t: "get_str ''type'' (JObj (traced_map k trace kvs)) = get_str ''type'' (JObj kvs)"
    by (rule get_str_cong) (simp add: traced_map_lookup)
  have n: "get_str ''type'' (JObj (prepend_user_note nt m)) = get_str ''type'' (JObj m)" for nt m
    by (rule get_str_cong) simp
  have c: "message_content (traced_map k trace kvs) = message_content kvs"
    by (rule message_content_cong) (simp add: traced_map_lookup)
  have m: "message_content (merge_session_context ctx m) = message_content m" for ctx m
    by (rule message_content_cong) simp
  show ?thesis
    by (cases "message_content kvs"; cases caps; cases "chat_destination k")
      (simp_all add: session_context_map_traced Let_def m prepend_note_content t n c session_notes_def)
qed

text \<open>A line that is a JSON object reaches the sandbox as an object that names the thread (unless the line
  already did), carries the execution's trace and no other trace id, and is otherwise the line the caller gave,
  except for its trace metadata and session context. The content of a user turn is kept, behind the notes on the
  chat it answers and on what its sandbox may access.\<close>

lemma session_context_line:
  assumes "parse line = Some (JObj kvs)"
  shows "\<exists>kvs'. input_line_with_session_context parse print k trace caps line = print (JObj kvs') \<and>
    map_of kvs' ''thread_key'' = Some (case map_of kvs ''thread_key'' of None \<Rightarrow> JStr k | Some v \<Rightarrow> v) \<and>
    map_of kvs' ''trace_id'' = None \<and>
    map_of kvs' ''traceparent'' =
      (case map_of kvs ''traceparent'' of None \<Rightarrow> map_option JStr (trace_traceparent trace) | Some v \<Rightarrow> Some v) \<and>
    message_content kvs' =
      map_option (\<lambda>c. if get_str ''type'' (JObj kvs) = Some ''user'' then session_notes k caps @ c else c) (message_content kvs) \<and>
    (\<forall>key. key \<notin> {''thread_key'', ''trace_id'', ''traceparent'', ''trace_metadata'', ''message'', ''session_context''} \<longrightarrow>
      map_of kvs' key = map_of kvs key)"
  by (intro exI [of _ "session_context_map k trace caps kvs"] conjI)
    (simp_all add: assms input_line_with_session_context_def context_map_other context_map_content traced_map_lookup)

section \<open>Examples\<close>

definition example_input :: ExecuteSessionInput where
  "example_input = \<lparr>in_idempotency_key = Some ''k'', in_metadata = None, in_input_lines = [''{}''], in_idle_timeout_ms = Some 5000,
     in_max_duration_ms = None\<rparr>"

end
