(* ===== verification/Session_Execute.thy ===== *)
theory Session_Execute
  imports Execution_Input
begin

text \<open>
  Running a turn in \<^verbatim>\<open>crates/centaur-session-runtime/src/lib.rs\<close>: \<^verbatim>\<open>execute_session_impl\<close> from
  admission to the last input line, \<^verbatim>\<open>enqueue_session_execution\<close>, and how a failed attempt is recorded. A call
  runs without other processes' calls in between. The lease renewer, the stdout pump and the duration timer are
  tasks it spawns: the timer is part of the result. Spans and metrics are left out, as are the ids an error carries
  for its log line.
\<close>

section \<open>Environment and errors\<close>

text \<open>
  Beside the runtime's environment: this process's owner id; whether it is shutting down when the call is admitted
  and when it claims the stdout; the process clock; the id a new execution gets; \<^verbatim>\<open>serde_json\<close>; the trace of the
  execution's span under a given parent; iron-control's answer for the requester; and the error, if any, of sending
  a line to a sandbox.
\<close>

record 'b execute_env =
  ex_runtime :: "'b runtime_env"
  ex_owner_id :: string
  ex_shutting_down :: bool
  ex_shutting_down_at_claim :: bool
  ex_clock :: time
  ex_new_id :: string
  ex_parse :: "string \<Rightarrow> json option"
  ex_print :: "json \<Rightarrow> string"
  ex_serde_error :: "json \<Rightarrow> string"
  ex_sqlx_message :: "SqlxError \<Rightarrow> string"
  ex_span_traceparent :: "string option \<Rightarrow> string option"
  ex_register_requester :: "string \<Rightarrow> json option \<Rightarrow> bool \<Rightarrow> string + Principal option"
  ex_send_error :: "string \<Rightarrow> string \<Rightarrow> string option"

abbreviation ex_now :: "'b execute_env \<Rightarrow> time" where
  "ex_now ev \<equiv> rt_now (ex_runtime ev)"

definition store_error_message :: "(SqlxError \<Rightarrow> string) \<Rightarrow> SessionStoreError \<Rightarrow> string" where
  "store_error_message sqlx_message e =
     (case e of
        NotFound k \<Rightarrow> ''session not found for thread_key '' @ k
      | HarnessConflict k existing requested \<Rightarrow>
          ''session '' @ k @ '' already exists with harness_type '' @ existing @ '', requested '' @ requested
      | PrincipalConflict k existing requested \<Rightarrow>
          ''session '' @ k @ '' already exists with principal '' @ existing @ '', requested '' @ requested
      | InvalidPersistedValue m \<Rightarrow> ''invalid persisted value: '' @ m
      | ExecutionNotFound x \<Rightarrow> ''session execution not found for execution_id '' @ x
      | ExecutionActive k x \<Rightarrow> ''session '' @ k @ '' has an active execution '' @ x
      | WorkflowOwnedSandbox k \<Rightarrow> ''session '' @ k @ '' sandbox is owned by its workflow run''
      | Sqlx q \<Rightarrow> sqlx_message q
      | Panic m \<Rightarrow> m)"

definition runtime_error_message :: "(SqlxError \<Rightarrow> string) \<Rightarrow> SessionRuntimeError \<Rightarrow> string" where
  "runtime_error_message sqlx_message e =
     (case e of
        BadRequest m \<Rightarrow> m
      | ShuttingDown \<Rightarrow> ''control plane is shutting down''
      | Store s \<Rightarrow> store_error_message sqlx_message s
      | Sandbox s \<Rightarrow> sandbox_error_message s
      | IronControl m \<Rightarrow> m
      | CapacityExceeded max_running running operation \<Rightarrow>
          ''sandbox running capacity exceeded during '' @ operation @ '': running='' @ show_nat running @
          '', max_running='' @ show_nat max_running)"

text \<open>A panic unwinds the task: no handler sees it. Every other error is handled and returned.\<close>

definition is_panic :: "SessionRuntimeError \<Rightarrow> bool" where
  "is_panic e = (case e of Store (Panic _) \<Rightarrow> True | _ \<Rightarrow> False)"

definition rt_catch :: "('b, 'a) rt \<Rightarrow> (SessionRuntimeError \<Rightarrow> ('b, unit) rt) \<Rightarrow> ('b, 'a) rt" where
  "rt_catch m h =
     rt_bind (rt_try m) (\<lambda>r.
       case r of
         Inr a \<Rightarrow> rt_return a
       | Inl e \<Rightarrow> if is_panic e then rt_fail e else rt_bind (h e) (\<lambda>_. rt_fail e))"

section \<open>Recording a failed attempt\<close>

definition record_execution_failure :: "'b execute_env \<Rightarrow> string \<Rightarrow> string \<Rightarrow> SessionRuntimeError \<Rightarrow> ('b, unit) rt" where
  "record_execution_failure ev thread_key execution_id error =
     (let message = runtime_error_message (ex_sqlx_message ev) error in
      rt_bind (rt_try (store_op (fail_execution_if_active_and_stdout_owner (ex_now ev) execution_id (ex_owner_id ev) message))) (\<lambda>r.
        case r of
          Inr (Some _) \<Rightarrow>
            store_quiet (append_event (ex_now ev) thread_key (Some execution_id) ''session.execution_failed''
              (JObj [(''execution_id'', JStr execution_id), (''thread_key'', JStr thread_key), (''error'', JStr message)]))
        | _ \<Rightarrow> rt_return ()))"

definition runtime_claim_stdout_owner :: "'b execute_env \<Rightarrow> string \<Rightarrow> ('b, unit) rt" where
  "runtime_claim_stdout_owner ev execution_id =
     (if ex_shutting_down_at_claim ev then rt_fail ShuttingDown
      else rt_bind (store_op (claim_stdout_owner (ex_clock ev) (ex_now ev) execution_id (ex_owner_id ev) STDOUT_OWNER_LEASE)) (\<lambda>claimed.
        if claimed then rt_return ()
        else rt_fail (BadRequest (''execution '' @ execution_id @ '' stdout is owned by another control plane process''))))"

definition handle_stdout_claim_failure :: "'b execute_env \<Rightarrow> string \<Rightarrow> string \<Rightarrow> SessionRuntimeError \<Rightarrow> ('b, unit) rt" where
  "handle_stdout_claim_failure ev thread_key execution_id error =
     (if error = ShuttingDown
      then rt_bind (rt_try (store_op (requeue_execution_if_running_without_stdout_owner (ex_now ev) execution_id))) (\<lambda>r.
        case r of
          Inr (Some _) \<Rightarrow> rt_return ()
        | _ \<Rightarrow> record_execution_failure ev thread_key execution_id error)
      else record_execution_failure ev thread_key execution_id error)"

section \<open>The sandbox's input\<close>

definition persona_model :: "'b runtime_env \<Rightarrow> Session \<Rightarrow> string option" where
  "persona_model ev session =
     Option.bind (rt_personas ev) (\<lambda>reg.
     Option.bind (ses_persona_id session) (\<lambda>p. model_for reg p (ses_harness_type session)))"

definition execution_traceparent :: "SessionExecution \<Rightarrow> string option" where
  "execution_traceparent execution =
     Option.bind (get_str ''centaur.traceparent'' (exe_metadata execution)) (\<lambda>v. nonempty_text (trim v))"

definition for_execution :: "string option \<Rightarrow> string option \<Rightarrow> string option \<Rightarrow> SessionTraceContext" where
  "for_execution span_traceparent persisted execution_id =
     \<lparr>trace_traceparent = or_else span_traceparent persisted, trace_execution_id = execution_id\<rparr>"

definition resolve_requester_principal :: "'b execute_env \<Rightarrow> string \<Rightarrow> json option \<Rightarrow> string option" where
  "resolve_requester_principal ev thread_key metadata =
     (case ex_register_requester ev thread_key metadata (create_if_missing (rt_admission (ex_runtime ev))) of
        Inr prn \<Rightarrow> map_option prn_id prn
      | Inl _ \<Rightarrow> None)"

definition resolve_sandbox_capabilities :: "'b runtime_env \<Rightarrow> string option \<Rightarrow> SandboxCapabilities runtime_result" where
  "resolve_sandbox_capabilities ev iron_control_principal =
     (case iron_control_principal of
        None \<Rightarrow> Inr default_enabled
      | Some p \<Rightarrow>
          (case rt_get_principal ev p of
             Inl e \<Rightarrow> Inl (IronControl e)
           | Inr prn \<Rightarrow> Inr (sandbox_capabilities_from_principal prn)))"

definition set_pipe :: "string \<Rightarrow> string list \<Rightarrow> ('b, unit) rt" where
  "set_pipe sandbox_id lines st = (st\<lparr>st_pipes := (st_pipes st)(sandbox_id \<mapsto> lines)\<rparr>, Inr ())"

definition ensure_session_pipe :: "'b execute_env \<Rightarrow> string \<Rightarrow> ('b, unit) rt" where
  "ensure_session_pipe ev sandbox_id st =
     (case st_pipes st sandbox_id of
        Some _ \<Rightarrow> (st, Inr ())
      | None \<Rightarrow> rt_bind (backend_op (open_io (rt_backend (ex_runtime ev)) sandbox_id)) (\<lambda>_. set_pipe sandbox_id []) st)"

definition codec_error_to_runtime :: "string \<Rightarrow> SessionRuntimeError" where
  "codec_error_to_runtime error = Sandbox (SbIo error)"

definition send_line :: "'b execute_env \<Rightarrow> string \<Rightarrow> string \<Rightarrow> ('b, unit) rt" where
  "send_line ev sandbox_id line st =
     (case ex_send_error ev sandbox_id line of
        Some error \<Rightarrow> (st, Inl (codec_error_to_runtime error))
      | None \<Rightarrow> (st\<lparr>st_pipes := (st_pipes st)(sandbox_id := map_option (\<lambda>ls. ls @ [line]) (st_pipes st sandbox_id))\<rparr>, Inr ()))"

fun write_input_lines :: "'b execute_env \<Rightarrow> string \<Rightarrow> string list \<Rightarrow> ('b, unit) rt" where
  "write_input_lines ev sandbox_id [] = rt_return ()"
| "write_input_lines ev sandbox_id (line # lines) =
     rt_bind (send_line ev sandbox_id line) (\<lambda>_. write_input_lines ev sandbox_id lines)"

section \<open>Executing a turn\<close>

text \<open>The claim, or the execution an earlier call with the same key already took further.\<close>

definition claim_execution ::
  "'b execute_env \<Rightarrow> string \<Rightarrow> ExecuteSessionInput \<Rightarrow> string option \<Rightarrow> string option \<Rightarrow>
   ('b, SessionExecution + ClaimExecutionResult) rt" where
  "claim_execution ev thread_key input persisted_execution_id model =
     (case persisted_execution_id of
        Some x \<Rightarrow> rt_bind (store_op (mark_execution_running (ex_now ev) x)) (\<lambda>c. rt_return (Inr c))
      | None \<Rightarrow>
          rt_bind (store_op (create_execution_with_request (ex_now ev) (ex_new_id ev) thread_key (in_idempotency_key input)
            (execution_metadata (in_metadata input) (in_idle_timeout_ms input) (in_max_duration_ms input) model)
            (persisted_execute_request input))) (\<lambda>created.
          if \<not> cre_created created \<and> exe_status (cre_execution created) \<noteq> Queued
          then rt_return (Inl (cre_execution created))
          else rt_bind (store_op (mark_execution_running (ex_now ev) (exe_execution_id (cre_execution created)))) (\<lambda>c.
            rt_return (Inr c))))"

text \<open>The timer a turn leaves behind: its maximal duration and the idle timeout that follows.\<close>

type_synonym duration_timer = "duration \<times> duration option"

definition persist_traceparent :: "'b execute_env \<Rightarrow> string \<Rightarrow> SessionExecution \<Rightarrow> string option \<Rightarrow> ('b, unit) rt" where
  "persist_traceparent ev thread_key execution traceparent =
     (case traceparent of
        Some t \<Rightarrow>
          if execution_traceparent execution \<noteq> Some t
          then rt_catch (store_op (set_execution_traceparent (ex_now ev) (exe_execution_id execution) t))
            (record_execution_failure ev thread_key (exe_execution_id execution))
          else rt_return ()
      | None \<Rightarrow> rt_return ())"

definition started_event :: "string \<Rightarrow> string \<Rightarrow> ExecuteSessionInput \<Rightarrow> json" where
  "started_event thread_key execution_id input =
     JObj [(''execution_id'', JStr execution_id), (''thread_key'', JStr thread_key),
       (''input_line_count'', JNat (length (in_input_lines input))),
       (''idle_timeout_ms'', opt_nat (in_idle_timeout_ms input)), (''max_duration_ms'', opt_nat (in_max_duration_ms input))]"

definition sandbox_request ::
  "'b execute_env \<Rightarrow> string \<Rightarrow> ExecuteSessionInput \<Rightarrow> Session \<Rightarrow> SandboxCapabilities \<Rightarrow> string \<Rightarrow> EnsureSessionSandboxRequest" where
  "sandbox_request ev thread_key input session capabilities execution_id =
     \<lparr>eq_thread_key = thread_key, eq_harness_type = ses_harness_type session, eq_persona_id = ses_persona_id session,
      eq_existing_sandbox_id = ses_sandbox_id session, eq_existing_sandbox_capabilities = ses_sandbox_capabilities session,
      eq_iron_control_principal = ses_iron_control_principal session,
      eq_requester_principal = resolve_requester_principal ev thread_key (in_metadata input),
      eq_proxy_labels = ses_proxy_labels session, eq_desired_capabilities = capabilities, eq_execution_id = execution_id\<rparr>"

text \<open>From the sandbox to the last line: each of these steps records its failure.\<close>

definition deliver_input ::
  "'b execute_env \<Rightarrow> EnsureSessionSandboxRequest \<Rightarrow> SessionTraceContext \<Rightarrow> string list \<Rightarrow> ('b, string) rt" where
  "deliver_input ev rq trace lines =
     (let failure = record_execution_failure ev (eq_thread_key rq) (eq_execution_id rq) in
      rt_bind (rt_catch (ensure_session_sandbox (ex_runtime ev) rq) failure) (\<lambda>sandbox_id.
      rt_bind (rt_catch (ensure_session_pipe ev sandbox_id) failure) (\<lambda>_.
      rt_bind (rt_catch (write_input_lines ev sandbox_id
          (input_lines_with_session_context (ex_parse ev) (ex_print ev) (eq_thread_key rq) trace (Some (eq_desired_capabilities rq)) lines))
        failure) (\<lambda>_.
      rt_return sandbox_id))))"

definition drive_owned ::
  "'b execute_env \<Rightarrow> string \<Rightarrow> ExecuteSessionInput \<Rightarrow> string list \<Rightarrow> SandboxCapabilities option \<Rightarrow> SessionExecution \<Rightarrow> Session \<Rightarrow>
   ('b, string) rt" where
  "drive_owned ev thread_key input lines pre_resolved execution session =
     (let x = exe_execution_id execution;
          traceparent = ex_span_traceparent ev (execution_traceparent execution)
      in
      rt_bind (persist_traceparent ev thread_key execution traceparent) (\<lambda>_.
      rt_bind (store_op (append_event (ex_now ev) thread_key (Some x) ''session.execution_started''
        (started_event thread_key x input))) (\<lambda>_.
      rt_bind (rt_result (case pre_resolved of
          Some c \<Rightarrow> Inr c
        | None \<Rightarrow> resolve_sandbox_capabilities (ex_runtime ev) (ses_iron_control_principal session))) (\<lambda>capabilities.
      deliver_input ev (sandbox_request ev thread_key input session capabilities x)
        (for_execution traceparent (or_else traceparent (execution_traceparent execution)) (Some x)) lines))))"

definition drive_claimed ::
  "'b execute_env \<Rightarrow> string \<Rightarrow> ExecuteSessionInput \<Rightarrow> string list \<Rightarrow> SandboxCapabilities option \<Rightarrow> SessionExecution \<Rightarrow> ('b, string) rt" where
  "drive_claimed ev thread_key input lines pre_resolved execution =
     (let x = exe_execution_id execution in
      rt_bind (store_read (\<lambda>db. get_session db thread_key)) (\<lambda>session.
      rt_bind (rt_catch (runtime_claim_stdout_owner ev x) (handle_stdout_claim_failure ev thread_key x)) (\<lambda>_.
      drive_owned ev thread_key input lines pre_resolved execution session)))"

definition pinned_lines :: "'b execute_env \<Rightarrow> Session \<Rightarrow> string list \<Rightarrow> string list" where
  "pinned_lines ev session lines =
     (case persona_model (ex_runtime ev) session of
        Some model \<Rightarrow> input_lines_with_persona_model (ex_parse ev) (ex_print ev) lines model
      | None \<Rightarrow> lines)"

definition execute_session_impl ::
  "'b execute_env \<Rightarrow> string \<Rightarrow> ExecuteSessionInput \<Rightarrow> string option \<Rightarrow> SandboxCapabilities option \<Rightarrow>
   ('b, SessionExecution \<times> duration_timer option) rt" where
  "execute_session_impl ev thread_key input persisted_execution_id pre_resolved =
     (if ex_shutting_down ev then rt_fail ShuttingDown
      else
      rt_bind (store_read (\<lambda>db. get_session db thread_key)) (\<lambda>session.
      rt_bind (rt_result (validate_input_lines (in_input_lines input))) (\<lambda>_.
      rt_bind (rt_result (duration_options (in_idle_timeout_ms input) (in_max_duration_ms input))) (\<lambda>(idle_timeout, max_duration).
      rt_bind (claim_execution ev thread_key input persisted_execution_id (persona_model (ex_runtime ev) session)) (\<lambda>claim.
        case claim of
          Inl replayed \<Rightarrow> rt_return (replayed, None)
        | Inr claim \<Rightarrow>
            (let execution = cla_execution claim in
             if exe_thread_key execution \<noteq> thread_key
             then rt_fail (BadRequest (''execution '' @ exe_execution_id execution @ '' belongs to thread '' @
               exe_thread_key execution @ '', not '' @ thread_key))
             else if \<not> cla_claimed claim then rt_return (execution, None)
             else rt_bind (drive_claimed ev thread_key input (pinned_lines ev session (in_input_lines input)) pre_resolved execution) (\<lambda>_.
               rt_return (execution, map_option (\<lambda>d. (d, idle_timeout)) max_duration))))))))"

definition drive_session_execution ::
  "'b execute_env \<Rightarrow> string \<Rightarrow> string \<Rightarrow> ExecuteSessionInput \<Rightarrow> ('b, SessionExecution \<times> duration_timer option) rt" where
  "drive_session_execution ev thread_key execution_id input =
     execute_session_impl ev thread_key input (Some execution_id) None"

definition load_persisted_execute_request :: "'b execute_env \<Rightarrow> string \<Rightarrow> ('b, ExecuteSessionInput) rt" where
  "load_persisted_execute_request ev execution_id =
     rt_bind (store_read (\<lambda>db. execution_request db execution_id)) (\<lambda>request.
     rt_result (deserialize_persisted_execute_request (ex_serde_error ev) execution_id request))"

text \<open>The result, and the input of the task that is spawned to drive the execution, if one is.\<close>

definition enqueue_session_execution ::
  "'b execute_env \<Rightarrow> string \<Rightarrow> ExecuteSessionInput \<Rightarrow> ('b, SessionExecution \<times> ExecuteSessionInput option) rt" where
  "enqueue_session_execution ev thread_key input =
     (if ex_shutting_down ev then rt_fail ShuttingDown
      else
      rt_bind (store_read (\<lambda>db. get_session db thread_key)) (\<lambda>session.
      rt_bind (rt_result (validate_input_lines (in_input_lines input))) (\<lambda>_.
      rt_bind (rt_result (duration_options (in_idle_timeout_ms input) (in_max_duration_ms input))) (\<lambda>_.
      rt_bind (store_op (create_execution_with_request (ex_now ev) (ex_new_id ev) thread_key (in_idempotency_key input)
        (execution_metadata (in_metadata input) (in_idle_timeout_ms input) (in_max_duration_ms input)
          (persona_model (ex_runtime ev) session))
        (persisted_execute_request input))) (\<lambda>created.
      if exe_status (cre_execution created) = Queued
      then rt_bind (if cre_created created then rt_return input
          else load_persisted_execute_request ev (exe_execution_id (cre_execution created))) (\<lambda>persisted.
        rt_return (cre_execution created, Some persisted))
      else rt_return (cre_execution created, None))))))"

section \<open>Relations a turn keeps\<close>

text \<open>The store calls of a process that owns the execution, and all store calls of a turn.\<close>

locale owned_relation = start_relation +
  assumes fail_owned: "R db (fst (fail_execution_if_active_and_stdout_owner now x ow e db))"
    and traceparent: "R db (fst (set_execution_traceparent now x tp db))"
    and claim_owner: "R db (fst (claim_stdout_owner clock now x ow lease db))"
begin

lemma keeps_catch: "call_keeps R m \<Longrightarrow> (\<And>e. call_keeps R (h e)) \<Longrightarrow> call_keeps R (rt_catch m h)"
  unfolding rt_catch_def by (auto intro!: keeps_bind keeps_try split: sum.split)

lemma keeps_failure: "call_keeps R (record_execution_failure ev k x e)"
  unfolding record_execution_failure_def Let_def
  by (auto intro!: keeps_bind keeps_try keeps_store fail_owned keeps_event split: sum.split option.split)

lemma keeps_claim_owner: "call_keeps R (runtime_claim_stdout_owner ev x)"
  unfolding runtime_claim_stdout_owner_def by (auto intro!: keeps_bind keeps_store claim_owner)

lemma keeps_pipe: "call_keeps R (ensure_session_pipe ev i)"
proof -
  have "call_keeps R (rt_bind (backend_op (open_io (rt_backend (ex_runtime ev)) i)) (\<lambda>_. set_pipe i []))"
    by (intro keeps_bind keeps_backend) (simp add: call_keeps_def set_pipe_def refl)
  then show ?thesis by (auto simp: call_keeps_def ensure_session_pipe_def refl split: option.split)
qed

lemma keeps_write: "call_keeps R (write_input_lines ev i lines)"
proof (induction lines)
  case (Cons line lines)
  have "call_keeps R (send_line ev i line)" by (simp add: call_keeps_def send_line_def refl split: option.split)
  then show ?case using Cons by (simp add: keeps_bind)
qed auto

lemma keeps_deliver:
  assumes "eq_thread_key rq = k"
  shows "call_keeps R (deliver_input ev rq trace lines)"
  unfolding deliver_input_def Let_def assms
  by (auto intro!: keeps_bind keeps_catch keeps_failure keeps_ensure [OF assms] keeps_pipe keeps_write)

lemma keeps_drive_owned: "call_keeps R (drive_owned ev k input lines pre e s)"
  unfolding drive_owned_def Let_def persist_traceparent_def
  by (auto intro!: keeps_bind keeps_catch keeps_failure keeps_store traceparent event keeps_deliver
      simp: sandbox_request_def split: option.split)

end

locale execute_relation = owned_relation +
  assumes requeue: "R db (fst (requeue_execution_if_running_without_stdout_owner now x db))"
    and mark: "R db (fst (mark_execution_running now x db))"
    and create_execution: "R db (fst (create_execution_with_request now x k idem m rq db))"
begin

lemma keeps_drive_claimed: "call_keeps R (drive_claimed ev k input lines pre e)"
  unfolding drive_claimed_def Let_def handle_stdout_claim_failure_def
  by (auto intro!: keeps_bind keeps_catch keeps_try keeps_failure keeps_claim_owner keeps_store requeue keeps_drive_owned
      split: sum.split option.split)

lemma keeps_execute: "call_keeps R (execute_session_impl ev k input persisted pre)"
proof -
  have d: "call_keeps R (drive_claimed ev (exe_thread_key e) input lines pre e)" if "k = exe_thread_key e" for lines e
    using keeps_drive_claimed that by simp
  show ?thesis
    unfolding execute_session_impl_def claim_execution_def Let_def
    by (auto intro!: keeps_bind keeps_store mark create_execution d split: sum.split option.split)
qed

lemma keeps_enqueue: "call_keeps R (enqueue_session_execution ev k input)"
  unfolding enqueue_session_execution_def load_persisted_execute_request_def
  by (auto intro!: keeps_bind keeps_store create_execution)

end

interpretation run: execute_relation "\<lambda>db db'. thread_key_parse k = Inr k \<longrightarrow> guarded_step\<^sup>*\<^sup>* db db'" k for k
  by unfold_locales (auto intro!: r_into_rtranclp guarded_step.intros)

text \<open>An execution that has left the queue does not return to it.\<close>

definition unqueued :: "string \<Rightarrow> db \<Rightarrow> bool" where
  "unqueued x db = (case row_by x_execution_id x (session_executions db) of None \<Rightarrow> False
     | Some r \<Rightarrow> x_status r \<noteq> execution_status_as_ref Queued)"

lemma unqueued_update:
  assumes "exec_update p f" and "\<And>r. p r \<Longrightarrow> x_status r \<noteq> execution_status_as_ref Queued \<Longrightarrow> x_status (f r) \<noteq> execution_status_as_ref Queued"
  shows "unqueued x db \<Longrightarrow> unqueued x (fst (upd_executions p f db))"
  using assms(2) keyed_update.row_after [OF exec_update.axioms(1) [OF assms(1)], of x "session_executions db"]
  by (auto simp: unqueued_def split: option.splits)

lemma unqueued_same: "session_executions db' = session_executions db \<Longrightarrow> unqueued x db' = unqueued x db"
  by (simp add: unqueued_def)

interpretation left_queue: owned_relation "\<lambda>db db'. unqueued x db \<longrightarrow> unqueued x db'" k for x k
proof (unfold_locales, goal_cases)
  case (12 db now y ow e)
  have "unqueued x db \<Longrightarrow> unqueued x (fst (upd_executions (active_owned_p y ow) (\<lambda>r. clear_owner (fail_f now e r)) db))"
    by (rule unqueued_update [OF fail_owned.exec_update_axioms]) (simp add: store_defs)
  then show ?case by (simp add: fail_execution_if_active_and_stdout_owner_def unqueued_def)
next
  case (13 db now y tp)
  have "unqueued x db \<Longrightarrow> unqueued x (fst (upd_executions (on_execution y) (traceparent_f now tp) db))"
    by (rule unqueued_update [OF traceparent.exec_update_axioms]) (simp add: store_defs)
  then show ?case by (simp add: set_execution_traceparent_def unqueued_def case_prod_beta)
next
  case (14 db clock now y ow lease)
  have "unqueued x db \<Longrightarrow> unqueued x (fst (upd_executions (claim_owner_p now y ow) (claim_owner_f now ow t) db))" for t
    by (rule unqueued_update [OF claim_owner.exec_update_axioms]) (simp add: store_defs)
  then show ?case by (simp add: claim_stdout_owner_def unqueued_def split: sum.split)
qed (auto simp: unqueued_def execution_frames)

end
