(* ===== verification/Turn_Delivery.thy ===== *)
theory Turn_Delivery
  imports Session_Execute
begin

text \<open>
  What a turn leaves behind, for \<^verbatim>\<open>execute_session_impl\<close> of \<^verbatim>\<open>crates/centaur-session-runtime/src/lib.rs\<close>:
  how every failure ends, what a sandbox is sent when it succeeds, and that several attempts at one execution send
  its input at most once.
\<close>

section \<open>What a failed attempt leaves\<close>

lemma rt_catch_ok: "rt_catch m h st = (st', Inr a) \<longleftrightarrow> m st = (st', Inr a)"
  by (auto simp: rt_catch_def rt_try_def rt_bind_def rt_return_def rt_fail_def split: prod.splits sum.splits)

lemma rt_catch_err:
  assumes "rt_catch m h st = (st', Inl e)" and "\<And>e st. snd (h e st) = Inr ()"
  obtains st1 where "m st = (st1, Inl e)" and "st' = (if is_panic e then st1 else fst (h e st1))"
proof (cases "m st")
  case (Pair st1 r)
  moreover have h: "h e' st1 = (fst (h e' st1), Inr ())" for e' using assms(2) by (metis prod.collapse)
  show thesis
  proof (cases r)
    case (Inl e')
    then show ?thesis
      using that assms(1) Pair h [of e']
      by (auto simp: rt_catch_def rt_try_def rt_bind_def rt_fail_def split: if_splits prod.splits sum.splits)
  next
    case (Inr a)
    then show ?thesis using assms(1) Pair by (simp add: rt_catch_def rt_try_def rt_bind_def rt_return_def)
  qed
qed

lemma rt_bind_err:
  "rt_bind m f st = (st', Inl e) \<longleftrightarrow> m st = (st', Inl e) \<or> (\<exists>st1 a. m st = (st1, Inr a) \<and> f a st1 = (st', Inl e))"
  by (auto simp: rt_bind_def split: prod.splits sum.splits)

lemma record_failure_ok [simp]: "snd (record_execution_failure ev k x e st) = Inr ()"
  by (simp add: record_execution_failure_def Let_def rt_bind_def rt_try_def rt_return_def store_quiet_def case_prod_beta
      split: sum.split option.split)

lemma record_failure_keeps [simp]:
  "st_pipes (fst (record_execution_failure ev k x e st)) = st_pipes st"
  "st_backend (fst (record_execution_failure ev k x e st)) = st_backend st"
  by (simp_all add: record_execution_failure_def Let_def rt_bind_def rt_try_def rt_return_def store_quiet_def store_op_def case_prod_beta
      split: sum.split option.split)

text \<open>The execution is this process's, and the execution has failed with a message and its event.\<close>

definition mine :: "'b execute_env \<Rightarrow> string \<Rightarrow> string \<Rightarrow> db \<Rightarrow> bool" where
  "mine ev k x db \<longleftrightarrow> store_inv db \<and>
     (case row_by x_execution_id x (session_executions db) of None \<Rightarrow> False
      | Some r \<Rightarrow> x_thread_key r = k \<and> x_status r = execution_status_as_ref Running \<and> x_stdout_owner_id r = Some (ex_owner_id ev))"

definition failed_with :: "string \<Rightarrow> string \<Rightarrow> db \<Rightarrow> bool" where
  "failed_with x message db \<longleftrightarrow>
     (case row_by x_execution_id x (session_executions db) of None \<Rightarrow> False
      | Some r \<Rightarrow> x_status r = execution_status_as_ref Failed \<and> x_error r = Some message \<and> x_stdout_owner_id r = None) \<and>
     session_events db \<noteq> [] \<and> e_execution_id (last (session_events db)) = Some x \<and>
     e_event_type (last (session_events db)) = ''session.execution_failed''"

lemma running_active: "x_status r = execution_status_as_ref Running \<Longrightarrow> active r"
  by (simp add: active_def)

lemma failure_recorded:
  assumes "mine ev k x (st_db st)"
  shows "failed_with x (runtime_error_message (ex_sqlx_message ev) e) (st_db (fst (record_execution_failure ev k x e st)))"
proof -
  let ?m = "runtime_error_message (ex_sqlx_message ev) e"
  let ?f = "\<lambda>r. clear_owner (fail_f (ex_now ev) ?m r)"
  let ?u = "upd_executions (active_owned_p x (ex_owner_id ev)) ?f (st_db st)"
  obtain r where r: "row_by x_execution_id x (session_executions (st_db st)) = Some r" "x_thread_key r = k"
    "x_status r = execution_status_as_ref Running" "x_stdout_owner_id r = Some (ex_owner_id ev)" and inv: "store_inv (st_db st)"
    using assms by (auto simp: mine_def split: option.splits)
  have p: "active_owned_p x (ex_owner_id ev) r"
    using r row_by_Some [OF r(1)] running_active by (auto simp: store_defs)
  have key: "\<And>r. active_owned_p x (ex_owner_id ev) r \<Longrightarrow> x_execution_id r = x"
    and stat: "x_status (?f r) = execution_status_as_ref Failed" by (simp_all add: store_defs)
  let ?s = "settle (ex_now ev) SessionFailed ?u"
  obtain e' where s: "?s = (set_session_status (ex_now ev) (x_thread_key r) SessionFailed (fst ?u), Inr (Some e'))"
    by (rule settled_row [OF fail_owned.exec_update_axioms [of x "ex_owner_id ev" "ex_now ev" ?m] inv r(1) key p stat])
  have row: "row_by x_execution_id x (session_executions (fst ?s)) = Some (?f r)"
    using r(1) p by (simp add: fail_owned.row_after)
  have "store_inv (fst ?s)" using inv by (rule fail_owned.settle_inv)
  moreover have "x_thread_key (?f r) = k" using r(2) by (simp add: store_defs)
  ultimately obtain v where "session_events (fst (append_event (ex_now ev) k (Some x) ''session.execution_failed'' pl (fst ?s))) =
      session_events (fst ?s) @ [new_event_row (ex_now ev) (next_event_id (fst ?s)) k (Some x) ''session.execution_failed'' pl]" for pl
    using append_event_ok [OF _ row] by metis
  then show ?thesis
    using s row
    by (simp add: record_execution_failure_def Let_def rt_bind_def rt_try_def store_op_def store_quiet_def
        fail_execution_if_active_and_stdout_owner_def failed_with_def execution_frames del: upd_executions_simps)
      (simp add: store_defs)
qed

interpretation same_executions: start_relation "\<lambda>db db'. session_executions db' = session_executions db" k for k
  by unfold_locales (simp_all add: execution_frames)

lemma execution_session:
  assumes "store_inv db" and "row_by x_execution_id x (session_executions db) = Some r"
  obtains s where "has_session db (x_thread_key r)" and "thread_key_parse (x_thread_key r) = Inr (x_thread_key r)"
    and "get_session db (x_thread_key r) = Inr s"
proof -
  have h: "has_session db (x_thread_key r)"
    using assms(1) row_by_Some [OF assms(2)] by (auto simp: has_session_def store_inv_def Let_def executions_inv_def)
  obtain sr where sr: "session_row_of db (x_thread_key r) = Some sr" "session_ok sr" "s_thread_key sr = x_thread_key r"
    by (rule session_row_at [OF assms(1) h])
  obtain s where "session_of_row sr = Inr s" by (rule session_of_row_ok [OF sr(2)])
  with h sr show thesis using that by (simp add: get_session_def session_ok_def)
qed

lemma mine_key: "mine ev k x db \<Longrightarrow> thread_key_parse k = Inr k"
  using execution_session by (auto simp: mine_def split: option.splits)

lemma mine_has: "mine ev k x db \<Longrightarrow> store_inv db \<and> has_session db k"
  using execution_session by (auto simp: mine_def split: option.splits)

lemma mine_kept: "mine ev k x db \<Longrightarrow> store_inv db' \<Longrightarrow> session_executions db' = session_executions db \<Longrightarrow> mine ev k x db'"
  by (simp add: mine_def)

lemma mine_ensure:
  assumes "mine ev k x (st_db st)" and "eq_thread_key rq = k" and "ensure_session_sandbox rv rq st = (st', res)"
  shows "mine ev k x (st_db st')"
proof (rule mine_kept [OF assms(1)])
  show "session_executions (st_db st') = session_executions (st_db st)"
    using call_keepsD [OF same_executions.keeps_ensure [OF assms(2)] assms(3)] .
  have "guarded_step\<^sup>*\<^sup>* (st_db st) (st_db st')"
    using call_keepsD [OF started.keeps_ensure [OF assms(2)] assms(3)] mine_key [OF assms(1)] by simp
  then show "store_inv (st_db st')" using assms(1) by (auto simp: mine_def intro: run_guarded_inv)
qed

lemma mine_event:
  assumes "mine ev k x db"
  obtains e where "snd (append_event now k (Some x) ty pl db) = Inr e" and "mine ev k x (fst (append_event now k (Some x) ty pl db))"
proof -
  obtain r where r: "row_by x_execution_id x (session_executions db) = Some r" "x_thread_key r = k" and inv: "store_inv db"
    using assms by (auto simp: mine_def split: option.splits)
  obtain e where "snd (append_event now k (Some x) ty pl db) = Inr e" by (rule append_event_ok [OF inv r])
  moreover have "mine ev k x (fst (append_event now k (Some x) ty pl db))"
    by (rule mine_kept [OF assms event_append_ops_inv(1) [OF inv]]) (simp add: execution_frames)
  ultimately show thesis using that by blast
qed

lemma mine_traceparent:
  assumes "mine ev k x (st_db st)" and "exe_execution_id e = x"
  obtains db' where "persist_traceparent ev k e tp st = (st\<lparr>st_db := db'\<rparr>, Inr ())" and "mine ev k x db'"
    and "sessions db' = sessions (st_db st)"
proof (cases "tp = None \<or> execution_traceparent e = tp")
  case True
  then show thesis using that [of "st_db st"] assms(1) by (auto simp: persist_traceparent_def rt_return_def split: option.split)
next
  case False
  then obtain t where t: "tp = Some t" "execution_traceparent e \<noteq> Some t" by auto
  obtain r where r: "row_by x_execution_id x (session_executions (st_db st)) = Some r" and inv: "store_inv (st_db st)"
    using assms(1) by (auto simp: mine_def split: option.splits)
  let ?u = "upd_executions (on_execution x) (traceparent_f (ex_now ev) t) (st_db st)"
  have "snd ?u = [traceparent_f (ex_now ev) t r]"
    using traceparent.returned_row [OF inv, of x x "ex_now ev" t] r row_by_Some [OF r] by (simp add: on_execution_def)
  then have "set_execution_traceparent (ex_now ev) x t (st_db st) = (fst ?u, Inr ())"
    by (simp add: set_execution_traceparent_def case_prod_beta)
  then have "persist_traceparent ev k e tp st = (st\<lparr>st_db := fst ?u\<rparr>, Inr ())"
    using t assms(2) by (simp add: persist_traceparent_def rt_catch_ok) (simp add: store_op_def)
  moreover have "mine ev k x (fst ?u)"
    using assms(1) r traceparent.inv_kept [OF inv, of x "ex_now ev" t]
    by (simp add: mine_def traceparent.row_after traceparent_f_def on_execution_def)
  ultimately show thesis using that by simp
qed

lemma touched_sessions: "sessions (fst (touched_rows p f db)) = sessions db"
  by (simp add: touched_rows_def case_prod_beta)

lemma map_prod_Inr: "map_prod id Inr u = (a, Inr b) \<longleftrightarrow> u = (a, b)"
  by (cases u) auto

lemma mine_claimed:
  assumes "store_inv (st_db st)" and "row_by x_execution_id x (session_executions (st_db st)) = Some r"
    and "x_thread_key r = k" and "x_status r = execution_status_as_ref Running"
    and "runtime_claim_stdout_owner ev x st = (st', Inr ())"
  shows "mine ev k x (st_db st')" and "st_pipes st' = st_pipes st" and "sessions (st_db st') = sessions (st_db st)"
proof -
  obtain t where t: "stdout_lease_expires_at (ex_clock ev) STDOUT_OWNER_LEASE = Inr t"
    and c: "touched_rows (claim_owner_p (ex_now ev) x (ex_owner_id ev)) (claim_owner_f (ex_now ev) (ex_owner_id ev) t) (st_db st) = (st_db st', True)"
    and st': "st' = st\<lparr>st_db := st_db st'\<rparr>"
    using assms(5) by (auto simp: runtime_claim_stdout_owner_def rt_bind_ok store_op_ok claim_stdout_owner_def map_prod_Inr split: if_splits sum.splits)
  have key: "\<And>r. claim_owner_p (ex_now ev) x (ex_owner_id ev) r \<Longrightarrow> x_execution_id r = x" by (simp add: claim_owner_p_def)
  have "row_by x_execution_id x (session_executions (st_db st')) = Some (claim_owner_f (ex_now ev) (ex_owner_id ev) t r)"
    using claim_owner.touched_row [of "st_db st" x r "ex_now ev" x "ex_owner_id ev" t, OF assms(1,2) key] c by simp
  moreover have "store_inv (st_db st')" using claim_owner.touched_inv [OF assms(1)] c by (metis fst_conv)
  ultimately show "mine ev k x (st_db st')" using assms(3,4) by (simp add: mine_def claim_owner_f_def)
  show "st_pipes st' = st_pipes st" by (subst st') simp
  show "sessions (st_db st') = sessions (st_db st)" using c touched_sessions by (metis fst_conv)
qed

text \<open>Streams: opening and writing a pipe leave the database.\<close>

lemma pipe_db: "ensure_session_pipe ev i st = (st', res) \<Longrightarrow> st_db st' = st_db st"
  by (auto simp: ensure_session_pipe_def backend_op_def backend_try_def rt_bind_def rt_return_def rt_fail_def set_pipe_def
      split: option.splits prod.splits sum.splits)

lemma write_db: "write_input_lines ev i lines st = (st', res) \<Longrightarrow> st_db st' = st_db st"
proof (induction lines arbitrary: st)
  case Nil
  then show ?case by (simp add: rt_return_def)
next
  case (Cons line lines)
  then show ?case by (fastforce simp: rt_bind_def send_line_def split: option.splits)
qed

lemma caught_failure:
  assumes "rt_catch m (record_execution_failure ev k x) st = (st', Inl e)" and "\<not> is_panic e"
    and "\<And>st1. m st = (st1, Inl e) \<Longrightarrow> mine ev k x (st_db st1)"
  shows "failed_with x (runtime_error_message (ex_sqlx_message ev) e) (st_db st')"
  using assms(1)
proof (rule rt_catch_err)
  fix st1
  assume "m st = (st1, Inl e)" "st' = (if is_panic e then st1 else fst (record_execution_failure ev k x e st1))"
  then show ?thesis using failure_recorded [OF assms(3)] assms(2) by simp
qed simp

lemma deliver_failed:
  assumes "mine ev k x (st_db st)" and "eq_thread_key rq = k" and "eq_execution_id rq = x"
    and "deliver_input ev rq trace lines st = (st', Inl e)" and "\<not> is_panic e"
  shows "failed_with x (runtime_error_message (ex_sqlx_message ev) e) (st_db st')"
proof -
  note ens = mine_ensure [OF assms(1,2)]
  let ?m = "\<lambda>st1. mine ev k x (st_db st1)"
  have pipe: "?m st2" if "?m st1" "ensure_session_pipe ev i st1 = (st2, r)" for st1 st2 i r
    using that pipe_db by metis
  have wr: "?m st2" if "?m st1" "write_input_lines ev i ls st1 = (st2, r)" for st1 st2 i r ls
    using that write_db by metis
  note caught = caught_failure [OF _ assms(5)]
  from assms(4) consider
      "rt_catch (ensure_session_sandbox (ex_runtime ev) rq) (record_execution_failure ev k x) st = (st', Inl e)"
    | i st1 where "ensure_session_sandbox (ex_runtime ev) rq st = (st1, Inr i)"
        "rt_catch (ensure_session_pipe ev i) (record_execution_failure ev k x) st1 = (st', Inl e)"
    | i st1 st2 ls where "ensure_session_sandbox (ex_runtime ev) rq st = (st1, Inr i)" "ensure_session_pipe ev i st1 = (st2, Inr ())"
        "rt_catch (write_input_lines ev i ls) (record_execution_failure ev k x) st2 = (st', Inl e)"
    unfolding deliver_input_def Let_def assms(2,3) by (auto simp: rt_bind_err rt_catch_ok rt_return_def)
  then show ?thesis
  proof cases
    case 1
    then show ?thesis by (rule caught) (rule ens)
  next
    case 2
    then show ?thesis using caught [OF 2(2)] pipe [OF ens [OF 2(1)]] by blast
  next
    case 3
    then show ?thesis using caught [OF 3(3)] wr [OF pipe [OF ens [OF 3(1)] 3(2)]] by blast
  qed
qed

text \<open>The one step of an owned execution whose failure is returned but not recorded.\<close>

lemma drive_owned_failed:
  assumes "mine ev k x (st_db st)" and "exe_execution_id ex = x"
    and "drive_owned ev k input lines pre ex session st = (st', Inl e)" and "\<not> is_panic e"
  shows "failed_with x (runtime_error_message (ex_sqlx_message ev) e) (st_db st') \<or>
    pre = None \<and> resolve_sandbox_capabilities (ex_runtime ev) (ses_iron_control_principal session) = Inl e \<and>
      mine ev k x (st_db st') \<and> st_pipes st' = st_pipes st"
proof -
  let ?tp = "ex_span_traceparent ev (execution_traceparent ex)"
  obtain db1 where t: "persist_traceparent ev k ex ?tp st = (st\<lparr>st_db := db1\<rparr>, Inr ())" "mine ev k x db1"
    by (rule mine_traceparent [OF assms(1,2)])
  let ?a = "append_event (ex_now ev) k (Some x) ''session.execution_started'' (started_event k x input) db1"
  obtain v where v: "snd ?a = Inr v" "mine ev k x (fst ?a)" by (rule mine_event [OF t(2)])
  then have a: "store_op (append_event (ex_now ev) k (Some x) ''session.execution_started'' (started_event k x input)) (st\<lparr>st_db := db1\<rparr>)
      = (st\<lparr>st_db := fst ?a\<rparr>, Inr v)" by (simp add: store_op_def case_prod_beta)
  let ?st = "st\<lparr>st_db := fst ?a\<rparr>"
  let ?caps = "case pre of Some c \<Rightarrow> Inr c | None \<Rightarrow> resolve_sandbox_capabilities (ex_runtime ev) (ses_iron_control_principal session)"
  have "rt_bind (rt_result ?caps) (\<lambda>capabilities. deliver_input ev (sandbox_request ev k input session capabilities x)
      (for_execution ?tp (or_else ?tp (execution_traceparent ex)) (Some x)) lines) ?st = (st', Inl e)"
    using assms(3) t(1) a unfolding drive_owned_def Let_def assms(2) by (simp add: rt_bind_def)
  then consider "?caps = Inl e" "st' = ?st"
    | c trace where "deliver_input ev (sandbox_request ev k input session c x) trace lines ?st = (st', Inl e)"
    by (auto simp: rt_bind_err rt_result_def)
  then show ?thesis
  proof cases
    case 1
    then show ?thesis using v(2) by (auto split: option.splits)
  next
    case 2
    then show ?thesis using deliver_failed [OF _ _ _ 2 assms(4)] v(2) by (simp add: sandbox_request_def)
  qed
qed

text \<open>An execution nobody owns can be claimed, except by a process that is shutting down: that one requeues it.\<close>

definition back_in_queue :: "string \<Rightarrow> db \<Rightarrow> bool" where
  "back_in_queue x db \<longleftrightarrow> (case row_by x_execution_id x (session_executions db) of None \<Rightarrow> False
     | Some r \<Rightarrow> x_status r = execution_status_as_ref Queued \<and> x_started_at r = None \<and> x_stdout_owner_id r = None)"

lemma free_claim:
  assumes "store_inv (st_db st)" and "row_by x_execution_id x (session_executions (st_db st)) = Some r"
    and "x_status r = execution_status_as_ref Running" and "x_stdout_owner_id r = None"
    and "runtime_claim_stdout_owner ev x st = (st', Inl e)" and "\<not> is_panic e"
  shows "e = ShuttingDown \<and> st' = st"
proof -
  have p: "claim_owner_p now x ow r" for now ow
    using row_by_Some [OF assms(2)] assms(3,4) running_active by (auto simp: claim_owner_p_def)
  have "snd (touched_rows (claim_owner_p now x ow) (claim_owner_f now ow t) (st_db st))" for now ow t
    using claim_owner.touched_row(1) [of "st_db st" x r now x ow t, OF assms(1,2)] p by (simp add: claim_owner_p_def)
  then show ?thesis
    using assms(5,6)
    by (auto simp: runtime_claim_stdout_owner_def rt_bind_err store_op_def claim_stdout_owner_def rt_fail_def rt_return_def
        is_panic_def stdout_lease_expires_at_def Let_def case_prod_beta split: if_splits sum.splits)
qed

lemma requeued:
  assumes "store_inv (st_db st)" and "row_by x_execution_id x (session_executions (st_db st)) = Some r"
    and "x_status r = execution_status_as_ref Running" and "x_stdout_owner_id r = None"
  shows "snd (handle_stdout_claim_failure ev k x ShuttingDown st) = Inr ()"
    and "back_in_queue x (st_db (fst (handle_stdout_claim_failure ev k x ShuttingDown st)))"
    and "st_pipes (fst (handle_stdout_claim_failure ev k x ShuttingDown st)) = st_pipes st"
proof -
  let ?u = "upd_executions (requeue_p x) (requeue_f (ex_now ev)) (st_db st)"
  have p: "requeue_p x r" using row_by_Some [OF assms(2)] assms(3,4) by (simp add: requeue_p_def)
  have key: "\<And>r. requeue_p x r \<Longrightarrow> x_execution_id r = x" and stat: "x_status (requeue_f (ex_now ev) r) = execution_status_as_ref Queued"
    by (simp_all add: store_defs)
  obtain e where s: "settle (ex_now ev) Idle ?u = (set_session_status (ex_now ev) (x_thread_key r) Idle (fst ?u), Inr (Some e))"
    by (rule settled_row [OF requeue.exec_update_axioms [of x "ex_now ev"] assms(1,2) key p stat])
  then have h: "handle_stdout_claim_failure ev k x ShuttingDown st =
      (st\<lparr>st_db := set_session_status (ex_now ev) (x_thread_key r) Idle (fst ?u)\<rparr>, Inr ())"
    by (simp add: handle_stdout_claim_failure_def rt_bind_def rt_try_def store_op_def rt_return_def
        requeue_execution_if_running_without_stdout_owner_def)
  have "row_by x_execution_id x (session_executions (fst ?u)) = Some (requeue_f (ex_now ev) r)"
    using assms(2) p by (simp add: requeue.row_after)
  then show "back_in_queue x (st_db (fst (handle_stdout_claim_failure ev k x ShuttingDown st)))"
    using assms(4) by (simp add: h back_in_queue_def requeue_f_def)
qed (simp_all add: handle_stdout_claim_failure_def rt_bind_def rt_try_def store_op_def rt_return_def case_prod_beta split: sum.split option.split)

lemma claim_failure_ok: "snd (handle_stdout_claim_failure ev k x e st) = Inr ()"
  by (auto simp: handle_stdout_claim_failure_def rt_bind_def rt_try_def rt_return_def case_prod_beta split: sum.split option.split)

lemma drive_claimed_failed:
  assumes "store_inv (st_db st)" and "row_by x_execution_id x (session_executions (st_db st)) = Some r"
    and "x_thread_key r = k" and "x_status r = execution_status_as_ref Running" and "x_stdout_owner_id r = None"
    and "exe_execution_id ex = x" and "drive_claimed ev k input lines pre ex st = (st', Inl e)" and "\<not> is_panic e"
  shows "e = ShuttingDown \<and> back_in_queue x (st_db st') \<and> st_pipes st' = st_pipes st \<or>
    failed_with x (runtime_error_message (ex_sqlx_message ev) e) (st_db st') \<or>
    pre = None \<and> (\<exists>s prn msg. get_session (st_db st) k = Inr s \<and> ses_iron_control_principal s = Some prn \<and>
        rt_get_principal (ex_runtime ev) prn = Inl msg \<and> e = IronControl msg) \<and>
      mine ev k x (st_db st') \<and> st_pipes st' = st_pipes st"
proof -
  obtain s where s: "get_session (st_db st) k = Inr s" using execution_session [OF assms(1,2)] assms(3) by blast
  let ?h = "handle_stdout_claim_failure ev k x"
  from assms(7) s consider "rt_catch (runtime_claim_stdout_owner ev x) ?h st = (st', Inl e)"
    | st1 where "runtime_claim_stdout_owner ev x st = (st1, Inr ())" "drive_owned ev k input lines pre ex s st1 = (st', Inl e)"
    by (auto simp: drive_claimed_def Let_def assms(6) rt_bind_err rt_catch_ok store_read_def store_op_def)
  then show ?thesis
  proof cases
    case 1
    obtain st1 where c: "runtime_claim_stdout_owner ev x st = (st1, Inl e)" and st': "st' = (if is_panic e then st1 else fst (?h e st1))"
      by (rule rt_catch_err [OF 1 claim_failure_ok])
    have "e = ShuttingDown" "st1 = st" using free_claim [OF assms(1,2,4,5) c assms(8)] by simp_all
    then show ?thesis using requeued(2,3) [OF assms(1,2,4,5)] assms(8) st' by simp
  next
    case 2
    note m = mine_claimed [OF assms(1-4) 2(1)]
    show ?thesis
      using drive_owned_failed [OF _ assms(6) 2(2) assms(8)] m s
      by (auto simp: resolve_sandbox_capabilities_def split: option.splits sum.splits)
  qed
qed

lemma drive_cases:
  assumes "store_inv (st_db st)" and "row_by x_execution_id x (session_executions (st_db st)) = Some r" and "x_thread_key r = k"
    and "drive_session_execution ev k x input st = (st', res)"
  obtains (refused) e where "st' = st" and "res = Inl e"
  | (not_queued) e where "x_status r \<noteq> execution_status_as_ref Queued" and "st' = st" and "res = Inr (e, None)"
      and "execution_of_row r = Inr e"
  | (driven) db1 ex s mx res1 where "x_status r = execution_status_as_ref Queued" and "store_inv db1"
      and "row_by x_execution_id x (session_executions db1) = Some (running_f (ex_now ev) r)"
      and "exe_execution_id ex = x" and "get_session (st_db st) k = Inr s"
      and "drive_claimed ev k input (pinned_lines ev s (in_input_lines input)) None ex (st\<lparr>st_db := db1\<rparr>) = (st', res1)"
      and "res = (case res1 of Inl e \<Rightarrow> Inl e | Inr _ \<Rightarrow> Inr (ex, mx))"
proof -
  obtain s where s: "get_session (st_db st) k = Inr s" using execution_session [OF assms(1,2)] assms(3) by blast
  let ?m = "mark_execution_running (ex_now ev) x (st_db st)"
  obtain e0 where e0: "execution_of_row r = Inr e0" using execution_row_decodes [OF assms(1)] row_by_Some [OF assms(2)] by blast
  note run = assms(4) [unfolded drive_session_execution_def execute_session_impl_def claim_execution_def Let_def]
  consider (bad) e where "st' = st" "res = Inl e"
    | (claim) idle mx where "\<not> ex_shutting_down ev" "validate_input_lines (in_input_lines input) = Inr ()"
        "duration_options (in_idle_timeout_ms input) (in_max_duration_ms input) = Inr (idle, mx)"
    using run s by (auto simp: rt_bind_def rt_fail_def rt_result_def store_read_def store_op_def split: if_splits sum.splits)
  then show thesis
  proof cases
    case bad
    then show thesis by (rule refused)
  next
    case claim
    show thesis
    proof (cases "x_status r = execution_status_as_ref Queued")
      case True
      obtain ex where m: "?m = (set_session_status (ex_now ev) (x_thread_key r) Executing
          (fst (upd_executions (mark_running_p x) (running_f (ex_now ev)) (st_db st))), Inr \<lparr>cla_execution = ex, cla_claimed = True\<rparr>)"
        and ex: "exe_execution_id ex = x" "execution_of_row (running_f (ex_now ev) r) = Inr ex"
        by (rule mark_queued [OF assms(1,2) True])
      have inv: "store_inv (fst ?m)" using assms(1) by (rule mark_execution_running_inv)
      have row: "row_by x_execution_id x (session_executions (fst ?m)) = Some (running_f (ex_now ev) r)"
        using assms(2) True row_by_Some [OF assms(2)] by (simp add: mark_frame mark_running.row_after mark_running_p_def)
      have k: "exe_thread_key ex = k" using execution_of_row_columns(2) [OF ex(2)] assms(3) by (simp add: running_f_def)
      obtain st1 res1 where d: "drive_claimed ev k input (pinned_lines ev s (in_input_lines input)) None ex (st\<lparr>st_db := fst ?m\<rparr>) = (st1, res1)"
        by fastforce
      then have "st' = st1 \<and> res = (case res1 of Inl e \<Rightarrow> Inl e | Inr _ \<Rightarrow> Inr (ex, map_option (\<lambda>d. (d, idle)) mx))"
        using run s claim k m by (auto simp: rt_bind_def rt_result_def rt_return_def store_read_def store_op_def split: sum.splits)
      then show thesis using driven [OF True inv row ex(1) s] d by simp
    next
      case False
      have "st' = st \<and> res = Inr (e0, None)"
        using run s claim mark_not_queued [OF assms(1,2) False e0, of "ex_now ev"] execution_of_row_columns(2) [OF e0] assms(3)
        by (auto simp: rt_bind_def rt_result_def rt_return_def store_read_def store_op_def)
      then show thesis using not_queued False e0 by blast
    qed
  qed
qed


section \<open>What a turn sends\<close>

lemma write_sent:
  assumes "write_input_lines ev i lines st = (st', Inr ())" and "st_pipes st i = Some old"
  shows "st_pipes st' = (st_pipes st)(i \<mapsto> old @ lines)"
  using assms
proof (induction lines arbitrary: st old)
  case Nil
  then show ?case by (auto simp: fun_upd_idem)
next
  case (Cons line lines)
  then have "write_input_lines ev i lines (st\<lparr>st_pipes := (st_pipes st)(i \<mapsto> old @ [line])\<rparr>) = (st', Inr ())"
    by (auto simp: rt_bind_ok send_line_def split: option.splits)
  from Cons.IH [OF this] show ?case by (simp add: fun_eq_iff)
qed

lemma pipe_opened:
  assumes "ensure_session_pipe ev i st = (st', Inr ())"
  obtains old where "st_pipes st' = (st_pipes st)(i \<mapsto> old)" and "old = [] \<or> st_pipes st i = Some old"
proof (cases "st_pipes st i")
  case None
  then have "st_pipes st' = (st_pipes st)(i \<mapsto> [])"
    using assms by (auto simp: ensure_session_pipe_def rt_bind_ok backend_op_def backend_try_def set_pipe_def split: prod.splits sum.splits)
  then show thesis using that by blast
next
  case (Some old)
  then show thesis using that [of old] assms by (auto simp: ensure_session_pipe_def fun_upd_idem)
qed

text \<open>Getting a sandbox opens no pipe and writes none.\<close>

definition pipes_fit :: "('b, 'a) rt \<Rightarrow> bool" where
  "pipes_fit m \<longleftrightarrow> (\<forall>st. st_pipes (fst (m st)) \<subseteq>\<^sub>m st_pipes st)"

lemma pipes_fit_basic [intro!]:
  "pipes_fit (rt_return a)" "pipes_fit (rt_fail e)" "pipes_fit (rt_result r)" "pipes_fit (store_op f)" "pipes_fit (store_read g)"
  "pipes_fit (store_quiet h)" "pipes_fit (backend_try c)" "pipes_fit (remove_pipe i)" "pipes_fit (pool_try ev wk wc)"
  by (auto simp: pipes_fit_def rt_return_def rt_fail_def rt_result_def store_op_def store_read_def store_quiet_def backend_try_def
      remove_pipe_def pool_try_def map_le_def split: prod.splits)

lemma pipes_fit_bind [intro!]:
  assumes "pipes_fit m" and "\<And>a. pipes_fit (f a)"
  shows "pipes_fit (rt_bind m f)"
proof -
  have "st_pipes (fst (rt_bind m f st)) \<subseteq>\<^sub>m st_pipes st" for st
  proof (cases "m st")
    case (Pair st1 r)
    then have 1: "st_pipes st1 \<subseteq>\<^sub>m st_pipes st" using assms(1) by (metis pipes_fit_def fst_conv)
    show ?thesis
    proof (cases r)
      case (Inr a)
      have "st_pipes (fst (f a st1)) \<subseteq>\<^sub>m st_pipes st1" using assms(2) by (simp add: pipes_fit_def)
      then show ?thesis using 1 Pair Inr by (simp add: rt_bind_def map_le_trans)
    qed (use 1 Pair in \<open>simp add: rt_bind_def\<close>)
  qed
  then show ?thesis by (simp add: pipes_fit_def)
qed

lemma pipes_fit_try [intro!]: "pipes_fit m \<Longrightarrow> pipes_fit (rt_try m)"
  by (simp add: pipes_fit_def rt_try_def case_prod_beta)

lemma pipes_fit_capacity [intro!]: "pipes_fit m \<Longrightarrow> pipes_fit (run_with_running_capacity ev op m)"
  unfolding run_with_running_capacity_def running_slot_count_def backend_op_def by (auto split: option.split sum.split)

lemma pipes_fit_backend [intro!]: "pipes_fit (backend_op c)"
  unfolding backend_op_def by (intro pipes_fit_bind pipes_fit_basic) (auto split: sum.split)

lemma pipes_fit_ready [intro!]: "pipes_fit (record_sandbox_ready ev rq i source d)"
  unfolding record_sandbox_ready_def by (intro pipes_fit_bind pipes_fit_basic)

lemma pipes_fit_proxy [intro!]: "pipes_fit (ensure_proxy ev rq i)"
  unfolding ensure_proxy_def by (auto split: option.split)

lemma pipes_fit_stop [intro!]: "pipes_fit (stop_or_missing ev i)"
  unfolding stop_or_missing_def by (auto split: sum.split SandboxError.split)

lemma pipes_fit_resume [intro!]: "pipes_fit (resume_existing ev rq i)"
proof -
  have "pipes_fit (case r of
      Inr _ \<Rightarrow>
        rt_bind (ensure_proxy ev rq i) (\<lambda>_.
        rt_bind (store_op f) (\<lambda>_.
        rt_bind (record_sandbox_ready ev rq i ''resumed'' None) (\<lambda>_.
        rt_return (Some i))))
    | Inl (Sandbox e) \<Rightarrow> rt_bind (store_op (g e)) (\<lambda>_. rt_return None)
    | Inl e \<Rightarrow> rt_fail e)" for r :: "SessionRuntimeError + unit" and f and g :: "SandboxError \<Rightarrow> db \<Rightarrow> db \<times> SessionEvent store_result"
    by (auto split: sum.split SessionRuntimeError.split)
  then show ?thesis unfolding resume_existing_def by (intro pipes_fit_bind pipes_fit_basic pipes_fit_try pipes_fit_capacity pipes_fit_backend)
qed

lemma pipes_fit_use [intro!]: "pipes_fit (use_existing ev rq i)"
proof -
  have "pipes_fit (case a of
      Reuse \<Rightarrow>
        rt_bind (ensure_proxy ev rq i) (\<lambda>_.
        rt_bind (record_sandbox_ready ev rq i ''reused'' None) (\<lambda>_.
        rt_return (Some i)))
    | ResumeOrReplace \<Rightarrow> resume_existing ev rq i
    | ReplaceSandbox \<Rightarrow> rt_return None)" for a
    by (auto split: ExistingSandboxAction.split)
  then show ?thesis
    unfolding use_existing_def by (intro pipes_fit_bind pipes_fit_basic) (auto split: sum.split SandboxError.split)
qed

lemma pipes_fit_existing [intro!]: "pipes_fit (existing_sandbox ev rq)"
  unfolding existing_sandbox_def replace_capabilities_def by (auto split: option.split)

lemma pipes_fit_warm [intro!]: "pipes_fit (claim_warm ev rq pool)"
  unfolding claim_warm_def by (auto split: option.split sum.split)

lemma pipes_fit_cold [intro!]: "pipes_fit (create_cold ev rq spec)"
  unfolding create_cold_def by auto

lemma ensure_pipes: "pipes_fit (ensure_session_sandbox ev rq)"
  unfolding ensure_session_sandbox_def Let_def by (auto split: option.split)

lemma request_is_current:
  assumes "get_session db k = Inr s" and "sessions db' = sessions db"
  shows "request_current (sandbox_request ev k input s c x) db'"
  using assms session_of_row_columns(2,3)
  by (auto simp: request_current_def sandbox_request_def get_session_def sandbox_columns_def split: option.splits)

lemma deliver_sent:
  assumes "mine ev k x (st_db st)" and "eq_thread_key rq = k" and "request_current rq (st_db st)"
    and "deliver_input ev rq trace lines st = (st', Inr i)"
  obtains old where "mine ev k x (st_db st')" and "assigned k i (eq_desired_capabilities rq) (st_db st')"
    and "old = [] \<or> st_pipes st i = Some old"
    and "st_pipes st' i = Some (old @ input_lines_with_session_context (ex_parse ev) (ex_print ev) k trace (Some (eq_desired_capabilities rq)) lines)"
    and "\<And>j. j \<noteq> i \<Longrightarrow> st_pipes st' j = None \<or> st_pipes st' j = st_pipes st j"
proof -
  obtain st1 st2 where e: "ensure_session_sandbox (ex_runtime ev) rq st = (st1, Inr i)" and p: "ensure_session_pipe ev i st1 = (st2, Inr ())"
    and w: "write_input_lines ev i (input_lines_with_session_context (ex_parse ev) (ex_print ev) k trace (Some (eq_desired_capabilities rq)) lines) st2
      = (st', Inr ())"
    using assms(4) unfolding deliver_input_def Let_def assms(2) by (auto simp: rt_bind_ok rt_catch_ok)
  obtain old where old: "st_pipes st2 = (st_pipes st1)(i \<mapsto> old)" "old = [] \<or> st_pipes st1 i = Some old" by (rule pipe_opened [OF p])
  have db: "st_db st' = st_db st1" using pipe_db [OF p] write_db [OF w] by simp
  have fit: "st_pipes st1 \<subseteq>\<^sub>m st_pipes st" using ensure_pipes e by (metis pipes_fit_def fst_conv)
  have none: "st_pipes st1 j = None \<or> st_pipes st1 j = st_pipes st j" for j
    using fit by (cases "st_pipes st1 j") (auto simp: map_le_def dom_def)
  have st': "st_pipes st' = (st_pipes st2)(i \<mapsto> old @ input_lines_with_session_context (ex_parse ev) (ex_print ev) k trace
      (Some (eq_desired_capabilities rq)) lines)"
    by (rule write_sent [OF w]) (simp add: old(1))
  show thesis
  proof (rule that)
    show "mine ev k x (st_db st')" using mine_ensure [OF assms(1,2) e] db by simp
    show "assigned k i (eq_desired_capabilities rq) (st_db st')" using ensure_assigns [OF assms(3) e] assms(2) db by simp
    show "old = [] \<or> st_pipes st i = Some old" using old(2) none [of i] by auto
    show "st_pipes st' j = None \<or> st_pipes st' j = st_pipes st j" if "j \<noteq> i" for j using st' old(1) none [of j] that by simp
  qed (simp add: st')
qed

lemma drive_owned_sent:
  assumes "mine ev k x (st_db st)" and "exe_execution_id ex = x" and "get_session db k = Inr session" and "sessions (st_db st) = sessions db"
    and "drive_owned ev k input lines pre ex session st = (st', Inr i)"
  obtains old c trace where "mine ev k x (st_db st')" and "assigned k i c (st_db st')" and "trace_execution_id trace = Some x"
    and "old = [] \<or> st_pipes st i = Some old"
    and "st_pipes st' i = Some (old @ input_lines_with_session_context (ex_parse ev) (ex_print ev) k trace (Some c) lines)"
    and "\<And>j. j \<noteq> i \<Longrightarrow> st_pipes st' j = None \<or> st_pipes st' j = st_pipes st j"
proof -
  let ?tp = "ex_span_traceparent ev (execution_traceparent ex)"
  obtain db1 where t: "persist_traceparent ev k ex ?tp st = (st\<lparr>st_db := db1\<rparr>, Inr ())" "mine ev k x db1" "sessions db1 = sessions (st_db st)"
    by (rule mine_traceparent [OF assms(1,2)])
  let ?a = "append_event (ex_now ev) k (Some x) ''session.execution_started'' (started_event k x input) db1"
  let ?st = "st\<lparr>st_db := fst ?a\<rparr>"
  let ?trace = "for_execution ?tp (or_else ?tp (execution_traceparent ex)) (Some x)"
  obtain v where v: "snd ?a = Inr v" "mine ev k x (fst ?a)" by (rule mine_event [OF t(2)])
  obtain c where d: "deliver_input ev (sandbox_request ev k input session c x) ?trace lines ?st = (st', Inr i)"
    using assms(5) t(1) v(1) unfolding drive_owned_def Let_def assms(2)
    by (auto simp: rt_bind_ok store_op_def case_prod_beta split: sum.splits)
  have cur: "request_current (sandbox_request ev k input session c x) (st_db ?st)"
    using assms(3,4) t(3) by (intro request_is_current [of db]) simp_all
  have tr: "trace_execution_id ?trace = Some x" by (simp add: for_execution_def)
  have m: "mine ev k x (st_db ?st)" "eq_thread_key (sandbox_request ev k input session c x) = k"
    "eq_desired_capabilities (sandbox_request ev k input session c x) = c" "st_pipes ?st = st_pipes st"
    using v(2) by (simp_all add: sandbox_request_def)
  show thesis
    by (rule deliver_sent [OF m(1,2) cur d], unfold m(3,4)) (rule that [OF _ _ tr], assumption+)
qed

text \<open>C15. A process that drives a queued execution to success has sent its input, with the session's context and
  the model its persona pins, as the last lines of the pipe to the sandbox the session is stored with, and to no
  other sandbox; it owns the running execution. Driving an execution that is not queued changes nothing and
  returns it as it is.\<close>

theorem input_delivered:
  assumes "store_inv (st_db st)" and "row_by x_execution_id x (session_executions (st_db st)) = Some r" and "x_thread_key r = k"
    and "drive_session_execution ev k x input st = (st', Inr (e, timer))"
  shows "if x_status r = execution_status_as_ref Queued
    then mine ev k x (st_db st') \<and> (\<exists>i c trace old s. assigned k i c (st_db st') \<and> trace_execution_id trace = Some x \<and>
      get_session (st_db st) k = Inr s \<and> (old = [] \<or> st_pipes st i = Some old) \<and>
      st_pipes st' i = Some (old @ input_lines_with_session_context (ex_parse ev) (ex_print ev) k trace (Some c)
        (pinned_lines ev s (in_input_lines input))) \<and>
      (\<forall>j. j = i \<or> st_pipes st' j = None \<or> st_pipes st' j = st_pipes st j))
    else st' = st \<and> timer = None \<and> execution_of_row r = Inr e"
  using assms
proof (cases rule: drive_cases)
  case (driven db1 ex s mx res1)
  let ?lines = "pinned_lines ev s (in_input_lines input)"
  obtain i where c: "drive_claimed ev k input ?lines None ex (st\<lparr>st_db := db1\<rparr>) = (st', Inr i)"
    using driven(6,7) by (auto split: sum.splits)
  then obtain st1 session where cl: "runtime_claim_stdout_owner ev x (st\<lparr>st_db := db1\<rparr>) = (st1, Inr ())" and g: "get_session db1 k = Inr session"
    and o: "drive_owned ev k input ?lines None ex session st1 = (st', Inr i)"
    by (auto simp: drive_claimed_def Let_def driven(4) rt_bind_ok rt_catch_ok store_read_def store_op_ok)
  have m: "mine ev k x (st_db st1)" "st_pipes st1 = st_pipes st" "sessions (st_db st1) = sessions db1"
    using mine_claimed [OF _ _ _ _ cl, of _ k] driven(2,3) assms(3) by (simp_all add: running_f_def)
  show ?thesis
    using drive_owned_sent [OF m(1) driven(4) g m(3) o] driven(1,5) m(2) by (simp, metis)
qed simp_all

section \<open>Several attempts at one execution\<close>

definition wrote :: "'b runtime_state \<Rightarrow> 'b runtime_state \<Rightarrow> bool" where
  "wrote st st' \<longleftrightarrow> (\<exists>i ls. st_pipes st' i = Some ls \<and> ls \<noteq> [] \<and> st_pipes st i \<noteq> Some ls)"

text \<open>
  Attempts at execution \<open>x\<close>, one after the other: each by a process with its own environment and pipes, on the
  database and the backend as the attempts before left them. The result says which attempts wrote a line.
\<close>

fun attempts ::
  "string \<Rightarrow> string \<Rightarrow> ('b execute_env \<times> ExecuteSessionInput \<times> (string \<rightharpoonup> string list)) list \<Rightarrow> 'b runtime_state \<Rightarrow> bool list" where
  "attempts k x [] st = []"
| "attempts k x ((ev, input, pipes) # rest) st =
     (let st0 = st\<lparr>st_pipes := pipes\<rparr>; st1 = fst (drive_session_execution ev k x input st0)
      in wrote st0 st1 # attempts k x rest st1)"

lemma not_wrote: "st_pipes st' = st_pipes st \<Longrightarrow> \<not> wrote st st'"
  by (auto simp: wrote_def)

lemma handler_pipes: "st_pipes (fst (handle_stdout_claim_failure ev k x e st)) = st_pipes st"
  by (simp add: handle_stdout_claim_failure_def rt_bind_def rt_try_def store_op_def rt_return_def case_prod_beta split: sum.split option.split)

lemma claim_pipes: "runtime_claim_stdout_owner ev x st = (st', res) \<Longrightarrow> st_pipes st' = st_pipes st"
  by (auto simp: runtime_claim_stdout_owner_def rt_bind_def rt_fail_def rt_return_def store_op_def split: if_splits prod.splits sum.splits)

lemma drive_claimed_leaves:
  assumes "unqueued x (st_db st)" and "exe_execution_id ex = x" and "drive_claimed ev k input lines pre ex st = (st', res)"
  shows "st_pipes st' = st_pipes st \<or> unqueued x (st_db st')"
proof (cases "get_session (st_db st) k")
  case (Inl e)
  then show ?thesis using assms(3) by (auto simp: drive_claimed_def Let_def rt_bind_def store_read_def store_op_def)
next
  case (Inr session)
  let ?c = "runtime_claim_stdout_owner ev x" and ?h = "handle_stdout_claim_failure ev k x"
  have run: "rt_bind (rt_catch ?c ?h) (\<lambda>_. drive_owned ev k input lines pre ex session) st = (st', res)"
    using assms(3) Inr by (simp add: drive_claimed_def Let_def assms(2) rt_bind_def store_read_def store_op_def)
  obtain st1 r where c: "?c st = (st1, r)" by fastforce
  show ?thesis
  proof (cases r)
    case (Inl e)
    obtain st2 r2 where h: "rt_catch ?c ?h st = (st2, r2)" by fastforce
    then obtain e' where "r2 = Inl e'" using rt_catch_ok [of ?c ?h st] c Inl by (cases r2) auto
    then have "rt_catch ?c ?h st = (st', Inl e')" using run h by (simp add: rt_bind_def)
    then obtain st3 where "?c st = (st3, Inl e')" "st' = (if is_panic e' then st3 else fst (?h e' st3))"
      by (rule rt_catch_err [OF _ claim_failure_ok])
    then show ?thesis using claim_pipes [of ev x st] by (simp add: handler_pipes)
  next
    case (Inr u)
    then have "rt_catch ?c ?h st = (st1, Inr u)" using c by (simp add: rt_catch_ok)
    then have "drive_owned ev k input lines pre ex session st1 = (st', res)" using run by (simp add: rt_bind_def)
    from call_keepsD [OF left_queue.keeps_drive_owned this] call_keepsD [OF left_queue.keeps_claim_owner c] show ?thesis
      using assms(1) by simp
  qed
qed

lemma attempt_step:
  assumes "store_inv (st_db st)" and "row_by x_execution_id x (session_executions (st_db st)) = Some r" and "x_thread_key r = k"
    and "drive_session_execution ev k x input st = (st', res)"
  shows "store_inv (st_db st') \<and> (\<exists>r'. row_by x_execution_id x (session_executions (st_db st')) = Some r' \<and> x_thread_key r' = k)"
    and "unqueued x (st_db st) \<Longrightarrow> st' = st" and "wrote st st' \<Longrightarrow> unqueued x (st_db st')"
proof -
  have "thread_key_parse k = Inr k" using execution_session [OF assms(1,2)] assms(3) by blast
  then have g: "guarded_step\<^sup>*\<^sup>* (st_db st) (st_db st')"
    using call_keepsD [OF run.keeps_execute assms(4) [unfolded drive_session_execution_def]] by simp
  obtain r' where "row_by x_execution_id x (session_executions (st_db st')) = Some r'" "x_thread_key r' = k"
    using run_identity [OF g assms(2)] assms(3) by metis
  then show "store_inv (st_db st') \<and> (\<exists>r'. row_by x_execution_id x (session_executions (st_db st')) = Some r' \<and> x_thread_key r' = k)"
    using run_guarded_inv [OF g assms(1)] by blast
  from assms show "st' = st" if "unqueued x (st_db st)"
    using that by (cases rule: drive_cases) (simp_all add: unqueued_def assms(2))
  from assms show "unqueued x (st_db st')" if "wrote st st'"
  proof (cases rule: drive_cases)
    case (driven db1 ex s mx res1)
    have "unqueued x db1" using driven(3) by (simp add: unqueued_def running_f_def)
    then show ?thesis using drive_claimed_leaves [OF _ driven(4,6)] that not_wrote [of st' st] by auto
  qed (use that in \<open>auto simp: wrote_def\<close>)
qed

lemma attempts_unqueued:
  assumes "store_inv (st_db st)" and "row_by x_execution_id x (session_executions (st_db st)) = Some r" and "x_thread_key r = k"
    and "unqueued x (st_db st)"
  shows "True \<notin> set (attempts k x as st)"
  using assms
proof (induction as arbitrary: st)
  case (Cons a as)
  obtain ev input pipes where a: "a = (ev, input, pipes)" by (cases a)
  let ?st = "st\<lparr>st_pipes := pipes\<rparr>"
  obtain st1 res where d: "drive_session_execution ev k x input ?st = (st1, res)" by fastforce
  have "st1 = ?st" by (rule attempt_step(2) [OF _ _ Cons.prems(3) d]) (use Cons.prems in simp_all)
  with d show ?case using Cons.IH [of ?st] Cons.prems by (simp add: a Let_def not_wrote)
qed simp

text \<open>C14. The input of an execution reaches at most one sandbox pipe, however many processes try to drive it, with
  whatever inputs and outcomes: once an attempt has written a line, no later attempt writes any.\<close>

theorem delivered_at_most_once:
  assumes "store_inv (st_db st)" and "row_by x_execution_id x (session_executions (st_db st)) = Some r" and "x_thread_key r = k"
  shows "count_list (attempts k x as st) True \<le> 1"
  using assms
proof (induction as arbitrary: st r)
  case (Cons a as)
  obtain ev input pipes where a: "a = (ev, input, pipes)" by (cases a)
  let ?st = "st\<lparr>st_pipes := pipes\<rparr>"
  obtain st1 res where d: "drive_session_execution ev k x input ?st = (st1, res)" by fastforce
  have inv: "store_inv (st_db ?st)" and row: "row_by x_execution_id x (session_executions (st_db ?st)) = Some r" using Cons.prems by simp_all
  note step = attempt_step [OF inv row Cons.prems(3) d]
  obtain r1 where r1: "store_inv (st_db st1)" "row_by x_execution_id x (session_executions (st_db st1)) = Some r1" "x_thread_key r1 = k"
    using step(1) by blast
  show ?case
  proof (cases "wrote ?st st1")
    case True
    then have "count_list (attempts k x as st1) True = 0" using attempts_unqueued [OF r1 step(3)] by simp
    then show ?thesis using d by (simp add: a Let_def)
  next
    case False
    then show ?thesis using Cons.IH [OF r1] d by (simp add: a Let_def)
  qed
qed simp

section \<open>An admitted attempt\<close>

text \<open>A request that passes the checks, in a process that is not shutting down, takes a free queued execution.\<close>

definition admitted :: "'b execute_env \<Rightarrow> ExecuteSessionInput \<Rightarrow> bool" where
  "admitted ev input \<longleftrightarrow> \<not> ex_shutting_down ev \<and> \<not> ex_shutting_down_at_claim ev \<and>
     validate_input_lines (in_input_lines input) = Inr () \<and>
     \<not> isl (duration_options (in_idle_timeout_ms input) (in_max_duration_ms input)) \<and>
     \<not> isl (stdout_lease_expires_at (ex_clock ev) STDOUT_OWNER_LEASE)"

lemma claim_free:
  assumes "store_inv (st_db st)" and "row_by x_execution_id x (session_executions (st_db st)) = Some r"
    and "x_thread_key r = k" and "x_status r = execution_status_as_ref Running" and "x_stdout_owner_id r = None"
    and "admitted ev input"
  obtains st' where "runtime_claim_stdout_owner ev x st = (st', Inr ())" and "mine ev k x (st_db st')" and "st_pipes st' = st_pipes st"
    and "sessions (st_db st') = sessions (st_db st)" and "st_backend st' = st_backend st"
    and "session_events (st_db st') = session_events (st_db st)"
proof -
  obtain t where t: "stdout_lease_expires_at (ex_clock ev) STDOUT_OWNER_LEASE = Inr t" using assms(6)
    by (cases "stdout_lease_expires_at (ex_clock ev) STDOUT_OWNER_LEASE") (auto simp: admitted_def)
  let ?c = "touched_rows (claim_owner_p (ex_now ev) x (ex_owner_id ev)) (claim_owner_f (ex_now ev) (ex_owner_id ev) t) (st_db st)"
  have key: "\<And>r. claim_owner_p (ex_now ev) x (ex_owner_id ev) r \<Longrightarrow> x_execution_id r = x" by (simp add: claim_owner_p_def)
  have "claim_owner_p (ex_now ev) x (ex_owner_id ev) r"
    using row_by_Some [OF assms(2)] assms(4,5) running_active by (auto simp: claim_owner_p_def)
  then have "snd ?c" using claim_owner.touched_row(1) [of "st_db st" x r, OF assms(1,2) key] by simp
  then have c: "runtime_claim_stdout_owner ev x st = (st\<lparr>st_db := fst ?c\<rparr>, Inr ())"
    using assms(6) t by (simp add: runtime_claim_stdout_owner_def admitted_def rt_bind_def store_op_def claim_stdout_owner_def rt_return_def case_prod_beta)
  show thesis
    by (rule that [OF c]) (use mine_claimed [OF assms(1-4) c] in \<open>simp_all add: touched_rows_def case_prod_beta\<close>)
qed

lemma admitted_drive:
  assumes "store_inv (st_db st)" and "row_by x_execution_id x (session_executions (st_db st)) = Some r" and "x_thread_key r = k"
    and "x_status r = execution_status_as_ref Queued" and "x_stdout_owner_id r = None" and "admitted ev input"
    and "get_session (st_db st) k = Inr s0"
  obtains st1 ex s mx where "mine ev k x (st_db st1)" and "exe_execution_id ex = x" and "exe_metadata ex = x_metadata r"
    and "st_pipes st1 = st_pipes st" and "st_backend st1 = st_backend st" and "session_events (st_db st1) = session_events (st_db st)"
    and "get_session (st_db st1) k = Inr s" and "ses_iron_control_principal s = ses_iron_control_principal s0"
    and "ses_sandbox_id s = ses_sandbox_id s0" and "ses_persona_id s = ses_persona_id s0"
    and "\<And>st' res. drive_owned ev k input (pinned_lines ev s0 (in_input_lines input)) None ex s st1 = (st', res) \<Longrightarrow>
      drive_session_execution ev k x input st = (st', case res of Inl e \<Rightarrow> Inl e | Inr _ \<Rightarrow> Inr (ex, mx))"
proof -
  let ?m = "mark_execution_running (ex_now ev) x (st_db st)" and ?r = "running_f (ex_now ev) r"
  obtain ex where m: "?m = (set_session_status (ex_now ev) (x_thread_key r) Executing
      (fst (upd_executions (mark_running_p x) (running_f (ex_now ev)) (st_db st))), Inr \<lparr>cla_execution = ex, cla_claimed = True\<rparr>)"
    and ex: "exe_execution_id ex = x" "execution_of_row ?r = Inr ex"
    by (rule mark_queued [OF assms(1,2,4)])
  have inv: "store_inv (fst ?m)" using assms(1) by (rule mark_execution_running_inv)
  have row: "row_by x_execution_id x (session_executions (fst ?m)) = Some ?r"
    using assms(2,4) row_by_Some [OF assms(2)] by (simp add: mark_frame mark_running.row_after mark_running_p_def)
  have k: "exe_thread_key ex = k" using execution_of_row_columns(2) [OF ex(2)] assms(3) by (simp add: running_f_def)
  obtain idle mx where dur: "duration_options (in_idle_timeout_ms input) (in_max_duration_ms input) = Inr (idle, mx)"
    using assms(6) by (cases "duration_options (in_idle_timeout_ms input) (in_max_duration_ms input)") (auto simp: admitted_def)
  obtain s where s: "get_session (fst ?m) k = Inr s" using execution_session [OF inv row] assms(3) by (auto simp: running_f_def)
  obtain sr where sr: "session_row_of (st_db st) k = Some sr" "session_of_row sr = Inr s0"
    using assms(7) by (auto simp: get_session_def split: option.splits)
  then have "session_row_of (fst ?m) k = Some (if s_thread_key sr = k then status_f (ex_now ev) Executing sr else sr)"
    using m assms(3) by (simp add: set_session_status_def session_status_upd.row_after)
  then have sm: "session_of_row (if s_thread_key sr = k then status_f (ex_now ev) Executing sr else sr) = Inr s"
    using s by (simp add: get_session_def)
  have cols: "ses_iron_control_principal s = ses_iron_control_principal s0" "ses_sandbox_id s = ses_sandbox_id s0"
    "ses_persona_id s = ses_persona_id s0"
    using session_of_row_columns(2,6,8) [OF sm] session_of_row_columns(2,6,8) [OF sr(2)] by (simp_all add: status_f_def)
  have claim: "x_thread_key ?r = k" "x_status ?r = execution_status_as_ref Running" "x_stdout_owner_id ?r = None"
    using assms(3,5) by (simp_all add: running_f_def)
  obtain st1 where c: "runtime_claim_stdout_owner ev x (st\<lparr>st_db := fst ?m\<rparr>) = (st1, Inr ())" "mine ev k x (st_db st1)"
    "st_pipes st1 = st_pipes st" "sessions (st_db st1) = sessions (fst ?m)" "st_backend st1 = st_backend st"
    "session_events (st_db st1) = session_events (fst ?m)"
    using claim_free [of "st\<lparr>st_db := fst ?m\<rparr>" x ?r k ev input] inv row claim assms(6) by auto
  show thesis
  proof (rule that [OF c(2) ex(1) _ c(3,5) _ _ cols])
    show "exe_metadata ex = x_metadata r" using execution_of_row_columns(8) [OF ex(2)] by (simp add: running_f_def)
    show "session_events (st_db st1) = session_events (st_db st)" using c(6) m by simp
    show "get_session (st_db st1) k = Inr s" using s c(4) by (simp add: get_session_def)
    show "drive_session_execution ev k x input st =
        (st', case res of Inl e \<Rightarrow> Inl e | Inr _ \<Rightarrow> Inr (ex, map_option (\<lambda>d. (d, idle)) mx))"
      if d: "drive_owned ev k input (pinned_lines ev s0 (in_input_lines input)) None ex s st1 = (st', res)" for st' res
    proof -
      have "rt_catch (runtime_claim_stdout_owner ev x) (handle_stdout_claim_failure ev k x) (st\<lparr>st_db := fst ?m\<rparr>) = (st1, Inr ())"
        using c(1) by (simp add: rt_catch_ok)
      then have "drive_claimed ev k input (pinned_lines ev s0 (in_input_lines input)) None ex (st\<lparr>st_db := fst ?m\<rparr>) = (st', res)"
        using d s ex(1) by (simp add: drive_claimed_def Let_def rt_bind_def store_read_def store_op_def)
      then show ?thesis
        using assms(6,7) dur m k
        by (simp add: drive_session_execution_def execute_session_impl_def claim_execution_def admitted_def rt_bind_def rt_result_def rt_return_def
            store_read_def store_op_def split: sum.split)
    qed
  qed
qed

section \<open>Examples\<close>

definition example_execute :: "nat execute_env" where
  "example_execute =
     \<lparr>ex_runtime = example_runtime, ex_owner_id = ''cp-1'', ex_shutting_down = False, ex_shutting_down_at_claim = False, ex_clock = 8,
      ex_new_id = ''exe_2'', ex_parse = (\<lambda>_. None), ex_print = jsonb_out, ex_serde_error = (\<lambda>_. []), ex_sqlx_message = (\<lambda>_. []),
      ex_span_traceparent = (\<lambda>_. None), ex_register_requester = (\<lambda>_ _ _. Inr None), ex_send_error = (\<lambda>_ _. None)\<rparr>"

definition example_queued :: "nat runtime_state" where
  "example_queued = \<lparr>st_db = example_exec_db, st_backend = 0, st_pipes = Map.empty\<rparr>"

lemma example_queued_row:
  "store_inv (st_db example_queued)" "row_by x_execution_id ''exe_1'' (session_executions (st_db example_queued)) = Some example_row"
  "x_thread_key example_row = ''api:1''" "x_status example_row = execution_status_as_ref Queued" "x_stdout_owner_id example_row = None"
  by (simp_all add: example_queued_def example_exec_db_inv example_exec_row new_execution_row_def)

lemma example_admitted: "admitted example_execute example_input"
  by (simp add: admitted_def example_execute_def example_input_def validate_input_lines_def duration_options_def transpose_result_def
      nonzero_duration_millis_def stdout_lease_expires_at_def STDOUT_OWNER_LEASE_def MAX_OFFSET_DATE_TIME_def Let_def)

lemma example_ensures:
  assumes "store_inv (st_db st)" and "has_session (st_db st) (eq_thread_key rq)" and "st_backend st = 0"
    and "eq_persona_id rq = None" and "eq_existing_sandbox_id rq = None"
  shows "\<exists>st'. ensure_session_sandbox example_runtime rq st = (st', Inr ''sb-0'')"
proof -
  obtain db s where a: "update_sandbox_assignment 8 (eq_thread_key rq) ''sb-0'' (eq_desired_capabilities rq) (st_db st) = (db, Inr s)"
    using sandbox_assignment_round_trip [OF assms(1,2)] by metis
  have n: "show_nat 0 = ''0''" by code_simp
  show ?thesis
    using a assms(3-5)
    by (simp add: ensure_session_sandbox_def Let_def rt_bind_def rt_result_def rt_return_def resolve_stored_persona_def
        resolve_persona_context_def existing_sandbox_def claim_warm_def matching_pool_def example_runtime_def
        create_cold_def run_with_running_capacity_def running_slot_count_def backend_op_def backend_try_def store_read_def store_op_def
        list_observed_def create_running_def example_env_def example_backend_def n record_sandbox_ready_def store_quiet_def)
qed

lemma example_session_columns:
  obtains s where "get_session (st_db example_queued) ''api:1'' = Inr s" and "ses_persona_id s = None" and "ses_sandbox_id s = None"
    and "ses_iron_control_principal s = None"
proof -
  obtain s where s: "session_of_row example_session_row = Inr s" "get_session example_db ''api:1'' = Inr s"
    by (rule example_session)
  have "sessions example_exec_db = sessions example_db"
    using example_db_has by (simp add: example_exec_db_def create_execution_with_request_def insert_execution_def example_db_sessions empty_db_def)
  with s session_of_row_columns(2,6,8) [OF s(1)] show thesis
    using that by (simp add: example_queued_def get_session_def new_session_row_def)
qed

lemma example_driven:
  obtains st' e where "drive_session_execution example_execute ''api:1'' ''exe_1'' example_input example_queued = (st', Inr e)"
proof -
  obtain s0 where s0: "get_session (st_db example_queued) ''api:1'' = Inr s0" "ses_persona_id s0 = None" "ses_sandbox_id s0 = None"
    "ses_iron_control_principal s0 = None" by (rule example_session_columns)
  obtain st1 ex s mx where d: "mine example_execute ''api:1'' ''exe_1'' (st_db st1)" "exe_execution_id ex = ''exe_1''"
    "st_backend st1 = st_backend example_queued" "get_session (st_db st1) ''api:1'' = Inr s"
    "ses_iron_control_principal s = ses_iron_control_principal s0" "ses_sandbox_id s = ses_sandbox_id s0" "ses_persona_id s = ses_persona_id s0"
    and run: "\<And>st' res. drive_owned example_execute ''api:1'' example_input (pinned_lines example_execute s0 (in_input_lines example_input))
        None ex s st1 = (st', res) \<Longrightarrow>
      drive_session_execution example_execute ''api:1'' ''exe_1'' example_input example_queued = (st', case res of Inl e \<Rightarrow> Inl e | Inr _ \<Rightarrow> Inr (ex, mx))"
    using admitted_drive [OF example_queued_row example_admitted s0(1)] by metis
  let ?a = "append_event 8 ''api:1'' (Some ''exe_1'') ''session.execution_started'' (started_event ''api:1'' ''exe_1'' example_input) (st_db st1)"
  obtain v where v: "snd ?a = Inr v" "mine example_execute ''api:1'' ''exe_1'' (fst ?a)" by (rule mine_event [OF d(1)])
  let ?rq = "sandbox_request example_execute ''api:1'' example_input s default_enabled ''exe_1''"
  obtain st2 where e: "ensure_session_sandbox example_runtime ?rq (st1\<lparr>st_db := fst ?a\<rparr>) = (st2, Inr ''sb-0'')"
    using example_ensures [of "st1\<lparr>st_db := fst ?a\<rparr>" ?rq] mine_has [OF v(2)] d s0
    by (auto simp: sandbox_request_def example_queued_def)
  have sel: "ex_span_traceparent example_execute t = None" "ex_now example_execute = 8" for t
    by (simp_all add: example_execute_def example_runtime_def example_env_def)
  have lines: "input_lines_with_session_context (ex_parse example_execute) p k tr c ls = ls" for p k tr c ls
    by (simp add: input_lines_with_session_context_def input_line_with_session_context_def example_execute_def map_idI)
  have pin: "pinned_lines example_execute s0 ls = ls" for ls
    by (simp add: pinned_lines_def persona_model_def s0(2) bind_eq_None_conv split: option.split)
  have w: "\<exists>st'. write_input_lines example_execute i ls st = (st', Inr ())" for i ls st
    by (induction ls arbitrary: st) (simp_all add: rt_bind_def rt_return_def send_line_def example_execute_def)
  have p: "\<exists>st'. ensure_session_pipe example_execute i st = (st', Inr ())" for i st
    by (simp add: ensure_session_pipe_def rt_bind_def backend_op_def backend_try_def open_io_def set_pipe_def rt_return_def
        example_execute_def example_runtime_def example_env_def example_backend_def split: option.split)
  obtain st3 where st3: "ensure_session_pipe example_execute ''sb-0'' st2 = (st3, Inr ())" using p by blast
  obtain st4 where st4: "write_input_lines example_execute ''sb-0'' (in_input_lines example_input) st3 = (st4, Inr ())" using w by blast
  have "deliver_input example_execute ?rq tr (in_input_lines example_input) (st1\<lparr>st_db := fst ?a\<rparr>) = (st4, Inr ''sb-0'')" for tr
    using e st3 st4 lines
    by (auto simp: deliver_input_def Let_def rt_bind_ok rt_catch_ok sandbox_request_def example_execute_def)
  then have "drive_owned example_execute ''api:1'' example_input (pinned_lines example_execute s0 (in_input_lines example_input)) None ex s st1
      = (st4, Inr ''sb-0'')"
    using v(1) d(2,5) s0(4) sel
    by (simp add: drive_owned_def Let_def rt_bind_ok store_op_def case_prod_beta pin persist_traceparent_def resolve_sandbox_capabilities_def)
  from run [OF this] show thesis using that by simp
qed

theorem input_delivered_witness:
  "\<exists>st' e. drive_session_execution example_execute ''api:1'' ''exe_1'' example_input example_queued = (st', Inr e) \<and>
     mine example_execute ''api:1'' ''exe_1'' (st_db st')"
proof -
  obtain st' e where d: "drive_session_execution example_execute ''api:1'' ''exe_1'' example_input example_queued = (st', Inr e)"
    by (rule example_driven)
  obtain ex timer where e: "e = (ex, timer)" by (cases e)
  show ?thesis
    using input_delivered [OF example_queued_row(1-3) d [unfolded e]] d e example_queued_row(4) by auto
qed

theorem delivered_at_most_once_witness:
  "count_list (attempts ''api:1'' ''exe_1'' [(example_execute, example_input, Map.empty), (example_execute, example_input, Map.empty)]
     example_queued) True \<le> 1"
  by (rule delivered_at_most_once [OF example_queued_row(1-3)])


end
