(* ===== verification/Orphan_Adoption.thy ===== *)
theory Orphan_Adoption
  imports Turn_Delivery
begin

text \<open>
  Executions a control plane leaves behind, in \<^verbatim>\<open>crates/centaur-session-runtime/src/lib.rs\<close>: the orphan scan and
  how it adopts, fails or defers an execution, the lease renewer, and the handoff at shutdown. The tasks a scan
  spawns are part of its result. The runtime's \<^verbatim>\<open>SystemTime::now\<close> is the process clock.
\<close>

section \<open>Adopting one execution\<close>

datatype OrphanAdoption = Adopted | Deferred | OrphanFailed | Skipped

text \<open>The tasks spawned: driving a queued request, the rest of a maximal duration, an idle pause.\<close>

datatype spawned =
    DriveQueued string string ExecuteSessionInput
  | MaxDurationTimer string duration "duration option"
  | PauseWhenIdle idle_pause

definition age_since :: "'b execute_env \<Rightarrow> time \<Rightarrow> duration" where
  "age_since ev t = nat (ex_clock ev - t)"

definition sandbox_status_debug :: "(string \<Rightarrow> string) \<Rightarrow> SandboxStatus \<Rightarrow> string" where
  "sandbox_status_debug debug status =
     (case status of
        SbCreated \<Rightarrow> ''Created''
      | SbRunning \<Rightarrow> ''Running''
      | SbSuspended \<Rightarrow> ''Suspended''
      | SbStopped \<Rightarrow> ''Stopped''
      | SbGone \<Rightarrow> ''Gone''
      | SbUnknown s \<Rightarrow> ''Unknown('' @ debug s @ '')'')"

definition sandbox_dead_detail :: "(string \<Rightarrow> string) \<Rightarrow> SandboxStatus \<Rightarrow> string option \<Rightarrow> string" where
  "sandbox_dead_detail debug status reason =
     (case reason of
        Some r \<Rightarrow> ''sandbox no longer accepts io (status '' @ sandbox_status_debug debug status @ '', reason '' @ r @ '')''
      | None \<Rightarrow> ''sandbox no longer accepts io (status '' @ sandbox_status_debug debug status @ '')'')"

definition record_adoption_deferral :: "'b execute_env \<Rightarrow> SessionExecution \<Rightarrow> ('b, unit) rt" where
  "record_adoption_deferral ev execution =
     store_quiet (append_event (ex_now ev) (exe_thread_key execution) (Some (exe_execution_id execution))
       ''session.execution_adoption_deferred'' (JObj [(''reason'', JStr ''stdout_owner_lease_active'')]))"

definition runtime_claim_expired_stdout_owner :: "'b execute_env \<Rightarrow> string \<Rightarrow> ('b, bool) rt" where
  "runtime_claim_expired_stdout_owner ev execution_id =
     store_op (claim_expired_stdout_owner (ex_clock ev) (ex_now ev) execution_id (ex_owner_id ev) STDOUT_OWNER_LEASE)"

definition record_terminal ::
  "'b execute_env \<Rightarrow> string \<Rightarrow> string \<Rightarrow> string \<Rightarrow> TerminalOutput \<Rightarrow> ('b, spawned list) rt" where
  "record_terminal ev thread_key sandbox_id execution_id terminal st =
     (case record_terminal_output (ex_now ev) (ex_owner_id ev) thread_key sandbox_id execution_id terminal (st_db st) of
        (db', r) \<Rightarrow> (st\<lparr>st_db := db'\<rparr>, res_map (\<lambda>p. case p of None \<Rightarrow> [] | Some q \<Rightarrow> [PauseWhenIdle q]) r))"

definition fail_orphaned_execution ::
  "'b execute_env \<Rightarrow> string \<Rightarrow> string \<Rightarrow> string \<Rightarrow> string \<Rightarrow> ('b, spawned list) rt" where
  "fail_orphaned_execution ev thread_key execution_id sandbox_id detail =
     (let failure =
            rt_bind (rt_try (record_terminal ev thread_key sandbox_id execution_id
              (TFailed (''execution orphaned by control plane restart; '' @ detail)))) (\<lambda>r.
            rt_return (case r of Inl _ \<Rightarrow> [] | Inr tasks \<Rightarrow> tasks))
      in
      rt_bind (rt_try (store_op (claim_stdout_owner (ex_clock ev) (ex_now ev) execution_id (ex_owner_id ev) STDOUT_OWNER_LEASE))) (\<lambda>claim.
      case claim of
        Inl e \<Rightarrow> if is_panic e then rt_fail e else failure
      | Inr _ \<Rightarrow> failure))"

definition young :: "'b execute_env \<Rightarrow> duration option \<Rightarrow> time \<Rightarrow> bool" where
  "young ev grace since = (case grace of None \<Rightarrow> False | Some g \<Rightarrow> age_since ev since < g)"

definition adopt_queued ::
  "'b execute_env \<Rightarrow> SessionExecution \<Rightarrow> duration option \<Rightarrow> ('b, OrphanAdoption \<times> spawned list) rt" where
  "adopt_queued ev execution grace =
     (let k = exe_thread_key execution; x = exe_execution_id execution;
          unrecovered = (\<lambda>e.
            rt_bind (fail_orphaned_execution ev k x [] (''queued request could not be recovered: '' @ e)) (\<lambda>tasks.
            rt_return (OrphanFailed, tasks)))
      in
      rt_bind (rt_try (store_read (\<lambda>db. execution_request db x))) (\<lambda>r.
        case r of
          Inl e \<Rightarrow> unrecovered (runtime_error_message (ex_sqlx_message ev) e)
        | Inr request \<Rightarrow>
            if request = JObj [] \<and> young ev grace (exe_created_at execution) then rt_return (Skipped, [])
            else case deserialize_persisted_execute_request (ex_serde_error ev) x request of
              Inl e \<Rightarrow> unrecovered (runtime_error_message (ex_sqlx_message ev) e)
            | Inr input \<Rightarrow>
                rt_bind (store_quiet (append_event (ex_now ev) k (Some x) ''session.execution_adopted''
                  (JObj [(''mode'', JStr ''queued_request'')]))) (\<lambda>_.
                rt_return (Adopted, [DriveQueued k x input]))))"

definition adopted_event :: "string \<Rightarrow> string \<Rightarrow> json" where
  "adopted_event sandbox_id mode = JObj [(''sandbox_id'', JStr sandbox_id), (''mode'', JStr mode)]"

text \<open>With the lease claimed: the recorded output may hold the end of the turn, or the pump is attached again.\<close>

definition adopt_claimed ::
  "'b execute_env \<Rightarrow> SessionExecution \<Rightarrow> string \<Rightarrow> ('b, OrphanAdoption \<times> spawned list) rt" where
  "adopt_claimed ev execution sandbox_id =
     (let k = exe_thread_key execution; x = exe_execution_id execution;
          since = (case exe_started_at execution of Some t \<Rightarrow> t | None \<Rightarrow> exe_created_at execution)
      in
      rt_bind (backend_try (read_output_since (rt_backend (ex_runtime ev)) sandbox_id (Some since))) (\<lambda>r.
      case terminal_output_from_lines (ex_parse ev) (case r of Inr lines \<Rightarrow> lines | Inl _ \<Rightarrow> []) of
        None \<Rightarrow> rt_fail (Store (Panic ''recorded output''))
      | Some (Some terminal) \<Rightarrow>
          rt_bind (store_quiet (append_event (ex_now ev) k (Some x) ''session.execution_adopted'' (adopted_event sandbox_id ''recorded_output''))) (\<lambda>_.
          rt_bind (record_terminal ev k sandbox_id x terminal) (\<lambda>tasks.
          rt_return (Adopted, tasks)))
      | Some None \<Rightarrow>
          rt_bind (rt_try (ensure_session_pipe ev sandbox_id)) (\<lambda>r.
            case r of
              Inl e \<Rightarrow> rt_bind (store_quiet (release_stdout_owner (ex_now ev) x (ex_owner_id ev))) (\<lambda>_. rt_fail e)
            | Inr _ \<Rightarrow>
                rt_bind (store_quiet (append_event (ex_now ev) k (Some x) ''session.execution_adopted'' (adopted_event sandbox_id ''live_attach''))) (\<lambda>_.
                rt_return (Adopted, case max_duration_from_execution execution of
                    None \<Rightarrow> []
                  | Some d \<Rightarrow> [MaxDurationTimer x (d - age_since ev since) (idle_timeout_from_execution execution)])))))"

definition adopt_running ::
  "'b execute_env \<Rightarrow> SessionExecution \<Rightarrow> bool \<Rightarrow> duration option \<Rightarrow> ('b, OrphanAdoption \<times> spawned list) rt" where
  "adopt_running ev execution record_deferral grace =
     (let k = exe_thread_key execution; x = exe_execution_id execution;
          failed = (\<lambda>sb detail. rt_bind (fail_orphaned_execution ev k x sb detail) (\<lambda>tasks. rt_return (OrphanFailed, tasks)))
      in
      rt_bind (store_read (\<lambda>db. get_session db k)) (\<lambda>session.
      case ses_sandbox_id session of
        None \<Rightarrow>
          if young ev grace (case exe_started_at execution of Some t \<Rightarrow> t | None \<Rightarrow> exe_created_at execution)
          then rt_return (Skipped, [])
          else failed [] ''orphaned with no sandbox assigned''
      | Some sandbox_id \<Rightarrow>
          rt_bind (backend_try (manager_observe (rt_backend (ex_runtime ev)) sandbox_id)) (\<lambda>r.
            case (case r of Inr ob \<Rightarrow> Inr (o_status ob, o_reason ob) | Inl (SbNotFound _) \<Rightarrow> Inr (SbGone, None) | Inl e \<Rightarrow> Inl e) of
              Inl e \<Rightarrow> rt_fail (Sandbox e)
            | Inr (status, reason) \<Rightarrow>
                if \<not> can_open_io status then failed sandbox_id (sandbox_dead_detail (rt_debug (ex_runtime ev)) status reason)
                else rt_bind (runtime_claim_expired_stdout_owner ev x) (\<lambda>claimed.
                  if \<not> claimed
                  then rt_bind (if record_deferral then record_adoption_deferral ev execution else rt_return ()) (\<lambda>_.
                    rt_return (Deferred, []))
                  else adopt_claimed ev execution sandbox_id))))"

definition adopt_orphaned_execution ::
  "'b execute_env \<Rightarrow> SessionExecution \<Rightarrow> bool \<Rightarrow> duration option \<Rightarrow> ('b, OrphanAdoption \<times> spawned list) rt" where
  "adopt_orphaned_execution ev execution record_deferral grace =
     (if exe_status execution = Queued then adopt_queued ev execution grace
      else adopt_running ev execution record_deferral grace)"

section \<open>The scan\<close>

text \<open>One candidate: whether its deferral is remembered, and the tasks spawned.\<close>

definition scan_candidate ::
  "'b execute_env \<Rightarrow> string set \<Rightarrow> duration option \<Rightarrow> ActiveExecutionOwnership \<Rightarrow> ('b, bool \<times> spawned list) rt" where
  "scan_candidate ev deferred grace candidate =
     (let x = exe_execution_id (own_execution candidate) in
      if own_stdout_owner_lease_active candidate
      then if own_stdout_owner_id candidate = Some (ex_owner_id ev) then rt_return (False, [])
        else rt_bind (if x \<notin> deferred then record_adoption_deferral ev (own_execution candidate) else rt_return ()) (\<lambda>_.
          rt_return (True, []))
      else rt_bind (rt_try (adopt_orphaned_execution ev (own_execution candidate) (x \<notin> deferred) grace)) (\<lambda>r.
        case r of
          Inr (adoption, tasks) \<Rightarrow> rt_return (adoption = Deferred, tasks)
        | Inl e \<Rightarrow> if is_panic e then rt_fail e else rt_return (x \<in> deferred, [])))"

fun scan_candidates ::
  "'b execute_env \<Rightarrow> string set \<Rightarrow> duration option \<Rightarrow> ActiveExecutionOwnership list \<Rightarrow> ('b, string set \<times> spawned list) rt" where
  "scan_candidates ev deferred grace [] = rt_return ({}, [])"
| "scan_candidates ev deferred grace (c # cs) =
     rt_bind (scan_candidate ev deferred grace c) (\<lambda>(kept, tasks).
     rt_bind (scan_candidates ev deferred grace cs) (\<lambda>(kept_rest, tasks_rest).
     rt_return (if kept then insert (exe_execution_id (own_execution c)) kept_rest else kept_rest, tasks @ tasks_rest)))"

definition run_orphan_adoption_scan ::
  "'b execute_env \<Rightarrow> duration option \<Rightarrow> string set \<Rightarrow> ('b, string set \<times> spawned list) rt" where
  "run_orphan_adoption_scan ev grace deferred =
     rt_bind (rt_try (store_read (list_active_executions_with_ownership (ex_now ev)))) (\<lambda>r.
       case r of
         Inl _ \<Rightarrow> rt_return (deferred, [])
       | Inr executions \<Rightarrow> scan_candidates ev deferred grace executions)"

section \<open>Renewal and handoff\<close>

text \<open>
  The renewer, over its ticks: the clocks of each, and what happened to the database while it slept. The result says
  whether it still runs.
\<close>

fun stdout_owner_renewer :: "string \<Rightarrow> string \<Rightarrow> (time \<times> time \<times> (db \<Rightarrow> db)) list \<Rightarrow> db \<Rightarrow> db \<times> bool" where
  "stdout_owner_renewer execution_id owner_id [] db = (db, True)"
| "stdout_owner_renewer execution_id owner_id ((clock, now, others) # ticks) db =
     (case renew_stdout_owner clock now execution_id owner_id STDOUT_OWNER_LEASE (others db) of
        (db', Inr True) \<Rightarrow> stdout_owner_renewer execution_id owner_id ticks db'
      | (db', _) \<Rightarrow> (db', False))"

fun released_events :: "'b execute_env \<Rightarrow> ReleasedExecution list \<Rightarrow> ('b, unit) rt" where
  "released_events ev [] = rt_return ()"
| "released_events ev (r # rs) =
     rt_bind (store_quiet (append_event (ex_now ev) (rel_thread_key r) (Some (rel_execution_id r)) ''session.stdout_owner_released''
       (JObj [(''execution_id'', JStr (rel_execution_id r)), (''reason'', JStr ''control_plane_shutdown'')]))) (\<lambda>_.
     released_events ev rs)"

definition release_leases :: "'b execute_env \<Rightarrow> ('b, unit) rt" where
  "release_leases ev =
     rt_bind (rt_try (store_op (release_stdout_owned_executions (ex_now ev) (ex_owner_id ev)))) (\<lambda>r.
       case r of Inl _ \<Rightarrow> rt_return () | Inr released \<Rightarrow> released_events ev released)"

text \<open>
  The drain: each poll says whether the count timed out, whether the deadline has passed, and what happens to the
  database while it sleeps; then whether the release times out. \<open>None\<close> while it is still waiting.
\<close>

fun handoff_owned_executions ::
  "'b execute_env \<Rightarrow> (bool \<times> bool \<times> (db \<Rightarrow> db)) list \<Rightarrow> bool \<Rightarrow> ('b, unit option) rt" where
  "handoff_owned_executions ev [] release_timeout st = (st, Inr None)"
| "handoff_owned_executions ev ((count_timeout, past_deadline, others) # polls) release_timeout st =
     (let stop = (if release_timeout then rt_return (Some ()) else rt_bind (release_leases ev) (\<lambda>_. rt_return (Some ())))
      in if count_timeout then stop st
         else if count_executions_with_stdout_owner (st_db st) (ex_owner_id ev) = 0 then (st, Inr (Some ()))
         else if past_deadline then stop st
         else handoff_owned_executions ev polls release_timeout (st\<lparr>st_db := others (st_db st)\<rparr>))"

section \<open>Relations a scan keeps\<close>

text \<open>The store calls of a scan by the process of \<open>ev\<close>, on the executions \<open>P\<close> it does more than look at.\<close>

locale adopt_relation = call_relation R for R +
  fixes ev :: "'b execute_env" and P :: "string \<Rightarrow> bool"
  assumes event: "R db (fst (append_event now k y ty pl db))"
    and claim: "P x \<Longrightarrow> R db (fst (claim_stdout_owner (ex_clock ev) (ex_now ev) x (ex_owner_id ev) lease db))"
    and claim_expired: "P x \<Longrightarrow> R db (fst (claim_expired_stdout_owner (ex_clock ev) (ex_now ev) x (ex_owner_id ev) lease db))"
    and terminal: "P x \<Longrightarrow> R db (fst (record_terminal_output (ex_now ev) (ex_owner_id ev) k sb x t db))"
    and release: "P x \<Longrightarrow> R db (fst (release_stdout_owner (ex_now ev) x (ex_owner_id ev) db))"
begin

lemma keeps_terminal: "P x \<Longrightarrow> call_keeps R (record_terminal ev k sb x t)"
  using terminal by (simp add: call_keeps_def record_terminal_def case_prod_beta)

lemma keeps_fail_orphan: "P x \<Longrightarrow> call_keeps R (fail_orphaned_execution ev k x sb detail)"
  unfolding fail_orphaned_execution_def Let_def
  by (auto intro!: keeps_bind keeps_try keeps_store claim keeps_terminal split: sum.split)

lemma keeps_deferral: "call_keeps R (record_adoption_deferral ev e)"
  unfolding record_adoption_deferral_def by (intro keeps_quiet event)

lemma keeps_adopt_queued: "P (exe_execution_id e) \<Longrightarrow> call_keeps R (adopt_queued ev e grace)"
  unfolding adopt_queued_def Let_def
  by (auto intro!: keeps_bind keeps_try keeps_fail_orphan keeps_quiet event split: sum.split)

lemma keeps_pipe: "call_keeps R (ensure_session_pipe rv i)"
  by (simp add: call_keeps_def refl pipe_db [OF prod.collapse [symmetric]])

lemma keeps_adopt_claimed: "P (exe_execution_id e) \<Longrightarrow> call_keeps R (adopt_claimed ev e sb)"
  unfolding adopt_claimed_def Let_def
  by (auto intro!: keeps_bind keeps_try keeps_terminal keeps_pipe keeps_quiet event release split: sum.split option.split)

lemma keeps_adopt_running: "P (exe_execution_id e) \<Longrightarrow> call_keeps R (adopt_running ev e rec grace)"
  unfolding adopt_running_def runtime_claim_expired_stdout_owner_def Let_def
  by (auto intro!: keeps_bind keeps_store keeps_fail_orphan claim_expired keeps_deferral keeps_adopt_claimed
      split: sum.split option.split SandboxError.split)

lemma keeps_adopt: "P (exe_execution_id e) \<Longrightarrow> call_keeps R (adopt_orphaned_execution ev e rec grace)"
  unfolding adopt_orphaned_execution_def by (simp add: keeps_adopt_queued keeps_adopt_running)

lemma keeps_candidate:
  assumes "\<not> own_stdout_owner_lease_active c \<Longrightarrow> P (exe_execution_id (own_execution c))"
  shows "call_keeps R (scan_candidate ev deferred grace c)"
  unfolding scan_candidate_def Let_def
  using assms by (auto intro!: keeps_bind keeps_try keeps_deferral keeps_adopt split: sum.split)

lemma keeps_candidates:
  assumes "\<And>c. c \<in> set cs \<Longrightarrow> \<not> own_stdout_owner_lease_active c \<Longrightarrow> P (exe_execution_id (own_execution c))"
  shows "call_keeps R (scan_candidates ev deferred grace cs)"
  using assms
proof (induction cs)
  case (Cons c cs)
  then show ?case by (auto intro!: keeps_bind keeps_candidate)
qed auto

lemma keeps_scan:
  assumes "\<And>cs c. list_active_executions_with_ownership (ex_now ev) (st_db st) = Inr cs \<Longrightarrow> c \<in> set cs \<Longrightarrow>
    \<not> own_stdout_owner_lease_active c \<Longrightarrow> P (exe_execution_id (own_execution c))"
    and "run_orphan_adoption_scan ev grace deferred st = (st', res)"
  shows "R (st_db st) (st_db st')"
proof (cases "list_active_executions_with_ownership (ex_now ev) (st_db st)")
  case (Inl e)
  then show ?thesis using assms(2) refl by (auto simp: run_orphan_adoption_scan_def rt_bind_def rt_try_def store_read_def store_op_def rt_return_def)
next
  case (Inr cs)
  then have "scan_candidates ev deferred grace cs st = (st', res)"
    using assms(2) by (auto simp: run_orphan_adoption_scan_def rt_bind_def rt_try_def store_read_def store_op_def)
  then show ?thesis using call_keepsD [OF keeps_candidates] assms(1) [OF Inr] by blast
qed

end

interpretation scan_run: adopt_relation "guarded_step\<^sup>*\<^sup>*" ev "\<lambda>_. True" for ev
  by unfold_locales (auto intro: r_into_rtranclp guarded_step.intros store_run.record_terminal_related)

section \<open>Executions a scan leaves alone\<close>

text \<open>The row of an execution stays as it is.\<close>

definition row_kept :: "execution_row \<Rightarrow> db \<Rightarrow> db \<Rightarrow> bool" where
  "row_kept r db db' \<longleftrightarrow> (row_by x_execution_id (x_execution_id r) (session_executions db) = Some r \<longrightarrow>
     row_by x_execution_id (x_execution_id r) (session_executions db') = Some r)"

lemma row_kept_same: "session_executions db' = session_executions db \<Longrightarrow> row_kept r db db'"
  by (simp add: row_kept_def)

lemma row_kept_update:
  assumes "exec_update p f" and "\<not> p r"
  shows "row_kept r db (fst (upd_executions p f db))"
  using assms keyed_update.row_after [OF exec_update.axioms(1) [OF assms(1)], of "x_execution_id r" "session_executions db"]
  by (simp add: row_kept_def)

lemma row_kept_touched: "exec_update p f \<Longrightarrow> \<not> p r \<Longrightarrow> row_kept r db (fst (touched_rows p f db))"
  using row_kept_update by (simp add: touched_rows_def case_prod_beta)

lemma after_settlement_executions:
  "session_executions (fst (after_settlement now k sb x ty pl u)) = session_executions (fst u)"
  by (simp add: after_settlement_def execution_frames case_prod_beta split: sum.split option.split)

lemma row_kept_terminal:
  assumes "\<not> active_owned_p x ow r"
  shows "row_kept r db (fst (record_terminal_output now ow k sb x t db))"
proof -
  define f where "f = (case t of TCompleted _ _ \<Rightarrow> \<lambda>r. clear_owner (complete_f now r) | TCancelled m \<Rightarrow> \<lambda>r. clear_owner (cancel_f now m r)
       | TFailed m \<Rightarrow> \<lambda>r. clear_owner (fail_f now m r))"
  have "session_executions (fst (record_terminal_output now ow k sb x t db)) = session_executions (fst (upd_executions (active_owned_p x ow) f db))"
    by (simp add: f_def record_terminal_output_def after_settlement_executions complete_execution_if_active_and_stdout_owner_def
        cancel_execution_if_active_and_stdout_owner_def fail_execution_if_active_and_stdout_owner_def del: upd_executions_simps
        split: TerminalOutput.split)
  moreover have "exec_update (active_owned_p x ow) f"
    using complete_owned.exec_update_axioms cancel_owned.exec_update_axioms fail_owned.exec_update_axioms by (cases t) (simp_all add: f_def)
  then have "row_kept r db (fst (upd_executions (active_owned_p x ow) f db))" using assms by (rule row_kept_update)
  ultimately show ?thesis by (simp add: row_kept_def)
qed

lemma untouched_row:
  assumes "\<And>y. P y \<Longrightarrow> \<not> claim_owner_p (ex_now ev) y (ex_owner_id ev) r \<and> \<not> owned_p y (ex_owner_id ev) r"
  shows "adopt_relation (row_kept r) ev P"
proof (unfold_locales, goal_cases)
  case (2 db db' db'')
  then show ?case by (simp add: row_kept_def)
next
  case (4 x db lease)
  have "row_kept r db (fst (touched_rows (claim_owner_p (ex_now ev) x (ex_owner_id ev)) (claim_owner_f (ex_now ev) (ex_owner_id ev) t) db))" for t
    by (rule row_kept_touched [OF claim_owner.exec_update_axioms]) (use assms 4 in blast)
  then show ?case by (simp add: claim_stdout_owner_def row_kept_same split: sum.split)
next
  case (5 x db lease)
  have "\<not> claim_expired_p (ex_now ev) x r" using assms [OF 5] by (auto simp: claim_owner_p_def claim_expired_p_def)
  then have "row_kept r db (fst (touched_rows (claim_expired_p (ex_now ev) x) (claim_owner_f (ex_now ev) (ex_owner_id ev) t) db))" for t
    by (rule row_kept_touched [OF claim_expired.exec_update_axioms])
  then show ?case by (simp add: claim_expired_stdout_owner_def row_kept_same split: sum.split)
next
  case (6 x db k sb t)
  then show ?case using assms by (intro row_kept_terminal) (simp add: active_owned_p_def)
next
  case (7 x db)
  then show ?case using row_kept_touched [OF release.exec_update_axioms] assms by (simp add: release_stdout_owner_def)
qed (simp_all add: row_kept_same execution_frames)

lemma held_row:
  assumes "row_by x_execution_id x (session_executions (st_db st)) = Some r" and "x_stdout_owner_id r = Some holder"
    and "holder \<noteq> ex_owner_id ev" and "x_stdout_owner_lease_expires_at r = Some t" and "ex_now ev \<le> t"
    and "run_orphan_adoption_scan ev grace deferred st = (st', res)"
  shows "row_by x_execution_id x (session_executions (st_db st')) = Some r"
proof -
  have "adopt_relation (row_kept r) ev (\<lambda>_. True)"
    by (rule untouched_row) (use assms(2-5) in \<open>simp add: claim_owner_p_def owned_p_def lease_expired_def\<close>)
  from adopt_relation.keeps_scan [OF this _ assms(6)] show ?thesis
    using assms(1) row_by_Some [OF assms(1)] by (simp add: row_kept_def)
qed

lemma listed_row:
  assumes "list_active_executions_with_ownership now db = Inr cs" and "c \<in> set cs"
  obtains r where "r \<in> set (session_executions db)" and "x_execution_id r = exe_execution_id (own_execution c)"
    and "own_stdout_owner_lease_active c = (case x_stdout_owner_lease_expires_at r of None \<Rightarrow> False | Some t \<Rightarrow> now < t)"
proof -
  let ?rows = "by_creation (filter active (session_executions db))"
  have "map (ownership_of_row now) ?rows = map Inr cs"
    using assms(1) by (simp add: list_active_executions_with_ownership_def collect_results_Inr_map)
  then have "Inr c \<in> set (map (ownership_of_row now) ?rows)" using assms(2) by simp
  then obtain r where r: "r \<in> set ?rows" "ownership_of_row now r = Inr c" by auto
  then have "r \<in> set (session_executions db)" by (auto simp: by_creation_def)
  then show thesis
    using that r(2) execution_of_row_columns(1) by (cases "execution_of_row r") (auto simp: ownership_of_row_def)
qed

text \<open>Its own executions a scan passes over while their lease lasts.\<close>

lemma own_row:
  assumes "store_inv (st_db st)" and "row_by x_execution_id x (session_executions (st_db st)) = Some r"
    and "x_stdout_owner_lease_expires_at r = Some t" and "ex_now ev < t"
    and "run_orphan_adoption_scan ev grace deferred st = (st', res)"
  shows "row_by x_execution_id x (session_executions (st_db st')) = Some r"
proof -
  have x: "x_execution_id r = x" using row_by_Some [OF assms(2)] by simp
  have "adopt_relation (row_kept r) ev (\<lambda>y. y \<noteq> x)"
    by (rule untouched_row) (use x in \<open>auto simp: claim_owner_p_def owned_p_def\<close>)
  moreover have "exe_execution_id (own_execution c) \<noteq> x"
    if "list_active_executions_with_ownership (ex_now ev) (st_db st) = Inr cs" "c \<in> set cs" "\<not> own_stdout_owner_lease_active c" for cs c
    using listed_row [OF that(1,2)] that(3) row_by_unique [OF executions_distinct [OF assms(1)]] assms(2-4) by (metis option.case(2) option.inject)
  ultimately show ?thesis
    using adopt_relation.keeps_scan [OF _ _ assms(5)] assms(2) x by (fastforce simp: row_kept_def)
qed

text \<open>C17. An orphan scan never touches an execution another process holds: whatever the scan does to other
  executions, the row of one whose lease has not passed stays exactly as it was.\<close>

theorem scan_respects_live_lease:
  assumes "row_by x_execution_id x (session_executions (st_db st)) = Some r" and "x_stdout_owner_id r = Some holder"
    and "holder \<noteq> ex_owner_id ev" and "x_stdout_owner_lease_expires_at r = Some t" and "ex_now ev \<le> t"
    and "run_orphan_adoption_scan ev grace deferred st = (st', res)"
  shows "row_by x_execution_id x (session_executions (st_db st')) = Some r"
  using assms by (rule held_row)

section \<open>Orphans whose sandbox is gone\<close>

lemma claim_available:
  assumes "store_inv (st_db st)" and "row_by x_execution_id x (session_executions (st_db st)) = Some r" and "active r"
    and "x_stdout_owner_id r = None \<or> lease_expired (ex_now ev) r"
    and "stdout_lease_expires_at (ex_clock ev) STDOUT_OWNER_LEASE = Inr t"
  obtains db1 where "claim_stdout_owner (ex_clock ev) (ex_now ev) x (ex_owner_id ev) STDOUT_OWNER_LEASE (st_db st) = (db1, Inr True)"
    and "row_by x_execution_id x (session_executions db1) = Some (claim_owner_f (ex_now ev) (ex_owner_id ev) t r)" and "store_inv db1"
    and "session_events db1 = session_events (st_db st)"
proof -
  let ?c = "touched_rows (claim_owner_p (ex_now ev) x (ex_owner_id ev)) (claim_owner_f (ex_now ev) (ex_owner_id ev) t) (st_db st)"
  have key: "\<And>r. claim_owner_p (ex_now ev) x (ex_owner_id ev) r \<Longrightarrow> x_execution_id r = x" by (simp add: claim_owner_p_def)
  have p: "claim_owner_p (ex_now ev) x (ex_owner_id ev) r"
    using row_by_Some [OF assms(2)] assms(3,4) by (auto simp: claim_owner_p_def)
  note c = claim_owner.touched_row [of "st_db st" x r "ex_now ev" x "ex_owner_id ev" t, OF assms(1,2) key]
  show thesis
    by (rule that [of "fst ?c"])
      (use c p assms(5) claim_owner.touched_inv [OF assms(1)] in \<open>simp_all add: claim_stdout_owner_def touched_rows_def case_prod_beta\<close>)
qed

lemma orphan_failed:
  assumes "store_inv (st_db st)" and "row_by x_execution_id x (session_executions (st_db st)) = Some r" and "active r" and "x_thread_key r = k"
    and "x_stdout_owner_id r = None \<or> lease_expired (ex_now ev) r"
    and "stdout_lease_expires_at (ex_clock ev) STDOUT_OWNER_LEASE = Inr t"
  obtains st' tasks r' where "fail_orphaned_execution ev k x sb detail st = (st', Inr tasks)"
    and "row_by x_execution_id x (session_executions (st_db st')) = Some r'" and "x_status r' = execution_status_as_ref Failed"
    and "x_error r' = Some (''execution orphaned by control plane restart; '' @ detail)"
    and "ends_of (st_db st') x = ends_of (st_db st) x @ [''session.execution_failed'']"
proof -
  define m where "m = ''execution orphaned by control plane restart; '' @ detail"
  let ?f = "\<lambda>r. clear_owner (fail_f (ex_now ev) m r)"
  obtain db1 where c: "claim_stdout_owner (ex_clock ev) (ex_now ev) x (ex_owner_id ev) STDOUT_OWNER_LEASE (st_db st) = (db1, Inr True)"
    and row: "row_by x_execution_id x (session_executions db1) = Some (claim_owner_f (ex_now ev) (ex_owner_id ev) t r)"
    and inv: "store_inv db1" and ev1: "session_events db1 = session_events (st_db st)"
    by (rule claim_available [OF assms(1-3,5,6)])
  let ?r = "claim_owner_f (ex_now ev) (ex_owner_id ev) t r"
  let ?u = "record_terminal_output (ex_now ev) (ex_owner_id ev) k sb x (TFailed m) db1"
  have k: "x_thread_key ?r = k" and a: "active ?r" using assms(3,4) by (simp_all add: claim_owner_f_def active_def)
  have p: "active_owned_p x (ex_owner_id ev) ?r"
    using a row_by_Some [OF assms(2)] by (auto simp: active_owned_p_def owned_p_def claim_owner_f_def)
  have "session_executions (fst ?u) = session_executions (fst (upd_executions (active_owned_p x (ex_owner_id ev)) ?f db1))"
    by (simp add: record_terminal_output_def after_settlement_executions fail_execution_if_active_and_stdout_owner_def del: upd_executions_simps)
  then have row': "row_by x_execution_id x (session_executions (fst ?u)) = Some (?f ?r)" using row p by (simp add: fail_owned.row_after)
  have s: "x_status (?f ?r) = execution_status_as_ref Failed" "x_error (?f ?r) = Some m" by (simp_all add: store_defs)
  then have n: "?f ?r \<noteq> ?r" using a by (auto simp: active_def)
  have "ends_of (fst ?u) x = ends_of db1 x @ [''session.execution_'' @ x_status (?f ?r)]"
    using record_terminal_ends [OF inv row k, of "ex_now ev" "ex_owner_id ev" sb "TFailed m"] row' n
    by (simp add: ends_with_def)
  then have "ends_of (fst ?u) x = ends_of db1 x @ [''session.execution_failed'']" using s(1) by (simp add: execution_status_as_ref.simps)
  then have ends: "ends_of (fst ?u) x = ends_of (st_db st) x @ [''session.execution_failed'']" using ends_of_cong [OF ev1] by simp
  obtain tasks where f: "fail_orphaned_execution ev k x sb detail st = (st\<lparr>st_db := fst ?u\<rparr>, Inr tasks)"
    using c unfolding fail_orphaned_execution_def Let_def m_def [symmetric]
    by (simp add: rt_bind_def rt_try_def store_op_def record_terminal_def rt_return_def case_prod_beta)
  show thesis by (rule that [OF f, of "?f ?r"]) (use row' ends s in \<open>simp_all add: m_def\<close>)
qed

text \<open>The status of a sandbox the backend observed or no longer knows.\<close>

definition observed_state :: "ObservedSandbox sandbox_result \<Rightarrow> (SandboxStatus \<times> string option) sandbox_result" where
  "observed_state r =
     (case r of Inr ob \<Rightarrow> Inr (o_status ob, o_reason ob) | Inl (SbNotFound _) \<Rightarrow> Inr (SbGone, None) | Inl e \<Rightarrow> Inl e)"


section \<open>A failure nobody records\<close>

lemma access_failure:
  assumes "store_inv (st_db st)" and "row_by x_execution_id x (session_executions (st_db st)) = Some r" and "x_thread_key r = k"
    and "x_status r = execution_status_as_ref Queued" and "x_stdout_owner_id r = None" and "admitted ev input"
    and "get_session (st_db st) k = Inr s" and "ses_iron_control_principal s = Some prn" and "rt_get_principal (ex_runtime ev) prn = Inl msg"
  obtains st' where "drive_session_execution ev k x input st = (st', Inl (IronControl msg))" and "mine ev k x (st_db st')"
    and "st_pipes st' = st_pipes st"
proof -
  obtain st1 ex s1 mx where m: "mine ev k x (st_db st1)" "exe_execution_id ex = x" "st_pipes st1 = st_pipes st"
    "ses_iron_control_principal s1 = ses_iron_control_principal s"
    and run: "\<And>st' res. drive_owned ev k input (pinned_lines ev s (in_input_lines input)) None ex s1 st1 = (st', res) \<Longrightarrow>
      drive_session_execution ev k x input st = (st', case res of Inl e \<Rightarrow> Inl e | Inr _ \<Rightarrow> Inr (ex, mx))"
    using admitted_drive [OF assms(1-7)] by metis
  let ?tp = "ex_span_traceparent ev (execution_traceparent ex)"
  obtain db1 where t: "persist_traceparent ev k ex ?tp st1 = (st1\<lparr>st_db := db1\<rparr>, Inr ())" "mine ev k x db1"
    by (rule mine_traceparent [OF m(1,2)])
  let ?a = "append_event (ex_now ev) k (Some x) ''session.execution_started'' (started_event k x input) db1"
  obtain v where v: "snd ?a = Inr v" "mine ev k x (fst ?a)" by (rule mine_event [OF t(2)])
  have "drive_owned ev k input (pinned_lines ev s (in_input_lines input)) None ex s1 st1 = (st1\<lparr>st_db := fst ?a\<rparr>, Inl (IronControl msg))"
    using t(1) v(1) assms(8,9) m(4) unfolding drive_owned_def Let_def m(2)
    by (simp add: rt_bind_def store_op_def rt_result_def resolve_sandbox_capabilities_def case_prod_beta)
  from run [OF this] show thesis using that v(2) m(3) by simp
qed

text \<open>What happens to the execution afterwards: its renewer ticks, and processes scan while its lease lasts.\<close>

inductive later_round :: "string \<Rightarrow> string \<Rightarrow> 'b runtime_state \<Rightarrow> 'b runtime_state \<Rightarrow> bool" for x ow where
  renewed: "later_round x ow st (st\<lparr>st_db := fst (renew_stdout_owner clock now x ow STDOUT_OWNER_LEASE (st_db st))\<rparr>)"
| scanned: "lock_of (st_db st) x = Some (ow, t) \<Longrightarrow> ex_now ev < t \<Longrightarrow> run_orphan_adoption_scan ev grace deferred st = (st', res) \<Longrightarrow>
    later_round x ow st st'"

lemma mine_round:
  assumes "later_round x (ex_owner_id ev) st st'" and "mine ev k x (st_db st)"
  shows "mine ev k x (st_db st')"
  using assms(1)
proof cases
  case (renewed clock now)
  obtain r where r: "row_by x_execution_id x (session_executions (st_db st)) = Some r" and inv: "store_inv (st_db st)"
    using assms(2) by (auto simp: mine_def split: option.splits)
  have "row_by x_execution_id x (session_executions (fst (touched_rows (active_owned_p x (ex_owner_id ev)) (renew_f now t) (st_db st)))) =
      Some (if active_owned_p x (ex_owner_id ev) r then renew_f now t r else r)" for t
    by (rule renew.touched_row(2) [OF inv r]) (simp add: store_defs)
  then show ?thesis
    using renewed assms(2) r execution_ops_inv [OF inv]
    by (auto simp: mine_def renew_stdout_owner_def renew_f_def simp del: touched_frame split: sum.splits)
next
  case (scanned t ev' grace deferred res)
  obtain r where r: "row_by x_execution_id x (session_executions (st_db st)) = Some r" "x_stdout_owner_id r = Some (ex_owner_id ev)"
    "x_stdout_owner_lease_expires_at r = Some t" using lock_row [OF scanned(1)] by metis
  have inv: "store_inv (st_db st)" using assms(2) by (simp add: mine_def)
  have "row_by x_execution_id x (session_executions (st_db st')) = Some r"
    by (rule own_row [OF inv r(1,3) scanned(2,3)])
  moreover have "guarded_step\<^sup>*\<^sup>* (st_db st) (st_db st')" by (rule scan_run.keeps_scan [OF _ scanned(3)]) simp
  then have "store_inv (st_db st')" using inv by (rule run_guarded_inv)
  ultimately show ?thesis using assms(2) r(1) by (simp add: mine_def)
qed

text \<open>C18. When the access of a turn's principal cannot be looked up, the turn is neither failed nor retried: the
  call returns the error with the execution running and owned, nothing sent, and it stays so through any number of
  renewals and orphan scans, its own process's and others', for as long as the renewals come in time.\<close>

theorem access_failure_wedges:
  assumes "store_inv (st_db st)" and "row_by x_execution_id x (session_executions (st_db st)) = Some r" and "x_thread_key r = k"
    and "x_status r = execution_status_as_ref Queued" and "x_stdout_owner_id r = None" and "admitted ev input"
    and "get_session (st_db st) k = Inr s" and "ses_iron_control_principal s = Some prn" and "rt_get_principal (ex_runtime ev) prn = Inl msg"
  shows "\<exists>st'. drive_session_execution ev k x input st = (st', Inl (IronControl msg)) \<and> st_pipes st' = st_pipes st \<and>
    (\<forall>st''. (later_round x (ex_owner_id ev))\<^sup>*\<^sup>* st' st'' \<longrightarrow> mine ev k x (st_db st''))"
proof -
  obtain st' where d: "drive_session_execution ev k x input st = (st', Inl (IronControl msg))" "mine ev k x (st_db st')" "st_pipes st' = st_pipes st"
    by (rule access_failure [OF assms])
  have "mine ev k x (st_db st'')" if "(later_round x (ex_owner_id ev))\<^sup>*\<^sup>* st' st''" for st''
    using that d(2) by (induction rule: rtranclp_induct) (auto dest: mine_round)
  then show ?thesis using d by blast
qed

section \<open>Handoff at shutdown\<close>

lemma released_executions: "session_executions (st_db (fst (released_events ev rs st))) = session_executions (st_db st)"
  by (induction rs arbitrary: st) (simp_all add: rt_return_def rt_bind_def store_quiet_def execution_frames)

lemma released_rows:
  assumes "release_leases ev st = (st', res)" and "r \<in> set (session_executions (st_db st'))" and "active r"
  shows "x_stdout_owner_id r \<noteq> Some (ex_owner_id ev)"
proof -
  let ?u = "upd_executions (held_p (ex_owner_id ev)) (release_f (ex_now ev)) (st_db st)"
  have "session_executions (st_db st') = session_executions (fst ?u)"
    using assms(1) released_executions [of ev _ "st\<lparr>st_db := fst ?u\<rparr>"]
    by (auto simp: release_leases_def rt_bind_def rt_try_def store_op_def rt_return_def release_stdout_owned_executions_def case_prod_beta
        simp del: upd_executions_simps split: sum.splits)
      (metis fst_conv)
  then have "r \<in> (\<lambda>q. if held_p (ex_owner_id ev) q then release_f (ex_now ev) q else q) ` set (session_executions (st_db st))"
    using assms(2) by (simp add: sql_update_def)
  then obtain q where "r = (if held_p (ex_owner_id ev) q then release_f (ex_now ev) q else q)" by blast
  then show ?thesis using assms(3) by (auto simp: store_defs active_def split: if_splits)
qed

text \<open>When the shutdown handoff ends, and its release was not cut off by its timeout, no active execution names
  this process as its owner, whether the turns finished while it waited or were released at the deadline: a peer
  may claim each of them at once.\<close>

lemma handoff_leaves_nothing:
  assumes "handoff_owned_executions ev polls False st = (st', Inr (Some ()))"
  shows "list_all (\<lambda>r. active r \<longrightarrow> x_stdout_owner_id r \<noteq> Some (ex_owner_id ev)) (session_executions (st_db st'))"
  using assms
proof (induction polls arbitrary: st)
  case (Cons q polls)
  obtain late past others where q: "q = (late, past, others)" by (cases q)
  have rel: "?case" if "rt_bind (release_leases ev) (\<lambda>_. rt_return (Some ())) st = (st', Inr (Some ()))"
    using released_rows that by (fastforce simp: rt_bind_ok list_all_iff)
  have idle: "?case" if "count_executions_with_stdout_owner (st_db st) (ex_owner_id ev) = 0" "st' = st"
    using that by (auto simp: count_executions_with_stdout_owner_def filter_empty_conv held_p_def list_all_iff)
  show ?case
    using Cons.prems Cons.IH rel idle unfolding q handoff_owned_executions.simps Let_def by (auto split: if_splits)
qed simp

section \<open>Examples\<close>

theorem scan_respects_live_lease_witness:
  "\<exists>st' res. run_orphan_adoption_scan example_execute None {} (example_queued\<lparr>st_db := example_claimed_db\<rparr>) = (st', res) \<and>
     row_by x_execution_id ''exe_1'' (session_executions (st_db st')) = row_by x_execution_id ''exe_1'' (session_executions example_claimed_db)"
proof -
  let ?st = "example_queued\<lparr>st_db := example_claimed_db\<rparr>"
  obtain st' res where d: "run_orphan_adoption_scan example_execute None {} ?st = (st', res)" by fastforce
  obtain r where r: "row_by x_execution_id ''exe_1'' (session_executions example_claimed_db) = Some r" "x_stdout_owner_id r = Some ''a''"
    "x_stdout_owner_lease_expires_at r = Some 6000" by (rule lock_row [OF example_lease])
  have "row_by x_execution_id ''exe_1'' (session_executions (st_db st')) = Some r"
    by (rule scan_respects_live_lease [OF _ r(2) _ r(3) _ d])
      (simp_all add: r(1) example_execute_def example_runtime_def example_env_def)
  then show ?thesis using d r(1) by auto
qed

text \<open>A running execution whose sandbox the backend no longer knows.\<close>

definition example_orphan_db :: db where
  "example_orphan_db = fst (update_sandbox_assignment 9 ''api:1'' ''sb-9'' default_enabled (fst (mark_execution_running 8 ''exe_1'' example_exec_db)))"

definition example_gone :: "nat execute_env" where
  "example_gone = example_execute\<lparr>ex_runtime := example_runtime\<lparr>rt_pool := example_env\<lparr>pe_backend := example_backend
     \<lparr>be_observe := \<lambda>i n. (n, Inl (SbNotFound i))\<rparr>\<rparr>\<rparr>\<rparr>"

lemma example_marked:
  "store_inv (fst (mark_execution_running 8 ''exe_1'' example_exec_db))" "has_session (fst (mark_execution_running 8 ''exe_1'' example_exec_db)) ''api:1''"
  "row_by x_execution_id ''exe_1'' (session_executions (fst (mark_execution_running 8 ''exe_1'' example_exec_db))) = Some (running_f 8 example_row)"
proof -
  let ?db = "fst (mark_execution_running 8 ''exe_1'' example_exec_db)"
  show inv: "store_inv ?db" by (intro mark_execution_running_inv example_exec_db_inv)
  show row: "row_by x_execution_id ''exe_1'' (session_executions ?db) = Some (running_f 8 example_row)"
    using example_exec_row by (simp add: mark_frame mark_running.row_after mark_running_p_def new_execution_row_def)
  show "has_session ?db ''api:1''" using execution_session [OF inv row] by (auto simp: running_f_def new_execution_row_def)
qed

lemma example_orphan_row:
  "store_inv example_orphan_db"
  "row_by x_execution_id ''exe_1'' (session_executions example_orphan_db) = Some (running_f 8 example_row)"
  using example_marked by (simp_all add: example_orphan_db_def session_ops_inv execution_frames)


text \<open>A session bound to a principal that iron-control cannot be asked about.\<close>

definition example_bound :: "nat runtime_state" where
  "example_bound = example_queued\<lparr>st_db := fst (bind_iron_control_principal 8 ''api:1'' ''prn_1'' example_exec_db)\<rparr>"

definition example_down :: "nat execute_env" where
  "example_down = example_execute\<lparr>ex_runtime := example_runtime\<lparr>rt_get_principal := \<lambda>_. Inl ''unavailable''\<rparr>\<rparr>"

lemma example_bound_session:
  obtains s where "get_session (st_db example_bound) ''api:1'' = Inr s" and "ses_iron_control_principal s = Some ''prn_1''"
proof -
  have ses: "sessions example_exec_db = [example_session_row]"
    using example_db_has
    by (simp add: example_exec_db_def create_execution_with_request_def insert_execution_def example_db_sessions empty_db_def new_session_row_def)
  have p: "bind_principal_p ''api:1'' ''prn_1'' example_session_row" by (simp add: bind_principal_p_def new_session_row_def)
  obtain s where "session_of_row (principal_f 8 (Some ''prn_1'') example_session_row) = Inr s"
    using bind_principal.ok_kept [OF p] new_session_ok [OF example_key] session_of_row_ok by blast
  then have "bind_iron_control_principal 8 ''api:1'' ''prn_1'' example_exec_db =
      (fst (bind_iron_control_principal 8 ''api:1'' ''prn_1'' example_exec_db), Inr s)"
    using p by (simp add: bind_iron_control_principal_def upd_sessions_def ses sql_update_def Let_def)
  from bound_session [OF example_exec_db_inv this] show thesis using that by (simp add: example_bound_def)
qed

theorem access_failure_wedges_witness:
  "\<exists>st'. drive_session_execution example_down ''api:1'' ''exe_1'' example_input example_bound = (st', Inl (IronControl ''unavailable'')) \<and>
     (\<forall>st''. (later_round ''exe_1'' ''cp-1'')\<^sup>*\<^sup>* st' st'' \<longrightarrow> mine example_down ''api:1'' ''exe_1'' (st_db st''))"
proof -
  obtain s where s: "get_session (st_db example_bound) ''api:1'' = Inr s" "ses_iron_control_principal s = Some ''prn_1''"
    by (rule example_bound_session)
  have ev: "rt_get_principal (ex_runtime example_down) ''prn_1'' = Inl ''unavailable''" "ex_owner_id example_down = ''cp-1''"
    by (simp_all add: example_down_def example_execute_def)
  have adm: "admitted example_down example_input" using example_admitted by (simp add: admitted_def example_down_def)
  have inv: "store_inv (st_db example_bound)" using example_exec_db_inv by (simp add: example_bound_def session_ops_inv)
  have row: "row_by x_execution_id ''exe_1'' (session_executions (st_db example_bound)) = Some example_row"
    using example_exec_row by (simp add: example_bound_def execution_frames)
  show ?thesis
    using access_failure_wedges [OF inv row example_queued_row(3-5) adm s ev(1)] ev(2) by auto
qed

end
