(* ===== verification/Session_Control.thy ===== *)
theory Session_Control
  imports Turn_Delivery "HOL-Library.Multiset"
begin

text \<open>
  The other calls on a session in \<^verbatim>\<open>crates/centaur-session-runtime/src/lib.rs\<close>: appending messages and steering the
  running turn with them, interrupting it, pausing and releasing its sandbox, draining the backend and stopping the
  sandboxes of a workflow run. The task that titles a session is left out.
\<close>

section \<open>Steering\<close>

definition steering_input_line :: "(json \<Rightarrow> string) \<Rightarrow> string \<Rightarrow> SessionMessageInput \<Rightarrow> string \<Rightarrow> string option" where
  "steering_input_line print thread_key message message_id =
     (if in_role message \<noteq> User then None
      else Some (print (JObj
        [(''type'', JStr ''user''), (''thread_key'', JStr thread_key),
         (''trace_metadata'', JObj
            [(''source'', JStr ''session.append_messages''), (''action'', JStr ''steer_active_execution''),
             (''message_id'', JStr message_id), (''metadata'', SessionMessageInput.in_metadata message)]),
         (''message'', JObj [(''role'', JStr (message_role_as_ref (in_role message))), (''content'', JArr (in_parts message))])])))"

definition steering_input_lines ::
  "(json \<Rightarrow> string) \<Rightarrow> string \<Rightarrow> SessionMessageInput list \<Rightarrow> string list \<Rightarrow> string list" where
  "steering_input_lines print thread_key messages message_ids =
     List.map_filter (\<lambda>(m, i). steering_input_line print thread_key m i) (zip messages message_ids)"

definition interrupt_input_line :: "(json \<Rightarrow> string) \<Rightarrow> string \<Rightarrow> string \<Rightarrow> string" where
  "interrupt_input_line print thread_key reason =
     print (JObj
       [(''type'', JStr ''interrupt''), (''thread_key'', JStr thread_key),
        (''trace_metadata'', JObj
           [(''source'', JStr ''session.interrupt_active_execution''), (''action'', JStr ''interrupt_active_execution''),
            (''reason'', JStr reason)])])"

definition execution_still_active :: "db \<Rightarrow> string \<Rightarrow> string \<Rightarrow> bool" where
  "execution_still_active db thread_key execution_id =
     (case active_execution_for_thread db thread_key of
        Inr (Some execution) \<Rightarrow> exe_execution_id execution = execution_id
      | _ \<Rightarrow> False)"

definition is_transient_steering_startup_error :: "SessionRuntimeError \<Rightarrow> bool" where
  "is_transient_steering_startup_error error =
     (case error of Sandbox (SbNotFound _) \<Rightarrow> True | Sandbox (NotReady _) \<Rightarrow> True | _ \<Rightarrow> False)"

text \<open>
  The wait for a pipe, over its rounds: whether the deadline has passed, and what the state becomes while it
  sleeps. The result is the sandbox whose pipe is open, or an error; \<open>None\<close> while it still waits.
\<close>

type_synonym 'b wait_round = "bool \<times> ('b runtime_state \<Rightarrow> 'b runtime_state)"

fun wait_for_active_steering_pipe ::
  "'b execute_env \<Rightarrow> string \<Rightarrow> string \<Rightarrow> 'b wait_round list \<Rightarrow> 'b runtime_state \<Rightarrow> 'b runtime_state \<times> (string + string) option" where
  "wait_for_active_steering_pipe ev thread_key execution_id [] st = (st, None)"
| "wait_for_active_steering_pipe ev thread_key execution_id ((past_deadline, others) # rounds) st =
     (let retry = (\<lambda>st1.
            if \<not> execution_still_active (st_db st1) thread_key execution_id
            then (st1, Some (Inl ''execution is no longer active''))
            else wait_for_active_steering_pipe ev thread_key execution_id rounds (others st1))
      in case get_session (st_db st) thread_key of
           Inl e \<Rightarrow> (st, Some (Inl (''get session: '' @ store_error_message (ex_sqlx_message ev) e)))
         | Inr session \<Rightarrow>
             (case ses_sandbox_id session of
                Some sandbox_id \<Rightarrow>
                  (case ensure_session_pipe ev sandbox_id st of
                     (st1, Inr _) \<Rightarrow> (st1, Some (Inr sandbox_id))
                   | (st1, Inl e) \<Rightarrow>
                       if is_transient_steering_startup_error e \<and> \<not> past_deadline then retry st1
                       else (st1, Some (Inl (runtime_error_message (ex_sqlx_message ev) e))))
              | None \<Rightarrow>
                  if past_deadline then (st, Some (Inl ''session has no sandbox assigned'')) else retry st))"

definition record_steering_failure :: "'b execute_env \<Rightarrow> string \<Rightarrow> string \<Rightarrow> string \<Rightarrow> ('b, unit) rt" where
  "record_steering_failure ev thread_key execution_id error =
     store_quiet (append_event (ex_now ev) thread_key (Some execution_id) ''session.steering_failed''
       (JObj [(''execution_id'', JStr execution_id), (''thread_key'', JStr thread_key), (''error'', JStr error)]))"

text \<open>\<open>span\<close> is the trace of the span this process keeps for an execution, if it does.\<close>

definition active_trace :: "(string \<Rightarrow> string option) \<Rightarrow> SessionExecution \<Rightarrow> SessionTraceContext" where
  "active_trace span execution =
     for_execution (span (exe_execution_id execution)) (execution_traceparent execution) (Some (exe_execution_id execution))"

definition steer ::
  "'b execute_env \<Rightarrow> string \<Rightarrow> string list \<Rightarrow> string list \<Rightarrow> SessionExecution \<Rightarrow> 'b wait_round list \<Rightarrow> ('b, unit option) rt" where
  "steer ev thread_key message_ids lines execution rounds st =
     (let x = exe_execution_id execution in
      case wait_for_active_steering_pipe ev thread_key x rounds st of
        (st1, None) \<Rightarrow> (st1, Inr None)
      | (st1, Some (Inl e)) \<Rightarrow> rt_bind (record_steering_failure ev thread_key x e) (\<lambda>_. rt_return (Some ())) st1
      | (st1, Some (Inr sandbox_id)) \<Rightarrow>
          rt_bind (rt_try (write_input_lines ev sandbox_id lines)) (\<lambda>r.
            case r of
              Inl e \<Rightarrow> rt_bind (record_steering_failure ev thread_key x (runtime_error_message (ex_sqlx_message ev) e)) (\<lambda>_. rt_return (Some ()))
            | Inr _ \<Rightarrow>
                rt_bind (store_quiet (append_event (ex_now ev) thread_key (Some x) ''session.steering_delivered''
                  (JObj [(''execution_id'', JStr x), (''thread_key'', JStr thread_key), (''message_ids'', JArr (map JStr message_ids)),
                    (''input_line_count'', JNat (length lines))]))) (\<lambda>_.
                rt_return (Some ()))) st1)"

definition forward_messages_to_active_execution ::
  "'b execute_env \<Rightarrow> (string \<Rightarrow> string option) \<Rightarrow> string \<Rightarrow> SessionMessageInput list \<Rightarrow> string list \<Rightarrow> 'b wait_round list \<Rightarrow>
   ('b, unit option) rt" where
  "forward_messages_to_active_execution ev span thread_key messages message_ids rounds st =
     (let lines = steering_input_lines (ex_print ev) thread_key messages message_ids in
      if lines = [] then (st, Inr (Some ()))
      else case active_execution_for_thread (st_db st) thread_key of
        Inr (Some execution) \<Rightarrow>
          (let session = ok (get_session (st_db st) thread_key);
               lines1 = (case session of None \<Rightarrow> lines | Some s \<Rightarrow> pinned_lines ev s lines);
               lines2 = input_lines_with_session_context (ex_parse ev) (ex_print ev) thread_key (active_trace span execution)
                 (Option.bind session ses_sandbox_capabilities) lines1
           in steer ev thread_key message_ids lines2 execution rounds st)
      | _ \<Rightarrow> (st, Inr (Some ())))"

text \<open>The ids of the messages; \<open>None\<close> while the forwarding still waits.\<close>

definition append_messages_with_forwarding ::
  "'b execute_env \<Rightarrow> (string \<Rightarrow> string option) \<Rightarrow> (nat \<Rightarrow> string) \<Rightarrow> string \<Rightarrow> SessionMessageInput list \<Rightarrow> bool \<Rightarrow> 'b wait_round list \<Rightarrow>
   ('b, string list option) rt" where
  "append_messages_with_forwarding ev span gen thread_key messages forward rounds =
     (if messages = [] then rt_fail (BadRequest ''messages must not be empty'')
      else
      rt_bind (store_op (append_messages (ex_now ev) gen thread_key messages)) (\<lambda>ids.
      rt_bind (store_quiet (touch_session_sandbox_activity (ex_now ev) thread_key)) (\<lambda>_.
      rt_bind (if forward then forward_messages_to_active_execution ev span thread_key messages ids rounds
        else rt_return (Some ())) (\<lambda>r.
      rt_return (map_option (\<lambda>_. ids) r)))))"

definition runtime_append_messages ::
  "'b execute_env \<Rightarrow> (string \<Rightarrow> string option) \<Rightarrow> (nat \<Rightarrow> string) \<Rightarrow> string \<Rightarrow> SessionMessageInput list \<Rightarrow> 'b wait_round list \<Rightarrow>
   ('b, string list option) rt" where
  "runtime_append_messages ev span gen thread_key messages rounds =
     append_messages_with_forwarding ev span gen thread_key messages True rounds"

definition interrupt_event :: "string \<Rightarrow> string \<Rightarrow> string \<Rightarrow> json" where
  "interrupt_event thread_key execution_id reason = JObj [(''execution_id'', JStr execution_id), (''thread_key'', JStr thread_key), (''reason'', JStr reason)]"

record InterruptExecutionOutcome =
  int_interrupted :: bool
  int_execution_id :: "string option"

definition interrupt_active_execution ::
  "'b execute_env \<Rightarrow> (string \<Rightarrow> string option) \<Rightarrow> string \<Rightarrow> string \<Rightarrow> 'b wait_round list \<Rightarrow> ('b, InterruptExecutionOutcome option) rt" where
  "interrupt_active_execution ev span thread_key reason rounds =
     rt_bind (store_read (\<lambda>db. active_execution_for_thread db thread_key)) (\<lambda>active_execution.
       case active_execution of
         None \<Rightarrow> rt_return (Some \<lparr>int_interrupted = False, int_execution_id = None\<rparr>)
       | Some execution \<Rightarrow> (\<lambda>st.
           let x = exe_execution_id execution;
               lines = input_lines_with_session_context (ex_parse ev) (ex_print ev) thread_key (active_trace span execution) None
                 [interrupt_input_line (ex_print ev) thread_key reason]
           in case wait_for_active_steering_pipe ev thread_key x rounds st of
                (st1, None) \<Rightarrow> (st1, Inr None)
              | (st1, Some (Inl e)) \<Rightarrow> (st1, Inl (BadRequest e))
              | (st1, Some (Inr sandbox_id)) \<Rightarrow>
                  rt_bind (write_input_lines ev sandbox_id lines) (\<lambda>_.
                  rt_bind (store_op (append_event (ex_now ev) thread_key (Some x) ''session.interrupt_delivered''
                    (interrupt_event thread_key x reason))) (\<lambda>_.
                  rt_return (Some \<lparr>int_interrupted = True, int_execution_id = Some x\<rparr>))) st1))"

section \<open>Sandboxes given back\<close>

definition pause_idle_session :: "'b execute_env \<Rightarrow> string \<Rightarrow> ('b, bool) rt" where
  "pause_idle_session ev thread_key =
     rt_bind (store_read (\<lambda>db. get_session db thread_key)) (\<lambda>session.
       case ses_sandbox_id session of
         None \<Rightarrow> rt_return False
       | Some sandbox_id \<Rightarrow>
           rt_bind (store_read (\<lambda>db. latest_execution_for_thread db thread_key)) (\<lambda>latest.
             case latest of
               None \<Rightarrow> rt_return False
             | Some execution \<Rightarrow> (\<lambda>st.
                 case record_idle_pause (rt_backend (ex_runtime ev)) (ex_now ev) thread_key (exe_execution_id execution) sandbox_id None
                        (st_db st) (st_backend st) [sandbox_id] of
                   (db', b', pipes', r) \<Rightarrow>
                     (st\<lparr>st_db := db', st_backend := b',
                         st_pipes := (if sandbox_id \<in> set pipes' then st_pipes st else (st_pipes st)(sandbox_id := None))\<rparr>, r))))"

definition release_session_sandbox :: "'b execute_env \<Rightarrow> string \<Rightarrow> ('b, string option) rt" where
  "release_session_sandbox ev thread_key =
     rt_bind (store_op (detach_idle_session_sandbox (ex_now ev) thread_key)) (\<lambda>detached.
       case detached of
         None \<Rightarrow> rt_return None
       | Some sandbox_id \<Rightarrow>
           rt_bind (remove_pipe sandbox_id) (\<lambda>_.
           rt_bind (backend_try (manager_stop (rt_backend (ex_runtime ev)) sandbox_id)) (\<lambda>r.
             let stopped = (case r of Inr _ \<Rightarrow> Inr () | Inl (SbNotFound _) \<Rightarrow> Inr () | Inl e \<Rightarrow> Inl e);
                 payload = [(''thread_key'', JStr thread_key), (''sandbox_id'', JStr sandbox_id)] @
                   (case stopped of Inr _ \<Rightarrow> [] | Inl e \<Rightarrow> [(''error'', JStr (sandbox_error_message e))]);
                 event_type = (case stopped of Inr _ \<Rightarrow> ''session.sandbox_released'' | Inl _ \<Rightarrow> ''session.sandbox_release_failed'')
             in rt_bind (store_op (append_event (ex_now ev) thread_key None event_type (JObj payload))) (\<lambda>_.
                case stopped of Inl e \<Rightarrow> rt_fail (Sandbox e) | Inr _ \<Rightarrow> rt_return (Some sandbox_id)))))"

record DrainReport =
  dr_stopped :: "string list"
  dr_failed :: "(string \<times> string) list"
  dr_busy :: "string list"

definition no_report :: DrainReport where
  "no_report = \<lparr>dr_stopped = [], dr_failed = [], dr_busy = []\<rparr>"

fun drain_observed :: "'b execute_env \<Rightarrow> bool \<Rightarrow> ObservedSandbox list \<Rightarrow> DrainReport \<Rightarrow> ('b, DrainReport) rt" where
  "drain_observed ev force [] report st = (st, Inr report)"
| "drain_observed ev force (sandbox # sandboxes) report st =
     (let i = o_id sandbox in
      if is_terminal (o_status sandbox) then drain_observed ev force sandboxes report st
      else if \<not> force \<and> \<not> sandbox_is_idle_for_drain (st_db st) i
      then drain_observed ev force sandboxes (report\<lparr>dr_busy := dr_busy report @ [i]\<rparr>) st
      else case manager_stop (rt_backend (ex_runtime ev)) i (st_backend st) of
        (b', Inr _) \<Rightarrow>
          drain_observed ev force sandboxes (report\<lparr>dr_stopped := dr_stopped report @ [i]\<rparr>)
            (st\<lparr>st_db := mark_warm_sandbox_failed (ex_now ev) i ''sandbox drained'' (st_db st), st_backend := b',
                st_pipes := (st_pipes st)(i := None)\<rparr>)
      | (b', Inl e) \<Rightarrow>
          drain_observed ev force sandboxes (report\<lparr>dr_failed := dr_failed report @ [(i, sandbox_error_message e)]\<rparr>)
            (st\<lparr>st_backend := b'\<rparr>))"

definition drain :: "'b execute_env \<Rightarrow> bool \<Rightarrow> ('b, DrainReport) rt" where
  "drain ev force =
     rt_bind (backend_op (list_observed (rt_backend (ex_runtime ev)))) (\<lambda>observed. drain_observed ev force observed no_report)"

record WorkflowSandboxCleanupReport =
  wr_stopped :: "string list"
  wr_missing :: "string list"
  wr_failed :: "(string \<times> string) list"

definition workflow_event :: "string \<Rightarrow> string \<Rightarrow> string \<Rightarrow> string \<Rightarrow> (string \<times> json) list" where
  "workflow_event thread_key sandbox_id workflow_run_id reason =
     [(''thread_key'', JStr thread_key), (''sandbox_id'', JStr sandbox_id), (''workflow_run_id'', JStr workflow_run_id),
      (''reason'', JStr reason)]"

definition after_workflow_stop ::
  "'b execute_env \<Rightarrow> string \<Rightarrow> string \<Rightarrow> string \<Rightarrow> string \<Rightarrow> bool \<Rightarrow> ('b, unit) rt" where
  "after_workflow_stop ev workflow_run_id reason thread_key sandbox_id missing =
     rt_bind (store_quiet (\<lambda>db. (mark_warm_sandbox_failed (ex_now ev) sandbox_id ''workflow-owned sandbox stopped'' db, ()))) (\<lambda>_.
     rt_bind (store_op (\<lambda>db. map_prod id Inr (clear_sandbox_id_if_matches (ex_now ev) thread_key sandbox_id db))) (\<lambda>cleared.
     store_quiet (append_event (ex_now ev) thread_key None ''session.workflow_sandbox_stopped''
       (JObj (workflow_event thread_key sandbox_id workflow_run_id reason @ [(''missing'', JBool missing), (''cleared'', JBool cleared)])))))"

fun stop_owned ::
  "'b execute_env \<Rightarrow> string \<Rightarrow> string \<Rightarrow> WorkflowOwnedSandbox list \<Rightarrow> WorkflowSandboxCleanupReport \<Rightarrow> ('b, WorkflowSandboxCleanupReport) rt" where
  "stop_owned ev workflow_run_id reason [] report = rt_return report"
| "stop_owned ev workflow_run_id reason (s # rest) report =
     (let i = wo_sandbox_id s; k = wo_thread_key s in
      rt_bind (remove_pipe i) (\<lambda>_.
      rt_bind (backend_try (manager_stop (rt_backend (ex_runtime ev)) i)) (\<lambda>r.
        case r of
          Inr _ \<Rightarrow>
            rt_bind (after_workflow_stop ev workflow_run_id reason k i False) (\<lambda>_.
            stop_owned ev workflow_run_id reason rest (report\<lparr>wr_stopped := wr_stopped report @ [i]\<rparr>))
        | Inl (SbNotFound _) \<Rightarrow>
            rt_bind (after_workflow_stop ev workflow_run_id reason k i True) (\<lambda>_.
            stop_owned ev workflow_run_id reason rest (report\<lparr>wr_missing := wr_missing report @ [i]\<rparr>))
        | Inl e \<Rightarrow>
            rt_bind (store_quiet (append_event (ex_now ev) k None ''session.workflow_sandbox_stop_failed''
              (JObj (workflow_event k i workflow_run_id reason @ [(''error'', JStr (sandbox_error_message e))])))) (\<lambda>_.
            stop_owned ev workflow_run_id reason rest (report\<lparr>wr_failed := wr_failed report @ [(i, sandbox_error_message e)]\<rparr>)))))"

definition stop_workflow_owned_sandboxes :: "'b execute_env \<Rightarrow> string \<Rightarrow> string \<Rightarrow> ('b, WorkflowSandboxCleanupReport) rt" where
  "stop_workflow_owned_sandboxes ev workflow_run_id reason =
     rt_bind (store_read (\<lambda>db. list_workflow_owned_sandboxes db workflow_run_id)) (\<lambda>sandboxes.
     stop_owned ev workflow_run_id reason sandboxes \<lparr>wr_stopped = [], wr_missing = [], wr_failed = []\<rparr>)"

section \<open>What a drain stops\<close>

lemma idle_antitone: "sandbox_is_idle_for_drain (mark_warm_sandbox_failed now j e db) i \<Longrightarrow> sandbox_is_idle_for_drain db i"
  by (auto simp: sandbox_is_idle_for_drain_def mark_warm_sandbox_failed_def sql_update_def thread_executions_def store_defs
      split: if_splits)

text \<open>The environment with another way of stopping a sandbox.\<close>

definition with_stop :: "(string \<Rightarrow> ('b, unit) backend_call) \<Rightarrow> 'b execute_env \<Rightarrow> 'b execute_env" where
  "with_stop f ev = ev\<lparr>ex_runtime := (ex_runtime ev)\<lparr>rt_pool := (rt_pool (ex_runtime ev))
     \<lparr>pe_backend := (rt_backend (ex_runtime ev))\<lparr>be_stop := f\<rparr>\<rparr>\<rparr>\<rparr>"

lemma with_stop_simps [simp]:
  "manager_stop (rt_backend (ex_runtime (with_stop f ev))) = f" "ex_now (with_stop f ev) = ex_now ev"
  "list_observed (rt_backend (ex_runtime (with_stop f ev))) = list_observed (rt_backend (ex_runtime ev))"
  by (simp_all add: with_stop_def manager_stop_def list_observed_def fun_eq_iff)

lemma drain_observed_spares:
  assumes "\<And>i. sandbox_is_idle_for_drain (st_db st) i \<Longrightarrow> f i = manager_stop (rt_backend (ex_runtime ev)) i"
  shows "drain_observed (with_stop f ev) False os rep st = drain_observed ev False os rep st"
  using assms
proof (induction os arbitrary: rep st)
  case (Cons s os)
  show ?case
  proof (cases "is_terminal (o_status s) \<or> \<not> sandbox_is_idle_for_drain (st_db st) (o_id s)")
    case True
    then show ?thesis using Cons by (auto simp: Let_def)
  next
    case False
    obtain b' r where stop: "manager_stop (rt_backend (ex_runtime ev)) (o_id s) (st_backend st) = (b', r)" by fastforce
    have "drain_observed (with_stop f ev) False os rep' st' = drain_observed ev False os rep' st'"
      if "st_db st' \<in> {st_db st, mark_warm_sandbox_failed (ex_now ev) (o_id s) ''sandbox drained'' (st_db st)}" for rep' st'
    proof (rule Cons.IH)
      have "sandbox_is_idle_for_drain (st_db st) i" if "sandbox_is_idle_for_drain (st_db st') i" for i
        using that \<open>st_db st' \<in> _\<close> by (auto dest: idle_antitone)
      then show "f i = manager_stop (rt_backend (ex_runtime ev)) i" if "sandbox_is_idle_for_drain (st_db st') i" for i
        using that Cons.prems by blast
    qed
    with False stop Cons.prems show ?thesis by (simp add: Let_def split: sum.split)
  qed
qed simp

definition running_ids :: "ObservedSandbox list \<Rightarrow> string list" where
  "running_ids os = map o_id (filter (\<lambda>s. \<not> is_terminal (o_status s)) os)"

definition reported :: "DrainReport \<Rightarrow> string multiset" where
  "reported rep = mset (dr_stopped rep) + mset (map fst (dr_failed rep)) + mset (dr_busy rep)"

lemma drain_observed_reports:
  assumes "drain_observed ev force os rep st = (st', res)"
  obtains rep' where "res = Inr rep'" and "reported rep' = reported rep + mset (running_ids os)"
    and "force \<Longrightarrow> dr_busy rep' = dr_busy rep"
    and "\<not> force \<Longrightarrow> set (dr_busy rep) \<union> {i \<in> set (running_ids os). \<not> sandbox_is_idle_for_drain (st_db st) i} \<subseteq> set (dr_busy rep')"
  using assms
proof (induction os arbitrary: rep st thesis)
  case Nil
  then show ?case by (auto simp: running_ids_def)
next
  case (Cons s os)
  let ?failed = "mark_warm_sandbox_failed (ex_now ev) (o_id s) ''sandbox drained'' (st_db st)"
  obtain st1 rep1 where step: "drain_observed ev force os rep1 st1 = (st', res)" "st_db st1 \<in> {st_db st, ?failed}"
      "reported rep1 + mset (running_ids os) = reported rep + mset (running_ids (s # os))"
      "force \<Longrightarrow> dr_busy rep1 = dr_busy rep"
      "\<not> force \<Longrightarrow> set (dr_busy rep) \<subseteq> set (dr_busy rep1)"
      "\<And>i. \<not> force \<Longrightarrow> i \<in> set (running_ids (s # os)) \<Longrightarrow> \<not> sandbox_is_idle_for_drain (st_db st) i \<Longrightarrow>
        i \<in> set (running_ids os) \<union> set (dr_busy rep1)"
  proof (cases "is_terminal (o_status s)")
    case True
    show ?thesis by (rule that [of rep st]) (use True Cons.prems(2) in \<open>auto simp: running_ids_def\<close>)
  next
    case False
    show ?thesis
    proof (cases "\<not> force \<and> \<not> sandbox_is_idle_for_drain (st_db st) (o_id s)")
      case True
      show ?thesis
        by (rule that [of "rep\<lparr>dr_busy := dr_busy rep @ [o_id s]\<rparr>" st])
          (use True False Cons.prems(2) in \<open>auto simp: running_ids_def reported_def Let_def\<close>)
    next
      case idle: False
      obtain b' r where stop: "manager_stop (rt_backend (ex_runtime ev)) (o_id s) (st_backend st) = (b', r)" by fastforce
      show ?thesis
      proof (cases r)
        case (Inl e)
        show ?thesis
          by (rule that [of "rep\<lparr>dr_failed := dr_failed rep @ [(o_id s, sandbox_error_message e)]\<rparr>" "st\<lparr>st_backend := b'\<rparr>"])
            (use False idle stop Inl Cons.prems(2) in \<open>auto simp: running_ids_def reported_def Let_def\<close>)
      next
        case (Inr u)
        show ?thesis
          by (rule that [of "rep\<lparr>dr_stopped := dr_stopped rep @ [o_id s]\<rparr>"
              "st\<lparr>st_db := ?failed, st_backend := b', st_pipes := (st_pipes st)(o_id s := None)\<rparr>"])
            (use False idle stop Inr Cons.prems(2) in \<open>auto simp: running_ids_def reported_def Let_def\<close>)
      qed
    qed
  qed
  obtain rep' where "res = Inr rep'" "reported rep' = reported rep1 + mset (running_ids os)" "force \<Longrightarrow> dr_busy rep' = dr_busy rep1"
      "\<not> force \<Longrightarrow> set (dr_busy rep1) \<union> {i \<in> set (running_ids os). \<not> sandbox_is_idle_for_drain (st_db st1) i} \<subseteq> set (dr_busy rep')"
    using Cons.IH [OF _ step(1)] by blast
  moreover have "sandbox_is_idle_for_drain (st_db st1) i \<Longrightarrow> sandbox_is_idle_for_drain (st_db st) i" for i
    using step(2) idle_antitone by auto
  ultimately show ?case using step(3-6) by (intro Cons.prems(1) [of rep']) (simp, simp, simp, blast)
qed

text \<open>
  C20. \<^verbatim>\<open>drain\<close> accounts for every sandbox of the backend that has not ended: each is stopped, failed to stop or left
  as busy, once for every time it is listed. With \<^verbatim>\<open>force\<close> none is left; without it every sandbox not known to be idle
  is left, and the backend is never asked to stop one of these: whatever it would do to them, the drain is the same.
\<close>

theorem drain_spares_busy:
  "drain (with_stop (\<lambda>i. if sandbox_is_idle_for_drain (st_db st) i then manager_stop (rt_backend (ex_runtime ev)) i else other i) ev) False st =
     drain ev False st \<and>
   (case list_observed (rt_backend (ex_runtime ev)) (st_backend st) of
      (b', Inl e) \<Rightarrow> drain ev force st = (st\<lparr>st_backend := b'\<rparr>, Inl (Sandbox e))
    | (b', Inr observed) \<Rightarrow> \<exists>st' report. drain ev force st = (st', Inr report) \<and>
        mset (dr_stopped report) + mset (map fst (dr_failed report)) + mset (dr_busy report) = mset (running_ids observed) \<and>
        (if force then dr_busy report = []
         else {i \<in> set (running_ids observed). \<not> sandbox_is_idle_for_drain (st_db st) i} \<subseteq> set (dr_busy report)))"
proof
  show "drain (with_stop (\<lambda>i. if sandbox_is_idle_for_drain (st_db st) i then manager_stop (rt_backend (ex_runtime ev)) i else other i) ev) False st =
      drain ev False st"
    by (auto simp: drain_def rt_bind_def backend_op_def backend_try_def rt_fail_def rt_return_def
        intro!: drain_observed_spares split: prod.split sum.split)
  show "case list_observed (rt_backend (ex_runtime ev)) (st_backend st) of
      (b', Inl e) \<Rightarrow> drain ev force st = (st\<lparr>st_backend := b'\<rparr>, Inl (Sandbox e))
    | (b', Inr observed) \<Rightarrow> \<exists>st' report. drain ev force st = (st', Inr report) \<and>
        mset (dr_stopped report) + mset (map fst (dr_failed report)) + mset (dr_busy report) = mset (running_ids observed) \<and>
        (if force then dr_busy report = []
         else {i \<in> set (running_ids observed). \<not> sandbox_is_idle_for_drain (st_db st) i} \<subseteq> set (dr_busy report))"
  proof (cases "list_observed (rt_backend (ex_runtime ev)) (st_backend st)")
    case (Pair b' r)
    show ?thesis
    proof (cases r)
      case (Inl e)
      with Pair show ?thesis by (simp add: drain_def rt_bind_def backend_op_def backend_try_def rt_fail_def)
    next
      case (Inr observed)
      then have d: "drain ev force st = drain_observed ev force observed no_report (st\<lparr>st_backend := b'\<rparr>)"
        using Pair by (simp add: drain_def rt_bind_def backend_op_def backend_try_def rt_return_def)
      obtain st' res where "drain_observed ev force observed no_report (st\<lparr>st_backend := b'\<rparr>) = (st', res)" by fastforce
      with drain_observed_reports [OF this] Pair Inr d show ?thesis
        by (auto simp: reported_def no_report_def)
    qed
  qed
qed

section \<open>Giving a sandbox back\<close>

lemma append_event_plain:
  assumes "store_inv db" and "has_session db k"
  obtains e where "snd (append_event now k None ty pl db) = Inr e"
    and "session_events (fst (append_event now k None ty pl db)) =
      session_events db @ [new_event_row now (next_event_id db) k None ty pl]"
proof -
  have i: "insert_session_event now k None ty pl db =
    ((use_event_id db)\<lparr>session_events := session_events db @ [new_event_row now (next_event_id db) k None ty pl]\<rparr>,
     Inr (new_event_row now (next_event_id db) k None ty pl))" using assms(2) by (simp add: insert_event_ok)
  have "store_inv (fst (insert_session_event now k None ty pl db))" using assms(1) by (rule insert_session_event_inv)
  then obtain e where "event_of_row (new_event_row now (next_event_id db) k None ty pl) = Inr e"
    using event_decodes [of "fst (insert_session_event now k None ty pl db)"
        "new_event_row now (next_event_id db) k None ty pl"] i by auto
  then show thesis using that i by (simp add: append_event_def)
qed

text \<open>Whether a stop leaves no sandbox: it was stopped, or was already gone.\<close>

definition gone :: "unit sandbox_result \<Rightarrow> bool" where
  "gone r \<longleftrightarrow> (case r of Inr _ \<Rightarrow> True | Inl e \<Rightarrow> (\<exists>m. e = SbNotFound m))"

lemma released:
  assumes "store_inv (st_db st)" and "detach_idle_session_sandbox (ex_now ev) k (st_db st) = (db', Inr (Some sb))"
    and "get_session db' k = Inr s'" and "manager_stop (rt_backend (ex_runtime ev)) sb (st_backend st) = (b', r)"
  obtains st' where "release_session_sandbox ev k st = (st', if gone r then Inr (Some sb) else Inl (Sandbox (projl r)))"
    and "st_backend st' = b'" and "st_pipes st' = (st_pipes st)(sb := None)" and "sessions (st_db st') = sessions db'"
    and "session_warm_sandboxes (st_db st') = session_warm_sandboxes db'"
    and "e_event_type (last (session_events (st_db st'))) =
      (if gone r then ''session.sandbox_released'' else ''session.sandbox_release_failed'')"
proof -
  have inv: "store_inv db'" using sandbox_ops_inv assms(1,2) by (metis fst_conv)
  have h: "has_session db' k" using assms(3) by (auto simp: get_session_def has_session_def split: option.splits dest: row_by_Some)
  define ty where "ty = (if gone r then ''session.sandbox_released'' else ''session.sandbox_release_failed'')"
  define pl where "pl = JObj ([(''thread_key'', JStr k), (''sandbox_id'', JStr sb)] @
    (if gone r then [] else [(''error'', JStr (sandbox_error_message (projl r)))]))"
  obtain v where v: "snd (append_event (ex_now ev) k None ty pl db') = Inr v"
    "session_events (fst (append_event (ex_now ev) k None ty pl db')) = session_events db' @ [new_event_row (ex_now ev) (next_event_id db') k None ty pl]"
    by (rule append_event_plain [OF inv h])
  let ?st = "\<lparr>st_db = fst (append_event (ex_now ev) k None ty pl db'), st_backend = b', st_pipes = (st_pipes st)(sb := None)\<rparr>"
  have "release_session_sandbox ev k st = (?st, if gone r then Inr (Some sb) else Inl (Sandbox (projl r)))"
    using v(1) assms(2,4)
    by (cases r) (auto simp: release_session_sandbox_def rt_bind_def store_op_def remove_pipe_def backend_try_def rt_return_def rt_fail_def
        gone_def ty_def pl_def Let_def case_prod_beta split: SandboxError.split)
  then show thesis by (rule that) (use v(2) in \<open>simp_all add: new_event_row_def ty_def append_event_def insert_session_event_def use_event_id_def Let_def case_prod_beta\<close>)
qed

text \<open>
  \<^verbatim>\<open>release_session_sandbox\<close> on every branch: an unknown or workflow-owned session and one with a queued or running
  turn are refused and nothing changes, no stop asked for; a session with no sandbox is left alone. Otherwise the
  session has lost its sandbox and the process its pipe whatever the stop answers, so that a failed stop, which is
  reported to the caller and in the log, leaves the sandbox unreferenced unless another session uses it.
\<close>

lemma release_detaches:
  assumes inv: "store_inv (st_db st)"
  shows "case row_by s_thread_key k (sessions (st_db st)) of
      None \<Rightarrow> release_session_sandbox ev k st = (st, Inl (Store (NotFound k)))
    | Some s \<Rightarrow>
      if workflow_owned s then release_session_sandbox ev k st = (st, Inl (Store (WorkflowOwnedSandbox k)))
      else case active_execution_for_thread (st_db st) k of
        Inr (Some e) \<Rightarrow> release_session_sandbox ev k st = (st, Inl (Store (ExecutionActive k (exe_execution_id e))))
      | Inr None \<Rightarrow> (case s_sandbox_id s of
            None \<Rightarrow> release_session_sandbox ev k st = (st, Inr None)
          | Some sb \<Rightarrow> (case manager_stop (rt_backend (ex_runtime ev)) sb (st_backend st) of (b', r) \<Rightarrow>
              \<exists>st' s'. release_session_sandbox ev k st = (st', if gone r then Inr (Some sb) else Inl (Sandbox (projl r))) \<and>
                st_backend st' = b' \<and> st_pipes st' = (st_pipes st)(sb := None) \<and>
                get_session (st_db st') k = Inr s' \<and> ses_sandbox_id s' = None \<and>
                (sb \<in> set (list_referenced_sandbox_ids (st_db st')) \<longleftrightarrow>
                  (\<exists>t \<in> set (sessions (st_db st)). s_thread_key t \<noteq> k \<and> s_sandbox_id t = Some sb)) \<and>
                e_event_type (last (session_events (st_db st'))) =
                  (if gone r then ''session.sandbox_released'' else ''session.sandbox_release_failed'')))
      | Inl e \<Rightarrow> False"
proof -
  note d = detach_idle_result [OF inv, where now = "ex_now ev" and k = k]
  note refused = release_session_sandbox_def rt_bind_def store_op_def rt_return_def
  show ?thesis
  proof (cases "row_by s_thread_key k (sessions (st_db st))")
    case None
    with d show ?thesis by (simp add: refused)
  next
    case (Some s)
    consider "workflow_owned s" | e where "\<not> workflow_owned s" "active_execution_for_thread (st_db st) k = Inr (Some e)"
      | "\<not> workflow_owned s" "active_execution_for_thread (st_db st) k = Inr None" "s_sandbox_id s = None"
      | sb where "\<not> workflow_owned s" "active_execution_for_thread (st_db st) k = Inr None" "s_sandbox_id s = Some sb"
      using d Some by (auto split: if_splits sum.splits option.splits)
    then show ?thesis
    proof cases
      case (4 sb)
      then obtain db' s' where db': "detach_idle_session_sandbox (ex_now ev) k (st_db st) = (db', Inr (Some sb))"
          "get_session db' k = Inr s'" "ses_sandbox_id s' = None"
          "sb \<in> set (list_referenced_sandbox_ids db') \<longleftrightarrow> (\<exists>t \<in> set (sessions (st_db st)). s_thread_key t \<noteq> k \<and> s_sandbox_id t = Some sb)"
        using d Some by auto
      obtain b' r where stop: "manager_stop (rt_backend (ex_runtime ev)) sb (st_backend st) = (b', r)" by fastforce
      obtain st' where st': "release_session_sandbox ev k st = (st', if gone r then Inr (Some sb) else Inl (Sandbox (projl r)))"
          "st_backend st' = b'" "st_pipes st' = (st_pipes st)(sb := None)" "sessions (st_db st') = sessions db'"
          "session_warm_sandboxes (st_db st') = session_warm_sandboxes db'"
          "e_event_type (last (session_events (st_db st'))) =
            (if gone r then ''session.sandbox_released'' else ''session.sandbox_release_failed'')"
        by (rule released [OF inv db'(1,2) stop])
      then have "get_session (st_db st') k = Inr s'" "list_referenced_sandbox_ids (st_db st') = list_referenced_sandbox_ids db'"
        using db'(2) by (simp_all add: get_session_def list_referenced_sandbox_ids_def)
      with 4 Some stop st' db'(3,4) show ?thesis by simp
    qed (use d Some in \<open>simp_all add: refused\<close>)
  qed
qed

definition example_assigned :: "nat runtime_state" where
  "example_assigned = example_start\<lparr>st_db := fst (update_sandbox_assignment 6 ''api:1'' ''sb-0'' default_enabled example_db)\<rparr>"

section \<open>Interrupting a turn\<close>

lemma wait_ends:
  assumes "True \<in> fst ` set rounds"
  shows "snd (wait_for_active_steering_pipe ev k x rounds st) \<noteq> None"
  using assms
proof (induction ev k x rounds st rule: wait_for_active_steering_pipe.induct)
  case (2 ev k x past_deadline others rounds st)
  then show ?case by (auto simp: Let_def split: sum.split option.split prod.split)
qed simp

lemma wait_opens:
  assumes "wait_for_active_steering_pipe ev k x rounds st = (st', Some (Inr i))"
  obtains s old where "get_session (st_db st') k = Inr s" and "ses_sandbox_id s = Some i" and "st_pipes st' i = Some old"
  using assms
proof (induction ev k x rounds st arbitrary: thesis rule: wait_for_active_steering_pipe.induct)
  case (2 ev k x past_deadline others rounds st)
  obtain s where s: "get_session (st_db st) k = Inr s"
    using 2(3) by (auto simp: Let_def split: sum.splits)
  show ?case
  proof (cases "ses_sandbox_id s")
    case None
    with 2 s show ?thesis by (auto simp: Let_def split: if_splits)
  next
    case (Some j)
    obtain st1 r where pipe: "ensure_session_pipe ev j st = (st1, r)" by fastforce
    show ?thesis
    proof (cases r)
      case (Inl e)
      with 2 s Some pipe show ?thesis by (auto simp: Let_def split: if_splits)
    next
      case (Inr u)
      then have "st' = st1" "i = j" using 2(3) s Some pipe by (auto simp: Let_def)
      moreover obtain old where "st_pipes st1 = (st_pipes st)(j \<mapsto> old)" using pipe_opened [of ev j st st1] pipe Inr by auto
      ultimately show ?thesis using 2(2) [of s old] s Some pipe_db [OF pipe] by simp
    qed
  qed
qed simp


lemma write_fails:
  assumes "write_input_lines ev i lines st = (st', Inl e)"
  obtains m where "e = Sandbox (SbIo m)"
  using assms
  by (induction lines arbitrary: st) (auto simp: rt_return_def rt_bind_err send_line_def codec_error_to_runtime_def split: option.splits)

lemma read_first:
  "rt_bind (store_read f) g st = (case f (st_db st) of Inl e \<Rightarrow> (st, Inl (Store e)) | Inr a \<Rightarrow> g a st)"
  by (simp add: rt_bind_def store_read_def store_op_def split: sum.split)

lemma event_appended:
  assumes "append_event now k x ty pl db = (db', Inr v)"
  shows "sessions db' = sessions db" and "session_events db' = session_events db @ [new_event_row now (next_event_id db) k x ty pl]"
  using assms by (auto simp: append_event_def insert_session_event_def use_event_id_def Let_def split: if_splits prod.splits)

text \<open>The line an interrupt sends to the sandbox.\<close>

definition interrupt_line :: "'b execute_env \<Rightarrow> (string \<Rightarrow> string option) \<Rightarrow> string \<Rightarrow> string \<Rightarrow> SessionExecution \<Rightarrow> string" where
  "interrupt_line ev span k reason e =
     input_line_with_session_context (ex_parse ev) (ex_print ev) k (active_trace span e) None (interrupt_input_line (ex_print ev) k reason)"

text \<open>
  \<^verbatim>\<open>interrupt_active_execution\<close> answers that it interrupted exactly when the session had a queued or running
  execution at the call and the interrupt line is the last one written to the pipe of the sandbox the session has at
  the end, after which the log records the delivery. With no such execution nothing changes. It waits no longer than
  its deadline: the first round after that ends it. Every other end is an error.
\<close>

lemma interrupt_delivered:
  "case interrupt_active_execution ev span k reason rounds st of (st', res) \<Rightarrow>
     (case active_execution_for_thread (st_db st) k of
        Inl e \<Rightarrow> st' = st \<and> res = Inl (Store e)
      | Inr None \<Rightarrow> st' = st \<and> res = Inr (Some \<lparr>int_interrupted = False, int_execution_id = None\<rparr>)
      | Inr (Some e) \<Rightarrow>
          (case res of
             Inr None \<Rightarrow> True \<notin> fst ` set rounds
           | Inr (Some reply) \<Rightarrow> reply = \<lparr>int_interrupted = True, int_execution_id = Some (exe_execution_id e)\<rparr> \<and>
               (\<exists>s sb old. get_session (st_db st') k = Inr s \<and> ses_sandbox_id s = Some sb \<and>
                  st_pipes st' sb = Some (old @ [interrupt_line ev span k reason e])) \<and>
               e_event_type (last (session_events (st_db st'))) = ''session.interrupt_delivered''
           | Inl err \<Rightarrow> (\<exists>m. err = BadRequest m) \<or> (\<exists>m. err = Sandbox (SbIo m)) \<or> (\<exists>m. err = Store m)))"
proof -
  obtain st' res where run: "interrupt_active_execution ev span k reason rounds st = (st', res)" by fastforce
  show ?thesis
  proof (cases "\<exists>e. active_execution_for_thread (st_db st) k = Inr (Some e)")
    case False
    then show ?thesis
      by (auto simp: interrupt_active_execution_def read_first rt_return_def split: sum.split option.split)
  next
    case True
    then obtain e where e: "active_execution_for_thread (st_db st) k = Inr (Some e)" by blast
    let ?x = "exe_execution_id e"
    obtain st1 w where wait: "wait_for_active_steering_pipe ev k ?x rounds st = (st1, w)" by fastforce
    consider "w = None" | m where "w = Some (Inl m)" | i where "w = Some (Inr i)" by (metis option.exhaust sum.exhaust)
    then show ?thesis
    proof cases
      case 1
      then show ?thesis using e wait wait_ends [of rounds ev k ?x st] by (auto simp: interrupt_active_execution_def read_first Let_def)
    next
      case 2
      then show ?thesis using e wait by (simp add: interrupt_active_execution_def read_first Let_def)
    next
      case (3 i)
      obtain s old where s: "get_session (st_db st1) k = Inr s" "ses_sandbox_id s = Some i" "st_pipes st1 i = Some old"
        using wait_opens wait 3 by metis
      obtain st2 r where wr: "write_input_lines ev i [interrupt_line ev span k reason e] st1 = (st2, r)" by fastforce
      have lines: "interrupt_active_execution ev span k reason rounds st =
          rt_bind (write_input_lines ev i [interrupt_line ev span k reason e]) (\<lambda>_.
          rt_bind (store_op (append_event (ex_now ev) k (Some ?x) ''session.interrupt_delivered'' (interrupt_event k ?x reason))) (\<lambda>_.
          rt_return (Some \<lparr>int_interrupted = True, int_execution_id = Some ?x\<rparr>))) st1"
        using e wait 3 by (simp add: interrupt_active_execution_def read_first Let_def interrupt_line_def input_lines_with_session_context_def
            del: write_input_lines.simps)
      show ?thesis
      proof (cases r)
        case (Inl err)
        with wr obtain m where "err = Sandbox (SbIo m)" by (auto elim: write_fails simp del: write_input_lines.simps)
        with Inl show ?thesis using e lines wr by (simp add: rt_bind_def del: write_input_lines.simps)
      next
        case (Inr u)
        then have "st_pipes st2 = (st_pipes st1)(i \<mapsto> old @ [interrupt_line ev span k reason e])"
          using wr s(3) by (intro write_sent) simp_all
        moreover have "st_db st2 = st_db st1" by (rule write_db [OF wr])
        ultimately show ?thesis
          using e lines wr Inr s(1,2) event_appended [of "ex_now ev" k "Some ?x"]
          by (auto simp: rt_bind_def store_op_def rt_return_def get_session_def split: prod.split sum.split simp del: write_input_lines.simps)
      qed
    qed
  qed
qed

end
