(* ===== verification/Workflow_Policy.thy ===== *)
theory Workflow_Policy
  imports Sandbox_Setup
begin

text \<open>
  Which workflows may run and under which principal (\<^verbatim>\<open>crates/centaur-workflows/src/lib.rs\<close>): the allowlist of
  the environment, the metadata discovered from the Python workflows, the webhook and filter types it carries, and
  the principals assigned to workflows. Arguments: \<open>env\<close>, the variables of the process, and \<open>dbg\<close>, the
  \<^verbatim>\<open>{:?}\<close> of a string.
\<close>

section \<open>Errors\<close>

text \<open>The last constructor stands for a panic; the others carry the text of the error they wrap.\<close>

datatype WorkflowRuntimeError =
    WfSuspend
  | WfBadRequest string
  | WfDisabled string
  | WfNotFound string
  | WfInternal string
  | WfUpstream string
  | WfAbsurd string
  | WfSessionRuntime string
  | WfSessionStore string
  | WfThreadKey string
  | WfJson string
  | WfSqlx string
  | WfHttp string
  | WfIronControl string
  | WfIo string
  | WfPanic

type_synonym 'a workflow_result = "WorkflowRuntimeError + 'a"

type_synonym environment = "string \<Rightarrow> string option"

text \<open>\<^verbatim>\<open>env::var(name).unwrap_or_default()\<close>, and a map of \<^verbatim>\<open>BTreeMap\<close> as its entries in key order.\<close>

definition env_or_default :: "environment \<Rightarrow> string \<Rightarrow> string" where
  "env_or_default env name = (case env name of None \<Rightarrow> [] | Some v \<Rightarrow> v)"

type_synonym 'v btree = "(string \<times> 'v) list"

section \<open>Enabled workflows\<close>

datatype WorkflowEnableMode = EnableAll | Allowlist

record WorkflowEnablement =
  we_mode :: WorkflowEnableMode
  we_allowed_names :: "string set"

definition WORKFLOW_ENABLE_MODE_ENV :: string where
  "WORKFLOW_ENABLE_MODE_ENV = ''WORKFLOW_ENABLE_MODE''"

definition WORKFLOW_ALLOWED_NAMES_ENV :: string where
  "WORKFLOW_ALLOWED_NAMES_ENV = ''WORKFLOW_ALLOWED_NAMES''"

definition enable_all :: WorkflowEnablement where
  "enable_all = \<lparr>we_mode = EnableAll, we_allowed_names = {}\<rparr>"

text \<open>
  The length of the whitespace character a string starts with, and the pieces of a string between commas and
  whitespace; \<open>piece\<close> is the piece read so far.
\<close>

fun space_length :: "string \<Rightarrow> nat option" where
  "space_length [] = None"
| "space_length (c # s) =
     (if ascii_space c then Some 1 else map_option length (find (\<lambda>w. starts_with (c # s) w) wide_spaces))"

function split_names :: "string \<Rightarrow> string \<Rightarrow> string list" where
  "split_names piece [] = [piece]"
| "split_names piece (c # s) =
     (if c = CHR '','' then piece # split_names [] s
      else case space_length (c # s) of
             Some n \<Rightarrow> piece # split_names [] (drop (n - 1) s)
           | None \<Rightarrow> split_names (piece @ [c]) s)"
  by pat_completeness auto
termination
  by (relation "measure (\<lambda>(piece, s). length s)") auto

definition parse_workflow_allowed_names :: "string \<Rightarrow> string set" where
  "parse_workflow_allowed_names raw = set (filter (\<lambda>name. name \<noteq> []) (map trim (split_names [] raw)))"

definition allowlist :: "string \<Rightarrow> WorkflowEnablement" where
  "allowlist raw_allowed_names = \<lparr>we_mode = Allowlist, we_allowed_names = parse_workflow_allowed_names raw_allowed_names\<rparr>"

definition enablement_from_env :: "(string \<Rightarrow> string) \<Rightarrow> environment \<Rightarrow> WorkflowEnablement workflow_result" where
  "enablement_from_env dbg env =
     (let mode = trim (env_or_default env WORKFLOW_ENABLE_MODE_ENV) in
      if mode = [] \<or> to_ascii_lowercase mode = ''all'' then Inr enable_all
      else if to_ascii_lowercase mode = ''allowlist'' then Inr (allowlist (env_or_default env WORKFLOW_ALLOWED_NAMES_ENV))
      else Inl (WfBadRequest (WORKFLOW_ENABLE_MODE_ENV @ '' must be \"all\" or \"allowlist\", got '' @ dbg mode)))"

definition is_enabled :: "WorkflowEnablement \<Rightarrow> string \<Rightarrow> bool" where
  "is_enabled en workflow_name =
     (case we_mode en of EnableAll \<Rightarrow> True | Allowlist \<Rightarrow> trim workflow_name \<in> we_allowed_names en)"

definition ensure_enabled :: "(string \<Rightarrow> string) \<Rightarrow> WorkflowEnablement \<Rightarrow> string \<Rightarrow> unit workflow_result" where
  "ensure_enabled dbg en workflow_name =
     (if is_enabled en workflow_name then Inr ()
      else Inl (WfDisabled (''workflow '' @ dbg workflow_name @ '' is disabled by '' @ WORKFLOW_ENABLE_MODE_ENV)))"

section \<open>Webhook declarations\<close>

datatype WebhookFilter =
  WebhookFilter (wf_any: "WebhookFilter list option") (wf_all: "WebhookFilter list option") (wf_source: "string option")
    (wf_key: "string option") (wf_op: "string option") (wf_value: "string option") (wf_values: "string list option")

datatype WorkflowWebhookAuth =
    AuthNone
  | AuthHmac (hmac_secret_ref: string) (hmac_signature_header: string) (hmac_algorithm: string) (hmac_signature_prefix: string)
      (hmac_encoding: string)
  | AuthGithub string
  | AuthStandardWebhooks string
  | AuthBearer string

datatype WorkflowWebhookTriggerKey = TriggerHeader string | TriggerStatic string

record WorkflowWebhookSpec =
  wh_slug :: string
  wh_provider :: "string option"
  wh_auth :: WorkflowWebhookAuth
  wh_trigger_key :: "WorkflowWebhookTriggerKey option"
  wh_allowed_methods :: "string list"
  wh_allowed_content_types :: "string list"
  wh_filter :: "WebhookFilter option"

record RegisteredWorkflowWebhook =
  rw_workflow_name :: string
  rw_source_path :: string
  rw_spec :: WorkflowWebhookSpec

section \<open>Discovered workflows\<close>

datatype WorkflowPrincipalDeclaration = Managed | Existing string

datatype PythonWorkflowPrincipal = PrincipalEnabled bool | PrincipalReference string

record PythonWorkflowDiscovery =
  pd_workflow_name :: string
  pd_workflow_source_path :: string
  pd_webhooks :: "RegisteredWorkflowWebhook list"
  pd_schedule :: "json option"
  pd_principal :: "PythonWorkflowPrincipal option"
  pd_starters :: "string set option"

record PythonWorkflowMetadata =
  pm_webhooks :: "RegisteredWorkflowWebhook list"
  pm_schedules :: "json list"
  pm_workflow_names :: "string set"
  pm_principals :: "WorkflowPrincipalDeclaration btree"
  pm_starters :: "string set btree"

definition default_metadata :: PythonWorkflowMetadata where
  "default_metadata = \<lparr>pm_webhooks = [], pm_schedules = [], pm_workflow_names = {}, pm_principals = [], pm_starters = []\<rparr>"

text \<open>\<^verbatim>\<open>object.entry(k).or_insert_with(v)\<close> on a JSON object; any other value is left.\<close>

definition entry_or_insert :: "string \<Rightarrow> json \<Rightarrow> (string \<times> json) list \<Rightarrow> (string \<times> json) list" where
  "entry_or_insert k v kvs = (if map_of kvs k = None then json_insert k v kvs else kvs)"

definition schedule_of_workflow :: "PythonWorkflowDiscovery \<Rightarrow> json \<Rightarrow> json" where
  "schedule_of_workflow w schedule =
     (case schedule of
        JObj kvs \<Rightarrow> JObj (entry_or_insert ''source_path'' (JStr (pd_workflow_source_path w))
          (entry_or_insert ''workflow_name'' (JStr (pd_workflow_name w)) kvs))
      | other \<Rightarrow> other)"

definition declaration_of :: "PythonWorkflowPrincipal option \<Rightarrow> WorkflowPrincipalDeclaration option" where
  "declaration_of declared =
     (case declared of
        Some (PrincipalEnabled True) \<Rightarrow> Some Managed
      | Some (PrincipalReference reference) \<Rightarrow> if trim reference \<noteq> [] then Some (Existing (trim reference)) else None
      | _ \<Rightarrow> None)"

definition add_workflow :: "PythonWorkflowDiscovery \<Rightarrow> PythonWorkflowMetadata \<Rightarrow> PythonWorkflowMetadata" where
  "add_workflow w md =
     md\<lparr>pm_workflow_names := insert (pd_workflow_name w) (pm_workflow_names md),
        pm_webhooks := pm_webhooks md @ pd_webhooks w,
        pm_starters := (case pd_starters w of None \<Rightarrow> pm_starters md | Some s \<Rightarrow> btree_insert (pd_workflow_name w) s (pm_starters md)),
        pm_schedules := (case pd_schedule w of None \<Rightarrow> pm_schedules md | Some s \<Rightarrow> pm_schedules md @ [schedule_of_workflow w s]),
        pm_principals := (case declaration_of (pd_principal w) of None \<Rightarrow> pm_principals md
          | Some d \<Rightarrow> btree_insert (pd_workflow_name w) d (pm_principals md))\<rparr>"

definition metadata_from_discovery_payload :: "PythonWorkflowDiscovery list \<Rightarrow> PythonWorkflowMetadata" where
  "metadata_from_discovery_payload workflows = fold add_workflow workflows default_metadata"

definition filter_metadata :: "WorkflowEnablement \<Rightarrow> PythonWorkflowMetadata \<Rightarrow> PythonWorkflowMetadata" where
  "filter_metadata en md =
     (if we_mode en = EnableAll then md
      else md\<lparr>pm_workflow_names := Set.filter (is_enabled en) (pm_workflow_names md),
              pm_webhooks := filter (\<lambda>w. is_enabled en (rw_workflow_name w)) (pm_webhooks md),
              pm_schedules := filter (\<lambda>s. case get_str ''workflow_name'' s of None \<Rightarrow> False | Some n \<Rightarrow> is_enabled en n) (pm_schedules md),
              pm_principals := filter (is_enabled en \<circ> fst) (pm_principals md),
              pm_starters := filter (is_enabled en \<circ> fst) (pm_starters md)\<rparr>)"

section \<open>Workflow principals\<close>

record WorkflowPrincipalAssignments =
  pa_required :: "string set"
  pa_registered :: "string btree"

definition principal_for_workflow :: "WorkflowPrincipalAssignments \<Rightarrow> string \<Rightarrow> string option workflow_result" where
  "principal_for_workflow pa workflow_name =
     (case map_of (pa_registered pa) workflow_name of
        Some p \<Rightarrow> Inr (Some p)
      | None \<Rightarrow>
          if workflow_name \<in> pa_required pa
          then Inl (WfInternal (''workflow '' @ workflow_name @ '' declares WORKFLOW_PRINCIPAL but no scoped principal is registered''))
          else Inr None)"

record WorkflowHostSandboxRuntime =
  hs_spec :: SandboxSpec
  hs_principals :: WorkflowPrincipalAssignments

definition host_sandbox_new :: "SandboxSpec \<Rightarrow> WorkflowHostSandboxRuntime" where
  "host_sandbox_new spec = \<lparr>hs_spec = spec, hs_principals = \<lparr>pa_required = {}, pa_registered = []\<rparr>\<rparr>"

definition update_workflow_principals ::
  "string btree \<Rightarrow> string set \<Rightarrow> WorkflowHostSandboxRuntime \<Rightarrow> WorkflowHostSandboxRuntime" where
  "update_workflow_principals registered required hs = hs\<lparr>hs_principals := \<lparr>pa_required = required, pa_registered = registered\<rparr>\<rparr>"

definition spec_for_workflow :: "WorkflowHostSandboxRuntime \<Rightarrow> string \<Rightarrow> SandboxSpec workflow_result" where
  "spec_for_workflow hs workflow_name =
     res_map (\<lambda>p. case p of None \<Rightarrow> hs_spec hs | Some i \<Rightarrow> (hs_spec hs)\<lparr>sp_iron_control_principal := Some i\<rparr>)
       (principal_for_workflow (hs_principals hs) workflow_name)"

text \<open>
  \<^verbatim>\<open>slugify\<close> of \<^verbatim>\<open>crates/centaur-iron-control/src/util.rs\<close>, on UTF-8 bytes. Besides ASCII letters, \<^verbatim>\<open>to_lowercase\<close> gives
  ASCII only for the Kelvin sign (\<open>k\<close>) and the dotted capital I (\<open>i\<close> and a combining dot); the bytes of every
  other character are outside ASCII before and after.
\<close>

fun ascii_of_lowercase :: "string \<Rightarrow> string" where
  "ascii_of_lowercase [] = []"
| "ascii_of_lowercase (c # s) =
     (if starts_with (c # s) [CHR 0xE2, CHR 0x84, CHR 0xAA] then CHR ''k'' # ascii_of_lowercase (drop 2 s)
      else if starts_with (c # s) [CHR 0xC4, CHR 0xB0] then CHR ''i'' # CHR 0xCC # ascii_of_lowercase (drop 1 s)
      else ascii_lower_char c # ascii_of_lowercase s)"

definition slug_step :: "char \<Rightarrow> string \<times> bool \<Rightarrow> string \<times> bool" where
  "slug_step ch st =
     (case st of (out, pending_dash) \<Rightarrow>
        if is_ascii_alphanumeric ch then (out @ (if pending_dash \<and> out \<noteq> [] then ''-'' else []) @ [ch], False) else (out, True))"

definition slugify :: "string \<Rightarrow> string" where
  "slugify v = (let out = fst (fold slug_step (ascii_of_lowercase v) ([], False)) in if out = [] then ''x'' else out)"

definition canonical_workflow_principal_foreign_id :: "string \<Rightarrow> string" where
  "canonical_workflow_principal_foreign_id workflow_name = ''workflow-'' @ slugify workflow_name"

definition workflow_principal_labels :: "string \<Rightarrow> labels" where
  "workflow_principal_labels workflow_name = [(''managed-by'', ''centaur''), (''workflow_name'', workflow_name)]"

record PrincipalInput =
  pi_foreign_id :: string
  pi_name :: string
  pi_labels :: labels
  pi_kind :: "string option"
  pi_slack_user_id :: "string option"
  pi_slack_channel_id :: "string option"
  pi_slack_team_id :: "string option"
  pi_slack_email :: "string option"

definition managed_input :: "string \<Rightarrow> PrincipalInput" where
  "managed_input workflow_name =
     \<lparr>pi_foreign_id = canonical_workflow_principal_foreign_id workflow_name, pi_name = ''Workflow '' @ workflow_name,
      pi_labels = workflow_principal_labels workflow_name, pi_kind = Some ''workflow'', pi_slack_user_id = None,
      pi_slack_channel_id = None, pi_slack_team_id = None, pi_slack_email = None\<rparr>"

text \<open>\<open>refresh\<close> and \<open>get\<close> are \<^verbatim>\<open>refresh_principal\<close> and \<^verbatim>\<open>get_principal\<close> of the iron-control client.\<close>

fun register_workflow_principals ::
  "(PrincipalInput \<Rightarrow> string + Principal) \<Rightarrow> (string \<Rightarrow> string + Principal) \<Rightarrow> WorkflowPrincipalDeclaration btree \<Rightarrow> string btree" where
  "register_workflow_principals refresh get [] = []"
| "register_workflow_principals refresh get ((workflow_name, declaration) # rest) =
     (let result = (case declaration of Managed \<Rightarrow> refresh (managed_input workflow_name) | Existing reference \<Rightarrow> get reference);
          registered = register_workflow_principals refresh get rest
      in case result of Inl _ \<Rightarrow> registered | Inr rec \<Rightarrow> btree_insert workflow_name (prn_id rec) registered)"

definition reconcile_workflow_principals ::
  "(PrincipalInput \<Rightarrow> string + Principal) \<Rightarrow> (string \<Rightarrow> string + Principal) \<Rightarrow> PythonWorkflowMetadata \<Rightarrow> WorkflowEnablement \<Rightarrow>
   WorkflowHostSandboxRuntime \<Rightarrow> WorkflowHostSandboxRuntime" where
  "reconcile_workflow_principals refresh get discovery en sandbox =
     (let principals = filter (is_enabled en \<circ> fst) (pm_principals discovery) in
      update_workflow_principals (register_workflow_principals refresh get principals) (set (map fst principals)) sandbox)"

definition prepare_workflow_host_sandbox ::
  "(PrincipalInput \<Rightarrow> string + Principal) \<Rightarrow> (string \<Rightarrow> string + Principal) \<Rightarrow> WorkflowHostSandboxRuntime option \<Rightarrow>
   PythonWorkflowMetadata \<Rightarrow> WorkflowEnablement \<Rightarrow> WorkflowHostSandboxRuntime option workflow_result" where
  "prepare_workflow_host_sandbox refresh get host_sandbox discovery en =
     (case host_sandbox of
        None \<Rightarrow>
          if pm_principals discovery \<noteq> []
          then Inl (WfBadRequest (''WORKFLOW_PRINCIPAL requires workflow-host sandboxing, but WORKFLOW_HOST_SANDBOX is disabled for workflows: '' @
            join_with '', '' (map fst (pm_principals discovery))))
          else Inr None
      | Some sandbox \<Rightarrow> Inr (Some (reconcile_workflow_principals refresh get discovery en sandbox)))"

section \<open>Principals are enforced\<close>

lemma map_of_btree_insert [simp]: "map_of (btree_insert k v m) = (map_of m)(k \<mapsto> v)"
  by (induction m) auto

definition sorted_keys :: "'v btree \<Rightarrow> bool" where
  "sorted_keys m \<longleftrightarrow> sorted_wrt (<) (map fst m)"

lemma sorted_keys_insert: "sorted_keys m \<Longrightarrow> sorted_keys (btree_insert k v m)"
  unfolding sorted_keys_def by (rule btree_insert_sorted)

lemma sorted_keys_distinct: "sorted_keys m \<Longrightarrow> distinct (map fst m)"
  by (simp add: sorted_keys_def strict_sorted_iff)

lemma sorted_keys_filter: "sorted_keys m \<Longrightarrow> sorted_keys (filter p m)"
  by (simp add: sorted_keys_def sorted_wrt_map sorted_wrt_filter)

lemma metadata_sorted:
  "sorted_keys (pm_principals (metadata_from_discovery_payload ws))" "sorted_keys (pm_starters (metadata_from_discovery_payload ws))"
proof -
  have "sorted_keys (pm_principals (fold add_workflow ws md)) \<and> sorted_keys (pm_starters (fold add_workflow ws md))"
    if "sorted_keys (pm_principals md)" "sorted_keys (pm_starters md)" for md
    using that by (induction ws arbitrary: md) (auto simp: add_workflow_def sorted_keys_insert split: option.split)
  from this [of default_metadata]
  show "sorted_keys (pm_principals (metadata_from_discovery_payload ws))" "sorted_keys (pm_starters (metadata_from_discovery_payload ws))"
    by (simp_all add: metadata_from_discovery_payload_def default_metadata_def sorted_keys_def)
qed

text \<open>What a declaration resolves to.\<close>

definition resolved ::
  "(PrincipalInput \<Rightarrow> string + Principal) \<Rightarrow> (string \<Rightarrow> string + Principal) \<Rightarrow> string \<Rightarrow> WorkflowPrincipalDeclaration \<Rightarrow> string + Principal" where
  "resolved refresh get w d = (case d of Managed \<Rightarrow> refresh (managed_input w) | Existing reference \<Rightarrow> get reference)"

lemma registered_principals:
  "distinct (map fst ds) \<Longrightarrow> map_of (register_workflow_principals refresh get ds) w =
     Option.bind (map_of ds w) (\<lambda>d. map_option prn_id (ok (resolved refresh get w d)))"
  by (induction ds) (auto simp: Let_def resolved_def map_of_eq_None_iff [THEN iffD2] split: sum.split option.split WorkflowPrincipalDeclaration.split)


end
