(* ===== verification/Workflow_Queue.thy ===== *)
theory Workflow_Queue
  imports Workflow_Policy "HOL-Library.Product_Lexorder"
begin

text \<open>
  The durable queues workflow runs live in: the tables and the two functions of
  \<^verbatim>\<open>crates/centaur-session-sqlx/migrations/0007_absurd_workflows.sql\<close> the runtime calls, the calls of
  \<^verbatim>\<open>crates/absurd-sdk/src/lib.rs\<close> over them, and the runs of \<^verbatim>\<open>crates/centaur-workflows/src/lib.rs\<close>: creating, listing,
  reading and cancelling one. Workers, checkpoints and events of a task are not modelled, so a task moves to another
  state only here and in \<open>settle_task\<close>, which stands for them. Arguments: \<open>cast\<close>, the canonical text of a string
  PostgreSQL reads as a uuid, and the fresh ids of a call.
\<close>

section \<open>Tables\<close>

record absurd_task =
  at_task_id :: string
  at_task_name :: string
  at_params :: json
  at_retry_strategy :: "json option"
  at_max_attempts :: "int option"
  at_enqueue_at :: time
  at_state :: string
  at_attempts :: int
  at_last_attempt_run :: "string option"
  at_completed_payload :: "json option"
  at_cancelled_at :: "time option"
  at_idempotency_key :: "string option"

record absurd_run =
  ar_run_id :: string
  ar_task_id :: string
  ar_attempt :: int
  ar_state :: string
  ar_claimed_by :: "string option"
  ar_claim_expires_at :: "time option"
  ar_available_at :: time
  ar_failure_reason :: "json option"

record absurd_queue =
  q_tasks :: "absurd_task list"
  q_runs :: "absurd_run list"

type_synonym queues = "string \<Rightarrow> absurd_queue"

definition terminal_states :: "string set" where
  "terminal_states = {''completed'', ''failed'', ''cancelled''}"

definition task_live :: "absurd_task \<Rightarrow> bool" where
  "task_live t \<longleftrightarrow> at_state t \<notin> terminal_states"

section \<open>Spawning and cancelling a task\<close>

record SpawnOptions =
  so_max_attempts :: "int option"
  so_retry_strategy :: "json option"
  so_idempotency_key :: "string option"

record SpawnResult =
  sr_task_id :: string
  sr_run_id :: string
  sr_attempt :: int
  sr_created :: bool

definition new_task ::
  "time \<Rightarrow> string \<Rightarrow> string \<Rightarrow> string \<Rightarrow> json \<Rightarrow> SpawnOptions \<Rightarrow> absurd_task" where
  "new_task now task_id run_id task_name params options =
     \<lparr>at_task_id = task_id, at_task_name = task_name, at_params = params, at_retry_strategy = so_retry_strategy options,
      at_max_attempts = so_max_attempts options, at_enqueue_at = now, at_state = ''pending'', at_attempts = 1,
      at_last_attempt_run = Some run_id, at_completed_payload = None, at_cancelled_at = None,
      at_idempotency_key = so_idempotency_key options\<rparr>"

definition new_run :: "time \<Rightarrow> string \<Rightarrow> string \<Rightarrow> absurd_run" where
  "new_run now run_id task_id =
     \<lparr>ar_run_id = run_id, ar_task_id = task_id, ar_attempt = 1, ar_state = ''pending'', ar_claimed_by = None, ar_claim_expires_at = None,
      ar_available_at = now, ar_failure_reason = None\<rparr>"

text \<open>
  \<^verbatim>\<open>absurd.spawn_task\<close> on an unpartitioned queue, the mode \<^verbatim>\<open>CreateQueueOptions::default\<close> gives: the unique index on the
  idempotency key decides, whatever the state of the task that holds it. \<open>ids\<close> are the two fresh ids.
\<close>

definition spawn_task ::
  "time \<Rightarrow> string \<times> string \<Rightarrow> string \<Rightarrow> json \<Rightarrow> SpawnOptions \<Rightarrow> absurd_queue \<Rightarrow> absurd_queue \<times> (string + SpawnResult)" where
  "spawn_task now ids task_name params options q =
     (case ids of (task_id, run_id) \<Rightarrow>
        if trim task_name = [] then (q, Inl ''task_name must be provided'')
        else if (case so_max_attempts options of None \<Rightarrow> False | Some n \<Rightarrow> n < 1) then (q, Inl ''max_attempts must be >= 1'')
        else case Option.bind (so_idempotency_key options) (\<lambda>k. row_by at_idempotency_key (Some k) (q_tasks q)) of
               Some t \<Rightarrow>
                 (q, case at_last_attempt_run t of
                       None \<Rightarrow> Inl ''unexpected null''
                     | Some r \<Rightarrow> Inr \<lparr>sr_task_id = at_task_id t, sr_run_id = r, sr_attempt = at_attempts t, sr_created = False\<rparr>)
             | None \<Rightarrow>
                 if task_id \<in> at_task_id ` set (q_tasks q) \<or> run_id \<in> ar_run_id ` set (q_runs q) then (q, Inl ''duplicate key'')
                 else (q\<lparr>q_tasks := q_tasks q @ [new_task now task_id run_id task_name params options],
                         q_runs := q_runs q @ [new_run now run_id task_id]\<rparr>,
                       Inr \<lparr>sr_task_id = task_id, sr_run_id = run_id, sr_attempt = 1, sr_created = True\<rparr>))"

definition cancel_task_f :: "time \<Rightarrow> absurd_task \<Rightarrow> absurd_task" where
  "cancel_task_f now t =
     t\<lparr>at_state := ''cancelled'', at_cancelled_at := Some (case at_cancelled_at t of None \<Rightarrow> now | Some c \<Rightarrow> c)\<rparr>"

definition cancel_run_f :: "absurd_run \<Rightarrow> absurd_run" where
  "cancel_run_f r = r\<lparr>ar_state := ''cancelled'', ar_claimed_by := None, ar_claim_expires_at := None\<rparr>"

definition sql_cancel_task :: "time \<Rightarrow> string \<Rightarrow> absurd_queue \<Rightarrow> absurd_queue \<times> (string + unit)" where
  "sql_cancel_task now task_id q =
     (case row_by at_task_id task_id (q_tasks q) of
        None \<Rightarrow> (q, Inl (''Task \"'' @ task_id @ ''\" not found''))
      | Some t \<Rightarrow>
          if \<not> task_live t then (q, Inr ())
          else (q\<lparr>q_tasks := fst (sql_update (\<lambda>t. at_task_id t = task_id) (cancel_task_f now) (q_tasks q)),
                  q_runs := fst (sql_update (\<lambda>r. ar_task_id r = task_id \<and> ar_state r \<notin> terminal_states) cancel_run_f (q_runs q))\<rparr>,
                Inr ()))"

text \<open>A worker's change of state of one task.\<close>

definition settle_task :: "string \<Rightarrow> string \<Rightarrow> absurd_queue \<Rightarrow> absurd_queue" where
  "settle_task task_id new_state q =
     q\<lparr>q_tasks := fst (sql_update (\<lambda>t. at_task_id t = task_id \<and> task_live t) (\<lambda>t. t\<lparr>at_state := new_state\<rparr>) (q_tasks q))\<rparr>"

definition DEFAULT_MAX_ATTEMPTS :: int where
  "DEFAULT_MAX_ATTEMPTS = 5"

text \<open>\<^verbatim>\<open>Client::resolve_spawn\<close> for a registered task with no queue asked for, and \<^verbatim>\<open>Client::spawn\<close>.\<close>

definition resolve_spawn :: "SpawnOptions \<Rightarrow> SpawnOptions" where
  "resolve_spawn options =
     options\<lparr>so_max_attempts := Some (case so_max_attempts options of None \<Rightarrow> DEFAULT_MAX_ATTEMPTS | Some n \<Rightarrow> n)\<rparr>"

definition client_spawn ::
  "time \<Rightarrow> string \<times> string \<Rightarrow> string \<Rightarrow> json \<Rightarrow> SpawnOptions \<Rightarrow> absurd_queue \<Rightarrow> absurd_queue \<times> SpawnResult workflow_result" where
  "client_spawn now ids task_name params options q =
     (case spawn_task now ids task_name params (resolve_spawn options) q of (q', r) \<Rightarrow>
        (q', case r of Inl e \<Rightarrow> Inl (WfAbsurd e) | Inr s \<Rightarrow> Inr s))"

definition client_cancel_task :: "(string \<Rightarrow> string option) \<Rightarrow> time \<Rightarrow> string \<Rightarrow> absurd_queue \<Rightarrow> absurd_queue \<times> unit workflow_result" where
  "client_cancel_task cast now task_id q =
     (case cast task_id of
        None \<Rightarrow> (q, Inl (WfAbsurd ''invalid input syntax for type uuid''))
      | Some i \<Rightarrow> (case sql_cancel_task now i q of (q', r) \<Rightarrow> (q', case r of Inl e \<Rightarrow> Inl (WfAbsurd e) | Inr u \<Rightarrow> Inr u)))"

section \<open>Queues of workflows\<close>

definition WORKFLOW_QUEUE :: string where "WORKFLOW_QUEUE = ''centaur_workflows''"
definition WORKFLOW_SLACK_LIVE_QUEUE :: string where "WORKFLOW_SLACK_LIVE_QUEUE = ''centaur_workflows_slack_live''"
definition WORKFLOW_ETL_QUEUE :: string where "WORKFLOW_ETL_QUEUE = ''centaur_workflows_etl''"
definition WORKFLOW_ETL_BACKFILL_QUEUE :: string where "WORKFLOW_ETL_BACKFILL_QUEUE = ''centaur_workflows_etl_backfill''"
definition WORKFLOW_SCHEDULE_QUEUE :: string where "WORKFLOW_SCHEDULE_QUEUE = ''centaur_workflow_schedules''"
definition WORKFLOW_TASK :: string where "WORKFLOW_TASK = ''centaur.workflow''"
definition WORKFLOW_SCHEDULE_TASK :: string where "WORKFLOW_SCHEDULE_TASK = ''centaur.workflow.schedule_tick''"

datatype WorkflowQueueClass = Standard | SlackLive | Etl | EtlBackfill

definition workflow_queue_class :: "string \<Rightarrow> WorkflowQueueClass" where
  "workflow_queue_class workflow_name =
     (if workflow_name = ''slack_sync'' then SlackLive
      else if workflow_name = ''slack_backfill'' then EtlBackfill
      else if workflow_name \<in> {''google_calendar_sync'', ''google_drive_sync'', ''linear_sync'', ''company_context_documents'',
        ''company_context_embeddings'', ''slack_retention'', ''google_chat_sync'', ''google_chat_retention'', ''chief_of_staff_daily''}
      then Etl else Standard)"

fun queue_name_for_class :: "WorkflowQueueClass \<Rightarrow> string" where
  "queue_name_for_class Standard = WORKFLOW_QUEUE"
| "queue_name_for_class SlackLive = WORKFLOW_SLACK_LIVE_QUEUE"
| "queue_name_for_class Etl = WORKFLOW_ETL_QUEUE"
| "queue_name_for_class EtlBackfill = WORKFLOW_ETL_BACKFILL_QUEUE"

definition workflow_queues :: "string list" where
  "workflow_queues = [WORKFLOW_QUEUE, WORKFLOW_SLACK_LIVE_QUEUE, WORKFLOW_ETL_QUEUE, WORKFLOW_ETL_BACKFILL_QUEUE]"

section \<open>Runs\<close>

record CreateWorkflowRunRequest =
  cw_workflow_name :: string
  cw_input :: json
  cw_idempotency_key :: "string option"
  cw_harness_type :: "HarnessType option"
  cw_max_attempts :: "int option"

record CreateWorkflowRunResponse =
  cr_run_id :: string
  cr_initial_run_id :: string
  cr_task_id :: string
  cr_status :: string
  cr_created :: bool

record WorkflowRun =
  wr_run_id :: string
  wr_initial_run_id :: string
  wr_task_id :: string
  wr_workflow_name :: string
  wr_status :: string
  wr_input :: json
  wr_result :: "json option"
  wr_failure :: "json option"
  wr_attempts :: int
  wr_created_at :: time
  wr_updated_at :: time

text \<open>\<^verbatim>\<open>WorkflowTaskInput\<close> as the parameters of a task; the feedback of a Slack button is left as its JSON.\<close>

definition workflow_task_input :: "string \<Rightarrow> json \<Rightarrow> HarnessType \<Rightarrow> json option \<Rightarrow> json" where
  "workflow_task_input workflow_name input harness feedback =
     JObj ([(''workflow_name'', JStr workflow_name), (''input'', input), (''harness_type'', JStr (harness_type_as_ref harness))] @
       (case feedback of None \<Rightarrow> [] | Some f \<Rightarrow> [(''slack_button_feedback'', f)]))"

definition first_run_of :: "absurd_queue \<Rightarrow> string \<Rightarrow> string option" where
  "first_run_of q task_id =
     map_option ar_run_id (first_row (order_by (\<lambda>r. (ar_attempt r, ar_run_id r)) (filter (\<lambda>r. ar_task_id r = task_id) (q_runs q))))"

definition initial_run_id :: "(string \<Rightarrow> string option) \<Rightarrow> queues \<Rightarrow> string \<Rightarrow> string \<Rightarrow> string workflow_result" where
  "initial_run_id cast qs workflow_name task_id =
     (case cast task_id of
        None \<Rightarrow> Inl (WfSqlx ''invalid input syntax for type uuid'')
      | Some i \<Rightarrow>
          (case first_run_of (qs (queue_name_for_class (workflow_queue_class workflow_name))) i of
             None \<Rightarrow> Inl (WfNotFound task_id)
           | Some r \<Rightarrow> Inr r))"

record workflow_env =
  wv_env :: environment
  wv_debug :: "string \<Rightarrow> string"
  wv_cast :: "string \<Rightarrow> string option"
  wv_now :: time
  wv_ids :: "string \<times> string"
  wv_default_harness :: HarnessType

definition create_button_run ::
  "workflow_env \<Rightarrow> CreateWorkflowRunRequest \<Rightarrow> json option \<Rightarrow> queues \<Rightarrow> queues \<times> CreateWorkflowRunResponse workflow_result" where
  "create_button_run wv request feedback qs =
     (let workflow_name = trim (cw_workflow_name request) in
      if workflow_name = [] then (qs, Inl (WfBadRequest ''workflow_name must not be empty''))
      else case res_bind (enablement_from_env (wv_debug wv) (wv_env wv)) (\<lambda>en. ensure_enabled (wv_debug wv) en workflow_name) of
        Inl e \<Rightarrow> (qs, Inl e)
      | Inr _ \<Rightarrow>
          let queue_name = queue_name_for_class (workflow_queue_class workflow_name);
              params = workflow_task_input workflow_name (cw_input request)
                (case cw_harness_type request of None \<Rightarrow> wv_default_harness wv | Some h \<Rightarrow> h) feedback;
              options = \<lparr>so_max_attempts = cw_max_attempts request, so_retry_strategy = None, so_idempotency_key = cw_idempotency_key request\<rparr>
          in case client_spawn (wv_now wv) (wv_ids wv) WORKFLOW_TASK params options (qs queue_name) of (q', r) \<Rightarrow>
               let qs' = qs(queue_name := q') in
               case r of
                 Inl e \<Rightarrow> (qs', Inl e)
               | Inr s \<Rightarrow>
                   (case initial_run_id (wv_cast wv) qs' workflow_name (sr_task_id s) of
                      Inl e \<Rightarrow> (qs', Inl e)
                    | Inr first_run \<Rightarrow>
                        (qs', Inr \<lparr>cr_run_id = sr_run_id s, cr_initial_run_id = first_run, cr_task_id = sr_task_id s,
                           cr_status = ''queued'', cr_created = sr_created s\<rparr>)))"

definition create_run :: "workflow_env \<Rightarrow> CreateWorkflowRunRequest \<Rightarrow> queues \<Rightarrow> queues \<times> CreateWorkflowRunResponse workflow_result" where
  "create_run wv request qs = create_button_run wv request None qs"

definition MAX_LIST_RUNS_LIMIT :: int where
  "MAX_LIST_RUNS_LIMIT = 1000"

definition list_runs_limit :: "int \<Rightarrow> int" where
  "list_runs_limit limit = min (max limit 1) MAX_LIST_RUNS_LIMIT"

definition workflow_run_from_row :: "absurd_queue \<Rightarrow> absurd_task \<Rightarrow> absurd_run \<Rightarrow> WorkflowRun workflow_result" where
  "workflow_run_from_row q t r =
     (case first_run_of q (at_task_id t) of
        None \<Rightarrow> Inl (WfSqlx ''unexpected null'')
      | Some first_run \<Rightarrow> Inr
          \<lparr>wr_run_id = ar_run_id r, wr_initial_run_id = first_run, wr_task_id = at_task_id t,
           wr_workflow_name = (case get_str ''workflow_name'' (at_params t) of None \<Rightarrow> WORKFLOW_TASK | Some n \<Rightarrow> n),
           wr_status = at_state t, wr_input = (case get_key ''input'' (at_params t) of None \<Rightarrow> JNull | Some v \<Rightarrow> v),
           wr_result = at_completed_payload t, wr_failure = ar_failure_reason r, wr_attempts = at_attempts t, wr_created_at = at_enqueue_at t,
           wr_updated_at = max (at_enqueue_at t) (ar_available_at r)\<rparr>)"

text \<open>A descending order, stable; the tasks joined with their last run, of one workflow if asked.\<close>

definition order_by_desc :: "('r \<Rightarrow> 'k :: linorder) \<Rightarrow> 'r list \<Rightarrow> 'r list" where
  "order_by_desc k t = rev (order_by k (rev t))"

definition of_workflow :: "string option \<Rightarrow> absurd_task \<Rightarrow> bool" where
  "of_workflow workflow_name t =
     (case workflow_name of None \<Rightarrow> True
      | Some n \<Rightarrow> (case get_text ''workflow_name'' (at_params t) of None \<Rightarrow> WORKFLOW_TASK | Some m \<Rightarrow> m) = n)"

definition task_rows :: "absurd_queue \<Rightarrow> string option \<Rightarrow> (absurd_task \<times> absurd_run) list" where
  "task_rows q workflow_name =
     filter (\<lambda>(t, r). at_last_attempt_run t = Some (ar_run_id r) \<and> of_workflow workflow_name t) (List.product (q_tasks q) (q_runs q))"

definition list_runs_for_queue :: "queues \<Rightarrow> string \<Rightarrow> int \<Rightarrow> string option \<Rightarrow> WorkflowRun list workflow_result" where
  "list_runs_for_queue qs queue_name limit workflow_name =
     collect_results (map (\<lambda>(t, r). workflow_run_from_row (qs queue_name) t r)
       (take (nat limit) (order_by_desc (\<lambda>(t, r). (at_enqueue_at t, at_task_id t)) (task_rows (qs queue_name) workflow_name))))"

definition list_runs :: "queues \<Rightarrow> int \<Rightarrow> string option \<Rightarrow> WorkflowRun list workflow_result" where
  "list_runs qs limit workflow_name =
     (let limit = list_runs_limit limit in
      res_map (\<lambda>runs. take (nat limit) (order_by_desc (\<lambda>r. (wr_created_at r, wr_task_id r)) (concat runs)))
        (collect_results (map (\<lambda>name. list_runs_for_queue qs name limit workflow_name) workflow_queues)))"

definition get_run_for_queue :: "(string \<Rightarrow> string option) \<Rightarrow> queues \<Rightarrow> string \<Rightarrow> string \<Rightarrow> WorkflowRun option workflow_result" where
  "get_run_for_queue cast qs queue_name run_id =
     (case cast run_id of
        None \<Rightarrow> Inl (WfSqlx ''invalid input syntax for type uuid'')
      | Some i \<Rightarrow>
          let q = qs queue_name in
          (case Option.bind (row_by ar_run_id i (q_runs q)) (\<lambda>r.
              map_option (\<lambda>t. workflow_run_from_row q t r) (row_by at_task_id (ar_task_id r) (q_tasks q))) of
             None \<Rightarrow> Inr None
           | Some r \<Rightarrow> res_map Some r))"

fun get_run_in :: "(string \<Rightarrow> string option) \<Rightarrow> queues \<Rightarrow> string list \<Rightarrow> string \<Rightarrow> (string \<times> WorkflowRun) workflow_result" where
  "get_run_in cast qs [] run_id = Inl (WfNotFound run_id)"
| "get_run_in cast qs (name # names) run_id =
     res_bind (get_run_for_queue cast qs name run_id) (\<lambda>r.
       case r of Some run \<Rightarrow> Inr (name, run) | None \<Rightarrow> get_run_in cast qs names run_id)"

definition get_run :: "(string \<Rightarrow> string option) \<Rightarrow> queues \<Rightarrow> string \<Rightarrow> WorkflowRun workflow_result" where
  "get_run cast qs run_id = res_map snd (get_run_in cast qs workflow_queues run_id)"

definition workflow_cancel_run :: "(string \<Rightarrow> string option) \<Rightarrow> time \<Rightarrow> string \<Rightarrow> queues \<Rightarrow> queues \<times> unit workflow_result" where
  "workflow_cancel_run cast now run_id qs =
     (case get_run_in cast qs workflow_queues run_id of
        Inl e \<Rightarrow> (qs, Inl e)
      | Inr (name, run) \<Rightarrow>
          (case client_cancel_task cast now (wr_task_id run) (qs name) of (q', r) \<Rightarrow> (qs(name := q'), r)))"


section \<open>What a queue keeps\<close>

definition task_states :: "string set" where
  "task_states = {''pending'', ''running'', ''sleeping'', ''completed'', ''failed'', ''cancelled''}"

definition queue_inv :: "absurd_queue \<Rightarrow> bool" where
  "queue_inv q \<longleftrightarrow>
     distinct (map at_task_id (q_tasks q)) \<and> distinct (map ar_run_id (q_runs q)) \<and> unique_index at_idempotency_key (q_tasks q) \<and>
     (\<forall>t \<in> set (q_tasks q). at_state t \<in> task_states \<and>
        (\<exists>r \<in> set (q_runs q). at_last_attempt_run t = Some (ar_run_id r) \<and> ar_task_id r = at_task_id t))"

text \<open>A step of a queue: a call of \<^verbatim>\<open>spawn_task\<close> or \<^verbatim>\<open>cancel_task\<close>, or a worker that moves a live task on.\<close>

inductive queue_step :: "absurd_queue \<Rightarrow> absurd_queue \<Rightarrow> bool" where
  spawn_step: "queue_step q (fst (spawn_task now ids task_name params options q))"
| cancel_step: "queue_step q (fst (sql_cancel_task now task_id q))"
| settle_step: "new_state \<in> task_states \<Longrightarrow> queue_step q (settle_task task_id new_state q)"

inductive_cases queue_stepE: "queue_step q q'"

definition run_identity :: "absurd_run \<Rightarrow> string \<times> string" where
  "run_identity r = (ar_run_id r, ar_task_id r)"

text \<open>The contract of an update that keeps what identifies a task and its runs.\<close>

locale task_update = keyed_update at_task_id p f for p :: "absurd_task \<Rightarrow> bool" and f :: "absurd_task \<Rightarrow> absurd_task" +
  assumes same: "at_idempotency_key (f t) = at_idempotency_key t" "at_last_attempt_run (f t) = at_last_attempt_run t"
    and state: "p t \<Longrightarrow> at_state (f t) \<in> task_states"

sublocale task_update \<subseteq> by_idempotency_key: keyed_update at_idempotency_key p f
  by unfold_locales (simp add: same)

context task_update
begin

lemma key_task_kept:
  "map_option at_task_id (row_by at_idempotency_key k (fst (sql_update p f ts))) = map_option at_task_id (row_by at_idempotency_key k ts)"
  by (cases "row_by at_idempotency_key k ts") (simp_all add: by_idempotency_key.row_after key_stable)

lemma task_inv_kept:
  assumes "queue_inv q" and rs: "map run_identity rs = map run_identity (q_runs q)"
  shows "queue_inv (q\<lparr>q_tasks := fst (sql_update p f (q_tasks q)), q_runs := rs\<rparr>)"
proof -
  have "run_identity r \<in> set (map run_identity rs)" if "r \<in> set (q_runs q)" for r using that by (simp add: rs)
  then have run: "\<exists>r' \<in> set rs. ar_run_id r' = ar_run_id r \<and> ar_task_id r' = ar_task_id r" if "r \<in> set (q_runs q)" for r
    using that by (fastforce simp: run_identity_def)
  have "at_state t \<in> task_states \<and> (\<exists>r \<in> set rs. at_last_attempt_run t = Some (ar_run_id r) \<and> ar_task_id r = at_task_id t)"
    if mem: "t \<in> set (fst (sql_update p f (q_tasks q)))" for t
  proof -
    obtain t0 where t0: "t0 \<in> set (q_tasks q)" "t = (if p t0 then f t0 else t0)" using mem unfolding in_updated by blast
    then obtain r where "r \<in> set (q_runs q)" "at_last_attempt_run t0 = Some (ar_run_id r)" "ar_task_id r = at_task_id t0"
      and "at_state t0 \<in> task_states" using assms(1) by (auto simp: queue_inv_def)
    moreover obtain r' where "r' \<in> set rs" "ar_run_id r' = ar_run_id r" "ar_task_id r' = ar_task_id r"
      using run [of r] calculation by blast
    ultimately show ?thesis using t0 by (auto simp: same state key_stable intro!: bexI [of _ r'])
  qed
  moreover have "unique_index at_idempotency_key (fst (sql_update p f (q_tasks q)))"
    unfolding sql_update_def fst_conv using assms(1) by (intro unique_index_mono) (auto simp: queue_inv_def same)
  moreover have "map ar_run_id rs = map ar_run_id (q_runs q)"
    using arg_cong [OF rs, of "map fst"] by (simp add: run_identity_def comp_def)
  ultimately show ?thesis using assms(1) by (simp add: queue_inv_def)
qed

end

interpretation cancelled_task: task_update "\<lambda>t. at_task_id t = i" "cancel_task_f now" for i now
  by unfold_locales (simp_all add: cancel_task_f_def task_states_def)

interpretation settled_task: task_update "\<lambda>t. at_task_id t = i \<and> task_live t \<and> s \<in> task_states" "\<lambda>t. t\<lparr>at_state := s\<rparr>" for i s
  by unfold_locales simp_all

lemma settle_is: "s \<in> task_states \<Longrightarrow> settle_task i s q = q\<lparr>q_tasks := fst (sql_update (\<lambda>t. at_task_id t = i \<and> task_live t \<and> s \<in> task_states)
    (\<lambda>t. t\<lparr>at_state := s\<rparr>) (q_tasks q)), q_runs := q_runs q\<rparr>"
  by (simp add: settle_task_def)

lemma cancelled_runs: "map run_identity (fst (sql_update P cancel_run_f rs)) = map run_identity rs"
  by (simp add: sql_update_def run_identity_def cancel_run_f_def)

lemma spawn_cases:
  obtains (kept) "fst (spawn_task now ids task_name params options q) = q"
  | (added) task_id run_id where "ids = (task_id, run_id)" and "task_id \<notin> at_task_id ` set (q_tasks q)" and "run_id \<notin> ar_run_id ` set (q_runs q)"
    and "\<And>k. so_idempotency_key options = Some k \<Longrightarrow> row_by at_idempotency_key (Some k) (q_tasks q) = None"
    and "spawn_task now ids task_name params options q =
      (q\<lparr>q_tasks := q_tasks q @ [new_task now task_id run_id task_name params options], q_runs := q_runs q @ [new_run now run_id task_id]\<rparr>,
       Inr \<lparr>sr_task_id = task_id, sr_run_id = run_id, sr_attempt = 1, sr_created = True\<rparr>)"
proof (cases "fst (spawn_task now ids task_name params options q) = q")
  case False
  obtain task_id run_id where ids: "ids = (task_id, run_id)" by fastforce
  from False show thesis
    by (intro added [OF ids]) (auto simp: spawn_task_def ids split: if_splits option.splits bind_splits)
qed (rule kept)

text \<open>Every step keeps the invariant, and a key the task it was spawned with, whatever became of the task.\<close>

lemma queue_step_inv:
  assumes "queue_inv q" and "queue_step q q'"
  shows "queue_inv q'"
  using assms(2)
proof (cases rule: queue_step.cases)
  case (spawn_step now ids task_name params options)
  show ?thesis
  proof (cases rule: spawn_cases [of now ids task_name params options q])
    case kept
    then show ?thesis using assms spawn_step by simp
  next
    case (added task_id run_id)
    have "at_idempotency_key t \<noteq> Some k" if "so_idempotency_key options = Some k" "t \<in> set (q_tasks q)" for t k
      using added(4) [OF that(1)] that(2) by (force simp: row_by_None)
    then have "unique_index at_idempotency_key (q_tasks q @ [new_task now task_id run_id task_name params options])"
      using assms(1) by (auto simp: queue_inv_def unique_index_append new_task_def split: option.split)
    then show ?thesis
      using assms(1) spawn_step added by (auto simp: queue_inv_def new_task_def new_run_def task_states_def)
  qed
next
  case (cancel_step now task_id)
  then show ?thesis
    using assms(1) cancelled_task.task_inv_kept [OF assms(1) cancelled_runs] by (auto simp: sql_cancel_task_def split: option.splits if_splits)
next
  case (settle_step s i)
  then show ?thesis using settled_task.task_inv_kept [OF assms(1) refl, of i s] by (simp add: settle_is)
qed

definition key_task :: "absurd_queue \<Rightarrow> string \<Rightarrow> string option" where
  "key_task q k = map_option at_task_id (row_by at_idempotency_key (Some k) (q_tasks q))"

lemma queue_step_key:
  assumes "key_task q k = Some i" and "queue_step q q'"
  shows "key_task q' k = Some i"
  using assms(2)
proof (cases rule: queue_step.cases)
  case (spawn_step now ids task_name params options)
  then show ?thesis
    using assms(1) by (cases rule: spawn_cases [of now ids task_name params options q]) (auto simp: key_task_def dest: row_by_append)
next
  case (cancel_step now task_id)
  then show ?thesis
    using assms(1) cancelled_task.key_task_kept [where k = "Some k" and ts = "q_tasks q" and i = task_id and now = now]
    by (simp add: key_task_def sql_cancel_task_def del: map_option_eq_Some split: option.splits if_splits)
next
  case (settle_step s i')
  then show ?thesis
    using assms(1) settled_task.key_task_kept [where k = "Some k" and ts = "q_tasks q" and i = i' and s = s] by (simp add: key_task_def settle_is del: map_option_eq_Some)
qed

lemma order_by_empty: "order_by k t = [] \<longleftrightarrow> t = []"
  by (metis length_0_conv length_order_by)

lemma first_run_exists: "first_run_of q i \<noteq> None \<longleftrightarrow> i \<in> ar_task_id ` set (q_runs q)"
  by (auto simp: first_run_of_def filter_empty_conv order_by_empty)

lemma queue_step_runs:
  assumes "queue_step q q'"
  shows "ar_task_id ` set (q_runs q) \<subseteq> ar_task_id ` set (q_runs q')"
  using assms
proof (cases rule: queue_step.cases)
  case (spawn_step now ids task_name params options)
  then show ?thesis by (cases rule: spawn_cases [of now ids task_name params options q]) auto
next
  case (cancel_step now task_id)
  have "map ar_task_id (fst (sql_update P cancel_run_f rs)) = map ar_task_id rs" for P rs
    using arg_cong [OF cancelled_runs [of P rs], of "map snd"] by (simp add: run_identity_def comp_def)
  then have "ar_task_id ` set (fst (sql_update P cancel_run_f rs)) = ar_task_id ` set rs" for P rs by (metis set_map)
  then show ?thesis using cancel_step by (simp add: sql_cancel_task_def split: option.split)
next
  case settle_step
  then show ?thesis by (simp add: settle_task_def)
qed

lemma queue_run:
  assumes "queue_step\<^sup>*\<^sup>* q q'"
  shows "queue_inv q \<Longrightarrow> queue_inv q'" and "key_task q k = Some i \<Longrightarrow> key_task q' k = Some i"
    and "ar_task_id ` set (q_runs q) \<subseteq> ar_task_id ` set (q_runs q')"
  using assms
proof (induction)
  case (step q' q'')
  { case 1 then show ?case using step queue_step_inv by blast }
  { case 2 then show ?case using step queue_step_key by blast }
  { case 3 then show ?case using step queue_step_runs by blast }
qed simp_all

section \<open>Runs created once\<close>

lemma spawned_key:
  assumes "spawn_task now ids task_name params options q = (q', Inr s)" and "so_idempotency_key options = Some k"
  shows "key_task q' k = Some (sr_task_id s)"
proof (cases "row_by at_idempotency_key (Some k) (q_tasks q)")
  case None
  then have "q_tasks q' = q_tasks q @ [new_task now (fst ids) (snd ids) task_name params options]" "sr_task_id s = fst ids"
    using assms by (auto simp: spawn_task_def split: prod.splits if_splits)
  then show ?thesis
    using None assms(2) row_by_append_new [OF None, of "new_task now (fst ids) (snd ids) task_name params options"]
    by (simp add: key_task_def new_task_def)
next
  case (Some t)
  then show ?thesis using assms by (auto simp: spawn_task_def key_task_def split: prod.splits if_splits option.splits)
qed

lemma respawned:
  assumes "key_task q k = Some i" and "queue_inv q" and "so_idempotency_key options = Some k" and "trim task_name \<noteq> []"
    and "case so_max_attempts options of None \<Rightarrow> True | Some n \<Rightarrow> 1 \<le> n"
  obtains s where "spawn_task now ids task_name params options q = (q, Inr s)" and "sr_task_id s = i" and "\<not> sr_created s"
proof -
  obtain t where t: "row_by at_idempotency_key (Some k) (q_tasks q) = Some t" "at_task_id t = i"
    using assms(1) by (auto simp: key_task_def)
  then obtain r where "at_last_attempt_run t = Some r" using assms(2) row_by_Some [OF t(1)] by (auto simp: queue_inv_def)
  with t assms(3-5) show thesis
    using that by (simp add: spawn_task_def case_prod_beta split: option.splits)
qed

lemma workflow_task_named: "trim WORKFLOW_TASK \<noteq> []"
  by (simp add: WORKFLOW_TASK_def) code_simp

text \<open>The queue a request goes to, and what a created run tells of it.\<close>

abbreviation request_queue :: "CreateWorkflowRunRequest \<Rightarrow> string" where
  "request_queue rq \<equiv> queue_name_for_class (workflow_queue_class (trim (cw_workflow_name rq)))"

definition request_options :: "CreateWorkflowRunRequest \<Rightarrow> SpawnOptions" where
  "request_options rq = resolve_spawn \<lparr>so_max_attempts = cw_max_attempts rq, so_retry_strategy = None, so_idempotency_key = cw_idempotency_key rq\<rparr>"

definition request_enabled :: "workflow_env \<Rightarrow> CreateWorkflowRunRequest \<Rightarrow> unit workflow_result" where
  "request_enabled wv rq = res_bind (enablement_from_env (wv_debug wv) (wv_env wv)) (\<lambda>en. ensure_enabled (wv_debug wv) en (trim (cw_workflow_name rq)))"

lemma created_run:
  assumes "create_run wv rq qs = (qs', Inr a)"
  obtains params s where "trim (cw_workflow_name rq) \<noteq> []" and "request_enabled wv rq = Inr ()"
    and "spawn_task (wv_now wv) (wv_ids wv) WORKFLOW_TASK params (request_options rq) (qs (request_queue rq)) = (qs' (request_queue rq), Inr s)"
    and "sr_task_id s = cr_task_id a" and "sr_created s = cr_created a" and "qs' = qs(request_queue rq := qs' (request_queue rq))"
    and "\<exists>i. wv_cast wv (cr_task_id a) = Some i \<and> first_run_of (qs' (request_queue rq)) i \<noteq> None"
    and "get_str ''workflow_name'' params = Some (trim (cw_workflow_name rq))" and "get_key ''input'' params = Some (cw_input rq)"
  using assms
  by (auto simp: create_run_def create_button_run_def client_spawn_def Let_def request_enabled_def request_options_def initial_run_id_def
      workflow_task_input_def get_str_def split: if_splits sum.splits prod.splits option.splits)

text \<open>
  A run is created once for its idempotency key: after a request created or found a run, and whatever spawns,
  cancellations and workers did since, another request for the same workflow with the same key, by any caller, leaves
  the queues as they are and returns the task of the first.
\<close>

lemma run_created_once:
  assumes first: "create_run wv rq qs = (qs1, Inr a)" and key: "cw_idempotency_key rq = Some k"
    and inv: "\<And>name. queue_inv (qs name)" and later: "\<And>name. queue_step\<^sup>*\<^sup>* (qs1 name) (qs2 name)"
    and again: "cw_idempotency_key rq' = Some k" "trim (cw_workflow_name rq') = trim (cw_workflow_name rq)" "cw_max_attempts rq' = None"
    and env: "wv_env wv' = wv_env wv" "wv_debug wv' = wv_debug wv" "wv_cast wv' = wv_cast wv"
  shows "\<exists>b. create_run wv' rq' qs2 = (qs2, Inr b) \<and> cr_task_id b = cr_task_id a \<and> \<not> cr_created b"
proof -
  let ?q = "request_queue rq"
  obtain params s where s: "trim (cw_workflow_name rq) \<noteq> []" "request_enabled wv rq = Inr ()"
      "spawn_task (wv_now wv) (wv_ids wv) WORKFLOW_TASK params (request_options rq) (qs ?q) = (qs1 ?q, Inr s)"
      "sr_task_id s = cr_task_id a" "\<exists>i. wv_cast wv (cr_task_id a) = Some i \<and> first_run_of (qs1 ?q) i \<noteq> None"
    using created_run [OF first] by metis
  have keyed: "so_idempotency_key (request_options r) = cw_idempotency_key r" for r by (simp add: request_options_def resolve_spawn_def)
  have "key_task (qs1 ?q) k = Some (cr_task_id a)" using spawned_key [OF s(3)] key s(4) by (simp add: keyed)
  then have held: "key_task (qs2 ?q) k = Some (cr_task_id a)" using queue_run(2) [OF later] by blast
  have "queue_inv (qs1 ?q)" using queue_step_inv [OF inv] s(3) by (metis spawn_step fst_conv)
  then have inv2: "queue_inv (qs2 ?q)" using queue_run(1) [OF later] by blast
  obtain i where i: "wv_cast wv (cr_task_id a) = Some i" "first_run_of (qs2 ?q) i \<noteq> None"
    using s(5) queue_run(3) [OF later, of ?q] unfolding first_run_exists by blast
  then obtain fr where fr: "first_run_of (qs2 ?q) i = Some fr" by blast
  let ?params = "workflow_task_input (trim (cw_workflow_name rq)) (cw_input rq') (case cw_harness_type rq' of None \<Rightarrow> wv_default_harness wv' | Some h \<Rightarrow> h) None"
  obtain s' where s': "spawn_task (wv_now wv') (wv_ids wv') WORKFLOW_TASK ?params (request_options rq') (qs2 ?q) = (qs2 ?q, Inr s')"
      "sr_task_id s' = cr_task_id a" "\<not> sr_created s'"
    by (rule respawned [OF held inv2 _ workflow_task_named, where options = "request_options rq'"])
      (use again(1,3) in \<open>simp_all add: keyed request_options_def resolve_spawn_def DEFAULT_MAX_ATTEMPTS_def\<close>)
  obtain en where "enablement_from_env (wv_debug wv) (wv_env wv) = Inr en" "ensure_enabled (wv_debug wv) en (trim (cw_workflow_name rq)) = Inr ()"
    using s(2) by (auto simp: request_enabled_def)
  with s(1) s' i(1) fr env again show ?thesis
    by (simp add: create_run_def create_button_run_def client_spawn_def Let_def request_options_def initial_run_id_def)
qed

definition no_queues :: queues where
  "no_queues = (\<lambda>_. \<lparr>q_tasks = [], q_runs = []\<rparr>)"

definition example_workflows :: workflow_env where
  "example_workflows = \<lparr>wv_env = Map.empty, wv_debug = (\<lambda>s. s), wv_cast = Some, wv_now = 5, wv_ids = (''t1'', ''r1''), wv_default_harness = Codex\<rparr>"

definition example_run_request :: CreateWorkflowRunRequest where
  "example_run_request = \<lparr>cw_workflow_name = ''echo'', cw_input = empty_object, cw_idempotency_key = Some ''k'', cw_harness_type = None,
     cw_max_attempts = None\<rparr>"

section \<open>Listing runs\<close>

lemma take_filter: "(\<And>x. x \<in> set (take n zs) \<Longrightarrow> P x) \<Longrightarrow> take n (filter P zs) = take n zs"
proof (induction zs arbitrary: n)
  case (Cons z zs)
  then show ?case by (cases n) auto
qed simp

lemma early_in_filter: "x \<in> set (take n zs) \<Longrightarrow> P x \<Longrightarrow> x \<in> set (take n (filter P zs))"
proof (induction zs arbitrary: n)
  case (Cons z zs)
  then show ?case by (cases n) (auto dest: Cons.IH [of "_"] intro: in_set_takeD set_take_subset_set_take [THEN subsetD, rotated])
qed simp

definition descending :: "('r \<Rightarrow> 'k :: linorder) \<Rightarrow> 'r list \<Rightarrow> bool" where
  "descending k = sorted_wrt (\<lambda>a b. k b < k a)"

lemma set_desc [simp]: "set (order_by_desc k xs) = set xs"
  by (simp add: order_by_desc_def)

lemma ascending_desc: "descending k xs \<longleftrightarrow> sorted_wrt (<) (map k (rev xs))"
  by (simp add: descending_def sorted_wrt_map sorted_wrt_rev)

lemma desc_descending:
  assumes "distinct (map k xs)"
  shows "descending k (order_by_desc k xs)"
proof -
  have "sorted (map k (order_by k (rev xs)))" by simp
  moreover have "distinct (map k (order_by k (rev xs)))" using assms by (simp add: order_by_def distinct_map rev_map)
  ultimately show ?thesis by (simp add: ascending_desc order_by_desc_def strict_sorted_iff)
qed

lemma desc_unique:
  assumes "distinct (map k xs)" and "descending k ys" and "set ys = set xs"
  shows "order_by_desc k xs = ys"
proof -
  have "set (map k (rev (order_by_desc k xs))) = set (map k (rev ys))" using assms(3) by simp
  then have "map k (rev (order_by_desc k xs)) = map k (rev ys)"
    using strict_sorted_equal desc_descending [OF assms(1)] assms(2) unfolding ascending_desc by blast
  then have "map k (order_by_desc k xs) = map k ys" by (simp add: rev_map [symmetric])
  then show ?thesis using assms by (intro map_inj_on [of k]) (auto simp: distinct_map)
qed

lemma desc_map: "distinct (map k (map g xs)) \<Longrightarrow> order_by_desc k (map g xs) = map g (order_by_desc (k \<circ> g) xs)"
  by (rule desc_unique) (use desc_descending [of "k \<circ> g" xs] in \<open>simp_all add: descending_def sorted_wrt_map comp_def\<close>)

lemma distinct_picked:
  assumes "distinct (map k (concat xss))" and "\<And>xs. distinct (map k xs) \<Longrightarrow> distinct (map k (g xs))" and "\<And>xs. set (g xs) \<subseteq> set xs"
  shows "distinct (map k (concat (map g xss)))"
  using assms(1)
proof (induction xss)
  case (Cons xs xss)
  have "set (concat (map g xss)) \<subseteq> set (concat xss)" using assms(3) by fastforce
  then have "k ` set (g xs) \<inter> k ` set (concat (map g xss)) \<subseteq> k ` set xs \<inter> k ` set (concat xss)" using assms(3) by blast
  moreover have "k ` set xs \<inter> k ` set (concat xss) = {}" using Cons.prems by simp
  ultimately have "k ` set (g xs) \<inter> k ` set (concat (map g xss)) = {}" by blast
  then show ?case using Cons assms(2) [of xs] by (simp del: set_concat)
qed simp

text \<open>The newest of the newest of each list are the newest of all.\<close>

lemma newest_of_newest:
  assumes "distinct (map k (concat xss))"
  shows "take n (order_by_desc k (concat (map (\<lambda>xs. take n (order_by_desc k xs)) xss))) = take n (order_by_desc k (concat xss))"
proof -
  let ?Z = "order_by_desc k (concat xss)" and ?Y = "concat (map (\<lambda>xs. take n (order_by_desc k xs)) xss)"
  have Z: "descending k ?Z" by (rule desc_descending [OF assms])
  have each: "order_by_desc k xs = filter (\<lambda>y. y \<in> set xs) ?Z" if "xs \<in> set xss" for xs
  proof (rule desc_unique)
    show "distinct (map k xs)" using assms that by (auto simp: map_concat distinct_concat_iff)
    show "descending k (filter (\<lambda>y. y \<in> set xs) ?Z)" using Z by (simp add: descending_def sorted_wrt_filter)
    show "set (filter (\<lambda>y. y \<in> set xs) ?Z) = set xs" using that by auto
  qed
  have sub: "set ?Y \<subseteq> set (concat xss)" using in_set_takeD by fastforce
  have "order_by_desc k ?Y = filter (\<lambda>y. y \<in> set ?Y) ?Z"
  proof (rule desc_unique)
    show "distinct (map k ?Y)"
    proof (rule distinct_picked [OF assms])
      show "distinct (map k (take n (order_by_desc k xs)))" if "distinct (map k xs)" for xs
        using that distinct_take [of "map k (order_by_desc k xs)" n]
        by (simp add: order_by_desc_def order_by_def distinct_map take_map)
    qed (auto dest: in_set_takeD)
    show "descending k (filter (\<lambda>y. y \<in> set ?Y) ?Z)" using Z by (simp add: descending_def sorted_wrt_filter)
    show "set (filter (\<lambda>y. y \<in> set ?Y) ?Z) = set ?Y" using sub by auto
  qed
  moreover have "x \<in> set ?Y" if x: "x \<in> set (take n ?Z)" for x
  proof -
    have "x \<in> set (concat xss)" using in_set_takeD [OF x] by simp
    then obtain xs where xs: "xs \<in> set xss" "x \<in> set xs" by auto
    then have "x \<in> set (take n (order_by_desc k xs))" using early_in_filter [OF x, of "\<lambda>y. y \<in> set xs"] each by simp
    with xs show ?thesis by auto
  qed
  ultimately show ?thesis using take_filter [of n ?Z "\<lambda>y. y \<in> set ?Y"] by simp
qed

text \<open>A row that the invariant holds for is read as a run, with the order's columns in it.\<close>

definition queue_runs :: "absurd_queue \<Rightarrow> string option \<Rightarrow> WorkflowRun list workflow_result" where
  "queue_runs q workflow_name = collect_results (map (\<lambda>(t, r). workflow_run_from_row q t r) (task_rows q workflow_name))"

definition newest_first :: "WorkflowRun list \<Rightarrow> WorkflowRun list" where
  "newest_first = order_by_desc (\<lambda>r. (wr_created_at r, wr_task_id r))"

lemma row_run:
  assumes "queue_inv q" and "(t, r) \<in> set (task_rows q w)"
  obtains run where "workflow_run_from_row q t r = Inr run" and "wr_created_at run = at_enqueue_at t" and "wr_task_id run = at_task_id t"
proof -
  have "t \<in> set (q_tasks q)" using assms(2) by (auto simp: task_rows_def)
  then obtain r' where "r' \<in> set (q_runs q)" "ar_task_id r' = at_task_id t" using assms(1) by (auto simp: queue_inv_def)
  then have "at_task_id t \<in> ar_task_id ` set (q_runs q)" by (metis imageI)
  then obtain i where "first_run_of q (at_task_id t) = Some i" using first_run_exists [of q "at_task_id t"] by blast
  then show thesis using that by (simp add: workflow_run_from_row_def)
qed

lemma rows_distinct:
  assumes "queue_inv q"
  shows "distinct (map (\<lambda>(t, r). at_task_id t) (task_rows q w))"
proof -
  have d: "distinct (map at_task_id (q_tasks q))" "distinct (map ar_run_id (q_runs q))" using assms by (simp_all add: queue_inv_def)
  then have "distinct (task_rows q w)" by (simp add: task_rows_def distinct_product distinct_map)
  moreover have "inj_on (\<lambda>(t, r). at_task_id t) (set (task_rows q w))"
    using d by (auto simp: inj_on_def task_rows_def distinct_map)
  ultimately show ?thesis by (simp add: distinct_map)
qed

lemma distinct_parts:
  assumes "distinct (concat (map T ns))" and "\<And>n. n \<in> set ns \<Longrightarrow> distinct (R n) \<and> set (R n) \<subseteq> set (T n)"
  shows "distinct (concat (map R ns))"
  using assms
proof (induction ns)
  case (Cons n ns)
  then have "set (R n) \<subseteq> set (T n)" "set (concat (map R ns)) \<subseteq> set (concat (map T ns))" by fastforce+
  with Cons show ?case by (simp del: set_concat) blast
qed simp

lemma queue_runs_is:
  assumes "queue_inv q"
  obtains runs where "queue_runs q w = Inr runs" and "map wr_task_id runs = map (\<lambda>(t, r). at_task_id t) (task_rows q w)"
    and "collect_results (map (\<lambda>(t, r). workflow_run_from_row q t r) (take n (order_by_desc (\<lambda>(t, r). (at_enqueue_at t, at_task_id t)) (task_rows q w)))) =
      Inr (take n (newest_first runs))"
proof -
  define g where "g = (\<lambda>(t, r). projr (workflow_run_from_row q t r))"
  have g: "workflow_run_from_row q t r = Inr (g (t, r)) \<and> wr_created_at (g (t, r)) = at_enqueue_at t \<and> wr_task_id (g (t, r)) = at_task_id t"
    if "(t, r) \<in> set (task_rows q w)" for t r
    by (rule row_run [OF assms that]) (simp add: g_def)
  have collected: "collect_results (map (\<lambda>(t, r). workflow_run_from_row q t r) rows) = Inr (map g rows)"
    if "set rows \<subseteq> set (task_rows q w)" for rows
    using that g by (intro collect_results_all_ok) auto
  have ids: "map wr_task_id (map g (task_rows q w)) = map (\<lambda>(t, r). at_task_id t) (task_rows q w)" using g by auto
  let ?key = "\<lambda>r. (wr_created_at r, wr_task_id r)"
  have "distinct (map wr_task_id (map g (task_rows q w)))" using rows_distinct [OF assms] ids by metis
  then have dk: "distinct (map ?key (map g (task_rows q w)))" by (auto simp: distinct_map inj_on_def)
  have key: "order_by_desc (?key \<circ> g) (task_rows q w) = order_by_desc (\<lambda>(t, r). (at_enqueue_at t, at_task_id t)) (task_rows q w)"
  proof (rule desc_unique)
    have "distinct (map (\<lambda>(t, r). (at_enqueue_at t, at_task_id t)) (task_rows q w))"
      using rows_distinct [OF assms, of w] by (auto simp: distinct_map inj_on_def)
    from desc_descending [OF this]
    show "descending (?key \<circ> g) (order_by_desc (\<lambda>(t, r). (at_enqueue_at t, at_task_id t)) (task_rows q w))"
      unfolding descending_def by (rule sorted_wrt_mono_rel [rotated]) (use g in auto)
  qed (use dk in simp_all)
  have "newest_first (map g (task_rows q w)) = map g (order_by_desc (\<lambda>(t, r). (at_enqueue_at t, at_task_id t)) (task_rows q w))"
    unfolding newest_first_def desc_map [OF dk] key ..
  then have "collect_results (map (\<lambda>(t, r). workflow_run_from_row q t r)
      (take n (order_by_desc (\<lambda>(t, r). (at_enqueue_at t, at_task_id t)) (task_rows q w)))) = Inr (take n (newest_first (map g (task_rows q w))))"
    using collected [of "take n (order_by_desc (\<lambda>(t, r). (at_enqueue_at t, at_task_id t)) (task_rows q w))"]
    by (metis (no_types, lifting) set_desc set_take_subset take_map)
  then show thesis using that [OF _ ids] collected [of "task_rows q w"] by (simp add: queue_runs_def)
qed

text \<open>
  \<^verbatim>\<open>list_runs\<close>, which asks each queue for its newest runs only, returns the newest runs of all queues together: the
  same as listing every run of the workflow in every queue, ordering them and cutting at the limit, which is kept
  between 1 and 1000.
\<close>

lemma list_runs_newest:
  assumes inv: "\<And>name. queue_inv (qs name)"
    and ids: "distinct (concat (map (\<lambda>name. map at_task_id (q_tasks (qs name))) workflow_queues))"
  shows "\<exists>all. collect_results (map (\<lambda>name. queue_runs (qs name) w) workflow_queues) = Inr all \<and>
    list_runs qs limit w = Inr (take (nat (min (max limit 1) 1000)) (newest_first (concat all)))"
proof -
  let ?n = "nat (list_runs_limit limit)"
  have "\<exists>runs. queue_runs (qs name) w = Inr runs \<and> map wr_task_id runs = map (\<lambda>(t, r). at_task_id t) (task_rows (qs name) w) \<and>
      list_runs_for_queue qs name (list_runs_limit limit) w = Inr (take ?n (newest_first runs))" for name
    by (rule queue_runs_is [OF inv [of name], of w ?n]) (auto simp: list_runs_for_queue_def)
  then obtain R where R: "\<And>name. queue_runs (qs name) w = Inr (R name)"
      "\<And>name. map wr_task_id (R name) = map (\<lambda>(t, r). at_task_id t) (task_rows (qs name) w)"
      "\<And>name. list_runs_for_queue qs name (list_runs_limit limit) w = Inr (take ?n (newest_first (R name)))" by metis
  have "distinct (concat (map (\<lambda>name. map wr_task_id (R name)) workflow_queues))"
  proof (rule distinct_parts [OF ids])
    show "distinct (map wr_task_id (R name)) \<and> set (map wr_task_id (R name)) \<subseteq> set (map at_task_id (q_tasks (qs name)))" for name
      using rows_distinct [OF inv] unfolding R(2) by (auto simp: task_rows_def)
  qed
  then have "distinct (map wr_task_id (concat (map R workflow_queues)))" by (simp add: map_concat comp_def)
  then have "distinct (map (\<lambda>r. (wr_created_at r, wr_task_id r)) (concat (map R workflow_queues)))"
    by (auto simp: distinct_map inj_on_def)
  from newest_of_newest [OF this, of ?n]
  have "list_runs qs limit w = Inr (take ?n (newest_first (concat (map R workflow_queues))))"
    by (simp add: list_runs_def R(3) newest_first_def comp_def Let_def)
  then show ?thesis by (simp add: R(1) list_runs_limit_def MAX_LIST_RUNS_LIMIT_def)
qed

definition example_queues :: queues where
  "example_queues = no_queues(WORKFLOW_QUEUE := \<lparr>q_tasks = [new_task 5 ''t1'' ''r1'' WORKFLOW_TASK (workflow_task_input ''echo'' empty_object Codex None)
     (request_options example_run_request)], q_runs = [new_run 5 ''r1'' ''t1'']\<rparr>)"

lemma workflow_queue_names:
  "WORKFLOW_QUEUE \<noteq> WORKFLOW_SLACK_LIVE_QUEUE" "WORKFLOW_QUEUE \<noteq> WORKFLOW_ETL_QUEUE" "WORKFLOW_QUEUE \<noteq> WORKFLOW_ETL_BACKFILL_QUEUE"
  by (simp_all add: WORKFLOW_QUEUE_def WORKFLOW_SLACK_LIVE_QUEUE_def WORKFLOW_ETL_QUEUE_def WORKFLOW_ETL_BACKFILL_QUEUE_def)

lemma example_queues_inv: "queue_inv (example_queues name)"
  by (simp add: example_queues_def no_queues_def queue_inv_def unique_index_def new_task_def new_run_def task_states_def split: option.split)

end
