(* ===== verification/Workflow_Webhooks.thy ===== *)
theory Workflow_Webhooks
  imports Workflow_Queue
begin

text \<open>
  Webhooks that start workflows: their registration (\<^verbatim>\<open>crates/centaur-workflows/src/lib.rs\<close>, from
  \<^verbatim>\<open>build_webhook_registry\<close> to \<^verbatim>\<open>valid_webhook_slug\<close>) and the requests to them
  (\<^verbatim>\<open>crates/centaur-api-server/src/routes.rs\<close>, \<^verbatim>\<open>invoke_workflow_webhook\<close> and what it calls). The cryptographic and decoding
  crates are fields of \<open>ingress_env\<close>.
\<close>

section \<open>Normal form of a filter\<close>

definition invalid_webhook_filter :: "(string \<Rightarrow> string) \<Rightarrow> string \<Rightarrow> string \<Rightarrow> string \<Rightarrow> WorkflowRuntimeError" where
  "invalid_webhook_filter dbg slug path reason =
     WfBadRequest (''workflow webhook '' @ dbg slug @ '' has invalid filter at '' @ path @ '': '' @ reason)"

definition normalize_required_filter_string :: "string option \<Rightarrow> string option" where
  "normalize_required_filter_string v = Option.bind v (\<lambda>s. if trim s = [] then None else Some (trim s))"

definition ok_or :: "'e \<Rightarrow> 'a option \<Rightarrow> 'e + 'a" where
  "ok_or e v = (case v of None \<Rightarrow> Inl e | Some a \<Rightarrow> Inr a)"

definition normalize_leaf_operand ::
  "(string \<Rightarrow> WorkflowRuntimeError) \<Rightarrow> string \<Rightarrow> string option \<Rightarrow> string list option \<Rightarrow> (string option \<times> string list option) workflow_result" where
  "normalize_leaf_operand invalid op val vals =
     (if op \<in> {''equals'', ''contains'', ''prefix''} then
        (if vals \<noteq> None then Inl (invalid ''values is only valid with op in'')
         else res_map (\<lambda>v. (Some v, None)) (ok_or (invalid ''op requires a non-empty value'') (normalize_required_filter_string val)))
      else if op = ''in'' then
        (if val \<noteq> None then Inl (invalid ''value is not valid with op in'')
         else case vals of
                None \<Rightarrow> Inl (invalid ''op in requires non-empty values'')
              | Some vs \<Rightarrow>
                  let vs = map trim vs in
                  if vs = [] \<or> [] \<in> set vs then Inl (invalid ''op in requires non-empty values'') else Inr (None, Some vs))
      else Inl (invalid ''op must be equals, in, contains, or prefix''))"

definition normalize_leaf ::
  "(string \<Rightarrow> WorkflowRuntimeError) \<Rightarrow> string option \<Rightarrow> string option \<Rightarrow> string option \<Rightarrow> string option \<Rightarrow> string list option \<Rightarrow>
   WebhookFilter workflow_result" where
  "normalize_leaf invalid source key op val vals =
     res_bind (ok_or (invalid ''leaf requires source'') (normalize_required_filter_string source)) (\<lambda>source.
     res_bind (ok_or (invalid ''leaf requires key'') (normalize_required_filter_string key)) (\<lambda>key.
     res_bind (ok_or (invalid ''leaf requires op'') (normalize_required_filter_string op)) (\<lambda>op.
       let source = to_ascii_lowercase source; op = to_ascii_lowercase op in
       if source \<notin> {''header'', ''body''} then Inl (invalid ''source must be header or body'')
       else if source = ''body'' \<and> (\<exists>part \<in> set (split_on CHR ''.'' key). trim part = [])
       then Inl (invalid ''body key must be a non-empty dot path'')
       else res_map (\<lambda>(v, vs). WebhookFilter None None (Some source) (Some key) (Some op) v vs)
              (normalize_leaf_operand invalid op val vals))))"

text \<open>\<open>exactly_one\<close> is the test \<^verbatim>\<open>has_any as u8 + has_all as u8 + has_leaf as u8 != 1\<close>.\<close>

definition exactly_one :: "bool \<Rightarrow> bool \<Rightarrow> bool \<Rightarrow> bool" where
  "exactly_one a b c \<longleftrightarrow> of_bool a + of_bool b + of_bool c = (1 :: nat)"

definition has_leaf :: "string option \<Rightarrow> string option \<Rightarrow> string option \<Rightarrow> string option \<Rightarrow> string list option \<Rightarrow> bool" where
  "has_leaf source key op val vals \<longleftrightarrow> source \<noteq> None \<or> key \<noteq> None \<or> op \<noteq> None \<or> val \<noteq> None \<or> vals \<noteq> None"

function (sequential) normalize_webhook_filter_node ::
    "(string \<Rightarrow> string) \<Rightarrow> string \<Rightarrow> WebhookFilter \<Rightarrow> string \<Rightarrow> WebhookFilter workflow_result"
  and normalize_children ::
    "(string \<Rightarrow> string) \<Rightarrow> string \<Rightarrow> WebhookFilter list \<Rightarrow> string \<Rightarrow> string \<Rightarrow> nat \<Rightarrow> WebhookFilter list workflow_result" where
  "normalize_webhook_filter_node dbg slug (WebhookFilter any all source key op val vals) path =
     (if \<not> exactly_one (any \<noteq> None) (all \<noteq> None) (has_leaf source key op val vals)
      then Inl (invalid_webhook_filter dbg slug path ''node must be exactly one of any, all, or a leaf predicate'')
      else case any of
        Some children \<Rightarrow>
          if children = [] then Inl (invalid_webhook_filter dbg slug path ''any must not be empty'')
          else res_map (\<lambda>cs. WebhookFilter (Some cs) all source key op val vals) (normalize_children dbg slug children path ''any'' 0)
      | None \<Rightarrow>
          (case all of
             Some children \<Rightarrow>
               if children = [] then Inl (invalid_webhook_filter dbg slug path ''all must not be empty'')
               else res_map (\<lambda>cs. WebhookFilter any (Some cs) source key op val vals) (normalize_children dbg slug children path ''all'' 0)
           | None \<Rightarrow> normalize_leaf (invalid_webhook_filter dbg slug path) source key op val vals))"
| "normalize_children dbg slug [] path name i = Inr []"
| "normalize_children dbg slug (child # rest) path name i =
     res_bind (normalize_webhook_filter_node dbg slug child (path @ ''.'' @ name @ ''['' @ show_nat i @ '']'')) (\<lambda>c.
     res_map ((#) c) (normalize_children dbg slug rest path name (Suc i)))"
  by pat_completeness auto

termination
  by (relation "measure (case_sum (\<lambda>(_, _, f, _). 2 * size f) (\<lambda>(_, _, fs, _, _, _). Suc (2 * size_list size fs)))") auto

definition normalize_webhook_filter :: "(string \<Rightarrow> string) \<Rightarrow> string \<Rightarrow> WebhookFilter \<Rightarrow> WebhookFilter workflow_result" where
  "normalize_webhook_filter dbg slug f = normalize_webhook_filter_node dbg slug f ''filter''"

section \<open>Registration\<close>

definition is_ascii_lower_or_digit :: "char \<Rightarrow> bool" where
  "is_ascii_lower_or_digit c \<longleftrightarrow> (let n = of_char c :: nat in (97 \<le> n \<and> n \<le> 122) \<or> (48 \<le> n \<and> n \<le> 57))"

definition is_ascii_alphabetic :: "char \<Rightarrow> bool" where
  "is_ascii_alphabetic c \<longleftrightarrow> (let n = of_char c :: nat in (65 \<le> n \<and> n \<le> 90) \<or> (97 \<le> n \<and> n \<le> 122))"

definition valid_webhook_slug :: "string \<Rightarrow> bool" where
  "valid_webhook_slug slug =
     (case slug of [] \<Rightarrow> False
      | first # _ \<Rightarrow> length slug \<le> 128 \<and> is_ascii_lower_or_digit first \<and> list_all (\<lambda>ch. is_ascii_lower_or_digit ch \<or> ch \<in> set ''._-'') slug)"

definition check_webhook_auth :: "(string \<Rightarrow> string) \<Rightarrow> string \<Rightarrow> WorkflowWebhookAuth \<Rightarrow> unit workflow_result" where
  "check_webhook_auth dbg slug auth =
     (let secret_required = (\<lambda>secret_ref.
            if trim secret_ref = [] then Inl (WfBadRequest (''workflow webhook '' @ dbg slug @ '' auth requires secret_ref'')) else Inr ())
      in case auth of
           AuthNone \<Rightarrow> Inr ()
         | AuthHmac secret_ref signature_header algorithm _ encoding \<Rightarrow>
             if trim secret_ref = [] \<or> trim signature_header = []
             then Inl (WfBadRequest (''workflow webhook '' @ dbg slug @ '' hmac auth requires secret_ref and signature_header''))
             else if algorithm \<noteq> ''sha256'' then Inl (WfBadRequest ''only sha256 webhook HMAC auth is supported'')
             else if encoding \<notin> {''hex'', ''base64''} then Inl (WfBadRequest ''webhook HMAC encoding must be hex or base64'')
             else Inr ()
         | AuthGithub secret_ref \<Rightarrow> secret_required secret_ref
         | AuthStandardWebhooks secret_ref \<Rightarrow> secret_required secret_ref
         | AuthBearer secret_ref \<Rightarrow> secret_required secret_ref)"

definition normalize_webhook :: "(string \<Rightarrow> string) \<Rightarrow> RegisteredWorkflowWebhook \<Rightarrow> RegisteredWorkflowWebhook workflow_result" where
  "normalize_webhook dbg webhook =
     (let spec = rw_spec webhook; slug = wh_slug spec;
          methods = map (\<lambda>m. to_ascii_uppercase (trim m)) (wh_allowed_methods spec);
          content_types = map (\<lambda>t. to_ascii_lowercase (trim t)) (wh_allowed_content_types spec)
      in if trim (rw_workflow_name webhook) = [] then Inl (WfBadRequest ''workflow webhook workflow_name must not be empty'')
         else if \<not> valid_webhook_slug slug then Inl (WfBadRequest (''invalid workflow webhook slug '' @ dbg slug))
         else if methods = [] \<or> (\<exists>m \<in> set methods. m = [] \<or> \<not> list_all is_ascii_alphabetic m)
         then Inl (WfBadRequest (''workflow webhook '' @ dbg slug @ '' has invalid allowed_methods''))
         else if content_types = [] then Inl (WfBadRequest (''workflow webhook '' @ dbg slug @ '' must allow at least one content type''))
         else res_bind (check_webhook_auth dbg slug (wh_auth spec)) (\<lambda>_.
              res_map (\<lambda>f. webhook\<lparr>rw_spec := spec\<lparr>wh_allowed_methods := methods, wh_allowed_content_types := content_types, wh_filter := f\<rparr>\<rparr>)
                (case wh_filter spec of None \<Rightarrow> Inr None | Some f \<Rightarrow> res_map Some (normalize_webhook_filter dbg slug f))))"

type_synonym webhook_registry = "RegisteredWorkflowWebhook btree"

definition insert_webhook :: "(string \<Rightarrow> string) \<Rightarrow> RegisteredWorkflowWebhook \<Rightarrow> webhook_registry \<Rightarrow> webhook_registry workflow_result" where
  "insert_webhook dbg webhook registry =
     res_bind (normalize_webhook dbg webhook) (\<lambda>w.
       let slug = wh_slug (rw_spec w) in
       if map_of registry slug \<noteq> None then Inl (WfBadRequest (''duplicate workflow webhook slug '' @ dbg slug))
       else Inr (btree_insert slug w registry))"

definition insert_webhook_if_absent ::
  "(string \<Rightarrow> string) \<Rightarrow> RegisteredWorkflowWebhook \<Rightarrow> webhook_registry \<Rightarrow> webhook_registry workflow_result" where
  "insert_webhook_if_absent dbg webhook registry =
     res_map (\<lambda>w. let slug = wh_slug (rw_spec w) in if map_of registry slug \<noteq> None then registry else btree_insert slug w registry)
       (normalize_webhook dbg webhook)"

definition insert_webhook_replace ::
  "(string \<Rightarrow> string) \<Rightarrow> RegisteredWorkflowWebhook \<Rightarrow> webhook_registry \<Rightarrow> webhook_registry workflow_result" where
  "insert_webhook_replace dbg webhook registry =
     res_map (\<lambda>w. btree_insert (wh_slug (rw_spec w)) w registry) (normalize_webhook dbg webhook)"

definition github_webhook :: "string \<Rightarrow> string \<Rightarrow> string \<Rightarrow> RegisteredWorkflowWebhook" where
  "github_webhook workflow_name source_path slug =
     \<lparr>rw_workflow_name = workflow_name, rw_source_path = source_path,
      rw_spec = \<lparr>wh_slug = slug, wh_provider = Some ''github'', wh_auth = AuthGithub ''GITHUB_WEBHOOK_SECRET'',
        wh_trigger_key = Some (TriggerHeader ''X-GitHub-Delivery''), wh_allowed_methods = [''POST''],
        wh_allowed_content_types = [''application/json'', ''application/x-www-form-urlencoded''], wh_filter = None\<rparr>\<rparr>"

definition default_workflow_webhooks :: "RegisteredWorkflowWebhook list" where
  "default_workflow_webhooks =
     [github_webhook ''github_issue_triage'' ''workflows/github_issue_triage.py'' ''github-issue-triage'',
      github_webhook ''consensus_ci_triage'' ''centaur-tempo/workflows/consensus_ci_triage.py'' ''github-consensus-ci-triage'',
      \<lparr>rw_workflow_name = ''trivy_vulnerability_intake'', rw_source_path = ''centaur-tempo/workflows/trivy_vulnerability_intake.py'',
       rw_spec = \<lparr>wh_slug = ''trivy-vulnerability-intake'', wh_provider = Some ''alertmanager'', wh_auth = AuthBearer ''TRIVY_INTAKE_WEBHOOK_TOKEN'',
         wh_trigger_key = None, wh_allowed_methods = [''POST''], wh_allowed_content_types = [''application/json''], wh_filter = None\<rparr>\<rparr>]"

fun insert_enabled ::
  "(RegisteredWorkflowWebhook \<Rightarrow> webhook_registry \<Rightarrow> webhook_registry workflow_result) \<Rightarrow> WorkflowEnablement \<Rightarrow>
   RegisteredWorkflowWebhook list \<Rightarrow> webhook_registry \<Rightarrow> webhook_registry workflow_result" where
  "insert_enabled ins en [] registry = Inr registry"
| "insert_enabled ins en (w # ws) registry =
     (if \<not> is_enabled en (rw_workflow_name w) then insert_enabled ins en ws registry
      else res_bind (ins w registry) (insert_enabled ins en ws))"

text \<open>\<open>parse\<close> reads the webhooks of \<^verbatim>\<open>WORKFLOW_WEBHOOKS_JSON\<close>.\<close>

definition build_webhook_registry ::
  "(string \<Rightarrow> string) \<Rightarrow> environment \<Rightarrow> (string \<Rightarrow> string + RegisteredWorkflowWebhook list) \<Rightarrow> PythonWorkflowMetadata \<Rightarrow> WorkflowEnablement \<Rightarrow>
   webhook_registry workflow_result" where
  "build_webhook_registry dbg env parse discovery en =
     res_bind (insert_enabled (insert_webhook dbg) en (pm_webhooks discovery) []) (\<lambda>r1.
     res_bind (insert_enabled (insert_webhook_if_absent dbg) en default_workflow_webhooks r1) (\<lambda>r2.
       case env ''WORKFLOW_WEBHOOKS_JSON'' of
         None \<Rightarrow> Inr r2
       | Some raw \<Rightarrow>
           if trim raw = [] then Inr r2
           else (case parse (trim raw) of
                   Inl e \<Rightarrow> Inl (WfJson e)
                 | Inr webhooks \<Rightarrow> insert_enabled (insert_webhook_replace dbg) en webhooks r2)))"

section \<open>Requests\<close>

datatype ApiError =
    ApiBadRequest string
  | ApiUnauthorized string
  | ApiForbidden string
  | ApiNotFound string
  | ApiMethodNotAllowed string
  | ApiPayloadTooLarge string
  | ApiServiceUnavailable string
  | ApiInternal string
  | ApiRuntime SessionRuntimeError
  | ApiWorkflow WorkflowRuntimeError
  | ApiSerialize string
  | ApiSqlx string

type_synonym 'a api_result = "ApiError + 'a"

text \<open>
  A header map as its entries in order, names in lower case as \<^verbatim>\<open>HeaderName\<close> keeps them; a value reads as text when it is
  visible ASCII. \<open>parse\<close> is serde\_json's reader, \<open>decode\<close> of \<^verbatim>\<open>urlencoding\<close> and the others of their crates.
\<close>

type_synonym headers = "(string \<times> string) list"

record ingress_env =
  ig_workflows :: workflow_env
  ig_parse :: "string \<Rightarrow> json option"
  ig_utf8 :: "string \<Rightarrow> bool"
  ig_utf8_lossy :: "string \<Rightarrow> string"
  ig_urldecode :: "string \<Rightarrow> string option"
  ig_sha256_hex :: "string \<Rightarrow> string"
  ig_hmac :: "string \<Rightarrow> string \<Rightarrow> string"
  ig_hex :: "string \<Rightarrow> string option"
  ig_base64 :: "string \<Rightarrow> string option"
  ig_standard :: "string \<Rightarrow> (string \<Rightarrow> headers \<Rightarrow> bool) option"

abbreviation ig_env :: "ingress_env \<Rightarrow> environment" where
  "ig_env ig \<equiv> wv_env (ig_workflows ig)"

definition visible_ascii :: "string \<Rightarrow> bool" where
  "visible_ascii s \<longleftrightarrow> list_all (\<lambda>c. let n = of_char c :: nat in (32 \<le> n \<and> n < 127) \<or> n = 9) s"

definition header_value :: "headers \<Rightarrow> string \<Rightarrow> string option" where
  "header_value headers name =
     Option.bind (map_of headers (to_ascii_lowercase name)) (\<lambda>v. if visible_ascii v then Some v else None)"

definition content_type :: "headers \<Rightarrow> string" where
  "content_type headers =
     (let raw = (case header_value headers ''content-type'' of None \<Rightarrow> [] | Some v \<Rightarrow> v)
      in to_ascii_lowercase (trim (case split_once CHR '';'' raw of Some (head, _) \<Rightarrow> head | None \<Rightarrow> raw)))"

definition decode_form_component :: "(string \<Rightarrow> string option) \<Rightarrow> string \<Rightarrow> string" where
  "decode_form_component decode v =
     (let replaced = map (\<lambda>c. if c = CHR ''+'' then CHR '' '' else c) v in case decode replaced of None \<Rightarrow> replaced | Some d \<Rightarrow> d)"

definition btree_push :: "string \<Rightarrow> 'v \<Rightarrow> 'v list btree \<Rightarrow> 'v list btree" where
  "btree_push k v m = btree_insert k ((case map_of m k of None \<Rightarrow> [] | Some vs \<Rightarrow> vs) @ [v]) m"

definition form_values :: "(string \<Rightarrow> string option) \<Rightarrow> string \<Rightarrow> string list btree" where
  "form_values decode input =
     fold (\<lambda>pair m. case (case split_once CHR ''='' pair of Some kv \<Rightarrow> kv | None \<Rightarrow> (pair, [])) of (k, v) \<Rightarrow>
             btree_push (decode_form_component decode k) (decode_form_component decode v) m)
       (filter (\<lambda>part. part \<noteq> []) (split_on CHR ''&'' input)) []"

definition parse_form :: "(string \<Rightarrow> string option) \<Rightarrow> string \<Rightarrow> json btree" where
  "parse_form decode input =
     map (\<lambda>(k, vs). (k, case vs of [v] \<Rightarrow> JStr v | _ \<Rightarrow> JArr (map JStr vs))) (form_values decode input)"

definition parse_webhook_body :: "ingress_env \<Rightarrow> headers \<Rightarrow> string \<Rightarrow> json api_result" where
  "parse_webhook_body ig headers raw_body =
     (if raw_body = [] then Inr empty_object
      else if content_type headers = ''application/json''
      then ok_or (ApiBadRequest ''invalid JSON webhook body'') (ig_parse ig raw_body)
      else if content_type headers = ''application/x-www-form-urlencoded''
      then (let form = parse_form (ig_urldecode ig) (if ig_utf8 ig raw_body then raw_body else []) in
            case Option.bind (map_of form ''payload'') (\<lambda>p. case p of JStr s \<Rightarrow> ig_parse ig s | _ \<Rightarrow> None) of
              Some v \<Rightarrow> Inr v
            | None \<Rightarrow> Inr (JObj form))
      else Inr (JStr (ig_utf8_lossy ig raw_body)))"

definition REDACTED_WEBHOOK_HEADERS :: "string list" where
  "REDACTED_WEBHOOK_HEADERS =
     [''authorization'', ''cookie'', ''set-cookie'', ''x-api-key'', ''x-centaur-api-key'', ''x-hub-signature'', ''x-hub-signature-256'',
      ''x-slack-signature'', ''webhook-signature'', ''stripe-signature'']"

fun signature_header_name :: "WorkflowWebhookAuth \<Rightarrow> string option" where
  "signature_header_name AuthNone = None"
| "signature_header_name (AuthBearer _) = None"
| "signature_header_name (AuthGithub _) = Some ''X-Hub-Signature-256''"
| "signature_header_name (AuthStandardWebhooks _) = Some ''webhook-signature''"
| "signature_header_name (AuthHmac _ signature_header _ _ _) = Some signature_header"

definition secret_header :: "WorkflowWebhookSpec \<Rightarrow> string \<Rightarrow> bool" where
  "secret_header spec name \<longleftrightarrow>
     name \<in> set REDACTED_WEBHOOK_HEADERS \<or> map_option to_ascii_lowercase (signature_header_name (wh_auth spec)) = Some name"

definition safe_webhook_headers :: "headers \<Rightarrow> WorkflowWebhookSpec \<Rightarrow> json" where
  "safe_webhook_headers headers spec =
     JObj (fold (\<lambda>(name, v) m. if secret_header spec (to_ascii_lowercase name) \<or> \<not> visible_ascii v then m
       else json_insert (to_ascii_lowercase name) (JStr v) m) headers [])"

definition webhook_trigger_key :: "string \<Rightarrow> string \<Rightarrow> WorkflowWebhookSpec \<Rightarrow> headers \<Rightarrow> string" where
  "webhook_trigger_key slug raw_body_sha256 spec headers =
     (let by_body = ''webhook:'' @ slug @ '':'' @ raw_body_sha256 in
      case wh_trigger_key spec of
        Some (TriggerHeader header) \<Rightarrow>
          (case header_value headers header of
             Some v \<Rightarrow> if trim v \<noteq> [] then ''webhook:'' @ slug @ '':'' @ to_ascii_lowercase header @ '':'' @ trim v else by_body
           | None \<Rightarrow> by_body)
      | Some (TriggerStatic v) \<Rightarrow> if trim v \<noteq> [] then ''webhook:'' @ slug @ '':'' @ trim v else by_body
      | None \<Rightarrow> by_body)"

definition configured_secret :: "ingress_env \<Rightarrow> string \<Rightarrow> string api_result" where
  "configured_secret ig secret_ref =
     ok_or (ApiInternal (''webhook auth secret '' @ secret_ref @ '' is not configured'')) (ig_env ig secret_ref)"

definition verify_hmac_signature ::
  "ingress_env \<Rightarrow> string \<Rightarrow> string \<Rightarrow> string \<Rightarrow> string \<Rightarrow> headers \<Rightarrow> string \<Rightarrow> unit api_result" where
  "verify_hmac_signature ig signature_header signature_prefix encoding secret_ref headers raw_body =
     (let invalid = ApiUnauthorized ''invalid webhook signature'' in
      res_bind (ok_or (ApiUnauthorized ''missing webhook signature'') (header_value headers signature_header)) (\<lambda>signature.
      res_bind (configured_secret ig secret_ref) (\<lambda>secret.
      res_bind (ok_or invalid (strip_prefix signature_prefix (trim signature))) (\<lambda>presented.
      res_bind (ok_or invalid ((if encoding = ''base64'' then ig_base64 ig else ig_hex ig) presented)) (\<lambda>presented.
        if presented = ig_hmac ig secret raw_body then Inr () else Inl invalid)))))"

definition verify_standard_webhook_signature :: "ingress_env \<Rightarrow> string \<Rightarrow> headers \<Rightarrow> string \<Rightarrow> unit api_result" where
  "verify_standard_webhook_signature ig secret_ref headers raw_body =
     (let bad_key = ApiInternal (''webhook auth secret '' @ secret_ref @ '' is not valid Standard Webhooks key material'') in
      res_bind (configured_secret ig secret_ref) (\<lambda>secret.
        let secret = trim secret; encoded = (case strip_prefix ''whsec_'' secret of Some e \<Rightarrow> e | None \<Rightarrow> secret) in
        if encoded = [] then Inl bad_key
        else res_bind (ok_or bad_key (ig_standard ig secret)) (\<lambda>verify.
          if verify raw_body headers then Inr () else Inl (ApiUnauthorized ''invalid webhook signature''))))"

definition verify_bearer :: "ingress_env \<Rightarrow> string \<Rightarrow> headers \<Rightarrow> unit api_result" where
  "verify_bearer ig secret_ref headers =
     res_bind (configured_secret ig secret_ref) (\<lambda>expected.
     res_bind (ok_or (ApiUnauthorized ''missing bearer token'') (header_value headers ''Authorization'')) (\<lambda>actual.
       let actual = trim (case or_else (strip_prefix ''Bearer '' actual) (strip_prefix ''bearer '' actual) of Some t \<Rightarrow> t | None \<Rightarrow> actual)
       in if actual = trim expected then Inr () else Inl (ApiUnauthorized ''invalid bearer token'')))"

definition verify_webhook_auth :: "ingress_env \<Rightarrow> WorkflowWebhookSpec \<Rightarrow> headers \<Rightarrow> string \<Rightarrow> unit api_result" where
  "verify_webhook_auth ig spec headers raw_body =
     (case wh_auth spec of
        AuthNone \<Rightarrow> Inr ()
      | AuthBearer secret_ref \<Rightarrow> verify_bearer ig secret_ref headers
      | AuthGithub secret_ref \<Rightarrow> verify_hmac_signature ig ''X-Hub-Signature-256'' ''sha256='' ''hex'' secret_ref headers raw_body
      | AuthStandardWebhooks secret_ref \<Rightarrow> verify_standard_webhook_signature ig secret_ref headers raw_body
      | AuthHmac secret_ref signature_header _ signature_prefix encoding \<Rightarrow>
          verify_hmac_signature ig signature_header signature_prefix encoding secret_ref headers raw_body)"

definition webhook_body_path :: "json \<Rightarrow> string \<Rightarrow> json option" where
  "webhook_body_path body path = get_path (split_on CHR ''.'' path) body"

definition leaf_matches :: "string option \<Rightarrow> string option \<Rightarrow> string list option \<Rightarrow> string \<Rightarrow> bool" where
  "leaf_matches op val vals actual =
     (if op = Some ''equals'' then val = Some actual
      else if op = Some ''in'' then (case vals of None \<Rightarrow> False | Some vs \<Rightarrow> actual \<in> set vs)
      else if op = Some ''contains'' then (case val of None \<Rightarrow> False | Some needle \<Rightarrow> str_contains actual needle)
      else if op = Some ''prefix'' then (case val of None \<Rightarrow> False | Some p \<Rightarrow> starts_with (trim_start actual) p)
      else False)"

definition leaf_actual :: "headers \<Rightarrow> json \<Rightarrow> string option \<Rightarrow> string option \<Rightarrow> string option" where
  "leaf_actual headers body source key =
     (if source = Some ''header'' then Option.bind key (header_value headers)
      else if source = Some ''body'' then Option.bind (Option.bind key (webhook_body_path body)) as_str
      else None)"

fun webhook_filter_matches :: "headers \<Rightarrow> json \<Rightarrow> WebhookFilter \<Rightarrow> bool" where
  "webhook_filter_matches headers body (WebhookFilter any all source key op val vals) =
     (case any of
        Some fs \<Rightarrow> list_ex (webhook_filter_matches headers body) fs
      | None \<Rightarrow>
          (case all of
             Some fs \<Rightarrow> list_all (webhook_filter_matches headers body) fs
           | None \<Rightarrow> (case leaf_actual headers body source key of None \<Rightarrow> False | Some actual \<Rightarrow> leaf_matches op val vals actual)))"

definition MAX_WEBHOOK_BODY_BYTES :: nat where
  "MAX_WEBHOOK_BODY_BYTES = 1024 * 1024"

record webhook_request =
  hr_method :: string
  hr_path :: string
  hr_query :: "string option"
  hr_headers :: headers
  hr_body :: string

text \<open>The checks a request passes before anything is read from its body.\<close>

definition admit_webhook :: "ingress_env \<Rightarrow> WorkflowWebhookSpec \<Rightarrow> webhook_request \<Rightarrow> unit api_result" where
  "admit_webhook ig spec rq =
     (if to_ascii_uppercase (hr_method rq) \<notin> set (wh_allowed_methods spec) then Inl (ApiMethodNotAllowed ''method not allowed for webhook'')
      else if content_type (hr_headers rq) \<noteq> [] \<and> content_type (hr_headers rq) \<notin> set (wh_allowed_content_types spec)
      then Inl (ApiBadRequest ''unsupported webhook content type'')
      else if length (hr_body rq) > MAX_WEBHOOK_BODY_BYTES then Inl (ApiPayloadTooLarge ''webhook payload too large'')
      else verify_webhook_auth ig spec (hr_headers rq) (hr_body rq))"

definition webhook_run_request :: "ingress_env \<Rightarrow> string \<Rightarrow> RegisteredWorkflowWebhook \<Rightarrow> webhook_request \<Rightarrow> json \<Rightarrow> CreateWorkflowRunRequest" where
  "webhook_run_request ig slug registered rq body =
     (let spec = rw_spec registered; sha = ig_sha256_hex ig (hr_body rq) in
      \<lparr>cw_workflow_name = rw_workflow_name registered,
       cw_input = JObj [(''webhook'', JObj
         [(''slug'', JStr (wh_slug spec)), (''provider'', case wh_provider spec of None \<Rightarrow> JNull | Some p \<Rightarrow> JStr p),
          (''method'', JStr (to_ascii_uppercase (hr_method rq))), (''path'', JStr (hr_path rq)),
          (''headers'', safe_webhook_headers (hr_headers rq) spec),
          (''query'', JObj (parse_form (ig_urldecode ig) (case hr_query rq of None \<Rightarrow> [] | Some q \<Rightarrow> q))),
          (''body'', body), (''raw_body_sha256'', JStr sha)])],
       cw_idempotency_key = Some (webhook_trigger_key slug sha spec (hr_headers rq)), cw_harness_type = None, cw_max_attempts = None\<rparr>)"

text \<open>\<open>registry\<close> is absent when the process has no workflow runtime.\<close>

definition invoke_workflow_webhook ::
  "ingress_env \<Rightarrow> webhook_registry option \<Rightarrow> string \<Rightarrow> webhook_request \<Rightarrow> queues \<Rightarrow> queues \<times> (nat \<times> json) api_result" where
  "invoke_workflow_webhook ig registry slug rq qs =
     (case registry of
        None \<Rightarrow> (qs, Inl (ApiBadRequest ''workflow runtime is not enabled''))
      | Some reg \<Rightarrow>
     (case map_of reg slug of
        None \<Rightarrow> (qs, Inl (ApiNotFound ''webhook not found''))
      | Some registered \<Rightarrow>
     (case res_bind (admit_webhook ig (rw_spec registered) rq) (\<lambda>_. parse_webhook_body ig (hr_headers rq) (hr_body rq)) of
        Inl e \<Rightarrow> (qs, Inl e)
      | Inr body \<Rightarrow>
          if (case wh_filter (rw_spec registered) of None \<Rightarrow> False | Some f \<Rightarrow> \<not> webhook_filter_matches (hr_headers rq) body f)
          then (qs, Inr (200, JObj [(''ok'', JBool True), (''filtered'', JBool True)]))
          else (case create_run (ig_workflows ig) (webhook_run_request ig slug registered rq body) qs of
                  (qs', Inl e) \<Rightarrow> (qs', Inl (ApiWorkflow e))
                | (qs', Inr run) \<Rightarrow>
                    (qs', Inr (if cr_created run then 202 else 200, JObj
                      [(''ok'', JBool True), (''run_id'', JStr (cr_run_id run)), (''task_id'', JStr (cr_task_id run)),
                       (''workflow_name'', JStr (rw_workflow_name registered)), (''status'', JStr (cr_status run)),
                       (''idempotent'', JBool (\<not> cr_created run))]))))))"

section \<open>What a filter means\<close>

text \<open>
  The filters the registry accepts, as a grammar: a test of one value of the request, or all or one of several. A body
  value is named by its path, and \<open>test_holds\<close> is the meaning that the documentation of \<^verbatim>\<open>WebhookFilter\<close> gives it.
\<close>

datatype webhook_operand =
    IsEqual string
  | IsOneOf "string list"
  | Contains string
  | HasPrefix string

datatype webhook_test =
    OneOf "webhook_test list"
  | AllOf "webhook_test list"
  | HeaderTest string webhook_operand
  | BodyTest "string list" webhook_operand

definition trimmed :: "string \<Rightarrow> bool" where
  "trimmed s \<longleftrightarrow> s \<noteq> [] \<and> trim s = s"

fun wf_operand :: "webhook_operand \<Rightarrow> bool" where
  "wf_operand (IsEqual v) = trimmed v"
| "wf_operand (IsOneOf vs) = (vs \<noteq> [] \<and> list_all trimmed vs)"
| "wf_operand (Contains v) = trimmed v"
| "wf_operand (HasPrefix v) = trimmed v"

definition wf_body_path :: "string list \<Rightarrow> bool" where
  "wf_body_path path \<longleftrightarrow> path \<noteq> [] \<and> list_all (\<lambda>p. CHR ''.'' \<notin> set p \<and> trim p \<noteq> []) path \<and> trimmed (join_with ''.'' path)"

fun wf_test :: "webhook_test \<Rightarrow> bool" where
  "wf_test (OneOf ts) = (ts \<noteq> [] \<and> list_all wf_test ts)"
| "wf_test (AllOf ts) = (ts \<noteq> [] \<and> list_all wf_test ts)"
| "wf_test (HeaderTest name opd) = (trimmed name \<and> wf_operand opd)"
| "wf_test (BodyTest path opd) = (wf_body_path path \<and> wf_operand opd)"

fun operand_holds :: "webhook_operand \<Rightarrow> string \<Rightarrow> bool" where
  "operand_holds (IsEqual v) actual = (actual = v)"
| "operand_holds (IsOneOf vs) actual = (actual \<in> set vs)"
| "operand_holds (Contains v) actual = str_contains actual v"
| "operand_holds (HasPrefix v) actual = starts_with (trim_start actual) v"

definition holds_of :: "string option \<Rightarrow> webhook_operand \<Rightarrow> bool" where
  "holds_of actual opd = (case actual of None \<Rightarrow> False | Some a \<Rightarrow> operand_holds opd a)"

fun test_holds :: "headers \<Rightarrow> json \<Rightarrow> webhook_test \<Rightarrow> bool" where
  "test_holds headers body (OneOf ts) = list_ex (test_holds headers body) ts"
| "test_holds headers body (AllOf ts) = list_all (test_holds headers body) ts"
| "test_holds headers body (HeaderTest name opd) = holds_of (header_value headers name) opd"
| "test_holds headers body (BodyTest path opd) = holds_of (Option.bind (get_path path body) as_str) opd"

fun leaf_of :: "string \<Rightarrow> string \<Rightarrow> webhook_operand \<Rightarrow> WebhookFilter" where
  "leaf_of source key (IsEqual v) = WebhookFilter None None (Some source) (Some key) (Some ''equals'') (Some v) None"
| "leaf_of source key (IsOneOf vs) = WebhookFilter None None (Some source) (Some key) (Some ''in'') None (Some vs)"
| "leaf_of source key (Contains v) = WebhookFilter None None (Some source) (Some key) (Some ''contains'') (Some v) None"
| "leaf_of source key (HasPrefix v) = WebhookFilter None None (Some source) (Some key) (Some ''prefix'') (Some v) None"

fun filter_of_test :: "webhook_test \<Rightarrow> WebhookFilter" where
  "filter_of_test (OneOf ts) = WebhookFilter (Some (map filter_of_test ts)) None None None None None None"
| "filter_of_test (AllOf ts) = WebhookFilter None (Some (map filter_of_test ts)) None None None None None"
| "filter_of_test (HeaderTest name opd) = leaf_of ''header'' name opd"
| "filter_of_test (BodyTest path opd) = leaf_of ''body'' (join_with ''.'' path) opd"

lemma ok_or_Inr_iff [simp]: "ok_or e v = Inr a \<longleftrightarrow> v = Some a"
  by (cases v) (simp_all add: ok_or_def)

lemma ok_or_Some [simp]: "ok_or e (Some a) = Inr a"
  by (simp add: ok_or_def)

lemma ok_or_None [simp]: "ok_or e None = Inl e"
  by (simp add: ok_or_def)

lemma required_string_iff [simp]: "normalize_required_filter_string v = Some t \<longleftrightarrow> (\<exists>s. v = Some s \<and> t = trim s \<and> trim s \<noteq> [])"
  by (cases v) (auto simp: normalize_required_filter_string_def)

lemma trimmed_trim [simp]: "trimmed (trim s) \<longleftrightarrow> trim s \<noteq> []"
  by (simp add: trimmed_def)

lemma required_string_trimmed [simp]: "trimmed s \<Longrightarrow> normalize_required_filter_string (Some s) = Some s"
  by (simp add: trimmed_def)

subsection \<open>Evaluation\<close>

lemma leaf_of_matches:
  "webhook_filter_matches headers body (leaf_of source key opd) = holds_of (leaf_actual headers body (Some source) (Some key)) opd"
  by (cases opd) (auto simp: holds_of_def leaf_matches_def split: option.splits)

lemma body_path_split: "wf_body_path path \<Longrightarrow> split_on CHR ''.'' (join_with ''.'' path) = path"
  by (rule split_on_join) (auto simp: wf_body_path_def list_all_iff)

lemma filter_of_test_matches: "wf_test t \<Longrightarrow> webhook_filter_matches headers body (filter_of_test t) = test_holds headers body t"
proof (induction t)
  case (OneOf ts)
  then show ?case by (auto simp: list_ex_iff list_all_iff)
next
  case (AllOf ts)
  then show ?case by (auto simp: list_all_iff)
next
  case (HeaderTest name opd)
  then show ?case by (simp add: leaf_of_matches leaf_actual_def)
next
  case (BodyTest path opd)
  then show ?case by (simp add: leaf_of_matches leaf_actual_def webhook_body_path_def body_path_split)
qed

subsection \<open>The image of the normaliser\<close>

lemma normalize_operand_sound:
  assumes "normalize_leaf_operand invalid op val vals = Inr (v, vs)"
  obtains opd where "wf_operand opd" "\<And>source key. WebhookFilter None None (Some source) (Some key) (Some op) v vs = leaf_of source key opd"
proof -
  consider "op = ''equals''" | "op = ''contains''" | "op = ''prefix''" | "op = ''in''"
    using assms by (auto simp: normalize_leaf_operand_def split: if_splits)
  then show thesis
  proof cases
    case 1
    with assms obtain s where "val = Some s" "v = Some (trim s)" "trim s \<noteq> []" "vs = None"
      by (auto simp: normalize_leaf_operand_def split: if_splits)
    with 1 show thesis by (intro that [of "IsEqual (trim s)"]) simp_all
  next
    case 2
    with assms obtain s where "val = Some s" "v = Some (trim s)" "trim s \<noteq> []" "vs = None"
      by (auto simp: normalize_leaf_operand_def split: if_splits)
    with 2 show thesis by (intro that [of "Contains (trim s)"]) simp_all
  next
    case 3
    with assms obtain s where "val = Some s" "v = Some (trim s)" "trim s \<noteq> []" "vs = None"
      by (auto simp: normalize_leaf_operand_def split: if_splits)
    with 3 show thesis by (intro that [of "HasPrefix (trim s)"]) simp_all
  next
    case 4
    with assms obtain ws where "vals = Some ws" "vs = Some (map trim ws)" "map trim ws \<noteq> []" "[] \<notin> set (map trim ws)" "v = None"
      by (auto simp: normalize_leaf_operand_def Let_def split: if_splits option.splits)
    with 4 show thesis by (intro that [of "IsOneOf (map trim ws)"]) (auto simp: list_all_iff image_iff)
  qed
qed

lemma normalize_leaf_sound:
  assumes "normalize_leaf invalid source key op val vals = Inr f"
  shows "\<exists>t. wf_test t \<and> f = filter_of_test t"
proof -
  obtain s k p where given: "source = Some s" "key = Some k" "op = Some p" "trim s \<noteq> []" "trim k \<noteq> []" "trim p \<noteq> []"
    using assms by (auto simp: normalize_leaf_def)
  have sk: "to_ascii_lowercase (trim s) \<in> {''header'', ''body''}"
      "to_ascii_lowercase (trim s) = ''body'' \<longrightarrow> (\<forall>part \<in> set (split_on CHR ''.'' (trim k)). trim part \<noteq> [])"
    and "res_map (\<lambda>(v, vs). WebhookFilter None None (Some (to_ascii_lowercase (trim s))) (Some (trim k)) (Some (to_ascii_lowercase (trim p))) v vs)
      (normalize_leaf_operand invalid (to_ascii_lowercase (trim p)) val vals) = Inr f"
    using assms given by (auto simp: normalize_leaf_def Let_def split: if_splits)
  then obtain opd where "wf_operand opd" and f: "f = leaf_of (to_ascii_lowercase (trim s)) (trim k) opd"
    by (auto elim: normalize_operand_sound)
  show ?thesis
  proof (cases "to_ascii_lowercase (trim s) = ''body''")
    case True
    have "wf_body_path (split_on CHR ''.'' (trim k))"
      using sk given True by (auto simp: wf_body_path_def list_all_iff join_split_on dest: split_on_parts)
    with \<open>wf_operand opd\<close> f True show ?thesis
      by (intro exI [of _ "BodyTest (split_on CHR ''.'' (trim k)) opd"]) (simp add: join_split_on)
  next
    case False
    with sk given \<open>wf_operand opd\<close> f show ?thesis by (intro exI [of _ "HeaderTest (trim k) opd"]) simp
  qed
qed

lemma normalize_sound:
  "normalize_webhook_filter_node dbg slug f path = Inr f' \<Longrightarrow> \<exists>t. wf_test t \<and> f' = filter_of_test t"
  "normalize_children dbg slug fs path name i = Inr fs' \<Longrightarrow> \<exists>ts. list_all wf_test ts \<and> fs' = map filter_of_test ts \<and> length ts = length fs"
proof (induction dbg slug f path and dbg slug fs path name i arbitrary: f' and fs' rule: normalize_webhook_filter_node_normalize_children.induct)
  case (1 dbg slug any all source key op val vals path)
  show ?case
  proof (cases any)
    case (Some children)
    with 1(3) have rest: "all = None" "\<not> has_leaf source key op val vals" "children \<noteq> []"
      by (auto simp: exactly_one_def split: if_splits)
    with 1(3) Some obtain cs where cs: "normalize_children dbg slug children path ''any'' 0 = Inr cs"
        "f' = WebhookFilter (Some cs) all source key op val vals" by (auto split: if_splits)
    with 1 Some rest obtain ts where "list_all wf_test ts" "cs = map filter_of_test ts" "length ts = length children"
      by (auto split: if_splits)
    with cs rest show ?thesis by (intro exI [of _ "OneOf ts"]) (auto simp: has_leaf_def)
  next
    case None
    show ?thesis
    proof (cases all)
      case (Some children)
      with None 1(3) have rest: "\<not> has_leaf source key op val vals" "children \<noteq> []"
        by (auto simp: exactly_one_def split: if_splits)
      with 1(3) None Some obtain cs where cs: "normalize_children dbg slug children path ''all'' 0 = Inr cs"
          "f' = WebhookFilter any (Some cs) source key op val vals" by (auto split: if_splits)
      with 1 None Some rest obtain ts where "list_all wf_test ts" "cs = map filter_of_test ts" "length ts = length children"
        by (auto split: if_splits)
      with cs rest None show ?thesis by (intro exI [of _ "AllOf ts"]) (auto simp: has_leaf_def)
    next
      case None
      with \<open>any = None\<close> 1(3) show ?thesis by (auto split: if_splits dest: normalize_leaf_sound)
    qed
  qed
next
  case (3 dbg slug child rest path name i)
  then obtain c cs t where "normalize_children dbg slug rest path name (Suc i) = Inr cs" "fs' = c # cs" "wf_test t" "c = filter_of_test t"
    by fastforce
  moreover with 3 obtain ts where "list_all wf_test ts" "cs = map filter_of_test ts" "length ts = length rest" by fastforce
  ultimately show ?case by (intro exI [of _ "t # ts"]) simp
qed simp

lemma keyword_fixed [simp]:
  "trim ''header'' = ''header''" "trim ''body'' = ''body''" "trim ''equals'' = ''equals''" "trim ''in'' = ''in''"
  "trim ''contains'' = ''contains''" "trim ''prefix'' = ''prefix''"
  "to_ascii_lowercase ''header'' = ''header''" "to_ascii_lowercase ''body'' = ''body''" "to_ascii_lowercase ''equals'' = ''equals''"
  "to_ascii_lowercase ''in'' = ''in''" "to_ascii_lowercase ''contains'' = ''contains''" "to_ascii_lowercase ''prefix'' = ''prefix''"
  by code_simp+

lemma trimmed_list_fixed: "list_all trimmed vs \<Longrightarrow> map trim vs = vs \<and> [] \<notin> set vs"
  by (induction vs) (auto simp: trimmed_def)

lemma normalize_leaf_of:
  assumes "wf_operand opd" and "trimmed key" and "source = ''header'' \<or> source = ''body'' \<and> (\<forall>part \<in> set (split_on CHR ''.'' key). trim part \<noteq> [])"
  shows "normalize_webhook_filter_node dbg slug (leaf_of source key opd) path = Inr (leaf_of source key opd)"
proof -
  have "trim key = key" "key \<noteq> []" using assms(2) by (simp_all add: trimmed_def)
  with assms show ?thesis
    by (cases opd) (auto simp: exactly_one_def has_leaf_def normalize_leaf_def normalize_leaf_operand_def normalize_required_filter_string_def
      trimmed_def dest: trimmed_list_fixed)
qed

lemma normalize_children_fixed:
  "(\<And>f path. f \<in> set fs \<Longrightarrow> normalize_webhook_filter_node dbg slug f path = Inr f) \<Longrightarrow> normalize_children dbg slug fs path name i = Inr fs"
  by (induction fs arbitrary: i) simp_all

lemma normalize_fixed: "wf_test t \<Longrightarrow> normalize_webhook_filter_node dbg slug (filter_of_test t) path = Inr (filter_of_test t)"
proof (induction t arbitrary: path)
  case (OneOf ts)
  then show ?case by (auto simp: exactly_one_def has_leaf_def list_all_iff intro!: normalize_children_fixed)
next
  case (AllOf ts)
  then show ?case by (auto simp: exactly_one_def has_leaf_def list_all_iff intro!: normalize_children_fixed)
next
  case (HeaderTest name opd)
  then show ?case by (simp add: normalize_leaf_of)
next
  case (BodyTest ps opd)
  then show ?case by (auto simp: body_path_split wf_body_path_def list_all_iff intro!: normalize_leaf_of)
qed

text \<open>
  C25. What the registry keeps of a filter is a test with a meaning of its own: a filter can come out of
  \<^verbatim>\<open>normalize_webhook_filter\<close> exactly when it is the encoding of a well-formed test (no empty combination, no blank
  operand, body paths without blank parts); normalising it again changes nothing; and \<^verbatim>\<open>webhook_filter_matches\<close> evaluates
  it as the test says, with the dotted key read as a path into the body.
\<close>

theorem filter_refines_test:
  "(\<exists>f. normalize_webhook_filter dbg slug f = Inr f') \<longleftrightarrow>
   (\<exists>t. wf_test t \<and> f' = filter_of_test t \<and> normalize_webhook_filter dbg slug f' = Inr f' \<and>
        (\<forall>headers body. webhook_filter_matches headers body f' = test_holds headers body t))"
proof
  assume "\<exists>f. normalize_webhook_filter dbg slug f = Inr f'"
  then obtain t where "wf_test t" "f' = filter_of_test t"
    by (auto simp: normalize_webhook_filter_def dest: normalize_sound(1))
  then show "\<exists>t. wf_test t \<and> f' = filter_of_test t \<and> normalize_webhook_filter dbg slug f' = Inr f' \<and>
        (\<forall>headers body. webhook_filter_matches headers body f' = test_holds headers body t)"
    by (auto simp: normalize_webhook_filter_def normalize_fixed filter_of_test_matches)
qed blast

section \<open>Registered webhooks\<close>

definition wf_auth :: "WorkflowWebhookAuth \<Rightarrow> bool" where
  "wf_auth auth \<longleftrightarrow>
     (case auth of AuthNone \<Rightarrow> True
      | AuthHmac secret_ref signature_header algorithm _ encoding \<Rightarrow>
          trim secret_ref \<noteq> [] \<and> trim signature_header \<noteq> [] \<and> algorithm = ''sha256'' \<and> encoding \<in> {''hex'', ''base64''}
      | AuthGithub secret_ref \<Rightarrow> trim secret_ref \<noteq> [] | AuthStandardWebhooks secret_ref \<Rightarrow> trim secret_ref \<noteq> []
      | AuthBearer secret_ref \<Rightarrow> trim secret_ref \<noteq> [])"

text \<open>What a registered webhook is, whatever the declarations were.\<close>

definition wf_webhook :: "RegisteredWorkflowWebhook \<Rightarrow> bool" where
  "wf_webhook w \<longleftrightarrow>
     trim (rw_workflow_name w) \<noteq> [] \<and> valid_webhook_slug (wh_slug (rw_spec w)) \<and> wf_auth (wh_auth (rw_spec w)) \<and>
     wh_allowed_methods (rw_spec w) \<noteq> [] \<and>
     list_all (\<lambda>m. m \<noteq> [] \<and> to_ascii_uppercase m = m) (wh_allowed_methods (rw_spec w)) \<and>
     wh_allowed_content_types (rw_spec w) \<noteq> [] \<and>
     list_all (\<lambda>t. to_ascii_lowercase t = t) (wh_allowed_content_types (rw_spec w)) \<and>
     (case wh_filter (rw_spec w) of None \<Rightarrow> True | Some f \<Rightarrow> \<exists>t. wf_test t \<and> f = filter_of_test t)"

definition wf_registry :: "WorkflowEnablement \<Rightarrow> webhook_registry \<Rightarrow> bool" where
  "wf_registry en reg \<longleftrightarrow>
     sorted_keys reg \<and>
     (\<forall>slug w. map_of reg slug = Some w \<longrightarrow> slug = wh_slug (rw_spec w) \<and> wf_webhook w \<and> is_enabled en (rw_workflow_name w))"

lemma ascii_case_idem [simp]:
  "to_ascii_lowercase (to_ascii_lowercase s) = to_ascii_lowercase s" "to_ascii_uppercase (to_ascii_uppercase s) = to_ascii_uppercase s"
  by (auto simp: to_ascii_lowercase_def to_ascii_uppercase_def ascii_lower_char_def ascii_upper_char_def Let_def)

lemma check_auth_sound: "check_webhook_auth dbg slug auth = Inr () \<Longrightarrow> wf_auth auth"
  by (cases auth) (auto simp: check_webhook_auth_def wf_auth_def Let_def split: if_splits)

lemma normalized_filter:
  "(case wh_filter spec of None \<Rightarrow> Inr None | Some f \<Rightarrow> res_map Some (normalize_webhook_filter dbg slug f)) = Inr f' \<Longrightarrow>
   case f' of None \<Rightarrow> True | Some f \<Rightarrow> \<exists>t. wf_test t \<and> f = filter_of_test t"
  by (auto simp: normalize_webhook_filter_def split: option.splits dest: normalize_sound(1))

lemma normalize_webhook_sound:
  assumes "normalize_webhook dbg w = Inr w'"
  shows "wf_webhook w'" "rw_workflow_name w' = rw_workflow_name w" "wh_slug (rw_spec w') = wh_slug (rw_spec w)"
proof -
  obtain f where "check_webhook_auth dbg (wh_slug (rw_spec w)) (wh_auth (rw_spec w)) = Inr ()"
    and f: "(case wh_filter (rw_spec w) of None \<Rightarrow> Inr None | Some f \<Rightarrow> res_map Some (normalize_webhook_filter dbg (wh_slug (rw_spec w)) f)) = Inr f"
    and w': "w' = w\<lparr>rw_spec := (rw_spec w)\<lparr>wh_allowed_methods := map (\<lambda>m. to_ascii_uppercase (trim m)) (wh_allowed_methods (rw_spec w)),
        wh_allowed_content_types := map (\<lambda>t. to_ascii_lowercase (trim t)) (wh_allowed_content_types (rw_spec w)), wh_filter := f\<rparr>\<rparr>"
    using assms by (auto simp: normalize_webhook_def Let_def split: if_splits)
  then have "wf_auth (wh_auth (rw_spec w))" by (simp add: check_auth_sound)
  with assms normalized_filter [OF f] w' show "wf_webhook w'"
    by (auto simp: wf_webhook_def normalize_webhook_def Let_def list_all_iff split: if_splits)
  show "rw_workflow_name w' = rw_workflow_name w" "wh_slug (rw_spec w') = wh_slug (rw_spec w)" using w' by simp_all
qed

subsection \<open>Which declaration of a slug counts\<close>

definition normalized :: "(string \<Rightarrow> string) \<Rightarrow> RegisteredWorkflowWebhook \<Rightarrow> RegisteredWorkflowWebhook option" where
  "normalized dbg w = (case normalize_webhook dbg w of Inl _ \<Rightarrow> None | Inr w' \<Rightarrow> Some w')"

definition declared_webhook ::
  "(string \<Rightarrow> string) \<Rightarrow> WorkflowEnablement \<Rightarrow> RegisteredWorkflowWebhook list \<Rightarrow> string \<Rightarrow> RegisteredWorkflowWebhook option" where
  "declared_webhook dbg en ws slug =
     Option.bind (find (\<lambda>w. is_enabled en (rw_workflow_name w) \<and> wh_slug (rw_spec w) = slug) ws) (normalized dbg)"

lemma declared_webhook_Nil [simp]: "declared_webhook dbg en [] slug = None"
  by (simp add: declared_webhook_def)

lemma declared_webhook_Cons:
  "declared_webhook dbg en (w # ws) slug =
     (if is_enabled en (rw_workflow_name w) \<and> wh_slug (rw_spec w) = slug then normalized dbg w else declared_webhook dbg en ws slug)"
  by (simp add: declared_webhook_def)

lemma insert_wf:
  "wf_registry en reg \<Longrightarrow> normalize_webhook dbg w = Inr w' \<Longrightarrow> is_enabled en (rw_workflow_name w) \<Longrightarrow>
   wf_registry en (btree_insert (wh_slug (rw_spec w)) w' reg)"
  by (auto simp: wf_registry_def sorted_keys_insert normalize_webhook_sound split: if_splits)

lemma insert_webhook_iff:
  "insert_webhook dbg w reg = Inr reg' \<longleftrightarrow>
     (\<exists>w'. normalize_webhook dbg w = Inr w' \<and> map_of reg (wh_slug (rw_spec w)) = None \<and> reg' = btree_insert (wh_slug (rw_spec w)) w' reg)"
    (is ?insert)
  and insert_if_absent_iff:
  "insert_webhook_if_absent dbg w reg = Inr reg' \<longleftrightarrow>
     (\<exists>w'. normalize_webhook dbg w = Inr w' \<and>
        reg' = (if map_of reg (wh_slug (rw_spec w)) \<noteq> None then reg else btree_insert (wh_slug (rw_spec w)) w' reg))" (is ?if_absent)
  and insert_replace_iff:
  "insert_webhook_replace dbg w reg = Inr reg' \<longleftrightarrow>
     (\<exists>w'. normalize_webhook dbg w = Inr w' \<and> reg' = btree_insert (wh_slug (rw_spec w)) w' reg)" (is ?replace)
proof -
  have "?insert \<and> ?if_absent \<and> ?replace"
  proof (cases "normalize_webhook dbg w")
    case (Inr w')
    then have "wh_slug (rw_spec w') = wh_slug (rw_spec w)" by (rule normalize_webhook_sound)
    with Inr show ?thesis
      by (simp add: insert_webhook_def insert_webhook_if_absent_def insert_webhook_replace_def Let_def eq_commute [of reg'])
  qed (simp add: insert_webhook_def insert_webhook_if_absent_def insert_webhook_replace_def)
  then show ?insert ?if_absent ?replace by blast+
qed

lemma insert_enabled_insert:
  "insert_enabled (insert_webhook dbg) en ws reg = Inr reg' \<Longrightarrow> wf_registry en reg \<Longrightarrow>
   wf_registry en reg' \<and> map_of reg' slug = or_else (map_of reg slug) (declared_webhook dbg en ws slug)"
proof (induction ws arbitrary: reg)
  case (Cons w ws)
  show ?case
  proof (cases "is_enabled en (rw_workflow_name w)")
    case True
    with Cons.prems(1) obtain w' where w': "normalize_webhook dbg w = Inr w'" "map_of reg (wh_slug (rw_spec w)) = None"
        "insert_enabled (insert_webhook dbg) en ws (btree_insert (wh_slug (rw_spec w)) w' reg) = Inr reg'"
      by (auto simp: insert_webhook_iff)
    from Cons.IH [OF w'(3) insert_wf [OF Cons.prems(2) w'(1) True]] w' True show ?thesis
      by (auto simp: declared_webhook_Cons normalized_def or_else_def split: option.splits if_splits)
  qed (use Cons in \<open>auto simp: declared_webhook_Cons\<close>)
qed (simp add: or_else_def split: option.split)

lemma insert_enabled_if_absent:
  "insert_enabled (insert_webhook_if_absent dbg) en ws reg = Inr reg' \<Longrightarrow> wf_registry en reg \<Longrightarrow>
   wf_registry en reg' \<and> map_of reg' slug = or_else (map_of reg slug) (declared_webhook dbg en ws slug)"
proof (induction ws arbitrary: reg)
  case (Cons w ws)
  show ?case
  proof (cases "is_enabled en (rw_workflow_name w)")
    case True
    with Cons.prems(1) obtain w' where w': "normalize_webhook dbg w = Inr w'"
        "insert_enabled (insert_webhook_if_absent dbg) en ws
           (if map_of reg (wh_slug (rw_spec w)) \<noteq> None then reg else btree_insert (wh_slug (rw_spec w)) w' reg) = Inr reg'"
      by (auto simp: insert_if_absent_iff)
    have "wf_registry en (if map_of reg (wh_slug (rw_spec w)) \<noteq> None then reg else btree_insert (wh_slug (rw_spec w)) w' reg)"
      using insert_wf [OF Cons.prems(2) w'(1) True] Cons.prems(2) by simp
    from Cons.IH [OF w'(2) this] w'(1) True show ?thesis
      by (auto simp: declared_webhook_Cons normalized_def or_else_def split: option.splits if_splits)
  qed (use Cons in \<open>auto simp: declared_webhook_Cons\<close>)
qed (simp add: or_else_def split: option.split)

lemma declared_webhook_append:
  "\<forall>w \<in> set ws. is_enabled en (rw_workflow_name w) \<longrightarrow> normalized dbg w \<noteq> None \<Longrightarrow>
   declared_webhook dbg en (ws @ us) slug = or_else (declared_webhook dbg en ws slug) (declared_webhook dbg en us slug)"
  by (induction ws) (auto simp: declared_webhook_Cons or_else_def split: option.splits)

lemma insert_enabled_replace_normal:
  "insert_enabled (insert_webhook_replace dbg) en ws reg = Inr reg' \<Longrightarrow>
   \<forall>w \<in> set ws. is_enabled en (rw_workflow_name w) \<longrightarrow> normalized dbg w \<noteq> None"
  by (induction ws arbitrary: reg) (auto simp: insert_replace_iff normalized_def split: if_splits)

lemma insert_enabled_replace:
  "insert_enabled (insert_webhook_replace dbg) en ws reg = Inr reg' \<Longrightarrow> wf_registry en reg \<Longrightarrow>
   wf_registry en reg' \<and> map_of reg' slug = or_else (declared_webhook dbg en (rev ws) slug) (map_of reg slug)"
proof (induction ws arbitrary: reg)
  case (Cons w ws)
  show ?case
  proof (cases "is_enabled en (rw_workflow_name w)")
    case True
    with Cons.prems(1) obtain w' where w': "normalize_webhook dbg w = Inr w'"
        "insert_enabled (insert_webhook_replace dbg) en ws (btree_insert (wh_slug (rw_spec w)) w' reg) = Inr reg'"
      by (auto simp: insert_replace_iff)
    have "declared_webhook dbg en (rev (w # ws)) slug = or_else (declared_webhook dbg en (rev ws) slug) (declared_webhook dbg en [w] slug)"
      using insert_enabled_replace_normal [OF w'(2)] by (simp add: declared_webhook_append)
    with Cons.IH [OF w'(2) insert_wf [OF Cons.prems(2) w'(1) True]] w'(1) True show ?thesis
      by (auto simp: declared_webhook_Cons normalized_def or_else_def split: option.splits if_splits)
  next
    case False
    with Cons show ?thesis
      using insert_enabled_replace_normal [of dbg en ws reg reg']
      by (auto simp: declared_webhook_append declared_webhook_Cons or_else_def split: option.splits)
  qed
qed (simp add: or_else_def)

definition configured_webhooks :: "environment \<Rightarrow> (string \<Rightarrow> string + RegisteredWorkflowWebhook list) \<Rightarrow> RegisteredWorkflowWebhook list" where
  "configured_webhooks env parse =
     (case env ''WORKFLOW_WEBHOOKS_JSON'' of None \<Rightarrow> []
      | Some raw \<Rightarrow> if trim raw = [] then [] else (case parse (trim raw) of Inl _ \<Rightarrow> [] | Inr ws \<Rightarrow> ws))"

lemma registry_built:
  assumes "build_webhook_registry dbg env parse discovery en = Inr reg"
  shows "wf_registry en reg \<and> map_of reg slug = or_else (declared_webhook dbg en (rev (configured_webhooks env parse)) slug)
    (or_else (declared_webhook dbg en (pm_webhooks discovery) slug) (declared_webhook dbg en default_workflow_webhooks slug))"
proof -
  obtain r1 r2 where r1: "insert_enabled (insert_webhook dbg) en (pm_webhooks discovery) [] = Inr r1"
    and r2: "insert_enabled (insert_webhook_if_absent dbg) en default_workflow_webhooks r1 = Inr r2"
    and rest: "(case env ''WORKFLOW_WEBHOOKS_JSON'' of None \<Rightarrow> Inr r2
       | Some raw \<Rightarrow> if trim raw = [] then Inr r2
           else (case parse (trim raw) of Inl e \<Rightarrow> Inl (WfJson e) | Inr webhooks \<Rightarrow> insert_enabled (insert_webhook_replace dbg) en webhooks r2)) =
       Inr reg"
    using assms unfolding build_webhook_registry_def res_bind_Inr_iff by blast
  have r3: "insert_enabled (insert_webhook_replace dbg) en (configured_webhooks env parse) r2 = Inr reg"
    using rest by (auto simp: configured_webhooks_def split: option.splits if_splits sum.splits)
  have "wf_registry en []" by (simp add: wf_registry_def sorted_keys_def)
  note one = insert_enabled_insert [OF r1 this, of slug]
  note two = insert_enabled_if_absent [OF r2 conjunct1 [OF one], of slug]
  show ?thesis using one two insert_enabled_replace [OF r3 conjunct1 [OF two], of slug] by (simp add: or_else_def)
qed

text \<open>
  C26. A registry of webhooks that is built is well formed, whatever was declared: sorted by slug, every webhook under its own
  valid slug, for an enabled workflow, with upper-case methods, lower-case content types, an authentication that names its
  secret and a filter that encodes a test. Which declaration of a slug counts is fixed: the last one configured in
  \<^verbatim>\<open>WORKFLOW_WEBHOOKS_JSON\<close>, else the one discovered in a workflow file, else the default.
\<close>

theorem webhook_registry_well_formed:
  "case build_webhook_registry dbg env parse discovery en of
     Inl e \<Rightarrow> True
   | Inr reg \<Rightarrow>
       wf_registry en reg \<and>
       map_of reg slug = or_else (declared_webhook dbg en (rev (configured_webhooks env parse)) slug)
         (or_else (declared_webhook dbg en (pm_webhooks discovery) slug) (declared_webhook dbg en default_workflow_webhooks slug))"
  using registry_built by (simp split: sum.split)

section \<open>Requests to a webhook\<close>

text \<open>What the kinds of authentication ask of a request.\<close>

definition signed_body :: "ingress_env \<Rightarrow> string \<Rightarrow> string \<Rightarrow> string \<Rightarrow> string \<Rightarrow> webhook_request \<Rightarrow> bool" where
  "signed_body ig signature_header signature_prefix encoding secret_ref rq \<longleftrightarrow>
     (\<exists>signature encoded secret. header_value (hr_headers rq) signature_header = Some signature \<and> trim signature = signature_prefix @ encoded \<and>
        ig_env ig secret_ref = Some secret \<and>
        (if encoding = ''base64'' then ig_base64 ig else ig_hex ig) encoded = Some (ig_hmac ig secret (hr_body rq)))"

fun authentic :: "ingress_env \<Rightarrow> WorkflowWebhookAuth \<Rightarrow> webhook_request \<Rightarrow> bool" where
  "authentic ig AuthNone rq = True"
| "authentic ig (AuthBearer secret_ref) rq =
     (\<exists>secret v. ig_env ig secret_ref = Some secret \<and> header_value (hr_headers rq) ''Authorization'' = Some v \<and>
        trim (case or_else (strip_prefix ''Bearer '' v) (strip_prefix ''bearer '' v) of Some t \<Rightarrow> t | None \<Rightarrow> v) = trim secret)"
| "authentic ig (AuthGithub secret_ref) rq = signed_body ig ''X-Hub-Signature-256'' ''sha256='' ''hex'' secret_ref rq"
| "authentic ig (AuthStandardWebhooks secret_ref) rq =
     (\<exists>secret verify. ig_env ig secret_ref = Some secret \<and> trim secret \<notin> {[], ''whsec_''} \<and> ig_standard ig (trim secret) = Some verify \<and>
        verify (hr_body rq) (hr_headers rq))"
| "authentic ig (AuthHmac secret_ref signature_header _ signature_prefix encoding) rq =
     signed_body ig signature_header signature_prefix encoding secret_ref rq"

lemma hmac_verified:
  "verify_hmac_signature ig signature_header signature_prefix encoding secret_ref (hr_headers rq) (hr_body rq) = Inr () \<longleftrightarrow>
   signed_body ig signature_header signature_prefix encoding secret_ref rq"
  by (auto simp: Let_def verify_hmac_signature_def signed_body_def configured_secret_def strip_prefix_Some split: if_splits)

lemma standard_verified:
  "verify_standard_webhook_signature ig secret_ref (hr_headers rq) (hr_body rq) = Inr () \<longleftrightarrow> authentic ig (AuthStandardWebhooks secret_ref) rq"
proof -
  have "(case strip_prefix ''whsec_'' s of Some e \<Rightarrow> e | None \<Rightarrow> s) = [] \<longleftrightarrow> s \<in> {[], ''whsec_''}" for s
    by (auto simp: strip_prefix_Some split: option.splits) (simp add: strip_prefix_def starts_with_def)
  then show ?thesis by (auto simp: verify_standard_webhook_signature_def configured_secret_def Let_def split: if_splits)
qed

lemma verified_iff_authentic:
  "verify_webhook_auth ig spec (hr_headers rq) (hr_body rq) = Inr () \<longleftrightarrow> authentic ig (wh_auth spec) rq"
  by (cases "wh_auth spec")
    (auto simp: verify_webhook_auth_def hmac_verified standard_verified verify_bearer_def configured_secret_def Let_def simp del: authentic.simps(4))

definition request_admitted :: "ingress_env \<Rightarrow> WorkflowWebhookSpec \<Rightarrow> webhook_request \<Rightarrow> bool" where
  "request_admitted ig spec rq \<longleftrightarrow>
     to_ascii_uppercase (hr_method rq) \<in> set (wh_allowed_methods spec) \<and>
     content_type (hr_headers rq) \<in> insert [] (set (wh_allowed_content_types spec)) \<and>
     length (hr_body rq) \<le> 1048576 \<and> authentic ig (wh_auth spec) rq"

lemma admit_webhook_iff: "admit_webhook ig spec rq = Inr () \<longleftrightarrow> request_admitted ig spec rq"
  by (auto simp: admit_webhook_def request_admitted_def MAX_WEBHOOK_BODY_BYTES_def verified_iff_authentic split: if_splits)

definition passes_filter :: "WorkflowWebhookSpec \<Rightarrow> headers \<Rightarrow> json \<Rightarrow> bool" where
  "passes_filter spec headers body \<longleftrightarrow> (case wh_filter spec of None \<Rightarrow> True | Some f \<Rightarrow> webhook_filter_matches headers body f)"

lemma invoke_cases:
  obtains (unchanged) "fst (invoke_workflow_webhook ig (Some reg) slug rq qs) = qs" and
      "case snd (invoke_workflow_webhook ig (Some reg) slug rq qs) of Inl _ \<Rightarrow> True | Inr (_, reply) \<Rightarrow> get_key ''task_id'' reply = None"
  | (run) w body where "map_of reg slug = Some w" "request_admitted ig (rw_spec w) rq" "parse_webhook_body ig (hr_headers rq) (hr_body rq) = Inr body"
      "passes_filter (rw_spec w) (hr_headers rq) body"
      "invoke_workflow_webhook ig (Some reg) slug rq qs =
         (fst (create_run (ig_workflows ig) (webhook_run_request ig slug w rq body) qs),
          case snd (create_run (ig_workflows ig) (webhook_run_request ig slug w rq body) qs) of
            Inl e \<Rightarrow> Inl (ApiWorkflow e)
          | Inr run \<Rightarrow> Inr (if cr_created run then 202 else 200, JObj
              [(''ok'', JBool True), (''run_id'', JStr (cr_run_id run)), (''task_id'', JStr (cr_task_id run)),
               (''workflow_name'', JStr (rw_workflow_name w)), (''status'', JStr (cr_status run)), (''idempotent'', JBool (\<not> cr_created run))]))"
proof (cases "map_of reg slug")
  case None
  then show thesis by (intro unchanged) (simp_all add: invoke_workflow_webhook_def)
next
  case (Some w)
  show thesis
  proof (cases "res_bind (admit_webhook ig (rw_spec w) rq) (\<lambda>_. parse_webhook_body ig (hr_headers rq) (hr_body rq))")
    case (Inl e)
    with Some show thesis by (intro unchanged) (simp_all add: invoke_workflow_webhook_def)
  next
    case (Inr body)
    then have body: "request_admitted ig (rw_spec w) rq" "parse_webhook_body ig (hr_headers rq) (hr_body rq) = Inr body"
      by (auto simp: admit_webhook_iff)
    show thesis
    proof (cases "passes_filter (rw_spec w) (hr_headers rq) body")
      case True
      with Some Inr body show thesis
        by (intro run) (auto simp: invoke_workflow_webhook_def passes_filter_def split: option.splits prod.splits sum.splits)
    next
      case False
      with Some Inr show thesis
        by (intro unchanged) (auto simp: invoke_workflow_webhook_def passes_filter_def split: option.splits)
    qed
  qed
qed

subsection \<open>What a run is told of its request\<close>

lemma safe_headers_keys:
  "fst ` set (fold (\<lambda>(name, v) m. if secret_header spec (to_ascii_lowercase name) \<or> \<not> visible_ascii v then m
     else json_insert (to_ascii_lowercase name) (JStr v) m) headers kvs) \<inter> {name. secret_header spec name} =
   fst ` set kvs \<inter> {name. secret_header spec name}"
proof (induction headers arbitrary: kvs)
  case (Cons h headers)
  have keys: "fst ` set (json_insert k v kvs) = insert k (fst ` set kvs)" for k v kvs
    by (induction k v kvs rule: json_insert.induct) auto
  show ?case by (cases h) (auto simp: Cons.IH keys)
qed simp

lemma create_run_effect:
  obtains "fst (create_run wv rq qs) = qs"
  | params en where "enablement_from_env (wv_debug wv) (wv_env wv) = Inr en" "is_enabled en (trim (cw_workflow_name rq))"
      "fst (create_run wv rq qs) = qs(request_queue rq :=
         fst (spawn_task (wv_now wv) (wv_ids wv) WORKFLOW_TASK params (request_options rq) (qs (request_queue rq))))"
      "get_str ''workflow_name'' params = Some (trim (cw_workflow_name rq))" "get_key ''input'' params = Some (cw_input rq)"
proof (cases "trim (cw_workflow_name rq) = [] \<or> (\<nexists>u. request_enabled wv rq = Inr u)")
  case True
  then have "fst (create_run wv rq qs) = qs"
    by (auto simp: create_run_def create_button_run_def request_enabled_def Let_def split: sum.splits)
  then show thesis by (rule that)
next
  case False
  then obtain en where en: "enablement_from_env (wv_debug wv) (wv_env wv) = Inr en" "ensure_enabled (wv_debug wv) en (trim (cw_workflow_name rq)) = Inr ()"
    by (auto simp: request_enabled_def)
  show thesis
    by (rule that(2) [OF en(1), where params = "workflow_task_input (trim (cw_workflow_name rq)) (cw_input rq)
          (case cw_harness_type rq of None \<Rightarrow> wv_default_harness wv | Some h \<Rightarrow> h) None"])
      (use en False in \<open>auto simp: ensure_enabled_def create_run_def create_button_run_def client_spawn_def Let_def request_options_def
         workflow_task_input_def get_str_def split: if_splits sum.splits prod.splits option.splits\<close>)
qed

text \<open>
  C21. A webhook starts a run only for a request that is entitled to one: whatever the request, either the queues of workflow
  tasks are as before, or its slug is registered, method, content type and size are allowed, the request is authenticated the
  way the webhook asks (the configured token, a signature of this very body), the filter holds and the workflow is enabled.
  Then exactly one spawn is made, for the registered workflow, and what the run is told of the request is its body and headers
  that include none of the credential or signature headers.
\<close>

theorem webhook_starts_admitted_runs:
  "case invoke_workflow_webhook ig (Some reg) slug rq qs of (qs', answer) \<Rightarrow>
     qs' = qs \<or>
     (\<exists>w body en params options hs.
        map_of reg slug = Some w \<and> request_admitted ig (rw_spec w) rq \<and>
        parse_webhook_body ig (hr_headers rq) (hr_body rq) = Inr body \<and> passes_filter (rw_spec w) (hr_headers rq) body \<and>
        enablement_from_env (wv_debug (ig_workflows ig)) (ig_env ig) = Inr en \<and> is_enabled en (trim (rw_workflow_name w)) \<and>
        (let queue = queue_name_for_class (workflow_queue_class (trim (rw_workflow_name w))) in
           qs' = qs(queue := fst (spawn_task (wv_now (ig_workflows ig)) (wv_ids (ig_workflows ig)) WORKFLOW_TASK params options (qs queue)))) \<and>
        get_str ''workflow_name'' params = Some (trim (rw_workflow_name w)) \<and>
        get_path [''input'', ''webhook'', ''body''] params = Some body \<and>
        get_path [''input'', ''webhook'', ''headers''] params = Some (JObj hs) \<and>
        fst ` set hs \<inter> {name. secret_header (rw_spec w) name} = {})"
proof (cases rule: invoke_cases [of ig reg slug rq qs])
  case unchanged
  then show ?thesis by (simp add: case_prod_beta)
next
  case (run w body)
  let ?req = "webhook_run_request ig slug w rq body"
  obtain hs where hs: "safe_webhook_headers (hr_headers rq) (rw_spec w) = JObj hs" "fst ` set hs \<inter> {name. secret_header (rw_spec w) name} = {}"
    using safe_headers_keys [of "rw_spec w" "hr_headers rq" "[]"] by (simp add: safe_webhook_headers_def)
  show ?thesis
  proof (cases rule: create_run_effect [of "ig_workflows ig" ?req qs])
    case 1
    then show ?thesis using run(5) by simp
  next
    case (2 params en)
    then have "get_path [''input'', ''webhook'', ''body''] params = Some body"
      "get_path [''input'', ''webhook'', ''headers''] params = Some (JObj hs)"
      using hs(1) by (simp_all add: webhook_run_request_def Let_def)
    with run 2 hs(2) show ?thesis by (auto simp: webhook_run_request_def Let_def)
  qed
qed

subsection \<open>Redelivered events\<close>

lemma same_request:
  "webhook_run_request (ig\<lparr>ig_workflows := wv\<rparr>) slug w rq body = webhook_run_request ig slug w rq body"
  "parse_webhook_body (ig\<lparr>ig_workflows := wv\<rparr>) = parse_webhook_body ig"
  by (auto simp: webhook_run_request_def parse_webhook_body_def fun_eq_iff)

lemma same_admission:
  "wv_env wv = ig_env ig \<Longrightarrow> request_admitted (ig\<lparr>ig_workflows := wv\<rparr>) spec rq = request_admitted ig spec rq"
  by (cases "wh_auth spec") (simp_all add: request_admitted_def signed_body_def)

lemma admitted_invocation:
  assumes "map_of reg slug = Some w" "request_admitted ig (rw_spec w) rq" "parse_webhook_body ig (hr_headers rq) (hr_body rq) = Inr body"
    and "passes_filter (rw_spec w) (hr_headers rq) body"
    and "create_run (ig_workflows ig) (webhook_run_request ig slug w rq body) qs = (qs', Inr run)"
  shows "invoke_workflow_webhook ig (Some reg) slug rq qs = (qs', Inr (if cr_created run then 202 else 200, JObj
    [(''ok'', JBool True), (''run_id'', JStr (cr_run_id run)), (''task_id'', JStr (cr_task_id run)),
     (''workflow_name'', JStr (rw_workflow_name w)), (''status'', JStr (cr_status run)), (''idempotent'', JBool (\<not> cr_created run))]))"
  using assms admit_webhook_iff [of ig "rw_spec w" rq] by (auto simp: invoke_workflow_webhook_def passes_filter_def split: option.splits)

text \<open>
  C22. An event delivered again starts nothing again: once a request to a webhook was answered with a task, the same request
  at any later time, whatever happened to that task and to others in between, leaves the queues as they are and is answered
  with status 200, the same task and \<^verbatim>\<open>idempotent\<close>.
\<close>

theorem redelivery_starts_nothing:
  assumes first: "invoke_workflow_webhook ig (Some reg) slug rq qs = (qs1, Inr (status, reply))" and task: "get_str ''task_id'' reply = Some t"
    and inv: "\<And>name. queue_inv (qs name)" and later: "\<And>name. queue_step\<^sup>*\<^sup>* (qs1 name) (qs2 name)"
    and env: "wv_env wv = ig_env ig" "wv_debug wv = wv_debug (ig_workflows ig)" "wv_cast wv = wv_cast (ig_workflows ig)"
  shows "\<exists>reply'. invoke_workflow_webhook (ig\<lparr>ig_workflows := wv\<rparr>) (Some reg) slug rq qs2 = (qs2, Inr (200, reply')) \<and>
    get_str ''task_id'' reply' = Some t \<and> get_key ''idempotent'' reply' = Some (JBool True)"
proof (cases rule: invoke_cases [of ig reg slug rq qs])
  case unchanged
  with first task show ?thesis by (simp add: get_str_def)
next
  case (run w body)
  let ?req = "webhook_run_request ig slug w rq body"
  obtain a where a: "create_run (ig_workflows ig) ?req qs = (qs1, Inr a)" "cr_task_id a = t"
    using run(5) first task by (cases "create_run (ig_workflows ig) ?req qs") (auto simp: get_str_def split: sum.splits)
  obtain k where k: "cw_idempotency_key ?req = Some k" by (simp add: webhook_run_request_def Let_def)
  have "cw_max_attempts ?req = None" by (simp add: webhook_run_request_def Let_def)
  then obtain b where b: "create_run wv ?req qs2 = (qs2, Inr b)" "cr_task_id b = t" "\<not> cr_created b"
    using run_created_once [OF a(1) k inv later k refl _ env] a(2) by blast
  show ?thesis
    using admitted_invocation [of reg slug w "ig\<lparr>ig_workflows := wv\<rparr>" rq body qs2 qs2 b] run b
    by (simp add: same_request same_admission [OF env(1)] get_str_def)
qed

definition example_hook :: RegisteredWorkflowWebhook where
  "example_hook = \<lparr>rw_workflow_name = ''echo'', rw_source_path = ''echo.py'', rw_spec = \<lparr>wh_slug = ''hook'', wh_provider = None, wh_auth = AuthNone,
     wh_trigger_key = Some (TriggerStatic ''k''), wh_allowed_methods = [''POST''], wh_allowed_content_types = [''application/json''],
     wh_filter = None\<rparr>\<rparr>"

definition example_ingress :: ingress_env where
  "example_ingress = \<lparr>ig_workflows = example_workflows, ig_parse = (\<lambda>_. Some empty_object), ig_utf8 = (\<lambda>_. True), ig_utf8_lossy = (\<lambda>s. s),
     ig_urldecode = Some, ig_sha256_hex = (\<lambda>s. s), ig_hmac = (\<lambda>secret body. secret @ body), ig_hex = Some, ig_base64 = Some,
     ig_standard = (\<lambda>_. None)\<rparr>"

definition example_delivery :: webhook_request where
  "example_delivery = \<lparr>hr_method = ''POST'', hr_path = ''/hook'', hr_query = None, hr_headers = [], hr_body = []\<rparr>"

lemma example_delivery_admitted:
  "request_admitted example_ingress (rw_spec example_hook) example_delivery" "passes_filter (rw_spec example_hook) (hr_headers example_delivery) empty_object"
  "parse_webhook_body example_ingress (hr_headers example_delivery) (hr_body example_delivery) = Inr empty_object"
proof -
  have "to_ascii_uppercase ''POST'' = ''POST''" "content_type [] = []" by code_simp+
  then show "request_admitted example_ingress (rw_spec example_hook) example_delivery"
    by (simp add: request_admitted_def example_hook_def example_delivery_def)
qed (simp_all add: passes_filter_def parse_webhook_body_def example_hook_def example_delivery_def)

theorem redelivery_starts_nothing_witness:
  "\<exists>qs reply. invoke_workflow_webhook (example_ingress\<lparr>ig_workflows := example_workflows\<lparr>wv_now := 9, wv_ids := (''t2'', ''r2'')\<rparr>\<rparr>)
     (Some [(''hook'', example_hook)]) ''hook'' example_delivery qs = (qs, Inr (200, reply)) \<and> get_str ''task_id'' reply = Some ''t1''"
proof -
  let ?req = "webhook_run_request example_ingress ''hook'' example_hook example_delivery empty_object"
  have t: "trim ''echo'' = ''echo''" "trim [] = []" by code_simp+
  have c: "workflow_queue_class ''echo'' = Standard" by (simp add: workflow_queue_class_def)
  obtain qs a where a: "create_run example_workflows ?req no_queues = (qs, Inr a)" "cr_task_id a = ''t1''"
    using workflow_task_named
    by (simp add: create_run_def create_button_run_def client_spawn_def spawn_task_def Let_def example_workflows_def webhook_run_request_def
        example_hook_def t c no_queues_def enablement_from_env_def env_or_default_def ensure_enabled_def is_enabled_def enable_all_def
        resolve_spawn_def DEFAULT_MAX_ATTEMPTS_def row_by_def initial_run_id_def first_run_of_def new_run_def order_by_def)
  have first: "invoke_workflow_webhook example_ingress (Some [(''hook'', example_hook)]) ''hook'' example_delivery no_queues = (qs, Inr
      (if cr_created a then 202 else 200, JObj [(''ok'', JBool True), (''run_id'', JStr (cr_run_id a)), (''task_id'', JStr (cr_task_id a)),
        (''workflow_name'', JStr (rw_workflow_name example_hook)), (''status'', JStr (cr_status a)), (''idempotent'', JBool (\<not> cr_created a))]))"
    by (rule admitted_invocation) (use example_delivery_admitted a(1) in \<open>simp_all add: example_ingress_def\<close>)
  let ?qs = "qs(WORKFLOW_QUEUE := settle_task ''t1'' ''completed'' (qs WORKFLOW_QUEUE))"
  have "queue_step\<^sup>*\<^sup>* (qs name) (?qs name)" for name
    by (cases "name = WORKFLOW_QUEUE") (simp_all add: r_into_rtranclp settle_step task_states_def)
  moreover have "queue_inv (no_queues name)" for name by (simp add: no_queues_def queue_inv_def unique_index_def)
  ultimately show ?thesis
    using redelivery_starts_nothing [OF first, of "''t1''" ?qs "example_workflows\<lparr>wv_now := 9, wv_ids := (''t2'', ''r2'')\<rparr>"] a(2)
    by (auto simp: example_ingress_def get_str_def)
qed

text \<open>
  C31. A bearer webhook whose configured secret is blank authenticates requests that present no token at all: an empty
  \<^verbatim>\<open>Authorization\<close> header passes, whatever the body, while the Standard Webhooks kind refuses the same configuration.
\<close>

theorem blank_bearer_secret_admits:
  assumes "ig_env ig secret_ref = Some secret" and "trim secret = []" and "header_value headers ''Authorization'' = Some []"
  shows "verify_webhook_auth ig (spec\<lparr>wh_auth := AuthBearer secret_ref\<rparr>) headers body = Inr () \<and>
    (\<exists>e. verify_webhook_auth ig (spec\<lparr>wh_auth := AuthStandardWebhooks secret_ref\<rparr>) headers body = Inl (ApiInternal e))"
proof -
  have "trim [] = []" by code_simp
  with assms show ?thesis
    by (simp add: verify_webhook_auth_def verify_bearer_def configured_secret_def or_else_def strip_prefix_def starts_with_def
        verify_standard_webhook_signature_def Let_def)
qed

theorem blank_bearer_secret_admits_witness:
  "verify_webhook_auth (example_ingress\<lparr>ig_workflows := example_workflows\<lparr>wv_env := [''T'' \<mapsto> '' '']\<rparr>\<rparr>)
     ((rw_spec example_hook)\<lparr>wh_auth := AuthBearer ''T''\<rparr>) [(''authorization'', [])] ''{}'' = Inr ()"
proof -
  have "trim '' '' = []" "header_value [(''authorization'', [])] ''Authorization'' = Some []" by code_simp+
  then show ?thesis
    using blank_bearer_secret_admits [of "example_ingress\<lparr>ig_workflows := example_workflows\<lparr>wv_env := [''T'' \<mapsto> '' '']\<rparr>\<rparr>" "''T''" "'' ''"
        "[(''authorization'', [])]" "rw_spec example_hook" "''{}''"]
    by simp
qed

end
