(* ===== verification/Workflow_Schedules.thy ===== *)
theory Workflow_Schedules
  imports Workflow_Webhooks
begin

text \<open>
  Schedules of workflows (\<^verbatim>\<open>crates/centaur-workflows/src/lib.rs\<close>, from \<^verbatim>\<open>normalize_schedule\<close> to
  \<^verbatim>\<open>normalize_cron_expression\<close>): their registry, the ticks that wait in a queue of their own until they fire, the
  reconciliation that keeps one tick per schedule, and the reaper of runs and ticks whose workflow is gone. An instant is a
  number of nanoseconds, as chrono keeps it; the cron and time zone crates are fields of \<open>schedule_env\<close>.
\<close>

section \<open>Registry\<close>

datatype WorkflowScheduleKind =
    Interval nat
  | Cron string

record RegisteredWorkflowSchedule =
  rs_schedule_id :: string
  rs_workflow_name :: string
  rs_source_path :: string
  rs_kind :: WorkflowScheduleKind
  rs_timezone :: string
  rs_input :: json
  rs_enabled :: bool
  rs_no_delivery :: bool

fun schedule_bool :: "json option \<Rightarrow> bool \<Rightarrow> bool" where
  "schedule_bool (Some (JBool b)) dflt = b"
| "schedule_bool (Some (JStr s)) dflt = (to_ascii_lowercase (trim s) \<notin> {''0'', ''false'', ''no'', ''off''})"
| "schedule_bool (Some (JNum m s)) dflt = (\<not> (s = 0 \<and> m = 0))"
| "schedule_bool _ dflt = dflt"

definition split_slack_thread_key :: "string \<Rightarrow> (string \<times> string) option" where
  "split_slack_thread_key thread_key =
     (case split_on CHR '':'' thread_key of
        [chan, ts] \<Rightarrow> if chan \<noteq> [] \<and> ts \<noteq> [] then Some (chan, ts) else None
      | [scheme, chan, ts] \<Rightarrow>
          if scheme = ''slack'' \<and> chan \<noteq> [] \<and> ts \<noteq> [] then Some (chan, ts) else None
      | _ \<Rightarrow> None)"

type_synonym json_map = "(string \<times> json) list"

definition schedule_metadata :: "string \<Rightarrow> bool \<Rightarrow> json_map \<Rightarrow> json_map" where
  "schedule_metadata workflow_name no_delivery input =
     (let input = entry_or_insert ''metadata'' empty_object input in
      case map_of input ''metadata'' of
        Some (JObj metadata) \<Rightarrow>
          json_insert ''metadata'' (JObj (json_insert ''no_delivery'' (JBool no_delivery) (json_insert ''workflow_name'' (JStr workflow_name)
            (json_insert ''source'' (JStr ''workflow_schedule'') metadata)))) input
      | _ \<Rightarrow> input)"

definition schedule_thread :: "json \<Rightarrow> json_map \<Rightarrow> json_map" where
  "schedule_thread object input =
     (case get_str ''thread_key'' object of
        None \<Rightarrow> input
      | Some thread_key \<Rightarrow>
          if trim thread_key = [] then input
          else let input = json_insert ''thread_key'' (JStr (trim thread_key)) input in
               if map_of input ''delivery'' \<noteq> None then input
               else (case split_slack_thread_key (trim thread_key) of
                       None \<Rightarrow> input
                     | Some (chan, ts) \<Rightarrow>
                         json_insert ''delivery'' (JObj [(''platform'', JStr ''slack''), (''channel'', JStr chan), (''thread_ts'', JStr ts)]) input))"

definition schedule_channel :: "json \<Rightarrow> json_map \<Rightarrow> json_map" where
  "schedule_channel object input =
     (case get_str ''slack_channel'' object of
        None \<Rightarrow> input
      | Some raw \<Rightarrow>
          let slack_channel = dropWhile (\<lambda>c. c = CHR ''#'') (trim raw) in
          if slack_channel \<noteq> [] \<and> map_of input ''delivery'' = None
          then json_insert ''delivery'' (JObj [(''platform'', JStr ''slack''), (''channel'', JStr slack_channel)]) input
          else input)"

definition workflow_schedule_input :: "string \<Rightarrow> json \<Rightarrow> bool \<Rightarrow> json" where
  "workflow_schedule_input workflow_name object no_delivery =
     (let input = (case get_key ''input'' object of Some (JObj kvs) \<Rightarrow> kvs | _ \<Rightarrow> [])
      in JObj (schedule_channel object (schedule_thread object (schedule_metadata workflow_name no_delivery input))))"

definition schedule_kind :: "(string \<Rightarrow> string) \<Rightarrow> string \<Rightarrow> json \<Rightarrow> WorkflowScheduleKind workflow_result" where
  "schedule_kind dbg schedule_id object =
     (case get_str ''cron'' object of
        Some cron \<Rightarrow>
          if trim cron = [] then Inl (WfBadRequest (''workflow schedule '' @ dbg schedule_id @ '' has empty cron'')) else Inr (Cron (trim cron))
      | None \<Rightarrow>
          (case Option.bind (get_key ''interval_seconds'' object) as_u64 of
             Some n \<Rightarrow>
               if n = 0 then Inl (WfBadRequest (''workflow schedule '' @ dbg schedule_id @ '' interval_seconds must be > 0''))
               else Inr (Interval n)
           | None \<Rightarrow> Inl (WfBadRequest (''workflow schedule '' @ dbg schedule_id @ '' must have cron or interval_seconds''))))"

definition normalize_schedule :: "(string \<Rightarrow> string) \<Rightarrow> json \<Rightarrow> RegisteredWorkflowSchedule workflow_result" where
  "normalize_schedule dbg object =
     (if \<not> is_object object then Inl (WfBadRequest ''workflow SCHEDULE must be an object'')
      else res_bind (ok_or (WfBadRequest ''workflow SCHEDULE missing workflow_name'') (get_str ''workflow_name'' object)) (\<lambda>raw.
        let workflow_name = trim raw;
            schedule_id = trim (case get_str ''schedule_id'' object of None \<Rightarrow> workflow_name | Some i \<Rightarrow> i);
            no_delivery = schedule_bool (get_key ''no_delivery'' object) False
        in if \<not> valid_webhook_slug schedule_id then Inl (WfBadRequest (''invalid workflow schedule_id '' @ dbg schedule_id))
           else res_map (\<lambda>kind.
             \<lparr>rs_schedule_id = schedule_id, rs_workflow_name = workflow_name,
              rs_source_path = (case get_str ''source_path'' object of None \<Rightarrow> [] | Some p \<Rightarrow> p), rs_kind = kind,
              rs_timezone = trim (case get_str ''timezone'' object of None \<Rightarrow> ''America/Los_Angeles'' | Some z \<Rightarrow> z),
              rs_input = workflow_schedule_input workflow_name object no_delivery,
              rs_enabled = schedule_bool (get_key ''enabled'' object) True, rs_no_delivery = no_delivery\<rparr>)
             (schedule_kind dbg schedule_id object)))"

type_synonym schedule_registry = "RegisteredWorkflowSchedule btree"

fun register_schedules :: "(string \<Rightarrow> string) \<Rightarrow> WorkflowEnablement \<Rightarrow> json list \<Rightarrow> schedule_registry \<Rightarrow> schedule_registry workflow_result" where
  "register_schedules dbg en [] registry = Inr registry"
| "register_schedules dbg en (raw # rest) registry =
     res_bind (normalize_schedule dbg raw) (\<lambda>s.
       if \<not> is_enabled en (rs_workflow_name s) then register_schedules dbg en rest registry
       else if map_of registry (rs_schedule_id s) \<noteq> None
       then Inl (WfBadRequest (''duplicate workflow schedule_id '' @ dbg (rs_schedule_id s)))
       else register_schedules dbg en rest (btree_insert (rs_schedule_id s) s registry))"

definition build_schedule_registry ::
  "(string \<Rightarrow> string) \<Rightarrow> PythonWorkflowMetadata \<Rightarrow> WorkflowEnablement \<Rightarrow> schedule_registry workflow_result" where
  "build_schedule_registry dbg discovery en = register_schedules dbg en (pm_schedules discovery) []"

section \<open>When a schedule fires\<close>

text \<open>
  \<open>se_zone\<close> reads a time zone, \<open>se_cron\<close> a cron expression: the first instant after the given one, if any, at which it
  fires in the zone. \<open>se_rfc3339\<close> is \<^verbatim>\<open>to_rfc3339\<close>, \<open>se_serialize\<close> serde's text of an instant.
\<close>

type_synonym instant = int

record schedule_env =
  se_debug :: "string \<Rightarrow> string"
  se_zone :: "string \<Rightarrow> string + string"
  se_cron :: "string \<Rightarrow> string + (string \<Rightarrow> instant \<Rightarrow> instant option)"
  se_rfc3339 :: "instant \<Rightarrow> string"
  se_serialize :: "instant \<Rightarrow> string"
  se_harness :: HarnessType

abbreviation second :: int where
  "second \<equiv> 1000000000"

text \<open>The range of \<^verbatim>\<open>DateTime<Utc>\<close>; an addition that leaves it panics, which is the result \<open>None\<close>.\<close>

definition MAX_INSTANT :: instant where
  "MAX_INSTANT = 8210266876799999999999"

definition instant_add :: "instant \<Rightarrow> nat \<Rightarrow> instant option" where
  "instant_add t seconds = (let t' = t + int seconds * second in if t' \<le> MAX_INSTANT then Some t' else None)"

text \<open>\<^verbatim>\<open>chrono::Duration::from_std\<close>, whose longest duration is \<^verbatim>\<open>i64::MAX\<close> milliseconds.\<close>

definition duration_from_secs :: "nat \<Rightarrow> string + nat" where
  "duration_from_secs seconds =
     (if seconds \<le> 9223372036854775 then Inr seconds else Inl ''Source duration value is out of range for the target type'')"

definition saturating_u64 :: "nat \<Rightarrow> nat" where
  "saturating_u64 n = min n (2 ^ 64 - 1)"

function split_words :: "string \<Rightarrow> string \<Rightarrow> string list" where
  "split_words word [] = [word]"
| "split_words word (c # s) =
     (case space_length (c # s) of
        Some n \<Rightarrow> word # split_words [] (drop (n - 1) s)
      | None \<Rightarrow> split_words (word @ [c]) s)"
  by pat_completeness auto
termination
  by (relation "measure (\<lambda>(word, s). length s)") auto

definition split_whitespace :: "string \<Rightarrow> string list" where
  "split_whitespace s = filter (\<lambda>w. w \<noteq> []) (split_words [] s)"

definition normalize_cron_expression :: "string \<Rightarrow> string" where
  "normalize_cron_expression expr = (if length (split_whitespace expr) = 5 then ''0 '' @ expr else expr)"

type_synonym 'a or_panic = "'a workflow_result option"

definition invalid_interval :: "schedule_env \<Rightarrow> RegisteredWorkflowSchedule \<Rightarrow> string \<Rightarrow> WorkflowRuntimeError" where
  "invalid_interval se schedule e = WfBadRequest (''invalid interval for schedule '' @ se_debug se (rs_schedule_id schedule) @ '': '' @ e)"

definition after_seconds :: "schedule_env \<Rightarrow> RegisteredWorkflowSchedule \<Rightarrow> instant \<Rightarrow> nat \<Rightarrow> instant or_panic" where
  "after_seconds se schedule t seconds =
     (case duration_from_secs seconds of
        Inl e \<Rightarrow> Some (Inl (invalid_interval se schedule e))
      | Inr d \<Rightarrow> map_option Inr (instant_add t d))"

definition next_cron_time :: "schedule_env \<Rightarrow> RegisteredWorkflowSchedule \<Rightarrow> string \<Rightarrow> instant \<Rightarrow> instant workflow_result" where
  "next_cron_time se schedule cron after =
     (let shown = se_debug se (rs_schedule_id schedule) in
      case se_zone se (rs_timezone schedule) of
        Inl e \<Rightarrow> Inl (WfBadRequest (''invalid timezone '' @ se_debug se (rs_timezone schedule) @ '' for schedule '' @ shown @ '': '' @ e))
      | Inr zone \<Rightarrow>
          (case se_cron se (normalize_cron_expression cron) of
             Inl e \<Rightarrow> Inl (WfBadRequest (''invalid cron '' @ se_debug se cron @ '' for schedule '' @ shown @ '': '' @ e))
           | Inr fires \<Rightarrow>
               ok_or (WfBadRequest (''cron '' @ se_debug se cron @ '' for schedule '' @ shown @ '' produced no next run'')) (fires zone after)))"

definition next_schedule_time :: "schedule_env \<Rightarrow> RegisteredWorkflowSchedule \<Rightarrow> instant \<Rightarrow> instant or_panic" where
  "next_schedule_time se schedule after =
     (case rs_kind schedule of
        Interval n \<Rightarrow> after_seconds se schedule after n
      | Cron cron \<Rightarrow> Some (next_cron_time se schedule cron after))"

definition next_schedule_time_after_tick ::
  "schedule_env \<Rightarrow> RegisteredWorkflowSchedule \<Rightarrow> instant \<Rightarrow> instant \<Rightarrow> instant or_panic" where
  "next_schedule_time_after_tick se schedule scheduled_at now =
     (case rs_kind schedule of
        Interval n \<Rightarrow>
          if n = 0 then Some (Inl (invalid_interval se schedule ''interval_seconds must be > 0''))
          else (case after_seconds se schedule scheduled_at n of
                  Some (Inr first) \<Rightarrow>
                    if first \<le> now
                    then let elapsed = nat ((now - scheduled_at) div second);
                             missed_intervals = saturating_u64 (elapsed div n + 1)
                         in after_seconds se schedule scheduled_at (saturating_u64 (n * missed_intervals))
                    else Some (Inr first)
                | r \<Rightarrow> r)
      | Cron _ \<Rightarrow> next_schedule_time se schedule now)"

section \<open>Ticks\<close>

text \<open>
  A call of the runtime: the instant its clock shows, the database's time and the fresh ids of the task it may spawn.
\<close>

record call_time =
  ct_clock :: instant
  ct_now :: time
  ct_ids :: "string \<times> string"

definition tick_params :: "schedule_env \<Rightarrow> string \<Rightarrow> instant \<Rightarrow> json" where
  "tick_params se schedule_id scheduled_at = JObj [(''schedule_id'', JStr schedule_id), (''scheduled_at'', JStr (se_serialize se scheduled_at))]"

definition tick_key :: "schedule_env \<Rightarrow> string \<Rightarrow> instant \<Rightarrow> string" where
  "tick_key se schedule_id scheduled_at = ''schedule-tick:'' @ schedule_id @ '':'' @ se_rfc3339 se scheduled_at"

definition spawn_schedule_tick ::
  "schedule_env \<Rightarrow> call_time \<Rightarrow> RegisteredWorkflowSchedule \<Rightarrow> instant \<Rightarrow> absurd_queue \<Rightarrow> absurd_queue \<times> unit workflow_result" where
  "spawn_schedule_tick se ct schedule scheduled_at q =
     map_prod id (res_map (\<lambda>_. ()))
       (client_spawn (ct_now ct) (ct_ids ct) WORKFLOW_SCHEDULE_TASK (tick_params se (rs_schedule_id schedule) scheduled_at)
          \<lparr>so_max_attempts = Some 10, so_retry_strategy = Some (JObj [(''kind'', JStr ''fixed''), (''base_seconds'', JNum 300 1)]),
           so_idempotency_key = Some (tick_key se (rs_schedule_id schedule) scheduled_at)\<rparr> q)"

definition has_active_schedule_tick :: "string \<Rightarrow> absurd_queue \<Rightarrow> bool" where
  "has_active_schedule_tick schedule_id q \<longleftrightarrow>
     (\<exists>t \<in> set (q_tasks q). at_task_name t = WORKFLOW_SCHEDULE_TASK \<and> get_text ''schedule_id'' (at_params t) = Some schedule_id \<and> task_live t)"

definition ensure_schedule_tick ::
  "schedule_env \<Rightarrow> call_time \<Rightarrow> RegisteredWorkflowSchedule \<Rightarrow> instant \<Rightarrow> absurd_queue \<Rightarrow> absurd_queue \<times> bool workflow_result" where
  "ensure_schedule_tick se ct schedule scheduled_at q =
     (if has_active_schedule_tick (rs_schedule_id schedule) q then (q, Inr False)
      else map_prod id (res_map (\<lambda>_. True)) (spawn_schedule_tick se ct schedule scheduled_at q))"

text \<open>\<^verbatim>\<open>run_schedule_tick\<close> from the moment its sleep is over; \<open>fire\<close> is the call that spawns the run, \<open>ct\<close> the one after it.\<close>

definition skipped_tick :: "schedule_env \<Rightarrow> string \<Rightarrow> instant \<Rightarrow> string \<Rightarrow> json" where
  "skipped_tick se schedule_id scheduled_at reason =
     JObj [(''schedule_id'', JStr schedule_id), (''scheduled_at'', JStr (se_rfc3339 se scheduled_at)), (''skipped'', JBool True),
           (''reason'', JStr reason)]"

definition fire_key :: "schedule_env \<Rightarrow> string \<Rightarrow> instant \<Rightarrow> string" where
  "fire_key se schedule_id scheduled_at = ''schedule:'' @ schedule_id @ '':'' @ se_rfc3339 se scheduled_at"

definition fire_schedule :: "schedule_env \<Rightarrow> call_time \<Rightarrow> RegisteredWorkflowSchedule \<Rightarrow> instant \<Rightarrow> absurd_queue \<Rightarrow> absurd_queue \<times> SpawnResult workflow_result" where
  "fire_schedule se fire schedule scheduled_at q =
     client_spawn (ct_now fire) (ct_ids fire) WORKFLOW_TASK (workflow_task_input (rs_workflow_name schedule) (rs_input schedule) (se_harness se) None)
       \<lparr>so_max_attempts = None, so_retry_strategy = None, so_idempotency_key = Some (fire_key se (rs_schedule_id schedule) scheduled_at)\<rparr> q"

definition run_schedule_tick ::
  "schedule_env \<Rightarrow> schedule_registry \<Rightarrow> call_time \<Rightarrow> call_time \<Rightarrow> string \<Rightarrow> instant \<Rightarrow> queues \<Rightarrow> queues \<times> json or_panic" where
  "run_schedule_tick se registry fire ct schedule_id scheduled_at qs =
     (case map_of registry schedule_id of
        None \<Rightarrow> (qs, Some (Inr (skipped_tick se schedule_id scheduled_at ''removed'')))
      | Some schedule \<Rightarrow>
          if \<not> rs_enabled schedule then (qs, Some (Inr (skipped_tick se (rs_schedule_id schedule) scheduled_at ''disabled'')))
          else let target = queue_name_for_class (workflow_queue_class (rs_workflow_name schedule)) in
            (case fire_schedule se fire schedule scheduled_at (qs target) of
               (q', Inl e) \<Rightarrow> (qs(target := q'), Some (Inl e))
             | (q', Inr run) \<Rightarrow>
                 let qs1 = qs(target := q') in
                 (case next_schedule_time_after_tick se schedule scheduled_at (ct_clock ct) of
                    None \<Rightarrow> (qs1, None)
                  | Some (Inl e) \<Rightarrow> (qs1, Some (Inl e))
                  | Some (Inr next_run_at) \<Rightarrow>
                      (case spawn_schedule_tick se ct schedule next_run_at (qs1 WORKFLOW_SCHEDULE_QUEUE) of
                         (q2, Inl e) \<Rightarrow> (qs1(WORKFLOW_SCHEDULE_QUEUE := q2), Some (Inl e))
                       | (q2, Inr _) \<Rightarrow>
                           (qs1(WORKFLOW_SCHEDULE_QUEUE := q2), Some (Inr (JObj
                             [(''schedule_id'', JStr (rs_schedule_id schedule)), (''workflow_name'', JStr (rs_workflow_name schedule)),
                              (''scheduled_at'', JStr (se_rfc3339 se scheduled_at)),
                              (''fire_key'', JStr (fire_key se (rs_schedule_id schedule) scheduled_at)),
                              (''workflow_task_id'', JStr (sr_task_id run)), (''workflow_run_id'', JStr (sr_run_id run)),
                              (''workflow_created'', JBool (sr_created run)), (''next_run_at'', JStr (se_rfc3339 se next_run_at))])))))))"

text \<open>\<open>at\<close> gives the call made for each schedule; an error or a panic ends the loop.\<close>

fun reconcile_schedules ::
  "schedule_env \<Rightarrow> (string \<Rightarrow> call_time) \<Rightarrow> RegisteredWorkflowSchedule list \<Rightarrow> absurd_queue \<Rightarrow> absurd_queue \<times> unit or_panic" where
  "reconcile_schedules se at [] q = (q, Some (Inr ()))"
| "reconcile_schedules se at (schedule # rest) q =
     (if \<not> rs_enabled schedule then reconcile_schedules se at rest q
      else let ct = at (rs_schedule_id schedule) in
        (case next_schedule_time se schedule (ct_clock ct) of
           None \<Rightarrow> (q, None)
         | Some (Inl e) \<Rightarrow> (q, Some (Inl e))
         | Some (Inr next_run_at) \<Rightarrow>
             (case ensure_schedule_tick se ct schedule next_run_at q of
                (q', Inl e) \<Rightarrow> (q', Some (Inl e))
              | (q', Inr _) \<Rightarrow> reconcile_schedules se at rest q')))"

section \<open>The reaper of removed workflows\<close>

definition fetch_active_named_tasks :: "absurd_queue \<Rightarrow> string \<Rightarrow> string \<Rightarrow> (string \<times> string) list" where
  "fetch_active_named_tasks q task_name field =
     List.map_filter (\<lambda>t. map_option (Pair (at_task_id t)) (get_text field (at_params t)))
       (filter (\<lambda>t. at_task_name t = task_name \<and> task_live t) (q_tasks q))"

definition saturating_u32 :: "nat \<Rightarrow> nat" where
  "saturating_u32 n = min n (2 ^ 32 - 1)"

definition miss_count :: "nat btree \<Rightarrow> string \<Rightarrow> nat" where
  "miss_count counts name = saturating_u32 ((case map_of counts name of None \<Rightarrow> 0 | Some n \<Rightarrow> n) + 1)"

definition active_by_name :: "(string \<times> string) list \<Rightarrow> string list btree" where
  "active_by_name active_tasks = fold (\<lambda>(task_id, name) m. btree_push name task_id m) active_tasks []"

definition select_stale_cancellations ::
  "(string \<times> string) list \<Rightarrow> string set \<Rightarrow> nat btree \<Rightarrow> nat \<Rightarrow> nat btree \<times> string list" where
  "select_stale_cancellations active_tasks known_names counts threshold =
     (let missing = filter (\<lambda>(name, _). name \<notin> known_names) (active_by_name active_tasks)
      in (map (\<lambda>(name, _). (name, miss_count counts name)) missing,
          concat (map snd (filter (\<lambda>(name, _). threshold \<le> miss_count counts name) missing))))"

record RemovedWorkflowReaper =
  rr_threshold :: nat
  rr_workflow_miss_counts :: "nat btree"
  rr_schedule_miss_counts :: "nat btree"

definition parse_u32 :: "string \<Rightarrow> nat option" where
  "parse_u32 s = Option.bind (parse_u64 s) (\<lambda>n. if n < 2 ^ 32 then Some n else None)"

definition reaper_from_env :: "environment \<Rightarrow> RemovedWorkflowReaper" where
  "reaper_from_env env =
     \<lparr>rr_threshold = (case Option.bind (env ''WORKFLOW_REAP_REMOVED_AFTER_TICKS'') (\<lambda>raw. parse_u32 (trim raw)) of None \<Rightarrow> 3 | Some n \<Rightarrow> n),
      rr_workflow_miss_counts = [], rr_schedule_miss_counts = []\<rparr>"

text \<open>A cancellation that fails is logged; \<open>cast\<close> reads a task id.\<close>

fun cancel_stale :: "(string \<Rightarrow> string option) \<Rightarrow> time \<Rightarrow> (string \<times> string) list \<Rightarrow> queues \<Rightarrow> queues" where
  "cancel_stale cast now [] qs = qs"
| "cancel_stale cast now ((queue_name, task_id) # rest) qs =
     cancel_stale cast now rest (qs(queue_name := fst (client_cancel_task cast now task_id (qs queue_name))))"

definition active_runs :: "queues \<Rightarrow> (string \<times> string) list" where
  "active_runs qs =
     concat (map (\<lambda>queue. map (\<lambda>(task_id, name). (queue @ '':'' @ task_id, name))
       (fetch_active_named_tasks (qs queue) WORKFLOW_TASK ''workflow_name'')) workflow_queues)"

definition reap :: "(string \<Rightarrow> string option) \<Rightarrow> time \<Rightarrow> PythonWorkflowMetadata \<Rightarrow> schedule_registry \<Rightarrow> RemovedWorkflowReaper \<Rightarrow> queues \<Rightarrow>
  RemovedWorkflowReaper \<times> queues" where
  "reap cast now metadata schedules r qs =
     (if rr_threshold r = 0 \<or> pm_workflow_names metadata = {} then (r, qs)
      else case select_stale_cancellations (active_runs qs) (pm_workflow_names metadata) (rr_workflow_miss_counts r) (rr_threshold r) of
        (run_counts, stale_runs) \<Rightarrow>
          let qs1 = cancel_stale cast now (List.map_filter (split_once CHR '':'') stale_runs) qs in
          (case select_stale_cancellations (fetch_active_named_tasks (qs1 WORKFLOW_SCHEDULE_QUEUE) WORKFLOW_SCHEDULE_TASK ''schedule_id'')
                  (fst ` set schedules) (rr_schedule_miss_counts r) (rr_threshold r) of
             (tick_counts, stale_ticks) \<Rightarrow>
               (r\<lparr>rr_workflow_miss_counts := run_counts, rr_schedule_miss_counts := tick_counts\<rparr>,
                cancel_stale cast now (map (Pair WORKFLOW_SCHEDULE_QUEUE) stale_ticks) qs1)))"

section \<open>Interval schedules stay on their grid\<close>

lemma whole_seconds:
  fixes d :: int
  assumes "0 \<le> d" and "0 < n"
  defines "e \<equiv> nat (d div second)"
  defines "m \<equiv> n * (e div n + 1)"
  shows "d < int m * second" and "int m * second \<le> d + int n * second"
proof -
  have e: "int e * second \<le> d" "d < (int e + 1) * second"
    using assms(1) by (simp_all add: e_def nonneg_int_cases) (use pos_mod_sign [of second d] pos_mod_bound [of second d] div_mult_mod_eq [of d second] in linarith)+
  have "e < m" using dividend_less_times_div [OF assms(2), of e] by (simp add: m_def algebra_simps)
  moreover have "m \<le> e + n" using div_times_less_eq_dividend [of e n] by (simp add: m_def algebra_simps)
  ultimately have "int e + 1 \<le> int m" "int m \<le> int e + int n" by simp_all
  then have "(int e + 1) * second \<le> int m * second" "int m * second \<le> int e * second + int n * second" by simp_all
  with e show "d < int m * second" "int m * second \<le> d + int n * second" by linarith+
qed

lemma after_seconds_in_range:
  assumes "-8334601228800000000000 \<le> t" and "t + int n * second \<le> MAX_INSTANT"
  shows "after_seconds se s t n = Some (Inr (t + int n * second))" and "n \<le> 16544868105600"
proof -
  have "int n * second \<le> MAX_INSTANT + 8334601228800000000000" using assms by linarith
  then have "int n \<le> 16544868105600" by (simp add: MAX_INSTANT_def)
  then show "n \<le> 16544868105600" by simp
  then show "after_seconds se s t n = Some (Inr (t + int n * second))"
    using assms(2) by (simp add: after_seconds_def duration_from_secs_def instant_add_def Let_def)
qed

text \<open>
  C29. The next tick of an interval schedule is never in the past, never off the grid and never later than needed: from a
  tick due at \<open>scheduled_at\<close> that ran at \<open>now\<close>, however late, the next one is at a whole number of intervals after
  \<open>scheduled_at\<close>, after \<open>now\<close>, and at most one interval later than \<open>now\<close> (or than \<open>scheduled_at\<close>, if the clock is behind it).
  There is no error or panic as long as that latest instant is one chrono can represent.
\<close>

theorem interval_tick_on_grid:
  assumes "rs_kind schedule = Interval n" and "0 < n" and "-8334601228800000000000 \<le> scheduled_at"
    and "max now scheduled_at + int n * second \<le> MAX_INSTANT"
  shows "\<exists>next_run_at k. next_schedule_time_after_tick se schedule scheduled_at now = Some (Inr next_run_at) \<and>
    next_run_at = scheduled_at + int (n * Suc k) * second \<and> now < next_run_at \<and> next_run_at \<le> max now scheduled_at + int n * second"
proof -
  have first: "after_seconds se schedule scheduled_at n = Some (Inr (scheduled_at + int n * second))"
    by (rule after_seconds_in_range(1)) (use assms in linarith)+
  show ?thesis
  proof (cases "scheduled_at + int n * second \<le> now")
    case False
    with first assms(1,2) show ?thesis
      by (intro exI [of _ "scheduled_at + int n * second"] exI [of _ 0]) (simp add: next_schedule_time_after_tick_def)
  next
    case True
    define e where "e = nat ((now - scheduled_at) div second)"
    define m where "m = n * (e div n + 1)"
    have late: "now - scheduled_at < int m * second" "int m * second \<le> now - scheduled_at + int n * second"
      using whole_seconds [of "now - scheduled_at" n] assms(2) True unfolding e_def m_def by simp_all
    with assms(4) True have "scheduled_at + int m * second \<le> MAX_INSTANT" by linarith
    note m = after_seconds_in_range(1) [OF assms(3) this, of se schedule] after_seconds_in_range(2) [OF assms(3) this]
    have "e div n + 1 \<le> m" unfolding m_def using assms(2) mult_le_mono1 [of 1 n "e div n + 1"] by simp
    with m(2) have "saturating_u64 (n * saturating_u64 (e div n + 1)) = m" by (simp add: saturating_u64_def m_def)
    with first m(1) True assms(1,2) have "next_schedule_time_after_tick se schedule scheduled_at now = Some (Inr (scheduled_at + int m * second))"
      by (simp add: next_schedule_time_after_tick_def Let_def e_def)
    with late show ?thesis
      by (intro exI [of _ "scheduled_at + int m * second"] exI [of _ "e div n"]) (simp add: m_def)
  qed
qed

definition example_schedule :: "WorkflowScheduleKind \<Rightarrow> RegisteredWorkflowSchedule" where
  "example_schedule k = \<lparr>rs_schedule_id = ''nightly'', rs_workflow_name = ''echo'', rs_source_path = ''echo.py'', rs_kind = k,
     rs_timezone = ''UTC'', rs_input = empty_object, rs_enabled = True, rs_no_delivery = False\<rparr>"

text \<open>An environment whose cron expressions all fire at the instant 100, and whose texts of instants are in unary.\<close>

definition example_schedule_env :: schedule_env where
  "example_schedule_env = \<lparr>se_debug = (\<lambda>s. s), se_zone = Inr, se_cron = (\<lambda>_. Inr (\<lambda>_ after. if after < 100 then Some 100 else None)),
     se_rfc3339 = (\<lambda>t. replicate (nat t) CHR ''1''), se_serialize = (\<lambda>t. replicate (nat t) CHR ''1''), se_harness = Codex\<rparr>"

theorem interval_tick_on_grid_witness:
  "\<exists>next_run_at k. next_schedule_time_after_tick example_schedule_env (example_schedule (Interval 60)) 0 (200 * second) = Some (Inr next_run_at) \<and>
    next_run_at = int (60 * Suc k) * second \<and> 200 * second < next_run_at \<and> next_run_at \<le> 260 * second"
  using interval_tick_on_grid [of "example_schedule (Interval 60)" 60 0 "200 * second" example_schedule_env]
  by (simp add: example_schedule_def MAX_INSTANT_def)

section \<open>Removed workflows\<close>

lemma active_by_name_lookup:
  "map_of (fold (\<lambda>(task_id, name) m. btree_push name task_id m) tasks m) name =
     (let ids = map fst (filter (\<lambda>(_, n). n = name) tasks) in
      if ids = [] then map_of m name else Some ((case map_of m name of None \<Rightarrow> [] | Some v \<Rightarrow> v) @ ids))"
  by (induction tasks arbitrary: m) (auto simp: btree_push_def Let_def split: option.splits)

lemma active_by_name_sorted:
  "sorted_keys m \<Longrightarrow> sorted_keys (fold (\<lambda>(task_id, name) m. btree_push name task_id m) tasks m)"
  by (induction tasks arbitrary: m) (auto simp: btree_push_def sorted_keys_insert)

lemma in_active_by_name:
  "(name, ids) \<in> set (active_by_name tasks) \<longleftrightarrow> ids \<noteq> [] \<and> ids = map fst (filter (\<lambda>(_, n). n = name) tasks)"
proof -
  have "sorted_keys (active_by_name tasks)" unfolding active_by_name_def by (rule active_by_name_sorted) (simp add: sorted_keys_def)
  then have "(name, ids) \<in> set (active_by_name tasks) \<longleftrightarrow> map_of (active_by_name tasks) name = Some ids"
    using sorted_keys_distinct by fastforce
  then show ?thesis by (auto simp: active_by_name_def active_by_name_lookup Let_def)
qed

lemma stale_iff:
  "i \<in> set (snd (select_stale_cancellations tasks known counts threshold)) \<longleftrightarrow>
     (\<exists>name. (i, name) \<in> set tasks \<and> name \<notin> known \<and> threshold \<le> miss_count counts name)"
proof -
  have "i \<in> set (snd (select_stale_cancellations tasks known counts threshold)) \<longleftrightarrow>
      (\<exists>name ids. (name, ids) \<in> set (active_by_name tasks) \<and> name \<notin> known \<and> threshold \<le> miss_count counts name \<and> i \<in> set ids)"
    by (auto simp: select_stale_cancellations_def Let_def)
  moreover have "i \<in> set (map fst (filter (\<lambda>(_, n). n = name) tasks)) \<longleftrightarrow> (i, name) \<in> set tasks" for name by force
  ultimately show ?thesis unfolding in_active_by_name by (metis empty_iff list.set(1))
qed

lemma counts_after:
  "map_of (fst (select_stale_cancellations tasks known counts threshold)) name = Some c \<Longrightarrow> name \<notin> known \<and> c = miss_count counts name"
  by (auto simp: select_stale_cancellations_def Let_def dest!: map_of_SomeD)

subsection \<open>Counting passes\<close>

text \<open>
  A pass of the reconciler: the time, what discovery found, the schedules and the queues as they were then. Between two
  passes the queues change in any way.
\<close>

record reap_pass =
  rp_now :: time
  rp_metadata :: PythonWorkflowMetadata
  rp_schedules :: schedule_registry
  rp_queues :: queues

definition reap_in :: "(string \<Rightarrow> string option) \<Rightarrow> RemovedWorkflowReaper \<Rightarrow> reap_pass \<Rightarrow> RemovedWorkflowReaper \<times> queues" where
  "reap_in cast r p = reap cast (rp_now p) (rp_metadata p) (rp_schedules p) r (rp_queues p)"

definition reaper_after :: "(string \<Rightarrow> string option) \<Rightarrow> RemovedWorkflowReaper \<Rightarrow> reap_pass list \<Rightarrow> RemovedWorkflowReaper" where
  "reaper_after cast r passes = foldl (\<lambda>r p. fst (reap_in cast r p)) r passes"

text \<open>In how many of the last passes in a row, empty discoveries aside, a workflow was not found.\<close>

definition missed_passes :: "string \<Rightarrow> reap_pass list \<Rightarrow> nat" where
  "missed_passes name passes =
     length (takeWhile (\<lambda>p. name \<notin> pm_workflow_names (rp_metadata p)) (rev (filter (\<lambda>p. pm_workflow_names (rp_metadata p) \<noteq> {}) passes)))"

lemma missed_passes_snoc:
  "missed_passes name (passes @ [p]) =
     (if pm_workflow_names (rp_metadata p) = {} then missed_passes name passes
      else if name \<in> pm_workflow_names (rp_metadata p) then 0 else Suc (missed_passes name passes))"
  by (simp add: missed_passes_def)

lemma reap_off: "rr_threshold r = 0 \<or> pm_workflow_names (rp_metadata p) = {} \<Longrightarrow> snd (reap_in cast r p) = rp_queues p"
  by (simp add: reap_in_def reap_def)

lemma reap_threshold [simp]: "rr_threshold (fst (reap_in cast r p)) = rr_threshold r"
  by (simp add: reap_in_def reap_def Let_def split: prod.split)

lemma reap_counts:
  "rr_workflow_miss_counts (fst (reap_in cast r p)) =
     (if rr_threshold r = 0 \<or> pm_workflow_names (rp_metadata p) = {} then rr_workflow_miss_counts r
      else fst (select_stale_cancellations (active_runs (rp_queues p)) (pm_workflow_names (rp_metadata p)) (rr_workflow_miss_counts r)
        (rr_threshold r)))"
  by (simp add: reap_in_def reap_def Let_def split: prod.split)

lemma reaper_after_counts:
  assumes "rr_workflow_miss_counts r = []" and "rr_threshold r \<noteq> 0"
  shows "rr_threshold (reaper_after cast r passes) = rr_threshold r \<and>
    (case map_of (rr_workflow_miss_counts (reaper_after cast r passes)) name of None \<Rightarrow> 0 | Some c \<Rightarrow> c) \<le> missed_passes name passes"
proof (induction passes rule: rev_induct)
  case Nil
  then show ?case using assms(1) by (simp add: reaper_after_def)
next
  case (snoc p passes)
  let ?r = "reaper_after cast r passes"
  have after: "reaper_after cast r (passes @ [p]) = fst (reap_in cast ?r p)" by (simp add: reaper_after_def)
  have "miss_count (rr_workflow_miss_counts ?r) name \<le> Suc (missed_passes name passes)"
    using snoc by (simp add: miss_count_def saturating_u32_def min.coboundedI1)
  with snoc assms(2) show ?case
    by (auto simp: after reap_counts missed_passes_snoc split: option.split dest!: counts_after)
qed

subsection \<open>What a pass cancels\<close>

lemma fetched_iff:
  "(i, name) \<in> set (fetch_active_named_tasks q task_name field) \<longleftrightarrow>
     (\<exists>t \<in> set (q_tasks q). at_task_id t = i \<and> at_task_name t = task_name \<and> task_live t \<and> get_text field (at_params t) = Some name)"
  by (auto simp: fetch_active_named_tasks_def set_map_filter_iff)

lemma cancel_keeps_other:
  "t \<in> set (q_tasks q) \<Longrightarrow> cast i \<noteq> Some (at_task_id t) \<Longrightarrow> t \<in> set (q_tasks (fst (client_cancel_task cast now i q)))"
  by (auto simp: client_cancel_task_def sql_cancel_task_def sql_update_def image_iff split: option.splits prod.splits if_splits)

lemma cancel_stale_keeps:
  "t \<in> set (q_tasks (qs queue)) \<Longrightarrow> (\<And>i. (queue, i) \<in> set stale \<Longrightarrow> cast i \<noteq> Some (at_task_id t)) \<Longrightarrow>
   t \<in> set (q_tasks (cancel_stale cast now stale qs queue))"
proof (induction stale arbitrary: qs)
  case (Cons s stale)
  obtain queue' i where s: "s = (queue', i)" by fastforce
  have "t \<in> set (q_tasks ((qs(queue' := fst (client_cancel_task cast now i (qs queue')))) queue))"
    using Cons.prems s by (cases "queue' = queue") (auto intro!: cancel_keeps_other)
  then show ?case using Cons by (simp add: s)
qed simp

lemma queue_names_plain: "queue \<in> set workflow_queues \<Longrightarrow> CHR '':'' \<notin> set queue" "WORKFLOW_SCHEDULE_QUEUE \<notin> set workflow_queues"
  by (auto simp: workflow_queues_def WORKFLOW_QUEUE_def WORKFLOW_SLACK_LIVE_QUEUE_def WORKFLOW_ETL_QUEUE_def WORKFLOW_ETL_BACKFILL_QUEUE_def
      WORKFLOW_SCHEDULE_QUEUE_def)

lemma stale_run_iff:
  "(queue, i) \<in> set (List.map_filter (split_once CHR '':'') (snd (select_stale_cancellations (active_runs qs) known counts threshold))) \<longleftrightarrow>
     queue \<in> set workflow_queues \<and>
     (\<exists>name. (i, name) \<in> set (fetch_active_named_tasks (qs queue) WORKFLOW_TASK ''workflow_name'') \<and> name \<notin> known \<and> threshold \<le> miss_count counts name)"
proof -
  have split: "split_once CHR '':'' (q @ '':'' @ j) = Some (q, j)" if "q \<in> set workflow_queues" for q j
    using queue_names_plain(1) [OF that] by simp
  have runs: "(k, name) \<in> set (active_runs qs) \<longleftrightarrow> (\<exists>q j. k = q @ '':'' @ j \<and> q \<in> set workflow_queues \<and>
      (j, name) \<in> set (fetch_active_named_tasks (qs q) WORKFLOW_TASK ''workflow_name''))" for k name
    by (force simp: active_runs_def)
  let ?stale = "\<lambda>k. \<exists>name. (k, name) \<in> set (active_runs qs) \<and> name \<notin> known \<and> threshold \<le> miss_count counts name"
  have "(queue, i) \<in> set (List.map_filter (split_once CHR '':'') (snd (select_stale_cancellations (active_runs qs) known counts threshold))) \<longleftrightarrow>
      (\<exists>k. ?stale k \<and> split_once CHR '':'' k = Some (queue, i))"
    by (simp only: set_map_filter_iff Bex_def stale_iff)
  also have "\<dots> \<longleftrightarrow> (\<exists>q j name. split_once CHR '':'' (q @ '':'' @ j) = Some (queue, i) \<and> q \<in> set workflow_queues \<and>
      (j, name) \<in> set (fetch_active_named_tasks (qs q) WORKFLOW_TASK ''workflow_name'') \<and> name \<notin> known \<and> threshold \<le> miss_count counts name)"
    unfolding runs by blast
  also have "\<dots> \<longleftrightarrow> queue \<in> set workflow_queues \<and>
     (\<exists>name. (i, name) \<in> set (fetch_active_named_tasks (qs queue) WORKFLOW_TASK ''workflow_name'') \<and> name \<notin> known \<and> threshold \<le> miss_count counts name)"
    by (metis split option.inject prod.inject)
  finally show ?thesis .
qed


definition example_task :: "string \<Rightarrow> json \<Rightarrow> absurd_task" where
  "example_task task_name params = new_task 0 ''t'' ''r'' task_name params
     \<lparr>so_max_attempts = Some 5, so_retry_strategy = None, so_idempotency_key = None\<rparr>"

definition example_pass :: reap_pass where
  "example_pass = \<lparr>rp_now = 9, rp_metadata = default_metadata\<lparr>pm_workflow_names := {''other''}\<rparr>, rp_schedules = [],
     rp_queues = no_queues(WORKFLOW_QUEUE := \<lparr>q_tasks = [example_task WORKFLOW_TASK (JObj [(''workflow_name'', JStr ''echo'')])],
       q_runs = [new_run 0 ''r'' ''t'']\<rparr>)\<rparr>"

definition example_removed_reaper :: RemovedWorkflowReaper where
  "example_removed_reaper = \<lparr>rr_threshold = 2, rr_workflow_miss_counts = [], rr_schedule_miss_counts = []\<rparr>"


section \<open>One tick per schedule\<close>

lemma tick_named: "trim WORKFLOW_SCHEDULE_TASK \<noteq> []"
  by (simp add: WORKFLOW_SCHEDULE_TASK_def) code_simp

lemma tick_spawned:
  assumes "spawn_schedule_tick se ct schedule t q = (q', Inr u)"
  shows "key_task q' (tick_key se (rs_schedule_id schedule) t) \<noteq> None" and "queue_step q q'"
proof -
  let ?options = "resolve_spawn \<lparr>so_max_attempts = Some 10, so_retry_strategy = Some (JObj [(''kind'', JStr ''fixed''), (''base_seconds'', JNum 300 1)]),
    so_idempotency_key = Some (tick_key se (rs_schedule_id schedule) t)\<rparr>"
  obtain s where s: "spawn_task (ct_now ct) (ct_ids ct) WORKFLOW_SCHEDULE_TASK (tick_params se (rs_schedule_id schedule) t) ?options q = (q', Inr s)"
    using assms by (auto simp: spawn_schedule_tick_def client_spawn_def map_prod_def split: prod.splits sum.splits)
  have "key_task q' (tick_key se (rs_schedule_id schedule) t) = Some (sr_task_id s)"
    by (rule spawned_key [OF s]) (simp add: resolve_spawn_def)
  then show "key_task q' (tick_key se (rs_schedule_id schedule) t) \<noteq> None" by simp
  show "queue_step q q'"
    using spawn_step [of q "ct_now ct" "ct_ids ct" WORKFLOW_SCHEDULE_TASK "tick_params se (rs_schedule_id schedule) t" ?options]
    unfolding s fst_conv .
qed

lemma tick_respawned:
  assumes "key_task q (tick_key se (rs_schedule_id schedule) t) = Some i" and "queue_inv q"
  shows "spawn_schedule_tick se ct schedule t q = (q, Inr ())"
proof -
  let ?options = "resolve_spawn \<lparr>so_max_attempts = Some 10, so_retry_strategy = Some (JObj [(''kind'', JStr ''fixed''), (''base_seconds'', JNum 300 1)]),
    so_idempotency_key = Some (tick_key se (rs_schedule_id schedule) t)\<rparr>"
  obtain s where "spawn_task (ct_now ct) (ct_ids ct) WORKFLOW_SCHEDULE_TASK (tick_params se (rs_schedule_id schedule) t) ?options q = (q, Inr s)"
    by (rule respawned [OF assms _ tick_named, where options = ?options and now = "ct_now ct" and ids = "ct_ids ct"
          and params = "tick_params se (rs_schedule_id schedule) t"]) (simp_all add: resolve_spawn_def)
  then show ?thesis by (simp add: spawn_schedule_tick_def client_spawn_def)
qed

text \<open>
  C30. A firing of a schedule can be lost without a trace: when the tick for an instant was spawned once and is no longer
  active (the reaper cancelled it while the workflow was gone), every later reconciliation that computes the same instant for
  the schedule, as a cron expression does until the instant has passed, succeeds and reports a spawned tick, but spawns none,
  since the idempotency key still belongs to the cancelled task.
\<close>

theorem cancelled_tick_not_restored:
  assumes first: "spawn_schedule_tick se ct schedule fires_at q = (q1, Inr ())" and inv: "queue_inv q"
    and later: "queue_step\<^sup>*\<^sup>* q1 q2" and gone: "\<not> has_active_schedule_tick (rs_schedule_id schedule) q2"
    and enabled: "rs_enabled schedule" and same: "next_schedule_time se schedule (ct_clock (at (rs_schedule_id schedule))) = Some (Inr fires_at)"
  shows "reconcile_schedules se at [schedule] q2 = (q2, Some (Inr ())) \<and>
    ensure_schedule_tick se (at (rs_schedule_id schedule)) schedule fires_at q2 = (q2, Inr True)"
proof -
  obtain i where "key_task q1 (tick_key se (rs_schedule_id schedule) fires_at) = Some i" using tick_spawned(1) [OF first] by blast
  then have "key_task q2 (tick_key se (rs_schedule_id schedule) fires_at) = Some i" by (rule queue_run(2) [OF later])
  moreover have "queue_inv q2" using queue_run(1) [OF later queue_step_inv [OF inv tick_spawned(2) [OF first]]] .
  ultimately have "spawn_schedule_tick se (at (rs_schedule_id schedule)) schedule fires_at q2 = (q2, Inr ())" by (rule tick_respawned)
  then show ?thesis using gone enabled same by (simp add: ensure_schedule_tick_def)
qed

theorem cancelled_tick_not_restored_witness:
  "\<exists>q. \<not> has_active_schedule_tick ''nightly'' q \<and>
     reconcile_schedules example_schedule_env (\<lambda>_. \<lparr>ct_clock = 50, ct_now = 3, ct_ids = (''t2'', ''r2'')\<rparr>) [example_schedule (Cron ''0 0 * * *'')] q =
       (q, Some (Inr ()))"
proof -
  let ?s = "example_schedule (Cron ''0 0 * * *'')" and ?empty = "\<lparr>q_tasks = [], q_runs = []\<rparr> :: absurd_queue"
  let ?at = "\<lambda>_. \<lparr>ct_clock = 50, ct_now = 3, ct_ids = (''t2'', ''r2'')\<rparr> :: call_time"
  obtain q1 where first: "spawn_schedule_tick example_schedule_env \<lparr>ct_clock = 1, ct_now = 1, ct_ids = (''t1'', ''r1'')\<rparr> ?s 100 ?empty = (q1, Inr ())"
    and q1: "map at_task_id (q_tasks q1) = [''t1'']" "\<forall>t \<in> set (q_tasks q1). task_live t"
    using tick_named by (simp add: spawn_schedule_tick_def client_spawn_def spawn_task_def resolve_spawn_def row_by_def new_task_def task_live_def
        terminal_states_def)
  define q2 where "q2 = fst (sql_cancel_task 2 ''t1'' q1)"
  have "queue_step\<^sup>*\<^sup>* q1 q2" unfolding q2_def by (rule r_into_rtranclp, rule cancel_step)
  moreover have gone: "\<not> has_active_schedule_tick ''nightly'' q2"
    using q1 by (auto simp: q2_def has_active_schedule_tick_def sql_cancel_task_def row_by_def sql_update_def cancel_task_f_def task_live_def
        terminal_states_def map_eq_Cons_conv)
  moreover have "queue_inv ?empty" by (simp add: queue_inv_def unique_index_def)
  moreover have "next_schedule_time example_schedule_env ?s (ct_clock (?at (rs_schedule_id ?s))) = Some (Inr 100)"
    by (simp add: next_schedule_time_def next_cron_time_def example_schedule_def example_schedule_env_def)
  ultimately show ?thesis
    using cancelled_tick_not_restored [OF first, of q2 ?at] by (auto simp: example_schedule_def)
qed

end
