(* ===== verification/Console_Conflicts.thy ===== *)
theory Console_Conflicts
  imports Json_Value
begin

text \<open>
  The credentials a proxy configuration is built from and the withholding of overwritten ones
  (\<^verbatim>\<open>crates/centaur-console-db/src/models.rs\<close> and \<^verbatim>\<open>conflicts.rs\<close>). \<open>lower\<close> stands for
  \<^verbatim>\<open>str::to_lowercase\<close>, whose Unicode tables are left open: nothing is assumed of it.
\<close>

section \<open>Credential records\<close>

datatype CredentialKind = KStatic | KGcpAuth | KGcpIdToken | KAwsAuth | KOauthToken | KPgDsn | KHmac

definition credential_kind_parse :: "string \<Rightarrow> CredentialKind option" where
  "credential_kind_parse value =
     map_of [(''static'', KStatic), (''gcp_auth'', KGcpAuth), (''gcp_id_token'', KGcpIdToken), (''aws_auth'', KAwsAuth),
       (''oauth_token'', KOauthToken), (''pg_dsn'', KPgDsn), (''hmac'', KHmac)] value"

record StaticData =
  inject_config :: "json option"
  replace_config :: "json option"

record GcpAuthData =
  credentials_provider :: "json option"
  gcp_subject :: "string option"
  gcp_scopes :: "string list"

record GcpIdTokenData =
  id_audience :: string
  id_header :: "string option"

record AwsAuthData =
  allowed_regions :: "string list"
  allowed_services :: "string list"

record OauthTokenData =
  oa_grant :: string
  oa_token_endpoint :: string
  oa_audience :: "string option"
  oa_scopes :: "string list"
  oa_header :: "string option"
  oa_value_prefix :: "string option"

record PostgresValueFrom =
  principal_label :: "string option"
  proxy_label :: "string option"
  principal_field_name :: "string option"

record PostgresSetting =
  ps_name :: string
  ps_value :: "json option"
  ps_value_from :: "PostgresValueFrom option"

record PgDsnData =
  pg_foreign_id :: string
  pg_database :: string
  pg_role :: "string option"
  pg_settings :: "PostgresSetting list"

record HmacHeader =
  hh_name :: string
  hh_value :: string

record HmacData =
  timestamp_format :: string
  signature_algorithm :: string
  signature_key_encoding :: string
  signature_output_encoding :: string
  signature_message :: string
  hm_headers :: "HmacHeader list"
  allow_chunked_body :: bool

datatype CredentialData =
    StaticSecret StaticData
  | GcpAuth GcpAuthData
  | GcpIdToken GcpIdTokenData
  | AwsAuth AwsAuthData
  | OauthToken OauthTokenData
  | PgDsn PgDsnData
  | Hmac HmacData

record SecretSource =
  source_type :: string
  src_config :: "(string \<times> json) list"
  src_secret :: "string option"
  broker_access_token :: "string option"
  src_role :: "string option"
  role_kind :: "string option"

record RequestRule =
  rule_host :: "string option"
  rule_cidr :: "string option"
  http_methods :: "string list"
  rule_paths :: "string list"

record Credential =
  cr_kind :: CredentialKind
  cr_id :: int
  cr_priority :: int
  cr_data :: CredentialData
  cr_sources :: "SecretSource list"
  cr_rules :: "RequestRule list"

section \<open>Host patterns\<close>

definition star :: string where
  "star = ''*''"

definition is_wildcard :: "string \<Rightarrow> bool" where
  "is_wildcard host \<longleftrightarrow> star \<in> set (split_on (CHR ''.'') host)"

definition label_count :: "string \<Rightarrow> nat" where
  "label_count host = length (split_on (CHR ''.'') host)"

definition labels_match :: "string list \<Rightarrow> string list \<Rightarrow> bool" where
  "labels_match a b = list_all (\<lambda>(x, y). x = star \<or> y = star \<or> x = y) (zip a b)"

definition hosts_overlap :: "string \<Rightarrow> string \<Rightarrow> bool" where
  "hosts_overlap a b \<longleftrightarrow>
     (if a = b \<or> a = star \<or> b = star then True
      else label_count a = label_count b \<and> labels_match (split_on (CHR ''.'') a) (split_on (CHR ''.'') b))"

section \<open>Claims\<close>

datatype Scope = Host string | Cidr string

text \<open>The claims accepted for one target; \<open>exact\<close> is the association list of a \<^verbatim>\<open>HashMap\<close>.\<close>

record Claimed =
  exact :: "(Scope \<times> int) list"
  wildcards :: "(string \<times> int) list"

definition claimed_default :: Claimed where
  "claimed_default = \<lparr>exact = [], wildcards = []\<rparr>"

definition overlapping_wildcard :: "Claimed \<Rightarrow> int \<Rightarrow> string \<Rightarrow> bool" where
  "overlapping_wildcard c priority host = list_ex (\<lambda>(pattern, claimed). priority < claimed \<and> hosts_overlap pattern host) (wildcards c)"

definition exact_above :: "Claimed \<Rightarrow> int \<Rightarrow> Scope \<Rightarrow> bool" where
  "exact_above c priority scope = (case map_of (exact c) scope of None \<Rightarrow> False | Some claimed \<Rightarrow> priority < claimed)"

fun stronger :: "Claimed \<Rightarrow> Scope \<Rightarrow> int \<Rightarrow> bool" where
  "stronger c (Host host) priority =
     (if is_wildcard host
      then overlapping_wildcard c priority host \<or>
        list_ex (\<lambda>(other, claimed). priority < claimed \<and>
          (case other of Host e \<Rightarrow> hosts_overlap host e | Cidr _ \<Rightarrow> False)) (exact c)
      else exact_above c priority (Host host) \<or> overlapping_wildcard c priority host)"
| "stronger c (Cidr cidr) priority = exact_above c priority (Cidr cidr)"

definition or_insert :: "Scope \<Rightarrow> int \<Rightarrow> (Scope \<times> int) list \<Rightarrow> (Scope \<times> int) list" where
  "or_insert k v m = (if map_of m k = None then m @ [(k, v)] else m)"

fun claimed_insert :: "Scope \<Rightarrow> int \<Rightarrow> Claimed \<Rightarrow> Claimed" where
  "claimed_insert (Host host) priority c =
     (if is_wildcard host then c\<lparr>wildcards := wildcards c @ [(host, priority)]\<rparr>
      else c\<lparr>exact := or_insert (Host host) priority (exact c)\<rparr>)"
| "claimed_insert (Cidr cidr) priority c = c\<lparr>exact := or_insert (Cidr cidr) priority (exact c)\<rparr>"

definition json_present :: "json \<Rightarrow> bool" where
  "json_present v = (case v of JNull \<Rightarrow> False | JStr s \<Rightarrow> s \<noteq> [] | JArr xs \<Rightarrow> xs \<noteq> [] | JObj kvs \<Rightarrow> kvs \<noteq> [] | _ \<Rightarrow> True)"

definition nonblank :: "json option \<Rightarrow> string option" where
  "nonblank v = Option.bind (Option.bind v as_str) (\<lambda>s. if trim s = [] then None else Some s)"

definition header_target :: "(string \<Rightarrow> string) \<Rightarrow> string option \<Rightarrow> string" where
  "header_target lower header =
     ''header:'' @ lower (case Option.bind header (\<lambda>h. nonempty_text (trim h)) of None \<Rightarrow> ''authorization'' | Some h \<Rightarrow> h)"

definition match_headers :: "StaticData \<Rightarrow> string list" where
  "match_headers d =
     (case Option.bind (replace_config d) (get_key ''match_headers'') of
        Some (JArr xs) \<Rightarrow> List.map_filter as_str xs
      | _ \<Rightarrow> [])"

definition static_targets :: "(string \<Rightarrow> string) \<Rightarrow> StaticData \<Rightarrow> string list" where
  "static_targets lower d =
     (case Option.bind (inject_config d) (\<lambda>v. if json_present v then Some v else None) of
        Some inject \<Rightarrow>
          (case nonblank (get_key ''header'' inject) of
             Some header \<Rightarrow> [''header:'' @ lower header]
           | None \<Rightarrow> (case nonblank (get_key ''query_param'' inject) of
                 Some param \<Rightarrow> [''query:'' @ param]
               | None \<Rightarrow> []))
      | None \<Rightarrow> map (\<lambda>h. ''header:'' @ lower h) (match_headers d))"

definition targets :: "(string \<Rightarrow> string) \<Rightarrow> CredentialData \<Rightarrow> string list" where
  "targets lower data =
     (case data of
        StaticSecret d \<Rightarrow> static_targets lower d
      | GcpAuth _ \<Rightarrow> [''header:authorization'']
      | AwsAuth _ \<Rightarrow> [''header:authorization'']
      | OauthToken d \<Rightarrow> [header_target lower (oa_header d)]
      | GcpIdToken d \<Rightarrow> [header_target lower (id_header d)]
      | Hmac d \<Rightarrow> map (\<lambda>h. ''header:'' @ lower (hh_name h)) (hm_headers d)
      | PgDsn _ \<Rightarrow> [])"

definition trim_dots :: "string \<Rightarrow> string" where
  "trim_dots s = rev (dropWhile (\<lambda>c. c = CHR ''.'') (rev s))"

definition rule_scope :: "(string \<Rightarrow> string) \<Rightarrow> RequestRule \<Rightarrow> Scope option" where
  "rule_scope lower rule =
     (case Option.bind (rule_host rule) (\<lambda>h. if trim h = [] then None else Some h) of
        Some host \<Rightarrow> Some (Host (lower (trim_dots (trim host))))
      | None \<Rightarrow> map_option Cidr (Option.bind (rule_cidr rule) (\<lambda>c. if trim c = [] then None else Some c)))"

definition claims :: "(string \<Rightarrow> string) \<Rightarrow> Credential \<Rightarrow> (Scope \<times> string) list" where
  "claims lower credential =
     concat (map (\<lambda>scope. map (\<lambda>target. (scope, target)) (targets lower (cr_data credential)))
       (List.map_filter (rule_scope lower) (cr_rules credential)))"

section \<open>Withholding\<close>

definition claimed_entry :: "(string \<rightharpoonup> Claimed) \<Rightarrow> string \<Rightarrow> Claimed" where
  "claimed_entry m target = (case m target of None \<Rightarrow> claimed_default | Some c \<Rightarrow> c)"

definition beaten :: "(string \<rightharpoonup> Claimed) \<Rightarrow> int \<Rightarrow> (Scope \<times> string) list \<Rightarrow> bool" where
  "beaten m priority cl =
     list_ex (\<lambda>(scope, target). case m target of None \<Rightarrow> False | Some c \<Rightarrow> stronger c scope priority) cl"

definition accept :: "int \<Rightarrow> (Scope \<times> string) list \<Rightarrow> (string \<rightharpoonup> Claimed) \<Rightarrow> (string \<rightharpoonup> Claimed)" where
  "accept priority cl m =
     fold (\<lambda>(scope, target) m. m(target \<mapsto> claimed_insert scope priority (claimed_entry m target))) cl m"

definition suppress_step ::
  "(string \<Rightarrow> string) \<Rightarrow> Credential list \<Rightarrow> nat \<Rightarrow> (string \<rightharpoonup> Claimed) \<times> bool list \<Rightarrow> (string \<rightharpoonup> Claimed) \<times> bool list" where
  "suppress_step lower cs index st =
     (let priority = cr_priority (cs ! index); cl = claims lower (cs ! index) in
      if beaten (fst st) priority cl then (fst st, (snd st)[index := True])
      else (accept priority cl (fst st), snd st))"

definition suppress :: "(string \<Rightarrow> string) \<Rightarrow> Credential list \<Rightarrow> Credential list" where
  "suppress lower cs =
     (let indexes = sort_key (\<lambda>index. - cr_priority (cs ! index)) [0..<length cs];
          suppressed = snd (fold (suppress_step lower cs) indexes (Map.empty, replicate (length cs) False))
      in map fst (filter (\<lambda>(c, s). \<not> s) (zip cs suppressed)))"

section \<open>The claims of one target\<close>

text \<open>When two scopes name a common host or the same block.\<close>

fun scopes_overlap :: "Scope \<Rightarrow> Scope \<Rightarrow> bool" where
  "scopes_overlap (Host a) (Host b) = hosts_overlap a b"
| "scopes_overlap (Cidr a) (Cidr b) = (a = b)"
| "scopes_overlap _ _ = False"

fun scope_wild :: "Scope \<Rightarrow> bool" where
  "scope_wild (Host h) = is_wildcard h"
| "scope_wild (Cidr _) = False"

lemma star_wild: "is_wildcard star"
  by (simp add: is_wildcard_def star_def)

lemma hosts_overlap_refl [simp]: "hosts_overlap a a"
  by (simp add: hosts_overlap_def)

lemma labels_match_sym: "labels_match a b = labels_match b a"
  unfolding labels_match_def by (simp add: zip_commute [of a b] list.pred_map list_all_iff split_beta) metis

lemma labels_match_exact:
  "length a = length b \<Longrightarrow> star \<notin> set a \<Longrightarrow> star \<notin> set b \<Longrightarrow> labels_match a b \<longleftrightarrow> a = b"
  unfolding labels_match_def by (induction a b rule: list_induct2) auto

lemma hosts_overlap_sym: "hosts_overlap a b \<longleftrightarrow> hosts_overlap b a"
  unfolding hosts_overlap_def labels_match_sym [of "split_on (CHR ''.'') a"] by (simp only: eq_commute [of a] eq_commute [of "label_count a"] disj_comms)

lemma split_on_inject: "split_on c a = split_on c b \<longleftrightarrow> a = b"
  by (metis join_split_on)

lemma exact_hosts_overlap:
  assumes "\<not> is_wildcard a" and "\<not> is_wildcard b"
  shows "hosts_overlap a b \<longleftrightarrow> a = b"
proof -
  have "a \<noteq> star" "b \<noteq> star" using assms star_wild by auto
  moreover have "label_count a = label_count b \<Longrightarrow>
      labels_match (split_on (CHR ''.'') a) (split_on (CHR ''.'') b) \<longleftrightarrow> a = b"
    using assms unfolding is_wildcard_def label_count_def by (simp add: labels_match_exact split_on_inject)
  ultimately show ?thesis by (auto simp: hosts_overlap_def)
qed

text \<open>\<open>represents cl c\<close>: \<open>c\<close> holds the claims \<open>cl\<close>, the strongest first.\<close>

definition represents :: "(Scope \<times> int) set \<Rightarrow> Claimed \<Rightarrow> bool" where
  "represents cl c \<longleftrightarrow>
     (\<forall>h p. (h, p) \<in> set (wildcards c) \<longleftrightarrow> (Host h, p) \<in> cl \<and> is_wildcard h) \<and>
     (\<forall>s p. (s, p) \<in> set (exact c) \<longrightarrow> (s, p) \<in> cl \<and> \<not> scope_wild s) \<and>
     (\<forall>s p. (s, p) \<in> cl \<longrightarrow> \<not> scope_wild s \<longrightarrow> (\<exists>q \<ge> p. map_of (exact c) s = Some q))"

lemma represents_default: "represents {} claimed_default"
  by (simp add: represents_def claimed_default_def)

lemma represents_insert:
  assumes "represents cl c" and "\<forall>(s', p') \<in> cl. p \<le> p'"
  shows "represents (insert (s, p) cl) (claimed_insert s p c)"
proof (cases "scope_wild s")
  case True
  then obtain h where "s = Host h" "is_wildcard h" by (cases s) auto
  then show ?thesis using assms(1) by (auto simp: represents_def)
next
  case False
  then have c: "claimed_insert s p c = c\<lparr>exact := or_insert s p (exact c)\<rparr>" by (cases s) auto
  show ?thesis
  proof (cases "map_of (exact c) s")
    case None
    have "\<exists>q \<ge> p'. map_of (exact c @ [(s, p)]) s' = Some q" if h: "(s', p') \<in> insert (s, p) cl" "\<not> scope_wild s'" for s' p'
    proof (cases "s' = s")
      case True
      then have "p' = p" using h None assms(1) by (fastforce simp: represents_def)
      then show ?thesis using None True by (simp add: map_add_def)
    next
      case False
      then have "(s', p') \<in> cl" using h by simp
      then obtain q where "p' \<le> q" "map_of (exact c) s' = Some q" using h(2) assms(1) unfolding represents_def by blast
      then show ?thesis by (auto simp: map_add_def split: option.split)
    qed
    then show ?thesis using assms(1) False None unfolding c represents_def or_insert_def by auto
  next
    case (Some q)
    then have "(s, q) \<in> cl" using assms(1) by (auto simp: represents_def dest: map_of_SomeD)
    then have "p \<le> q" using assms(2) by auto
    then show ?thesis using assms(1) False Some unfolding c represents_def or_insert_def by auto
  qed
qed

lemma stronger_iff:
  assumes "represents cl c"
  shows "stronger c s p \<longleftrightarrow> (\<exists>(s', p') \<in> cl. p < p' \<and> scopes_overlap s' s)"
proof -
  have wild: "overlapping_wildcard c p h \<longleftrightarrow> (\<exists>g q. (Host g, q) \<in> cl \<and> is_wildcard g \<and> p < q \<and> hosts_overlap g h)" for h
    using assms by (auto simp: represents_def overlapping_wildcard_def list_ex_iff)
  have ex: "exact_above c p t \<longleftrightarrow> (\<exists>q. (t, q) \<in> cl \<and> p < q)" if "\<not> scope_wild t" for t
  proof
    assume "exact_above c p t"
    then obtain q where "map_of (exact c) t = Some q" "p < q" by (auto simp: exact_above_def split: option.splits)
    then show "\<exists>q. (t, q) \<in> cl \<and> p < q" using assms map_of_SomeD by (fastforce simp: represents_def)
  next
    assume "\<exists>q. (t, q) \<in> cl \<and> p < q"
    then obtain q where q: "(t, q) \<in> cl" "p < q" by blast
    then obtain q' where "q \<le> q'" "map_of (exact c) t = Some q'" using assms \<open>\<not> scope_wild t\<close> unfolding represents_def by blast
    then show "exact_above c p t" using q by (simp add: exact_above_def)
  qed
  show ?thesis
  proof (cases s)
    case (Cidr b)
    have "scopes_overlap t (Cidr b) \<longleftrightarrow> t = Cidr b" for t by (cases t) auto
    then show ?thesis using ex [of s] Cidr by auto
  next
    case (Host h)
    show ?thesis
    proof (cases "is_wildcard h")
      case False
      have "scopes_overlap t (Host h) \<longleftrightarrow> t = Host h \<or> (\<exists>g. t = Host g \<and> is_wildcard g \<and> hosts_overlap g h)" for t
        using False exact_hosts_overlap by (cases t) auto
      then show ?thesis using ex [of s] wild Host False by auto
    next
      case True
      have "list_ex (\<lambda>(other, claimed). p < claimed \<and> (case other of Host e \<Rightarrow> hosts_overlap h e | Cidr _ \<Rightarrow> False)) (exact c) \<longleftrightarrow>
          (\<exists>g q. (Host g, q) \<in> cl \<and> \<not> is_wildcard g \<and> p < q \<and> hosts_overlap g h)" (is "?l \<longleftrightarrow> ?r")
      proof
        show "?l \<Longrightarrow> ?r"
          using assms by (fastforce simp: represents_def list_ex_iff hosts_overlap_sym split: Scope.splits)
        assume ?r
        then obtain g q where g: "(Host g, q) \<in> cl" "\<not> is_wildcard g" "p < q" "hosts_overlap g h" by blast
        then have "\<not> scope_wild (Host g)" by simp
        then obtain q' where "q \<le> q'" "map_of (exact c) (Host g) = Some q'" using assms g(1) unfolding represents_def by blast
        then have "(Host g, q') \<in> set (exact c)" "p < q'" "hosts_overlap h g" using map_of_SomeD g hosts_overlap_sym by auto
        then show ?l unfolding list_ex_iff by (intro bexI [of _ "(Host g, q')"]) auto
      qed
      moreover have "scopes_overlap t (Host h) \<longleftrightarrow> (\<exists>g. t = Host g \<and> hosts_overlap g h)" for t by (cases t) auto
      ultimately show ?thesis using wild Host True by (auto, blast)
    qed
  qed
qed

section \<open>The claims of every target\<close>

definition holds_claims :: "(Scope \<times> string \<times> int) set \<Rightarrow> (string \<rightharpoonup> Claimed) \<Rightarrow> bool" where
  "holds_claims P m \<longleftrightarrow> (\<forall>t. represents {(s, p). (s, t, p) \<in> P} (claimed_entry m t))"

definition claims_at :: "int \<Rightarrow> (Scope \<times> string) list \<Rightarrow> (Scope \<times> string \<times> int) set" where
  "claims_at p cl = (\<lambda>(s, t). (s, t, p)) ` set cl"

lemma in_claims_at [simp]: "(s, t, q) \<in> claims_at p cl \<longleftrightarrow> (s, t) \<in> set cl \<and> q = p"
  by (auto simp: claims_at_def)

lemma accept_holds:
  assumes "holds_claims P m" and "\<forall>(s, t, q) \<in> P. p \<le> q"
  shows "holds_claims (P \<union> claims_at p cl) (accept p cl m)"
  using assms
proof (induction cl arbitrary: P m)
  case Nil
  then show ?case by (simp add: accept_def claims_at_def)
next
  case (Cons a cl)
  obtain s t where a: "a = (s, t)" by force
  let ?m = "m(t \<mapsto> claimed_insert s p (claimed_entry m t))"
  have "represents (insert (s, p) {(s, q). (s, t, q) \<in> P}) (claimed_insert s p (claimed_entry m t))"
    using Cons.prems by (intro represents_insert) (auto simp: holds_claims_def)
  moreover have "{(s', q). (s', t', q) \<in> insert (s, t, p) P} =
      (if t' = t then insert (s, p) {(s, q). (s, t, q) \<in> P} else {(s, q). (s, t', q) \<in> P})" for t'
    by auto
  ultimately have "holds_claims (insert (s, t, p) P) ?m"
    using Cons.prems(1) by (simp add: holds_claims_def claimed_entry_def)
  moreover have "\<forall>(s, t, q) \<in> insert (s, t, p) P. p \<le> q" using Cons.prems(2) by auto
  ultimately have "holds_claims (insert (s, t, p) P \<union> claims_at p cl) (accept p cl ?m)" by (rule Cons.IH)
  then show ?case by (simp add: a accept_def claims_at_def)
qed

lemma beaten_iff:
  assumes "holds_claims P m"
  shows "beaten m p cl \<longleftrightarrow> (\<exists>(s, t) \<in> set cl. \<exists>s' q. (s', t, q) \<in> P \<and> p < q \<and> scopes_overlap s' s)"
proof -
  have "(case m t of None \<Rightarrow> False | Some c \<Rightarrow> stronger c s p) \<longleftrightarrow> stronger (claimed_entry m t) s p" for s t
    by (cases "m t"; cases s) (simp_all add: claimed_entry_def claimed_default_def overlapping_wildcard_def exact_above_def)
  moreover have "stronger (claimed_entry m t) s p \<longleftrightarrow> (\<exists>s' q. (s', t, q) \<in> P \<and> p < q \<and> scopes_overlap s' s)" for s t
    using stronger_iff assms by (fastforce simp: holds_claims_def)
  ultimately show ?thesis by (simp add: beaten_def list_ex_iff)
qed

section \<open>Which credentials are withheld\<close>

text \<open>
  The rule as stated for operators: a credential overwrites another when it has the higher priority and
  both write one target on overlapping scopes; withheld is what a credential that is not withheld
  overwrites.
\<close>

definition overwrites :: "(string \<Rightarrow> string) \<Rightarrow> Credential \<Rightarrow> Credential \<Rightarrow> bool" where
  "overwrites lower d c \<longleftrightarrow> cr_priority c < cr_priority d \<and>
     (\<exists>(s, t) \<in> set (claims lower c). \<exists>(s', t') \<in> set (claims lower d). t' = t \<and> scopes_overlap s' s)"

definition withholding :: "(string \<Rightarrow> string) \<Rightarrow> Credential list \<Rightarrow> bool list \<Rightarrow> bool" where
  "withholding lower cs w \<longleftrightarrow> length w = length cs \<and>
     (\<forall>i < length cs. w ! i \<longleftrightarrow> (\<exists>j < length cs. \<not> w ! j \<and> overwrites lower (cs ! j) (cs ! i)))"

lemma withholding_unique:
  assumes "withholding lower cs v" and "withholding lower cs w"
  shows "v = w"
proof -
  have "v ! i = w ! i" if "i < length cs" for i
    using that
  proof (induction "card {j. j < length cs \<and> cr_priority (cs ! i) < cr_priority (cs ! j)}" arbitrary: i rule: less_induct)
    case less
    have "v ! j = w ! j" if "j < length cs" "overwrites lower (cs ! j) (cs ! i)" for j
    proof (rule less.hyps)
      have "{k. k < length cs \<and> cr_priority (cs ! j) < cr_priority (cs ! k)} \<subset>
          {k. k < length cs \<and> cr_priority (cs ! i) < cr_priority (cs ! k)}"
        using that by (force simp: overwrites_def)
      then show "card {k. k < length cs \<and> cr_priority (cs ! j) < cr_priority (cs ! k)} <
          card {k. k < length cs \<and> cr_priority (cs ! i) < cr_priority (cs ! k)}"
        by (intro psubset_card_mono) auto
    qed fact
    moreover have "v ! i \<longleftrightarrow> (\<exists>j < length cs. \<not> v ! j \<and> overwrites lower (cs ! j) (cs ! i))"
      "w ! i \<longleftrightarrow> (\<exists>j < length cs. \<not> w ! j \<and> overwrites lower (cs ! j) (cs ! i))"
      using assms less.prems unfolding withholding_def by blast+
    ultimately show ?case by blast
  qed
  then show ?thesis using assms by (intro nth_equalityI) (auto simp: withholding_def)
qed

definition accepted :: "(string \<Rightarrow> string) \<Rightarrow> Credential list \<Rightarrow> nat list \<Rightarrow> bool list \<Rightarrow> (Scope \<times> string \<times> int) set" where
  "accepted lower cs is w = (\<Union>i \<in> {i \<in> set is. \<not> w ! i}. claims_at (cr_priority (cs ! i)) (claims lower (cs ! i)))"

lemma beaten_overwritten:
  assumes "holds_claims (accepted lower cs is w) m"
  shows "beaten m (cr_priority c) (claims lower c) \<longleftrightarrow> (\<exists>j \<in> set is. \<not> w ! j \<and> overwrites lower (cs ! j) c)"
  unfolding beaten_iff [OF assms] accepted_def overwrites_def by (auto, blast+)

lemma suppress_fold:
  assumes "distinct is" and "set is \<subseteq> {..<length cs}"
    and "sorted_wrt (\<lambda>i j. cr_priority (cs ! j) \<le> cr_priority (cs ! i)) is"
    and "fold (suppress_step lower cs) is (Map.empty, replicate (length cs) False) = (m, w)"
  shows "length w = length cs \<and> holds_claims (accepted lower cs is w) m \<and>
    (\<forall>i < length cs. w ! i \<longleftrightarrow> i \<in> set is \<and> (\<exists>j \<in> set is. \<not> w ! j \<and> overwrites lower (cs ! j) (cs ! i)))"
  using assms
proof (induction "is" arbitrary: m w rule: rev_induct)
  case Nil
  then show ?case
    using represents_default by (auto simp: holds_claims_def accepted_def claimed_entry_def)
next
  case (snoc i "is")
  obtain m0 w0 where f: "fold (suppress_step lower cs) is (Map.empty, replicate (length cs) False) = (m0, w0)" by force
  have IH: "length w0 = length cs" "holds_claims (accepted lower cs is w0) m0"
    "\<And>k. k < length cs \<Longrightarrow> w0 ! k \<longleftrightarrow> k \<in> set is \<and> (\<exists>j \<in> set is. \<not> w0 ! j \<and> overwrites lower (cs ! j) (cs ! k))"
    using snoc.IH [OF _ _ _ f] snoc.prems by (simp_all add: sorted_wrt_append)
  have i: "i < length cs" "i \<notin> set is" "\<not> w0 ! i" using snoc.prems IH(3) [of i] by auto
  have low: "cr_priority (cs ! i) \<le> cr_priority (cs ! j)" if "j \<in> set (is @ [i])" for j
    using snoc.prems(3) that by (auto simp: sorted_wrt_append)
  then have no: "\<not> overwrites lower (cs ! i) (cs ! j)" if "j \<in> set (is @ [i])" for j
    using that by (fastforce simp: overwrites_def)
  let ?b = "beaten m0 (cr_priority (cs ! i)) (claims lower (cs ! i))"
  have b: "?b \<longleftrightarrow> (\<exists>j \<in> set is. \<not> w0 ! j \<and> overwrites lower (cs ! j) (cs ! i))" by (rule beaten_overwritten [OF IH(2)])
  have mw: "m = (if ?b then m0 else accept (cr_priority (cs ! i)) (claims lower (cs ! i)) m0)" "w = (if ?b then w0[i := True] else w0)"
  proof -
    have "suppress_step lower cs i (m0, w0) = (m, w)" using snoc.prems(4) f by simp
    then show "m = (if ?b then m0 else accept (cr_priority (cs ! i)) (claims lower (cs ! i)) m0)" "w = (if ?b then w0[i := True] else w0)"
      by (auto simp: suppress_step_def Let_def)
  qed
  have w: "w ! j = w0 ! j" if "j \<noteq> i" for j using that mw(2) by simp
  have wi: "w ! i \<longleftrightarrow> ?b" using mw(2) i IH(1) by simp
  have "{k \<in> set (is @ [i]). \<not> w ! k} = {k \<in> set is. \<not> w0 ! k} \<union> (if ?b then {} else {i})"
    using wi i(2) by (auto simp: w split: if_splits) (metis w)+
  then have "accepted lower cs (is @ [i]) w = accepted lower cs is w0 \<union>
      (if ?b then {} else claims_at (cr_priority (cs ! i)) (claims lower (cs ! i)))"
    unfolding accepted_def by simp
  moreover have "\<forall>(s, t, q) \<in> accepted lower cs is w0. cr_priority (cs ! i) \<le> q"
    using low by (auto simp: accepted_def)
  ultimately have "holds_claims (accepted lower cs (is @ [i]) w) m"
    using accept_holds [OF IH(2)] IH(2) mw(1) by simp
  moreover have "w ! k \<longleftrightarrow> k \<in> set (is @ [i]) \<and> (\<exists>j \<in> set (is @ [i]). \<not> w ! j \<and> overwrites lower (cs ! j) (cs ! k))"
    if "k < length cs" for k
    using IH(3) [OF that] wi b w i(2) no by (cases "k = i") (auto, metis+)
  ultimately show ?case using mw(2) IH(1) by simp
qed

lemma suppressed_withholding:
  "withholding lower cs (snd (fold (suppress_step lower cs) (sort_key (\<lambda>i. - cr_priority (cs ! i)) [0..<length cs])
     (Map.empty, replicate (length cs) False)))"
proof -
  define js where "js = sort_key (\<lambda>i. - cr_priority (cs ! i)) [0..<length cs]"
  obtain m w where f: "fold (suppress_step lower cs) js (Map.empty, replicate (length cs) False) = (m, w)" by force
  have "sorted_wrt (\<lambda>i j. - cr_priority (cs ! i) \<le> - cr_priority (cs ! j)) js"
    using sorted_sort_key [of "\<lambda>i. - cr_priority (cs ! i)" "[0..<length cs]"] by (simp add: js_def sorted_map)
  then have "length w = length cs \<and> holds_claims (accepted lower cs js w) m \<and>
    (\<forall>i < length cs. w ! i \<longleftrightarrow> i \<in> set js \<and> (\<exists>j \<in> set js. \<not> w ! j \<and> overwrites lower (cs ! j) (cs ! i)))"
    by (intro suppress_fold [OF _ _ _ f]) (auto simp: js_def)
  moreover have "j \<in> set js \<longleftrightarrow> j < length cs" for j by (simp add: js_def)
  ultimately have "withholding lower cs w" unfolding withholding_def by blast
  then show ?thesis using f by (simp add: js_def [symmetric])
qed

text \<open>
  C11. The credentials \<open>suppress\<close> delivers are exactly those of the stated rule, which determines them
  uniquely: a credential is withheld when and only when a credential that is itself delivered has a
  strictly higher priority and writes the same target on an overlapping host or block. The order of the
  credentials, the claim tables and the sort have no other effect.
\<close>

theorem suppress_equivalence:
  "\<exists>w. {v. withholding lower cs v} = {w} \<and> suppress lower cs = map fst (filter (\<lambda>(c, withheld). \<not> withheld) (zip cs w))"
proof -
  define w where "w = snd (fold (suppress_step lower cs) (sort_key (\<lambda>i. - cr_priority (cs ! i)) [0..<length cs])
     (Map.empty, replicate (length cs) False))"
  have "withholding lower cs w" unfolding w_def by (rule suppressed_withholding)
  then have "{v. withholding lower cs v} = {w}" using withholding_unique by blast
  moreover have "suppress lower cs = map fst (filter (\<lambda>(c, withheld). \<not> withheld) (zip cs w))"
    unfolding suppress_def Let_def w_def ..
  ultimately show ?thesis by blast
qed

end
