(* ===== verification/Console_Config.thy ===== *)
theory Console_Config
  imports Console_Conflicts
begin

text \<open>
  The proxy configuration built from a principal's credentials
  (\<^verbatim>\<open>crates/centaur-console-db/src/config.rs\<close>), from the credentials \<^verbatim>\<open>load_credentials\<close> returns.
  Arguments: \<open>decrypt\<close> of the encryption crate, \<open>oid\<close> (sqids over a hashed alphabet) and
  \<open>to_string\<close>, serde_json's printer; nothing is assumed of them.
\<close>

datatype ConsoleError = Encryption string | InvalidData string

type_synonym 'a console_result = "ConsoleError + 'a"

datatype SecretValues = Live "string \<Rightarrow> string console_result" | Redacted

definition REDACTED :: string where
  "REDACTED = ''[redacted]''"

record Subject =
  principal_id :: int
  principal_row :: "json option"
  console_user_id :: "int option"
  console_user_email :: "string option"
  slack_history_channel_ids :: json
  proxy_labels :: json

record Config =
  cfg_secrets :: "json list"
  cfg_transforms :: "json list"
  cfg_postgres :: "json list"

definition principal_field :: "Subject \<Rightarrow> string \<Rightarrow> json" where
  "principal_field subject field =
     (case Option.bind (principal_row subject) (get_key field) of None \<Rightarrow> JNull | Some v \<Rightarrow> v)"

section \<open>Entries\<close>

definition insert_present :: "string \<Rightarrow> json option \<Rightarrow> (string \<times> json) list \<Rightarrow> (string \<times> json) list" where
  "insert_present key v kvs = (case v of None \<Rightarrow> kvs | Some j \<Rightarrow> if json_present j then json_insert key j kvs else kvs)"

definition nonempty_option :: "string option \<Rightarrow> string option" where
  "nonempty_option v = Option.bind v nonempty_text"

definition insert_nonempty_string :: "string \<Rightarrow> string option \<Rightarrow> (string \<times> json) list \<Rightarrow> (string \<times> json) list" where
  "insert_nonempty_string key v kvs = insert_opt key (map_option JStr (nonempty_option v)) kvs"

definition insert_nonempty_vec :: "string \<Rightarrow> string list \<Rightarrow> (string \<times> json) list \<Rightarrow> (string \<times> json) list" where
  "insert_nonempty_vec key xs kvs = (if xs = [] then kvs else json_insert key (JArr (map JStr xs)) kvs)"

definition value_to_string :: "(json \<Rightarrow> string) \<Rightarrow> json \<Rightarrow> string" where
  "value_to_string to_string v = (case v of JNull \<Rightarrow> [] | JStr s \<Rightarrow> s | other \<Rightarrow> to_string other)"

text \<open>A \<^verbatim>\<open>{:?}\<close> of the kind, for the message of mismatched data.\<close>

fun kind_debug :: "CredentialKind \<Rightarrow> string" where
  "kind_debug KStatic = ''Static''"
| "kind_debug KGcpAuth = ''GcpAuth''"
| "kind_debug KGcpIdToken = ''GcpIdToken''"
| "kind_debug KAwsAuth = ''AwsAuth''"
| "kind_debug KOauthToken = ''OauthToken''"
| "kind_debug KPgDsn = ''PgDsn''"
| "kind_debug KHmac = ''Hmac''"

definition mismatched_data :: "Credential \<Rightarrow> ConsoleError" where
  "mismatched_data c = InvalidData (''credential '' @ show_int (cr_id c) @ '' data does not match '' @ kind_debug (cr_kind c))"

definition reveal :: "SecretValues \<Rightarrow> string \<Rightarrow> string console_result" where
  "reveal values raw = (case values of Live decrypt \<Rightarrow> decrypt raw | Redacted \<Rightarrow> Inr REDACTED)"

definition source_value :: "SecretValues \<Rightarrow> SecretSource \<Rightarrow> json option console_result" where
  "source_value values source =
     (if source_type source = ''token_broker''
      then (case broker_access_token source of
              None \<Rightarrow> Inr None
            | Some raw \<Rightarrow>
                res_bind (reveal values raw) (\<lambda>v.
                  Inr (if v = [] then None else Some (JObj [(''type'', JStr ''control_plane''), (''value'', JStr v)]))))
      else let result = json_insert ''type'' (JStr (source_type source)) (src_config source) in
        if source_type source = ''control_plane''
        then (case src_secret source of
                None \<Rightarrow> Inl (InvalidData ''control_plane source has no secret'')
              | Some raw \<Rightarrow> res_bind (reveal values raw) (\<lambda>v. Inr (Some (JObj (json_insert ''value'' (JStr v) result)))))
        else Inr (Some (JObj result)))"

definition proxy_rules :: "RequestRule list \<Rightarrow> json" where
  "proxy_rules rules =
     JArr (map (\<lambda>rule. JObj (insert_nonempty_vec ''paths'' (rule_paths rule)
       (insert_nonempty_vec ''methods'' (http_methods rule)
         (insert_nonempty_string ''cidr'' (rule_cidr rule) (insert_nonempty_string ''host'' (rule_host rule) []))))) rules)"

text \<open>The sources with a role, inserted under it, in order.\<close>

fun role_values :: "SecretValues \<Rightarrow> SecretSource list \<Rightarrow> (string \<times> json) list \<Rightarrow> (string \<times> json) list console_result" where
  "role_values values [] kvs = Inr kvs"
| "role_values values (source # sources) kvs =
     (case src_role source of
        None \<Rightarrow> role_values values sources kvs
      | Some role \<Rightarrow> res_bind (source_value values source) (\<lambda>v. role_values values sources (insert_opt role v kvs)))"

definition named_transform :: "string \<Rightarrow> (string \<times> json) list \<Rightarrow> json" where
  "named_transform name cfg = JObj [(''name'', JStr name), (''config'', JObj cfg)]"

definition transform :: "SecretValues \<Rightarrow> Credential \<Rightarrow> json console_result" where
  "transform values credential =
     (let rules = proxy_rules (cr_rules credential) in
      case cr_data credential of
        GcpAuth d \<Rightarrow>
          res_bind (case cr_sources credential of [] \<Rightarrow> Inr None | source # _ \<Rightarrow> source_value values source) (\<lambda>v.
            Inr (named_transform ''gcp_auth''
              (json_insert ''rules'' rules (json_insert ''scopes'' (JArr (map JStr (gcp_scopes d)))
                (insert_nonempty_string ''subject'' (gcp_subject d)
                  (insert_present ''credentials_provider'' (credentials_provider d) (insert_opt ''keyfile'' v [])))))))
      | GcpIdToken d \<Rightarrow>
          (case cr_sources credential of
             [] \<Rightarrow> Inl (InvalidData ''gcp_id_token source missing'')
           | source # _ \<Rightarrow>
               res_bind (source_value values source) (\<lambda>v.
                 case v of
                   None \<Rightarrow> Inl (InvalidData ''gcp_id_token source unavailable'')
                 | Some keyfile \<Rightarrow>
                     Inr (named_transform ''gcp_id_token''
                       (insert_nonempty_string ''header'' (id_header d)
                         [(''keyfile'', keyfile), (''audience'', JStr (id_audience d)), (''rules'', rules)]))))
      | AwsAuth d \<Rightarrow>
          res_bind (role_values values (cr_sources credential) []) (\<lambda>cfg.
            Inr (named_transform ''aws_auth''
              (json_insert ''rules'' rules (insert_nonempty_vec ''allowed_services'' (allowed_services d)
                (insert_nonempty_vec ''allowed_regions'' (allowed_regions d) cfg)))))
      | Hmac d \<Rightarrow>
          res_bind (role_values values (cr_sources credential) []) (\<lambda>creds.
            Inr (named_transform ''hmac_sign''
              ([(''credentials'', JObj creds), (''timestamp'', JObj [(''format'', JStr (timestamp_format d))]),
                (''signature'', JObj [(''algorithm'', JStr (signature_algorithm d)), (''key_encoding'', JStr (signature_key_encoding d)),
                   (''output_encoding'', JStr (signature_output_encoding d)), (''message'', JStr (signature_message d))]),
                (''headers'', JArr (map (\<lambda>h. JObj [(''name'', JStr (hh_name h)), (''value'', JStr (hh_value h))]) (hm_headers d))),
                (''rules'', rules)] @ (if allow_chunked_body d then [(''allow_chunked_body'', JBool True)] else []))))
      | _ \<Rightarrow> Inl (mismatched_data credential))"

fun oauth_sources ::
  "SecretValues \<Rightarrow> SecretSource list \<Rightarrow> (string \<times> json) list \<Rightarrow> (string \<times> json) list \<Rightarrow>
     ((string \<times> json) list \<times> (string \<times> json) list) console_result" where
  "oauth_sources values [] entry headers = Inr (entry, headers)"
| "oauth_sources values (source # sources) entry headers =
     (case src_role source of
        None \<Rightarrow> oauth_sources values sources entry headers
      | Some role \<Rightarrow>
          res_bind (source_value values source) (\<lambda>v.
            case v of
              None \<Rightarrow> oauth_sources values sources entry headers
            | Some j \<Rightarrow>
                if role_kind source = Some ''endpoint_header'' then oauth_sources values sources entry (json_insert role j headers)
                else oauth_sources values sources (json_insert role j entry) headers))"

definition oauth_entry :: "SecretValues \<Rightarrow> Credential \<Rightarrow> json console_result" where
  "oauth_entry values credential =
     (case cr_data credential of
        OauthToken d \<Rightarrow>
          res_bind (oauth_sources values (cr_sources credential)
              [(''grant'', JStr (oa_grant d)), (''token_endpoint'', JStr (oa_token_endpoint d))] []) (\<lambda>(entry, headers).
            Inr (JObj (json_insert ''rules'' (proxy_rules (cr_rules credential))
              (insert_opt ''token_endpoint_headers'' (if headers = [] then None else Some (JObj headers))
                (insert_nonempty_string ''value_prefix'' (oa_value_prefix d)
                  (insert_nonempty_string ''header'' (oa_header d)
                    (insert_nonempty_vec ''scopes'' (oa_scopes d)
                      (insert_nonempty_string ''audience'' (oa_audience d) entry))))))))
      | _ \<Rightarrow> Inl (mismatched_data credential))"

section \<open>Postgres\<close>

definition principal_setting :: "(string \<Rightarrow> int \<Rightarrow> string) \<Rightarrow> (json \<Rightarrow> string) \<Rightarrow> Subject \<Rightarrow> string \<Rightarrow> string" where
  "principal_setting oid to_string subject field =
     (if field = ''id'' then oid ''prn'' (principal_id subject)
      else if field = ''console_user_id'' then (case console_user_id subject of None \<Rightarrow> [] | Some i \<Rightarrow> oid ''usr'' i)
      else if field = ''console_user_email'' then (case console_user_email subject of None \<Rightarrow> [] | Some e \<Rightarrow> e)
      else if field = ''slack_history_channel_ids'' then to_string (slack_history_channel_ids subject)
      else value_to_string to_string (principal_field subject field))"

definition setting_value :: "(string \<Rightarrow> int \<Rightarrow> string) \<Rightarrow> (json \<Rightarrow> string) \<Rightarrow> Subject \<Rightarrow> PostgresSetting \<Rightarrow> string" where
  "setting_value oid to_string subject setting =
     (case ps_value_from setting of
        Some reference \<Rightarrow>
          (case nonempty_option (principal_label reference) of
             Some label \<Rightarrow>
               (case get_key label (principal_field subject ''labels'') of None \<Rightarrow> [] | Some v \<Rightarrow> value_to_string to_string v)
           | None \<Rightarrow>
               (case nonempty_option (proxy_label reference) of
                  Some label \<Rightarrow> (case get_str label (proxy_labels subject) of None \<Rightarrow> [] | Some s \<Rightarrow> s)
                | None \<Rightarrow>
                    (case principal_field_name reference of None \<Rightarrow> [] | Some field \<Rightarrow> principal_setting oid to_string subject field)))
      | None \<Rightarrow> (case ps_value setting of None \<Rightarrow> [] | Some v \<Rightarrow> value_to_string to_string v))"

definition postgres_settings ::
  "(string \<Rightarrow> int \<Rightarrow> string) \<Rightarrow> (json \<Rightarrow> string) \<Rightarrow> Subject \<Rightarrow> PostgresSetting list \<Rightarrow> json list" where
  "postgres_settings oid to_string subject settings =
     List.map_filter (\<lambda>setting.
       if trim (ps_name setting) = [] then None
       else Some (JObj [(''name'', JStr (trim (ps_name setting))), (''value'', JStr (setting_value oid to_string subject setting))])) settings"

definition postgres_entry ::
  "(string \<Rightarrow> int \<Rightarrow> string) \<Rightarrow> (json \<Rightarrow> string) \<Rightarrow> Subject \<Rightarrow> Credential \<Rightarrow> PgDsnData \<Rightarrow> json \<Rightarrow> json" where
  "postgres_entry oid to_string subject credential d dsn =
     (let settings = postgres_settings oid to_string subject (pg_settings d) in
      JObj (insert_opt ''settings'' (if settings = [] then None else Some (JArr settings))
        (insert_nonempty_string ''role'' (pg_role d)
          [(''id'', JStr (oid ''pgs'' (cr_id credential))), (''foreign_id'', JStr (pg_foreign_id d)),
           (''database'', JStr (pg_database d)), (''dsn'', dsn)])))"

text \<open>\<open>positions\<close> maps a database to the index of its entry; a later entry of the database replaces it.\<close>

fun append_postgres ::
  "(string \<Rightarrow> int \<Rightarrow> string) \<Rightarrow> (json \<Rightarrow> string) \<Rightarrow> Subject \<Rightarrow> SecretValues \<Rightarrow> Credential list \<Rightarrow>
     (string \<rightharpoonup> nat) \<Rightarrow> json list \<Rightarrow> json list console_result" where
  "append_postgres oid to_string subject values [] positions postgres = Inr postgres"
| "append_postgres oid to_string subject values (credential # cs) positions postgres =
     (if cr_kind credential \<noteq> KPgDsn then append_postgres oid to_string subject values cs positions postgres
      else case cr_data credential of
        PgDsn d \<Rightarrow>
          (case cr_sources credential of
             [] \<Rightarrow> append_postgres oid to_string subject values cs positions postgres
           | source # _ \<Rightarrow>
               res_bind (source_value values source) (\<lambda>v.
                 case v of
                   None \<Rightarrow> append_postgres oid to_string subject values cs positions postgres
                 | Some dsn \<Rightarrow>
                     let entry = postgres_entry oid to_string subject credential d dsn in
                     (case positions (pg_database d) of
                        Some index \<Rightarrow> append_postgres oid to_string subject values cs positions (postgres[index := entry])
                      | None \<Rightarrow> append_postgres oid to_string subject values cs
                          (positions(pg_database d \<mapsto> length postgres)) (postgres @ [entry]))))
      | _ \<Rightarrow> Inl (mismatched_data credential))"

section \<open>The whole configuration\<close>

fun deliverable_credentials :: "SecretValues \<Rightarrow> Credential list \<Rightarrow> Credential list console_result" where
  "deliverable_credentials values [] = Inr []"
| "deliverable_credentials values (c # cs) =
     res_bind (if cr_kind c = KStatic
               then (case cr_sources c of [] \<Rightarrow> Inr False | source # _ \<Rightarrow> res_map (\<lambda>v. v \<noteq> None) (source_value values source))
               else Inr True) (\<lambda>deliverable.
       res_map (\<lambda>rest. if deliverable then c # rest else rest) (deliverable_credentials values cs))"

text \<open>The entry of a static credential; indexing the first source of none panics.\<close>

definition static_entry :: "SecretValues \<Rightarrow> Credential \<Rightarrow> json option console_result option" where
  "static_entry values credential =
     (case cr_data credential of
        StaticSecret d \<Rightarrow>
          (case cr_sources credential of
             [] \<Rightarrow> None
           | source # _ \<Rightarrow>
               Some (res_map (map_option (\<lambda>v. JObj (insert_present ''replace'' (replace_config d)
                 (insert_present ''inject'' (inject_config d) [(''source'', v), (''rules'', proxy_rules (cr_rules credential))]))))
                 (source_value values source)))
      | _ \<Rightarrow> Some (Inl (mismatched_data credential)))"

fun static_entries :: "SecretValues \<Rightarrow> Credential list \<Rightarrow> json list console_result option" where
  "static_entries values [] = Some (Inr [])"
| "static_entries values (c # cs) =
     (if cr_kind c \<noteq> KStatic then static_entries values cs
      else case static_entry values c of
        None \<Rightarrow> None
      | Some (Inl e) \<Rightarrow> Some (Inl e)
      | Some (Inr v) \<Rightarrow> map_option (res_map (\<lambda>rest. (case v of None \<Rightarrow> [] | Some j \<Rightarrow> [j]) @ rest)) (static_entries values cs))"

definition of_kind :: "CredentialKind \<Rightarrow> Credential list \<Rightarrow> Credential list" where
  "of_kind k cs = filter (\<lambda>c. cr_kind c = k) cs"

definition transforms :: "SecretValues \<Rightarrow> Credential list \<Rightarrow> json list console_result" where
  "transforms values cs =
     collect_results (map (transform values) (concat (map (\<lambda>k. of_kind k cs) [KGcpAuth, KGcpIdToken, KAwsAuth, KHmac])))"

text \<open>\<open>None\<close> is a panic.\<close>

definition build_config ::
  "(string \<Rightarrow> string) \<Rightarrow> (string \<Rightarrow> int \<Rightarrow> string) \<Rightarrow> (json \<Rightarrow> string) \<Rightarrow> SecretValues \<Rightarrow> Subject \<Rightarrow> Credential list \<Rightarrow>
     Config console_result option" where
  "build_config lower oid to_string values subject loaded =
     (case deliverable_credentials values loaded of
        Inl e \<Rightarrow> Some (Inl e)
      | Inr deliverable \<Rightarrow>
          let credentials = suppress lower deliverable in
          (case static_entries values credentials of
             None \<Rightarrow> None
           | Some (Inl e) \<Rightarrow> Some (Inl e)
           | Some (Inr secrets) \<Rightarrow>
               Some (res_bind (transforms values credentials) (\<lambda>ts.
                 res_bind (collect_results (map (oauth_entry values) (of_kind KOauthToken credentials))) (\<lambda>oauth.
                 res_bind (append_postgres oid to_string subject values credentials Map.empty []) (\<lambda>postgres.
                   Inr \<lparr>cfg_secrets = secrets,
                        cfg_transforms = ts @ (if oauth = [] then []
                          else [named_transform ''oauth_token'' [(''tokens'', JArr oauth)]]),
                        cfg_postgres = postgres\<rparr>))))))"

section \<open>Redaction\<close>

text \<open>Any other stored secrets in place of a credential's own.\<close>

definition with_secrets :: "(string \<Rightarrow> string) \<Rightarrow> SecretSource \<Rightarrow> SecretSource" where
  "with_secrets g s = s\<lparr>src_secret := map_option g (src_secret s), broker_access_token := map_option g (broker_access_token s)\<rparr>"

definition reseal :: "(string \<Rightarrow> string) \<Rightarrow> Credential \<Rightarrow> Credential" where
  "reseal g c = c\<lparr>cr_sources := map (with_secrets g) (cr_sources c)\<rparr>"

lemma with_secrets_columns [simp]:
  "source_type (with_secrets g s) = source_type s" "src_config (with_secrets g s) = src_config s"
  "src_role (with_secrets g s) = src_role s" "role_kind (with_secrets g s) = role_kind s"
  by (simp_all add: with_secrets_def)

lemma reseal_columns [simp]:
  "cr_kind (reseal g c) = cr_kind c" "cr_id (reseal g c) = cr_id c" "cr_priority (reseal g c) = cr_priority c"
  "cr_data (reseal g c) = cr_data c" "cr_rules (reseal g c) = cr_rules c"
  "cr_sources (reseal g c) = map (with_secrets g) (cr_sources c)"
  by (simp_all add: reseal_def)

lemma source_value_resealed [simp]: "source_value Redacted (with_secrets g s) = source_value Redacted s"
  by (auto simp: source_value_def reveal_def with_secrets_def Let_def split: option.split)

lemma role_values_resealed [simp]: "role_values Redacted (map (with_secrets g) ss) kvs = role_values Redacted ss kvs"
  by (induction ss arbitrary: kvs) (auto split: option.split)

lemma oauth_sources_resealed [simp]:
  "oauth_sources Redacted (map (with_secrets g) ss) entry headers = oauth_sources Redacted ss entry headers"
  by (induction ss arbitrary: entry headers) (simp_all cong: option.case_cong if_cong)

lemma mismatched_resealed [simp]: "mismatched_data (reseal g c) = mismatched_data c"
  by (simp add: mismatched_data_def)

lemma claims_resealed [simp]: "claims lower (reseal g c) = claims lower c"
  by (simp add: claims_def)

lemma transform_resealed [simp]: "transform Redacted (reseal g c) = transform Redacted c"
  by (simp add: transform_def Let_def split: CredentialData.split list.split)

lemma oauth_entry_resealed [simp]: "oauth_entry Redacted (reseal g c) = oauth_entry Redacted c"
  by (simp add: oauth_entry_def split: CredentialData.split)

lemma static_entry_resealed [simp]: "static_entry Redacted (reseal g c) = static_entry Redacted c"
  by (simp add: static_entry_def split: CredentialData.split list.split)

lemma static_entries_resealed [simp]: "static_entries Redacted (map (reseal g) cs) = static_entries Redacted cs"
  by (induction cs) (auto split: option.split sum.split)

lemma postgres_entry_resealed [simp]:
  "postgres_entry oid to_string subject (reseal g c) d dsn = postgres_entry oid to_string subject c d dsn"
  by (simp add: postgres_entry_def)

lemma append_postgres_resealed [simp]:
  "append_postgres oid to_string subject Redacted (map (reseal g) cs) positions postgres =
     append_postgres oid to_string subject Redacted cs positions postgres"
proof (induction cs arbitrary: positions postgres)
  case (Cons c cs)
  then show ?case by (simp add: Let_def fun_upd_def split: CredentialData.split list.split cong: option.case_cong)
qed simp

lemma of_kind_resealed [simp]: "of_kind k (map (reseal g) cs) = map (reseal g) (of_kind k cs)"
  by (simp add: of_kind_def filter_map comp_def)

lemma transforms_resealed [simp]: "transforms Redacted (map (reseal g) cs) = transforms Redacted cs"
  by (simp add: transforms_def comp_def)

lemma deliverable_resealed:
  "deliverable_credentials Redacted (map (reseal g) cs) = res_map (map (reseal g)) (deliverable_credentials Redacted cs)"
proof (induction cs)
  case (Cons c cs)
  show ?case unfolding list.map deliverable_credentials.simps Cons
    by (cases "deliverable_credentials Redacted cs"; cases "cr_sources c"; cases "source_value Redacted (hd (cr_sources c))") auto
qed simp

lemma sort_key_eq: "(\<And>x. x \<in> set xs \<Longrightarrow> f x = g x) \<Longrightarrow> sort_key f xs = sort_key g xs"
proof (induction xs)
  case (Cons x xs)
  have "insort_key f x ys = insort_key g x ys" if "set ys \<subseteq> set (x # xs)" for ys
    using that Cons.prems by (induction ys) auto
  then show ?case using Cons by (simp add: set_sort subset_insertI)
qed simp

text \<open>Withholding looks at priorities and claims only.\<close>

lemma suppress_map:
  assumes "\<And>c. cr_priority (f c) = cr_priority c" and "\<And>c. claims lower (f c) = claims lower c"
  shows "suppress lower (map f cs) = map f (suppress lower cs)"
proof -
  have step: "suppress_step lower (map f cs) i st = suppress_step lower cs i st" if "i < length cs" for i st
    using that by (simp add: suppress_step_def assms)
  have key: "sort_key (\<lambda>i. - cr_priority (map f cs ! i)) [0..<length cs] = sort_key (\<lambda>i. - cr_priority (cs ! i)) [0..<length cs]"
    by (rule sort_key_eq) (simp add: assms(1))
  have "fold (suppress_step lower (map f cs)) js st = fold (suppress_step lower cs) js st" if "set js \<subseteq> {..<length cs}" for js st
    using that by (intro fold_cong) (auto simp: step fun_eq_iff)
  then show ?thesis
    unfolding suppress_def Let_def length_map key by (simp add: zip_map1 filter_map comp_def case_prod_unfold atLeast0LessThan)
qed

text \<open>
  C12. A redacted configuration reveals nothing of the stored secrets: whatever values are stored in their
  place, the configuration (or the error) is the same, which secrets are withheld included.
\<close>

theorem redacted_config_reveals_nothing:
  "build_config lower oid to_string Redacted subject (map (reseal g) loaded) =
     build_config lower oid to_string Redacted subject loaded"
  by (simp add: build_config_def deliverable_resealed suppress_map Let_def comp_def split: sum.split cong: option.case_cong sum.case_cong)

section \<open>No panic\<close>

lemma deliverable_sources:
  "deliverable_credentials values cs = Inr ds \<Longrightarrow> \<forall>d \<in> set ds. cr_kind d = KStatic \<longrightarrow> cr_sources d \<noteq> []"
proof (induction cs arbitrary: ds)
  case (Cons c cs)
  then obtain b rest where b: "(if cr_kind c = KStatic
       then (case cr_sources c of [] \<Rightarrow> Inr False | source # _ \<Rightarrow> res_map (\<lambda>v. v \<noteq> None) (source_value values source))
       else Inr True) = Inr b"
    and rest: "deliverable_credentials values cs = Inr rest" and ds: "ds = (if b then c # rest else rest)"
    by auto
  have "cr_kind c = KStatic \<longrightarrow> b \<longrightarrow> cr_sources c \<noteq> []" using b by (cases "cr_sources c") auto
  then show ?case using Cons.IH [OF rest] ds by (auto split: if_splits)
qed simp

lemma suppress_subset: "set (suppress lower cs) \<subseteq> set cs"
  by (auto simp: suppress_def Let_def dest: set_zip_leftD)

lemma static_entries_total:
  "\<forall>c \<in> set cs. cr_kind c = KStatic \<longrightarrow> cr_sources c \<noteq> [] \<Longrightarrow> static_entries values cs \<noteq> None"
  by (induction cs) (auto simp: static_entry_def split: CredentialData.split list.split sum.split)

text \<open>
  Building a configuration never panics, whatever is loaded and however decryption answers: a static
  credential without a source, or whose broker has not minted a token yet, is left out, and credentials
  of mismatched data are an error.
\<close>

theorem build_config_total: "build_config lower oid to_string values subject loaded \<noteq> None"
proof (cases "deliverable_credentials values loaded")
  case (Inr ds)
  have "static_entries values (suppress lower ds) \<noteq> None"
    using deliverable_sources [OF Inr] suppress_subset [of lower ds] by (intro static_entries_total) auto
  then show ?thesis using Inr by (auto simp: build_config_def Let_def split: sum.split option.split)
qed (simp add: build_config_def)

end
