(* ===== verification/Proxy_Sync.thy ===== *)
theory Proxy_Sync
  imports Console_Config Sandbox_Core
begin

text \<open>
  The service that hands a sandbox's proxy its configuration (\<^verbatim>\<open>crates/centaur-proxy-sync/src\<close>): the claims of a proxy's
  tokens, the cache of configuration hashes and the \<^verbatim>\<open>sync\<close> handler over them, with the console's configuration of
  \<open>Console_Config\<close>. Hashing, JWT encoding, crc32, opaque ids, serde's printer and Unicode lowercasing are fields of
  \<open>sync_base\<close>, the answers of the database to one request fields of \<open>sync_db\<close>; \<open>None\<close> is a panic.
\<close>

section \<open>Google Chat claims\<close>

record GoogleChatClaims =
  gc_send_spaces :: "string list"
  gc_update_spaces :: "string list"
  gc_delete_spaces :: "string list"
  gc_upload_spaces :: "string list"
  gc_download_spaces :: "string list"
  gc_history_spaces :: "string list"
  gc_member_spaces :: "string list"
  gc_reaction_spaces :: "string list"
  gc_dm_setup_targets :: "string list"
  gc_reader_subjects :: "(string \<times> string) list"

definition default_claims :: GoogleChatClaims where
  "default_claims = \<lparr>gc_send_spaces = [], gc_update_spaces = [], gc_delete_spaces = [], gc_upload_spaces = [], gc_download_spaces = [],
     gc_history_spaces = [], gc_member_spaces = [], gc_reaction_spaces = [], gc_dm_setup_targets = [], gc_reader_subjects = []\<rparr>"

text \<open>A row of the query of permissions, one per space.\<close>

record space_permission =
  gp_space :: string
  gp_send :: bool
  gp_update :: bool
  gp_delete :: bool
  gp_upload :: bool
  gp_download :: bool
  gp_history :: bool
  gp_members :: bool
  gp_reactions :: bool

definition gp_any :: "space_permission \<Rightarrow> bool" where
  "gp_any p \<longleftrightarrow> gp_send p \<or> gp_update p \<or> gp_delete p \<or> gp_upload p \<or> gp_download p \<or> gp_history p \<or> gp_members p \<or> gp_reactions p"

function trim_start_matches :: "string \<Rightarrow> string \<Rightarrow> string" where
  "trim_start_matches p s = (if p \<noteq> [] \<and> starts_with s p then trim_start_matches p (drop (length p) s) else s)"
  by pat_completeness auto
termination
  by (relation "measure (\<lambda>(p, s). length s)") (auto simp: starts_with_def intro!: diff_less)

declare trim_start_matches.simps [simp del]

definition is_alnum :: "char \<Rightarrow> bool" where
  "is_alnum c \<longleftrightarrow> (let n = of_char c :: nat in (48 \<le> n \<and> n \<le> 57) \<or> (65 \<le> n \<and> n \<le> 90) \<or> (97 \<le> n \<and> n \<le> 122))"

definition domain_label :: "string \<Rightarrow> bool" where
  "domain_label s \<longleftrightarrow> s \<noteq> [] \<and> length s \<le> 63 \<and> is_alnum (hd s) \<and> is_alnum (last s) \<and> list_all (\<lambda>c. is_alnum c \<or> c = CHR ''-'') s"

text \<open>The pattern of \<^verbatim>\<open>reader_email\<close>: one \<^verbatim>\<open>@\<close>, a local part of the listed characters, labels separated by dots.\<close>

definition email_matches :: "string \<Rightarrow> bool" where
  "email_matches s =
     (case split_once CHR ''@'' s of
        None \<Rightarrow> False
      | Some (mailbox, domain) \<Rightarrow>
          mailbox \<noteq> [] \<and> list_all (\<lambda>c. is_alnum c \<or> c \<in> set (''.!#$%&*+/=?^_`{|}~-'' @ [CHR 0x27])) mailbox \<and>
          list_all domain_label (split_on CHR ''.'' domain))"

definition reader_email :: "(string \<Rightarrow> string) \<Rightarrow> string \<Rightarrow> string option" where
  "reader_email lower email = (let email = lower (trim email) in if email_matches email then Some email else None)"

text \<open>A \<^verbatim>\<open>BTreeMap\<close> of \<^verbatim>\<open>BTreeSet\<close>s: \<^verbatim>\<open>entry(space).or_default().insert(email)\<close>.\<close>

type_synonym subjects = "(string \<times> string list) list"

definition add_subject :: "string \<Rightarrow> string \<Rightarrow> subjects \<Rightarrow> subjects" where
  "add_subject space email m = btree_insert space (List.insert email (case map_of m space of None \<Rightarrow> [] | Some es \<Rightarrow> es)) m"

text \<open>The subject a direct message's own labels give.\<close>

definition dm_subject :: "(string \<Rightarrow> string) \<Rightarrow> json \<Rightarrow> (string \<times> string) option" where
  "dm_subject lower labels =
     Option.bind (get_str ''gchat_space_id'' labels) (\<lambda>i.
       map_option (Pair (''spaces/'' @ i)) (Option.bind (get_str ''google_email'' labels) (reader_email lower)))"

definition configured_subjects :: "(string \<Rightarrow> json option) \<Rightarrow> json \<Rightarrow> (string \<times> json) list" where
  "configured_subjects parse labels =
     (case get_key ''google_chat_reader_subjects'' labels of
        Some (JObj kvs) \<Rightarrow> kvs
      | Some (JStr raw) \<Rightarrow> (case parse raw of Some (JObj kvs) \<Rightarrow> kvs | _ \<Rightarrow> [])
      | _ \<Rightarrow> [])"

definition configured_subject :: "(string \<Rightarrow> string) \<Rightarrow> string set \<Rightarrow> string \<times> json \<Rightarrow> (string \<times> string) option" where
  "configured_subject lower spaces kv =
     (if fst kv \<in> spaces then map_option (Pair (fst kv)) (Option.bind (as_str (snd kv)) (reader_email lower)) else None)"

definition collect_subjects :: "(string \<times> string) list \<Rightarrow> subjects" where
  "collect_subjects ses = fold (\<lambda>(space, email) m. add_subject space email m) ses []"

definition unambiguous :: "subjects \<Rightarrow> (string \<times> string) list" where
  "unambiguous m = List.map_filter (\<lambda>(space, emails). case emails of [e] \<Rightarrow> Some (space, e) | _ \<Rightarrow> None) m"

text \<open>\<open>rows\<close>, \<open>dm_targets\<close> and \<open>dms\<close> are what the queries read: permissions, direct message dm_targets, labels of direct messages.\<close>

definition granted_spaces :: "space_permission list \<Rightarrow> string set" where
  "granted_spaces rows = gp_space ` set (filter gp_any rows)"

definition google_chat_claims ::
  "(string \<Rightarrow> string) \<Rightarrow> (string \<Rightarrow> json option) \<Rightarrow> space_permission list \<Rightarrow> string list \<Rightarrow> json list \<Rightarrow> json \<Rightarrow> GoogleChatClaims" where
  "google_chat_claims lower parse rows dm_targets dms labels =
     (let spaces = granted_spaces rows; ids = trim_start_matches ''spaces/'' ` spaces;
          readers = filter (\<lambda>l. get_text ''gchat_space_id'' l \<in> Some ` ids) dms;
          on = (\<lambda>flag. map gp_space (filter flag rows))
      in \<lparr>gc_send_spaces = on gp_send, gc_update_spaces = on gp_update, gc_delete_spaces = on gp_delete, gc_upload_spaces = on gp_upload,
          gc_download_spaces = on gp_download, gc_history_spaces = on gp_history, gc_member_spaces = on gp_members,
          gc_reaction_spaces = on gp_reactions, gc_dm_setup_targets = dm_targets,
          gc_reader_subjects = unambiguous (collect_subjects
            (List.map_filter (dm_subject lower) readers @ List.map_filter (configured_subject lower spaces) (configured_subjects parse labels)))\<rparr>)"

section \<open>Proxies and their tokens\<close>

record ProxyRecord =
  px_id :: int
  px_name :: string
  px_labels :: json
  px_principal_id :: "int option"
  px_requester_principal_id :: "int option"
  px_principal_assigned_at :: "int option"
  px_requester_principal_assigned_at :: "int option"
  px_principal_cache_version :: "int option"
  px_principal :: "json option"
  px_console_user_email :: "string option"
  px_console_user_id :: "int option"
  px_slack_history_channel_ids :: json
  px_google_chat :: GoogleChatClaims

definition px_principal_field :: "ProxyRecord \<Rightarrow> string \<Rightarrow> json" where
  "px_principal_field proxy field = (case Option.bind (px_principal proxy) (get_key field) of None \<Rightarrow> JNull | Some v \<Rightarrow> v)"

datatype SyncError =
    SyncInternal string
  | SyncUnauthorized

type_synonym 'a sync_result = "SyncError + 'a"

text \<open>\<open>sb_date\<close> is serde's text of a date, \<open>sb_stamp\<close> the one of the format \<^verbatim>\<open>%Y-%m-%dT%H:%M:%SZ\<close>.\<close>

record sync_base =
  sb_oid :: "string \<Rightarrow> int \<Rightarrow> string"
  sb_crc32 :: "string \<Rightarrow> nat"
  sb_lower :: "string \<Rightarrow> string"
  sb_parse :: "string \<Rightarrow> json option"
  sb_to_string :: "json \<Rightarrow> string"
  sb_sha256 :: "string \<Rightarrow> string"
  sb_jwt :: "json \<Rightarrow> string \<Rightarrow> string option"
  sb_date :: "int \<Rightarrow> string"
  sb_stamp :: "int \<Rightarrow> string"
  sb_console_error :: "ConsoleError \<Rightarrow> string"
  sb_env :: "string \<Rightarrow> string option"

record AppState =
  as_jwt_secret :: "string option"
  as_api_hosts :: "string list"
  as_console_host :: "string option"

text \<open>What the database answers during one request; \<open>Inl\<close> is its error.\<close>

record sync_db =
  sd_proxy :: "string \<Rightarrow> string + ProxyRecord option"
  sd_chat :: "int \<Rightarrow> string + (space_permission list \<times> string list \<times> json list)"
  sd_channels :: "int \<Rightarrow> string + (string list \<times> string list \<times> string list)"
  sd_credentials :: "int \<Rightarrow> int option \<Rightarrow> string + Credential list"
  sd_decrypt :: "string \<Rightarrow> string console_result"

definition internal :: "string + 'a \<Rightarrow> 'a sync_result" where
  "internal r = (case r of Inl e \<Rightarrow> Inl (SyncInternal e) | Inr a \<Rightarrow> Inr a)"

definition load_proxy :: "sync_base \<Rightarrow> sync_db \<Rightarrow> string \<Rightarrow> ProxyRecord option sync_result" where
  "load_proxy sb db token =
     res_bind (internal (sd_proxy db (sb_sha256 sb token))) (\<lambda>row.
       case row of
         None \<Rightarrow> Inr None
       | Some p \<Rightarrow>
           (case px_principal_id p of
              None \<Rightarrow> Inr (Some (p\<lparr>px_google_chat := default_claims\<rparr>))
            | Some i \<Rightarrow> res_map (\<lambda>(rows, dm_targets, dms).
                  Some (p\<lparr>px_google_chat := google_chat_claims (sb_lower sb) (sb_parse sb) rows dm_targets dms (px_principal_field p ''labels'')\<rparr>))
                (internal (sd_chat db i))))"

record TokenWindows =
  tw_api :: "int option"
  tw_sandbox :: "int option"

definition window_start :: "sync_base \<Rightarrow> string \<Rightarrow> int \<Rightarrow> int \<Rightarrow> int" where
  "window_start sb subject timestamp window =
     (let offset = int (sb_crc32 sb subject) mod window in timestamp - (timestamp - offset) mod window)"

definition token_windows :: "sync_base \<Rightarrow> AppState \<Rightarrow> ProxyRecord \<Rightarrow> int \<Rightarrow> TokenWindows" where
  "token_windows sb st proxy now =
     \<lparr>tw_api = (if as_jwt_secret st \<noteq> None \<and> as_api_hosts st \<noteq> []
        then map_option (\<lambda>i. window_start sb (sb_oid sb ''prn'' i) now 900) (px_principal_id proxy) else None),
      tw_sandbox = (if as_jwt_secret st \<noteq> None \<and> as_console_host st \<noteq> None
        then map_option (\<lambda>_. window_start sb (sb_oid sb ''prx'' (px_id proxy)) now 86400) (px_principal_id proxy) else None)\<rparr>"

definition sync_jwt :: "sync_base \<Rightarrow> json \<Rightarrow> string \<Rightarrow> string sync_result" where
  "sync_jwt sb body secret = (case sb_jwt sb body secret of None \<Rightarrow> Inl (SyncInternal ''JWT encoding failed'') | Some t \<Rightarrow> Inr t)"

definition jstrs :: "string list \<Rightarrow> json" where
  "jstrs ss = JArr (map JStr ss)"

definition claims_json :: "GoogleChatClaims \<Rightarrow> json" where
  "claims_json gc = JObj ([(''send_spaces'', jstrs (gc_send_spaces gc)), (''update_spaces'', jstrs (gc_update_spaces gc)),
     (''delete_spaces'', jstrs (gc_delete_spaces gc)), (''upload_spaces'', jstrs (gc_upload_spaces gc)),
     (''download_spaces'', jstrs (gc_download_spaces gc)), (''history_spaces'', jstrs (gc_history_spaces gc)),
     (''member_spaces'', jstrs (gc_member_spaces gc)), (''reaction_spaces'', jstrs (gc_reaction_spaces gc)),
     (''dm_setup_targets'', jstrs (gc_dm_setup_targets gc))] @
     (if gc_reader_subjects gc = [] then [] else [(''reader_subjects'', JObj (map (\<lambda>(s, e). (s, JStr e)) (gc_reader_subjects gc)))]))"

definition flag_field :: "ProxyRecord \<Rightarrow> string \<Rightarrow> json" where
  "flag_field proxy field = JBool (case as_bool (px_principal_field proxy field) of None \<Rightarrow> False | Some b \<Rightarrow> b)"

definition api_claims ::
  "sync_base \<Rightarrow> ProxyRecord \<Rightarrow> int \<Rightarrow> string list \<times> string list \<times> string list \<Rightarrow> int \<Rightarrow> json" where
  "api_claims sb proxy i channels now =
     (case channels of (upload, download, history) \<Rightarrow>
        let iat = window_start sb (sb_oid sb ''prn'' i) now 900 in
        JObj [(''iss'', JStr ''centaur-console''), (''aud'', JStr ''centaur-api''), (''iat'', JNum iat 0), (''exp'', JNum (iat + 3600) 0),
          (''sub'', JStr (sb_oid sb ''prn'' i)),
          (''capabilities'', JObj [(''sessions_read'', flag_field proxy ''sandbox_sessions_read_enabled''),
             (''workflows_read'', flag_field proxy ''sandbox_workflows_read_enabled''),
             (''workflows_write'', flag_field proxy ''sandbox_workflows_write_enabled'')]),
          (''slack'', JObj [(''upload_channels'', jstrs upload), (''download_channels'', jstrs download), (''history_channels'', jstrs history)]),
          (''google_chat'', claims_json (px_google_chat proxy))])"

definition injected :: "string \<Rightarrow> json list \<Rightarrow> json" where
  "injected token rules = JObj [(''source'', JObj [(''type'', JStr ''control_plane''), (''value'', JStr token)]),
     (''inject'', JObj [(''header'', JStr ''Authorization''), (''formatter'', JStr ''Bearer {{ .Value }}'')]), (''rules'', JArr rules)]"

definition append_api_jwt :: "sync_base \<Rightarrow> AppState \<Rightarrow> sync_db \<Rightarrow> ProxyRecord \<Rightarrow> int \<Rightarrow> Config \<Rightarrow> Config sync_result" where
  "append_api_jwt sb st db proxy now config =
     (case (as_jwt_secret st, px_principal_id proxy) of
        (Some secret, Some i) \<Rightarrow>
          if as_api_hosts st = [] then Inr config
          else res_bind (internal (sd_channels db i)) (\<lambda>channels.
               res_map (\<lambda>token. config\<lparr>cfg_secrets := cfg_secrets config @ [injected token (map (\<lambda>h. JObj [(''host'', JStr h)]) (as_api_hosts st))]\<rparr>)
                 (sync_jwt sb (api_claims sb proxy i channels now) secret))
      | _ \<Rightarrow> Inr config)"

definition env_default :: "sync_base \<Rightarrow> string \<Rightarrow> string \<Rightarrow> string" where
  "env_default sb name dflt = (case sb_env sb name of None \<Rightarrow> dflt | Some v \<Rightarrow> if trim v = [] then dflt else v)"

definition sandbox_claims :: "sync_base \<Rightarrow> ProxyRecord \<Rightarrow> int \<Rightarrow> int \<Rightarrow> json" where
  "sandbox_claims sb proxy i now =
     (let proxy_oid = sb_oid sb ''prx'' (px_id proxy); iat = window_start sb proxy_oid now 86400 in
      JObj [(''iss'', JStr (env_default sb ''CENTAUR_SANDBOX_ENTITLEMENTS_JWT_ISSUER'' ''centaur-console'')),
        (''aud'', JStr (env_default sb ''CENTAUR_SANDBOX_ENTITLEMENTS_JWT_AUDIENCE'' ''centaur-console-sandbox-entitlements'')),
        (''iat'', JNum iat 0), (''exp'', JNum (iat + 259200) 0), (''sub'', JStr (px_name proxy)), (''sandbox_id'', JStr (px_name proxy)),
        (''proxy_id'', JStr proxy_oid), (''principal_id'', JStr (sb_oid sb ''prn'' i))])"

definition append_sandbox_jwt :: "sync_base \<Rightarrow> AppState \<Rightarrow> ProxyRecord \<Rightarrow> int \<Rightarrow> Config \<Rightarrow> Config sync_result" where
  "append_sandbox_jwt sb st proxy now config =
     (case (as_jwt_secret st, as_console_host st, px_principal_id proxy) of
        (Some secret, Some host, Some i) \<Rightarrow>
          res_map (\<lambda>token. config\<lparr>cfg_secrets := cfg_secrets config @ [injected token
              [JObj [(''host'', JStr host), (''methods'', jstrs [''GET'', ''POST'', ''PUT'', ''PATCH'', ''DELETE'']),
                     (''paths'', jstrs [''/api/v1/sandbox/*''])]]]\<rparr>)
            (sync_jwt sb (sandbox_claims sb proxy i now) secret)
      | _ \<Rightarrow> Inr config)"

text \<open>\<open>host_of\<close> is \<^verbatim>\<open>host_from_url\<close>, a call of the url crate.\<close>

definition configured_hosts :: "sync_base \<Rightarrow> (string \<Rightarrow> string option) \<Rightarrow> string \<Rightarrow> string \<Rightarrow> string list" where
  "configured_hosts sb host_of list_env url_env =
     (let hosts = split_on CHR '','' (case sb_env sb list_env of None \<Rightarrow> [] | Some v \<Rightarrow> v) @
            (case Option.bind (sb_env sb url_env) host_of of None \<Rightarrow> [] | Some h \<Rightarrow> [h]);
          cleaned = map (\<lambda>h. sb_lower sb (rev (dropWhile (\<lambda>c. c = CHR ''.'') (rev (trim h))))) hosts
      in fold (\<lambda>h out. if h \<in> set out then out else out @ [h]) (filter (\<lambda>h. h \<noteq> []) cleaned) [])"

section \<open>Configuration\<close>

definition sync_subject :: "ProxyRecord \<Rightarrow> int \<Rightarrow> Subject" where
  "sync_subject proxy i = \<lparr>principal_id = i, principal_row = px_principal proxy, console_user_id = px_console_user_id proxy,
     console_user_email = px_console_user_email proxy, slack_history_channel_ids = px_slack_history_channel_ids proxy,
     proxy_labels = px_labels proxy\<rparr>"

definition sync_build_config ::
  "sync_base \<Rightarrow> AppState \<Rightarrow> sync_db \<Rightarrow> ProxyRecord \<Rightarrow> int \<Rightarrow> int \<Rightarrow> Config sync_result option" where
  "sync_build_config sb st db proxy i now =
     (case internal (sd_credentials db i (px_requester_principal_id proxy)) of
        Inl e \<Rightarrow> Some (Inl e)
      | Inr loaded \<Rightarrow>
          map_option (\<lambda>r.
            res_bind (case r of Inl e \<Rightarrow> Inl (SyncInternal (sb_console_error sb e)) | Inr c \<Rightarrow> Inr c) (\<lambda>config.
            res_bind (append_api_jwt sb st db proxy now config) (append_sandbox_jwt sb st proxy now)))
            (build_config (sb_lower sb) (sb_oid sb) (sb_to_string sb) (Live (sd_decrypt db)) (sync_subject proxy i) loaded))"

definition proxy_config :: "sync_base \<Rightarrow> AppState \<Rightarrow> sync_db \<Rightarrow> ProxyRecord \<Rightarrow> int \<Rightarrow> Config sync_result option" where
  "proxy_config sb st db proxy now =
     (case px_principal_id proxy of
        Some i \<Rightarrow> sync_build_config sb st db proxy i now
      | None \<Rightarrow> Some (Inr \<lparr>cfg_secrets = [], cfg_transforms = [], cfg_postgres = []\<rparr>))"

definition oid_json :: "sync_base \<Rightarrow> int option \<Rightarrow> json" where
  "oid_json sb i = (case i of None \<Rightarrow> JNull | Some i \<Rightarrow> JStr (sb_oid sb ''prn'' i))"

definition timestamp_json :: "sync_base \<Rightarrow> int option \<Rightarrow> json" where
  "timestamp_json sb t = (case t of None \<Rightarrow> JNull | Some t \<Rightarrow> JStr (sb_stamp sb t))"

definition config_value :: "Config \<Rightarrow> (string \<times> json) list" where
  "config_value config = [(''secrets'', JArr (cfg_secrets config)), (''transforms'', JArr (cfg_transforms config)), (''postgres'', JArr (cfg_postgres config))]"

definition config_hash :: "sync_base \<Rightarrow> ProxyRecord \<Rightarrow> Config \<Rightarrow> string" where
  "config_hash sb proxy config =
     (let payload = json_insert ''proxy_labels'' (px_labels proxy) (json_insert ''principal_assigned_at'' (timestamp_json sb (px_principal_assigned_at proxy))
            (json_insert ''principal'' (oid_json sb (px_principal_id proxy)) (config_value config)));
          payload = (if px_requester_principal_id proxy = None then payload
            else json_insert ''requester_principal_assigned_at'' (timestamp_json sb (px_requester_principal_assigned_at proxy))
                   (json_insert ''requester_principal'' (oid_json sb (px_requester_principal_id proxy)) payload))
      in ''sha256:'' @ sb_sha256 sb (sb_to_string sb (JObj payload)))"

section \<open>The cache\<close>

definition ENTRY_TTL :: int where
  "ENTRY_TTL = 10 * 60 * 1000000000"

definition opt_json :: "('a \<Rightarrow> json) \<Rightarrow> 'a option \<Rightarrow> json" where
  "opt_json f v = (case v of None \<Rightarrow> JNull | Some a \<Rightarrow> f a)"

text \<open>The tuple whose serialization is hashed.\<close>

definition generation :: "sync_base \<Rightarrow> ProxyRecord \<Rightarrow> TokenWindows \<Rightarrow> json" where
  "generation sb proxy tw =
     JArr [JStr (px_name proxy), px_labels proxy, opt_json (\<lambda>i. JNum i 0) (px_principal_id proxy),
       opt_json (\<lambda>t. JStr (sb_date sb t)) (px_principal_assigned_at proxy), opt_json (\<lambda>i. JNum i 0) (px_principal_cache_version proxy),
       opt_json id (px_principal proxy), opt_json JStr (px_console_user_email proxy), opt_json (\<lambda>i. JNum i 0) (px_console_user_id proxy),
       px_slack_history_channel_ids proxy, claims_json (px_google_chat proxy),
       opt_json (\<lambda>i. JNum i 0) (tw_api tw), opt_json (\<lambda>i. JNum i 0) (tw_sandbox tw)]"

definition generation_fingerprint :: "sync_base \<Rightarrow> json \<Rightarrow> string" where
  "generation_fingerprint sb g = sb_sha256 sb (sb_to_string sb g)"

record Entry =
  en_generation :: string
  en_config_hash :: string
  en_created_at :: int

type_synonym sync_cache = "int \<rightharpoonup> Entry"

definition matching_hash :: "sync_base \<Rightarrow> ProxyRecord \<Rightarrow> TokenWindows \<Rightarrow> string \<Rightarrow> int \<Rightarrow> sync_cache \<Rightarrow> string option" where
  "matching_hash sb proxy tw client_hash clock cache =
     (if px_requester_principal_id proxy \<noteq> None then None
      else case cache (px_id proxy) of
             None \<Rightarrow> None
           | Some e \<Rightarrow>
               if clock - en_created_at e < ENTRY_TTL \<and> en_generation e = generation_fingerprint sb (generation sb proxy tw) \<and>
                  en_config_hash e = client_hash
               then Some (en_config_hash e) else None)"

definition cache_store :: "sync_base \<Rightarrow> ProxyRecord \<Rightarrow> TokenWindows \<Rightarrow> string \<Rightarrow> int \<Rightarrow> sync_cache \<Rightarrow> sync_cache" where
  "cache_store sb proxy tw h clock cache =
     (if px_requester_principal_id proxy \<noteq> None then cache
      else (\<lambda>i. Option.bind (cache i) (\<lambda>e. if clock - en_created_at e < ENTRY_TTL then Some e else None))
        (px_id proxy \<mapsto> \<lparr>en_generation = generation_fingerprint sb (generation sb proxy tw), en_config_hash = h, en_created_at = clock\<rparr>))"

section \<open>The handler\<close>

definition bearer_token :: "string option \<Rightarrow> string option" where
  "bearer_token authorization =
     Option.bind authorization (\<lambda>v. Option.bind (strip_prefix ''Bearer '' v) (\<lambda>t. if t = [] then None else Some t))"

text \<open>A request: the text of its \<^verbatim>\<open>Authorization\<close> header, the hash it sends, the time, the monotonic clock and the
  database. Both clocks are read once in a request.\<close>

record sync_call =
  sc_authorization :: "string option"
  sc_config_hash :: "string option"
  sc_now :: int
  sc_clock :: int
  sc_db :: sync_db

definition client_hash :: "sync_call \<Rightarrow> string option" where
  "client_hash c = Option.bind (sc_config_hash c) (\<lambda>h. if h = [] then None else Some h)"

definition unchanged :: "string \<Rightarrow> json" where
  "unchanged h = JObj [(''config_hash'', JStr h)]"

definition authenticate :: "sync_base \<Rightarrow> sync_call \<Rightarrow> ProxyRecord sync_result" where
  "authenticate sb c =
     (case bearer_token (sc_authorization c) of
        None \<Rightarrow> Inl SyncUnauthorized
      | Some token \<Rightarrow> res_bind (load_proxy sb (sc_db c) token) (\<lambda>p. case p of None \<Rightarrow> Inl SyncUnauthorized | Some p \<Rightarrow> Inr p))"

definition sync :: "sync_base \<Rightarrow> AppState \<Rightarrow> sync_call \<Rightarrow> sync_cache \<Rightarrow> sync_cache \<times> json sync_result option" where
  "sync sb st c cache =
     (case authenticate sb c of
        Inl e \<Rightarrow> (cache, Some (Inl e))
      | Inr proxy \<Rightarrow>
          let tw = token_windows sb st proxy (sc_now c) in
          (case Option.bind (client_hash c) (\<lambda>h. matching_hash sb proxy tw h (sc_clock c) cache) of
             Some h \<Rightarrow> (cache, Some (Inr (unchanged h)))
           | None \<Rightarrow>
               (case proxy_config sb st (sc_db c) proxy (sc_now c) of
                  None \<Rightarrow> (cache, None)
                | Some (Inl e) \<Rightarrow> (cache, Some (Inl e))
                | Some (Inr config) \<Rightarrow>
                    let h = config_hash sb proxy config in
                    (cache_store sb proxy tw h (sc_clock c) cache, Some (Inr
                      (if client_hash c = Some h then unchanged h
                       else JObj ([(''config_hash'', JStr h),
                              (''status'', JStr (if px_principal_id proxy \<noteq> None then ''assigned'' else ''unassigned'')),
                              (''principal_id'', oid_json sb (px_principal_id proxy))] @ config_value config)))))))"

section \<open>Readers of direct messages\<close>

text \<open>The addresses named for a space, and how an entry of the map holds them.\<close>

definition emails_of :: "(string \<times> string) list \<Rightarrow> string \<Rightarrow> string set" where
  "emails_of ses space = {email. (space, email) \<in> set ses}"

definition entry_ok :: "string set \<Rightarrow> string list option \<Rightarrow> bool" where
  "entry_ok emails v \<longleftrightarrow> (case v of None \<Rightarrow> emails = {} | Some es \<Rightarrow> distinct es \<and> set es = emails)"

lemma entry_added: "entry_ok emails v \<Longrightarrow> entry_ok (insert e emails) (Some (List.insert e (case v of None \<Rightarrow> [] | Some es \<Rightarrow> es)))"
  by (cases v) (auto simp: entry_ok_def)

lemma collected_entries: "entry_ok (emails_of ses space) (map_of (collect_subjects ses) space)"
proof (induction ses rule: rev_induct)
  case Nil
  then show ?case by (simp add: entry_ok_def emails_of_def collect_subjects_def)
next
  case (snoc se ses)
  obtain k e where se: "se = (k, e)" by fastforce
  have "emails_of (ses @ [se]) space = (if space = k then insert e (emails_of ses space) else emails_of ses space)"
    by (auto simp: emails_of_def se)
  moreover have "map_of (collect_subjects (ses @ [se])) space =
      (if space = k then Some (List.insert e (case map_of (collect_subjects ses) space of None \<Rightarrow> [] | Some es \<Rightarrow> es))
       else map_of (collect_subjects ses) space)"
    by (simp add: collect_subjects_def se add_subject_def btree_insert_lookup)
  ultimately show ?case using snoc entry_added [OF snoc, of e] by presburger
qed

lemma collected_sorted: "sorted_wrt (<) (map fst (collect_subjects ses))"
  by (induction ses rule: rev_induct) (auto simp: collect_subjects_def add_subject_def btree_insert_sorted)

lemma unambiguous_iff: "(space, email) \<in> set (unambiguous (collect_subjects ses)) \<longleftrightarrow> emails_of ses space = {email}"
proof -
  let ?m = "collect_subjects ses"
  have "(space, email) \<in> set (unambiguous ?m) \<longleftrightarrow> (space, [email]) \<in> set ?m"
    by (force simp: unambiguous_def set_map_filter_iff split: list.splits)
  also have "\<dots> \<longleftrightarrow> map_of ?m space = Some [email]"
    using collected_sorted [of ses] by (simp add: strict_sorted_iff)
  also have "\<dots> \<longleftrightarrow> emails_of ses space = {email}"
  proof (cases "map_of ?m space")
    case (Some es)
    then have "distinct es" "set es = emails_of ses space" using collected_entries [of ses space] by (simp_all add: entry_ok_def)
    moreover have "set es = {email} \<longleftrightarrow> es = [email]" if "distinct es" for es :: "string list"
      using that by (cases es; cases "tl es") auto
    ultimately show ?thesis using Some by (metis option.inject)
  qed (use collected_entries [of ses space] in \<open>simp add: entry_ok_def\<close>)
  finally show ?thesis .
qed

text \<open>The addresses a proxy's principal is offered for a space: of the direct message itself, or configured for a granted space.\<close>

definition offered :: "(string \<Rightarrow> string) \<Rightarrow> (string \<Rightarrow> json option) \<Rightarrow> space_permission list \<Rightarrow> json list \<Rightarrow> json \<Rightarrow> string \<Rightarrow> string set" where
  "offered lower parse rows dms labels space =
     {email. (\<exists>l \<in> set dms. get_text ''gchat_space_id'' l \<in> Some ` trim_start_matches ''spaces/'' ` granted_spaces rows \<and>
                dm_subject lower l = Some (space, email)) \<or>
             (\<exists>v. (space, v) \<in> set (configured_subjects parse labels) \<and> configured_subject lower (granted_spaces rows) (space, v) = Some (space, email))}"

text \<open>
  C24. A proxy may read a Google Chat space as somebody only when it is clear as whom: the reader subjects of its claims are
  exactly the spaces for which one single well-formed address is offered, by the direct message of a space in which the
  principal or one of its roles has a permission, or by the principal's labels for such a space; with two different
  addresses there is none. The spaces of each operation are those with that permission.
\<close>

theorem reader_subjects_exact:
  "let gc = google_chat_claims lower parse rows dm_targets dms labels in
     set (gc_reader_subjects gc) = {(space, email). offered lower parse rows dms labels space = {email}} \<and>
     set (gc_send_spaces gc) = gp_space ` {p \<in> set rows. gp_send p} \<and> set (gc_delete_spaces gc) = gp_space ` {p \<in> set rows. gp_delete p} \<and>
     set (gc_history_spaces gc) = gp_space ` {p \<in> set rows. gp_history p} \<and> gc_dm_setup_targets gc = dm_targets"
proof -
  let ?ses = "List.map_filter (dm_subject lower) (filter (\<lambda>l. get_text ''gchat_space_id'' l \<in> Some ` trim_start_matches ''spaces/'' ` granted_spaces rows) dms) @
    List.map_filter (configured_subject lower (granted_spaces rows)) (configured_subjects parse labels)"
  have fst: "configured_subject lower spaces kv = Some (space, email) \<Longrightarrow> fst kv = space" for spaces kv space email
    by (auto simp: configured_subject_def split: if_splits)
  have configured: "(\<exists>kv \<in> set kvs. configured_subject lower spaces kv = Some (space, email)) \<longleftrightarrow>
      (\<exists>v. (space, v) \<in> set kvs \<and> configured_subject lower spaces (space, v) = Some (space, email))" for kvs spaces space email
    by (metis fst prod.collapse)
  have "emails_of ?ses = offered lower parse rows dms labels"
    by (rule ext) (simp only: emails_of_def offered_def set_append Un_iff set_map_filter_iff configured [unfolded Bex_def] set_filter Bex_def mem_Collect_eq conj_assoc)
  then have "set (unambiguous (collect_subjects ?ses)) = {(space, email). offered lower parse rows dms labels space = {email}}"
    using unambiguous_iff [of _ _ ?ses] by auto
  then show ?thesis by (simp add: google_chat_claims_def Let_def)
qed

section \<open>Answers from the cache\<close>

lemma window_start_bounds:
  assumes "0 < window"
  shows "window_start sb subject t window \<le> t" and "t < window_start sb subject t window + window"
  using pos_mod_sign [OF assms] pos_mod_bound [OF assms] by (simp_all add: window_start_def Let_def)

text \<open>The requests served by one process, from an empty cache.\<close>

definition cache_after :: "sync_base \<Rightarrow> AppState \<Rightarrow> sync_call list \<Rightarrow> sync_cache" where
  "cache_after sb st calls = foldl (\<lambda>cache c. fst (sync sb st c cache)) Map.empty calls"

definition call_generation :: "sync_base \<Rightarrow> AppState \<Rightarrow> sync_call \<Rightarrow> json option" where
  "call_generation sb st c =
     (case authenticate sb c of Inl _ \<Rightarrow> None | Inr proxy \<Rightarrow> Some (generation sb proxy (token_windows sb st proxy (sc_now c))))"

definition generations :: "sync_base \<Rightarrow> AppState \<Rightarrow> sync_call list \<Rightarrow> json set" where
  "generations sb st calls = {g. \<exists>c \<in> set calls. call_generation sb st c = Some g}"

lemma in_generations:
  "c \<in> set calls \<Longrightarrow> authenticate sb c = Inr proxy \<Longrightarrow> generation sb proxy (token_windows sb st proxy (sc_now c)) \<in> generations sb st calls"
  by (auto simp: generations_def call_generation_def intro!: bexI [of _ c])

text \<open>A request that built the configuration with the hash \<open>h\<close> for \<open>proxy\<close>.\<close>

definition built_hash :: "sync_base \<Rightarrow> AppState \<Rightarrow> sync_call \<Rightarrow> ProxyRecord \<Rightarrow> string \<Rightarrow> bool" where
  "built_hash sb st c proxy h \<longleftrightarrow> authenticate sb c = Inr proxy \<and>
     (\<exists>config. proxy_config sb st (sc_db c) proxy (sc_now c) = Some (Inr config) \<and> h = config_hash sb proxy config)"

definition cache_ok :: "sync_base \<Rightarrow> AppState \<Rightarrow> sync_call list \<Rightarrow> sync_cache \<Rightarrow> bool" where
  "cache_ok sb st calls cache \<longleftrightarrow>
     (\<forall>i e. cache i = Some e \<longrightarrow> (\<exists>c \<in> set calls. \<exists>proxy. px_id proxy = i \<and> built_hash sb st c proxy (en_config_hash e) \<and>
        en_generation e = generation_fingerprint sb (generation sb proxy (token_windows sb st proxy (sc_now c))) \<and>
        en_created_at e = sc_clock c \<and> px_requester_principal_id proxy = None))"

lemma cache_ok_more: "cache_ok sb st calls cache \<Longrightarrow> cache_ok sb st (calls @ cs) cache"
  unfolding cache_ok_def by (metis UnI1 set_append)

lemma cache_ok_stored:
  assumes "cache_ok sb st calls cache" and "built_hash sb st c proxy h"
  shows "cache_ok sb st (calls @ [c]) (cache_store sb proxy (token_windows sb st proxy (sc_now c)) h (sc_clock c) cache)"
proof (cases "px_requester_principal_id proxy")
  case None
  show ?thesis
    unfolding cache_ok_def
  proof (intro allI impI)
    fix i e
    assume e: "cache_store sb proxy (token_windows sb st proxy (sc_now c)) h (sc_clock c) cache i = Some e"
    show "\<exists>c \<in> set (calls @ [c]). \<exists>proxy. px_id proxy = i \<and> built_hash sb st c proxy (en_config_hash e) \<and>
        en_generation e = generation_fingerprint sb (generation sb proxy (token_windows sb st proxy (sc_now c))) \<and>
        en_created_at e = sc_clock c \<and> px_requester_principal_id proxy = None"
    proof (cases "i = px_id proxy")
      case True
      with e None assms(2) show ?thesis by (intro bexI [of _ c] exI [of _ proxy]) (auto simp: cache_store_def)
    next
      case False
      with e None have "cache i = Some e" by (auto simp: cache_store_def split: bind_splits if_splits)
      then show ?thesis using cache_ok_more [OF assms(1), of "[c]"] unfolding cache_ok_def by blast
    qed
  qed
qed (use assms(1) cache_ok_more in \<open>simp add: cache_store_def\<close>)

lemma sync_cases:
  obtains (same) "fst (sync sb st c cache) = cache" | (built) proxy h where "built_hash sb st c proxy h"
    "fst (sync sb st c cache) = cache_store sb proxy (token_windows sb st proxy (sc_now c)) h (sc_clock c) cache"
proof (cases "fst (sync sb st c cache) = cache")
  case False
  then obtain proxy config where "authenticate sb c = Inr proxy" "proxy_config sb st (sc_db c) proxy (sc_now c) = Some (Inr config)"
      "fst (sync sb st c cache) = cache_store sb proxy (token_windows sb st proxy (sc_now c)) (config_hash sb proxy config) (sc_clock c) cache"
    by (auto simp: sync_def Let_def split: sum.splits option.splits)
  then show thesis by (intro built) (auto simp: built_hash_def)
qed (rule same)

lemma cache_after_ok: "cache_ok sb st calls (cache_after sb st calls)"
proof (induction calls rule: rev_induct)
  case Nil
  then show ?case by (simp add: cache_ok_def cache_after_def)
next
  case (snoc c calls)
  have "cache_after sb st (calls @ [c]) = fst (sync sb st c (cache_after sb st calls))" by (simp add: cache_after_def)
  then show ?case
    by (cases rule: sync_cases [of sb st c "cache_after sb st calls"]) (use snoc cache_ok_more cache_ok_stored in \<open>metis\<close>)+
qed

lemma opt_json_num: "opt_json (\<lambda>i. JNum i 0) a = opt_json (\<lambda>i. JNum i 0) b \<longleftrightarrow> a = b"
  by (cases a; cases b) (simp_all add: opt_json_def)

lemma same_generation:
  assumes "generation sb p tw = generation sb p' tw'"
  shows "tw_api tw = tw_api tw'" "tw_sandbox tw = tw_sandbox tw'" "px_principal_id p = px_principal_id p'"
    "px_principal_cache_version p = px_principal_cache_version p'" "px_labels p = px_labels p'" "px_name p = px_name p'"
  using assms by (simp_all add: generation_def opt_json_num)

lemma unchanged_from_build:
  assumes answer: "snd (sync sb st c (cache_after sb st calls)) = Some (Inr (unchanged h))" and proxy: "authenticate sb c = Inr proxy"
    and no_collision: "inj_on (generation_fingerprint sb) (generations sb st (calls @ [c]))"
  shows "\<exists>c' \<in> set (calls @ [c]). \<exists>proxy'. client_hash c = Some h \<and> built_hash sb st c' proxy' h \<and> px_id proxy' = px_id proxy \<and>
    sc_clock c - sc_clock c' < ENTRY_TTL \<and>
    generation sb proxy' (token_windows sb st proxy' (sc_now c')) = generation sb proxy (token_windows sb st proxy (sc_now c))"
proof -
  let ?cache = "cache_after sb st calls" and ?tw = "token_windows sb st proxy (sc_now c)"
  show ?thesis
  proof (cases "Option.bind (client_hash c) (\<lambda>h. matching_hash sb proxy ?tw h (sc_clock c) ?cache)")
    case None
    then obtain config where "proxy_config sb st (sc_db c) proxy (sc_now c) = Some (Inr config)" "client_hash c = Some h" "h = config_hash sb proxy config"
      using answer proxy by (auto simp: sync_def Let_def unchanged_def split: sum.splits option.splits if_splits)
    then show ?thesis using proxy by (intro bexI [of _ c] exI [of _ proxy]) (auto simp: built_hash_def ENTRY_TTL_def)
  next
    case (Some h')
    then have h': "h' = h" using answer proxy by (simp add: sync_def Let_def unchanged_def)
    with Some obtain e where e: "client_hash c = Some h" "?cache (px_id proxy) = Some e" "en_config_hash e = h"
        "sc_clock c - en_created_at e < ENTRY_TTL" "en_generation e = generation_fingerprint sb (generation sb proxy ?tw)"
      by (auto simp: matching_hash_def split: option.splits if_splits bind_splits)
    then obtain c' proxy' where c': "c' \<in> set calls" "px_id proxy' = px_id proxy" "built_hash sb st c' proxy' h"
        "en_generation e = generation_fingerprint sb (generation sb proxy' (token_windows sb st proxy' (sc_now c')))" "en_created_at e = sc_clock c'"
      using cache_after_ok [of sb st calls] unfolding cache_ok_def by blast
    have "generation sb proxy' (token_windows sb st proxy' (sc_now c')) \<in> generations sb st (calls @ [c])"
      using c'(1,3) by (intro in_generations) (auto simp: built_hash_def)
    moreover have "generation sb proxy ?tw \<in> generations sb st (calls @ [c])"
      using proxy by (intro in_generations) auto
    ultimately have "generation sb proxy' (token_windows sb st proxy' (sc_now c')) = generation sb proxy ?tw"
      using inj_onD [OF no_collision] c'(4) e(5) by simp
    with c' e show ?thesis by (intro bexI [of _ c'] exI [of _ proxy']) auto
  qed
qed

text \<open>
  C23. A proxy that is told its configuration is unchanged has a current one. Whatever requests the process served before, if
  the answer to a request is only the hash the proxy sent, then this request or an earlier one of the same proxy, less than
  ten minutes old, built a configuration with that hash for the same principal, version of its credentials, labels and token
  windows; so the tokens in it are the ones issued now, and the API token is valid for 45 minutes more, the sandbox token for
  two days. Of the hash function this assumes that it has no collision among the generations of these requests.
\<close>

theorem unchanged_answer_is_current:
  assumes answer: "snd (sync sb st c (cache_after sb st calls)) = Some (Inr (unchanged h))"
    and no_collision: "inj_on (generation_fingerprint sb) (generations sb st (calls @ [c]))"
  shows "\<exists>c' \<in> set (calls @ [c]). \<exists>proxy proxy'. client_hash c = Some h \<and>
    authenticate sb c = Inr proxy \<and> built_hash sb st c' proxy' h \<and> px_id proxy' = px_id proxy \<and> sc_clock c - sc_clock c' < ENTRY_TTL \<and>
    px_principal_id proxy' = px_principal_id proxy \<and> px_principal_cache_version proxy' = px_principal_cache_version proxy \<and>
    px_labels proxy' = px_labels proxy \<and> token_windows sb st proxy' (sc_now c') = token_windows sb st proxy (sc_now c) \<and>
    (case tw_api (token_windows sb st proxy' (sc_now c')) of None \<Rightarrow> True | Some iat \<Rightarrow> iat \<le> sc_now c \<and> sc_now c + 2700 < iat + 3600) \<and>
    (case tw_sandbox (token_windows sb st proxy' (sc_now c')) of None \<Rightarrow> True | Some iat \<Rightarrow> iat \<le> sc_now c \<and> sc_now c + 172800 < iat + 259200)"
proof -
  obtain proxy where proxy: "authenticate sb c = Inr proxy"
    using answer by (auto simp: sync_def split: sum.splits)
  let ?tw = "token_windows sb st proxy (sc_now c)"
  have window: "case tw_api ?tw of None \<Rightarrow> True | Some iat \<Rightarrow> iat \<le> sc_now c \<and> sc_now c + 2700 < iat + 3600"
    "case tw_sandbox ?tw of None \<Rightarrow> True | Some iat \<Rightarrow> iat \<le> sc_now c \<and> sc_now c + 172800 < iat + 259200"
    using window_start_bounds [where window = 900 and sb = sb and t = "sc_now c"]
      window_start_bounds [where window = 86400 and sb = sb and t = "sc_now c"]
    by (simp_all add: token_windows_def add.commute split: option.split)
  obtain c' proxy' where "c' \<in> set (calls @ [c])" "client_hash c = Some h" "built_hash sb st c' proxy' h" "px_id proxy' = px_id proxy"
      "sc_clock c - sc_clock c' < ENTRY_TTL" and g: "generation sb proxy' (token_windows sb st proxy' (sc_now c')) = generation sb proxy ?tw"
    using unchanged_from_build [OF answer proxy no_collision] by blast
  moreover have "token_windows sb st proxy' (sc_now c') = ?tw" using same_generation(1,2) [OF g] by simp
  ultimately show ?thesis using proxy window same_generation [OF g] by (intro bexI [of _ c'] exI [of _ proxy] exI [of _ proxy']) simp_all
qed

definition example_base :: sync_base where
  "example_base = \<lparr>sb_oid = (\<lambda>kind i. kind), sb_crc32 = length, sb_lower = (\<lambda>s. s), sb_parse = (\<lambda>_. None), sb_to_string = (\<lambda>_. ''json''),
     sb_sha256 = (\<lambda>s. s), sb_jwt = (\<lambda>_ _. Some ''token''), sb_date = (\<lambda>_. []), sb_stamp = (\<lambda>_. []), sb_console_error = (\<lambda>_. []),
     sb_env = (\<lambda>_. None)\<rparr>"

definition example_proxy :: ProxyRecord where
  "example_proxy = \<lparr>px_id = 7, px_name = ''sandbox-7'', px_labels = JNull, px_principal_id = Some 11, px_requester_principal_id = None,
     px_principal_assigned_at = None, px_requester_principal_assigned_at = None, px_principal_cache_version = Some 3, px_principal = None,
     px_console_user_email = None, px_console_user_id = None, px_slack_history_channel_ids = JNull, px_google_chat = default_claims\<rparr>"

definition example_app :: AppState where
  "example_app = \<lparr>as_jwt_secret = Some ''s'', as_api_hosts = [''api''], as_console_host = Some ''console''\<rparr>"

definition example_sync_db :: sync_db where
  "example_sync_db = \<lparr>sd_proxy = (\<lambda>_. Inr (Some example_proxy)), sd_chat = (\<lambda>_. Inr ([], [], [])), sd_channels = (\<lambda>_. Inr ([], [], [])),
     sd_credentials = (\<lambda>_ _. Inr []), sd_decrypt = Inr\<rparr>"

definition example_sync :: "string option \<Rightarrow> int \<Rightarrow> sync_call" where
  "example_sync h clock = \<lparr>sc_authorization = Some ''Bearer t'', sc_config_hash = h, sc_now = 1700000000, sc_clock = clock, sc_db = example_sync_db\<rparr>"

theorem unchanged_answer_is_current_witness:
  "\<exists>c' \<in> set ([example_sync None 0] @ [example_sync (Some ''sha256:json'') 5]). \<exists>proxy'.
     built_hash example_base example_app c' proxy' ''sha256:json'' \<and> px_id proxy' = 7"
proof -
  let ?p = "example_proxy\<lparr>px_google_chat := google_chat_claims (\<lambda>s. s) (\<lambda>_. None) [] [] [] JNull\<rparr>"
  have auth: "authenticate example_base (example_sync h t) = Inr ?p" for h t
    by (simp add: authenticate_def bearer_token_def example_sync_def strip_prefix_def starts_with_def load_proxy_def internal_def example_sync_db_def
        example_proxy_def example_base_def px_principal_field_def)
  have config: "\<exists>config. proxy_config example_base example_app example_sync_db ?p n = Some (Inr config)" for n
    by (simp add: proxy_config_def sync_build_config_def example_sync_db_def internal_def example_proxy_def example_app_def build_config_def
        suppress_def transforms_def of_kind_def append_api_jwt_def append_sandbox_jwt_def sync_jwt_def
        example_base_def Let_def)
  have hash: "config_hash example_base ?p config = ''sha256:json''" for config
    by (simp add: config_hash_def example_base_def Let_def)
  define p where "p = ?p"
  note auth = auth [folded p_def] and hash = hash [folded p_def] and config = config [folded p_def]
  have p: "px_id p = 7" "px_requester_principal_id p = None" by (simp_all add: p_def example_proxy_def)
  have call: "sc_now (example_sync h t) = 1700000000" "sc_clock (example_sync h t) = t" "sc_db (example_sync h t) = example_sync_db"
    "sc_config_hash (example_sync h t) = h" for h t by (simp_all add: example_sync_def)
  obtain config where built: "proxy_config example_base example_app example_sync_db p 1700000000 = Some (Inr config)" using config by blast
  have cache: "cache_after example_base example_app [example_sync None 0] 7 = Some \<lparr>en_generation =
      generation_fingerprint example_base (generation example_base p (token_windows example_base example_app p 1700000000)),
      en_config_hash = ''sha256:json'', en_created_at = 0\<rparr>"
    using built p by (simp add: cache_after_def sync_def auth client_hash_def call hash cache_store_def Let_def)
  have "snd (sync example_base example_app (example_sync (Some ''sha256:json'') 5) (cache_after example_base example_app [example_sync None 0])) =
      Some (Inr (unchanged ''sha256:json''))"
    using cache p by (simp add: sync_def auth client_hash_def matching_hash_def ENTRY_TTL_def call Let_def)
  moreover have "inj_on (generation_fingerprint example_base) (generations example_base example_app ([example_sync None 0] @ [example_sync (Some ''sha256:json'') 5]))"
    by (simp add: inj_on_def generations_def call_generation_def auth call)
  ultimately show ?thesis
    using unchanged_answer_is_current [of example_base example_app "example_sync (Some ''sha256:json'') 5" "[example_sync None 0]" "''sha256:json''"]
    by (auto simp: auth p)
qed

end
