(* ===== verification/Tool_Manifest.thy ===== *)
theory Tool_Manifest
  imports Workflow_Policy
begin

text \<open>
  The secrets a tool declares (\<^verbatim>\<open>crates/centaur-perms/src/tools.rs\<close>): finding the tool in the ordered tool
  directories and parsing the \<^verbatim>\<open>[tool.centaur]\<close> block of its \<^verbatim>\<open>pyproject.toml\<close> into \<open>ParsedSecret\<close>s. The file
  system and the TOML parser are arguments. An error is a constructor per \<^verbatim>\<open>bail!\<close>; the context lines that
  \<^verbatim>\<open>wrap_err\<close> puts before it are left out.
\<close>

section \<open>TOML values\<close>

text \<open>\<^verbatim>\<open>toml::Value\<close>; a table is its entries in key order, a float or a date-time its text.\<close>

datatype toml =
    TString string
  | TInteger int
  | TFloat string
  | TBoolean bool
  | TDatetime string
  | TArray "toml list"
  | TTable "(string \<times> toml) list"

type_synonym table = "(string \<times> toml) list"

fun toml_str :: "toml \<Rightarrow> string option" where
  "toml_str (TString s) = Some s"
| "toml_str _ = None"

fun toml_array :: "toml \<Rightarrow> toml list option" where
  "toml_array (TArray xs) = Some xs"
| "toml_array _ = None"

fun toml_table :: "toml \<Rightarrow> table option" where
  "toml_table (TTable t) = Some t"
| "toml_table _ = None"

fun toml_get :: "string \<Rightarrow> toml \<Rightarrow> toml option" where
  "toml_get k (TTable t) = map_of t k"
| "toml_get _ _ = None"

section \<open>Parsed secrets\<close>

datatype ToolError =
    EmptySecretString
  | ToolHostsRequired string
  | NotStringOrTable
  | MissingString string
  | InvalidSecretRef string
  | UnknownSecretType string string
  | UnknownMode string string
  | HostsRequired string
  | KeyNotAllowed string string
  | NoPlaceToScan string
  | InvalidReplacer string
  | NotOneInjection string
  | FormatterWithoutHeader string
  | InvalidBoolean string string
  | UnknownGrant string string
  | InvalidTokenEndpoint string
  | NotATable string string
  | NoFields string
  | FieldNotValid string string
  | FieldMissing string string
  | AudienceRequired string
  | AudienceNotAllowed string
  | InvalidIdTokenHeader string
  | SettingsNotArray
  | SettingNotTable
  | NotOneSettingValue string
  | ValueFromNotTable
  | NotOneValueFrom
  | InvalidEnum string string
  | NoCredentials string
  | NoHmacKey string
  | NoHeaders string
  | HeaderNotTable string nat
  | MissingAwsKey string string
  | InvalidSessionToken string
  | InvalidAwsArray string string
  | EmptyFieldRef string string
  | InvalidJsonKey string string
  | InvalidFieldSource string string
  | SecretsNotArray
  | NoToolDirectories
  | ToolNotFound string
  | ToolDirHasNoName
  | UnreadableManifest
  | InvalidToml

type_synonym 'a tool_result = "ToolError + 'a"

definition ok_or_err :: "'e \<Rightarrow> 'a option \<Rightarrow> 'e + 'a" where
  "ok_or_err e v = (case v of None \<Rightarrow> Inl e | Some a \<Rightarrow> Inr a)"

datatype SecretMode = ModeReplace | ModeInject

record FieldSource =
  fsr_secret_ref :: string
  fsr_json_key :: "string option"

record HttpSecret =
  htp_name :: string
  htp_secret_ref :: string
  htp_mode :: SecretMode
  htp_hosts :: "string list"
  htp_replacer :: string
  htp_match_headers :: "string list"
  htp_match_path :: bool
  htp_match_query :: bool
  htp_inject_header :: "string option"
  htp_inject_formatter :: "string option"
  htp_inject_query_param :: "string option"

record OAuthTokenSecret =
  oat_name :: string
  oat_grant :: string
  oat_hosts :: "string list"
  oat_fields :: "(string \<times> FieldSource) list"
  oat_scopes :: "string list"
  oat_token_endpoint :: "string option"
  oat_token_endpoint_headers :: "(string \<times> FieldSource) list"
  oat_audience :: "string option"

record GcpAuthSecret =
  gca_name :: string
  gca_secret_ref :: string
  gca_hosts :: "string list"
  gca_scopes :: "string list"

record GcpIdTokenSecret =
  gci_name :: string
  gci_secret_ref :: string
  gci_hosts :: "string list"
  gci_audience :: string
  gci_header :: "string option"

record PgDsnSettingValueFrom =
  vf_principal_label :: "string option"
  vf_principal_field :: "string option"
  vf_proxy_label :: "string option"

record PgDsnSetting =
  pst_name :: string
  pst_value :: "string option"
  pst_value_from :: "PgDsnSettingValueFrom option"

record PgDsnSecret =
  pgd_name :: string
  pgd_secret_ref :: string
  pgd_database :: string
  pgd_role :: "string option"
  pgd_settings :: "PgDsnSetting list"

record HmacSignHeader =
  hh_name :: string
  hh_value :: string

record HmacSignSecret =
  hms_name :: string
  hms_hosts :: "string list"
  hms_credentials :: "(string \<times> FieldSource) list"
  hms_headers :: "HmacSignHeader list"
  hms_algorithm :: string
  hms_key_encoding :: string
  hms_output_encoding :: string
  hms_message :: string
  hms_timestamp_format :: string
  hms_allow_chunked_body :: bool

record BrokerTokenSecret =
  brk_name :: string
  brk_credential :: string
  brk_hosts :: "string list"
  brk_inject_header :: string
  brk_inject_formatter :: string

record AwsAuthSecret =
  awa_name :: string
  awa_hosts :: "string list"
  awa_access_key_id_ref :: string
  awa_secret_access_key_ref :: string
  awa_session_token_ref :: "string option"
  awa_allowed_regions :: "string list"
  awa_allowed_services :: "string list"

datatype ParsedSecret =
    PsHttp HttpSecret
  | PsOAuthToken OAuthTokenSecret
  | PsGcpAuth GcpAuthSecret
  | PsGcpIdToken GcpIdTokenSecret
  | PsPgDsn PgDsnSecret
  | PsHmac HmacSignSecret
  | PsBrokerToken BrokerTokenSecret
  | PsAwsAuth AwsAuthSecret

fun parsed_secret_name :: "ParsedSecret \<Rightarrow> string" where
  "parsed_secret_name (PsHttp s) = htp_name s"
| "parsed_secret_name (PsOAuthToken s) = oat_name s"
| "parsed_secret_name (PsGcpAuth s) = gca_name s"
| "parsed_secret_name (PsGcpIdToken s) = gci_name s"
| "parsed_secret_name (PsPgDsn s) = pgd_name s"
| "parsed_secret_name (PsHmac s) = hms_name s"
| "parsed_secret_name (PsBrokerToken s) = brk_name s"
| "parsed_secret_name (PsAwsAuth s) = awa_name s"

section \<open>Reading a table\<close>

definition non_empty_str :: "toml \<Rightarrow> string option" where
  "non_empty_str v = (case toml_str v of Some s \<Rightarrow> if s = [] then None else Some s | None \<Rightarrow> None)"

definition toml_opt_str :: "table \<Rightarrow> string \<Rightarrow> string option" where
  "toml_opt_str t k = Option.bind (map_of t k) non_empty_str"

definition req_str :: "table \<Rightarrow> string \<Rightarrow> string tool_result" where
  "req_str t k = ok_or_err (MissingString k) (toml_opt_str t k)"

definition bool_field :: "table \<Rightarrow> string \<Rightarrow> string \<Rightarrow> bool tool_result" where
  "bool_field t name k =
     (case map_of t k of None \<Rightarrow> Inr False | Some (TBoolean b) \<Rightarrow> Inr b | Some _ \<Rightarrow> Inl (InvalidBoolean name k))"

definition str_array :: "toml option \<Rightarrow> string list option" where
  "str_array v = map_option (List.map_filter toml_str) (Option.bind v toml_array)"

definition str_array_or_default :: "toml option \<Rightarrow> string list" where
  "str_array_or_default v = (case str_array v of None \<Rightarrow> [] | Some ss \<Rightarrow> ss)"

definition non_empty_str_array :: "toml option \<Rightarrow> string list option" where
  "non_empty_str_array v =
     (case Option.bind v toml_array of
        None \<Rightarrow> None
      | Some arr \<Rightarrow> if arr = [] then None else those (map non_empty_str arr))"

fun reject_keys :: "table \<Rightarrow> string \<Rightarrow> string list \<Rightarrow> unit tool_result" where
  "reject_keys t name [] = Inr ()"
| "reject_keys t name (k # ks) = (if map_of t k \<noteq> None then Inl (KeyNotAllowed name k) else reject_keys t name ks)"

definition GCP_ID_TOKEN_ALLOWED_HEADERS :: "string list" where
  "GCP_ID_TOKEN_ALLOWED_HEADERS = [''authorization'', ''x-serverless-authorization'']"

definition normalize_gcp_id_token_header :: "string \<Rightarrow> string option" where
  "normalize_gcp_id_token_header v =
     (let normalized = to_ascii_lowercase (trim v)
      in if normalized \<in> set GCP_ID_TOKEN_ALLOWED_HEADERS then Some normalized else None)"

definition validate_gcp_id_token_header :: "string \<Rightarrow> string tool_result" where
  "validate_gcp_id_token_header v = ok_or_err (InvalidIdTokenHeader v) (normalize_gcp_id_token_header v)"

section \<open>Field sources\<close>

text \<open>\<open>ctx\<close> names the entry and \<open>f\<close> its field.\<close>

definition parse_field_source :: "string \<Rightarrow> string \<Rightarrow> toml \<Rightarrow> FieldSource tool_result" where
  "parse_field_source ctx f raw =
     (case raw of
        TString s \<Rightarrow> if s = [] then Inl (EmptyFieldRef ctx f) else Inr \<lparr>fsr_secret_ref = s, fsr_json_key = None\<rparr>
      | TTable t \<Rightarrow>
          res_bind (req_str t ''secret_ref'') (\<lambda>ref.
          res_bind (case map_of t ''json_key'' of
                      Some v \<Rightarrow> res_map Some (ok_or_err (InvalidJsonKey ctx f) (non_empty_str v))
                    | None \<Rightarrow> Inr None) (\<lambda>json_key.
          Inr \<lparr>fsr_secret_ref = ref, fsr_json_key = json_key\<rparr>))
      | _ \<Rightarrow> Inl (InvalidFieldSource ctx f))"

definition field_source_entries :: "string \<Rightarrow> table \<Rightarrow> (string \<times> FieldSource) list tool_result" where
  "field_source_entries ctx t = collect_results (map (\<lambda>(f, raw). res_map (Pair f) (parse_field_source ctx f raw)) t)"

definition parse_field_map :: "toml option \<Rightarrow> string \<Rightarrow> string \<Rightarrow> (string \<times> FieldSource) list tool_result" where
  "parse_field_map v secret what =
     (case v of None \<Rightarrow> Inr []
      | Some raw \<Rightarrow> res_bind (ok_or_err (NotATable secret what) (toml_table raw)) (field_source_entries secret))"

section \<open>The kinds of secret\<close>

definition DEFAULT_MATCH_HEADERS :: "string list" where
  "DEFAULT_MATCH_HEADERS =
     [''Authorization'', ''Proxy-Authorization'', ''Api-Key'', ''Anthropic-Api-Key'', ''Auth-Token'', ''Jwt'', ''Cookie'',
      ''Apikey'', ''AccessKey'', ''Api-Access-Key'', ''Api-Signature'', ''FX-ACCESS-KEY'', ''FX-ACCESS-SIGN'',
      ''FX-ACCESS-PASSPHRASE'', ''X-CB-ACCESS-PASSPHRASE'', ''X-CB-ACCESS-SIGNATURE'',
      ''/^x-[a-z0-9-]*(api-key|apikey|secret|token|auth|key)$/'']"

definition OAUTH_GRANT_FIELDS :: "(string \<times> string list \<times> string list) list" where
  "OAUTH_GRANT_FIELDS =
     [(''refresh_token'', [''refresh_token'', ''client_id''], [''client_secret'']),
      (''client_credentials'', [''client_id'', ''client_secret''], []),
      (''password'', [''username'', ''password'', ''client_id''], [''client_secret'']),
      (''jwt_bearer'', [''issuer'', ''subject'', ''private_key''], [''private_key_id''])]"

text \<open>The hosts of an entry, or else those of the tool: the same lines in the http and the broker branch.\<close>

definition entry_hosts :: "table \<Rightarrow> string \<Rightarrow> string list \<Rightarrow> string list tool_result" where
  "entry_hosts t name default_hosts =
     (case non_empty_str_array (map_of t ''hosts'') of
        Some hosts \<Rightarrow> Inr hosts
      | None \<Rightarrow> if default_hosts \<noteq> [] then Inr default_hosts else Inl (HostsRequired name))"

definition own_hosts :: "table \<Rightarrow> string \<Rightarrow> string list tool_result" where
  "own_hosts t name = ok_or_err (HostsRequired name) (non_empty_str_array (map_of t ''hosts''))"

definition parse_mode :: "table \<Rightarrow> string \<Rightarrow> SecretMode tool_result" where
  "parse_mode t name =
     (let m = (case Option.bind (map_of t ''mode'') toml_str of None \<Rightarrow> ''replace'' | Some m \<Rightarrow> m) in
      if m = ''replace'' then Inr ModeReplace else if m = ''inject'' then Inr ModeInject else Inl (UnknownMode name m))"

definition parse_replace :: "table \<Rightarrow> string \<Rightarrow> string \<Rightarrow> string list \<Rightarrow> HttpSecret tool_result" where
  "parse_replace t name secret_ref hosts =
     res_bind (reject_keys t name [''inject_header'', ''inject_formatter'', ''inject_query_param'']) (\<lambda>_.
     let match_headers = str_array_or_default (map_of t ''match_headers'') in
     res_bind (bool_field t name ''match_path'') (\<lambda>match_path.
     res_bind (bool_field t name ''match_query'') (\<lambda>match_query.
     if match_headers = [] \<and> \<not> match_path \<and> \<not> match_query then Inl (NoPlaceToScan name)
     else res_bind (case map_of t ''replacer'' of None \<Rightarrow> Inr name | Some v \<Rightarrow> ok_or_err (InvalidReplacer name) (non_empty_str v)) (\<lambda>replacer.
     Inr \<lparr>htp_name = name, htp_secret_ref = secret_ref, htp_mode = ModeReplace, htp_hosts = hosts, htp_replacer = replacer,
          htp_match_headers = match_headers, htp_match_path = match_path, htp_match_query = match_query,
          htp_inject_header = None, htp_inject_formatter = None, htp_inject_query_param = None\<rparr>))))"

definition parse_inject :: "table \<Rightarrow> string \<Rightarrow> string \<Rightarrow> string list \<Rightarrow> HttpSecret tool_result" where
  "parse_inject t name secret_ref hosts =
     res_bind (reject_keys t name [''replacer'', ''match_headers'', ''match_path'', ''match_query'']) (\<lambda>_.
     let inject_header = toml_opt_str t ''inject_header'';
         inject_query_param = toml_opt_str t ''inject_query_param'';
         inject_formatter = toml_opt_str t ''inject_formatter''
     in if (inject_header \<noteq> None) = (inject_query_param \<noteq> None) then Inl (NotOneInjection name)
        else if inject_formatter \<noteq> None \<and> inject_header = None then Inl (FormatterWithoutHeader name)
        else Inr \<lparr>htp_name = name, htp_secret_ref = secret_ref, htp_mode = ModeInject, htp_hosts = hosts, htp_replacer = [],
          htp_match_headers = [], htp_match_path = False, htp_match_query = False, htp_inject_header = inject_header,
          htp_inject_formatter = inject_formatter, htp_inject_query_param = inject_query_param\<rparr>)"

definition parse_http :: "table \<Rightarrow> string \<Rightarrow> string \<Rightarrow> string list \<Rightarrow> HttpSecret tool_result" where
  "parse_http t name secret_ref default_hosts =
     res_bind (parse_mode t name) (\<lambda>mode.
     res_bind (entry_hosts t name default_hosts) (\<lambda>hosts.
     case mode of ModeReplace \<Rightarrow> parse_replace t name secret_ref hosts | ModeInject \<Rightarrow> parse_inject t name secret_ref hosts))"

definition check_oauth_fields ::
  "string \<Rightarrow> string list \<Rightarrow> string list \<Rightarrow> (string \<times> FieldSource) list \<Rightarrow> unit tool_result" where
  "check_oauth_fields name required optional fs =
     (if fs = [] then Inl (NoFields name)
      else case find (\<lambda>f. f \<notin> set required \<and> f \<notin> set optional) (map fst fs) of
             Some f \<Rightarrow> Inl (FieldNotValid name f)
           | None \<Rightarrow>
               (case find (\<lambda>r. r \<notin> set (map fst fs)) required of Some r \<Rightarrow> Inl (FieldMissing name r) | None \<Rightarrow> Inr ()))"

definition parse_oauth :: "table \<Rightarrow> string \<Rightarrow> OAuthTokenSecret tool_result" where
  "parse_oauth t name =
     res_bind (req_str t ''grant'') (\<lambda>grant.
     res_bind (ok_or_err (UnknownGrant name grant) (map_of OAUTH_GRANT_FIELDS grant)) (\<lambda>(required, optional).
     res_bind (own_hosts t name) (\<lambda>hosts.
     let scopes = str_array_or_default (map_of t ''scopes'') in
     res_bind (case map_of t ''token_endpoint'' of
                 None \<Rightarrow> Inr None
               | Some v \<Rightarrow> res_map Some (ok_or_err (InvalidTokenEndpoint name) (non_empty_str v))) (\<lambda>token_endpoint.
     res_bind (parse_field_map (map_of t ''fields'') name ''fields'') (\<lambda>fs.
     res_bind (check_oauth_fields name required optional fs) (\<lambda>_.
     res_bind (parse_field_map (map_of t ''token_endpoint_headers'') name ''token_endpoint_headers'') (\<lambda>endpoint_headers.
     let audience = toml_opt_str t ''audience'' in
     if grant = ''jwt_bearer'' \<and> audience = None then Inl (AudienceRequired name)
     else if grant \<noteq> ''jwt_bearer'' \<and> audience \<noteq> None then Inl (AudienceNotAllowed name)
     else Inr \<lparr>oat_name = name, oat_grant = grant, oat_hosts = hosts, oat_fields = fs, oat_scopes = scopes,
       oat_token_endpoint = token_endpoint, oat_token_endpoint_headers = endpoint_headers, oat_audience = audience\<rparr>)))))))"

definition parse_gcp :: "table \<Rightarrow> string \<Rightarrow> string \<Rightarrow> GcpAuthSecret tool_result" where
  "parse_gcp t name secret_ref =
     res_bind (own_hosts t name) (\<lambda>hosts.
     Inr \<lparr>gca_name = name, gca_secret_ref = secret_ref, gca_hosts = hosts,
          gca_scopes = str_array_or_default (map_of t ''scopes'')\<rparr>)"

definition parse_gcp_id_token :: "table \<Rightarrow> string \<Rightarrow> string \<Rightarrow> GcpIdTokenSecret tool_result" where
  "parse_gcp_id_token t name secret_ref =
     res_bind (own_hosts t name) (\<lambda>hosts.
     res_bind (req_str t ''audience'') (\<lambda>audience.
     res_bind (case toml_opt_str t ''header'' of None \<Rightarrow> Inr None | Some h \<Rightarrow> res_map Some (validate_gcp_id_token_header h)) (\<lambda>header.
     Inr \<lparr>gci_name = name, gci_secret_ref = secret_ref, gci_hosts = hosts, gci_audience = audience, gci_header = header\<rparr>)))"

definition parse_pg_dsn_setting_value_from :: "toml option \<Rightarrow> PgDsnSettingValueFrom option tool_result" where
  "parse_pg_dsn_setting_value_from v =
     (case v of None \<Rightarrow> Inr None
      | Some raw \<Rightarrow>
          res_bind (ok_or_err ValueFromNotTable (toml_table raw)) (\<lambda>t.
          let principal_label = toml_opt_str t ''principal_label'';
              principal_field = toml_opt_str t ''principal_field'';
              proxy_label = toml_opt_str t ''proxy_label''
          in if length (filter (\<lambda>x. x \<noteq> None) [principal_label, principal_field, proxy_label]) \<noteq> 1 then Inl NotOneValueFrom
             else Inr (Some \<lparr>vf_principal_label = principal_label, vf_principal_field = principal_field,
               vf_proxy_label = proxy_label\<rparr>)))"

definition parse_pg_dsn_setting :: "toml \<Rightarrow> PgDsnSetting tool_result" where
  "parse_pg_dsn_setting item =
     res_bind (ok_or_err SettingNotTable (toml_table item)) (\<lambda>t.
     res_bind (req_str t ''name'') (\<lambda>name.
     let literal = toml_opt_str t ''value'' in
     res_bind (parse_pg_dsn_setting_value_from (map_of t ''value_from'')) (\<lambda>value_from.
     if (literal \<noteq> None) = (value_from \<noteq> None) then Inl (NotOneSettingValue name)
     else Inr \<lparr>pst_name = name, pst_value = literal, pst_value_from = value_from\<rparr>)))"

definition parse_pg_dsn_settings :: "toml option \<Rightarrow> PgDsnSetting list tool_result" where
  "parse_pg_dsn_settings v =
     (case v of None \<Rightarrow> Inr []
      | Some raw \<Rightarrow> res_bind (ok_or_err SettingsNotArray (toml_array raw)) (\<lambda>arr. collect_results (map parse_pg_dsn_setting arr)))"

definition parse_pg_dsn :: "table \<Rightarrow> string \<Rightarrow> string \<Rightarrow> PgDsnSecret tool_result" where
  "parse_pg_dsn t name secret_ref =
     res_bind (req_str t ''database'') (\<lambda>database.
     res_bind (parse_pg_dsn_settings (map_of t ''settings'')) (\<lambda>settings.
     Inr \<lparr>pgd_name = name, pgd_secret_ref = secret_ref, pgd_database = database, pgd_role = toml_opt_str t ''role'',
          pgd_settings = settings\<rparr>))"

definition HMAC_ALGORITHMS :: "string list" where
  "HMAC_ALGORITHMS = [''sha256'', ''sha512'', ''sha1'']"

definition HMAC_KEY_ENCODINGS :: "string list" where
  "HMAC_KEY_ENCODINGS = [''raw'', ''base64'', ''hex'']"

definition HMAC_OUTPUT_ENCODINGS :: "string list" where
  "HMAC_OUTPUT_ENCODINGS = [''base64'', ''hex'']"

definition HMAC_TIMESTAMP_FORMATS :: "string list" where
  "HMAC_TIMESTAMP_FORMATS = [''unix_seconds'', ''unix_millis'', ''unix_nanos'', ''rfc3339'']"

definition HMAC_REQUIRED_CREDENTIAL :: string where
  "HMAC_REQUIRED_CREDENTIAL = ''secret''"

definition parse_hmac_enum :: "table \<Rightarrow> string \<Rightarrow> string \<Rightarrow> string list \<Rightarrow> string tool_result" where
  "parse_hmac_enum t name k allowed =
     (case Option.bind (map_of t k) toml_str of
        Some v \<Rightarrow> if v \<in> set allowed then Inr v else Inl (InvalidEnum name k)
      | None \<Rightarrow> Inl (InvalidEnum name k))"

definition parse_hmac_credentials :: "toml option \<Rightarrow> string \<Rightarrow> (string \<times> FieldSource) list tool_result" where
  "parse_hmac_credentials v name =
     (case Option.bind v toml_table of
        None \<Rightarrow> Inl (NoCredentials name)
      | Some t \<Rightarrow>
          if t = [] then Inl (NoCredentials name)
          else res_bind (field_source_entries name t) (\<lambda>out.
               if HMAC_REQUIRED_CREDENTIAL \<notin> set (map fst out) then Inl (NoHmacKey name) else Inr out))"

definition parse_hmac_header :: "string \<Rightarrow> nat \<Rightarrow> toml \<Rightarrow> HmacSignHeader tool_result" where
  "parse_hmac_header name index entry =
     res_bind (ok_or_err (HeaderNotTable name index) (toml_table entry)) (\<lambda>t.
     res_bind (req_str t ''name'') (\<lambda>header_name.
     res_bind (req_str t ''value'') (\<lambda>v.
     Inr \<lparr>hh_name = header_name, hh_value = v\<rparr>)))"

definition parse_hmac_headers :: "toml option \<Rightarrow> string \<Rightarrow> HmacSignHeader list tool_result" where
  "parse_hmac_headers v name =
     (case Option.bind v toml_array of
        None \<Rightarrow> Inl (NoHeaders name)
      | Some arr \<Rightarrow>
          if arr = [] then Inl (NoHeaders name)
          else collect_results (map (\<lambda>(index, entry). parse_hmac_header name index entry) (enumerate 0 arr)))"

definition parse_hmac :: "table \<Rightarrow> string \<Rightarrow> HmacSignSecret tool_result" where
  "parse_hmac t name =
     res_bind (own_hosts t name) (\<lambda>hosts.
     res_bind (parse_hmac_credentials (map_of t ''credentials'') name) (\<lambda>credentials.
     res_bind (parse_hmac_headers (map_of t ''headers'') name) (\<lambda>headers.
     res_bind (parse_hmac_enum t name ''algorithm'' HMAC_ALGORITHMS) (\<lambda>algorithm.
     res_bind (parse_hmac_enum t name ''key_encoding'' HMAC_KEY_ENCODINGS) (\<lambda>key_encoding.
     res_bind (parse_hmac_enum t name ''output_encoding'' HMAC_OUTPUT_ENCODINGS) (\<lambda>output_encoding.
     res_bind (parse_hmac_enum t name ''timestamp_format'' HMAC_TIMESTAMP_FORMATS) (\<lambda>timestamp_format.
     res_bind (req_str t ''message'') (\<lambda>message.
     res_bind (bool_field t name ''allow_chunked_body'') (\<lambda>allow_chunked_body.
     Inr \<lparr>hms_name = name, hms_hosts = hosts, hms_credentials = credentials, hms_headers = headers, hms_algorithm = algorithm,
       hms_key_encoding = key_encoding, hms_output_encoding = output_encoding, hms_message = message,
       hms_timestamp_format = timestamp_format, hms_allow_chunked_body = allow_chunked_body\<rparr>)))))))))"

definition aws_str_array :: "toml option \<Rightarrow> string \<Rightarrow> string \<Rightarrow> string list tool_result" where
  "aws_str_array v name k =
     (case v of None \<Rightarrow> Inr []
      | Some raw \<Rightarrow>
          res_bind (ok_or_err (InvalidAwsArray name k) (toml_array raw)) (\<lambda>arr.
          collect_results (map (\<lambda>item. ok_or_err (InvalidAwsArray name k) (non_empty_str item)) arr)))"

definition parse_aws :: "table \<Rightarrow> string \<Rightarrow> AwsAuthSecret tool_result" where
  "parse_aws t name =
     res_bind (own_hosts t name) (\<lambda>hosts.
     res_bind (ok_or_err (MissingAwsKey name ''access_key_id'') (toml_opt_str t ''access_key_id'')) (\<lambda>access_key_id.
     res_bind (ok_or_err (MissingAwsKey name ''secret_access_key'') (toml_opt_str t ''secret_access_key'')) (\<lambda>secret_access_key.
     res_bind (case map_of t ''session_token'' of
                 None \<Rightarrow> Inr None
               | Some _ \<Rightarrow> res_map Some (ok_or_err (InvalidSessionToken name) (toml_opt_str t ''session_token''))) (\<lambda>session_token.
     res_bind (aws_str_array (map_of t ''allowed_regions'') name ''allowed_regions'') (\<lambda>regions.
     res_bind (aws_str_array (map_of t ''allowed_services'') name ''allowed_services'') (\<lambda>services.
     Inr \<lparr>awa_name = name, awa_hosts = hosts, awa_access_key_id_ref = access_key_id,
       awa_secret_access_key_ref = secret_access_key, awa_session_token_ref = session_token,
       awa_allowed_regions = regions, awa_allowed_services = services\<rparr>))))))"

definition BROKER_TOKEN_DEFAULT_HEADER :: string where
  "BROKER_TOKEN_DEFAULT_HEADER = ''Authorization''"

definition BROKER_TOKEN_DEFAULT_FORMATTER :: string where
  "BROKER_TOKEN_DEFAULT_FORMATTER = ''Bearer {{.Value}}''"

definition str_or :: "string \<Rightarrow> string option \<Rightarrow> string" where
  "str_or d v = (case v of None \<Rightarrow> d | Some s \<Rightarrow> s)"

definition parse_broker_token :: "table \<Rightarrow> string \<Rightarrow> string list \<Rightarrow> BrokerTokenSecret tool_result" where
  "parse_broker_token t name default_hosts =
     res_bind (entry_hosts t name default_hosts) (\<lambda>hosts.
     Inr \<lparr>brk_name = name, brk_credential = str_or name (toml_opt_str t ''credential''), brk_hosts = hosts,
       brk_inject_header = str_or BROKER_TOKEN_DEFAULT_HEADER (toml_opt_str t ''inject_header''),
       brk_inject_formatter = str_or BROKER_TOKEN_DEFAULT_FORMATTER (toml_opt_str t ''inject_formatter'')\<rparr>)"

section \<open>Secret entries\<close>

definition raw_string_secret :: "string \<Rightarrow> string list \<Rightarrow> ParsedSecret tool_result" where
  "raw_string_secret s default_hosts =
     (if s = [] then Inl EmptySecretString
      else if default_hosts = [] then Inl (ToolHostsRequired s)
      else Inr (PsHttp \<lparr>htp_name = s, htp_secret_ref = s, htp_mode = ModeReplace, htp_hosts = default_hosts, htp_replacer = s,
        htp_match_headers = DEFAULT_MATCH_HEADERS, htp_match_path = False, htp_match_query = False,
        htp_inject_header = None, htp_inject_formatter = None, htp_inject_query_param = None\<rparr>))"

definition parse_secret_table :: "table \<Rightarrow> string list \<Rightarrow> ParsedSecret tool_result" where
  "parse_secret_table t default_hosts =
     res_bind (req_str t ''name'') (\<lambda>name.
     let secret_type = str_or ''http'' (Option.bind (map_of t ''type'') toml_str) in
     res_bind (case map_of t ''secret_ref'' of
                 Some v \<Rightarrow> ok_or_err (InvalidSecretRef name) (non_empty_str v)
               | None \<Rightarrow> Inr name) (\<lambda>secret_ref.
     if secret_type = ''http'' \<or> secret_type = ''header'' then res_map PsHttp (parse_http t name secret_ref default_hosts)
     else if secret_type = ''oauth_token'' then res_map PsOAuthToken (parse_oauth t name)
     else if secret_type = ''gcp_auth'' then res_map PsGcpAuth (parse_gcp t name secret_ref)
     else if secret_type = ''gcp_id_token'' then res_map PsGcpIdToken (parse_gcp_id_token t name secret_ref)
     else if secret_type = ''pg_dsn'' then res_map PsPgDsn (parse_pg_dsn t name secret_ref)
     else if secret_type = ''hmac_sign'' then res_map PsHmac (parse_hmac t name)
     else if secret_type = ''brokered_token'' then res_map PsBrokerToken (parse_broker_token t name default_hosts)
     else if secret_type = ''aws_auth'' then res_map PsAwsAuth (parse_aws t name)
     else Inl (UnknownSecretType secret_type name)))"

definition parse_secret :: "string list \<Rightarrow> toml \<Rightarrow> ParsedSecret tool_result" where
  "parse_secret default_hosts entry =
     (case toml_str entry of
        Some s \<Rightarrow> raw_string_secret s default_hosts
      | None \<Rightarrow> res_bind (ok_or_err NotStringOrTable (toml_table entry)) (\<lambda>t. parse_secret_table t default_hosts))"

definition parse_secret_list :: "toml option \<Rightarrow> string list \<Rightarrow> ParsedSecret list tool_result" where
  "parse_secret_list entries default_hosts =
     (case entries of None \<Rightarrow> Inr []
      | Some v \<Rightarrow> res_bind (ok_or_err SecretsNotArray (toml_array v)) (\<lambda>arr. collect_results (map (parse_secret default_hosts) arr)))"

section \<open>Paths and manifests\<close>

text \<open>
  A \<^verbatim>\<open>Path\<close> is its components, which is what its comparison, \<^verbatim>\<open>starts_with\<close> and \<^verbatim>\<open>file_name\<close> see. Empty pieces
  and inner dots are no components.
\<close>

datatype path_component = RootDir | CurDir | ParentDir | NormalName string

type_synonym path = "path_component list"

definition piece_component :: "string \<Rightarrow> path_component" where
  "piece_component s = (if s = ''..'' then ParentDir else NormalName s)"

definition path_from_str :: "string \<Rightarrow> path" where
  "path_from_str s =
     (let pieces = split_on CHR ''/'' s;
          start = (if starts_with s ''/'' then [RootDir] else if hd pieces = ''.'' then [CurDir] else [])
      in start @ map piece_component (filter (\<lambda>p. p \<noteq> [] \<and> p \<noteq> ''.'') pieces))"

definition path_file_name :: "path \<Rightarrow> string option" where
  "path_file_name p = (if p = [] then None else case last p of NormalName n \<Rightarrow> Some n | _ \<Rightarrow> None)"

definition path_parent :: "path \<Rightarrow> path option" where
  "path_parent p = (if p = [] \<or> last p = RootDir then None else Some (butlast p))"

definition path_join :: "path \<Rightarrow> string \<Rightarrow> path" where
  "path_join p n = p @ [NormalName n]"

record FileSystem =
  fsys_read_dir :: "path \<Rightarrow> string list option"
  fsys_is_dir :: "path \<Rightarrow> bool"
  fsys_is_file :: "path \<Rightarrow> bool"
  fsys_read_to_string :: "path \<Rightarrow> string option"

record ToolManifest =
  tman_name :: string
  tman_dir :: path
  tman_secrets :: "ParsedSecret list"
  tman_optional_secrets :: "ParsedSecret list"

definition all_secrets :: "ToolManifest \<Rightarrow> ParsedSecret list" where
  "all_secrets m = tman_secrets m @ tman_optional_secrets m"

definition resolve_tool_dirs :: "path list \<Rightarrow> string option \<Rightarrow> path list" where
  "resolve_tool_dirs cli_dirs tool_dirs_env =
     cli_dirs @ (case tool_dirs_env of None \<Rightarrow> []
       | Some e \<Rightarrow> map path_from_str (filter (\<lambda>s. s \<noteq> []) (map trim (split_on CHR '':'' e))))"

definition hidden_dir :: "path \<Rightarrow> bool" where
  "hidden_dir p =
     (case path_file_name p of None \<Rightarrow> False | Some n \<Rightarrow> starts_with n ''.'' \<or> starts_with n ''_'')"

text \<open>The visible subdirectories of a directory, in the order of their names.\<close>

definition sorted_subdirs :: "FileSystem \<Rightarrow> path \<Rightarrow> string list \<Rightarrow> path list" where
  "sorted_subdirs fs base entries =
     filter (\<lambda>p. fsys_is_dir fs p \<and> \<not> hidden_dir p) (map (path_join base) (sort entries))"

definition candidates_of_child :: "FileSystem \<Rightarrow> path \<Rightarrow> path list" where
  "candidates_of_child fs child =
     (if fsys_is_file fs (path_join child ''pyproject.toml'') then [child]
      else case fsys_read_dir fs child of None \<Rightarrow> [] | Some sub_entries \<Rightarrow> sorted_subdirs fs child sub_entries)"

definition collect_candidate_dirs :: "FileSystem \<Rightarrow> path \<Rightarrow> path list" where
  "collect_candidate_dirs fs base =
     (case fsys_read_dir fs base of None \<Rightarrow> []
      | Some entries \<Rightarrow> concat (map (candidates_of_child fs) (sorted_subdirs fs base entries)))"

definition parse_manifest :: "FileSystem \<Rightarrow> (string \<Rightarrow> toml option) \<Rightarrow> path \<Rightarrow> ToolManifest tool_result" where
  "parse_manifest fs toml_from_str tool_dir =
     res_bind (ok_or_err ToolDirHasNoName (path_file_name tool_dir)) (\<lambda>name.
     res_bind (ok_or_err UnreadableManifest (fsys_read_to_string fs (path_join tool_dir ''pyproject.toml''))) (\<lambda>text.
     res_bind (ok_or_err InvalidToml (toml_from_str text)) (\<lambda>doc.
     case Option.bind (Option.bind (toml_get ''tool'' doc) (toml_get ''centaur'')) toml_table of
       None \<Rightarrow> Inr \<lparr>tman_name = name, tman_dir = tool_dir, tman_secrets = [], tman_optional_secrets = []\<rparr>
     | Some centaur \<Rightarrow>
         let default_hosts = str_array_or_default (map_of centaur ''hosts'') in
         res_bind (parse_secret_list (map_of centaur ''secrets'') default_hosts) (\<lambda>secrets.
         res_bind (parse_secret_list (map_of centaur ''optional_secrets'') default_hosts) (\<lambda>optional_secrets.
         Inr \<lparr>tman_name = name, tman_dir = tool_dir, tman_secrets = secrets, tman_optional_secrets = optional_secrets\<rparr>)))))"

definition find_tool :: "FileSystem \<Rightarrow> (string \<Rightarrow> toml option) \<Rightarrow> path list \<Rightarrow> string \<Rightarrow> ToolManifest tool_result" where
  "find_tool fs toml_from_str dirs name =
     (if dirs = [] then Inl NoToolDirectories
      else
        let matched =
          fold (\<lambda>base. fold (\<lambda>candidate m.
                  if path_file_name candidate = Some name \<and> fsys_is_file fs (path_join candidate ''pyproject.toml'')
                  then Some candidate else m) (collect_candidate_dirs fs base)) dirs None
        in res_bind (ok_or_err (ToolNotFound name) matched) (parse_manifest fs toml_from_str))"

definition overlay_name_for_root :: "path \<Rightarrow> string" where
  "overlay_name_for_root root =
     (let candidate = (if path_file_name root = Some ''tools'' then Option.bind (path_parent root) path_file_name
                       else path_file_name root)
      in case map_option slugify candidate of Some s \<Rightarrow> if s = [] then ''unknown'' else s | None \<Rightarrow> ''unknown'')"

text \<open>\<^verbatim>\<open>Iterator::max_by_key\<close>: of several greatest elements, the last.\<close>

fun max_by_key :: "('a \<Rightarrow> nat) \<Rightarrow> 'a list \<Rightarrow> 'a option" where
  "max_by_key k [] = None"
| "max_by_key k (x # xs) = (case max_by_key k xs of None \<Rightarrow> Some x | Some y \<Rightarrow> if k x > k y then Some x else Some y)"

definition overlay_name_for_tool_dir :: "path \<Rightarrow> path list \<Rightarrow> string" where
  "overlay_name_for_tool_dir tool_dir dirs =
     (case max_by_key length (filter (\<lambda>root. prefix root tool_dir) dirs) of
        Some root \<Rightarrow> overlay_name_for_root root
      | None \<Rightarrow> ''unknown'')"

end
