(* ===== verification/Tool_Secrets.thy ===== *)
theory Tool_Secrets
  imports Tool_Manifest
begin

text \<open>
  The secrets of a tool as inputs of iron-control (\<^verbatim>\<open>crates/centaur-perms/src/translate.rs\<close>, with the helpers of
  \<^verbatim>\<open>centaur-iron-control\<close> and \<^verbatim>\<open>centaur-iron-proxy\<close> it calls): their sources, request rules and foreign ids,
  the choice of secrets by name, and the variable a sandbox reads a database address from. The settings of a database and the
  headers of a signature have the same fields in a secret and in its input.
\<close>

section \<open>Inputs\<close>

datatype SourceKind = SourceEnv | SourceOnePassword | SourceOnePasswordConnect

record SourcePolicy =
  spo_kind :: SourceKind
  spo_op_vault :: string
  spo_ttl :: string

definition source_policy_env :: SourcePolicy where
  "source_policy_env = \<lparr>spo_kind = SourceEnv, spo_op_vault = ''ai-agents'', spo_ttl = ''10m''\<rparr>"

record SecretSourceInput =
  sri_source_type :: string
  sri_secret :: "string option"
  sri_config :: json

record RequestRuleInput =
  rri_host :: "string option"
  rri_cidr :: "string option"
  rri_http_methods :: "string list"
  rri_paths :: "string list"

record InjectConfigInput =
  inj_header :: "string option"
  inj_query_param :: "string option"
  inj_formatter :: "string option"

record ReplaceConfigInput =
  rep_proxy_value :: string
  rep_match_headers :: "string list"
  rep_match_body :: bool
  rep_match_path :: bool
  rep_match_query :: bool
  rep_require :: bool

record StaticSecretInput =
  ssi_foreign_id :: string
  ssi_name :: string
  ssi_description :: "string option"
  ssi_labels :: "string btree"
  ssi_inject_config :: "InjectConfigInput option"
  ssi_replace_config :: "ReplaceConfigInput option"
  ssi_source :: SecretSourceInput
  ssi_rules :: "RequestRuleInput list"

record OAuthTokenSecretInput =
  osi_foreign_id :: string
  osi_name :: string
  osi_grant :: string
  osi_labels :: "string btree"
  osi_token_endpoint :: "string option"
  osi_scopes :: "string list"
  osi_audience :: "string option"
  osi_credentials :: "SecretSourceInput btree"
  osi_token_endpoint_headers :: "SecretSourceInput btree"
  osi_rules :: "RequestRuleInput list"

record GcpAuthSecretInput =
  gsi_foreign_id :: "string option"
  gsi_name :: "string option"
  gsi_labels :: "string btree"
  gsi_scopes :: "string list"
  gsi_subject :: "string option"
  gsi_keyfile :: "SecretSourceInput option"
  gsi_credentials_provider :: "json option"
  gsi_rules :: "RequestRuleInput list"

record GcpIdTokenSecretInput =
  gti_foreign_id :: string
  gti_name :: "string option"
  gti_description :: "string option"
  gti_labels :: "string btree"
  gti_audience :: string
  gti_header :: "string option"
  gti_keyfile :: SecretSourceInput
  gti_rules :: "RequestRuleInput list"

record PgDsnSecretInput =
  psi_foreign_id :: string
  psi_name :: string
  psi_database :: string
  psi_description :: "string option"
  psi_role :: "string option"
  psi_labels :: "string btree"
  psi_settings :: "PgDsnSetting list"
  psi_dsn :: SecretSourceInput

record HmacSecretInput =
  hsi_foreign_id :: string
  hsi_name :: string
  hsi_description :: "string option"
  hsi_labels :: "string btree"
  hsi_timestamp_format :: string
  hsi_signature_algorithm :: string
  hsi_signature_key_encoding :: string
  hsi_signature_output_encoding :: string
  hsi_signature_message :: string
  hsi_allow_chunked_body :: bool
  hsi_headers :: "HmacSignHeader list"
  hsi_credentials :: "SecretSourceInput btree"
  hsi_rules :: "RequestRuleInput list"

record AwsAuthSecretInput =
  asi_foreign_id :: string
  asi_name :: "string option"
  asi_description :: "string option"
  asi_labels :: "string btree"
  asi_access_key_id :: SecretSourceInput
  asi_secret_access_key :: SecretSourceInput
  asi_session_token :: "SecretSourceInput option"
  asi_allowed_regions :: "string list"
  asi_allowed_services :: "string list"
  asi_rules :: "RequestRuleInput list"

datatype SecretInput =
    InStatic StaticSecretInput
  | InOAuthToken OAuthTokenSecretInput
  | InGcpAuth GcpAuthSecretInput
  | InGcpIdToken GcpIdTokenSecretInput
  | InPgDsn PgDsnSecretInput
  | InHmac HmacSecretInput
  | InAwsAuth AwsAuthSecretInput

section \<open>Sources, rules and ids\<close>

definition token_broker_source :: "string \<Rightarrow> SecretSourceInput" where
  "token_broker_source credential_id =
     \<lparr>sri_source_type = ''token_broker'', sri_secret = None, sri_config = JObj [(''credential_id'', JStr credential_id)]\<rparr>"

fun insert_json_key :: "json \<Rightarrow> string option \<Rightarrow> json" where
  "insert_json_key (JObj kvs) (Some json_key) = JObj (btree_insert ''json_key'' (JStr json_key) kvs)"
| "insert_json_key config _ = config"

definition onepassword_source :: "string \<Rightarrow> SourcePolicy \<Rightarrow> string \<Rightarrow> string option \<Rightarrow> SecretSourceInput" where
  "onepassword_source source_type policy placeholder json_key =
     \<lparr>sri_source_type = source_type, sri_secret = None,
      sri_config = insert_json_key
        (JObj [(''secret_ref'', JStr (''op://'' @ spo_op_vault policy @ ''/'' @ placeholder @ ''/credential'')),
               (''ttl'', JStr (spo_ttl policy))]) json_key\<rparr>"

definition source_from_placeholder :: "SourcePolicy \<Rightarrow> string \<Rightarrow> string option \<Rightarrow> SecretSourceInput" where
  "source_from_placeholder policy placeholder json_key =
     (case spo_kind policy of
        SourceEnv \<Rightarrow> \<lparr>sri_source_type = ''env'', sri_secret = None,
          sri_config = insert_json_key (JObj [(''var'', JStr placeholder)]) json_key\<rparr>
      | SourceOnePassword \<Rightarrow> onepassword_source ''1password'' policy placeholder json_key
      | SourceOnePasswordConnect \<Rightarrow> onepassword_source ''1password_connect'' policy placeholder json_key)"

definition GCP_AUTH_DEFAULT_SCOPE :: string where
  "GCP_AUTH_DEFAULT_SCOPE = ''https://www.googleapis.com/auth/cloud-platform''"

definition gcp_auth_scopes_or_default :: "string list \<Rightarrow> string list" where
  "gcp_auth_scopes_or_default scopes = (if scopes = [] then [GCP_AUTH_DEFAULT_SCOPE] else scopes)"

definition host_rule :: "string \<Rightarrow> RequestRuleInput" where
  "host_rule h = \<lparr>rri_host = Some h, rri_cidr = None, rri_http_methods = [], rri_paths = []\<rparr>"

definition rules_from_hosts :: "string list \<Rightarrow> RequestRuleInput list" where
  "rules_from_hosts hosts = map host_rule hosts"

definition managed_labels :: "string btree" where
  "managed_labels = [(''managed-by'', ''centaur'')]"

record ToolLabels =
  tlb_tool :: string
  tlb_overlay :: string

definition tool_labels :: "ToolLabels \<Rightarrow> string btree" where
  "tool_labels l = btree_insert ''centaur-tool-overlay'' (tlb_overlay l) (btree_insert ''centaur-tool'' (tlb_tool l) managed_labels)"

text \<open>The ids used so far, without repetitions; the loop ends because it meets a used id at most once.\<close>

definition numbered_id :: "string \<Rightarrow> nat \<Rightarrow> string" where
  "numbered_id candidate counter = candidate @ ''-'' @ show_nat counter"

lemma show_nat_inject [simp]: "show_nat m = show_nat n \<longleftrightarrow> m = n"
  by (metis option.inject read_digits_show)

lemma numbered_id_inject [simp]: "numbered_id c m = numbered_id c n \<longleftrightarrow> m = n"
  by (simp add: numbered_id_def)

function next_free_id :: "string \<Rightarrow> nat \<Rightarrow> string list \<Rightarrow> string" where
  "next_free_id candidate counter used =
     (let i = numbered_id candidate counter in if i \<in> set used then next_free_id candidate (counter + 1) used else i)"
  by pat_completeness auto
termination
proof (relation "measure (\<lambda>(candidate, counter, used). card {u \<in> set used. \<exists>k \<ge> counter. u = numbered_id candidate k})")
  fix candidate i :: string and counter :: nat and used :: "string list"
  assume i: "i = numbered_id candidate counter" "i \<in> set used"
  have "{u \<in> set used. \<exists>k \<ge> counter + 1. u = numbered_id candidate k}
    \<subset> {u \<in> set used. \<exists>k \<ge> counter. u = numbered_id candidate k}" (is "?A \<subset> ?B")
  proof
    show "?A \<subseteq> ?B" by (auto dest: Suc_leD)
    have "i \<in> ?B" using i by auto
    moreover have "i \<notin> ?A" using i by auto
    ultimately show "?A \<noteq> ?B" by blast
  qed
  then show "((candidate, counter + 1, used), candidate, counter, used)
    \<in> measure (\<lambda>(candidate, counter, used). card {u \<in> set used. \<exists>k \<ge> counter. u = numbered_id candidate k})"
    by (simp add: psubset_card_mono)
qed simp

declare next_free_id.simps [simp del]

definition unique_foreign_id :: "string \<Rightarrow> string list \<Rightarrow> string \<times> string list" where
  "unique_foreign_id candidate used =
     (let i = (if candidate \<in> set used then next_free_id candidate 2 used else candidate) in (i, i # used))"

section \<open>Translation\<close>

definition field_sources :: "(string \<times> FieldSource) list \<Rightarrow> SourcePolicy \<Rightarrow> SecretSourceInput btree" where
  "field_sources fs policy =
     fold (\<lambda>(f, s). btree_insert f (source_from_placeholder policy (fsr_secret_ref s) (fsr_json_key s))) fs []"

definition static_input ::
  "string \<Rightarrow> HttpSecret \<Rightarrow> SourcePolicy \<Rightarrow> string btree \<Rightarrow> string list \<Rightarrow> StaticSecretInput \<times> string list" where
  "static_input role http policy lbls used =
     (case unique_foreign_id (role @ ''-'' @ slugify (htp_name http)) used of
        (fid, used') \<Rightarrow>
       (\<lparr>ssi_foreign_id = fid, ssi_name = htp_name http, ssi_description = None, ssi_labels = lbls,
         ssi_inject_config =
           (case htp_mode http of ModeReplace \<Rightarrow> None
            | ModeInject \<Rightarrow> Some \<lparr>inj_header = htp_inject_header http, inj_query_param = htp_inject_query_param http,
                inj_formatter = htp_inject_formatter http\<rparr>),
         ssi_replace_config =
           (case htp_mode http of
              ModeReplace \<Rightarrow> Some \<lparr>rep_proxy_value = htp_replacer http, rep_match_headers = htp_match_headers http,
                rep_match_body = False, rep_match_path = htp_match_path http, rep_match_query = htp_match_query http,
                rep_require = False\<rparr>
            | ModeInject \<Rightarrow> None),
         ssi_source = source_from_placeholder policy (htp_secret_ref http) None,
         ssi_rules = rules_from_hosts (htp_hosts http)\<rparr>, used'))"

definition oauth_input ::
  "string \<Rightarrow> OAuthTokenSecret \<Rightarrow> SourcePolicy \<Rightarrow> string btree \<Rightarrow> string list \<Rightarrow> OAuthTokenSecretInput \<times> string list" where
  "oauth_input role oauth policy lbls used =
     (case unique_foreign_id (role @ ''-oauth-'' @ slugify (str_or (oat_name oauth) (oat_token_endpoint oauth))) used of
        (fid, used') \<Rightarrow>
       (\<lparr>osi_foreign_id = fid, osi_name = ''OAuth '' @ oat_grant oauth, osi_grant = oat_grant oauth, osi_labels = lbls,
         osi_token_endpoint = oat_token_endpoint oauth, osi_scopes = oat_scopes oauth, osi_audience = oat_audience oauth,
         osi_credentials = field_sources (oat_fields oauth) policy,
         osi_token_endpoint_headers = field_sources (oat_token_endpoint_headers oauth) policy,
         osi_rules = rules_from_hosts (oat_hosts oauth)\<rparr>, used'))"

definition gcp_input ::
  "string \<Rightarrow> GcpAuthSecret \<Rightarrow> SourcePolicy \<Rightarrow> string btree \<Rightarrow> string list \<Rightarrow> GcpAuthSecretInput \<times> string list" where
  "gcp_input role gcp policy lbls used =
     (case unique_foreign_id (role @ ''-gcp-'' @ slugify (gca_name gcp)) used of
        (fid, used') \<Rightarrow>
       (\<lparr>gsi_foreign_id = Some fid, gsi_name = Some (''GCP Auth ('' @ role @ '')''), gsi_labels = lbls,
         gsi_scopes = gcp_auth_scopes_or_default (gca_scopes gcp), gsi_subject = None,
         gsi_keyfile = Some (source_from_placeholder policy (gca_secret_ref gcp) None), gsi_credentials_provider = None,
         gsi_rules = rules_from_hosts (gca_hosts gcp)\<rparr>, used'))"

definition gcp_id_token_input ::
  "string \<Rightarrow> GcpIdTokenSecret \<Rightarrow> SourcePolicy \<Rightarrow> string btree \<Rightarrow> string list \<Rightarrow> GcpIdTokenSecretInput \<times> string list" where
  "gcp_id_token_input role gcp policy lbls used =
     (let identity = gci_secret_ref gcp @ ''-'' @ gci_audience gcp @ (case gci_header gcp of None \<Rightarrow> [] | Some h \<Rightarrow> ''-'' @ h)
      in case unique_foreign_id (role @ ''-gcp-id-token-'' @ slugify identity) used of
        (fid, used') \<Rightarrow>
       (\<lparr>gti_foreign_id = fid, gti_name = Some (''GCP ID Token ('' @ role @ '')''), gti_description = None, gti_labels = lbls,
         gti_audience = gci_audience gcp, gti_header = gci_header gcp,
         gti_keyfile = source_from_placeholder policy (gci_secret_ref gcp) None, gti_rules = rules_from_hosts (gci_hosts gcp)\<rparr>, used'))"

definition pg_dsn_foreign_id :: "string \<Rightarrow> string" where
  "pg_dsn_foreign_id name =
     (let lower = to_ascii_lowercase name
      in slugify (if suffix ''_dsn'' lower \<or> suffix ''-dsn'' lower then take (length name - 4) name else name))"

definition pg_dsn_input :: "PgDsnSecret \<Rightarrow> SourcePolicy \<Rightarrow> string btree \<Rightarrow> PgDsnSecretInput" where
  "pg_dsn_input pg policy lbls =
     \<lparr>psi_foreign_id = pg_dsn_foreign_id (pgd_name pg), psi_name = pgd_name pg, psi_database = pgd_database pg,
      psi_description = None, psi_role = pgd_role pg, psi_labels = lbls, psi_settings = pgd_settings pg,
      psi_dsn = source_from_placeholder policy (pgd_secret_ref pg) None\<rparr>"

definition hmac_input ::
  "string \<Rightarrow> HmacSignSecret \<Rightarrow> SourcePolicy \<Rightarrow> string btree \<Rightarrow> string list \<Rightarrow> HmacSecretInput \<times> string list" where
  "hmac_input role hmac policy lbls used =
     (case unique_foreign_id (role @ ''-hmac-'' @ slugify (hms_name hmac)) used of
        (fid, used') \<Rightarrow>
       (\<lparr>hsi_foreign_id = fid, hsi_name = hms_name hmac, hsi_description = None, hsi_labels = lbls,
         hsi_timestamp_format = hms_timestamp_format hmac, hsi_signature_algorithm = hms_algorithm hmac,
         hsi_signature_key_encoding = hms_key_encoding hmac, hsi_signature_output_encoding = hms_output_encoding hmac,
         hsi_signature_message = hms_message hmac, hsi_allow_chunked_body = hms_allow_chunked_body hmac,
         hsi_headers = hms_headers hmac, hsi_credentials = field_sources (hms_credentials hmac) policy,
         hsi_rules = rules_from_hosts (hms_hosts hmac)\<rparr>, used'))"

definition aws_input ::
  "string \<Rightarrow> AwsAuthSecret \<Rightarrow> SourcePolicy \<Rightarrow> string btree \<Rightarrow> string list \<Rightarrow> AwsAuthSecretInput \<times> string list" where
  "aws_input role aws policy lbls used =
     (case unique_foreign_id (role @ ''-aws-'' @ slugify (awa_name aws)) used of
        (fid, used') \<Rightarrow>
       (\<lparr>asi_foreign_id = fid, asi_name = Some (''AWS Auth ('' @ role @ '')''), asi_description = None, asi_labels = lbls,
         asi_access_key_id = source_from_placeholder policy (awa_access_key_id_ref aws) None,
         asi_secret_access_key = source_from_placeholder policy (awa_secret_access_key_ref aws) None,
         asi_session_token = map_option (\<lambda>r. source_from_placeholder policy r None) (awa_session_token_ref aws),
         asi_allowed_regions = awa_allowed_regions aws, asi_allowed_services = awa_allowed_services aws,
         asi_rules = rules_from_hosts (awa_hosts aws)\<rparr>, used'))"

definition broker_token_input ::
  "string \<Rightarrow> BrokerTokenSecret \<Rightarrow> string btree \<Rightarrow> string list \<Rightarrow> StaticSecretInput \<times> string list" where
  "broker_token_input role broker lbls used =
     (case unique_foreign_id (role @ ''-'' @ slugify (brk_name broker)) used of
        (fid, used') \<Rightarrow>
       (\<lparr>ssi_foreign_id = fid, ssi_name = brk_name broker, ssi_description = None, ssi_labels = lbls,
         ssi_inject_config = Some \<lparr>inj_header = Some (brk_inject_header broker), inj_query_param = None,
           inj_formatter = Some (brk_inject_formatter broker)\<rparr>,
         ssi_replace_config = None, ssi_source = token_broker_source (brk_credential broker),
         ssi_rules = rules_from_hosts (brk_hosts broker)\<rparr>, used'))"

fun translate_secret ::
  "string \<Rightarrow> SourcePolicy \<Rightarrow> string btree \<Rightarrow> ParsedSecret \<Rightarrow> string list \<Rightarrow> SecretInput \<times> string list" where
  "translate_secret role policy lbls (PsHttp s) used = map_prod InStatic id (static_input role s policy lbls used)"
| "translate_secret role policy lbls (PsOAuthToken s) used = map_prod InOAuthToken id (oauth_input role s policy lbls used)"
| "translate_secret role policy lbls (PsGcpAuth s) used = map_prod InGcpAuth id (gcp_input role s policy lbls used)"
| "translate_secret role policy lbls (PsGcpIdToken s) used = map_prod InGcpIdToken id (gcp_id_token_input role s policy lbls used)"
| "translate_secret role policy lbls (PsPgDsn s) used = (InPgDsn (pg_dsn_input s policy lbls), used)"
| "translate_secret role policy lbls (PsHmac s) used = map_prod InHmac id (hmac_input role s policy lbls used)"
| "translate_secret role policy lbls (PsBrokerToken s) used = map_prod InStatic id (broker_token_input role s lbls used)"
| "translate_secret role policy lbls (PsAwsAuth s) used = map_prod InAwsAuth id (aws_input role s policy lbls used)"

fun translate_loop :: "string \<Rightarrow> SourcePolicy \<Rightarrow> string btree \<Rightarrow> ParsedSecret list \<Rightarrow> string list \<Rightarrow> SecretInput list" where
  "translate_loop role policy lbls [] used = []"
| "translate_loop role policy lbls (s # ss) used =
     (case translate_secret role policy lbls s used of (i, used') \<Rightarrow> i # translate_loop role policy lbls ss used')"

definition translate_with_labels :: "string \<Rightarrow> ParsedSecret list \<Rightarrow> SourcePolicy \<Rightarrow> string btree \<Rightarrow> SecretInput list" where
  "translate_with_labels role secrets policy lbls = translate_loop role policy lbls secrets []"

definition translate_for_tool :: "string \<Rightarrow> ToolLabels \<Rightarrow> ParsedSecret list \<Rightarrow> SourcePolicy \<Rightarrow> SecretInput list" where
  "translate_for_tool role l secrets policy = translate_with_labels role secrets policy (tool_labels l)"

section \<open>Choosing secrets and reading a database address\<close>

definition tool_role :: "string \<Rightarrow> string" where
  "tool_role name = ''tool-'' @ slugify name"

fun select_named :: "ParsedSecret list \<Rightarrow> string list \<Rightarrow> ParsedSecret list option" where
  "select_named declared [] = Some []"
| "select_named declared (n # ns) =
     (case find (\<lambda>s. parsed_secret_name s = n) declared of
        Some s \<Rightarrow> map_option ((#) s) (select_named declared ns)
      | None \<Rightarrow> None)"

definition select_secrets :: "ParsedSecret list \<Rightarrow> string list \<Rightarrow> ParsedSecret list option" where
  "select_secrets declared names = (if names = [] then Some declared else select_named declared names)"

definition normalize_foreign_id :: "string \<Rightarrow> string" where
  "normalize_foreign_id foreign_id =
     map (\<lambda>ch. if ch \<in> set ''-.~'' then CHR ''_'' else ascii_upper_char ch) foreign_id"

definition pg_sandbox_env_var :: "string \<Rightarrow> string" where
  "pg_sandbox_env_var foreign_id = normalize_foreign_id foreign_id @ ''_DSN''"

section \<open>What an input carries\<close>

fun is_pg_dsn :: "SecretInput \<Rightarrow> bool" where
  "is_pg_dsn (InPgDsn _) = True"
| "is_pg_dsn _ = False"

fun input_foreign_id :: "SecretInput \<Rightarrow> string option" where
  "input_foreign_id (InStatic i) = Some (ssi_foreign_id i)"
| "input_foreign_id (InOAuthToken i) = Some (osi_foreign_id i)"
| "input_foreign_id (InGcpAuth i) = gsi_foreign_id i"
| "input_foreign_id (InGcpIdToken i) = Some (gti_foreign_id i)"
| "input_foreign_id (InPgDsn i) = Some (psi_foreign_id i)"
| "input_foreign_id (InHmac i) = Some (hsi_foreign_id i)"
| "input_foreign_id (InAwsAuth i) = Some (asi_foreign_id i)"

fun input_rules :: "SecretInput \<Rightarrow> RequestRuleInput list" where
  "input_rules (InStatic i) = ssi_rules i"
| "input_rules (InOAuthToken i) = osi_rules i"
| "input_rules (InGcpAuth i) = gsi_rules i"
| "input_rules (InGcpIdToken i) = gti_rules i"
| "input_rules (InPgDsn i) = []"
| "input_rules (InHmac i) = hsi_rules i"
| "input_rules (InAwsAuth i) = asi_rules i"

fun secret_hosts :: "ParsedSecret \<Rightarrow> string list" where
  "secret_hosts (PsHttp s) = htp_hosts s"
| "secret_hosts (PsOAuthToken s) = oat_hosts s"
| "secret_hosts (PsGcpAuth s) = gca_hosts s"
| "secret_hosts (PsGcpIdToken s) = gci_hosts s"
| "secret_hosts (PsPgDsn s) = []"
| "secret_hosts (PsHmac s) = hms_hosts s"
| "secret_hosts (PsBrokerToken s) = brk_hosts s"
| "secret_hosts (PsAwsAuth s) = awa_hosts s"

fun is_pg_secret :: "ParsedSecret \<Rightarrow> bool" where
  "is_pg_secret (PsPgDsn _) = True"
| "is_pg_secret _ = False"

lemmas input_defs = static_input_def oauth_input_def gcp_input_def gcp_id_token_input_def hmac_input_def aws_input_def
  broker_token_input_def

section \<open>Foreign ids\<close>

lemma next_free_id_fresh: "next_free_id c n used \<notin> set used"
proof (induction c n used rule: next_free_id.induct)
  case (1 c n used)
  then show ?case by (subst next_free_id.simps) (simp add: Let_def)
qed

lemma unique_foreign_id_fresh:
  assumes "unique_foreign_id c used = (i, used')"
  shows "i \<notin> set used \<and> used' = i # used"
  using assms next_free_id_fresh [of c 2 used] by (auto simp: unique_foreign_id_def Let_def split: if_splits)

lemma translate_secret_cases:
  assumes "translate_secret role policy lbls s used = (i, used')"
  shows "input_rules i = rules_from_hosts (secret_hosts s)" "is_pg_dsn i = is_pg_secret s"
    "is_pg_secret s \<or> (\<exists>fid. input_foreign_id i = Some fid \<and> fid \<notin> set used \<and> used' = fid # used)"
    "is_pg_secret s \<Longrightarrow> used' = used"
  using assms
  by (cases s; auto simp: input_defs Let_def rules_from_hosts_def split: prod.splits dest: unique_foreign_id_fresh)+

lemma translate_loop_ids:
  "distinct (map input_foreign_id (filter (\<lambda>i. \<not> is_pg_dsn i) (translate_loop role policy lbls ss used))) \<and>
   (\<forall>i \<in> set (translate_loop role policy lbls ss used). \<not> is_pg_dsn i \<longrightarrow> input_foreign_id i \<notin> Some ` set used)"
proof (induction ss arbitrary: used)
  case (Cons s ss)
  obtain i used' where t: "translate_secret role policy lbls s used = (i, used')" by fastforce
  show ?case
  proof (cases "is_pg_secret s")
    case True
    with translate_secret_cases [OF t] Cons.IH [of used] t show ?thesis by simp
  next
    case False
    with translate_secret_cases [OF t] obtain fid where
      f: "input_foreign_id i = Some fid" "fid \<notin> set used" "used' = fid # used" "\<not> is_pg_dsn i" by auto
    have "\<forall>j \<in> set (translate_loop role policy lbls ss used'). \<not> is_pg_dsn j \<longrightarrow>
        input_foreign_id j \<noteq> Some fid \<and> input_foreign_id j \<notin> Some ` set used"
      using Cons.IH [of used'] f(3) by auto
    with Cons.IH [of used'] f t show ?thesis by force
  qed
qed simp

lemma translate_loop_member:
  "i \<in> set (translate_loop role policy lbls ss used) \<Longrightarrow>
   \<exists>s \<in> set ss. input_rules i = rules_from_hosts (secret_hosts s) \<and> is_pg_dsn i = is_pg_secret s"
proof (induction ss arbitrary: used)
  case (Cons s ss)
  obtain j used' where t: "translate_secret role policy lbls s used = (j, used')" by fastforce
  show ?case
  proof (cases "i = j")
    case True
    with translate_secret_cases [OF t] show ?thesis by auto
  next
    case False
    with Cons.prems t have "i \<in> set (translate_loop role policy lbls ss used')" by simp
    with Cons.IH show ?thesis by auto
  qed
qed simp

section \<open>Hosts\<close>

lemma ok_or_err_Inr [simp]: "ok_or_err e v = Inr a \<longleftrightarrow> v = Some a"
  by (cases v) (auto simp: ok_or_err_def)

lemma those_non_empty: "those (map non_empty_str vs) = Some ss \<Longrightarrow> length ss = length vs \<and> (\<forall>h \<in> set ss. h \<noteq> [])"
proof (induction vs arbitrary: ss)
  case (Cons v vs)
  then show ?case by (auto simp: non_empty_str_def split: option.splits if_splits)
qed simp

lemma non_empty_str_array_Some:
  "non_empty_str_array v = Some hosts \<Longrightarrow> hosts \<noteq> [] \<and> (\<forall>h \<in> set hosts. h \<noteq> [])"
proof -
  assume "non_empty_str_array v = Some hosts"
  then obtain arr where "arr \<noteq> []" "those (map non_empty_str arr) = Some hosts"
    unfolding non_empty_str_array_def by (simp split: option.split_asm if_split_asm)
  with those_non_empty [of arr hosts] show ?thesis by (cases hosts) simp_all
qed

lemma own_hosts_Inr: "own_hosts t name = Inr hosts \<Longrightarrow> hosts \<noteq> [] \<and> (\<forall>h \<in> set hosts. h \<noteq> [])"
  by (auto simp: own_hosts_def dest: non_empty_str_array_Some)

lemma entry_hosts_Inr:
  "entry_hosts t name dh = Inr hosts \<Longrightarrow> hosts \<noteq> [] \<and> ((\<forall>h \<in> set hosts. h \<noteq> []) \<or> hosts = dh)"
  by (auto simp: entry_hosts_def split: option.splits if_splits dest: non_empty_str_array_Some)

lemma parse_http_hosts:
  assumes "parse_http t name ref dh = Inr s"
  shows "htp_hosts s \<noteq> [] \<and> ((\<forall>h \<in> set (htp_hosts s). h \<noteq> []) \<or> htp_hosts s = dh)"
proof -
  obtain mode hosts where m: "entry_hosts t name dh = Inr hosts"
    "(case mode of ModeReplace \<Rightarrow> parse_replace t name ref hosts | ModeInject \<Rightarrow> parse_inject t name ref hosts) = Inr s"
    using assms unfolding parse_http_def by auto
  have "htp_hosts s = hosts"
    using m(2) by (cases mode) (auto simp: parse_replace_def parse_inject_def Let_def split: if_splits)
  with entry_hosts_Inr [OF m(1)] show ?thesis by simp
qed

lemma parse_own_hosts:
  "parse_oauth t name = Inr s1 \<Longrightarrow> own_hosts t name = Inr (oat_hosts s1)"
  "parse_gcp t name ref = Inr s2 \<Longrightarrow> own_hosts t name = Inr (gca_hosts s2)"
  "parse_gcp_id_token t name ref = Inr s3 \<Longrightarrow> own_hosts t name = Inr (gci_hosts s3)"
  "parse_hmac t name = Inr s4 \<Longrightarrow> own_hosts t name = Inr (hms_hosts s4)"
  "parse_aws t name = Inr s5 \<Longrightarrow> own_hosts t name = Inr (awa_hosts s5)"
  unfolding parse_oauth_def parse_gcp_def parse_gcp_id_token_def parse_hmac_def parse_aws_def Let_def
  by (auto split: if_splits)

lemma parse_broker_hosts:
  "parse_broker_token t name dh = Inr s \<Longrightarrow> entry_hosts t name dh = Inr (brk_hosts s)"
  by (auto simp: parse_broker_token_def)

lemma if_res_map_elim:
  assumes "(if c then res_map f r else e) = Inr s"
  obtains x where "s = f x" "r = Inr x" | "e = Inr s"
  using assms by (auto split: if_splits)

lemma parse_secret_table_cases:
  assumes "parse_secret_table t dh = Inr s"
  obtains (http) name ref x where "s = PsHttp x" "parse_http t name ref dh = Inr x"
  | (oauth) name x where "s = PsOAuthToken x" "parse_oauth t name = Inr x"
  | (gcp) name ref x where "s = PsGcpAuth x" "parse_gcp t name ref = Inr x"
  | (id_token) name ref x where "s = PsGcpIdToken x" "parse_gcp_id_token t name ref = Inr x"
  | (pg) x where "s = PsPgDsn x"
  | (hmac) name x where "s = PsHmac x" "parse_hmac t name = Inr x"
  | (broker) name x where "s = PsBrokerToken x" "parse_broker_token t name dh = Inr x"
  | (aws) name x where "s = PsAwsAuth x" "parse_aws t name = Inr x"
  using assms unfolding parse_secret_table_def Let_def res_bind_Inr_iff
  by (elim exE conjE if_res_map_elim; (erule (1) that | simp))

lemma parse_secret_hosts:
  assumes "parse_secret dh e = Inr s" and "\<not> is_pg_secret s"
  shows "secret_hosts s \<noteq> [] \<and> ((\<forall>h \<in> set (secret_hosts s). h \<noteq> []) \<or> secret_hosts s = dh)"
proof (cases "toml_str e")
  case (Some n)
  then show ?thesis using assms by (auto simp: parse_secret_def raw_string_secret_def split: if_splits)
next
  case None
  with assms(1) obtain t where "parse_secret_table t dh = Inr s" by (auto simp: parse_secret_def)
  then show ?thesis
  proof (cases rule: parse_secret_table_cases)
    case (http name ref x)
    then show ?thesis using parse_http_hosts by simp
  next
    case (broker name x)
    then show ?thesis using entry_hosts_Inr [OF parse_broker_hosts] by simp
  next
    case (pg x)
    with assms(2) show ?thesis by simp
  qed (auto dest!: parse_own_hosts own_hosts_Inr)
qed

lemma select_named_subset: "select_named declared ns = Some chosen \<Longrightarrow> set chosen \<subseteq> set declared"
proof (induction ns arbitrary: chosen)
  case (Cons n ns)
  then show ?case by (auto simp: find_Some_iff split: option.splits)
qed simp

lemma select_secrets_subset: "select_secrets declared ns = Some chosen \<Longrightarrow> set chosen \<subseteq> set declared"
  by (auto simp: select_secrets_def split: if_splits dest: select_named_subset)

text \<open>The hosts at the top of the \<^verbatim>\<open>[tool.centaur]\<close> block.\<close>

definition tool_hosts :: "FileSystem \<Rightarrow> (string \<Rightarrow> toml option) \<Rightarrow> path \<Rightarrow> string list" where
  "tool_hosts fs toml_from_str d =
     (case Option.bind (Option.bind (Option.bind (Option.bind (fsys_read_to_string fs (path_join d ''pyproject.toml'')) toml_from_str)
        (toml_get ''tool'')) (toml_get ''centaur'')) toml_table of
        None \<Rightarrow> []
      | Some centaur \<Rightarrow> str_array_or_default (map_of centaur ''hosts''))"

lemma parse_secret_list_member:
  assumes "parse_secret_list v dh = Inr ss" and "s \<in> set ss"
  obtains e where "parse_secret dh e = Inr s"
proof -
  obtain arr where "map (parse_secret dh) arr = map Inr ss"
    using assms by (cases v) (auto simp: parse_secret_list_def collect_results_Inr_map)
  with assms(2) have "Inr s \<in> set (map (parse_secret dh) arr)" by simp
  with that show thesis by auto
qed

lemma parse_manifest_member:
  assumes "parse_manifest fs toml_from_str d = Inr m" and "s \<in> set (all_secrets m)"
  obtains e where "parse_secret (tool_hosts fs toml_from_str (tman_dir m)) e = Inr s"
proof -
  obtain contents doc where doc: "fsys_read_to_string fs (path_join d ''pyproject.toml'') = Some contents" "toml_from_str contents = Some doc"
    using assms(1) by (auto simp: parse_manifest_def)
  show thesis
  proof (cases "Option.bind (Option.bind (toml_get ''tool'' doc) (toml_get ''centaur'')) toml_table")
    case None
    with assms doc show thesis by (auto simp: parse_manifest_def all_secrets_def)
  next
    case (Some centaur)
    let ?dh = "str_array_or_default (map_of centaur ''hosts'')"
    have d: "tman_dir m = d" and ss: "parse_secret_list (map_of centaur ''secrets'') ?dh = Inr (tman_secrets m)"
      "parse_secret_list (map_of centaur ''optional_secrets'') ?dh = Inr (tman_optional_secrets m)"
      using assms(1) doc Some by (auto simp: parse_manifest_def Let_def)
    have "tool_hosts fs toml_from_str (tman_dir m) = ?dh" using doc Some d by (simp add: tool_hosts_def)
    moreover have "s \<in> set (tman_secrets m) \<or> s \<in> set (tman_optional_secrets m)" using assms(2) by (simp add: all_secrets_def)
    ultimately show thesis using ss that by (metis parse_secret_list_member)
  qed
qed

lemma find_tool_manifest:
  assumes "find_tool fs toml_from_str dirs name = Inr m"
  obtains d where "parse_manifest fs toml_from_str d = Inr m"
  using assms by (auto simp: find_tool_def Let_def split: if_splits)


definition example_fs :: FileSystem where
  "example_fs =
     \<lparr>fsys_read_dir = (\<lambda>p. if p = [RootDir, NormalName ''tools''] then Some [''gh''] else None),
      fsys_is_dir = (\<lambda>p. p = [RootDir, NormalName ''tools'', NormalName ''gh'']),
      fsys_is_file = (\<lambda>p. p = [RootDir, NormalName ''tools'', NormalName ''gh'', NormalName ''pyproject.toml'']),
      fsys_read_to_string = (\<lambda>p. Some [])\<rparr>"

definition example_toml :: "string \<Rightarrow> toml option" where
  "example_toml contents = Some (TTable [(''tool'', TTable [(''centaur'', TTable
     [(''hosts'', TArray [TString ''api.github.com'']), (''secrets'', TArray [TString ''GH_TOKEN''])])])])"

definition example_manifest :: ToolManifest where
  "example_manifest =
     (case find_tool example_fs example_toml [path_from_str ''/tools''] ''gh'' of Inr m \<Rightarrow> m
      | Inl _ \<Rightarrow> \<lparr>tman_name = [], tman_dir = [], tman_secrets = [], tman_optional_secrets = []\<rparr>)"

definition example_inputs :: "SecretInput list" where
  "example_inputs =
     translate_for_tool ''tool-gh'' \<lparr>tlb_tool = ''gh'', tlb_overlay = ''tools''\<rparr> (all_secrets example_manifest) source_policy_env"

lemma example_found: "find_tool example_fs example_toml [path_from_str ''/tools''] ''gh'' = Inr example_manifest"
  by code_simp

lemma example_tool_input: "example_inputs \<noteq> [] \<and> \<not> is_pg_dsn (hd example_inputs)"
  by code_simp


text \<open>
  C34. No two inputs of a tool share a foreign id, \<^verbatim>\<open>pg_dsn\<close> secrets apart: the suffix that resolves a collision is
  always found, whatever the names slugify to.
\<close>

theorem foreign_ids_distinct:
  "distinct (map input_foreign_id (filter (\<lambda>i. \<not> is_pg_dsn i) (translate_for_tool role l secrets policy)))"
  by (simp add: translate_for_tool_def translate_with_labels_def translate_loop_ids)

section \<open>The variable of a database address\<close>

lemma split_on_snoc:
  "split_on d (xs @ [c]) = (if c = d then split_on d xs @ [[]] else butlast (split_on d xs) @ [last (split_on d xs) @ [c]])"
proof (induction xs)
  case (Cons x xs)
  show ?case
  proof (cases "split_on d xs")
    case Nil
    then show ?thesis by simp
  next
    case split: (Cons w ws)
    show ?thesis using Cons.IH split by (cases ws) auto
  qed
qed simp

definition is_ascii_upper_alnum :: "char \<Rightarrow> bool" where
  "is_ascii_upper_alnum c \<longleftrightarrow> is_ascii_alphanumeric c \<and> ascii_upper_char c = c"

definition env_style :: "string \<Rightarrow> bool" where
  "env_style name \<longleftrightarrow> suffix ''_DSN'' name \<and>
     list_all (\<lambda>w. w \<noteq> [] \<and> list_all is_ascii_upper_alnum w) (split_on CHR ''_'' (take (length name - 4) name))"

text \<open>The words of a slug are not empty and hold letters and digits only.\<close>

definition slug_word :: "string \<Rightarrow> bool" where
  "slug_word w \<longleftrightarrow> w \<noteq> [] \<and> list_all is_ascii_alphanumeric w"

lemma slug_word_simps [simp]: "slug_word [c] \<longleftrightarrow> is_ascii_alphanumeric c"
    "slug_word w \<Longrightarrow> slug_word (w @ [c]) \<longleftrightarrow> is_ascii_alphanumeric c"
  by (auto simp: slug_word_def)

lemma slug_step_pair [simp]:
  "slug_step c (out, p) = (if is_ascii_alphanumeric c then (out @ (if p \<and> out \<noteq> [] then ''-'' else []) @ [c], False) else (out, True))"
  by (simp add: slug_step_def)

lemma list_all_last: "xs \<noteq> [] \<Longrightarrow> list_all P xs \<longleftrightarrow> list_all P (butlast xs) \<and> P (last xs)"
  by (induction xs rule: rev_induct) auto

lemma slug_fold_words:
  "fst (fold slug_step s ([], False)) = [] \<or> list_all slug_word (split_on CHR ''-'' (fst (fold slug_step s ([], False))))"
proof (induction s rule: rev_induct)
  case (snoc c s)
  obtain out p where o: "fold slug_step s ([], False) = (out, p)" by fastforce
  have split: "split_on CHR ''-'' (out @ ''-'' @ [c]) = split_on CHR ''-'' out @ [[c]]" if "c \<noteq> CHR ''-''"
    using that split_on_snoc [of "CHR ''-''" "out @ ''-''" c] split_on_snoc [of "CHR ''-''" out "CHR ''-''"] by simp
  have last: "list_all slug_word (split_on CHR ''-'' (out @ [c]))"
    if "list_all slug_word (split_on CHR ''-'' out) \<or> out = []" "is_ascii_alphanumeric c" "c \<noteq> CHR ''-''"
  proof (cases "out = []")
    case False
    with that(1) have "list_all slug_word (butlast (split_on CHR ''-'' out))" "slug_word (last (split_on CHR ''-'' out))"
      using list_all_last [OF split_on_nonempty, of slug_word "CHR ''-''" out] by auto
    with that(2,3) show ?thesis by (simp add: split_on_snoc)
  qed (use that in simp)
  have "is_ascii_alphanumeric c \<Longrightarrow> c \<noteq> CHR ''-''" by (auto simp: is_ascii_alphanumeric_def)
  then show ?case using snoc.IH o split last
    by (cases "is_ascii_alphanumeric c"; cases "p \<and> out \<noteq> []") auto
qed simp

lemma slugify_words: "list_all slug_word (split_on CHR ''-'' (slugify v))"
  using slug_fold_words [of "ascii_of_lowercase v"]
  by (auto simp: slugify_def Let_def is_ascii_alphanumeric_def)

lemma alnum_not_sign: "is_ascii_alphanumeric c \<Longrightarrow> c \<noteq> CHR ''_'' \<and> c \<notin> set ''-.~''"
  by (auto simp: is_ascii_alphanumeric_def)

lemma upper_alnum: "is_ascii_alphanumeric c \<Longrightarrow> is_ascii_upper_alnum (ascii_upper_char c)"
  by (auto simp: is_ascii_upper_alnum_def is_ascii_alphanumeric_def ascii_upper_char_def Let_def)

lemma lower_upper_alnum:
  "is_ascii_upper_alnum c \<Longrightarrow> is_ascii_alphanumeric (ascii_lower_char c) \<and> ascii_upper_char (ascii_lower_char c) = c"
  by (auto simp: is_ascii_upper_alnum_def is_ascii_alphanumeric_def ascii_upper_char_def ascii_lower_char_def Let_def)

lemma split_on_cover: "c \<in> set s \<Longrightarrow> c = d \<or> (\<exists>w \<in> set (split_on d s). c \<in> set w)"
proof (induction s)
  case (Cons x s)
  then show ?case by (auto split: list.splits)
qed simp

lemma split_on_map:
  assumes "\<And>c. c \<in> set s \<Longrightarrow> g c = d' \<longleftrightarrow> c = d"
  shows "split_on d' (map g s) = map (map g) (split_on d s)"
  using assms
proof (induction s)
  case (Cons x s)
  then show ?case by (cases "split_on d s") auto
qed simp

lemma env_var_env_style: "env_style (pg_sandbox_env_var (slugify v))"
proof -
  let ?f = "slugify v" and ?g = "\<lambda>ch. if ch \<in> set ''-.~'' then CHR ''_'' else ascii_upper_char ch"
  have words: "w \<in> set (split_on CHR ''-'' ?f) \<Longrightarrow> w \<noteq> [] \<and> (\<forall>c \<in> set w. is_ascii_alphanumeric c)" for w
    using slugify_words [of v] by (auto simp: list_all_iff slug_word_def)
  have g: "c \<in> set w \<Longrightarrow> w \<in> set (split_on CHR ''-'' ?f) \<Longrightarrow> ?g c = ascii_upper_char c \<and> is_ascii_upper_alnum (?g c)" for c w
    using words [of w] alnum_not_sign [of c] upper_alnum [of c] by auto
  have "split_on CHR ''_'' (map ?g ?f) = map (map ?g) (split_on CHR ''-'' ?f)"
  proof (rule split_on_map)
    fix c
    assume "c \<in> set ?f"
    from split_on_cover [OF this, of "CHR ''-''"] show "?g c = CHR ''_'' \<longleftrightarrow> c = CHR ''-''"
    proof (elim disjE bexE)
      fix w
      assume w: "w \<in> set (split_on CHR ''-'' ?f)" "c \<in> set w"
      from g [OF w(2,1)] have "?g c \<noteq> CHR ''_''" using alnum_not_sign [of "?g c"] unfolding is_ascii_upper_alnum_def by blast
      moreover have "c \<noteq> CHR ''-''" using w split_on_parts by metis
      ultimately show ?thesis by blast
    qed simp
  qed
  moreover have "list_all (\<lambda>w. w \<noteq> [] \<and> list_all is_ascii_upper_alnum w) (map (map ?g) (split_on CHR ''-'' ?f))"
    unfolding list_all_iff using g by (auto simp del: if_split dest: words intro!: upper_alnum)
  ultimately show ?thesis by (simp add: env_style_def pg_sandbox_env_var_def normalize_foreign_id_def suffix_def)
qed

section \<open>Round trip of the variable\<close>

lemma ascii_of_lowercase_ascii: "\<forall>c \<in> set b. (of_char c :: nat) < 128 \<Longrightarrow> ascii_of_lowercase b = map ascii_lower_char b"
proof (induction b)
  case (Cons c b)
  then have "c \<noteq> CHR 0xE2" "c \<noteq> CHR 0xC4" by auto
  with Cons show ?case by (simp add: starts_with_def)
qed simp

abbreviation dash :: "char \<Rightarrow> char" where
  "dash c \<equiv> if c = CHR ''_'' then CHR ''-'' else c"

lemma last_split_on_sep: "s \<noteq> [] \<Longrightarrow> last s = d \<Longrightarrow> last (split_on d s) = []"
  by (cases s rule: rev_cases) (auto simp: split_on_snoc)

lemma slug_fold_env:
  assumes "\<forall>c \<in> set s. is_ascii_alphanumeric c \<or> c = CHR ''_''" and "list_all (\<lambda>w. w \<noteq> []) (butlast (split_on CHR ''_'' s))"
  shows "fold slug_step s ([], False) =
    (if s \<noteq> [] \<and> last s = CHR ''_'' then (map dash (butlast s), True) else (map dash s, False))"
  using assms
proof (induction s rule: rev_induct)
  case (snoc c s)
  let ?ws = "split_on CHR ''_'' s"
  have us: "\<not> is_ascii_alphanumeric CHR ''_''" using alnum_not_sign by blast
  show ?case
  proof (cases "c = CHR ''_''")
    case True
    with snoc.prems(2) have ws: "list_all (\<lambda>w. w \<noteq> []) ?ws" by (simp add: split_on_snoc)
    then have "list_all (\<lambda>w. w \<noteq> []) (butlast ?ws)" and l: "last ?ws \<noteq> []"
      using list_all_last [OF split_on_nonempty, of "\<lambda>w. w \<noteq> []" "CHR ''_''" s] by auto
    with snoc have "fold slug_step s ([], False) = (map dash s, False)" using last_split_on_sep [of s] by auto
    with True us show ?thesis by simp
  next
    case False
    with snoc.prems have ws: "list_all (\<lambda>w. w \<noteq> []) (butlast ?ws)" and c: "is_ascii_alphanumeric c"
      by (auto simp: split_on_snoc)
    show ?thesis
    proof (cases "s \<noteq> [] \<and> last s = CHR ''_''")
      case True
      then obtain t where t: "s = t @ ''_''" by (metis append_butlast_last_id)
      with ws have "t \<noteq> []" by (auto simp: split_on_snoc)
      with True False snoc.IH snoc.prems(1) ws c t show ?thesis by simp
    next
      case no: False
      with snoc.IH snoc.prems(1) ws have "fold slug_step s ([], False) = (map dash s, False)" by simp
      with False c show ?thesis by simp
    qed
  qed
qed simp

lemma slugify_env_base:
  assumes "list_all (\<lambda>w. w \<noteq> [] \<and> list_all is_ascii_upper_alnum w) (split_on CHR ''_'' b)"
  shows "normalize_foreign_id (slugify b) = b"
proof -
  let ?l = "map ascii_lower_char b" and ?ws = "split_on CHR ''_'' b"
  have chars: "c = CHR ''_'' \<or> is_ascii_upper_alnum c" if "c \<in> set b" for c
    using split_on_cover [OF that, of "CHR ''_''"] assms by (auto simp: list_all_iff)
  have low: "ascii_lower_char c = CHR ''_'' \<longleftrightarrow> c = CHR ''_''" if "c \<in> set b" for c
    using chars [OF that] lower_upper_alnum [of c] alnum_not_sign [of "ascii_lower_char c"] by (auto simp: ascii_lower_char_def)
  have b: "b \<noteq> []" using assms by auto
  have "\<forall>c \<in> set b. (of_char c :: nat) < 128"
    using chars by (fastforce simp: is_ascii_upper_alnum_def is_ascii_alphanumeric_def Let_def)
  then have lower: "ascii_of_lowercase b = ?l" by (rule ascii_of_lowercase_ascii)
  have split: "split_on CHR ''_'' ?l = map (map ascii_lower_char) ?ws" by (rule split_on_map) (rule low)
  have "list_all (\<lambda>w. w \<noteq> []) (split_on CHR ''_'' ?l)" using assms by (auto simp: split list_all_iff)
  then have w: "list_all (\<lambda>w. w \<noteq> []) (butlast (split_on CHR ''_'' ?l))" "last (split_on CHR ''_'' ?l) \<noteq> []"
    using list_all_last [OF split_on_nonempty, of "\<lambda>w. w \<noteq> []" "CHR ''_''" ?l] by auto
  have "\<forall>c \<in> set ?l. is_ascii_alphanumeric c \<or> c = CHR ''_''" using chars lower_upper_alnum low by auto
  from slug_fold_env [OF this w(1)] have "fold slug_step ?l ([], False) = (map dash ?l, False)"
    using last_split_on_sep [of ?l "CHR ''_''"] w(2) by auto
  then have "slugify b = map dash ?l" using b lower by (simp add: slugify_def)
  moreover have "(if dash (ascii_lower_char c) \<in> set ''-.~'' then CHR ''_'' else ascii_upper_char (dash (ascii_lower_char c))) = c"
    if "c \<in> set b" for c
    using chars [OF that] low [OF that] lower_upper_alnum [of c] alnum_not_sign [of "ascii_lower_char c"] by auto
  ultimately show ?thesis by (simp add: normalize_foreign_id_def comp_def list.map_ident_strong)
qed


section \<open>Granting one secret of a tool\<close>

lemma translate_oauth_id:
  "map input_foreign_id (translate_loop role policy lbls (PsOAuthToken s # ss) used) =
     (case unique_foreign_id (role @ ''-oauth-'' @ slugify (str_or (oat_name s) (oat_token_endpoint s))) used of
        (fid, used') \<Rightarrow> Some fid # map input_foreign_id (translate_loop role policy lbls ss used'))"
  by (simp add: oauth_input_def split: prod.splits)

text \<open>
  C36. The ids depend on the secrets translated together. Of two OAuth secrets of a tool with the same token endpoint,
  the second has the id with suffix \<^verbatim>\<open>-2\<close> when the tool is granted; granted alone by its name
  (\<^verbatim>\<open>roles grant --tool T --secret-name N\<close>) it takes the id of the first, whose stored credential it replaces.
\<close>

theorem granting_one_secret_takes_anothers_id:
  assumes "oat_token_endpoint first = Some endpoint" and "oat_token_endpoint second = Some endpoint"
    and "oat_name first \<noteq> oat_name second"
  shows "select_secrets [PsOAuthToken first, PsOAuthToken second] [oat_name second] = Some [PsOAuthToken second] \<and>
    (\<exists>fid. map input_foreign_id (translate_for_tool role l [PsOAuthToken first, PsOAuthToken second] policy)
             = [Some fid, Some (fid @ ''-2'')] \<and>
           map input_foreign_id (translate_for_tool role l [PsOAuthToken second] policy) = [Some fid])"
proof -
  have two: "show_nat 2 = ''2''" by code_simp
  have "next_free_id c 2 [c] = c @ ''-2''" for c
    by (simp add: next_free_id.simps [of c] numbered_id_def two)
  then show ?thesis
    using assms by (simp add: select_secrets_def translate_for_tool_def translate_with_labels_def translate_oauth_id
        unique_foreign_id_def str_or_def Let_def del: translate_loop.simps(2))
qed

definition example_oauth :: "string \<Rightarrow> OAuthTokenSecret" where
  "example_oauth name =
     \<lparr>oat_name = name, oat_grant = ''refresh_token'', oat_hosts = [''www.googleapis.com''], oat_fields = [], oat_scopes = [],
      oat_token_endpoint = Some ''https://oauth2.googleapis.com/token'', oat_token_endpoint_headers = [], oat_audience = None\<rparr>"

theorem granting_one_secret_takes_anothers_id_witness:
  "\<exists>fid. map input_foreign_id (translate_for_tool ''tool-g'' \<lparr>tlb_tool = ''g'', tlb_overlay = ''tools''\<rparr>
       [PsOAuthToken (example_oauth ''GMAIL''), PsOAuthToken (example_oauth ''DRIVE'')] source_policy_env)
     = [Some fid, Some (fid @ ''-2'')] \<and>
   map input_foreign_id (translate_for_tool ''tool-g'' \<lparr>tlb_tool = ''g'', tlb_overlay = ''tools''\<rparr>
       [PsOAuthToken (example_oauth ''DRIVE'')] source_policy_env) = [Some fid]"
  using granting_one_secret_takes_anothers_id [of "example_oauth ''GMAIL''" "''https://oauth2.googleapis.com/token''"
      "example_oauth ''DRIVE''" "''tool-g''" "\<lparr>tlb_tool = ''g'', tlb_overlay = ''tools''\<rparr>" source_policy_env]
  by (simp add: example_oauth_def)

end
