(* ===== verification/Slack_Rate_Limit.thy ===== *)
theory Slack_Rate_Limit
  imports Prelude
begin

text \<open>
  The shared schedule of Slack calls (\<^verbatim>\<open>crates/centaur-company-context/src/slack_rate_limit.rs\<close>) over the
  table \<^verbatim>\<open>slack_rate_limits\<close>. Times are microseconds, PostgreSQL's resolution; date arithmetic past
  chrono's last date panics, which rolls the transaction back. The spacing is an argument: the code
  computes it in floating point from the tier of the method and the configured share.
\<close>

section \<open>Buckets\<close>

type_synonym utc = int

text \<open>The last microseconds of chrono's first and last days.\<close>

definition MAX_UTC :: utc where "MAX_UTC = 8210266876799999999"
definition MIN_UTC :: utc where "MIN_UTC = -8334601228800000000"

definition date_add :: "utc \<Rightarrow> int \<Rightarrow> utc option" where
  "date_add t d = (if MIN_UTC \<le> t + d \<and> t + d \<le> MAX_UTC then Some (t + d) else None)"

record Bucket =
  next_slot_at :: utc
  blocked_until :: "utc option"

definition grant :: "Bucket \<Rightarrow> utc \<Rightarrow> int \<Rightarrow> (utc \<times> Bucket) option" where
  "grant b now interval =
     (let slot = max (max now (next_slot_at b)) (case blocked_until b of None \<Rightarrow> now | Some t \<Rightarrow> t)
      in map_option (\<lambda>next. (slot, \<lparr>next_slot_at = next, blocked_until = blocked_until b\<rparr>)) (date_add slot interval))"

definition bucket_rate_limited :: "Bucket \<Rightarrow> utc \<Rightarrow> int \<Rightarrow> Bucket option" where
  "bucket_rate_limited b now retry_after =
     map_option (\<lambda>until. \<lparr>next_slot_at = next_slot_at b,
       blocked_until = Some (case blocked_until b of None \<Rightarrow> until | Some current \<Rightarrow> max current until)\<rparr>)
       (date_add now retry_after)"

section \<open>The table\<close>

datatype SlackMethod = UsersConversations | ConversationsHistory | ConversationsMembers | ConversationsReplies | UsersList

fun method_name :: "SlackMethod \<Rightarrow> string" where
  "method_name UsersConversations = ''users.conversations''"
| "method_name ConversationsHistory = ''conversations.history''"
| "method_name ConversationsMembers = ''conversations.members''"
| "method_name ConversationsReplies = ''conversations.replies''"
| "method_name UsersList = ''users.list''"

fun tier_per_minute :: "SlackMethod \<Rightarrow> nat" where
  "tier_per_minute ConversationsMembers = 100"
| "tier_per_minute UsersList = 20"
| "tier_per_minute _ = 50"

text \<open>The row of a key: application, workspace and method.\<close>

type_synonym bucket_key = "string \<times> string \<times> string"

record rate_row =
  bucket :: Bucket
  last_rate_limited_at :: "utc option"
  updated_at :: utc

type_synonym rate_table = "bucket_key \<rightharpoonup> rate_row"

datatype RateLimitError = CheckViolation | DurationOutOfRange | DatePanic

definition rate_key :: "string \<Rightarrow> string \<Rightarrow> SlackMethod \<Rightarrow> bucket_key" where
  "rate_key app_slug team_id method = (app_slug, team_id, method_name method)"

text \<open>\<open>now\<close> is the start of the transaction; the lock returns \<^verbatim>\<open>clock_timestamp()\<close> beside the row.\<close>

definition lock_bucket :: "utc \<Rightarrow> bucket_key \<Rightarrow> rate_table \<Rightarrow> RateLimitError + rate_table \<times> Bucket" where
  "lock_bucket now k t =
     (case t k of
        Some r \<Rightarrow> Inr (t, bucket r)
      | None \<Rightarrow>
          if fst k = [] \<or> fst (snd k) = [] then Inl CheckViolation
          else let b = \<lparr>next_slot_at = now, blocked_until = None\<rparr>
               in Inr (t(k \<mapsto> \<lparr>bucket = b, last_rate_limited_at = None, updated_at = now\<rparr>), b))"

definition store_bucket :: "utc \<Rightarrow> bucket_key \<Rightarrow> Bucket \<Rightarrow> bool \<Rightarrow> rate_table \<Rightarrow> rate_table" where
  "store_bucket now k b rate_limited t =
     (case t k of
        None \<Rightarrow> t
      | Some r \<Rightarrow> t(k \<mapsto> r\<lparr>bucket := b,
          last_rate_limited_at := (if rate_limited then Some now else last_rate_limited_at r), updated_at := now\<rparr>))"

text \<open>The table after the call, rolled back unless it succeeds, and the microseconds to wait.\<close>

definition reserve :: "utc \<Rightarrow> utc \<Rightarrow> int \<Rightarrow> bucket_key \<Rightarrow> rate_table \<Rightarrow> rate_table \<times> (RateLimitError + nat)" where
  "reserve now clock interval k t =
     (case lock_bucket now k t of
        Inl e \<Rightarrow> (t, Inl e)
      | Inr (t1, b) \<Rightarrow>
          (case grant b clock interval of
             None \<Rightarrow> (t, Inl DatePanic)
           | Some (slot, next) \<Rightarrow> (store_bucket now k next False t1, Inr (nat (slot - clock)))))"

text \<open>\<open>retry_after\<close> in nanoseconds; the stored date keeps its microseconds.\<close>

definition rate_limited :: "utc \<Rightarrow> utc \<Rightarrow> nat \<Rightarrow> bucket_key \<Rightarrow> rate_table \<Rightarrow> rate_table \<times> (RateLimitError + unit)" where
  "rate_limited now clock retry_after k t =
     (if 2 ^ 63 * 10 ^ 6 \<le> retry_after then (t, Inl DurationOutOfRange)
      else case lock_bucket now k t of
        Inl e \<Rightarrow> (t, Inl e)
      | Inr (t1, b) \<Rightarrow>
          (case bucket_rate_limited b clock (int (retry_after div 1000)) of
             None \<Rightarrow> (t, Inl DatePanic)
           | Some b' \<Rightarrow> (store_bucket now k b' True t1, Inr ())))"

section \<open>Pacing\<close>

text \<open>A call, by any replica, and what it tells the caller.\<close>

datatype rate_call = Reserve utc utc int bucket_key | Limited utc utc nat bucket_key

fun run_call :: "rate_call \<Rightarrow> rate_table \<Rightarrow> rate_table \<times> (RateLimitError + nat)" where
  "run_call (Reserve now clock interval k) t = reserve now clock interval k t"
| "run_call (Limited now clock retry_after k) t =
     (let (t', r) = rate_limited now clock retry_after k t in (t', res_map (\<lambda>_. 0) r))"

fun call_key :: "rate_call \<Rightarrow> bucket_key" where
  "call_key (Reserve _ _ _ k) = k"
| "call_key (Limited _ _ _ k) = k"

fun spaced :: "rate_call \<Rightarrow> bool" where
  "spaced (Reserve _ _ interval _) \<longleftrightarrow> 0 \<le> interval"
| "spaced (Limited _ _ _ _) \<longleftrightarrow> True"

text \<open>The earliest moment a later request of the key may be sent, given the answer of the call.\<close>

fun next_send :: "rate_call \<Rightarrow> nat \<Rightarrow> utc" where
  "next_send (Reserve _ clock interval _) wait = clock + int wait + interval"
| "next_send (Limited _ clock retry_after _) _ = clock + int (retry_after div 1000)"

definition held_until :: "rate_table \<Rightarrow> bucket_key \<Rightarrow> utc \<Rightarrow> bool" where
  "held_until t k u \<longleftrightarrow> (\<exists>r. t k = Some r \<and>
     (u \<le> next_slot_at (bucket r) \<or> (\<exists>b. blocked_until (bucket r) = Some b \<and> u \<le> b)))"

lemma lock_bucket_row:
  "lock_bucket now k t = Inr (t1, b) \<Longrightarrow> (\<exists>r. t1 k = Some r \<and> bucket r = b) \<and> (\<forall>k'. k' \<noteq> k \<longrightarrow> t1 k' = t k') \<and>
     (\<forall>r. t k = Some r \<longrightarrow> b = bucket r)"
  by (auto simp: lock_bucket_def Let_def split: option.splits if_splits)

lemma grant_slot:
  assumes "grant b clock interval = Some (slot, next)"
  shows "clock \<le> slot" "next_slot_at b \<le> slot" "\<And>u. blocked_until b = Some u \<Longrightarrow> u \<le> slot"
    "next_slot_at next = slot + interval" "blocked_until next = blocked_until b"
  using assms by (auto simp: grant_def Let_def date_add_def split: if_splits option.splits)

lemma reserve_granted:
  assumes "reserve now clock interval k t = (t', Inr wait)"
  obtains t1 b slot nxt where "lock_bucket now k t = Inr (t1, b)" "grant b clock interval = Some (slot, nxt)"
    "t' = store_bucket now k nxt False t1" "int wait = slot - clock"
  using assms grant_slot(1) by (auto simp: reserve_def split: sum.splits option.splits prod.splits)

lemma held_stored:
  "t1 k = Some r \<Longrightarrow> held_until (store_bucket now k b lim t1) k u \<longleftrightarrow>
     u \<le> next_slot_at b \<or> (\<exists>v. blocked_until b = Some v \<and> u \<le> v)"
  by (simp add: held_until_def store_bucket_def)

lemma reserve_kept:
  assumes "held_until t k u" and "0 \<le> interval" and "reserve now clock interval k t = (t', Inr wait)"
  shows "held_until t' k u \<and> u \<le> clock + int wait"
proof -
  obtain t1 b slot nxt where c: "lock_bucket now k t = Inr (t1, b)" "grant b clock interval = Some (slot, nxt)"
    "t' = store_bucket now k nxt False t1" "int wait = slot - clock" using assms(3) by (rule reserve_granted)
  obtain r where r: "t k = Some r" "u \<le> next_slot_at (bucket r) \<or> (\<exists>v. blocked_until (bucket r) = Some v \<and> u \<le> v)"
    using assms(1) by (auto simp: held_until_def)
  have b: "b = bucket r" using lock_bucket_row [OF c(1)] r(1) by simp
  note g = grant_slot [OF c(2)]
  have "u \<le> slot" using r(2) b g(2,3) by fastforce
  moreover have "held_until t' k u"
    using lock_bucket_row [OF c(1)] g(4) assms(2) \<open>u \<le> slot\<close> by (auto simp: c(3) held_stored)
  ultimately show ?thesis using c(4) by simp
qed

lemma limited_kept:
  assumes "held_until t k u" and "rate_limited now clock retry_after k t = (t', Inr ())"
  shows "held_until t' k u"
proof -
  obtain t1 b b' where c: "lock_bucket now k t = Inr (t1, b)" "bucket_rate_limited b clock (int (retry_after div 1000)) = Some b'"
    "t' = store_bucket now k b' True t1"
    using assms(2) by (auto simp: rate_limited_def split: sum.splits option.splits prod.splits if_splits)
  obtain r where r: "t k = Some r" "u \<le> next_slot_at (bucket r) \<or> (\<exists>v. blocked_until (bucket r) = Some v \<and> u \<le> v)"
    using assms(1) by (auto simp: held_until_def)
  have "b = bucket r" using lock_bucket_row [OF c(1)] r(1) by simp
  then have "u \<le> next_slot_at b' \<or> (\<exists>v. blocked_until b' = Some v \<and> u \<le> v)"
    using c(2) r(2) by (auto simp: bucket_rate_limited_def split: option.splits)
  then show ?thesis
    using lock_bucket_row [OF c(1)] by (auto simp: c(3) held_stored)
qed

lemma other_key: "call_key c \<noteq> k \<Longrightarrow> fst (run_call c t) k = t k"
  by (cases c) (auto simp: reserve_def rate_limited_def store_bucket_def lock_bucket_def Let_def
      split: sum.split option.split prod.split)

lemma failed_call: "snd (run_call c t) = Inl e \<Longrightarrow> fst (run_call c t) = t"
  by (cases c) (auto simp: reserve_def rate_limited_def Let_def split: sum.splits option.splits prod.splits if_splits)

lemma call_kept:
  assumes "held_until t k u" and "spaced c"
  shows "held_until (fst (run_call c t)) k u"
proof (cases "call_key c = k")
  case False
  then show ?thesis using assms(1) other_key by (simp add: held_until_def)
next
  case True
  show ?thesis
  proof (cases "snd (run_call c t)")
    case (Inl e)
    then show ?thesis using failed_call assms(1) by metis
  next
    case (Inr w)
    show ?thesis
    proof (cases c)
      case (Reserve now clock interval k')
      then have "reserve now clock interval k t = (fst (run_call c t), Inr w)" using True Inr by (cases "run_call c t") simp
      then show ?thesis using reserve_kept [OF assms(1)] assms(2) Reserve by auto
    next
      case (Limited now clock retry_after k')
      then have "rate_limited now clock retry_after k t = (fst (run_call c t), Inr ())"
        using True Inr by (cases "rate_limited now clock retry_after k t") auto
      then show ?thesis by (rule limited_kept [OF assms(1)])
    qed
  qed
qed

lemma call_holds:
  assumes "run_call c t = (t', Inr w)"
  shows "held_until t' (call_key c) (next_send c w)"
proof (cases c)
  case (Reserve now clock interval k)
  then have "reserve now clock interval k t = (t', Inr w)" using assms by simp
  then obtain t1 b slot nxt where r: "lock_bucket now k t = Inr (t1, b)" "grant b clock interval = Some (slot, nxt)"
    "t' = store_bucket now k nxt False t1" "int w = slot - clock" by (rule reserve_granted)
  then show ?thesis using Reserve lock_bucket_row [OF r(1)] grant_slot(4) [OF r(2)] by (auto simp: held_stored)
next
  case (Limited now clock retry_after k)
  then obtain t1 b b' where r: "lock_bucket now k t = Inr (t1, b)"
    "bucket_rate_limited b clock (int (retry_after div 1000)) = Some b'" "t' = store_bucket now k b' True t1"
    using assms by (auto simp: rate_limited_def Let_def split: sum.splits option.splits prod.splits if_splits)
  then have "\<exists>v. blocked_until b' = Some v \<and> clock + int (retry_after div 1000) \<le> v"
    by (auto simp: bucket_rate_limited_def date_add_def split: if_splits option.splits)
  then show ?thesis using Limited r(3) lock_bucket_row [OF r(1)] by (auto simp: held_stored)
qed

fun run_calls :: "rate_call list \<Rightarrow> rate_table \<Rightarrow> rate_table" where
  "run_calls [] t = t"
| "run_calls (c # cs) t = run_calls cs (fst (run_call c t))"

lemma calls_kept: "held_until t k u \<Longrightarrow> list_all spaced cs \<Longrightarrow> held_until (run_calls cs t) k u"
  by (induction cs arbitrary: t) (auto simp: call_kept)

text \<open>
  C40. The calls of one key are paced whatever the clocks and the other calls of any replica in between:
  a request is never sent before its own time, earlier than the spacing after a request reserved before
  it, or before the end of a wait Slack has asked for.
\<close>

theorem slack_calls_paced:
  assumes "run_call c t = (t1, Inr w)" and "list_all spaced cs" and "0 \<le> interval"
    and "reserve now clock interval (call_key c) (run_calls cs t1) = (t2, Inr wait)"
  shows "next_send c w \<le> clock + int wait"
  using reserve_kept [OF calls_kept [OF call_holds [OF assms(1)] assms(2)] assms(3,4)] by simp

theorem slack_calls_paced_witness:
  "snd (reserve 20 20 4 (rate_key ''app'' ''T1'' UsersList)
     (run_calls [Reserve 12 12 4 (rate_key ''app'' ''T1'' UsersList)]
       (fst (run_call (Limited 10 10 30000 (rate_key ''app'' ''T1'' UsersList)) Map.empty)))) = Inr 24 \<and>
   next_send (Limited 10 10 30000 (rate_key ''app'' ''T1'' UsersList)) 0 \<le> 20 + 24"
proof -
  let ?k = "rate_key ''app'' ''T1'' UsersList"
  note defs = rate_limited_def reserve_def lock_bucket_def store_bucket_def bucket_rate_limited_def grant_def date_add_def
    rate_key_def MIN_UTC_def MAX_UTC_def Let_def
  have 1: "run_call (Limited 10 10 30000 ?k) Map.empty = (fst (run_call (Limited 10 10 30000 ?k) Map.empty), Inr 0)"
    by (simp add: defs)
  have 2: "snd (reserve 20 20 4 ?k (run_calls [Reserve 12 12 4 ?k] (fst (run_call (Limited 10 10 30000 ?k) Map.empty)))) = Inr 24"
    by (simp add: defs)
  then have "reserve 20 20 4 (call_key (Limited 10 10 30000 ?k))
      (run_calls [Reserve 12 12 4 ?k] (fst (run_call (Limited 10 10 30000 ?k) Map.empty))) =
      (fst (reserve 20 20 4 ?k (run_calls [Reserve 12 12 4 ?k] (fst (run_call (Limited 10 10 30000 ?k) Map.empty)))), Inr 24)"
    by (metis call_key.simps(2) prod.collapse)
  from slack_calls_paced [OF 1 _ _ this] 2 show ?thesis by simp
qed

end
