(* ===== verification/Token_Broker.thy ===== *)
theory Token_Broker
  imports Json_Value
begin

text \<open>
  The refreshing of brokered credentials (\<^verbatim>\<open>crates/centaur-token-broker/src\<close>: \<^verbatim>\<open>schedule.rs\<close>,
  \<^verbatim>\<open>client.rs\<close>, \<^verbatim>\<open>grants.rs\<close>, \<^verbatim>\<open>store.rs\<close>, \<^verbatim>\<open>broker.rs\<close>) over the tables it reads and writes. What
  is not the broker's own code is a field of \<open>broker_env\<close>: the token endpoint, serde_json's parser, the
  conversions through \<^verbatim>\<open>f64\<close>, header validation, basic authentication, URL joining and the
  encryption. Times are microseconds. A \<^verbatim>\<open>failure_count\<close> near the bounds of \<^verbatim>\<open>i32\<close> is out of scope:
  it would take thousands of years of failures.
\<close>

section \<open>Schedule\<close>

type_synonym micros = int

definition seconds :: "int \<Rightarrow> micros" where
  "seconds n = n * 1000000"

definition DEFAULT_EXPIRES_IN_SECONDS :: int where "DEFAULT_EXPIRES_IN_SECONDS = 5 * 60"
definition MAX_EXPIRES_IN_SECONDS :: int where "MAX_EXPIRES_IN_SECONDS = 10 * 365 * 24 * 60 * 60"
definition MIN_REFRESH_INTERVAL_SECONDS :: int where "MIN_REFRESH_INTERVAL_SECONDS = 60"
definition BACKOFF_BASE_SECONDS :: int where "BACKOFF_BASE_SECONDS = 5"
definition BACKOFF_MAX_SECONDS :: int where "BACKOFF_MAX_SECONDS = 5 * 60"

definition expires_in :: "int option \<Rightarrow> int" where
  "expires_in reported =
     (case reported of
        Some s \<Rightarrow> if 0 < s then min s MAX_EXPIRES_IN_SECONDS else DEFAULT_EXPIRES_IN_SECONDS
      | None \<Rightarrow> DEFAULT_EXPIRES_IN_SECONDS)"

text \<open>\<open>early\<close>: the microseconds of the early trigger, which the code computes and rounds in \<^verbatim>\<open>f64\<close>.\<close>

definition next_attempt_time :: "micros \<Rightarrow> micros \<Rightarrow> int \<Rightarrow> micros" where
  "next_attempt_time now early max_refresh_interval_seconds =
     max (min (now + early) (now + seconds max_refresh_interval_seconds)) (now + seconds MIN_REFRESH_INTERVAL_SECONDS)"

definition clamp :: "int \<Rightarrow> int \<Rightarrow> int \<Rightarrow> int" where
  "clamp v lo hi = (if v < lo then lo else if hi < v then hi else v)"

definition retry_at :: "micros \<Rightarrow> int \<Rightarrow> micros" where
  "retry_at now failures =
     now + seconds (min (BACKOFF_BASE_SECONDS * 2 ^ nat (clamp (failures - 1) 0 6)) BACKOFF_MAX_SECONDS)"

section \<open>Token endpoint responses\<close>

record TokenResponse =
  access_token :: string
  rotated_token :: "string option"
  reported_expiry :: "int option"

record RefreshError =
  err_stage :: string
  err_code :: "string option"
  err_status :: "nat option"
  err_retryable :: bool

definition retryable_error :: "string \<Rightarrow> nat option \<Rightarrow> RefreshError" where
  "retryable_error stage status = \<lparr>err_stage = stage, err_code = None, err_status = status, err_retryable = True\<rparr>"

definition network_error :: "string \<Rightarrow> nat option \<Rightarrow> RefreshError" where
  "network_error failure status = (retryable_error ''network'' status)\<lparr>err_code := Some failure\<rparr>"

definition dead_error :: "string \<Rightarrow> string \<Rightarrow> nat \<Rightarrow> RefreshError" where
  "dead_error stage code status = \<lparr>err_stage = stage, err_code = Some code, err_status = Some status, err_retryable = False\<rparr>"

definition config_error :: "string \<Rightarrow> RefreshError" where
  "config_error code = \<lparr>err_stage = ''config'', err_code = Some code, err_status = None, err_retryable = True\<rparr>"

definition reason :: "RefreshError \<Rightarrow> string" where
  "reason e = (case err_code e of None \<Rightarrow> err_stage e | Some c \<Rightarrow> c)"

definition present_string :: "json option \<Rightarrow> string option" where
  "present_string v = Option.bind (Option.bind v as_str) (\<lambda>s. if trim s = [] then None else Some s)"

text \<open>\<^verbatim>\<open>str::parse::<i64>\<close>: an optional sign and decimal digits, in range.\<close>

definition parse_i64 :: "string \<Rightarrow> int option" where
  "parse_i64 s =
     (let (neg, ds) = (case s of [] \<Rightarrow> (False, []) | c # r \<Rightarrow> if c = CHR ''-'' then (True, r) else if c = CHR ''+'' then (False, r) else (False, s))
      in if ds = [] then None
         else case read_digits 0 ds of
                None \<Rightarrow> None
              | Some n \<Rightarrow> let v = (if neg then - int n else int n)
                          in if - (2 ^ 63) \<le> v \<and> v < 2 ^ 63 then Some v else None)"

text \<open>\<open>truncated\<close>: \<^verbatim>\<open>as_f64\<close> and the cast to \<^verbatim>\<open>i64\<close> of a number that is no \<^verbatim>\<open>i64\<close>.\<close>

definition expiry_of :: "(json \<Rightarrow> int) \<Rightarrow> json option \<Rightarrow> int option option" where
  "expiry_of truncated v =
     (case v of
        None \<Rightarrow> Some None
      | Some JNull \<Rightarrow> Some None
      | Some (JNum m s) \<Rightarrow> Some (Some (if s = 0 \<and> - (2 ^ 63) \<le> m \<and> m < 2 ^ 63 then m else truncated (JNum m s)))
      | Some (JStr t) \<Rightarrow> map_option Some (parse_i64 (trim t))
      | Some _ \<Rightarrow> None)"

definition interpret_body :: "(json \<Rightarrow> int) \<Rightarrow> nat \<Rightarrow> json option \<Rightarrow> bool \<Rightarrow> RefreshError + TokenResponse" where
  "interpret_body truncated status parsed strict_4xx =
     (let error_code = present_string (Option.bind parsed (get_key ''error''));
          malformed = retryable_error ''parse'' (Some status)
      in if \<not> (200 \<le> status \<and> status < 300)
         then if status div 100 = 5 \<or> status = 429
              then Inl ((retryable_error ''http'' (Some status))\<lparr>err_code := error_code\<rparr>)
              else (case error_code of
                      Some code \<Rightarrow> Inl (dead_error ''oauth'' code status)
                    | None \<Rightarrow> if strict_4xx then Inl (dead_error ''http'' (''http_'' @ show_nat status) status)
                              else Inl (retryable_error ''http'' (Some status)))
         else case parsed of
           Some (JObj kvs) \<Rightarrow>
             if map_of kvs ''ok'' = Some (JBool False) \<and> error_code \<noteq> None
             then Inl (dead_error ''oauth'' (the error_code) status)
             else (case present_string (map_of kvs ''access_token'') of
                     None \<Rightarrow> Inl malformed
                   | Some token \<Rightarrow>
                       (case expiry_of truncated (map_of kvs ''expires_in'') of
                          None \<Rightarrow> Inl malformed
                        | Some expiry \<Rightarrow>
                            Inr \<lparr>access_token = token, rotated_token = present_string (map_of kvs ''refresh_token''),
                                 reported_expiry = expiry\<rparr>))
         | _ \<Rightarrow> Inl malformed)"

section \<open>Requests\<close>

type_synonym form = "(string \<times> string) list"

record TokenRequest =
  rq_url :: string
  rq_form :: form
  rq_multipart :: bool
  rq_headers :: "(string \<times> string) list"
  rq_strict_4xx :: bool
  rq_timeout :: int

datatype http_reply = NetworkFailure string "nat option" | HttpReply nat string

record broker_env =
  http :: "TokenRequest \<Rightarrow> http_reply"
  parse_body :: "string \<Rightarrow> json option"
  truncated_number :: "json \<Rightarrow> int"
  header_ok :: "string \<Rightarrow> string \<Rightarrow> bool"
  basic_auth :: "string \<Rightarrow> string \<Rightarrow> string"
  join_refresh_token :: "string \<Rightarrow> string option"
  encrypt :: "string \<Rightarrow> string + string"
  decrypt :: "string \<Rightarrow> string + string"

definition MAX_BODY_BYTES :: nat where "MAX_BODY_BYTES = 64 * 1024"

definition client_post :: "broker_env \<Rightarrow> TokenRequest \<Rightarrow> RefreshError + TokenResponse" where
  "client_post env request =
     (case http env request of
        NetworkFailure failure status \<Rightarrow> Inl (network_error failure status)
      | HttpReply status body \<Rightarrow>
          interpret_body (truncated_number env) status (parse_body env (take MAX_BODY_BYTES body)) (rq_strict_4xx request))"

record BrokerCredential =
  bc_grant :: string
  bc_token_endpoint :: string
  bc_provider :: "string option"
  bc_client_id :: "string option"
  bc_client_secret :: "string option"
  bc_refresh_token :: "string option"
  bc_username :: "string option"
  bc_password :: "string option"
  bc_api_key :: "string option"
  bc_headers :: "(string \<times> string) list"
  bc_scopes :: "string list"
  bc_timeout :: int

datatype Outcome = Refreshed TokenResponse bool | Dead string

datatype ClientAuthentication = ClientSecretPost | ClientSecretBasic

record Provider =
  refresh_scopes :: bool
  token_endpoint_auth_method :: ClientAuthentication

definition PROVIDERS :: "(string \<times> Provider) list" where
  "PROVIDERS = map (\<lambda>(k, s, a). (k, \<lparr>refresh_scopes = s, token_endpoint_auth_method = a\<rparr>))
     [(''attio'', False, ClientSecretPost), (''github'', False, ClientSecretPost), (''google'', True, ClientSecretPost),
      (''granola'', True, ClientSecretPost), (''linear'', True, ClientSecretPost), (''mercator'', True, ClientSecretPost),
      (''microsoft'', True, ClientSecretPost), (''slack'', False, ClientSecretPost), (''zoom'', False, ClientSecretBasic)]"

definition STANDALONE :: Provider where
  "STANDALONE = \<lparr>refresh_scopes = True, token_endpoint_auth_method = ClientSecretPost\<rparr>"

definition provider :: "string option \<Rightarrow> RefreshError + Provider" where
  "provider key =
     (case key of
        None \<Rightarrow> Inr STANDALONE
      | Some k \<Rightarrow> (case map_of PROVIDERS k of None \<Rightarrow> Inl (config_error ''unknown_provider'') | Some p \<Rightarrow> Inr p))"

definition present :: "string option \<Rightarrow> string option" where
  "present v = Option.bind v (\<lambda>s. if trim s = [] then None else Some s)"

definition required :: "string option \<Rightarrow> string \<Rightarrow> RefreshError + string" where
  "required v name = (case present v of None \<Rightarrow> Inl (config_error (''missing_'' @ name)) | Some s \<Rightarrow> Inr s)"

definition oauth_form :: "BrokerCredential \<Rightarrow> string \<Rightarrow> form \<Rightarrow> RefreshError + form" where
  "oauth_form c grant_type extra =
     res_bind (required (bc_client_id c) ''client_id'') (\<lambda>client_id.
     res_bind (provider (bc_provider c)) (\<lambda>p.
       Inr ([(''grant_type'', grant_type)] @ extra @ [(''client_id'', client_id)] @
         (case present (bc_client_secret c) of None \<Rightarrow> [] | Some s \<Rightarrow> [(''client_secret'', s)]) @
         (if refresh_scopes p \<and> bc_scopes c \<noteq> [] then [(''scope'', join_with '' '' (bc_scopes c))] else []))))"

text \<open>The headers are the insertions into the \<^verbatim>\<open>HeaderMap\<close>, in order.\<close>

definition post :: "broker_env \<Rightarrow> BrokerCredential \<Rightarrow> string \<Rightarrow> form \<Rightarrow> bool \<Rightarrow> RefreshError + TokenResponse" where
  "post env c url form preqin =
     (if \<not> list_all (\<lambda>(n, v). header_ok env n v) (bc_headers c) then Inl (config_error ''invalid_token_endpoint_header'')
      else res_bind (provider (bc_provider c)) (\<lambda>p.
        let send = (\<lambda>headers form. client_post env \<lparr>rq_url = url, rq_form = form, rq_multipart = preqin, rq_headers = headers,
              rq_strict_4xx = preqin, rq_timeout = bc_timeout c\<rparr>)
        in if token_endpoint_auth_method p = ClientSecretBasic
           then res_bind (required (bc_client_id c) ''client_id'') (\<lambda>client_id.
             res_bind (required (bc_client_secret c) ''client_secret'') (\<lambda>client_secret.
               let basic = ''Basic '' @ basic_auth env client_id client_secret in
               if \<not> header_ok env ''authorization'' basic then Inl (config_error ''invalid_client_credentials'')
               else send (bc_headers c @ [(''authorization'', basic)])
                 (filter (\<lambda>(n, _). n \<noteq> ''client_id'' \<and> n \<noteq> ''client_secret'') form)))
           else send (bc_headers c) form))"

definition refresh_token_request :: "BrokerCredential \<Rightarrow> RefreshError + string \<times> form" where
  "refresh_token_request c =
     res_bind (required (bc_refresh_token c) ''refresh_token'') (\<lambda>t.
     res_bind (oauth_form c ''refresh_token'' [(''refresh_token'', t)]) (\<lambda>form. Inr (bc_token_endpoint c, form)))"

definition initial_grant ::
  "broker_env \<Rightarrow> BrokerCredential \<Rightarrow> (RefreshError + (string \<times> form) option) \<Rightarrow> string \<Rightarrow> bool \<Rightarrow> bool \<Rightarrow> RefreshError + Outcome" where
  "initial_grant env c initial_request missing_initial_values preqin stale =
     res_bind initial_request (\<lambda>r.
       case r of
         None \<Rightarrow> Inr (Dead missing_initial_values)
       | Some (url, form) \<Rightarrow>
           res_bind (post env c url form preqin) (\<lambda>token. Inr (Refreshed token (stale \<and> rotated_token token = None))))"

definition refresh_with_fallback ::
  "broker_env \<Rightarrow> BrokerCredential \<Rightarrow> (RefreshError + string \<times> form) \<Rightarrow> (RefreshError + (string \<times> form) option) \<Rightarrow> string \<Rightarrow> bool \<Rightarrow>
     RefreshError + Outcome" where
  "refresh_with_fallback env c refresh_request initial_request missing_initial_values preqin =
     (if present (bc_refresh_token c) = None then initial_grant env c initial_request missing_initial_values preqin False
      else res_bind refresh_request (\<lambda>(url, form).
        case post env c url form preqin of
          Inr token \<Rightarrow> Inr (Refreshed token False)
        | Inl e \<Rightarrow> if err_retryable e then Inl e
                   else initial_grant env c initial_request missing_initial_values preqin True))"

definition refresh_grant :: "broker_env \<Rightarrow> BrokerCredential \<Rightarrow> RefreshError + Outcome" where
  "refresh_grant env c =
     (if bc_grant c = ''client_credentials''
      then res_bind (required (bc_client_secret c) ''client_secret'') (\<lambda>_.
        res_bind (oauth_form c ''client_credentials'' []) (\<lambda>form.
        res_bind (post env c (bc_token_endpoint c) form False) (\<lambda>token. Inr (Refreshed token False))))
      else if bc_grant c = ''password''
      then refresh_with_fallback env c (refresh_token_request c)
        (case (present (bc_username c), present (bc_password c)) of
           (Some u, Some p) \<Rightarrow>
             res_map (\<lambda>form. Some (bc_token_endpoint c, form)) (oauth_form c ''password'' [(''username'', u), (''password'', p)])
         | _ \<Rightarrow> Inr None)
        ''password_grant_missing_initial_values'' False
      else if bc_grant c = ''preqin''
      then refresh_with_fallback env c
        (res_bind (required (bc_refresh_token c) ''refresh_token'') (\<lambda>t.
           case join_refresh_token env (bc_token_endpoint c) of
             None \<Rightarrow> Inl (config_error ''invalid_token_endpoint'')
           | Some url \<Rightarrow> Inr (url, [(''refresh_token'', t)])))
        (case (present (bc_username c), present (bc_api_key c)) of
           (Some u, Some k) \<Rightarrow> Inr (Some (bc_token_endpoint c, [(''username'', u), (''apikey'', k)]))
         | _ \<Rightarrow> Inr None)
        ''preqin_missing_initial_values'' True
      else if present (bc_refresh_token c) = None then Inr (Dead ''missing_initial_refresh_token'')
      else res_bind (refresh_token_request c) (\<lambda>(url, form).
        res_bind (post env c url form False) (\<lambda>token. Inr (Refreshed token False))))"

section \<open>The store\<close>

record oauth_app =
  app_provider :: string
  app_client_id :: "string option"
  app_client_secret :: "string option"

record credential_row =
  b_grant :: string
  b_token_endpoint :: string
  b_oauth_app :: "oauth_app option"
  b_client_id :: "string option"
  b_client_secret :: "string option"
  b_refresh_token :: "string option"
  b_username :: "string option"
  b_password :: "string option"
  b_api_key :: "string option"
  b_token_endpoint_headers :: "string option"
  b_scopes :: "string list"
  b_refresh_timeout_seconds :: int
  b_early :: "int \<Rightarrow> micros"
  b_max_refresh_interval_seconds :: int
  b_failure_count :: int
  b_dead :: bool
  b_dead_reason :: "string option"
  b_access_token :: "string option"
  b_expires_at :: "micros option"
  b_last_refresh :: "micros option"
  b_next_attempt_at :: "micros option"
  b_updated_at :: micros

text \<open>
  \<open>b_early\<close> is the early trigger of \<^verbatim>\<open>next_attempt_at\<close> for a lifetime, from the slack and fraction
  columns. A secret source and a grant name their secret by its kind and id.
\<close>

record broker_db =
  broker_credentials :: "int \<rightharpoonup> credential_row"
  secret_sources :: "((string \<times> int) \<times> string \<times> int option) list"
  owner_grants :: "((string \<times> int) \<times> int option \<times> int option) list"
  principal_roles :: "(int \<times> int) list"
  cache_versions :: "int \<rightharpoonup> int"

definition refreshable :: "micros \<Rightarrow> credential_row \<Rightarrow> bool" where
  "refreshable now r \<longleftrightarrow>
     \<not> b_dead r \<and>
     (b_grant r = ''refresh_token'' \<and> (b_last_refresh r = None \<or> b_refresh_token r \<noteq> None) \<or>
      b_grant r \<in> {''client_credentials'', ''password'', ''preqin''}) \<and>
     (case b_next_attempt_at r of None \<Rightarrow> True | Some t \<Rightarrow> t \<le> now)"

definition decrypt_opt :: "broker_env \<Rightarrow> string option \<Rightarrow> string + string option" where
  "decrypt_opt env v = (case v of None \<Rightarrow> Inr None | Some c \<Rightarrow> res_map Some (decrypt env c))"

fun string_fields :: "(string \<times> json) list \<Rightarrow> (string \<times> string) list option" where
  "string_fields [] = Some []"
| "string_fields ((k, JStr v) # kvs) = map_option ((#) (k, v)) (string_fields kvs)"
| "string_fields (_ # kvs) = None"

definition headers_of :: "broker_env \<Rightarrow> string option \<Rightarrow> string + (string \<times> string) list" where
  "headers_of env text =
     (let invalid = Inl ''token_endpoint_headers is not an object of strings'' in
      case text of
        None \<Rightarrow> Inr []
      | Some t \<Rightarrow>
          (case parse_body env t of
             Some JNull \<Rightarrow> Inr []
           | Some (JObj kvs) \<Rightarrow> (case string_fields kvs of None \<Rightarrow> invalid | Some hs \<Rightarrow> Inr hs)
           | _ \<Rightarrow> invalid))"

definition MAX_REQUEST_TIMEOUT :: int where "MAX_REQUEST_TIMEOUT = 60"

definition credential_of_row :: "broker_env \<Rightarrow> credential_row \<Rightarrow> string + BrokerCredential" where
  "credential_of_row env r =
     res_bind (decrypt_opt env (case b_oauth_app r of None \<Rightarrow> b_client_secret r | Some a \<Rightarrow> app_client_secret a)) (\<lambda>secret.
     res_bind (decrypt_opt env (b_refresh_token r)) (\<lambda>refresh_token.
     res_bind (decrypt_opt env (b_username r)) (\<lambda>username.
     res_bind (decrypt_opt env (b_password r)) (\<lambda>password.
     res_bind (decrypt_opt env (b_api_key r)) (\<lambda>api_key.
     res_bind (res_bind (decrypt_opt env (b_token_endpoint_headers r)) (headers_of env)) (\<lambda>hs.
       Inr \<lparr>bc_grant = b_grant r, bc_token_endpoint = b_token_endpoint r,
         bc_provider = map_option app_provider (b_oauth_app r),
         bc_client_id = (case b_oauth_app r of None \<Rightarrow> b_client_id r | Some a \<Rightarrow> app_client_id a),
         bc_client_secret = secret, bc_refresh_token = refresh_token, bc_username = username, bc_password = password,
         bc_api_key = api_key, bc_headers = hs, bc_scopes = b_scopes r,
         bc_timeout = min (max (b_refresh_timeout_seconds r) 1) MAX_REQUEST_TIMEOUT\<rparr>))))))"

text \<open>\<open>locked\<close>: the row is held by another refresh or a Console edit, which \<^verbatim>\<open>skip locked\<close> passes over.\<close>

definition lock_due_credential ::
  "broker_env \<Rightarrow> bool \<Rightarrow> micros \<Rightarrow> int \<Rightarrow> broker_db \<Rightarrow> string + (BrokerCredential \<times> credential_row) option" where
  "lock_due_credential env locked now i db =
     (case broker_credentials db i of
        None \<Rightarrow> Inr None
      | Some r \<Rightarrow> if locked \<or> \<not> refreshable now r then Inr None else res_map (\<lambda>c. Some (c, r)) (credential_of_row env r))"

definition owner_grants_of :: "int \<Rightarrow> broker_db \<Rightarrow> (int option \<times> int option) list" where
  "owner_grants_of i db =
     List.map_filter (\<lambda>(secret, grantee).
       if \<exists>(s, ty, cred) \<in> set (secret_sources db). s = secret \<and> ty = ''token_broker'' \<and> cred = Some i then Some grantee else None)
       (owner_grants db)"

definition affected_principal :: "int \<Rightarrow> broker_db \<Rightarrow> int \<Rightarrow> bool" where
  "affected_principal i db p \<longleftrightarrow>
     (\<exists>(q, role) \<in> set (owner_grants_of i db). q = Some p \<or> (\<exists>(p', role') \<in> set (principal_roles db). p' = p \<and> role = Some role'))"

definition invalidate_proxy_configs :: "int \<Rightarrow> broker_db \<Rightarrow> broker_db" where
  "invalidate_proxy_configs i db =
     db\<lparr>cache_versions := (\<lambda>p. map_option (\<lambda>v. if affected_principal i db p then v + 1 else v) (cache_versions db p))\<rparr>"

definition update_credential :: "int \<Rightarrow> (credential_row \<Rightarrow> credential_row) \<Rightarrow> broker_db \<Rightarrow> broker_db" where
  "update_credential i f db = db\<lparr>broker_credentials := (broker_credentials db)(i := map_option f (broker_credentials db i))\<rparr>"

datatype RefreshTokenChange = Keep | ReplaceToken string | ClearToken

definition record_refresh ::
  "broker_env \<Rightarrow> int \<Rightarrow> micros \<Rightarrow> string \<Rightarrow> RefreshTokenChange \<Rightarrow> micros \<Rightarrow> micros \<Rightarrow> broker_db \<Rightarrow> string + broker_db" where
  "record_refresh env i now token change expires_at next_at db =
     res_bind (case change of
         Keep \<Rightarrow> Inr (\<lambda>old. old)
       | ReplaceToken t \<Rightarrow> res_map (\<lambda>c _. Some c) (encrypt env t)
       | ClearToken \<Rightarrow> Inr (\<lambda>_. None)) (\<lambda>new_token.
     res_bind (encrypt env token) (\<lambda>enc.
       Inr (invalidate_proxy_configs i (update_credential i (\<lambda>r.
         r\<lparr>b_access_token := Some enc, b_expires_at := Some expires_at, b_last_refresh := Some now, b_updated_at := now,
           b_next_attempt_at := Some next_at, b_failure_count := 0, b_dead := False, b_dead_reason := None,
           b_refresh_token := new_token (b_refresh_token r)\<rparr>) db))))"

definition record_retry :: "int \<Rightarrow> micros \<Rightarrow> int \<Rightarrow> micros \<Rightarrow> broker_db \<Rightarrow> broker_db" where
  "record_retry i now failure_count next_at db =
     update_credential i (\<lambda>r. r\<lparr>b_failure_count := failure_count, b_next_attempt_at := Some next_at, b_updated_at := now\<rparr>) db"

definition record_dead :: "int \<Rightarrow> micros \<Rightarrow> string \<Rightarrow> broker_db \<Rightarrow> broker_db" where
  "record_dead i now why db =
     invalidate_proxy_configs i (update_credential i (\<lambda>r. r\<lparr>b_dead := True, b_dead_reason := Some why, b_updated_at := now\<rparr>) db)"

section \<open>One refresh\<close>

text \<open>An error rolls the transaction back. The result is the label of the outcome, \<open>None\<close> when not due.\<close>

definition try_refresh :: "broker_env \<Rightarrow> bool \<Rightarrow> micros \<Rightarrow> int \<Rightarrow> broker_db \<Rightarrow> broker_db \<times> (string + string option)" where
  "try_refresh env locked now i db =
     (case lock_due_credential env locked now i db of
        Inl e \<Rightarrow> (db, Inl e)
      | Inr None \<Rightarrow> (db, Inr None)
      | Inr (Some (c, row)) \<Rightarrow>
          (case refresh_grant env c of
             Inr (Refreshed token clear_refresh_token) \<Rightarrow>
               let lifetime = expires_in (reported_expiry token);
                   change = (case rotated_token token of Some t \<Rightarrow> ReplaceToken t | None \<Rightarrow> if clear_refresh_token then ClearToken else Keep)
               in (case record_refresh env i now (access_token token) change (now + seconds lifetime)
                         (next_attempt_time now (b_early row lifetime) (b_max_refresh_interval_seconds row)) db of
                     Inl e \<Rightarrow> (db, Inl e)
                   | Inr db' \<Rightarrow> (db', Inr (Some ''success'')))
           | Inr (Dead why) \<Rightarrow> (record_dead i now why db, Inr (Some ''dead''))
           | Inl e \<Rightarrow>
               if \<not> err_retryable e then (record_dead i now (reason e) db, Inr (Some ''dead''))
               else let failures = b_failure_count row + 1
                    in (record_retry i now failures (retry_at now failures) db, Inr (Some ''retry''))))"

section \<open>Backing off\<close>

lemma retry_bounds: "now + seconds 5 \<le> retry_at now n \<and> retry_at now n \<le> now + seconds 300"
proof -
  have "(1::int) \<le> 2 ^ nat (clamp (n - 1) 0 6)" by simp
  then show ?thesis by (simp add: retry_at_def seconds_def BACKOFF_BASE_SECONDS_def BACKOFF_MAX_SECONDS_def)
qed

lemma retry_doubles: "m \<le> n \<Longrightarrow> retry_at now m \<le> retry_at now n"
proof -
  assume "m \<le> n"
  then have "nat (clamp (m - 1) 0 6) \<le> nat (clamp (n - 1) 0 6)" by (intro nat_mono) (simp add: clamp_def)
  then have "(2::int) ^ nat (clamp (m - 1) 0 6) \<le> 2 ^ nat (clamp (n - 1) 0 6)" by (rule power_increasing) simp
  then have "min (BACKOFF_BASE_SECONDS * 2 ^ nat (clamp (m - 1) 0 6)) BACKOFF_MAX_SECONDS \<le>
      min (BACKOFF_BASE_SECONDS * 2 ^ nat (clamp (n - 1) 0 6)) BACKOFF_MAX_SECONDS"
    by (intro min.mono) (simp_all add: BACKOFF_BASE_SECONDS_def)
  then show ?thesis by (simp add: retry_at_def seconds_def)
qed

lemma next_attempt_bounds:
  "now + seconds 60 \<le> next_attempt_time now early m \<and> next_attempt_time now early m \<le> max (now + seconds 60) (now + seconds m)"
  by (simp add: next_attempt_time_def MIN_REFRESH_INTERVAL_SECONDS_def)

lemma lifetime_bounds: "1 \<le> expires_in v \<and> expires_in v \<le> MAX_EXPIRES_IN_SECONDS"
  by (simp add: expires_in_def MAX_EXPIRES_IN_SECONDS_def DEFAULT_EXPIRES_IN_SECONDS_def split: option.split)

lemma broker_frames [simp]:
  "broker_credentials (invalidate_proxy_configs i db) = broker_credentials db"
  "broker_credentials (update_credential i f db) j = (if j = i then map_option f (broker_credentials db i) else broker_credentials db j)"
  by (simp_all add: invalidate_proxy_configs_def update_credential_def)

lemma locked_row:
  "lock_due_credential env locked now i db = Inr (Some (c, r)) \<longleftrightarrow>
     broker_credentials db i = Some r \<and> \<not> locked \<and> refreshable now r \<and> credential_of_row env r = Inr c"
  by (auto simp: lock_due_credential_def split: option.splits if_splits)

text \<open>What a recorded attempt leaves in the row.\<close>

definition stored_change :: "broker_env \<Rightarrow> TokenResponse \<Rightarrow> bool \<Rightarrow> string option \<Rightarrow> string option \<Rightarrow> bool" where
  "stored_change env token clear old new \<longleftrightarrow>
     (case rotated_token token of
        Some t \<Rightarrow> \<exists>enc. encrypt env t = Inr enc \<and> new = Some enc
      | None \<Rightarrow> new = (if clear then None else old))"

lemma recorded_refresh:
  assumes "record_refresh env i now tok change exp nxt db = Inr db'" and "broker_credentials db i = Some r"
    and "change = (case rotated_token token of Some t \<Rightarrow> ReplaceToken t | None \<Rightarrow> if clear then ClearToken else Keep)"
  obtains r' enc where "broker_credentials db' i = Some r'" "b_next_attempt_at r' = Some nxt" "b_failure_count r' = 0"
    "\<not> b_dead r'" "encrypt env tok = Inr enc" "b_access_token r' = Some enc" "b_expires_at r' = Some exp"
    "stored_change env token clear (b_refresh_token r) (b_refresh_token r')"
  using assms by (auto simp: record_refresh_def stored_change_def split: option.splits if_splits)

lemma attempt_cases:
  assumes "try_refresh env locked now i db = (db', Inr (Some label))"
  obtains c r r' where "broker_credentials db i = Some r" "\<not> locked" "refreshable now r" "credential_of_row env r = Inr c"
      "broker_credentials db' i = Some r'" "label = ''success''"
      "\<exists>token clear enc. refresh_grant env c = Inr (Refreshed token clear) \<and> encrypt env (access_token token) = Inr enc \<and>
         b_access_token r' = Some enc \<and> stored_change env token clear (b_refresh_token r) (b_refresh_token r') \<and>
         b_next_attempt_at r' = Some (next_attempt_time now (b_early r (expires_in (reported_expiry token))) (b_max_refresh_interval_seconds r)) \<and>
         b_failure_count r' = 0 \<and> \<not> b_dead r'"
    | c r r' where "broker_credentials db i = Some r" "\<not> locked" "refreshable now r" "credential_of_row env r = Inr c"
      "broker_credentials db' i = Some r'" "label = ''retry''" "\<exists>e. refresh_grant env c = Inl e \<and> err_retryable e"
      "b_next_attempt_at r' = Some (retry_at now (b_failure_count r + 1))" "b_failure_count r' = b_failure_count r + 1"
      "b_refresh_token r' = b_refresh_token r" "b_access_token r' = b_access_token r" "b_dead r' = b_dead r"
    | c r r' where "broker_credentials db i = Some r" "\<not> locked" "refreshable now r" "credential_of_row env r = Inr c"
      "broker_credentials db' i = Some r'" "label = ''dead''" "b_dead r'"
      "b_refresh_token r' = b_refresh_token r" "b_access_token r' = b_access_token r"
proof -
  obtain c r where l: "lock_due_credential env locked now i db = Inr (Some (c, r))"
    using assms by (auto simp: try_refresh_def split: sum.splits option.splits)
  note r = l [unfolded locked_row]
  show thesis
  proof (cases "refresh_grant env c")
    case (Inl e)
    show thesis
    proof (cases "err_retryable e")
      case True
      then have "label = ''retry''" "db' = record_retry i now (b_failure_count r + 1) (retry_at now (b_failure_count r + 1)) db"
        using assms l Inl by (auto simp: try_refresh_def Let_def)
      then show thesis using that(2) r Inl True by (auto simp: record_retry_def)
    next
      case False
      then have "label = ''dead''" "db' = record_dead i now (reason e) db" using assms l Inl by (auto simp: try_refresh_def)
      then show thesis using that(3) r by (auto simp: record_dead_def)
    qed
  next
    case (Inr out)
    show thesis
    proof (cases out)
      case (Dead why)
      then have "label = ''dead''" "db' = record_dead i now why db" using assms l Inr by (auto simp: try_refresh_def)
      then show thesis using that(3) r by (auto simp: record_dead_def)
    next
      case (Refreshed token clear)
      define change where "change = (case rotated_token token of Some t \<Rightarrow> ReplaceToken t | None \<Rightarrow> if clear then ClearToken else Keep)"
      let ?n = "next_attempt_time now (b_early r (expires_in (reported_expiry token))) (b_max_refresh_interval_seconds r)"
      have rec: "record_refresh env i now (access_token token) change (now + seconds (expires_in (reported_expiry token))) ?n db = Inr db'"
        and lab: "label = ''success''"
        using assms l Inr Refreshed by (simp_all add: try_refresh_def Let_def change_def [symmetric] split: sum.splits)
      obtain r' enc where "broker_credentials db' i = Some r'" "b_next_attempt_at r' = Some ?n" "b_failure_count r' = 0"
        "\<not> b_dead r'" "encrypt env (access_token token) = Inr enc" "b_access_token r' = Some enc"
        "stored_change env token clear (b_refresh_token r) (b_refresh_token r')"
        using recorded_refresh [OF rec _ change_def] r by metis
      then show thesis using that(1) r Inr Refreshed lab by blast
    qed
  qed
qed

text \<open>
  An attempt is recorded only for a live, due and unlocked credential, and after it the credential is
  not due again for at least five seconds, by any replica: a success schedules the next one at least a
  minute later and within the maximal interval and clears the failures, a transient failure counts and
  waits five seconds to five minutes, and a dead credential waits for a person.
\<close>

lemma attempt_backs_off:
  assumes "try_refresh env locked now i db = (db', Inr (Some label))"
  shows "\<exists>r r'. broker_credentials db i = Some r \<and> \<not> locked \<and> refreshable now r \<and> broker_credentials db' i = Some r' \<and>
    {t. t < now + seconds 5 \<and> refreshable t r'} = {} \<and>
    (label = ''success'' \<and> b_failure_count r' = 0 \<and> \<not> b_dead r' \<and>
       (\<exists>t. b_next_attempt_at r' = Some t \<and> now + seconds 60 \<le> t \<and>
          t \<le> max (now + seconds 60) (now + seconds (b_max_refresh_interval_seconds r))) \<or>
     label = ''retry'' \<and> b_failure_count r' = b_failure_count r + 1 \<and> \<not> b_dead r' \<and>
       (\<exists>t. b_next_attempt_at r' = Some t \<and> now + seconds 5 \<le> t \<and> t \<le> now + seconds 300) \<or>
     label = ''dead'' \<and> b_dead r')"
  using assms
proof (cases rule: attempt_cases)
  case (1 c r r')
  then obtain t where "b_next_attempt_at r' = Some t" "now + seconds 60 \<le> t"
    "t \<le> max (now + seconds 60) (now + seconds (b_max_refresh_interval_seconds r))" "b_failure_count r' = 0" "\<not> b_dead r'"
    using next_attempt_bounds by blast
  moreover have "{u. u < now + seconds 5 \<and> refreshable u r'} = {}" using calculation(1,2) by (auto simp: refreshable_def seconds_def)
  ultimately show ?thesis using 1 by blast
next
  case (2 c r r')
  note b = retry_bounds [of now "b_failure_count r + 1"]
  have "{u. u < now + seconds 5 \<and> refreshable u r'} = {}" using 2(8) b by (auto simp: refreshable_def)
  moreover have "\<not> b_dead r'" using 2 by (simp add: refreshable_def)
  ultimately show ?thesis using 2 b by blast
next
  case (3 c r r')
  moreover have "{u. u < now + seconds 5 \<and> refreshable u r'} = {}" using 3(7) by (simp add: refreshable_def)
  ultimately show ?thesis by blast
qed

section \<open>Refresh tokens are not lost\<close>

text \<open>The request that presented the stored refresh token and was rejected.\<close>

definition rejected :: "broker_env \<Rightarrow> BrokerCredential \<Rightarrow> bool" where
  "rejected env c \<longleftrightarrow> (\<exists>t url form preqin e. present (bc_refresh_token c) = Some t \<and> (''refresh_token'', t) \<in> set form \<and>
     post env c url form preqin = Inl e \<and> \<not> err_retryable e)"

lemma initial_grant_clear:
  "initial_grant env c req why preqin stale = Inr (Refreshed token clear) \<Longrightarrow> clear \<Longrightarrow> stale \<and> rotated_token token = None"
  by (auto simp: initial_grant_def split: option.splits)

lemma fallback_clear:
  assumes "refresh_with_fallback env c req initial why preqin = Inr (Refreshed token True)"
    and "\<And>url form. req = Inr (url, form) \<Longrightarrow> \<exists>t. present (bc_refresh_token c) = Some t \<and> (''refresh_token'', t) \<in> set form"
  shows "rejected env c"
proof -
  have "present (bc_refresh_token c) \<noteq> None"
    using assms(1) initial_grant_clear [of env c initial why preqin False token True]
    by (cases "present (bc_refresh_token c)") (auto simp: refresh_with_fallback_def)
  then obtain url form where r: "req = Inr (url, form)" and
    p: "(case post env c url form preqin of Inr token \<Rightarrow> Inr (Refreshed token False)
       | Inl e \<Rightarrow> if err_retryable e then Inl e else initial_grant env c initial why preqin True) = Inr (Refreshed token True)"
    using assms(1) by (auto simp: refresh_with_fallback_def)
  then obtain e where "post env c url form preqin = Inl e" "\<not> err_retryable e" by (auto split: sum.splits if_splits)
  with r have "req = Inr (url, form)" "post env c url form preqin = Inl e" "\<not> err_retryable e" by simp_all
  then show ?thesis using assms(2) unfolding rejected_def by blast
qed

lemma form_has_field: "oauth_form c g [f] = Inr form \<Longrightarrow> f \<in> set form"
  by (auto simp: oauth_form_def)

lemma required_present: "required v n = Inr t \<longleftrightarrow> present v = Some t"
  by (simp add: required_def split: option.split)

lemma cleared_only_after_rejection:
  assumes "refresh_grant env c = Inr (Refreshed token True)"
  shows "rejected env c"
proof -
  consider "bc_grant c = ''password''" | "bc_grant c = ''preqin''"
    using assms by (auto simp: refresh_grant_def split: if_splits)
  then show ?thesis
  proof cases
    case 1
    then show ?thesis
      using assms form_has_field [of c "''refresh_token''"]
      by (auto simp: refresh_grant_def refresh_token_request_def required_present intro!: fallback_clear)
  next
    case 2
    then show ?thesis
      using assms
      by (auto simp: refresh_grant_def required_present intro!: fallback_clear split: option.splits)
  qed
qed

text \<open>
  C32. Refresh tokens are not lost (given an encryption that decrypts what it encrypts): after a recorded
  attempt the row holds the token the endpoint rotated to, or else the one it held; it is cleared only
  when the endpoint rejected it for good and another grant succeeded. A success also stores the new
  access token.
\<close>

theorem refresh_token_kept:
  assumes "\<And>t enc. encrypt env t = Inr enc \<Longrightarrow> decrypt env enc = Inr t"
    and "try_refresh env locked now i db = (db', Inr (Some label))"
  shows "\<exists>c r r'. broker_credentials db i = Some r \<and> credential_of_row env r = Inr c \<and> broker_credentials db' i = Some r' \<and>
    (label \<noteq> ''success'' \<and> b_refresh_token r' = b_refresh_token r \<and> b_access_token r' = b_access_token r \<or>
     label = ''success'' \<and>
       (\<exists>token clear. refresh_grant env c = Inr (Refreshed token clear) \<and>
          decrypt_opt env (b_access_token r') = Inr (Some (access_token token)) \<and>
          (case rotated_token token of
             Some t \<Rightarrow> decrypt_opt env (b_refresh_token r') = Inr (Some t)
           | None \<Rightarrow> b_refresh_token r' = b_refresh_token r \<and> \<not> clear \<or>
               b_refresh_token r' = None \<and> rejected env c)))"
  using assms(2)
proof (cases rule: attempt_cases)
  case (1 c r r')
  then obtain token clear enc where t: "refresh_grant env c = Inr (Refreshed token clear)" "encrypt env (access_token token) = Inr enc"
    "b_access_token r' = Some enc" "stored_change env token clear (b_refresh_token r) (b_refresh_token r')" by blast
  have "decrypt_opt env (b_access_token r') = Inr (Some (access_token token))"
    using assms(1) [OF t(2)] t(3) by (simp add: decrypt_opt_def)
  moreover have "case rotated_token token of
      Some t \<Rightarrow> decrypt_opt env (b_refresh_token r') = Inr (Some t)
    | None \<Rightarrow> b_refresh_token r' = b_refresh_token r \<and> \<not> clear \<or> b_refresh_token r' = None \<and> rejected env c"
    using t(4) assms(1) cleared_only_after_rejection [of env c token] t(1)
    by (cases clear) (auto simp: stored_change_def decrypt_opt_def split: option.splits)
  ultimately show ?thesis using 1 t(1) by blast
next
  case (2 c r r')
  moreover have "label \<noteq> ''success''" using 2 by simp
  ultimately show ?thesis by blast
next
  case (3 c r r')
  moreover have "label \<noteq> ''success''" using 3 by simp
  ultimately show ?thesis by blast
qed

section \<open>Outages\<close>

definition outage :: "broker_env \<Rightarrow> bool" where
  "outage env \<longleftrightarrow> (\<forall>rq. case http env rq of NetworkFailure _ _ \<Rightarrow> True | HttpReply status _ \<Rightarrow> status div 100 = 5 \<or> status = 429)"

definition complete_values :: "BrokerCredential \<Rightarrow> bool" where
  "complete_values c \<longleftrightarrow>
     bc_grant c = ''client_credentials'' \<or> present (bc_refresh_token c) \<noteq> None \<or>
     bc_grant c = ''password'' \<and> present (bc_username c) \<noteq> None \<and> present (bc_password c) \<noteq> None \<or>
     bc_grant c = ''preqin'' \<and> present (bc_username c) \<noteq> None \<and> present (bc_api_key c) \<noteq> None"

text \<open>A failure that keeps the credential alive.\<close>

definition transient :: "RefreshError + 'a \<Rightarrow> bool" where
  "transient r \<longleftrightarrow> (\<exists>e. r = Inl e \<and> err_retryable e)"

lemma transient_bind:
  "(\<And>e. r = Inl e \<Longrightarrow> err_retryable e) \<Longrightarrow> (\<And>a. r = Inr a \<Longrightarrow> transient (f a)) \<Longrightarrow> transient (res_bind r f)"
  by (cases r) (auto simp: transient_def)

lemma config_retryable [simp]: "err_retryable (config_error m)"
  by (simp add: config_error_def)

lemma form_error: "oauth_form c g extra = Inl e \<Longrightarrow> err_retryable e"
  by (auto simp: oauth_form_def required_def provider_def split: option.splits)

lemma required_error: "required v n = Inl e \<Longrightarrow> err_retryable e"
  by (auto simp: required_def split: option.splits)

lemma provider_error: "provider p = Inl e \<Longrightarrow> err_retryable e"
  by (auto simp: provider_def split: option.splits)

lemma outage_client: "outage env \<Longrightarrow> transient (client_post env rq)"
proof -
  assume "outage env"
  then have "case http env rq of NetworkFailure _ _ \<Rightarrow> True | HttpReply status _ \<Rightarrow> status div 100 = 5 \<or> status = 429"
    by (simp add: outage_def)
  then show ?thesis
    by (auto simp: client_post_def transient_def network_error_def retryable_error_def interpret_body_def Let_def
        split: http_reply.splits)
qed

lemma outage_post: "outage env \<Longrightarrow> transient (post env c url form preqin)"
  unfolding post_def
  using outage_client provider_error required_error
  by (auto simp: transient_def [of "Inl _"] Let_def intro!: transient_bind)

lemma outage_bind: "outage env \<Longrightarrow> transient (res_bind (post env c url form preqin) f)"
  using outage_post [of env c url form preqin] by (auto simp: transient_def)

lemma bind_error: "res_bind r f = Inl e \<longleftrightarrow> r = Inl e \<or> (\<exists>a. r = Inr a \<and> f a = Inl e)"
  by (cases r) auto

lemma map_error: "res_map f r = Inl e \<longleftrightarrow> r = Inl e"
  by (cases r) auto

lemma refresh_request_error: "refresh_token_request c = Inl e \<Longrightarrow> err_retryable e"
  by (auto simp: refresh_token_request_def bind_error dest: required_error form_error)

lemma outage_initial:
  assumes "outage env" and "req = Inr None \<Longrightarrow> False" and "\<And>e. req = Inl e \<Longrightarrow> err_retryable e"
  shows "transient (initial_grant env c req why preqin stale)"
  unfolding initial_grant_def using assms outage_bind by (intro transient_bind) (auto split: option.split)

lemma outage_fallback:
  assumes "outage env" and "\<And>e. req = Inl e \<Longrightarrow> err_retryable e" and "\<And>e. initial = Inl e \<Longrightarrow> err_retryable e"
    and "present (bc_refresh_token c) = None \<Longrightarrow> initial \<noteq> Inr None"
  shows "transient (refresh_with_fallback env c req initial why preqin)"
proof (cases "present (bc_refresh_token c)")
  case None
  then show ?thesis unfolding refresh_with_fallback_def using assms by (auto intro: outage_initial)
next
  case (Some t)
  have "transient (case post env c url form preqin of Inr token \<Rightarrow> Inr (Refreshed token False)
      | Inl e \<Rightarrow> if err_retryable e then Inl e else initial_grant env c initial why preqin True)" for url form
    using outage_post [OF assms(1), of c url form preqin] by (auto simp: transient_def)
  then show ?thesis unfolding refresh_with_fallback_def using Some assms(2) by (auto intro!: transient_bind)
qed

lemma outage_transient:
  assumes "outage env" and "complete_values c"
  shows "transient (refresh_grant env c)"
proof -
  consider "bc_grant c = ''client_credentials''" | "bc_grant c = ''password''" | "bc_grant c = ''preqin''"
    | "bc_grant c \<notin> {''client_credentials'', ''password'', ''preqin''}" "present (bc_refresh_token c) \<noteq> None"
    using assms(2) by (auto simp: complete_values_def)
  then show ?thesis
  proof cases
    case 1
    then show ?thesis unfolding refresh_grant_def
      using assms(1) by (auto intro!: transient_bind outage_bind dest: required_error form_error)
  next
    case 2
    then show ?thesis unfolding refresh_grant_def
      using assms by (auto intro!: outage_fallback simp: complete_values_def map_error split: option.splits
        dest: refresh_request_error form_error)
  next
    case 3
    then show ?thesis unfolding refresh_grant_def
      using assms by (auto intro!: outage_fallback simp: complete_values_def bind_error split: option.splits
        dest: required_error)
  next
    case 4
    then show ?thesis unfolding refresh_grant_def
      using assms(1) by (auto intro!: transient_bind outage_bind dest: refresh_request_error)
  qed
qed

text \<open>
  An outage never kills a credential: while the token endpoint is unreachable, rate limited or failing
  with 5xx, an attempt on a due credential that has its grant's values is recorded as a retry, and the
  credential stays live, with its tokens.
\<close>

lemma outage_retries:
  assumes "outage env" and "broker_credentials db i = Some r" and "refreshable now r" and "credential_of_row env r = Inr c"
    and "complete_values c"
  shows "\<exists>db' r'. try_refresh env False now i db = (db', Inr (Some ''retry'')) \<and> broker_credentials db' i = Some r' \<and>
    \<not> b_dead r' \<and> b_refresh_token r' = b_refresh_token r \<and> b_access_token r' = b_access_token r"
proof -
  have l: "lock_due_credential env False now i db = Inr (Some (c, r))" using assms by (simp add: locked_row)
  obtain e where "refresh_grant env c = Inl e" "err_retryable e"
    using outage_transient [OF assms(1,5)] by (auto simp: transient_def)
  then show ?thesis using l assms(2,3) by (simp add: try_refresh_def Let_def record_retry_def refreshable_def)
qed

section \<open>Example\<close>

definition example_broker_env :: "http_reply \<Rightarrow> broker_env" where
  "example_broker_env reply = \<lparr>http = (\<lambda>_. reply),
     parse_body = (\<lambda>_. Some (JObj [(''access_token'', JStr ''A2''), (''refresh_token'', JStr ''R2'')])),
     truncated_number = (\<lambda>_. 0), header_ok = (\<lambda>_ _. True), basic_auth = (\<lambda>_ _. []), join_refresh_token = Some,
     encrypt = Inr, decrypt = Inr\<rparr>"

definition example_credential_row :: credential_row where
  "example_credential_row = \<lparr>b_grant = ''refresh_token'', b_token_endpoint = ''https://idp.example/token'', b_oauth_app = None,
     b_client_id = Some ''cid'', b_client_secret = None, b_refresh_token = Some ''R1'', b_username = None, b_password = None,
     b_api_key = None, b_token_endpoint_headers = None, b_scopes = [], b_refresh_timeout_seconds = 30, b_early = (\<lambda>_. 0),
     b_max_refresh_interval_seconds = 3600, b_failure_count = 2, b_dead = False, b_dead_reason = None,
     b_access_token = Some ''A1'', b_expires_at = None, b_last_refresh = Some 0, b_next_attempt_at = Some 10, b_updated_at = 0\<rparr>"

definition example_broker_db :: broker_db where
  "example_broker_db = \<lparr>broker_credentials = [7 \<mapsto> example_credential_row], secret_sources = [], owner_grants = [],
     principal_roles = [], cache_versions = Map.empty\<rparr>"

definition example_credential :: BrokerCredential where
  "example_credential = \<lparr>bc_grant = ''refresh_token'', bc_token_endpoint = ''https://idp.example/token'', bc_provider = None,
     bc_client_id = Some ''cid'', bc_client_secret = None, bc_refresh_token = Some ''R1'', bc_username = None, bc_password = None,
     bc_api_key = None, bc_headers = [], bc_scopes = [], bc_timeout = 30\<rparr>"

lemma example_due:
  "broker_credentials example_broker_db 7 = Some example_credential_row" "refreshable 20 example_credential_row"
  "credential_of_row (example_broker_env reply) example_credential_row = Inr example_credential"
  by (simp_all add: example_broker_db_def example_credential_row_def refreshable_def credential_of_row_def decrypt_opt_def
      headers_of_def example_broker_env_def MAX_REQUEST_TIMEOUT_def example_credential_def)

lemma example_texts:
  "present (Some ''cid'') = Some ''cid''" "present (Some ''R1'') = Some ''R1''" "present None = None"
  "present_string (Some (JStr ''A2'')) = Some ''A2''" "present_string (Some (JStr ''R2'')) = Some ''R2''" "present_string None = None"
  by code_simp+

lemma example_success:
  "refresh_grant (example_broker_env (HttpReply 200 [])) example_credential =
     Inr (Refreshed \<lparr>access_token = ''A2'', rotated_token = Some ''R2'', reported_expiry = None\<rparr> False)"
  by (simp add: refresh_grant_def example_credential_def refresh_token_request_def required_def oauth_form_def provider_def
      STANDALONE_def post_def Let_def client_post_def example_broker_env_def interpret_body_def expiry_of_def example_texts)

lemma example_attempt:
  "\<exists>db'. try_refresh (example_broker_env (HttpReply 200 [])) False 20 7 example_broker_db = (db', Inr (Some ''success''))"
proof -
  have "lock_due_credential (example_broker_env (HttpReply 200 [])) False 20 7 example_broker_db = Inr (Some (example_credential, example_credential_row))"
    using example_due by (simp add: locked_row)
  moreover have "encrypt (example_broker_env reply) t = Inr t" for reply t by (simp add: example_broker_env_def)
  ultimately show ?thesis by (simp add: try_refresh_def example_success Let_def record_refresh_def)
qed

theorem refresh_token_kept_witness:
  "\<exists>r'. broker_credentials (fst (try_refresh (example_broker_env (HttpReply 200 [])) False 20 7 example_broker_db)) 7 = Some r' \<and>
     decrypt_opt (example_broker_env (HttpReply 200 [])) (b_refresh_token r') = Inr (Some ''R2'')"
proof -
  obtain db' where a: "try_refresh (example_broker_env (HttpReply 200 [])) False 20 7 example_broker_db = (db', Inr (Some ''success''))"
    using example_attempt by blast
  have "\<And>t enc. encrypt (example_broker_env (HttpReply 200 [])) t = Inr enc \<Longrightarrow> decrypt (example_broker_env (HttpReply 200 [])) enc = Inr t"
    by (simp add: example_broker_env_def)
  from refresh_token_kept [OF this a] a show ?thesis
    using example_due(1) example_due(3) [of "HttpReply 200 []"] example_success by auto
qed

end
