(* ===== verification/Spec2Isabelle.thy ===== *)
theory Spec2Isabelle
  imports Store_Steps Event_Order Warm_Pool Sandbox_Reaper Orphan_Adoption Session_Control Workflow_Schedules Proxy_Sync Tool_Secrets Slack_Rate_Limit Token_Broker
begin

text \<open>
  \<^bold>\<open>Centaur\<close> runs coding agents in sandboxes on behalf of chat threads. An API server accepts
  messages and executions for a thread, a session runtime starts or resumes a sandbox, writes the input
  to it and pumps its output into an event log, and every replica shares its state through one
  PostgreSQL database. Beside them, a console database holds the credentials a sandbox's proxy may use,
  a token broker keeps them fresh, a company-context service reads Slack within its rate limits, and a
  workflow engine runs Python workflows started by requests, webhooks and schedules. This development models the Rust implementation under \<^verbatim>\<open>src/crates\<close>.

  \<^bold>\<open>Layout.\<close>
  \<^item> \<open>Prelude\<close>: results (a sum, \<open>Inl\<close> the error), Rust's string functions on bytes, decimal
    numbers, and the collections \<open>store_defs\<close> and \<open>keep\<close> the store proofs use.
  \<^item> \<open>Relational\<close>: tables as lists of rows, \<^verbatim>\<open>update ... returning\<close>, \<^verbatim>\<open>order by\<close>, unique partial indexes;
    the locale \<open>keyed_update\<close> is the contract of an update that keeps the key of a row.
  \<^item> \<open>Json_Value\<close>: \<^verbatim>\<open>serde_json::Value\<close> and the \<^verbatim>\<open>jsonb\<close> operators.
  \<^item> \<open>Session_Core\<close> (\<^verbatim>\<open>centaur-session-core\<close>): thread keys, chat destinations and their printed
    context, the persisted enumerations (locale \<open>wire_enum\<close>: what is written is read back).
  \<^item> \<open>Store_Schema\<close>, \<open>Store_Sessions\<close>, \<open>Store_Executions\<close>, \<open>Store_Events\<close>, \<open>Store_Sandboxes\<close>
    (\<^verbatim>\<open>centaur-session-sqlx/src/lib.rs\<close> and the migrations): a record \<open>db\<close> of the five tables and one
    definition per function of the store, in the order of the file, with the statements' \<^verbatim>\<open>where\<close> and
    \<^verbatim>\<open>set\<close> clauses as predicates (\<open>_p\<close>) and row functions (\<open>_f\<close>). The locale \<open>exec_update\<close> is the contract of
    a statement on executions, interpreted for each of them. Retention (\<^verbatim>\<open>retention.rs\<close>) is in
    \<open>Store_Events\<close>.
  \<^item> \<open>Store_Steps\<close>: the step relation of all store calls, and the guarded one of the calls the services
    make; invariants by rule induction. \<open>Event_Order\<close>: the transactions behind an event insert (advisory
    lock, sequence, commit or rollback) as interleaved steps.
  \<^item> \<open>Sandbox_Core\<close>, \<open>Warm_Pool\<close>, \<open>Sandbox_Reaper\<close> (\<^verbatim>\<open>centaur-sandbox-core\<close>, \<^verbatim>\<open>centaur-sandbox-manager\<close>,
    \<^verbatim>\<open>cleanup.rs\<close>): statuses, errors and specifications, the backend trait as a record of functions over
    an arbitrary state, the manager, the warm pool, the reaper and the cleanup worker.
  \<^item> \<open>Redaction\<close>, \<open>Runtime_Output\<close>, \<open>Runtime_Turns\<close> (\<^verbatim>\<open>centaur-session-runtime/src/lib.rs\<close>): redaction of
    secrets in output, reading of harness output (terminal events, the final answer, attribution of
    lines), and the end of a turn: the stdout pump, terminal outputs, maximal durations, idle pauses. The
    locale \<open>turn_relation\<close> carries a relation across everything a pump does; it is interpreted with the
    guarded steps and with \<open>only redacted lines are logged\<close>.
  \<^item> \<open>Sandbox_Setup\<close>, \<open>Session_Start\<close> (same file): personas, capabilities and specifications of a sandbox; the
    opening of a session and the sandbox of a turn as calls over the database, the backend and the open pipes.
    The locales \<open>serve_relation\<close> and \<open>start_relation\<close> carry a relation across all store calls of a request;
    they are interpreted with the guarded steps, the sandbox columns, and what a thread is bound to for good.
  \<^item> \<open>Execution_Input\<close>, \<open>Session_Execute\<close>, \<open>Turn_Delivery\<close>, \<open>Orphan_Adoption\<close>, \<open>Session_Control\<close> (same file): the
    persisted request and the lines written for it; the drive of an execution from its claim to its last line and
    what a failure at any point leaves; the scan that adopts, fails or defers the executions of dead processes and
    the handoff at shutdown; steering, interrupts, release, drain and cleanup of sandboxes.
  \<^item> \<open>Workflow_Policy\<close>, \<open>Workflow_Queue\<close>, \<open>Workflow_Webhooks\<close>, \<open>Workflow_Schedules\<close>
    (\<^verbatim>\<open>centaur-workflows/src/lib.rs\<close>, the stored functions of \<^verbatim>\<open>0007_absurd_workflows.sql\<close>, \<^verbatim>\<open>absurd-sdk\<close>, and
    \<^verbatim>\<open>invoke_workflow_webhook\<close> of \<^verbatim>\<open>centaur-api-server/src/routes.rs\<close>): which workflows are enabled and under which
    principal they run; task queues as tables, with the step relation \<open>queue_step\<close> of spawns, cancellations and
    workers, and the locale \<open>task_update\<close> for what every update of a task keeps; webhooks from their registration
    to the run they start; schedules, their ticks and the reaper of removed workflows.
  \<^item> \<open>Console_Conflicts\<close>, \<open>Console_Config\<close> (\<^verbatim>\<open>centaur-console-db\<close>): credential records, the withholding of
    credentials a stronger one would overwrite, and the proxy configuration. \<open>Proxy_Sync\<close> (\<^verbatim>\<open>centaur-proxy-sync\<close>):
    the handler that gives a proxy this configuration with its tokens and claims, and its cache of hashes.
  \<^item> \<open>Tool_Manifest\<close>, \<open>Tool_Secrets\<close> (\<^verbatim>\<open>centaur-perms\<close>, with helpers of \<^verbatim>\<open>centaur-iron-control\<close> and
    \<^verbatim>\<open>centaur-iron-proxy\<close>): finding a tool in its directories, parsing the secrets it declares, and their translation
    to inputs of the control plane with ids, sources and request rules.
  \<^item> \<open>Slack_Rate_Limit\<close> (\<^verbatim>\<open>centaur-company-context/src/slack_rate_limit.rs\<close>): the shared schedule.
  \<^item> \<open>Token_Broker\<close> (\<^verbatim>\<open>centaur-token-broker\<close>): schedules, classification of responses, the grants and one
    refresh attempt with all it writes.

  \<^bold>\<open>What is shown.\<close>
  \<^item> Store: every call keeps the schema's constraints and decodability from an empty database on; a
    queued execution is claimed exactly once; a finished one stays as it is; an idempotency key names one
    execution forever; the owner columns implement an abstract lease lock; appends are fenced by it.
  \<^item> Event log: a reader that follows event ids misses nothing, because the per-thread lock orders the
    commits; paging is complete; retention deletes only expired output and drains its backlog.
  \<^item> Sandboxes: claims and evictions of warm sandboxes exclude each other, the pool's claim ends and
    hands out what it checked, filling stays in its budget, sweeps spare what is in use and reap what is not.
  \<^item> Turns: a pump is a run of the guarded store and does not panic; all it logs is redacted, and redacted
    text holds no secret of the known shapes; one terminal event per execution, that of its status; the
    final answer's byte ranges implement a list of attributed pieces; recovery agrees with the pump.
  \<^item> Sessions: a session keeps its persona and principal once it has them, and its persona is one the
    principal's access allows; the sandbox a turn gets is the one stored for it, made for the capabilities its
    principal has now; specifications mount only what the access allows.
  \<^item> Executions: input is written by at most one of any number of racing drivers, and a successful drive has
    written all of it to the right sandbox; every failed attempt leaves one of four stated situations, one of which
    (a failed access lookup) wedges the execution; adoption respects live leases and fails what is dead; a handoff
    leaves nothing owned; a drain without force spares busy sandboxes.
  \<^item> Workflows: a declared principal is enforced; a webhook starts a run only for an admitted request, never
    twice for the same delivery, and tells the run no credential; accepted filters are exactly the encodings of
    well-formed tests; registries are well formed; interval ticks stay on their grid; the reaper cancels only runs
    whose workflow was missing in the threshold of passes. Two flaws are stated as theorems: a blank bearer secret
    admits requests without a token, and a cancelled tick is not spawned again for the same instant.
  \<^item> Credentials: withholding equals its declarative rule, which has one solution; a redacted
    configuration is independent of the secrets; a proxy told that nothing changed has a current configuration
    with valid tokens; readers of a chat space are unambiguous; every credential
    a tool declares is scoped to hosts, and the inputs of a tool have different ids, though a secret granted alone may take the
    id of another one (stated as a theorem); which names of database secrets survive the round trip; refresh tokens are not lost,
    attempts back off and outages do not kill credentials; Slack calls are paced across replicas.

  \<^bold>\<open>Choices.\<close> Strings are lists of bytes. Times are integers (nanoseconds in the store, microseconds
  where the code keeps those); a statement gets the transaction's \<open>now\<close>, and \<^verbatim>\<open>clock_timestamp()\<close> is a
  separate argument; the statements of one runtime call share \<open>now\<close>. Rows another transaction holds,
  which \<^verbatim>\<open>skip locked\<close> passes over, are a predicate \<open>locked\<close>. Generated ids, the backend, the JSON parser,
  Unicode lowercasing, encryption, HTTP, opaque ids and floating point are arguments, of which a theorem
  assumes only what it states. Panics are a value (\<open>Panic\<close> or \<open>None\<close>). Loops recurse on the list they
  consume; the warm pool's claim loop and the redaction scanners have a termination proof (each round takes a
  ready row, or advances in the text), as has the search for a free id (it meets each used id once), so no fuel is
  needed.

  \<^bold>\<open>Not modelled.\<close> Telemetry, HTTP routing and clients, process and stream I/O, Kubernetes calls, and the
  services outside \<^verbatim>\<open>crates\<close> (TypeScript, Python, Ruby): they are calls of other systems. Of the session
  runtime: event streams and titles; a call of the runtime runs without interleaving with another one inside the
  same process, and the tasks it spawns (the pump, the lease renewer, timers) are values, modelled as calls of their
  own. Of the token broker and the workflow engine: the timer loops that call what is modelled. Of the durable
  tasks: claims, checkpoints, events and retention are arbitrary moves of a live task (\<open>queue_step\<close>); the host
  process of a workflow and its protocol are I/O. The commands of the permission
  translator print what the control plane answers, and the harness adapters translate between formats of other systems;
  they are left out. The \<^verbatim>\<open>i32\<close> counter of the search for a free id is a natural number, since it never exceeds the number
  of ids plus two.
\<close>

end
